(* ===== verification/Prelude.thy ===== *)
theory Prelude
  imports Main "HOL-Library.Word" "HOL-Library.Char_ord" "HOL-Library.List_Lexorder"
begin

text \<open>
  The vocabulary every component shares: Python exceptions as values, the result type
  that carries them, the sequencing of fallible steps (\<open>bindE\<close>), the loops over
  lists that stop at the first raise (\<open>foldE\<close>, \<open>mapE\<close>), and the generic list
  lemmas the component theories rely on.
\<close>

section \<open>Exceptions as values\<close>

text \<open>
  \<open>ThinSubnetError\<close> is the fail-closed error class of \<open>cathedral_thin/core.py\<close>; the
  other constructors are the built-in exceptions the modelled code can let escape.
\<close>

datatype py_error =
    ThinSubnetError string
  | PyValueError
  | PyTypeError
  | PyKeyError
  | PyUnicodeError
  | PyOSError
  | PyOverflowError
  | PyZeroDivisionError
  | PyIndexError
  | PyAttributeError
  | PyRuntimeError
  | PyRecursionError

type_synonym 'a res = "py_error + 'a"

abbreviation raise :: "string \<Rightarrow> 'a res" where
  "raise msg \<equiv> Inl (ThinSubnetError msg)"

named_theorems res_iff \<open>equivalences that split a sequenced computation into its steps\<close>
named_theorems resE \<open>the same as elimination rules\<close>

definition bindE :: "'a res \<Rightarrow> ('a \<Rightarrow> 'b res) \<Rightarrow> 'b res" where
  "bindE m f = (case m of Inl e \<Rightarrow> Inl e | Inr x \<Rightarrow> f x)"

lemma bindE_Inl [simp]: "bindE (Inl e) f = Inl e"
  by (simp add: bindE_def)

lemma bindE_Inr [simp]: "bindE (Inr x) f = f x"
  by (simp add: bindE_def)

lemma bindE_eq_Inr [res_iff]: "bindE m f = Inr y \<longleftrightarrow> (\<exists>x. m = Inr x \<and> f x = Inr y)"
  by (auto simp: bindE_def split: sum.splits)

lemma bindE_eq_Inl [res_iff]:
  "bindE m f = Inl e \<longleftrightarrow> m = Inl e \<or> (\<exists>x. m = Inr x \<and> f x = Inl e)"
  by (auto simp: bindE_def split: sum.splits)

lemma bindE_InrE [resE]:
  "bindE m f = Inr y \<Longrightarrow> (\<And>x. m = Inr x \<Longrightarrow> f x = Inr y \<Longrightarrow> P) \<Longrightarrow> P"
  by (auto simp: bindE_eq_Inr)

lemma bindE_split_asm:
  "P (bindE m f) \<longleftrightarrow> \<not> ((\<exists>e. m = Inl e \<and> \<not> P (Inl e)) \<or> (\<exists>x. m = Inr x \<and> \<not> P (f x)))"
  by (auto simp: bindE_def split: sum.splits)

lemma bindE_cong [fundef_cong]:
  "m = m' \<Longrightarrow> (\<And>x. m' = Inr x \<Longrightarrow> f x = f' x) \<Longrightarrow> bindE m f = bindE m' f'"
  by (auto simp: bindE_def split: sum.splits)

text \<open>\<open>guardE bad msg k\<close> is the idiom \<open>if bad: raise ThinSubnetError(msg)\<close>.\<close>

definition guardE :: "bool \<Rightarrow> string \<Rightarrow> 'a res \<Rightarrow> 'a res" where
  "guardE bad msg k = (if bad then raise msg else k)"

lemma guardE_simps [simp]:
  "guardE True msg k = raise msg"
  "guardE False msg k = k"
  by (simp_all add: guardE_def)

lemma guardE_eq_Inr [res_iff]: "guardE bad msg k = Inr y \<longleftrightarrow> \<not> bad \<and> k = Inr y"
  by (simp add: guardE_def)

lemma guardE_InrE [resE]: "guardE bad msg k = Inr y \<Longrightarrow> (\<not> bad \<Longrightarrow> k = Inr y \<Longrightarrow> P) \<Longrightarrow> P"
  by (simp add: guardE_eq_Inr)

lemma guardE_eq_Inl [res_iff]:
  "guardE bad msg k = Inl e \<longleftrightarrow> (bad \<and> e = ThinSubnetError msg) \<or> (\<not> bad \<and> k = Inl e)"
  by (auto simp: guardE_def)

lemma guardE_cong [fundef_cong]:
  "bad = bad' \<Longrightarrow> msg = msg' \<Longrightarrow> (\<not> bad' \<Longrightarrow> k = k') \<Longrightarrow> guardE bad msg k = guardE bad' msg' k'"
  by (simp add: guardE_def)

section \<open>Loops that may raise\<close>

fun foldE :: "('s \<Rightarrow> 'x \<Rightarrow> 's res) \<Rightarrow> 's \<Rightarrow> 'x list \<Rightarrow> 's res" where
  "foldE f s [] = Inr s"
| "foldE f s (x # xs) = bindE (f s x) (\<lambda>s'. foldE f s' xs)"

fun mapE :: "('x \<Rightarrow> 'y res) \<Rightarrow> 'x list \<Rightarrow> 'y list res" where
  "mapE f [] = Inr []"
| "mapE f (x # xs) = bindE (f x) (\<lambda>y. bindE (mapE f xs) (\<lambda>ys. Inr (y # ys)))"

lemma foldE_append: "foldE f s (xs @ ys) = bindE (foldE f s xs) (\<lambda>s'. foldE f s' ys)"
  by (induction xs arbitrary: s) (auto simp: bindE_def split: sum.splits)

lemma foldE_invariant:
  assumes "foldE f s xs = Inr t" and "P s"
    and step: "\<And>s x s'. x \<in> set xs \<Longrightarrow> P s \<Longrightarrow> f s x = Inr s' \<Longrightarrow> P s'"
  shows "P t"
  using assms(1,2) step
proof (induction xs arbitrary: s)
  case Nil
  then show ?case by simp
next
  case (Cons x xs)
  from Cons.prems(1) obtain s' where s': "f s x = Inr s'" and rest: "foldE f s' xs = Inr t"
    by (auto simp: res_iff)
  have "P s'" using Cons.prems(2,3) s' by (meson list.set_intros(1))
  with Cons.IH rest Cons.prems(3) show ?case by (meson list.set_intros(2))
qed

lemma mapE_length: "mapE f xs = Inr ys \<Longrightarrow> length ys = length xs"
  by (induction xs arbitrary: ys) (auto simp: res_iff)

lemma mapE_list_all2: "mapE f xs = Inr ys \<Longrightarrow> list_all2 (\<lambda>x y. f x = Inr y) xs ys"
  by (induction xs arbitrary: ys) (auto simp: res_iff)

lemma mapE_all: "mapE f xs = Inr ys \<Longrightarrow> y \<in> set ys \<Longrightarrow> \<exists>x \<in> set xs. f x = Inr y"
  by (induction xs arbitrary: ys) (auto simp: res_iff)

section \<open>Computations that may not return\<close>

text \<open>
  A loop without a static bound is a \<open>partial_function (option)\<close>: None is a run that
  never returns, \<open>Some (Inl e)\<close> one that raises. \<open>bindO\<close> sequences such runs.
\<close>

type_synonym 'a comp = "'a res option"

definition bindO :: "'a comp \<Rightarrow> ('a \<Rightarrow> 'b comp) \<Rightarrow> 'b comp" where
  "bindO m f = Option.bind m (\<lambda>r. case r of Inl e \<Rightarrow> Some (Inl e) | Inr x \<Rightarrow> f x)"

abbreviation returnO :: "'a \<Rightarrow> 'a comp" where
  "returnO x \<equiv> Some (Inr x)"

abbreviation raiseO :: "string \<Rightarrow> 'a comp" where
  "raiseO msg \<equiv> Some (raise msg)"

lemma bindO_simps [simp]:
  "bindO None f = None"
  "bindO (Some (Inl e)) f = Some (Inl e)"
  "bindO (Some (Inr x)) f = f x"
  by (simp_all add: bindO_def)

lemma bindO_returnE [resE]:
  "bindO m f = Some (Inr y) \<Longrightarrow> (\<And>x. m = Some (Inr x) \<Longrightarrow> f x = Some (Inr y) \<Longrightarrow> P) \<Longrightarrow> P"
  by (cases m; cases "the m") auto

lemma bindO_cong [fundef_cong]:
  "m = m' \<Longrightarrow> (\<And>x. m' = Some (Inr x) \<Longrightarrow> f x = f' x) \<Longrightarrow> bindO m f = bindO m' f'"
  by (cases m'; cases "the m'") auto

lemma bindO_mono [partial_function_mono]:
  assumes "mono_option m" and "\<And>x. mono_option (\<lambda>g. f x g)"
  shows "mono_option (\<lambda>g. bindO (m g) (\<lambda>x. f x g))"
proof -
  have "mono_option (\<lambda>g. case r of Inl e \<Rightarrow> Some (Inl e) | Inr x \<Rightarrow> f x g)" for r
    using assms(2) by (cases r) (auto simp: monotone_def flat_ord_def)
  then show ?thesis unfolding bindO_def using assms(1) by (intro bind_mono)
qed

section \<open>Association lists as insertion-ordered dictionaries\<close>

text \<open>
  A Python \<open>dict\<close> keeps insertion order, and the code iterates over it: it is an
  association list with distinct keys. \<open>dict_set\<close> is \<open>d[k] = v\<close>: it overwrites in
  place, or appends a new key at the end.
\<close>

fun dict_set :: "'k \<Rightarrow> 'v \<Rightarrow> ('k \<times> 'v) list \<Rightarrow> ('k \<times> 'v) list" where
  "dict_set k v [] = [(k, v)]"
| "dict_set k v ((k', v') # xs) = (if k' = k then (k, v) # xs else (k', v') # dict_set k v xs)"

definition dict_del :: "'k \<Rightarrow> ('k \<times> 'v) list \<Rightarrow> ('k \<times> 'v) list" where
  "dict_del k xs = filter (\<lambda>(k', _). k' \<noteq> k) xs"

lemma map_of_dict_set [simp]: "map_of (dict_set k v xs) = (map_of xs)(k \<mapsto> v)"
  by (induction k v xs rule: dict_set.induct) (auto simp: fun_eq_iff)

lemma set_dict_set: "set (dict_set k v xs) \<subseteq> insert (k, v) (set xs)"
  by (induction k v xs rule: dict_set.induct) auto

lemma in_dict_setD: "x \<in> set (dict_set k v xs) \<Longrightarrow> x = (k, v) \<or> x \<in> set xs"
  using set_dict_set [of k v xs] by auto

lemma keys_dict_set [simp]: "fst ` set (dict_set k v xs) = insert k (fst ` set xs)"
  by (induction k v xs rule: dict_set.induct) auto

lemma distinct_dict_set [simp]:
  "distinct (map fst xs) \<Longrightarrow> distinct (map fst (dict_set k v xs))"
proof (induction k v xs rule: dict_set.induct)
  case (2 k v k' v' xs)
  then show ?case using keys_dict_set [of k v xs] by (auto simp del: keys_dict_set simp flip: set_map)
qed simp

lemma length_dict_set: "length (dict_set k v xs) = (if k \<in> fst ` set xs then length xs else Suc (length xs))"
  by (induction k v xs rule: dict_set.induct) auto

lemma dict_set_new: "k \<notin> fst ` set xs \<Longrightarrow> dict_set k v xs = xs @ [(k, v)]"
  by (induction k v xs rule: dict_set.induct) auto

lemma map_of_dict_del [simp]: "map_of (dict_del k xs) = (map_of xs)(k := None)"
  by (induction xs) (auto simp: dict_del_def fun_eq_iff)

lemma keys_dict_del [simp]: "fst ` set (dict_del k xs) = fst ` set xs - {k}"
  by (auto simp: dict_del_def image_iff)

lemma distinct_dict_del [simp]: "distinct (map fst xs) \<Longrightarrow> distinct (map fst (dict_del k xs))"
  by (induction xs) (auto simp: dict_del_def)

section \<open>Generic list facts\<close>

lemma list_all2_Ball1: "list_all2 P xs ys \<Longrightarrow> x \<in> set xs \<Longrightarrow> \<exists>y \<in> set ys. P x y"
  by (induction rule: list_all2_induct) auto

lemma takeWhile_not_in: "x \<notin> set xs \<Longrightarrow> takeWhile (\<lambda>c. c \<noteq> x) (xs @ x # ys) = xs"
  by (induction xs) auto

end
