(* ===== verification/Py_Text.thy ===== *)
theory Py_Text
  imports Prelude
begin

text \<open>
  The parts of Python's \<open>str\<close> and \<open>bytes\<close> the modelled code uses. Text is a HOL
  \<open>string\<close>: a list of characters with codes 0..255, read as the code points of a Python
  string (Latin-1); bytes are \<open>8 word list\<close>. Code points above 255 are
  outside the model, but for \<open>encode_points\<close>, the UTF-8 encoder on any code points and its
  failure on a surrogate. The definitions follow CPython 3.11.
\<close>

section \<open>Bytes and encodings\<close>

type_synonym bytes = "8 word list"

definition byte_of :: "char \<Rightarrow> 8 word" where
  "byte_of c = word_of_nat (of_char c)"

definition char_of_byte :: "8 word \<Rightarrow> char" where
  "char_of_byte b = char_of (unat b)"

definition code :: "char \<Rightarrow> nat" where
  "code c = of_char c"

definition is_ascii :: "string \<Rightarrow> bool" where
  "is_ascii s = (\<forall>c \<in> set s. code c < 128)"

text \<open>\<open>s.encode("ascii")\<close> and \<open>b.decode("ascii")\<close>.\<close>

definition ascii_encode :: "string \<Rightarrow> bytes res" where
  "ascii_encode s = (if is_ascii s then Inr (map byte_of s) else Inl PyUnicodeError)"

definition ascii_decode :: "bytes \<Rightarrow> string res" where
  "ascii_decode b = (if \<forall>x \<in> set b. unat x < 128 then Inr (map char_of_byte b) else Inl PyUnicodeError)"

text \<open>The length in bytes of \<open>s.encode("utf-8")\<close>: two bytes for the code points 128..255.\<close>

definition utf8_length :: "string \<Rightarrow> nat" where
  "utf8_length s = (\<Sum>c \<leftarrow> s. if code c < 128 then 1 else 2)"

text \<open>\<open>s.encode("utf-8")\<close> on any Python string, given by its code points: a lone surrogate is a
  UnicodeEncodeError.\<close>

fun encode_points :: "nat list \<Rightarrow> bytes res" where
  "encode_points [] = Inr []"
| "encode_points (n # ns) =
     (if 55296 \<le> n \<and> n \<le> 57343 then Inl PyUnicodeError
      else bindE (encode_points ns) (\<lambda>raw. Inr (map word_of_nat
        (if n < 128 then [n]
         else if n < 2048 then [192 + n div 64, 128 + n mod 64]
         else if n < 65536 then [224 + n div 4096, 128 + n div 64 mod 64, 128 + n mod 64]
         else [240 + n div 262144, 128 + n div 4096 mod 64, 128 + n div 64 mod 64, 128 + n mod 64]) @ raw)))"

text \<open>\<open>s.encode()\<close>, UTF-8.\<close>

definition utf8_encode :: "string \<Rightarrow> bytes" where
  "utf8_encode s = concat (map (\<lambda>c. if code c < 128 then [byte_of c]
     else [word_of_nat (192 + code c div 64), word_of_nat (128 + code c mod 64)]) s)"

text \<open>\<open>hmac.compare_digest\<close> on strings: equality, but non-ASCII text is a TypeError.\<close>

definition compare_digest :: "string \<Rightarrow> string \<Rightarrow> bool res" where
  "compare_digest a b = (if is_ascii a \<and> is_ascii b then Inr (a = b) else Inl PyTypeError)"

lemma code_less [simp]: "code c < 256"
  by (simp add: code_def)

lemma char_of_byte_of [simp]: "char_of_byte (byte_of c) = c"
proof -
  have "unat (word_of_nat (of_char c) :: 8 word) = of_char c"
    by (simp add: unat_of_nat)
  then show ?thesis by (simp add: char_of_byte_def byte_of_def)
qed

lemma unat_byte_of [simp]: "unat (byte_of c) = code c"
  by (simp add: byte_of_def code_def unat_of_nat)

lemma byte_of_char_of [simp]: "byte_of (char_of_byte b) = b"
proof -
  have "unat b < 256" using unsigned_less [of b] by simp
  then have "of_char (char_of (unat b) :: char) = unat b" by (simp add: of_char_of)
  then show ?thesis by (simp add: byte_of_def char_of_byte_def)
qed

lemma ascii_roundtrip: "ascii_encode s = Inr b \<Longrightarrow> ascii_decode b = Inr s"
  by (auto simp: ascii_encode_def ascii_decode_def is_ascii_def comp_def split: if_splits)

lemma is_ascii_append [simp]: "is_ascii (s @ t) \<longleftrightarrow> is_ascii s \<and> is_ascii t"
  by (auto simp: is_ascii_def)

lemma is_ascii_Nil [simp]: "is_ascii []"
  by (simp add: is_ascii_def)

lemma is_ascii_Cons [simp]: "is_ascii (c # s) \<longleftrightarrow> code c < 128 \<and> is_ascii s"
  by (auto simp: is_ascii_def)

section \<open>Whitespace, lines and words\<close>

abbreviation LF :: char where "LF \<equiv> CHR 0x0A"

text \<open>\<open>str.isspace\<close> of one character.\<close>

definition is_space :: "char \<Rightarrow> bool" where
  "is_space c = (code c \<in> {9, 10, 11, 12, 13, 28, 29, 30, 31, 32, 133, 160})"

text \<open>The line boundaries of \<open>str.splitlines\<close>.\<close>

definition is_linebreak :: "char \<Rightarrow> bool" where
  "is_linebreak c = (code c \<in> {10, 11, 12, 13, 28, 29, 30, 133})"

text \<open>\<open>str.strip()\<close>.\<close>

definition lstrip :: "string \<Rightarrow> string" where
  "lstrip s = dropWhile is_space s"

definition strip :: "string \<Rightarrow> string" where
  "strip s = rev (dropWhile is_space (rev (lstrip s)))"

text \<open>\<open>str.splitlines()\<close>: the accumulator holds the current line, reversed.\<close>

fun lines_from :: "string \<Rightarrow> string \<Rightarrow> string list" where
  "lines_from cur [] = (if cur = [] then [] else [rev cur])"
| "lines_from cur [c] = (if is_linebreak c then [rev cur] else [rev (c # cur)])"
| "lines_from cur (c # d # cs) =
     (if code c = 13 \<and> code d = 10 then rev cur # lines_from [] cs
      else if is_linebreak c then rev cur # lines_from [] (d # cs)
      else lines_from (c # cur) (d # cs))"

definition splitlines :: "string \<Rightarrow> string list" where
  "splitlines s = lines_from [] s"

text \<open>\<open>str.split()\<close>: the maximal runs of non-whitespace.\<close>

fun words_from :: "string \<Rightarrow> string \<Rightarrow> string list" where
  "words_from cur [] = (if cur = [] then [] else [rev cur])"
| "words_from cur (c # cs) =
     (if is_space c then (if cur = [] then words_from [] cs else rev cur # words_from [] cs)
      else words_from (c # cur) cs)"

definition split_ws :: "string \<Rightarrow> string list" where
  "split_ws s = words_from [] s"

definition starts_with :: "string \<Rightarrow> string \<Rightarrow> bool" where
  "starts_with s p = (take (length p) s = p)"

lemma starts_with_append [simp]: "starts_with (p @ s) p"
  by (simp add: starts_with_def)

text \<open>\<open>s.removeprefix(p)\<close>.\<close>

definition removeprefix :: "string \<Rightarrow> string \<Rightarrow> string" where
  "removeprefix s p = (if starts_with s p then drop (length p) s else s)"

text \<open>\<open>str.lower()\<close> and \<open>str.upper()\<close> on the alphabet of the model; the upper case of
  the three code points whose upper case leaves the alphabet is not modelled: they are
  mapped to themselves.\<close>

definition lower_char :: "char \<Rightarrow> char" where
  "lower_char c = (if 65 \<le> code c \<and> code c \<le> 90 \<or> 192 \<le> code c \<and> code c \<le> 222 \<and> code c \<noteq> 215
     then char_of (code c + 32) else c)"

definition lower :: "string \<Rightarrow> string" where
  "lower s = map lower_char s"

definition upper_char :: "char \<Rightarrow> char" where
  "upper_char c = (if 97 \<le> code c \<and> code c \<le> 122 \<or> 224 \<le> code c \<and> code c \<le> 254 \<and> code c \<noteq> 247
     then char_of (code c - 32) else c)"

definition upper :: "string \<Rightarrow> string" where
  "upper s = map upper_char s"

text \<open>\<open>needle in s\<close> on strings, and \<open>s.split(sep)\<close> for a one-character separator.\<close>

fun contains :: "string \<Rightarrow> string \<Rightarrow> bool" where
  "contains [] p = (p = [])"
| "contains (c # cs) p = (starts_with (c # cs) p \<or> contains cs p)"

fun split_on :: "char \<Rightarrow> string \<Rightarrow> string list" where
  "split_on sep [] = [[]]"
| "split_on sep (c # cs) =
     (if c = sep then [] # split_on sep cs
      else (case split_on sep cs of [] \<Rightarrow> [[c]] | w # ws \<Rightarrow> (c # w) # ws))"

section \<open>Decimal numerals\<close>

definition digit_char :: "nat \<Rightarrow> char" where
  "digit_char d = char_of (48 + d)"

fun nat_str :: "nat \<Rightarrow> string" where
  "nat_str n = (if n < 10 then [digit_char n] else nat_str (n div 10) @ [digit_char (n mod 10)])"

declare nat_str.simps [simp del]

text \<open>\<open>str(n)\<close> for an integer.\<close>

definition int_str :: "int \<Rightarrow> string" where
  "int_str n = (if n < 0 then CHR ''-'' # nat_str (nat (- n)) else nat_str (nat n))"

definition is_digit :: "char \<Rightarrow> bool" where
  "is_digit c = (48 \<le> code c \<and> code c \<le> 57)"

definition digits_value :: "string \<Rightarrow> nat" where
  "digits_value s = foldl (\<lambda>acc c. 10 * acc + (code c - 48)) 0 s"

text \<open>
  The digits of an \<open>int()\<close> literal with its underscores dropped: an underscore may stand
  only between two digits; None for anything else. The flag says the previous character
  was a digit.
\<close>

fun digit_run :: "bool \<Rightarrow> string \<Rightarrow> string option" where
  "digit_run after_digit [] = (if after_digit then Some [] else None)"
| "digit_run after_digit (c # cs) =
     (if is_digit c then map_option ((#) c) (digit_run True cs)
      else if c = CHR ''_'' \<and> after_digit then digit_run False cs
      else None)"

text \<open>
  \<open>int(s)\<close>: surrounding whitespace (the C locale's, and Unicode's above ASCII), an
  optional sign, and at most 4300 digits (CPython's default conversion limit).
\<close>

definition int_space :: "char \<Rightarrow> bool" where
  "int_space c = (code c \<in> {9, 10, 11, 12, 13, 32, 133, 160})"

definition py_int :: "string \<Rightarrow> int option" where
  "py_int s =
     (let t = rev (dropWhile int_space (rev (dropWhile int_space s)));
          (neg, u) = (case t of [] \<Rightarrow> (False, [])
             | c # cs \<Rightarrow> if c = CHR ''-'' then (True, cs) else if c = CHR ''+'' then (False, cs) else (False, t))
      in case digit_run False u of
           None \<Rightarrow> None
         | Some ds \<Rightarrow> if length ds > 4300 then None
             else Some (if neg then - int (digits_value ds) else int (digits_value ds)))"

section \<open>Facts about numerals\<close>

lemma code_digit_char [simp]: "d < 10 \<Longrightarrow> code (digit_char d) = 48 + d"
  by (simp add: code_def digit_char_def of_char_of)

lemma is_digit_digit_char [simp]: "d < 10 \<Longrightarrow> is_digit (digit_char d)"
  by (simp add: is_digit_def)

lemma digits_value_snoc [simp]: "digits_value (s @ [c]) = 10 * digits_value s + (code c - 48)"
  by (simp add: digits_value_def)

lemma nat_str_digits: "c \<in> set (nat_str n) \<Longrightarrow> is_digit c"
proof (induction n rule: nat_str.induct)
  case (1 n)
  then show ?case by (auto simp: nat_str.simps [of n] split: if_splits)
qed

lemma nat_str_nonempty [simp]: "nat_str n \<noteq> []"
  by (simp add: nat_str.simps [of n])

lemma digits_value_nat_str [simp]: "digits_value (nat_str n) = n"
proof (induction n rule: nat_str.induct)
  case (1 n)
  show ?case
  proof (cases "n < 10")
    case True
    then show ?thesis using digits_value_snoc [of "[]" "digit_char n"]
      by (simp add: nat_str.simps [of n] digits_value_def)
  next
    case False
    then show ?thesis using 1 by (simp add: nat_str.simps [of n])
  qed
qed

lemma length_nat_str: "n < 10 ^ Suc k \<Longrightarrow> length (nat_str n) \<le> Suc k"
proof (induction k arbitrary: n)
  case 0
  then show ?case by (simp add: nat_str.simps [of n])
next
  case (Suc k)
  show ?case
  proof (cases "n < 10")
    case False
    have "n div 10 < 10 ^ Suc k" using Suc.prems by (simp add: less_mult_imp_div_less mult.commute)
    then show ?thesis using False Suc.IH by (simp add: nat_str.simps [of n])
  qed (simp add: nat_str.simps [of n])
qed

lemma digit_run_digits:
  "(\<And>c. c \<in> set s \<Longrightarrow> is_digit c) \<Longrightarrow> s \<noteq> [] \<or> b \<Longrightarrow> digit_run b s = Some s"
proof (induction s arbitrary: b)
  case (Cons c s)
  then have "digit_run True s = Some s" by (intro Cons.IH) auto
  with Cons.prems(1) show ?case by simp
qed simp

lemma not_is_digit_signs [simp]: "\<not> is_digit (CHR ''-'')" "\<not> is_digit (CHR ''+'')"
  "\<not> is_digit (CHR '' '')"
  by (simp_all add: is_digit_def code_def)

lemma digit_not_space: "is_digit c \<Longrightarrow> \<not> is_space c" "is_digit c \<Longrightarrow> \<not> int_space c"
  "is_digit c \<Longrightarrow> \<not> is_linebreak c"
  by (auto simp: is_digit_def is_space_def int_space_def is_linebreak_def)

definition numeral_char :: "char \<Rightarrow> bool" where
  "numeral_char c = (is_digit c \<or> c = CHR ''-'')"

lemma numeral_char_plain:
  "numeral_char c \<Longrightarrow> \<not> is_space c" "numeral_char c \<Longrightarrow> \<not> int_space c"
  "numeral_char c \<Longrightarrow> \<not> is_linebreak c" "numeral_char c \<Longrightarrow> code c < 128"
  "numeral_char c \<Longrightarrow> code c \<noteq> 99 \<and> code c \<noteq> 112"
  by (auto simp: numeral_char_def digit_not_space)
    (auto simp: is_space_def int_space_def is_linebreak_def code_def is_digit_def)

lemma int_str_chars: "c \<in> set (int_str n) \<Longrightarrow> numeral_char c"
  by (auto simp: int_str_def numeral_char_def dest: nat_str_digits split: if_splits)

lemma int_str_nonempty [simp]: "int_str n \<noteq> []"
  by (simp add: int_str_def)

lemma dropWhile_none: "(\<And>c. c \<in> set s \<Longrightarrow> \<not> p c) \<Longrightarrow> dropWhile p s = s"
  by (cases s) auto

lemma py_int_int_str:
  assumes "length (nat_str (nat \<bar>n\<bar>)) \<le> 4300"
  shows "py_int (int_str n) = Some n"
proof -
  have plain: "\<not> int_space c" if "c \<in> set (int_str n)" for c
    using that int_str_chars numeral_char_plain(2) by blast
  have t: "rev (dropWhile int_space (rev (dropWhile int_space (int_str n)))) = int_str n"
  proof -
    have "dropWhile int_space (int_str n) = int_str n"
      using plain by (rule dropWhile_none)
    moreover have "dropWhile int_space (rev (int_str n)) = rev (int_str n)"
      by (rule dropWhile_none) (simp add: plain)
    ultimately show ?thesis by simp
  qed
  have run: "digit_run False (nat_str k) = Some (nat_str k)" for k
    by (rule digit_run_digits) (auto dest: nat_str_digits)
  show ?thesis
  proof (cases "n < 0")
    case True
    then show ?thesis using assms by (simp add: py_int_def t) (simp add: int_str_def run)
  next
    case False
    obtain c cs where cs: "nat_str (nat n) = c # cs" by (meson list.exhaust nat_str_nonempty)
    have "is_digit c" using nat_str_digits [of c "nat n"] cs by simp
    then have "c \<noteq> CHR ''-''" "c \<noteq> CHR ''+''" using not_is_digit_signs by metis+
    moreover have "digits_value (c # cs) = nat n" using digits_value_nat_str [of "nat n"] cs by simp
    moreover have "int_str n = c # cs" "length cs < 4300"
      using False assms cs by (simp_all add: int_str_def)
    ultimately show ?thesis using False run [of "nat n"] t
      by (simp add: py_int_def cs del: digit_run.simps)
  qed
qed

section \<open>Facts about lines, words and stripping\<close>

lemma words_from_run:
  "(\<And>c. c \<in> set w \<Longrightarrow> \<not> is_space c) \<Longrightarrow> words_from cur (w @ s) = words_from (rev w @ cur) s"
  by (induction w arbitrary: cur) auto

lemma words_from_sep:
  "is_space c \<Longrightarrow> cur \<noteq> [] \<Longrightarrow> words_from cur (c # s) = rev cur # words_from [] s"
  by simp

lemma split_ws_Cons:
  assumes "\<And>c. c \<in> set w \<Longrightarrow> \<not> is_space c" and "w \<noteq> []"
  shows "split_ws (w @ CHR '' '' # s) = w # split_ws s" and "split_ws w = [w]"
proof -
  have sp: "is_space (CHR '' '')" by (simp add: is_space_def code_def)
  show "split_ws (w @ CHR '' '' # s) = w # split_ws s"
    using assms sp by (simp add: split_ws_def words_from_run del: words_from.simps) simp
  show "split_ws w = [w]"
    using words_from_run [OF assms(1), of w "[]" "[]"] assms(2) by (simp add: split_ws_def)
qed

lemma lines_from_LF:
  "(\<And>c. c \<in> set w \<Longrightarrow> \<not> is_linebreak c) \<Longrightarrow>
    lines_from cur (w @ LF # s) = (rev cur @ w) # lines_from [] s"
proof (induction w arbitrary: cur)
  case Nil
  have "is_linebreak LF" "code LF = 10" by (simp_all add: is_linebreak_def code_def)
  then show ?case by (cases s) simp_all
next
  case (Cons c w)
  then have "\<not> is_linebreak c" "code c \<noteq> 13" by (auto simp: is_linebreak_def)
  then show ?case using Cons by (cases "w @ LF # s") (auto simp: Cons.IH [of "c # cur"])
qed

lemma splitlines_LF:
  "(\<And>c. c \<in> set w \<Longrightarrow> \<not> is_linebreak c) \<Longrightarrow> splitlines (w @ LF # s) = w # splitlines s"
  by (simp add: splitlines_def lines_from_LF)

lemma splitlines_Nil [simp]: "splitlines [] = []"
  by (simp add: splitlines_def)

lemma strip_plain:
  assumes "s \<noteq> []" "\<not> is_space (hd s)" "\<not> is_space (last s)"
  shows "strip s = s"
proof -
  have "dropWhile is_space s = s" using assms by (cases s) auto
  moreover have "dropWhile is_space (rev s) = rev s"
    using assms by (cases s rule: rev_cases) auto
  ultimately show ?thesis by (simp add: strip_def lstrip_def)
qed

end
