(* ===== verification/Core_Cnf.thy ===== *)
theory Core_Cnf
  imports Py_Text
begin

text \<open>
  \<open>cathedral_thin/core.py\<close>, the 3-SAT formula: the value \<open>Cnf\<close>, its DIMACS text, the
  strict parser of untrusted DIMACS and the witness check that decides whether a miner's
  work counts. The lemmas show that the parser accepts exactly the texts of a
  grammar (\<open>text_spells\<close>), that printing and parsing are inverse, and that the witness check
  accepts exactly the complete satisfying assignments.
\<close>

section \<open>The formula and its text\<close>

type_synonym clause3 = "int \<times> int \<times> int"

record cnf =
  cnf_n_vars :: int
  cnf_clauses :: "clause3 list"

definition n_clauses :: "cnf \<Rightarrow> int" where
  "n_clauses c = int (length (cnf_clauses c))"

definition clause_line :: "clause3 \<Rightarrow> string" where
  "clause_line cl = (case cl of (a, b, c) \<Rightarrow>
     int_str a @ '' '' @ int_str b @ '' '' @ int_str c @ '' 0'')"

definition to_dimacs :: "cnf \<Rightarrow> string" where
  "to_dimacs c = ''p cnf '' @ int_str (cnf_n_vars c) @ '' '' @ int_str (n_clauses c) @ [LF]
     @ concat (map (\<lambda>cl. clause_line cl @ [LF]) (cnf_clauses c))"

section \<open>The strict parser\<close>

record dimacs_state =
  ds_n_vars :: "int option"
  ds_declared :: "int option"
  ds_clauses :: "clause3 list"

definition dimacs_init :: dimacs_state where
  "dimacs_init = \<lparr>ds_n_vars = None, ds_declared = None, ds_clauses = []\<rparr>"

definition int_or_value_error :: "string \<Rightarrow> int res" where
  "int_or_value_error s = (case py_int s of None \<Rightarrow> Inl PyValueError | Some n \<Rightarrow> Inr n)"

text \<open>The branch of a line that starts with \<open>p\<close>. Its \<open>int()\<close> calls are not guarded: a
  header that is not numeric escapes as a plain ValueError.\<close>

definition dimacs_header :: "dimacs_state \<Rightarrow> string \<Rightarrow> dimacs_state res" where
  "dimacs_header st line =
     guardE (ds_n_vars st \<noteq> None) ''multiple DIMACS headers''
       (let parts = split_ws line in
        guardE (length parts \<noteq> 4 \<or> parts ! 1 \<noteq> ''cnf'') ''invalid DIMACS header''
          (bindE (int_or_value_error (parts ! 2)) (\<lambda>nv.
           bindE (int_or_value_error (parts ! 3)) (\<lambda>nc.
             Inr (st\<lparr>ds_n_vars := Some nv, ds_declared := Some nc\<rparr>)))))"

definition token_int :: "string \<Rightarrow> int res" where
  "token_int t = (case py_int t of None \<Rightarrow> raise ''non-integer DIMACS token'' | Some n \<Rightarrow> Inr n)"

definition dimacs_clause :: "dimacs_state \<Rightarrow> string \<Rightarrow> dimacs_state res" where
  "dimacs_clause st line =
     (case ds_n_vars st of
        None \<Rightarrow> raise ''DIMACS clause precedes header''
      | Some nv \<Rightarrow>
          bindE (mapE token_int (split_ws line)) (\<lambda>tokens.
          guardE (length tokens \<noteq> 4 \<or> last tokens \<noteq> 0)
            ''only one terminated 3-SAT clause per line is accepted''
            (let a = tokens ! 0; b = tokens ! 1; c = tokens ! 2 in
             guardE (card {\<bar>a\<bar>, \<bar>b\<bar>, \<bar>c\<bar>} \<noteq> 3) ''clause variables must be distinct''
             (guardE (\<exists>lit \<in> {a, b, c}. lit = 0 \<or> \<bar>lit\<bar> > nv)
               ''literal outside declared variable range''
               (Inr (st\<lparr>ds_clauses := ds_clauses st @ [(a, b, c)]\<rparr>))))))"

definition dimacs_line :: "dimacs_state \<Rightarrow> string \<Rightarrow> dimacs_state res" where
  "dimacs_line st raw =
     (let line = strip raw in
      if line = [] \<or> starts_with line ''c'' then Inr st
      else if starts_with line ''p '' then dimacs_header st line
      else dimacs_clause st line)"

text \<open>\<open>expected is not None and actual != expected\<close>.\<close>

definition expected_mismatch :: "int option \<Rightarrow> int \<Rightarrow> bool" where
  "expected_mismatch expected actual = (case expected of None \<Rightarrow> False | Some v \<Rightarrow> actual \<noteq> v)"

definition parse_dimacs_strict :: "string \<Rightarrow> int option \<Rightarrow> int option \<Rightarrow> cnf res" where
  "parse_dimacs_strict txt expected_vars expected_clauses =
     bindE (foldE dimacs_line dimacs_init (splitlines txt)) (\<lambda>st.
       case ds_n_vars st of None \<Rightarrow> raise ''missing DIMACS header'' | Some nv \<Rightarrow>
       (case ds_declared st of None \<Rightarrow> raise ''missing DIMACS header'' | Some nc \<Rightarrow>
           guardE (int (length (ds_clauses st)) \<noteq> nc) ''DIMACS clause count mismatch''
           (guardE (expected_mismatch expected_vars nv)
             ''DIMACS variable count mismatch''
           (guardE (expected_mismatch expected_clauses (int (length (ds_clauses st))))
             ''DIMACS expected clause count mismatch''
             (Inr \<lparr>cnf_n_vars = nv, cnf_clauses = ds_clauses st\<rparr>)))))"

section \<open>The witness check\<close>

text \<open>The items of the untrusted iterable: an \<open>int\<close>, a \<open>bool\<close> (a subclass of \<open>int\<close> that the
  code refuses) or anything else.\<close>

datatype lit_item = LInt int | LBool bool | LOther

text \<open>The loop that fills \<open>values\<close>; None is its early \<open>return False\<close>.\<close>

fun witness_values :: "int \<Rightarrow> (int \<times> bool) list \<Rightarrow> lit_item list \<Rightarrow> (int \<times> bool) list option" where
  "witness_values nv vals [] = Some vals"
| "witness_values nv vals (LInt l # items) =
     (if l = 0 then None
      else if \<bar>l\<bar> > nv \<or> \<bar>l\<bar> \<in> fst ` set vals then None
      else witness_values nv (dict_set \<bar>l\<bar> (l > 0) vals) items)"
| "witness_values nv vals (LBool b # items) = None"
| "witness_values nv vals (LOther # items) = None"

text \<open>\<open>any(values[abs(lit)] == (lit > 0) for lit in clause)\<close>; a missing key is a KeyError.\<close>

fun any_true :: "(int \<times> bool) list \<Rightarrow> int list \<Rightarrow> bool res" where
  "any_true vals [] = Inr False"
| "any_true vals (l # ls) =
     (case map_of vals \<bar>l\<bar> of
        None \<Rightarrow> Inl PyKeyError
      | Some v \<Rightarrow> if v = (l > 0) then Inr True else any_true vals ls)"

fun all_clauses_true :: "(int \<times> bool) list \<Rightarrow> clause3 list \<Rightarrow> bool res" where
  "all_clauses_true vals [] = Inr True"
| "all_clauses_true vals ((a, b, c) # cls) =
     bindE (any_true vals [a, b, c]) (\<lambda>ok. if ok then all_clauses_true vals cls else Inr False)"

definition verify_witness :: "cnf \<Rightarrow> lit_item list \<Rightarrow> bool res" where
  "verify_witness c assignment =
     (case witness_values (cnf_n_vars c) [] assignment of
        None \<Rightarrow> Inr False
      | Some vals \<Rightarrow>
          if int (length vals) \<noteq> cnf_n_vars c \<or> (\<exists>v \<in> {1..cnf_n_vars c}. v \<notin> fst ` set vals)
          then Inr False
          else all_clauses_true vals (cnf_clauses c))"

section \<open>Well-formed formulas\<close>

definition clause_wf :: "int \<Rightarrow> clause3 \<Rightarrow> bool" where
  "clause_wf nv cl = (case cl of (a, b, c) \<Rightarrow>
     distinct [\<bar>a\<bar>, \<bar>b\<bar>, \<bar>c\<bar>] \<and> (\<forall>l \<in> {a, b, c}. l \<noteq> 0 \<and> \<bar>l\<bar> \<le> nv))"

definition cnf_wf :: "cnf \<Rightarrow> bool" where
  "cnf_wf c = (\<forall>cl \<in> set (cnf_clauses c). clause_wf (cnf_n_vars c) cl)"

lemma card3_distinct: "card {a, b, c} = 3 \<longleftrightarrow> distinct [a, b, c]"
  by (auto simp: card_insert_if)

definition ds_wf :: "dimacs_state \<Rightarrow> bool" where
  "ds_wf st = (case ds_n_vars st of
     None \<Rightarrow> ds_clauses st = [] | Some nv \<Rightarrow> \<forall>cl \<in> set (ds_clauses st). clause_wf nv cl)"

lemma dimacs_header_wf: "dimacs_header st line = Inr st' \<Longrightarrow> ds_wf st \<Longrightarrow> ds_wf st'"
  by (auto simp: dimacs_header_def res_iff Let_def ds_wf_def)

lemma dimacs_clause_wf: "dimacs_clause st line = Inr st' \<Longrightarrow> ds_wf st \<Longrightarrow> ds_wf st'"
  unfolding dimacs_clause_def Let_def
  by (cases "ds_n_vars st") (auto simp: ds_wf_def clause_wf_def card3_distinct elim!: resE)

lemma dimacs_line_wf: "dimacs_line st raw = Inr st' \<Longrightarrow> ds_wf st \<Longrightarrow> ds_wf st'"
  by (auto simp: dimacs_line_def Let_def dest: dimacs_header_wf dimacs_clause_wf split: if_splits)

lemma parse_dimacs_InrD:
  assumes "parse_dimacs_strict txt ev ec = Inr c"
  obtains st where "foldE dimacs_line dimacs_init (splitlines txt) = Inr st"
    and "ds_n_vars st = Some (cnf_n_vars c)" and "ds_clauses st = cnf_clauses c"
    and "ds_declared st = Some (n_clauses c)"
    and "\<not> expected_mismatch ev (cnf_n_vars c)" and "\<not> expected_mismatch ec (n_clauses c)"
  using assms by (auto simp: parse_dimacs_strict_def n_clauses_def elim!: resE split: option.splits)

lemma parse_dimacs_wf: "parse_dimacs_strict txt ev ec = Inr c \<Longrightarrow> cnf_wf c"
proof (erule parse_dimacs_InrD)
  fix st
  assume st: "foldE dimacs_line dimacs_init (splitlines txt) = Inr st"
    and c: "ds_n_vars st = Some (cnf_n_vars c)" "ds_clauses st = cnf_clauses c"
  have "ds_wf st"
  proof (rule foldE_invariant [OF st])
    show "ds_wf dimacs_init" by (simp add: ds_wf_def dimacs_init_def)
  qed (rule dimacs_line_wf)
  then show "cnf_wf c" using c by (simp add: ds_wf_def cnf_wf_def)
qed

lemma parse_dimacs_expected:
  "parse_dimacs_strict txt (Some v) (Some k) = Inr c \<Longrightarrow> cnf_n_vars c = v \<and> n_clauses c = k"
  by (erule parse_dimacs_InrD) (simp add: expected_mismatch_def)

section \<open>Printing and parsing are inverse\<close>

lemma int_str_no_space: "c \<in> set (int_str n) \<Longrightarrow> \<not> is_space c"
  using int_str_chars numeral_char_plain(1) by blast

lemma int_str_no_break: "c \<in> set (int_str n) \<Longrightarrow> \<not> is_linebreak c"
  using int_str_chars numeral_char_plain(3) by blast

lemma split_clause_line:
  "split_ws (clause_line (a, b, c)) = [int_str a, int_str b, int_str c, ''0'']"
proof -
  have zero: "split_ws ''0'' = [''0'']"
    by (rule split_ws_Cons(2)) (auto simp: is_space_def code_def)
  have step: "split_ws (int_str n @ CHR '' '' # s) = int_str n # split_ws s" for n s
    by (rule split_ws_Cons(1)) (simp_all add: int_str_no_space)
  show ?thesis by (simp add: clause_line_def step zero)
qed

definition small_int :: "int \<Rightarrow> bool" where
  "small_int n = (\<bar>n\<bar> \<le> 1000000)"

lemma py_int_small: "small_int n \<Longrightarrow> py_int (int_str n) = Some n"
proof (rule py_int_int_str)
  assume "small_int n"
  then have "nat \<bar>n\<bar> < 10 ^ Suc 6" by (simp add: small_int_def)
  then have "length (nat_str (nat \<bar>n\<bar>)) \<le> Suc 6" by (rule length_nat_str)
  then show "length (nat_str (nat \<bar>n\<bar>)) \<le> 4300" by simp
qed

lemma hd_last_int_str [simp]: "hd (int_str n) \<in> set (int_str n)" "last (int_str n) \<in> set (int_str n)"
  by simp_all

lemma numeral_char_hd: "numeral_char (hd (int_str n))"
  by (rule int_str_chars [of _ n]) simp

lemma strip_clause_line: "strip (clause_line (a, b, c)) = clause_line (a, b, c)"
proof (rule strip_plain)
  show "\<not> is_space (hd (clause_line (a, b, c)))"
    using numeral_char_hd numeral_char_plain(1) by (simp add: clause_line_def hd_append)
qed (simp_all add: clause_line_def is_space_def code_def)

lemma starts_with_Cons: "starts_with s (p # ps) \<longleftrightarrow> s \<noteq> [] \<and> hd s = p \<and> starts_with (tl s) ps"
  by (cases s) (auto simp: starts_with_def)

lemma starts_with_Nil [simp]: "starts_with s []"
  by (simp add: starts_with_def)

lemma clause_line_start:
  "\<not> starts_with (clause_line (a, b, c)) ''c''" "\<not> starts_with (clause_line (a, b, c)) ''p ''"
proof -
  have "hd (clause_line (a, b, c)) = hd (int_str a)" by (simp add: clause_line_def hd_append)
  moreover have "code (hd (int_str a)) \<noteq> 99 \<and> code (hd (int_str a)) \<noteq> 112"
    using numeral_char_hd numeral_char_plain(5) by blast
  ultimately show "\<not> starts_with (clause_line (a, b, c)) ''c''"
    "\<not> starts_with (clause_line (a, b, c)) ''p ''"
    by (auto simp: starts_with_Cons code_def)
qed

lemma clause_small: "clause_wf nv (a, b, c) \<Longrightarrow> nv \<le> 100000 \<Longrightarrow> small_int a \<and> small_int b \<and> small_int c"
  by (auto simp: clause_wf_def small_int_def)

lemma dimacs_line_clause:
  assumes "clause_wf nv (a, b, c)" "nv \<le> 100000" "ds_n_vars st = Some nv"
  shows "dimacs_line st (clause_line (a, b, c)) = Inr (st\<lparr>ds_clauses := ds_clauses st @ [(a, b, c)]\<rparr>)"
proof -
  have ne: "clause_line (a, b, c) \<noteq> []" by (simp add: clause_line_def)
  have zero: "py_int ''0'' = Some 0" by code_simp
  have tok: "mapE token_int [int_str a, int_str b, int_str c, ''0''] = Inr [a, b, c, 0]"
    using clause_small [OF assms(1,2)] by (simp add: token_int_def py_int_small zero)
  have "dimacs_line st (clause_line (a, b, c)) = dimacs_clause st (clause_line (a, b, c))"
    using ne clause_line_start by (simp add: dimacs_line_def strip_clause_line)
  also have "\<dots> = Inr (st\<lparr>ds_clauses := ds_clauses st @ [(a, b, c)]\<rparr>)"
    using assms(1) unfolding dimacs_clause_def assms(3) split_clause_line tok
    by (auto simp: clause_wf_def card3_distinct guardE_def Let_def)
  finally show ?thesis .
qed

lemma fold_clause_lines:
  assumes "\<forall>cl \<in> set cls. clause_wf nv cl" "nv \<le> 100000" "ds_n_vars st = Some nv"
  shows "foldE dimacs_line st (splitlines (concat (map (\<lambda>cl. clause_line cl @ [LF]) cls)))
    = Inr (st\<lparr>ds_clauses := ds_clauses st @ cls\<rparr>)"
  using assms
proof (induction cls arbitrary: st)
  case (Cons cl cls)
  obtain a b c where cl: "cl = (a, b, c)" by (cases cl)
  have "\<not> is_linebreak x" if "x \<in> set (clause_line cl)" for x
    using that int_str_no_break by (auto simp: cl clause_line_def is_linebreak_def code_def)
  then have "splitlines (clause_line cl @ LF # s) = clause_line cl # splitlines s" for s
    by (rule splitlines_LF)
  then show ?case using Cons dimacs_line_clause [of nv a b c st] by (simp add: cl)
qed simp

lemma header_line:
  assumes "small_int nv" "small_int nc"
  shows "dimacs_line dimacs_init (''p cnf '' @ int_str nv @ '' '' @ int_str nc)
    = Inr (dimacs_init\<lparr>ds_n_vars := Some nv, ds_declared := Some nc\<rparr>)"
proof -
  let ?l = "''p cnf '' @ int_str nv @ '' '' @ int_str nc"
  have plain: "\<not> is_space x" if "x \<in> {CHR ''p'', CHR ''c'', CHR ''n'', CHR ''f''}" for x
    using that by (auto simp: is_space_def code_def)
  have strip: "strip ?l = ?l"
  proof (rule strip_plain)
    show "\<not> is_space (last ?l)"
      using int_str_no_space [of "last (int_str nc)" nc] by (simp del: last_in_set)
  qed (simp_all add: plain)
  have "split_ws ?l = [''p'', ''cnf'', int_str nv, int_str nc]"
    using split_ws_Cons(1) [of "''p''" "''cnf '' @ int_str nv @ '' '' @ int_str nc"]
      split_ws_Cons(1) [of "''cnf''" "int_str nv @ '' '' @ int_str nc"]
      split_ws_Cons(1) [of "int_str nv" "int_str nc"] split_ws_Cons(2) [of "int_str nc"]
    by (auto simp: plain int_str_no_space)
  then have "dimacs_header dimacs_init ?l = Inr (dimacs_init\<lparr>ds_n_vars := Some nv, ds_declared := Some nc\<rparr>)"
    using assms by (simp add: dimacs_header_def int_or_value_error_def py_int_small dimacs_init_def)
  then show ?thesis by (simp add: dimacs_line_def strip [simplified] starts_with_Cons)
qed

lemma parse_to_dimacs:
  assumes "cnf_wf c" "0 \<le> cnf_n_vars c" "cnf_n_vars c \<le> 100000" "n_clauses c \<le> 1000000"
    and "\<not> expected_mismatch ev (cnf_n_vars c)" "\<not> expected_mismatch ec (n_clauses c)"
  shows "parse_dimacs_strict (to_dimacs c) ev ec = Inr c"
proof -
  let ?h = "''p cnf '' @ int_str (cnf_n_vars c) @ '' '' @ int_str (n_clauses c)"
  have small: "small_int (cnf_n_vars c)" "small_int (n_clauses c)"
    using assms by (auto simp: small_int_def n_clauses_def)
  have "\<not> is_linebreak x" if "x \<in> set ?h" for x
    using that int_str_no_break by (auto simp: is_linebreak_def code_def)
  then have "splitlines (?h @ LF # s) = ?h # splitlines s" for s by (rule splitlines_LF)
  then have "foldE dimacs_line dimacs_init (splitlines (to_dimacs c)) =
      Inr \<lparr>ds_n_vars = Some (cnf_n_vars c), ds_declared = Some (n_clauses c), ds_clauses = cnf_clauses c\<rparr>"
    using header_line [OF small] fold_clause_lines [of "cnf_clauses c" "cnf_n_vars c"] assms(1,3)
    by (simp add: to_dimacs_def cnf_wf_def dimacs_init_def)
  then show ?thesis using assms(5,6) by (simp add: parse_dimacs_strict_def n_clauses_def)
qed

section \<open>The witness check accepts exactly the complete models\<close>

definition lit_binding :: "int \<Rightarrow> int \<times> bool" where
  "lit_binding l = (\<bar>l\<bar>, l > 0)"

lemma fst_lit_binding [simp]: "fst (lit_binding l) = \<bar>l\<bar>"
  by (simp add: lit_binding_def)

definition fresh_lits :: "int \<Rightarrow> int set \<Rightarrow> int list \<Rightarrow> bool" where
  "fresh_lits nv used ls = ((\<forall>l \<in> set ls. l \<noteq> 0 \<and> \<bar>l\<bar> \<le> nv) \<and> distinct (map abs ls) \<and> abs ` set ls \<inter> used = {})"

lemma witness_values_eq:
  "witness_values nv vals items = Some vals' \<longleftrightarrow>
    (\<exists>ls. items = map LInt ls \<and> fresh_lits nv (fst ` set vals) ls \<and> vals' = vals @ map lit_binding ls)"
proof (induction nv vals items rule: witness_values.induct)
  case (1 nv vals)
  then show ?case by (auto simp: fresh_lits_def)
next
  case (2 nv vals l items)
  show ?case
  proof (cases "l = 0 \<or> \<bar>l\<bar> > nv \<or> \<bar>l\<bar> \<in> fst ` set vals")
    case True
    then show ?thesis by (auto simp: fresh_lits_def Cons_eq_map_conv)
  next
    case False
    then have "witness_values nv vals (LInt l # items) = Some vals' \<longleftrightarrow>
      (\<exists>ls. items = map LInt ls \<and> fresh_lits nv (insert \<bar>l\<bar> (fst ` set vals)) ls
        \<and> vals' = vals @ lit_binding l # map lit_binding ls)"
      using 2 by (simp add: dict_set_new flip: lit_binding_def)
    moreover have "fresh_lits nv (fst ` set vals) (l # ls) \<longleftrightarrow> fresh_lits nv (insert \<bar>l\<bar> (fst ` set vals)) ls" for ls
      using False by (auto simp: fresh_lits_def)
    ultimately show ?thesis by (auto simp: Cons_eq_map_conv)
  qed
qed (auto simp: Cons_eq_map_conv)

definition complete_lits :: "int \<Rightarrow> int list \<Rightarrow> bool" where
  "complete_lits nv ls = ((\<forall>l \<in> set ls. l \<noteq> 0) \<and> distinct (map abs ls) \<and> abs ` set ls = {1..nv})"

lemma lit_binding_keys [simp]: "fst ` set (map lit_binding ls) = abs ` set ls"
  by (auto simp: lit_binding_def image_iff)

lemma complete_lits_iff:
  "0 \<le> nv \<Longrightarrow> fresh_lits nv {} ls \<and> int (length ls) = nv \<and> {1..nv} \<subseteq> abs ` set ls \<longleftrightarrow> complete_lits nv ls"
proof
  assume "complete_lits nv ls" and "0 \<le> nv"
  moreover from this have "card (abs ` set ls) = length ls"
    by (metis complete_lits_def distinct_card length_map list.set_map)
  ultimately show "fresh_lits nv {} ls \<and> int (length ls) = nv \<and> {1..nv} \<subseteq> abs ` set ls"
    by (auto simp: complete_lits_def fresh_lits_def)
qed (auto simp: complete_lits_def fresh_lits_def)

lemma map_of_lit_binding:
  assumes "distinct (map abs ls)" "\<forall>l \<in> set ls. l \<noteq> (0::int)"
  shows "map_of (map lit_binding ls) \<bar>l\<bar> = Some (l > 0) \<longleftrightarrow> l \<in> set ls \<or> (l = 0 \<and> 0 \<in> set ls)"
proof -
  have d: "distinct (map fst (map lit_binding ls))" using assms(1) by (simp add: lit_binding_def comp_def)
  have "map_of (map lit_binding ls) \<bar>l\<bar> = Some (l > 0) \<longleftrightarrow> (\<exists>m \<in> set ls. \<bar>m\<bar> = \<bar>l\<bar> \<and> (m > 0) = (l > 0))"
    unfolding map_of_eq_Some_iff [OF d] by (auto simp: lit_binding_def)
  moreover have "m = l" if "m \<in> set ls" "\<bar>m\<bar> = \<bar>l\<bar>" "(m > 0) = (l > 0)" for m
    using that assms(2) by (metis abs_eq_iff neg_0_less_iff_less not_less_iff_gr_or_eq)
  ultimately show ?thesis by blast
qed

definition clause_lits :: "clause3 \<Rightarrow> int list" where
  "clause_lits cl = (case cl of (a, b, c) \<Rightarrow> [a, b, c])"

lemma any_true_eq:
  assumes "complete_lits nv ls" "\<forall>l \<in> set lits. l \<noteq> 0 \<and> \<bar>l\<bar> \<le> nv"
  shows "any_true (map lit_binding ls) lits = Inr (set lits \<inter> set ls \<noteq> {})"
  using assms(2)
proof (induction lits)
  case (Cons l lits)
  have ok: "distinct (map abs ls)" "\<forall>m \<in> set ls. m \<noteq> 0" using assms(1) by (auto simp: complete_lits_def)
  have "\<bar>l\<bar> \<in> fst ` set (map lit_binding ls)"
    using assms(1) Cons.prems unfolding lit_binding_keys by (auto simp: complete_lits_def)
  then obtain v where v: "map_of (map lit_binding ls) \<bar>l\<bar> = Some v"
    by (metis map_of_eq_None_iff not_None_eq)
  then have "v = (l > 0) \<longleftrightarrow> l \<in> set ls" using map_of_lit_binding [OF ok, of l] Cons.prems by auto
  then show ?case using v Cons by auto
qed simp

lemma all_clauses_true_eq:
  assumes "complete_lits nv ls" "\<forall>cl \<in> set cls. clause_wf nv cl"
  shows "all_clauses_true (map lit_binding ls) cls
    = Inr (\<forall>cl \<in> set cls. set (clause_lits cl) \<inter> set ls \<noteq> {})"
  using assms(2)
proof (induction cls)
  case (Cons cl cls)
  obtain a b c where cl: "cl = (a, b, c)" by (cases cl)
  have "any_true (map lit_binding ls) [a, b, c] = Inr (set [a, b, c] \<inter> set ls \<noteq> {})"
    using Cons.prems by (intro any_true_eq [OF assms(1)]) (auto simp: cl clause_wf_def)
  then show ?case using Cons by (auto simp: cl clause_lits_def simp del: any_true.simps)
qed simp

text \<open>The specification: the items are the literals of one total assignment of the
  variables \<open>1..n_vars\<close>, and every clause holds one of them.\<close>

definition is_model :: "cnf \<Rightarrow> int list \<Rightarrow> bool" where
  "is_model c ls = (complete_lits (cnf_n_vars c) ls \<and>
     (\<forall>cl \<in> set (cnf_clauses c). set (clause_lits cl) \<inter> set ls \<noteq> {}))"

lemma verify_witness_iff:
  assumes "cnf_wf c" "0 \<le> cnf_n_vars c"
  shows "verify_witness c items = Inr (\<exists>ls. items = map LInt ls \<and> is_model c ls)"
proof (cases "witness_values (cnf_n_vars c) [] items")
  case None
  have "\<not> is_model c ls" if "items = map LInt ls" for ls
    using None that complete_lits_iff [OF assms(2), of ls]
      witness_values_eq [of "cnf_n_vars c" "[]" items "map lit_binding ls"]
    by (auto simp: is_model_def)
  then show ?thesis using None by (auto simp: verify_witness_def)
next
  case (Some vals)
  then obtain ls where ls: "items = map LInt ls" "fresh_lits (cnf_n_vars c) {} ls" "vals = map lit_binding ls"
    by (auto simp: witness_values_eq)
  have uniq: "items = map LInt ms \<longleftrightarrow> ms = ls" for ms
    using ls(1) by (metis inj_map_eq_map inj_on_def lit_item.inject(1))
  show ?thesis
  proof (cases "complete_lits (cnf_n_vars c) ls")
    case True
    then have "int (length ls) = cnf_n_vars c" "{1..cnf_n_vars c} \<subseteq> fst ` set vals"
      using complete_lits_iff [OF assms(2), of ls] ls(3) by (simp_all del: set_map)
    then have "verify_witness c items = all_clauses_true (map lit_binding ls) (cnf_clauses c)"
      using Some ls(3) by (auto simp: verify_witness_def)
    then show ?thesis using all_clauses_true_eq [OF True] assms(1) True
      by (simp add: uniq is_model_def cnf_wf_def)
  next
    case False
    then have "\<not> (int (length vals) = cnf_n_vars c \<and> {1..cnf_n_vars c} \<subseteq> fst ` set vals)"
      using complete_lits_iff [OF assms(2), of ls] ls(2,3) by (auto simp del: set_map)
    then have "verify_witness c items = Inr False"
      using Some by (auto simp: verify_witness_def)
    then show ?thesis using False by (auto simp: uniq is_model_def)
  qed
qed

section \<open>The accepted texts\<close>

text \<open>A grammar of the texts that denote a formula, stated without the parser: the lines that
  are neither blank nor comments are one header with the two declared counts, then one line for
  each clause.\<close>

definition significant :: "string list \<Rightarrow> string list" where
  "significant lines = filter (\<lambda>l. l \<noteq> [] \<and> \<not> starts_with l ''c'') (map strip lines)"

definition header_spells :: "string \<Rightarrow> int \<Rightarrow> int \<Rightarrow> bool" where
  "header_spells l nv nc \<longleftrightarrow> starts_with l ''p '' \<and>
     (\<exists>p v k. split_ws l = [p, ''cnf'', v, k] \<and> py_int v = Some nv \<and> py_int k = Some nc)"

definition clause_spells :: "string \<Rightarrow> clause3 \<Rightarrow> bool" where
  "clause_spells l cl \<longleftrightarrow> \<not> starts_with l ''p '' \<and>
     (case cl of (a, b, c) \<Rightarrow> map py_int (split_ws l) = map Some [a, b, c, 0])"

definition text_spells :: "string \<Rightarrow> cnf \<Rightarrow> bool" where
  "text_spells txt c \<longleftrightarrow>
     (\<exists>header body. significant (splitlines txt) = header # body \<and>
        header_spells header (cnf_n_vars c) (n_clauses c) \<and> list_all2 clause_spells body (cnf_clauses c))"

definition dimacs_sig :: "dimacs_state \<Rightarrow> string \<Rightarrow> dimacs_state res" where
  "dimacs_sig st l = (if starts_with l ''p '' then dimacs_header st l else dimacs_clause st l)"

lemma fold_significant: "foldE dimacs_line st lines = foldE dimacs_sig st (significant lines)"
  by (induction lines arbitrary: st) (auto simp: significant_def dimacs_line_def dimacs_sig_def Let_def)

lemma mapE_token_int: "mapE token_int ts = Inr ns \<longleftrightarrow> map py_int ts = map Some ns"
proof (induction ts arbitrary: ns)
  case (Cons t ts)
  then show ?case by (cases ns) (auto simp: token_int_def res_iff split: option.splits)
qed auto

lemma four_elements: "length xs = 4 \<longleftrightarrow> (\<exists>a b c d. xs = [a, b, c, d])"
  by (auto simp: eval_nat_numeral length_Suc_conv)

lemma dimacs_clause_iff:
  assumes "ds_n_vars st = Some nv" "\<not> starts_with l ''p ''"
  shows "dimacs_clause st l = Inr st' \<longleftrightarrow>
    (\<exists>cl. clause_spells l cl \<and> clause_wf nv cl \<and> st' = st\<lparr>ds_clauses := ds_clauses st @ [cl]\<rparr>)"
proof
  assume "dimacs_clause st l = Inr st'"
  then obtain ts where "mapE token_int (split_ws l) = Inr ts" "length ts = 4" "last ts = 0"
      "card {\<bar>ts ! 0\<bar>, \<bar>ts ! 1\<bar>, \<bar>ts ! 2\<bar>} = 3"
      "\<forall>lit \<in> {ts ! 0, ts ! 1, ts ! 2}. lit \<noteq> 0 \<and> \<bar>lit\<bar> \<le> nv"
      "st' = st\<lparr>ds_clauses := ds_clauses st @ [(ts ! 0, ts ! 1, ts ! 2)]\<rparr>"
    using assms(1) by (auto simp: dimacs_clause_def Let_def elim!: resE)
  then show "\<exists>cl. clause_spells l cl \<and> clause_wf nv cl \<and> st' = st\<lparr>ds_clauses := ds_clauses st @ [cl]\<rparr>"
    using assms(2) unfolding four_elements
    by (intro exI [of _ "(ts ! 0, ts ! 1, ts ! 2)"])
      (auto simp: clause_spells_def clause_wf_def mapE_token_int card3_distinct)
next
  assume "\<exists>cl. clause_spells l cl \<and> clause_wf nv cl \<and> st' = st\<lparr>ds_clauses := ds_clauses st @ [cl]\<rparr>"
  then obtain a b c where "mapE token_int (split_ws l) = Inr [a, b, c, 0]" "clause_wf nv (a, b, c)"
      "st' = st\<lparr>ds_clauses := ds_clauses st @ [(a, b, c)]\<rparr>"
    by (auto simp: clause_spells_def mapE_token_int)
  then show "dimacs_clause st l = Inr st'"
    using assms(1) by (auto simp: dimacs_clause_def clause_wf_def card3_distinct guardE_def)
qed

lemma fold_clause_lines_iff:
  assumes "ds_n_vars st = Some nv"
  shows "foldE dimacs_sig st ls = Inr st' \<longleftrightarrow>
    (\<exists>cls. list_all2 clause_spells ls cls \<and> (\<forall>cl \<in> set cls. clause_wf nv cl) \<and>
       st' = st\<lparr>ds_clauses := ds_clauses st @ cls\<rparr>)"
  using assms
proof (induction ls arbitrary: st)
  case (Cons l ls)
  let ?add = "\<lambda>cls. st\<lparr>ds_clauses := ds_clauses st @ cls\<rparr>"
  have step: "dimacs_sig st l = Inr st1 \<longleftrightarrow> (\<exists>cl. clause_spells l cl \<and> clause_wf nv cl \<and> st1 = ?add [cl])" for st1
  proof (cases "starts_with l ''p ''")
    case True
    then show ?thesis using Cons.prems
      by (simp add: dimacs_sig_def dimacs_header_def guardE_def clause_spells_def)
  next
    case False
    then show ?thesis using dimacs_clause_iff [OF Cons.prems False] by (simp add: dimacs_sig_def)
  qed
  have rest: "foldE dimacs_sig (?add [cl]) ls = Inr st' \<longleftrightarrow>
      (\<exists>cls. list_all2 clause_spells ls cls \<and> (\<forall>cl \<in> set cls. clause_wf nv cl) \<and> st' = ?add (cl # cls))" for cl
    using Cons.IH [of "?add [cl]"] Cons.prems by simp
  have "foldE dimacs_sig st (l # ls) = Inr st' \<longleftrightarrow>
      (\<exists>st1. dimacs_sig st l = Inr st1 \<and> foldE dimacs_sig st1 ls = Inr st')" by (simp add: res_iff)
  also have "\<dots> \<longleftrightarrow> (\<exists>cl. clause_spells l cl \<and> clause_wf nv cl \<and> foldE dimacs_sig (?add [cl]) ls = Inr st')"
    unfolding step by blast
  also have "\<dots> \<longleftrightarrow> (\<exists>cl cls. clause_spells l cl \<and> clause_wf nv cl \<and> list_all2 clause_spells ls cls \<and>
      (\<forall>cl \<in> set cls. clause_wf nv cl) \<and> st' = ?add (cl # cls))" unfolding rest by blast
  also have "\<dots> \<longleftrightarrow> (\<exists>cls. list_all2 clause_spells (l # ls) cls \<and> (\<forall>cl \<in> set cls. clause_wf nv cl) \<and> st' = ?add cls)"
    unfolding list_all2_Cons1 by (rule iffI) (elim exE conjE, force)+
  finally show ?case .
qed (auto simp: eq_commute)

lemma parse_dimacs_iff:
  "parse_dimacs_strict txt ev ec = Inr c \<longleftrightarrow>
     text_spells txt c \<and> cnf_wf c \<and> \<not> expected_mismatch ev (cnf_n_vars c) \<and> \<not> expected_mismatch ec (n_clauses c)"
proof
  assume p: "parse_dimacs_strict txt ev ec = Inr c"
  then obtain st where st: "foldE dimacs_sig dimacs_init (significant (splitlines txt)) = Inr st"
      "ds_n_vars st = Some (cnf_n_vars c)" "ds_clauses st = cnf_clauses c" "ds_declared st = Some (n_clauses c)"
    by (rule parse_dimacs_InrD) (simp add: fold_significant)
  obtain l ls where sig: "significant (splitlines txt) = l # ls"
    using st(1,2) by (cases "significant (splitlines txt)") (auto simp: dimacs_init_def)
  obtain st1 where s1: "dimacs_sig dimacs_init l = Inr st1" "foldE dimacs_sig st1 ls = Inr st"
    using st(1) sig by (auto elim!: resE)
  then obtain nv nc where h: "header_spells l nv nc" "st1 = \<lparr>ds_n_vars = Some nv, ds_declared = Some nc, ds_clauses = []\<rparr>"
    by (auto simp: dimacs_sig_def dimacs_header_def dimacs_clause_def dimacs_init_def header_spells_def Let_def
        four_elements int_or_value_error_def elim!: resE split: if_split_asm option.splits)
  then show "text_spells txt c \<and> cnf_wf c \<and> \<not> expected_mismatch ev (cnf_n_vars c) \<and> \<not> expected_mismatch ec (n_clauses c)"
    using fold_clause_lines_iff [of st1 nv ls st] s1(2) st(2-) sig parse_dimacs_wf [OF p] p
    by (auto simp: text_spells_def elim!: parse_dimacs_InrD)
next
  assume r: "text_spells txt c \<and> cnf_wf c \<and> \<not> expected_mismatch ev (cnf_n_vars c) \<and> \<not> expected_mismatch ec (n_clauses c)"
  then obtain l ls where sig: "significant (splitlines txt) = l # ls" "header_spells l (cnf_n_vars c) (n_clauses c)"
      "list_all2 clause_spells ls (cnf_clauses c)" by (auto simp: text_spells_def)
  let ?st1 = "\<lparr>ds_n_vars = Some (cnf_n_vars c), ds_declared = Some (n_clauses c), ds_clauses = []\<rparr>"
  have "dimacs_sig dimacs_init l = Inr ?st1" using sig(2)
    by (auto simp: header_spells_def dimacs_sig_def dimacs_header_def dimacs_init_def guardE_def int_or_value_error_def)
  moreover have "foldE dimacs_sig ?st1 ls = Inr (?st1\<lparr>ds_clauses := cnf_clauses c\<rparr>)"
    using fold_clause_lines_iff [of ?st1 "cnf_n_vars c" ls] sig(3) r by (auto simp: cnf_wf_def)
  ultimately have "foldE dimacs_line dimacs_init (splitlines txt) = Inr (?st1\<lparr>ds_clauses := cnf_clauses c\<rparr>)"
    using sig(1) by (simp add: fold_significant)
  then show "parse_dimacs_strict txt ev ec = Inr c"
    using r by (simp add: parse_dimacs_strict_def n_clauses_def guardE_def)
qed

section \<open>Properties of the formula layer\<close>

text \<open>C1. The strict parser accepts exactly the texts of the DIMACS grammar: one header, which
  declares the number of variables and of clauses, then that many clause lines of three
  literals and a 0, each with three distinct variables in the declared range, and counts equal
  to the expected ones where the caller states them. The formula it returns is the one the text
  spells; every other text raises.\<close>

theorem parse_dimacs_strict_sound:
  "parse_dimacs_strict txt ev ec = Inr c \<longleftrightarrow>
     text_spells txt c \<and> cnf_wf c \<and> \<not> expected_mismatch ev (cnf_n_vars c) \<and> \<not> expected_mismatch ec (n_clauses c)"
  by (rule parse_dimacs_iff)

theorem parse_dimacs_strict_sound_witness:
  "cnf_wf \<lparr>cnf_n_vars = 3, cnf_clauses = [(1, -2, 3)]\<rparr> \<and>
   text_spells ''p cnf 3 1\<newline>1 -2 3 0\<newline>'' \<lparr>cnf_n_vars = 3, cnf_clauses = [(1, -2, 3)]\<rparr>"
proof -
  have "parse_dimacs_strict ''p cnf 3 1\<newline>1 -2 3 0\<newline>'' (Some 3) (Some 1)
    = Inr \<lparr>cnf_n_vars = 3, cnf_clauses = [(1, -2, 3)]\<rparr>" by code_simp
  then show ?thesis unfolding parse_dimacs_strict_sound by simp
qed

text \<open>C2. Printing and strict parsing are inverse on every well-formed formula within the
  protocol's bounds.\<close>

theorem parse_print_roundtrip:
  assumes "cnf_wf c" "0 \<le> cnf_n_vars c" "cnf_n_vars c \<le> 100000" "n_clauses c \<le> 1000000"
  shows "parse_dimacs_strict (to_dimacs c) (Some (cnf_n_vars c)) (Some (n_clauses c)) = Inr c"
  by (rule parse_to_dimacs [OF assms]) (simp_all add: expected_mismatch_def)

theorem parse_print_roundtrip_witness:
  "parse_dimacs_strict (to_dimacs \<lparr>cnf_n_vars = 3, cnf_clauses = [(1, -2, 3)]\<rparr>) (Some 3) (Some 1)
    = Inr \<lparr>cnf_n_vars = 3, cnf_clauses = [(1, -2, 3)]\<rparr>"
  using parse_print_roundtrip [of "\<lparr>cnf_n_vars = 3, cnf_clauses = [(1, -2, 3)]\<rparr>"]
  by (simp add: cnf_wf_def clause_wf_def n_clauses_def)

text \<open>C3. The witness check accepts exactly the complete models: it never raises on a
  well-formed formula, and answers True just when the items are the literals of one total
  assignment of the variables that puts a literal in every clause.\<close>

theorem verify_witness_correct:
  "cnf_wf c \<Longrightarrow> 0 \<le> cnf_n_vars c \<Longrightarrow>
     verify_witness c items = Inr (\<exists>ls. items = map LInt ls \<and> is_model c ls)"
  by (rule verify_witness_iff)

theorem verify_witness_correct_witness:
  "\<exists>ls. map LInt [1, 2, -3] = map LInt ls \<and> is_model \<lparr>cnf_n_vars = 3, cnf_clauses = [(1, -2, 3)]\<rparr> ls"
proof -
  let ?c = "\<lparr>cnf_n_vars = 3, cnf_clauses = [(1, -2, 3)]\<rparr>"
  have "verify_witness ?c (map LInt [1, 2, -3]) = Inr True" by code_simp
  then show ?thesis using verify_witness_correct [of ?c "map LInt [1, 2, -3]"]
    by (simp add: cnf_wf_def clause_wf_def)
qed

text \<open>The header's numbers are read outside the handler that turns a bad token into a refusal: a header
  that is no number leaves the strict parser as a ValueError.\<close>

lemma header_value_error_escapes: "parse_dimacs_strict ''p cnf x 1'' None None = Inl PyValueError"
  by code_simp

end
