(* ===== verification/Py_Codec.thy ===== *)
theory Py_Codec
  imports Py_Text
begin

unbundle bit_operations_syntax

text \<open>
  The codecs and digests of the standard library the modelled code calls: \<open>base64\<close> in
  strict mode as CPython 3.11 implements it, hexadecimal text, \<open>hashlib.sha256\<close> and
  \<open>hmac.new(..., hashlib.sha256)\<close>. Strict base64 decoding is the automaton of
  \<open>binascii.a2b_base64\<close>: the lemmas show that it inverts the encoder.
\<close>

section \<open>base64\<close>

definition b64_char :: "nat \<Rightarrow> char" where
  "b64_char v =
     (if v < 26 then char_of (65 + v) else if v < 52 then char_of (97 + (v - 26))
      else if v < 62 then char_of (48 + (v - 52)) else if v = 62 then CHR ''+'' else CHR ''/'')"

definition b64_value :: "char \<Rightarrow> nat option" where
  "b64_value c =
     (let k = code c in
      if 65 \<le> k \<and> k \<le> 90 then Some (k - 65)
      else if 97 \<le> k \<and> k \<le> 122 then Some (k - 97 + 26)
      else if 48 \<le> k \<and> k \<le> 57 then Some (k - 48 + 52)
      else if k = 43 then Some 62 else if k = 47 then Some 63 else None)"

fun b64encode :: "bytes \<Rightarrow> string" where
  "b64encode [] = []"
| "b64encode [a] = (let x = unat a in [b64_char (x div 4), b64_char (x mod 4 * 16), CHR ''='', CHR ''=''])"
| "b64encode [a, b] = (let x = unat a; y = unat b in
     [b64_char (x div 4), b64_char (x mod 4 * 16 + y div 16), b64_char (y mod 16 * 4), CHR ''=''])"
| "b64encode (a # b # c # rest) = (let x = unat a; y = unat b; z = unat c in
     [b64_char (x div 4), b64_char (x mod 4 * 16 + y div 16), b64_char (y mod 16 * 4 + z div 64),
      b64_char (z mod 64)] @ b64encode rest)"

text \<open>
  The automaton: the position in the quad, the bits left over from the last character,
  the padding characters seen in this quad, whether padding has started, and the bytes so
  far. Every refusal is a \<open>binascii.Error\<close>, a ValueError.
\<close>

record b64_state =
  quad_pos :: nat
  leftchar :: nat
  pads :: nat
  padding_started :: bool
  decoded :: bytes

definition b64_init :: b64_state where
  "b64_init = \<lparr>quad_pos = 0, leftchar = 0, pads = 0, padding_started = False, decoded = []\<rparr>"

definition b64_push :: "b64_state \<Rightarrow> nat \<Rightarrow> b64_state" where
  "b64_push st v =
     (let st = st\<lparr>pads := 0\<rparr>; l = leftchar st in
      if quad_pos st = 0 then st\<lparr>quad_pos := 1, leftchar := v\<rparr>
      else if quad_pos st = 1 then
        st\<lparr>quad_pos := 2, leftchar := v mod 16, decoded := decoded st @ [word_of_nat (l * 4 + v div 16)]\<rparr>
      else if quad_pos st = 2 then
        st\<lparr>quad_pos := 3, leftchar := v mod 4, decoded := decoded st @ [word_of_nat (l * 16 + v div 4)]\<rparr>
      else st\<lparr>quad_pos := 0, leftchar := 0, decoded := decoded st @ [word_of_nat (l * 64 + v)]\<rparr>)"

fun b64_run :: "b64_state \<Rightarrow> string \<Rightarrow> bytes res" where
  "b64_run st [] = (if quad_pos st \<noteq> 0 then Inl PyValueError else Inr (decoded st))"
| "b64_run st (c # cs) =
     (if c = CHR ''='' then
        (if quad_pos st \<ge> 2 then
           (if quad_pos st + Suc (pads st) \<ge> 4 then
              (if cs \<noteq> [] then Inl PyValueError else Inr (decoded st))
            else b64_run (st\<lparr>padding_started := True, pads := Suc (pads st)\<rparr>) cs)
         else b64_run (st\<lparr>padding_started := True\<rparr>) cs)
      else case b64_value c of
        None \<Rightarrow> Inl PyValueError
      | Some v \<Rightarrow> if padding_started st then Inl PyValueError else b64_run (b64_push st v) cs)"

text \<open>\<open>base64.b64decode(s, validate=True)\<close> of a string.\<close>

definition b64decode :: "string \<Rightarrow> bytes res" where
  "b64decode s =
     (if \<not> is_ascii s then Inl PyValueError
      else if s \<noteq> [] \<and> hd s = CHR ''='' then Inl PyValueError
      else b64_run b64_init s)"

lemma code_char_of [simp]: "n < 256 \<Longrightarrow> code (char_of n) = n"
  by (simp add: code_def of_char_of)

lemma b64_value_char: "v < 64 \<Longrightarrow> b64_value (b64_char v) = Some v"
  by (auto simp: b64_value_def b64_char_def code_def of_char_of Let_def)

lemma b64_char_not_pad: "v < 64 \<Longrightarrow> b64_char v \<noteq> CHR ''=''"
  using b64_value_char [of v] by (auto simp: b64_value_def code_def)

lemma is_ascii_b64_char: "v < 64 \<Longrightarrow> code (b64_char v) < 128"
  by (auto simp: b64_char_def code_def of_char_of)

lemma unat_byte_less: "unat (b :: 8 word) < 256"
  using unsigned_less [of b] by simp

lemma b64_run_data:
  "v < 64 \<Longrightarrow> \<not> padding_started st \<Longrightarrow> b64_run st (b64_char v # cs) = b64_run (b64_push st v) cs"
  by (simp add: b64_value_char b64_char_not_pad)

lemma b64_run_pad:
  "quad_pos st = 2 \<Longrightarrow> pads st = 0 \<Longrightarrow> b64_run st ''=='' = Inr (decoded st)"
  "quad_pos st = 3 \<Longrightarrow> pads st = 0 \<Longrightarrow> b64_run st ''='' = Inr (decoded st)"
  by simp_all

declare b64_run.simps(2) [simp del]

lemma b64_parts:
  assumes "x < (256::nat)" "y < 256" "z < 256"
  shows "x div 4 < 64" "x mod 4 * 16 + y div 16 < 64" "y mod 16 * 4 + z div 64 < 64" "z mod 64 < 64"
    "x mod 4 * 16 < 64" "y mod 16 * 4 < 64"
  using assms by (auto simp: less_mult_imp_div_less)

lemma b64_run_encode:
  "b64_run \<lparr>quad_pos = 0, leftchar = 0, pads = 0, padding_started = False, decoded = out\<rparr> (b64encode bs)
    = Inr (out @ bs)"
proof (induction bs arbitrary: out rule: b64encode.induct)
  case (2 a)
  have "unat a < 256" by (rule unat_byte_less)
  then show ?case using b64_parts(1,5) [of "unat a" 0 0]
    by (simp add: Let_def b64_run_data b64_run_pad b64_push_def)
next
  case (3 a b)
  have "unat a < 256" "unat b < 256" by (rule unat_byte_less)+
  then show ?case using b64_parts [of "unat a" "unat b" 0]
    by (simp add: Let_def b64_run_data b64_run_pad b64_push_def)
next
  case (4 a b c rest)
  have "unat a < 256" "unat b < 256" "unat c < 256" by (rule unat_byte_less)+
  then show ?case using b64_parts [of "unat a" "unat b" "unat c"] 4
    by (simp add: Let_def b64_run_data b64_run_pad b64_push_def)
qed simp

lemma length_b64encode: "length (b64encode bs) = (length bs + 2) div 3 * 4"
proof (induction bs rule: b64encode.induct)
  case (4 a b c rest)
  have "(length (a # b # c # rest) + 2) div 3 = Suc ((length rest + 2) div 3)" by simp
  then show ?case using 4 by (simp add: Let_def)
qed (simp_all add: Let_def)

lemma b64encode_shape: "is_ascii (b64encode bs) \<and> (bs \<noteq> [] \<longrightarrow> hd (b64encode bs) \<noteq> CHR ''='')
    \<and> (bs \<noteq> [] \<longrightarrow> b64encode bs \<noteq> [])"
proof (induction bs rule: b64encode.induct)
  case (2 a)
  have "unat a < 256" by (rule unat_byte_less)
  then show ?case using b64_parts(1,5) [of "unat a" 0 0]
    by (simp add: Let_def is_ascii_b64_char b64_char_not_pad) (simp add: code_def)
next
  case (3 a b)
  have "unat a < 256" "unat b < 256" by (rule unat_byte_less)+
  then show ?case using b64_parts [of "unat a" "unat b" 0]
    by (simp add: Let_def is_ascii_b64_char b64_char_not_pad) (simp add: code_def)
next
  case (4 a b c rest)
  have "unat a < 256" "unat b < 256" "unat c < 256" by (rule unat_byte_less)+
  then show ?case using b64_parts [of "unat a" "unat b" "unat c"] 4
    by (simp add: Let_def is_ascii_b64_char b64_char_not_pad)
qed simp

lemma b64decode_encode: "b64decode (b64encode bs) = Inr bs"
proof -
  have "b64_run b64_init (b64encode bs) = Inr bs"
    using b64_run_encode [of "[]" bs] by (simp add: b64_init_def)
  then show ?thesis using b64encode_shape [of bs] by (cases "bs = []") (auto simp: b64decode_def)
qed

section \<open>Hexadecimal text\<close>

definition hex_char :: "nat \<Rightarrow> char" where
  "hex_char v = (if v < 10 then char_of (48 + v) else char_of (87 + v))"

definition hex_of :: "bytes \<Rightarrow> string" where
  "hex_of bs = concat (map (\<lambda>b. [hex_char (unat b div 16), hex_char (unat b mod 16)]) bs)"

definition hex_value :: "char \<Rightarrow> nat option" where
  "hex_value c =
     (let k = code c in
      if 48 \<le> k \<and> k \<le> 57 then Some (k - 48)
      else if 97 \<le> k \<and> k \<le> 102 then Some (k - 87)
      else if 65 \<le> k \<and> k \<le> 70 then Some (k - 55) else None)"

text \<open>\<open>bytes.fromhex(s)\<close>: pairs of digits, ASCII whitespace allowed between the pairs.\<close>

definition ascii_space :: "char \<Rightarrow> bool" where
  "ascii_space c = (code c \<in> {9, 10, 11, 12, 13, 32})"

fun fromhex :: "string \<Rightarrow> bytes res" where
  "fromhex [] = Inr []"
| "fromhex [c] = (if ascii_space c then Inr [] else Inl PyValueError)"
| "fromhex (c # d # cs) =
     (if ascii_space c then fromhex (d # cs)
      else case hex_value c of None \<Rightarrow> Inl PyValueError | Some h \<Rightarrow>
        (case hex_value d of None \<Rightarrow> Inl PyValueError | Some l \<Rightarrow>
          bindE (fromhex cs) (\<lambda>bs. Inr (word_of_nat (16 * h + l) # bs))))"

lemma hex_char_cases: "v < 16 \<Longrightarrow> hex_char v \<in> set ''0123456789abcdef''"
proof -
  assume "v < 16"
  moreover have "list_all (\<lambda>v. hex_char v \<in> set ''0123456789abcdef'') [0..<16]"
    by (simp add: upt_rec hex_char_def char_of_def bit_0)
  ultimately show ?thesis by (simp only: list_all_iff set_upt) simp
qed

lemma hex_value_char: "v < 16 \<Longrightarrow> hex_value (hex_char v) = Some v"
  by (auto simp: hex_value_def hex_char_def Let_def)

lemma length_hex_of [simp]: "length (hex_of bs) = 2 * length bs"
  by (induction bs) (auto simp: hex_of_def)

lemma hex_of_chars: "c \<in> set (hex_of bs) \<Longrightarrow> c \<in> set ''0123456789abcdef''"
proof -
  assume "c \<in> set (hex_of bs)"
  then obtain b :: "8 word" where "c = hex_char (unat b div 16) \<or> c = hex_char (unat b mod 16)"
    unfolding hex_of_def by fastforce
  moreover have "unat b div 16 < 16" using unat_byte_less [of b] by simp
  ultimately show ?thesis using hex_char_cases [of "unat b div 16"] hex_char_cases [of "unat b mod 16"]
    by (metis mod_less_divisor zero_less_numeral)
qed

lemma hex_of_ascii [simp]: "is_ascii (hex_of bs)"
proof -
  have "\<forall>c \<in> set ''0123456789abcdef''. code c < 128" by code_simp
  then show ?thesis using hex_of_chars by (metis is_ascii_def)
qed

lemma hex_of_inj: "hex_of a = hex_of b \<longleftrightarrow> a = b"
proof (induction a arbitrary: b)
  case Nil
  then show ?case by (cases b) (auto simp: hex_of_def)
next
  case (Cons x a)
  show ?case
  proof (cases b)
    case (Cons y b')
    have lt: "unat x div 16 < 16" "unat y div 16 < 16" "unat x mod 16 < 16" "unat y mod 16 < 16"
      using unat_byte_less [of x] unat_byte_less [of y] by auto
    have "hex_char (unat x div 16) = hex_char (unat y div 16) \<and> hex_char (unat x mod 16) = hex_char (unat y mod 16)
      \<longleftrightarrow> unat x = unat y"
      using hex_value_char lt by (metis div_mult_mod_eq option.inject)
    then show ?thesis using Cons.IH [of b'] Cons by (auto simp: hex_of_def unsigned_word_eqI)
  qed (simp add: hex_of_def)
qed

section \<open>SHA-256 and HMAC\<close>

type_synonym w32 = "32 word"

definition rotr :: "nat \<Rightarrow> w32 \<Rightarrow> w32" where
  "rotr n x = (drop_bit n x) OR (push_bit (32 - n) x)"

definition sha_k :: "w32 list" where
  "sha_k = [
    1116352408, 1899447441, 3049323471, 3921009573, 961987163, 1508970993, 2453635748,
    2870763221, 3624381080, 310598401, 607225278, 1426881987, 1925078388, 2162078206,
    2614888103, 3248222580, 3835390401, 4022224774, 264347078, 604807628, 770255983,
    1249150122, 1555081692, 1996064986, 2554220882, 2821834349, 2952996808, 3210313671,
    3336571891, 3584528711, 113926993, 338241895, 666307205, 773529912, 1294757372, 1396182291,
    1695183700, 1986661051, 2177026350, 2456956037, 2730485921, 2820302411, 3259730800,
    3345764771, 3516065817, 3600352804, 4094571909, 275423344, 430227734, 506948616, 659060556,
    883997877, 958139571, 1322822218, 1537002063, 1747873779, 1955562222, 2024104815,
    2227730452, 2361852424, 2428436474, 2756734187, 3204031479, 3329325298]"

definition sha_h0 :: "w32 list" where
  "sha_h0 = [
    1779033703, 3144134277, 1013904242, 2773480762, 1359893119, 2600822924, 528734635,
    1541459225]"

text \<open>\<open>n.to_bytes(len, "big")\<close> for a number that fits, and \<open>int.from_bytes(bs, "big")\<close>.\<close>

definition be_bytes :: "nat \<Rightarrow> int \<Rightarrow> bytes" where
  "be_bytes len n = map (\<lambda>i. word_of_int (n div 256 ^ (len - 1 - i))) [0..<len]"

definition be_int :: "bytes \<Rightarrow> int" where
  "be_int bs = foldl (\<lambda>acc b. 256 * acc + uint b) 0 bs"

definition sha_pad :: "bytes \<Rightarrow> bytes" where
  "sha_pad m = m @ [0x80] @ replicate ((119 - length m mod 64) mod 64) 0 @ be_bytes 8 (8 * int (length m))"

fun chunks :: "nat \<Rightarrow> nat \<Rightarrow> 'a list \<Rightarrow> 'a list list" where
  "chunks 0 n xs = []"
| "chunks (Suc k) n xs = take n xs # chunks k n (drop n xs)"

text \<open>The message schedule, newest word first.\<close>

fun sha_extend :: "nat \<Rightarrow> w32 list \<Rightarrow> w32 list" where
  "sha_extend 0 ws = ws"
| "sha_extend (Suc k) ws =
     (let w15 = ws ! 14; w2 = ws ! 1;
          s0 = rotr 7 w15 XOR rotr 18 w15 XOR drop_bit 3 w15;
          s1 = rotr 17 w2 XOR rotr 19 w2 XOR drop_bit 10 w2
      in sha_extend k ((ws ! 15 + s0 + ws ! 6 + s1) # ws))"

definition sha_schedule :: "bytes \<Rightarrow> w32 list" where
  "sha_schedule block = rev (sha_extend 48 (rev (map (\<lambda>c. word_of_int (be_int c)) (chunks 16 4 block))))"

fun sha_round :: "w32 list \<Rightarrow> w32 \<times> w32 \<Rightarrow> w32 list" where
  "sha_round [a, b, c, d, e, f, g, h] (k, w) =
     (let s1 = rotr 6 e XOR rotr 11 e XOR rotr 25 e;
          ch = (e AND f) XOR (NOT e AND g);
          t1 = h + s1 + ch + k + w;
          s0 = rotr 2 a XOR rotr 13 a XOR rotr 22 a;
          maj = (a AND b) XOR (a AND c) XOR (b AND c)
      in [t1 + (s0 + maj), a, b, c, d + t1, e, f, g])"
| "sha_round st kw = st"

definition sha_block :: "w32 list \<Rightarrow> bytes \<Rightarrow> w32 list" where
  "sha_block hs block = map2 (+) hs (foldl sha_round hs (zip sha_k (sha_schedule block)))"

definition sha256 :: "bytes \<Rightarrow> bytes" where
  "sha256 m =
     (let p = sha_pad m in
      concat (map (\<lambda>w. be_bytes 4 (uint w)) (foldl sha_block sha_h0 (chunks (length p div 64) 64 p))))"

definition sha256_hex :: "bytes \<Rightarrow> string" where
  "sha256_hex m = hex_of (sha256 m)"

definition hmac_sha256 :: "bytes \<Rightarrow> bytes \<Rightarrow> bytes" where
  "hmac_sha256 key msg =
     (let k0 = (if length key > 64 then sha256 key else key);
          k1 = k0 @ replicate (64 - length k0) 0
      in sha256 (map (\<lambda>b. b XOR 0x5c) k1 @ sha256 (map (\<lambda>b. b XOR 0x36) k1 @ msg)))"

lemma length_be_bytes [simp]: "length (be_bytes len n) = len"
  by (simp add: be_bytes_def)

lemma length_sha_round [simp]: "length (sha_round st kw) = length st"
  by (induction st kw rule: sha_round.induct) (auto simp: Let_def)

lemma length_sha_rounds [simp]: "length (foldl sha_round st kws) = length st"
  by (induction kws arbitrary: st) simp_all

lemma length_sha_blocks: "length st = 8 \<Longrightarrow> length (foldl sha_block st bs) = 8"
  by (induction bs arbitrary: st) (simp_all add: sha_block_def)

lemma length_sha256 [simp]: "length (sha256 m) = 32"
proof -
  have "length (concat (map (\<lambda>w. be_bytes 4 (uint w)) ws)) = 4 * length ws" for ws :: "w32 list"
    by (induction ws) auto
  then show ?thesis by (simp add: sha256_def Let_def length_sha_blocks sha_h0_def)
qed

lemma length_hmac [simp]: "length (hmac_sha256 k m) = 32"
  by (simp add: hmac_sha256_def Let_def)

lemma length_sha256_hex [simp]: "length (sha256_hex m) = 64"
  by (simp add: sha256_hex_def)

end
