(* ===== verification/Py_Float.thy ===== *)
theory Py_Float
  imports Prelude Py_Text Complex_Main
begin

text \<open>
  Python's \<open>float\<close>: IEEE binary64 with round-half-even. A finite value is its exact
  rational; the two zeros, the infinities and NaN are told apart. An operation is the exact
  rational result followed by the rounding \<open>fl_rat\<close>. The lemmas show that the rounding is
  monotone and exact on the integers up to 2^53, which is what the score bounds rest on.
\<close>

section \<open>Powers of two and binary exponents\<close>

function bit_length :: "int \<Rightarrow> int" where
  "bit_length n = (if n \<le> 0 then 0 else 1 + bit_length (n div 2))"
  by auto
termination by (relation "measure nat") auto

declare bit_length.simps [simp del]

lemma bit_length_0 [simp]: "n \<le> 0 \<Longrightarrow> bit_length n = 0"
  by (simp add: bit_length.simps)

lemma bit_length_nonneg [simp]: "0 \<le> bit_length n"
  by (induction n rule: bit_length.induct) (subst bit_length.simps, simp)

lemma bit_length_bounds: "0 < n \<Longrightarrow> 2 ^ nat (bit_length n - 1) \<le> n \<and> n < 2 ^ nat (bit_length n)"
proof (induction n rule: bit_length.induct)
  case (1 n)
  show ?case
  proof (cases "n = 1")
    case True
    then show ?thesis by (simp add: bit_length.simps)
  next
    case False
    then have half: "0 < n div 2" using 1(2) by linarith
    let ?k = "bit_length (n div 2)"
    have k: "1 \<le> ?k" using half bit_length.simps [of "n div 2"] bit_length_nonneg [of "n div 2 div 2"]
      by (smt (verit))
    have eq: "bit_length n = 1 + ?k" using 1(2) by (subst bit_length.simps) simp
    have ih: "2 ^ nat (?k - 1) \<le> n div 2" "n div 2 < 2 ^ nat ?k" using 1(1) [OF _ half] 1(2) by auto
    have "nat ?k = Suc (nat (?k - 1))" "nat (1 + ?k) = Suc (nat ?k)" using k by auto
    then have "(2::int) ^ nat ?k = 2 * 2 ^ nat (?k - 1)" "(2::int) ^ nat (1 + ?k) = 2 * 2 ^ nat ?k"
      by simp_all
    then show ?thesis using ih unfolding eq add_diff_cancel_left' by (intro conjI) linarith+
  qed
qed

definition pow2 :: "int \<Rightarrow> rat" where
  "pow2 k = (if 0 \<le> k then 2 ^ nat k else 1 / 2 ^ nat (- k))"

lemma pow2_pos [simp]: "0 < pow2 k"
  by (simp add: pow2_def)

lemma pow2_Suc: "pow2 (k + 1) = 2 * pow2 k"
proof (cases "0 \<le> k")
  case True
  then show ?thesis by (simp add: pow2_def nat_add_distrib)
next
  case False
  then have "nat (- k) = Suc (nat (- (k + 1)))" by simp
  then show ?thesis using False by (cases "k = -1") (auto simp: pow2_def)
qed

lemma pow2_add_nat: "pow2 (k + int n) = pow2 k * 2 ^ n"
proof (induction n)
  case (Suc n)
  have "k + int (Suc n) = (k + int n) + 1" by simp
  then show ?case using Suc pow2_Suc [of "k + int n"] by (metis mult.assoc mult.commute power_Suc)
qed simp

lemma pow2_mono: "j \<le> k \<Longrightarrow> pow2 j \<le> pow2 k"
proof -
  assume "j \<le> k"
  then have "pow2 k = pow2 j * 2 ^ nat (k - j)" using pow2_add_nat [of j "nat (k - j)"] by simp
  then show ?thesis by simp
qed

definition ilog2 :: "rat \<Rightarrow> int" where
  "ilog2 r = (if 1 \<le> r then bit_length \<lfloor>r\<rfloor> - 1 else - bit_length (\<lceil>1 / r\<rceil> - 1))"

lemma ilog2_bounds: "0 < r \<Longrightarrow> pow2 (ilog2 r) \<le> r \<and> r < pow2 (ilog2 r + 1)"
proof (cases "1 \<le> r")
  case True
  then have pos: "0 < \<lfloor>r\<rfloor>" by simp
  let ?k = "bit_length \<lfloor>r\<rfloor>"
  have k: "1 \<le> ?k" using pos bit_length_nonneg [of "\<lfloor>r\<rfloor> div 2"] by (subst bit_length.simps) simp
  have "2 ^ nat (?k - 1) \<le> \<lfloor>r\<rfloor>" "\<lfloor>r\<rfloor> < 2 ^ nat ?k" using bit_length_bounds [OF pos] by auto
  then have "of_int (2 ^ nat (?k - 1)) \<le> r" "r < of_int (2 ^ nat ?k)"
    by (simp_all only: le_floor_iff floor_less_iff)
  then show ?thesis using True k by (simp add: ilog2_def pow2_def)
next
  case False
  assume r: "0 < r"
  let ?n = "\<lceil>1 / r\<rceil> - 1" and ?k = "bit_length (\<lceil>1 / r\<rceil> - 1)"
  have "1 < 1 / r" using False r by simp
  then have pos: "0 < ?n" by (simp add: less_ceiling_iff)
  have "2 ^ nat (?k - 1) \<le> ?n" "?n < 2 ^ nat ?k" using bit_length_bounds [OF pos] by auto
  then have "2 ^ nat (?k - 1) < \<lceil>1 / r\<rceil>" "\<lceil>1 / r\<rceil> \<le> 2 ^ nat ?k" by simp_all
  then have "of_int (2 ^ nat (?k - 1)) < 1 / r" "1 / r \<le> of_int (2 ^ nat ?k)"
    by (simp_all only: less_ceiling_iff ceiling_le_iff)
  then have b: "r * 2 ^ nat (?k - 1) < 1" "1 \<le> r * 2 ^ nat ?k" using r by (simp_all add: field_simps)
  have k: "1 \<le> ?k" using pos bit_length_nonneg [of "?n div 2"] by (subst bit_length.simps) simp
  have p: "pow2 (- ?k) = 1 / 2 ^ nat ?k" using k by (simp add: pow2_def)
  have q: "pow2 (1 - ?k) = 1 / 2 ^ nat (?k - 1)" using k by (cases "?k = 1") (auto simp: pow2_def)
  show ?thesis using False b by (simp add: ilog2_def p q add.commute [of _ "1::int"] field_simps)
qed

lemma ilog2_unique: "pow2 e \<le> r \<Longrightarrow> r < pow2 (e + 1) \<Longrightarrow> ilog2 r = e"
proof -
  assume a: "pow2 e \<le> r" "r < pow2 (e + 1)"
  then have "0 < r" using pow2_pos [of e] by linarith
  from ilog2_bounds [OF this] have b: "pow2 (ilog2 r) \<le> r" "r < pow2 (ilog2 r + 1)" by auto
  show ?thesis
    using pow2_mono [of "ilog2 r + 1" e] pow2_mono [of "e + 1" "ilog2 r"] a b by force
qed

lemma ilog2_mono: "0 < r \<Longrightarrow> r \<le> s \<Longrightarrow> ilog2 r \<le> ilog2 s"
  using ilog2_bounds [of r] ilog2_bounds [of s] pow2_mono [of "ilog2 s + 1" "ilog2 r"] by force

lemma ilog2_upper: "0 < r \<Longrightarrow> r < pow2 (k + 1) \<Longrightarrow> ilog2 r \<le> k"
  using ilog2_bounds [of r] pow2_mono [of "k + 1" "ilog2 r"] by force

section \<open>Rounding to binary64\<close>

definition round_half_even :: "rat \<Rightarrow> int" where
  "round_half_even x =
     (let f = \<lfloor>x\<rfloor>; d = x - of_int f in
      if d < 1 / 2 then f else if 1 / 2 < d then f + 1 else if even f then f else f + 1)"

lemma rhe_of_int [simp]: "round_half_even (of_int n) = n"
  by (simp add: round_half_even_def)

lemma rhe_cases: "round_half_even x = \<lfloor>x\<rfloor> \<or> round_half_even x = \<lfloor>x\<rfloor> + 1"
  by (simp add: round_half_even_def Let_def)

lemma rhe_mono: "x \<le> y \<Longrightarrow> round_half_even x \<le> round_half_even y"
proof (cases "\<lfloor>x\<rfloor> = \<lfloor>y\<rfloor>")
  case True
  assume "x \<le> y"
  then show ?thesis using True by (auto simp: round_half_even_def Let_def)
next
  case False
  assume "x \<le> y"
  then have "\<lfloor>x\<rfloor> + 1 \<le> \<lfloor>y\<rfloor>" using False floor_mono [of x y] by simp
  then show ?thesis using rhe_cases [of x] rhe_cases [of y] by linarith
qed

definition quantum :: "rat \<Rightarrow> rat" where
  "quantum r = pow2 (max (ilog2 r - 52) (-1074))"

definition fl_pos :: "rat \<Rightarrow> rat" where
  "fl_pos r = of_int (round_half_even (r / quantum r)) * quantum r"

definition fl_rat :: "rat \<Rightarrow> rat" where
  "fl_rat r = (if r = 0 then 0 else if 0 < r then fl_pos r else - fl_pos (- r))"

lemma quantum_pos [simp]: "0 < quantum r"
  by (simp add: quantum_def)

lemma pow2_over_quantum:
  assumes "-1074 \<le> k" "e - 52 \<le> k" "k \<le> e'"
  shows "\<exists>n::int. pow2 e' = of_int n * pow2 k"
proof -
  have "pow2 e' = pow2 k * 2 ^ nat (e' - k)" using assms pow2_add_nat [of k "nat (e' - k)"] by simp
  then show ?thesis by (intro exI [of _ "2 ^ nat (e' - k)"]) (simp add: mult.commute)
qed

lemma fl_pos_ge:
  assumes "0 < r" "x \<le> r" "x = of_int n * quantum r"
  shows "x \<le> fl_pos r"
proof -
  have "of_int n \<le> r / quantum r" using assms by (simp add: field_simps)
  then have "n \<le> round_half_even (r / quantum r)" using rhe_mono rhe_of_int by metis
  then have "of_int n * quantum r \<le> of_int (round_half_even (r / quantum r)) * quantum r" by simp
  then show ?thesis using assms(3) by (simp add: fl_pos_def)
qed

lemma fl_pos_le:
  assumes "0 < r" "r \<le> x" "x = of_int n * quantum r"
  shows "fl_pos r \<le> x"
proof -
  have "r / quantum r \<le> of_int n" using assms by (simp add: field_simps)
  then have "round_half_even (r / quantum r) \<le> n" using rhe_mono rhe_of_int by metis
  then have "of_int (round_half_even (r / quantum r)) * quantum r \<le> of_int n * quantum r" by simp
  then show ?thesis using assms(3) by (simp add: fl_pos_def)
qed

lemma fl_pos_nonneg: "0 < r \<Longrightarrow> 0 \<le> fl_pos r"
  by (rule fl_pos_ge [of _ _ 0]) simp_all

lemma fl_pos_mono:
  assumes "0 < r" "r \<le> s"
  shows "fl_pos r \<le> fl_pos s"
proof (cases "quantum r = quantum s")
  case True
  have "r / quantum r \<le> s / quantum r" using assms by (simp add: divide_right_mono less_imp_le)
  then show ?thesis using rhe_mono by (simp add: fl_pos_def True)
next
  case False
  let ?e = "ilog2 r" and ?f = "ilog2 s"
  have "?e \<le> ?f" using ilog2_mono assms by blast
  moreover have "max (?e - 52) (-1074) \<noteq> max (?f - 52) (-1074)" using False by (auto simp: quantum_def)
  ultimately have lt: "?e + 1 \<le> ?f" "-1074 < ?f - 52" by linarith+
  let ?m = "pow2 ?f"
  have s: "?m \<le> s" "r < ?m"
    using ilog2_bounds [of s] ilog2_bounds [of r] pow2_mono [OF lt(1)] assms by force+
  obtain n where n: "?m = of_int n * quantum s"
    using pow2_over_quantum [of "max (?f - 52) (-1074)" ?f ?f] lt(2) by (auto simp: quantum_def)
  obtain n' where n': "?m = of_int n' * quantum r"
    using pow2_over_quantum [of "max (?e - 52) (-1074)" ?e ?f] lt by (auto simp: quantum_def)
  have "fl_pos r \<le> ?m" using fl_pos_le [OF assms(1) less_imp_le [OF s(2)] n'] .
  also have "?m \<le> fl_pos s" using fl_pos_ge [OF _ s(1) n] assms by simp
  finally show ?thesis .
qed

lemma fl_rat_0 [simp]: "fl_rat 0 = 0"
  by (simp add: fl_rat_def)

lemma fl_rat_minus: "fl_rat (- r) = - fl_rat r"
  by (simp add: fl_rat_def)

lemma fl_rat_nonneg: "0 \<le> r \<Longrightarrow> 0 \<le> fl_rat r"
  by (simp add: fl_rat_def fl_pos_nonneg)

lemma fl_rat_mono: "r \<le> s \<Longrightarrow> fl_rat r \<le> fl_rat s"
  using fl_pos_nonneg [of s] fl_pos_nonneg [of "- r"] fl_pos_mono [of r s] fl_pos_mono [of "- s" "- r"]
  by (auto simp: fl_rat_def)

lemma fl_rat_int:
  assumes "\<bar>n\<bar> \<le> 2 ^ 52"
  shows "fl_rat (of_int n) = of_int n"
proof -
  have pos: "fl_pos (of_int n) = of_int n" if n: "0 < n" "n \<le> 2 ^ 52" for n :: int
  proof -
    have "of_int n < pow2 53" using n by (simp add: pow2_def)
    then have "ilog2 (of_int n) \<le> 52"
      using ilog2_bounds [of "of_int n"] n pow2_mono [of 53 "ilog2 (of_int n)"] by force
    then have "\<exists>m. pow2 0 = of_int m * quantum (of_int n)"
      unfolding quantum_def by (intro pow2_over_quantum [of _ "ilog2 (of_int n)"]) auto
    then obtain m where "1 = of_int m * quantum (of_int n)" by (auto simp: pow2_def)
    then have "of_int n = of_int (n * m) * quantum (of_int n)" by simp
    with fl_pos_le fl_pos_ge show ?thesis using n by (metis of_int_0_less_iff order_antisym order_refl)
  qed
  show ?thesis using pos [of n] pos [of "- n"] assms by (auto simp: fl_rat_def)
qed

lemma fl_rat_1 [simp]: "fl_rat 1 = 1"
  using fl_rat_int [of 1] by simp

lemma fl_rat_le_1: "r \<le> 1 \<Longrightarrow> fl_rat r \<le> 1"
  using fl_rat_mono [of r 1] by simp

lemma fl_pos_le_binade: "0 < r \<Longrightarrow> fl_pos r \<le> max (pow2 (ilog2 r + 1)) (quantum r)"
proof -
  assume r: "0 < r"
  let ?e = "ilog2 r"
  have e: "r < pow2 (?e + 1)" using ilog2_bounds [OF r] by simp
  show ?thesis
  proof (cases "?e + 1 < -1074")
    case True
    then have "r \<le> quantum r" using e pow2_mono [of "?e + 1" "-1074"] by (simp add: quantum_def)
    then have "fl_pos r \<le> quantum r" using fl_pos_le [OF r, of "quantum r" 1] by simp
    then show ?thesis by simp
  next
    case False
    then obtain n where "pow2 (?e + 1) = of_int n * quantum r"
      using pow2_over_quantum [of "max (?e - 52) (-1074)" ?e "?e + 1"] by (auto simp: quantum_def)
    with fl_pos_le [OF r less_imp_le [OF e]] show ?thesis by force
  qed
qed

lemma fl_pos_fixed: "0 < v \<Longrightarrow> v = of_int n * quantum v \<Longrightarrow> fl_pos v = v"
  using fl_pos_le [of v v n] fl_pos_ge [of v v n] by simp

lemma fl_pos_idem:
  assumes "0 < r" "0 < fl_pos r"
  shows "fl_pos (fl_pos r) = fl_pos r"
proof -
  let ?e = "ilog2 r" and ?v = "fl_pos r"
  obtain m where m: "?v = of_int m * quantum r" by (auto simp: fl_pos_def)
  have top: "?v \<le> max (pow2 (?e + 1)) (quantum r)" using fl_pos_le_binade [OF assms(1)] .
  show ?thesis
  proof (cases "?e < -1022")
    case True
    then have q: "quantum r = pow2 (-1074)" by (simp add: quantum_def)
    have "pow2 (?e + 1) \<le> pow2 (-1022)" using True by (intro pow2_mono) simp
    moreover have "pow2 (-1074) \<le> pow2 (-1022)" by (rule pow2_mono) simp
    ultimately have "?v \<le> pow2 (-1022)" using top q by simp
    then have "?v < pow2 (-1022 + 1)" using pow2_Suc [of "-1022"] pow2_pos [of "-1022"] by linarith
    then have "ilog2 ?v \<le> -1022" by (rule ilog2_upper [OF assms(2)])
    then have "quantum ?v = quantum r" unfolding q by (simp add: quantum_def [of ?v] max_def)
    then show ?thesis using fl_pos_fixed [OF assms(2), of m] m by simp
  next
    case False
    have "pow2 (-1074) \<le> pow2 (?e + 1)" "pow2 (?e - 52) \<le> pow2 (?e + 1)"
      using False by (auto intro: pow2_mono)
    then have top': "?v \<le> pow2 (?e + 1)" using top False by (simp add: quantum_def max_def split: if_splits)
    obtain n where "pow2 ?e = of_int n * quantum r"
      using pow2_over_quantum [of "max (?e - 52) (-1074)" ?e ?e] False by (auto simp: quantum_def)
    then have bot: "pow2 ?e \<le> ?v" using fl_pos_ge [OF assms(1)] ilog2_bounds [OF assms(1)] by blast
    show ?thesis
    proof (cases "?v = pow2 (?e + 1)")
      case True
      then have "ilog2 ?v = ?e + 1" using pow2_Suc [of "?e + 1"] pow2_pos [of "?e + 1"]
        by (intro ilog2_unique) simp_all
      then obtain n where "?v = of_int n * quantum ?v"
        using pow2_over_quantum [of "max (?e + 1 - 52) (-1074)" "?e + 1" "?e + 1"] False True
        by (auto simp: quantum_def)
      then show ?thesis by (rule fl_pos_fixed [OF assms(2)])
    next
      case False
      then have "ilog2 ?v = ?e" using top' bot by (intro ilog2_unique) simp_all
      then have "quantum ?v = quantum r" by (simp add: quantum_def)
      then show ?thesis using fl_pos_fixed [OF assms(2), of m] m by simp
    qed
  qed
qed

lemma fl_rat_idem [simp]: "fl_rat (fl_rat r) = fl_rat r"
  using fl_pos_idem [of r] fl_pos_idem [of "- r"] fl_pos_nonneg [of r] fl_pos_nonneg [of "- r"]
  by (auto simp: fl_rat_def)

text \<open>The rounding error is at most half a quantum, and one half-quantum above 1 rounds
  back to 1 (ties go to the even neighbour).\<close>

lemma rhe_error: "\<bar>of_int (round_half_even x) - x\<bar> \<le> 1 / 2"
  using floor_correct [of x]
  by (auto simp: round_half_even_def Let_def abs_le_iff)

lemma fl_pos_error: "\<bar>fl_pos r - r\<bar> \<le> quantum r / 2"
proof -
  have "fl_pos r - r = (of_int (round_half_even (r / quantum r)) - r / quantum r) * quantum r"
    using less_imp_neq [OF quantum_pos [of r]] by (simp add: fl_pos_def left_diff_distrib)
  then have "\<bar>fl_pos r - r\<bar> = \<bar>of_int (round_half_even (r / quantum r)) - r / quantum r\<bar> * quantum r"
    by (simp add: abs_mult abs_of_pos)
  also have "\<dots> \<le> 1 / 2 * quantum r" using rhe_error less_imp_le [OF quantum_pos [of r]] by (intro mult_right_mono) simp_all
  finally show ?thesis by simp
qed

lemma fl_rat_above_1: "r \<le> 1 + 1 / 2 ^ 53 \<Longrightarrow> fl_rat r \<le> 1"
proof -
  let ?x = "1 + 1 / 2 ^ 53 :: rat"
  have "ilog2 ?x = 0" by (rule ilog2_unique) (simp_all add: pow2_def)
  then have q: "quantum ?x = 1 / 2 ^ 52" by (simp add: quantum_def pow2_def)
  have "\<lfloor>2 ^ 52 + 1 / 2 :: rat\<rfloor> = 2 ^ 52" by (simp add: floor_unique)
  then have "round_half_even (2 ^ 52 + 1 / 2) = 2 ^ 52" by (simp add: round_half_even_def)
  moreover have "?x / (1 / 2 ^ 52) = 2 ^ 52 + 1 / 2" by simp
  ultimately have "round_half_even (?x / (1 / 2 ^ 52)) = 2 ^ 52" by (simp only:)
  then have "fl_pos ?x = of_int (2 ^ 52) * (1 / 2 ^ 52)" unfolding fl_pos_def q by (simp only:)
  then have "fl_rat ?x = 1" unfolding fl_rat_def by simp
  then show "r \<le> 1 + 1 / 2 ^ 53 \<Longrightarrow> fl_rat r \<le> 1"
    using fl_rat_mono [of r ?x] by (simp only:)
qed

lemma fl_rat_below_1: "0 < r \<Longrightarrow> r < 1 \<Longrightarrow> fl_rat r \<le> r + 1 / 2 ^ 54"
proof -
  assume r: "0 < r" "r < 1"
  have "ilog2 r \<le> -1" using ilog2_upper [of r "-1"] r by (simp add: pow2_def)
  then have "quantum r \<le> pow2 (-53)" unfolding quantum_def by (intro pow2_mono) simp
  then have "quantum r / 2 \<le> 1 / 2 ^ 54" by (simp add: pow2_def)
  then have "fl_pos r \<le> r + 1 / 2 ^ 54" using abs_le_D1 [OF fl_pos_error [of r]] by linarith
  then show ?thesis using r by (simp add: fl_rat_def)
qed

section \<open>The float type and its operations\<close>

datatype pyfloat = Fin rat | NegZero | PosInf | NegInf | NaN

definition fval :: "pyfloat \<Rightarrow> rat" where
  "fval x = (case x of Fin r \<Rightarrow> r | _ \<Rightarrow> 0)"

definition is_neg :: "pyfloat \<Rightarrow> bool" where
  "is_neg x = (case x of Fin r \<Rightarrow> r < 0 | NegZero \<Rightarrow> True | NegInf \<Rightarrow> True | _ \<Rightarrow> False)"

definition is_inf :: "pyfloat \<Rightarrow> bool" where
  "is_inf x = (x = PosInf \<or> x = NegInf)"

definition isfinite :: "pyfloat \<Rightarrow> bool" where
  "isfinite x = (x \<noteq> PosInf \<and> x \<noteq> NegInf \<and> x \<noteq> NaN)"

text \<open>The exact result \<open>r\<close>, rounded; the sign is that of a zero result.\<close>

definition mk_float :: "bool \<Rightarrow> rat \<Rightarrow> pyfloat" where
  "mk_float neg r =
     (let v = fl_rat r in
      if v = 0 then (if neg then NegZero else Fin 0)
      else if v \<ge> 2 ^ 1024 then PosInf
      else if v \<le> - (2 ^ 1024) then NegInf
      else Fin v)"

definition signed_inf :: "bool \<Rightarrow> pyfloat" where
  "signed_inf neg = (if neg then NegInf else PosInf)"

definition f_neg :: "pyfloat \<Rightarrow> pyfloat" where
  "f_neg x = (case x of Fin r \<Rightarrow> if r = 0 then NegZero else Fin (- r) | NegZero \<Rightarrow> Fin 0
     | PosInf \<Rightarrow> NegInf | NegInf \<Rightarrow> PosInf | NaN \<Rightarrow> NaN)"

definition f_add :: "pyfloat \<Rightarrow> pyfloat \<Rightarrow> pyfloat" where
  "f_add x y =
     (if x = NaN \<or> y = NaN then NaN
      else if is_inf x then (if is_inf y \<and> x \<noteq> y then NaN else x)
      else if is_inf y then y
      else mk_float (is_neg x \<and> is_neg y) (fval x + fval y))"

definition f_sub :: "pyfloat \<Rightarrow> pyfloat \<Rightarrow> pyfloat" where
  "f_sub x y = f_add x (f_neg y)"

definition f_mul :: "pyfloat \<Rightarrow> pyfloat \<Rightarrow> pyfloat" where
  "f_mul x y =
     (if x = NaN \<or> y = NaN then NaN
      else if is_inf x \<or> is_inf y then
        (if (\<not> is_inf x \<and> fval x = 0) \<or> (\<not> is_inf y \<and> fval y = 0) then NaN
         else signed_inf (is_neg x \<noteq> is_neg y))
      else mk_float (is_neg x \<noteq> is_neg y) (fval x * fval y))"

definition f_div :: "pyfloat \<Rightarrow> pyfloat \<Rightarrow> pyfloat res" where
  "f_div x y =
     (if isfinite y \<and> fval y = 0 then Inl PyZeroDivisionError
      else if x = NaN \<or> y = NaN then Inr NaN
      else if is_inf x then Inr (if is_inf y then NaN else signed_inf (is_neg x \<noteq> is_neg y))
      else if is_inf y then Inr (mk_float (is_neg x \<noteq> is_neg y) 0)
      else Inr (mk_float (is_neg x \<noteq> is_neg y) (fval x / fval y)))"

definition f_less :: "pyfloat \<Rightarrow> pyfloat \<Rightarrow> bool" where
  "f_less x y =
     (if x = NaN \<or> y = NaN \<or> x = PosInf \<or> y = NegInf then False
      else if x = NegInf \<or> y = PosInf then True
      else fval x < fval y)"

definition f_eq :: "pyfloat \<Rightarrow> pyfloat \<Rightarrow> bool" where
  "f_eq x y = (x \<noteq> NaN \<and> y \<noteq> NaN \<and>
     (if is_inf x \<or> is_inf y then x = y else fval x = fval y))"

definition f_le :: "pyfloat \<Rightarrow> pyfloat \<Rightarrow> bool" where
  "f_le x y = (f_less x y \<or> f_eq x y)"

text \<open>\<open>min(a, b)\<close> and \<open>max(a, b)\<close> return their first argument unless the second is strictly
  smaller or larger.\<close>

definition f_min :: "pyfloat \<Rightarrow> pyfloat \<Rightarrow> pyfloat" where
  "f_min x y = (if f_less y x then y else x)"

definition f_max :: "pyfloat \<Rightarrow> pyfloat \<Rightarrow> pyfloat" where
  "f_max x y = (if f_less x y then y else x)"

text \<open>\<open>float(n)\<close> of an int, \<open>sum()\<close> of floats (it starts from the int 0) and the two-argument
  \<open>round(x, n)\<close>, which rounds the exact value half-even in decimal.\<close>

definition f_of_int :: "int \<Rightarrow> pyfloat res" where
  "f_of_int n = (if is_inf (mk_float False (of_int n)) then Inl PyOverflowError
     else Inr (mk_float False (of_int n)))"

definition f_sum :: "pyfloat list \<Rightarrow> pyfloat" where
  "f_sum xs = foldl f_add (Fin 0) xs"

definition f_round :: "pyfloat \<Rightarrow> nat \<Rightarrow> pyfloat" where
  "f_round x nd =
     (if \<not> isfinite x \<or> fval x = 0 then x
      else mk_float (is_neg x) (of_int (round_half_even (fval x * 10 ^ nd)) / 10 ^ nd))"

section \<open>The decimal representation\<close>

function dec_length :: "int \<Rightarrow> nat" where
  "dec_length n = (if n \<le> 0 then 0 else Suc (dec_length (n div 10)))"
  by auto
termination by (relation "measure nat") auto

declare dec_length.simps [simp del]

definition pow10 :: "int \<Rightarrow> rat" where
  "pow10 k = (if 0 \<le> k then 10 ^ nat k else 1 / 10 ^ nat (- k))"

definition ilog10 :: "rat \<Rightarrow> int" where
  "ilog10 r = (if 1 \<le> r then int (dec_length \<lfloor>r\<rfloor>) - 1 else - int (dec_length (\<lceil>1 / r\<rceil> - 1)))"

text \<open>The shortest decimal \<open>m * 10 ^ e\<close> that rounds to the float \<open>v > 0\<close>.\<close>

definition nearest_decimal :: "rat \<Rightarrow> nat \<Rightarrow> int \<times> int" where
  "nearest_decimal v n = (let e = ilog10 v - int n + 1 in (round_half_even (v / pow10 e), e))"

definition shortest_decimal :: "rat \<Rightarrow> int \<times> int" where
  "shortest_decimal v =
     (case find (\<lambda>n. case nearest_decimal v n of (m, e) \<Rightarrow> fl_rat (of_int m * pow10 e) = v) [1..<17] of
        Some n \<Rightarrow> nearest_decimal v n
      | None \<Rightarrow> nearest_decimal v 17)"

fun drop_zeros :: "string \<Rightarrow> string" where
  "drop_zeros s = rev (dropWhile (\<lambda>c. c = CHR ''0'') (rev s))"

definition repr_digits :: "string \<Rightarrow> int \<Rightarrow> string" where
  "repr_digits d decpt =
     (let n = int (length d) in
      if -4 < decpt \<and> decpt \<le> 16 then
        (if decpt \<le> 0 then ''0.'' @ replicate (nat (- decpt)) CHR ''0'' @ d
         else if decpt \<ge> n then d @ replicate (nat (decpt - n)) CHR ''0'' @ ''.0''
         else take (nat decpt) d @ ''.'' @ drop (nat decpt) d)
      else
        take 1 d @ (if n > 1 then ''.'' @ drop 1 d else []) @ ''e''
        @ (if decpt - 1 < 0 then ''-'' else ''+'')
        @ (let x = nat_str (nat \<bar>decpt - 1\<bar>) in if length x < 2 then CHR ''0'' # x else x))"

definition repr_pos :: "rat \<Rightarrow> string" where
  "repr_pos v =
     (case shortest_decimal v of (m, e) \<Rightarrow>
        let s = nat_str (nat m) in repr_digits (drop_zeros s) (int (length s) + e))"

text \<open>\<open>float.__repr__\<close>, with the spellings \<open>json.dumps\<close> gives the special values.\<close>

definition float_repr :: "pyfloat \<Rightarrow> string" where
  "float_repr x =
     (case x of
        Fin r \<Rightarrow> if r = 0 then ''0.0'' else if r < 0 then ''-'' @ repr_pos (- r) else repr_pos r
      | NegZero \<Rightarrow> ''-0.0'' | PosInf \<Rightarrow> ''Infinity'' | NegInf \<Rightarrow> ''-Infinity'' | NaN \<Rightarrow> ''NaN'')"

section \<open>Facts about the operations\<close>

text \<open>The values a binary64 can hold.\<close>

definition float_ok :: "pyfloat \<Rightarrow> bool" where
  "float_ok x = (case x of Fin r \<Rightarrow> fl_rat r = r \<and> \<bar>r\<bar> < 2 ^ 1024 | _ \<Rightarrow> True)"

definition nonneg :: "pyfloat \<Rightarrow> bool" where
  "nonneg x = (isfinite x \<and> \<not> f_less x (Fin 0))"

lemma nonneg_iff: "nonneg x \<longleftrightarrow> isfinite x \<and> 0 \<le> fval x"
  by (cases x) (auto simp: nonneg_def isfinite_def f_less_def fval_def)

lemma fval_simps [simp]: "fval (Fin r) = r" "fval NegZero = 0"
  by (simp_all add: fval_def)

lemma isfinite_simps [simp]: "isfinite (Fin r)" "isfinite NegZero" "\<not> isfinite PosInf"
    "\<not> isfinite NegInf" "\<not> isfinite NaN"
  by (simp_all add: isfinite_def)

lemma mk_float_fval: "isfinite (mk_float neg r) \<Longrightarrow> fval (mk_float neg r) = fl_rat r"
  by (auto simp: mk_float_def Let_def split: if_splits)

lemma mk_float_finite: "\<bar>fl_rat r\<bar> < 2 ^ 1024 \<Longrightarrow> isfinite (mk_float neg r)"
  by (auto simp: mk_float_def Let_def)

lemma mk_float_ok: "float_ok (mk_float neg r)"
  by (auto simp: mk_float_def Let_def float_ok_def abs_less_iff)

lemma finite_not_inf: "isfinite x \<Longrightarrow> \<not> is_inf x \<and> x \<noteq> NaN"
  by (auto simp: isfinite_def is_inf_def)

lemma f_add_fin: "isfinite x \<Longrightarrow> isfinite y \<Longrightarrow>
    f_add x y = mk_float (is_neg x \<and> is_neg y) (fval x + fval y)"
  using finite_not_inf by (auto simp: f_add_def)

lemma f_mul_fin: "isfinite x \<Longrightarrow> isfinite y \<Longrightarrow>
    f_mul x y = mk_float (is_neg x \<noteq> is_neg y) (fval x * fval y)"
  using finite_not_inf by (auto simp: f_mul_def)

lemma f_less_fin: "isfinite x \<Longrightarrow> isfinite y \<Longrightarrow> f_less x y \<longleftrightarrow> fval x < fval y"
  using finite_not_inf by (auto simp: f_less_def isfinite_def)

lemma f_le_trans: "f_le x y \<Longrightarrow> f_le y z \<Longrightarrow> f_le x z"
  by (cases x; cases y; cases z) (auto simp: f_le_def f_less_def f_eq_def is_inf_def split: if_splits)

lemma mk_float_le: "r \<le> s \<Longrightarrow> f_le (mk_float a r) (mk_float b s)"
  using fl_rat_mono [of r s]
  by (auto simp: mk_float_def Let_def f_le_def f_less_def f_eq_def is_inf_def)

end
