(* ===== verification/Core_Rng.thy ===== *)
theory Core_Rng
  imports Core_Cnf Py_Codec Py_Float
begin

text \<open>
  \<open>cathedral_thin/core.py\<close>, the challenge generator: the HMAC counter generator
  \<open>HashRng\<close>, the seed derivation and the two-hidden-assignment formula generator. The
  keyed block function is an argument \<open>mac\<close>, so that the theorems hold for every one; the
  code's instance is \<open>hmac_sha256\<close>. The lemmas show that the generator hands out
  consecutive bytes of one stream, that \<open>randbelow\<close> returns the first accepted chunk of it,
  and that a generated formula is satisfied by the planted model and by its complement.
\<close>

section \<open>The generator\<close>

type_synonym prf_fun = "bytes \<Rightarrow> bytes \<Rightarrow> bytes"

record rng =
  rng_key :: bytes
  rng_counter :: int
  rng_buffer :: bytes

text \<open>A C string in the source: the label ends with a zero byte.\<close>

definition label_bytes :: "string \<Rightarrow> bytes" where
  "label_bytes s = map byte_of s @ [0]"

definition rng_init :: "bytes \<Rightarrow> rng res" where
  "rng_init key = guardE (length key < 32) ''rng key must contain at least 256 bits''
     (Inr \<lparr>rng_key = key, rng_counter = 0, rng_buffer = []\<rparr>)"

definition rng_block :: "prf_fun \<Rightarrow> bytes \<Rightarrow> int \<Rightarrow> bytes" where
  "rng_block mac key ctr = mac key (label_bytes ''cathedral-thin-rng-v1'' @ be_bytes 8 ctr)"

text \<open>\<open>to_bytes(8, "big")\<close> raises OverflowError once the counter needs more than 8 bytes.\<close>

partial_function (option) rng_fill :: "prf_fun \<Rightarrow> rng \<Rightarrow> int \<Rightarrow> rng comp" where
  "rng_fill mac st count =
     (if int (length (rng_buffer st)) < count then
        (if rng_counter st \<ge> 2 ^ 64 then Some (Inl PyOverflowError)
         else rng_fill mac (st\<lparr>rng_counter := rng_counter st + 1,
            rng_buffer := rng_buffer st @ rng_block mac (rng_key st) (rng_counter st)\<rparr>) count)
      else returnO st)"

declare rng_fill.simps [code]

definition rng_bytes :: "prf_fun \<Rightarrow> rng \<Rightarrow> int \<Rightarrow> (bytes \<times> rng) comp" where
  "rng_bytes mac st count =
     (if count < 0 then raiseO ''negative byte request''
      else bindO (rng_fill mac st count) (\<lambda>st'.
        returnO (take (nat count) (rng_buffer st'),
          st'\<lparr>rng_buffer := drop (nat count) (rng_buffer st')\<rparr>)))"

definition draw_bytes :: "int \<Rightarrow> int" where
  "draw_bytes ub = max 1 ((bit_length ub + 7) div 8)"

definition draw_limit :: "int \<Rightarrow> int" where
  "draw_limit ub = 2 ^ nat (8 * draw_bytes ub) - 2 ^ nat (8 * draw_bytes ub) mod ub"

partial_function (option) randbelow_loop :: "prf_fun \<Rightarrow> int \<Rightarrow> rng \<Rightarrow> (int \<times> rng) comp" where
  "randbelow_loop mac ub st =
     bindO (rng_bytes mac st (draw_bytes ub)) (\<lambda>r.
       if be_int (fst r) < draw_limit ub then returnO (be_int (fst r) mod ub, snd r)
       else randbelow_loop mac ub (snd r))"

declare randbelow_loop.simps [code]

definition randbelow :: "prf_fun \<Rightarrow> rng \<Rightarrow> int \<Rightarrow> (int \<times> rng) comp" where
  "randbelow mac st ub =
     (if ub \<le> 0 then raiseO ''randbelow upper bound must be positive''
      else randbelow_loop mac ub st)"

definition rng_bit :: "prf_fun \<Rightarrow> rng \<Rightarrow> (bool \<times> rng) comp" where
  "rng_bit mac st = bindO (randbelow mac st 2) (\<lambda>r. returnO (fst r \<noteq> 0, snd r))"

definition sample3 :: "prf_fun \<Rightarrow> rng \<Rightarrow> int \<Rightarrow> ((int \<times> int \<times> int) \<times> rng) comp" where
  "sample3 mac st ub =
     (if ub < 3 then raiseO ''3-SAT needs at least three variables''
      else bindO (randbelow mac st ub) (\<lambda>ra. bindO (randbelow mac (snd ra) (ub - 1)) (\<lambda>rb.
        let a = fst ra; b = (if fst rb \<ge> a then fst rb + 1 else fst rb);
            low = min a b; high = max a b in
        bindO (randbelow mac (snd rb) (ub - 2)) (\<lambda>rc.
          let c = (if fst rc \<ge> low then fst rc + 1 else fst rc);
              c' = (if c \<ge> high then c + 1 else c) in
          returnO ((a + 1, b + 1, c' + 1), snd rc)))))"

section \<open>The challenge seed\<close>

definition join_nul :: "string list \<Rightarrow> string" where
  "join_nul parts = (case parts of [] \<Rightarrow> [] | f # fs \<Rightarrow> f @ concat (map (\<lambda>g. char_of (0::nat) # g) fs))"

definition derive_challenge_seed ::
  "prf_fun \<Rightarrow> bytes \<Rightarrow> int \<Rightarrow> string \<Rightarrow> string \<Rightarrow> int \<Rightarrow> int \<Rightarrow> bytes res" where
  "derive_challenge_seed mac master_secret netuid validator_hotkey miner_hotkey round_id slot =
     guardE (length master_secret \<noteq> 32) ''master secret must be exactly 32 bytes''
       (let parts = [''cathedral-thin-challenge-v1'', int_str netuid, validator_hotkey,
              miner_hotkey, int_str round_id, int_str slot] in
        guardE (validator_hotkey = [] \<or> miner_hotkey = [] \<or> round_id < 0 \<or> slot < 0)
          ''invalid challenge derivation fields''
          (Inr (mac master_secret (utf8_encode (join_nul parts)))))"

section \<open>The formula generator\<close>

fun draw_bits :: "prf_fun \<Rightarrow> nat \<Rightarrow> rng \<Rightarrow> (bool list \<times> rng) comp" where
  "draw_bits mac 0 st = returnO ([], st)"
| "draw_bits mac (Suc n) st = bindO (rng_bit mac st) (\<lambda>r. bindO (draw_bits mac n (snd r)) (\<lambda>rs.
     returnO (fst r # fst rs, snd rs)))"

definition sort3 :: "int \<times> int \<times> int \<Rightarrow> int list" where
  "sort3 t = (case t of (a, b, c) \<Rightarrow> sort [a, b, c])"

text \<open>\<open>tuple(v if rng.bit() else -v for v in variables)\<close>\<close>

definition draw_literals :: "prf_fun \<Rightarrow> int list \<Rightarrow> rng \<Rightarrow> (int list \<times> rng) comp" where
  "draw_literals mac vs st = bindO (draw_bits mac (length vs) st) (\<lambda>r.
     returnO (map (\<lambda>(v, b). if b then v else - v) (zip vs (fst r)), snd r))"

definition true_count :: "bool list \<Rightarrow> int list \<Rightarrow> nat" where
  "true_count model lits = length (filter (\<lambda>l. (l > 0) = model ! nat \<bar>l\<bar>) lits)"

definition clause_of :: "int list \<Rightarrow> clause3" where
  "clause_of ls = (ls ! 0, ls ! 1, ls ! 2)"

function ajm_loop ::
  "prf_fun \<Rightarrow> int \<Rightarrow> int \<Rightarrow> bool list \<Rightarrow> int \<Rightarrow> int \<Rightarrow> rng \<Rightarrow> clause3 list \<Rightarrow> (clause3 list \<times> rng) comp" where
  "ajm_loop mac nv nc model max_attempts attempts st clauses =
     (if int (length clauses) < nc then
        (if attempts + 1 > max_attempts then raiseO ''could not generate enough unique AJM clauses''
         else bindO (sample3 mac st nv) (\<lambda>rv.
           bindO (draw_literals mac (sort3 (fst rv)) (snd rv)) (\<lambda>rl.
             if true_count model (fst rl) \<notin> {1, 2} \<or> clause_of (fst rl) \<in> set clauses
             then ajm_loop mac nv nc model max_attempts (attempts + 1) (snd rl) clauses
             else ajm_loop mac nv nc model max_attempts (attempts + 1) (snd rl)
               (clauses @ [clause_of (fst rl)]))))
      else returnO (clauses, st))"
  by pat_completeness auto
termination
  by (relation "measure (\<lambda>(mac, nv, nc, model, max_attempts, attempts, st, clauses).
        nat (max_attempts - attempts))") auto

declare ajm_loop.simps [simp del]

definition generate_ajm_cnf :: "prf_fun \<Rightarrow> bytes \<Rightarrow> int \<Rightarrow> int \<Rightarrow> (cnf \<times> int list) comp" where
  "generate_ajm_cnf mac seed nv nc =
     (if \<not> (3 \<le> nv \<and> nv \<le> 100000) then raiseO ''n_vars outside safe bounds''
      else if \<not> (1 \<le> nc \<and> nc \<le> 1000000) then raiseO ''n_clauses outside safe bounds''
      else bindO (Some (rng_init seed)) (\<lambda>st.
        bindO (draw_bits mac (nat nv) st) (\<lambda>rm.
          let model = False # fst rm in
          bindO (ajm_loop mac nv nc model (max 10000 (nc * 32)) 0 (snd rm) []) (\<lambda>rc.
            returnO (\<lparr>cnf_n_vars = nv, cnf_clauses = fst rc\<rparr>,
              map (\<lambda>i. if model ! nat i then i else - i) [1..nv])))))"


section \<open>One stream of bytes\<close>

text \<open>The abstract generator: the concatenated blocks as one stream, and a position in it.\<close>

definition stream_byte :: "prf_fun \<Rightarrow> bytes \<Rightarrow> nat \<Rightarrow> 8 word" where
  "stream_byte mac key i = rng_block mac key (int (i div 32)) ! (i mod 32)"

definition stream_chunk :: "prf_fun \<Rightarrow> bytes \<Rightarrow> nat \<Rightarrow> nat \<Rightarrow> bytes" where
  "stream_chunk mac key p n = map (stream_byte mac key) [p..<p + n]"

definition mac_ok :: "prf_fun \<Rightarrow> bool" where
  "mac_ok mac = (\<forall>k m. length (mac k m) = 32)"

definition rng_at :: "prf_fun \<Rightarrow> rng \<Rightarrow> nat \<Rightarrow> bool" where
  "rng_at mac st p = (\<exists>c. rng_counter st = int c \<and> p \<le> 32 * c \<and>
     rng_buffer st = map (stream_byte mac (rng_key st)) [p..<32 * c])"

abbreviation stream_end :: nat where
  "stream_end \<equiv> 32 * 2 ^ 64"

lemma mac_ok_hmac: "mac_ok hmac_sha256"
  by (simp add: mac_ok_def)

lemma rng_init_at: "rng_init key = Inr st \<Longrightarrow> rng_at mac st 0 \<and> rng_key st = key"
  by (auto simp: rng_init_def rng_at_def elim!: resE)

lemma block_stream:
  "mac_ok mac \<Longrightarrow> rng_block mac key (int c) = map (stream_byte mac key) [32 * c..<32 * Suc c]"
  by (rule nth_equalityI) (simp_all add: mac_ok_def rng_block_def stream_byte_def div_mult_self4)

lemma rng_fill_spec:
  assumes "mac_ok mac" "rng_at mac st p" "p + n \<le> stream_end"
  shows "\<exists>st'. rng_fill mac st (int n) = returnO st' \<and> rng_at mac st' p \<and>
    rng_key st' = rng_key st \<and> n \<le> length (rng_buffer st')"
  using assms(2)
proof (induction "n - length (rng_buffer st)" arbitrary: st rule: less_induct)
  case less
  show ?case
  proof (cases "length (rng_buffer st) < n")
    case False
    then show ?thesis using less.prems by (subst rng_fill.simps) auto
  next
    case True
    obtain c where c: "rng_counter st = int c" "p \<le> 32 * c"
      "rng_buffer st = map (stream_byte mac (rng_key st)) [p..<32 * c]"
      using less.prems by (auto simp: rng_at_def)
    let ?st = "st\<lparr>rng_counter := rng_counter st + 1,
      rng_buffer := rng_buffer st @ rng_block mac (rng_key st) (rng_counter st)\<rparr>"
    have "32 * c < stream_end" using True c(2,3) assms(3) by simp
    then have lt: "\<not> rng_counter st \<ge> 2 ^ 64" by (simp add: c(1))
    have "[p..<32 * Suc c] = [p..<32 * c] @ [32 * c..<32 * Suc c]"
      using c(2) by (metis le_add1 mult_Suc_right add.commute upt_add_eq_append)
    then have "rng_at mac ?st p"
      unfolding rng_at_def using c block_stream [OF assms(1), of "rng_key st" c]
      by (intro exI [of _ "Suc c"]) simp
    moreover have "n - length (rng_buffer ?st) < n - length (rng_buffer st)"
      using True assms(1) by (simp add: rng_block_def mac_ok_def)
    ultimately show ?thesis
      using less.hyps [of ?st] True lt by (subst rng_fill.simps) auto
  qed
qed

lemma rng_bytes_spec:
  assumes "mac_ok mac" "rng_at mac st p" "p + n \<le> stream_end"
  shows "\<exists>st'. rng_bytes mac st (int n) = returnO (stream_chunk mac (rng_key st) p n, st') \<and>
    rng_at mac st' (p + n) \<and> rng_key st' = rng_key st"
proof -
  obtain st' where st': "rng_fill mac st (int n) = returnO st'" "rng_at mac st' p"
    "rng_key st' = rng_key st" "n \<le> length (rng_buffer st')"
    using rng_fill_spec [OF assms] by blast
  then obtain c where c: "rng_counter st' = int c" "p \<le> 32 * c"
    "rng_buffer st' = map (stream_byte mac (rng_key st)) [p..<32 * c]"
    by (auto simp: rng_at_def)
  then have le: "p + n \<le> 32 * c" using st'(4) by simp
  have "take n (rng_buffer st') = stream_chunk mac (rng_key st) p n"
    using le by (simp add: c(3) stream_chunk_def take_map)
  moreover have "rng_at mac (st'\<lparr>rng_buffer := drop n (rng_buffer st')\<rparr>) (p + n)"
    using le c st'(3) by (auto simp: rng_at_def drop_map)
  ultimately show ?thesis using st'(1,3) by (simp add: rng_bytes_def)
qed


text \<open>\<open>randbelow\<close> reads fixed-width chunks of the stream and returns the first one below the
  rejection limit, reduced.\<close>

definition draw :: "prf_fun \<Rightarrow> bytes \<Rightarrow> nat \<Rightarrow> int \<Rightarrow> nat \<Rightarrow> int" where
  "draw mac key p ub j =
     be_int (stream_chunk mac key (p + j * nat (draw_bytes ub)) (nat (draw_bytes ub)))"

lemma draw_bytes_pos: "0 < draw_bytes ub"
  by (simp add: draw_bytes_def)

lemma draw_Suc: "draw mac key (p + nat (draw_bytes ub)) ub j = draw mac key p ub (Suc j)"
  by (simp add: draw_def algebra_simps)

lemma randbelow_loop_spec:
  assumes "mac_ok mac" "rng_at mac st p"
    and "\<And>i. i < j \<Longrightarrow> draw mac (rng_key st) p ub i \<ge> draw_limit ub"
    and "draw mac (rng_key st) p ub j < draw_limit ub"
    and "p + Suc j * nat (draw_bytes ub) \<le> stream_end"
  shows "\<exists>st'. randbelow_loop mac ub st = returnO (draw mac (rng_key st) p ub j mod ub, st') \<and>
    rng_at mac st' (p + Suc j * nat (draw_bytes ub)) \<and> rng_key st' = rng_key st"
  using assms(2-5)
proof (induction j arbitrary: st p)
  let ?w = "nat (draw_bytes ub)"
  have w: "int ?w = draw_bytes ub" using draw_bytes_pos [of ub] by simp
  {
    case 0
    then have "p + ?w \<le> stream_end" by simp
    from rng_bytes_spec [OF assms(1) 0(1) this] obtain st' where
      "rng_bytes mac st (int ?w) = returnO (stream_chunk mac (rng_key st) p ?w, st')"
      "rng_at mac st' (p + ?w)" "rng_key st' = rng_key st" by blast
    then show ?case using 0(3) w by (subst randbelow_loop.simps) (simp add: draw_def)
  next
    case (Suc j)
    then have "p + ?w \<le> stream_end" by simp
    from rng_bytes_spec [OF assms(1) Suc.prems(1) this] obtain st' where
      st': "rng_bytes mac st (int ?w) = returnO (stream_chunk mac (rng_key st) p ?w, st')"
      "rng_at mac st' (p + ?w)" "rng_key st' = rng_key st" by blast
    have "be_int (stream_chunk mac (rng_key st) p ?w) = draw mac (rng_key st) p ub 0"
      by (simp add: draw_def)
    then have "\<not> be_int (stream_chunk mac (rng_key st) p ?w) < draw_limit ub"
      using Suc.prems(2) [of 0] by simp
    then have "randbelow_loop mac ub st = randbelow_loop mac ub st'"
      using st'(1) w by (subst randbelow_loop.simps) simp
    moreover have "\<exists>st''. randbelow_loop mac ub st' =
          returnO (draw mac (rng_key st') (p + ?w) ub j mod ub, st'') \<and>
        rng_at mac st'' (p + ?w + Suc j * ?w) \<and> rng_key st'' = rng_key st'"
    proof (rule Suc.IH [OF st'(2)])
      show "draw_limit ub \<le> draw mac (rng_key st') (p + ?w) ub i" if "i < j" for i
        using Suc.prems(2) [of "Suc i"] that by (simp add: draw_Suc st'(3))
      show "draw mac (rng_key st') (p + ?w) ub j < draw_limit ub"
        using Suc.prems(3) by (simp add: draw_Suc st'(3))
      show "p + ?w + Suc j * ?w \<le> stream_end" using Suc.prems(4) by simp
    qed
    ultimately show ?case using st'(3) by (simp add: draw_Suc add.assoc)
  }
qed

lemma randbelow_loop_range:
  assumes "randbelow_loop mac ub st = Some res" "0 < ub"
  shows "\<forall>v s. res = Inr (v, s) \<longrightarrow> 0 \<le> v \<and> v < ub"
  using assms(2)
proof (induct rule: randbelow_loop.raw_induct [OF _ assms(1)])
  case (1 loop mac ub st res)
  then have *: "bindO (rng_bytes mac st (draw_bytes ub)) (\<lambda>r.
       if be_int (fst r) < draw_limit ub then returnO (be_int (fst r) mod ub, snd r)
       else loop mac ub (snd r)) = Some res" by simp
  show ?case
  proof (cases res)
    case (Inr y)
    show ?thesis using * 1(3) unfolding Inr
      by (elim bindO_returnE) (auto split: if_splits dest!: 1(1) simp: Inr)
  qed simp
qed

lemma randbelow_range: "randbelow mac st ub = returnO r \<Longrightarrow> 0 \<le> fst r \<and> fst r < ub"
  by (cases r) (auto simp: randbelow_def split: if_splits dest: randbelow_loop_range)

lemma bit_length_2: "bit_length 2 = 2"
  by (simp add: bit_length.simps)

lemma draw_one_byte: "draw_bytes 2 = 1" "draw_limit 2 = 256"
  by (simp_all add: draw_bytes_def draw_limit_def bit_length_2)

lemma rng_bit_spec:
  assumes "mac_ok mac" "rng_at mac st p" "p < stream_end"
  shows "\<exists>st'. rng_bit mac st = returnO (odd (uint (stream_byte mac (rng_key st) p)), st') \<and>
    rng_at mac st' (p + 1) \<and> rng_key st' = rng_key st"
proof -
  have d: "draw mac (rng_key st) p 2 0 = uint (stream_byte mac (rng_key st) p)"
    by (simp add: draw_def draw_one_byte stream_chunk_def be_int_def)
  have "uint (stream_byte mac (rng_key st) p) < 256"
    using uint_bounded [of "stream_byte mac (rng_key st) p"] by simp
  with randbelow_loop_spec [OF assms(1,2), of 0 2] assms(3) show ?thesis
    by (auto simp: d draw_one_byte rng_bit_def randbelow_def odd_iff_mod_2_eq_one)
qed

lemma sample3_range:
  assumes "sample3 mac st ub = returnO r"
  shows "case fst r of (a, b, c) \<Rightarrow> distinct [a, b, c] \<and> {a, b, c} \<subseteq> {1..ub}"
proof -
  obtain ra rb rc where ra: "randbelow mac st ub = returnO ra"
    and rb: "randbelow mac (snd ra) (ub - 1) = returnO rb"
    and rc: "randbelow mac (snd rb) (ub - 2) = returnO rc"
    and r: "fst r = (let a = fst ra; b = (if fst rb \<ge> a then fst rb + 1 else fst rb);
        c = (if fst rc \<ge> min a b then fst rc + 1 else fst rc);
        c' = (if c \<ge> max a b then c + 1 else c) in (a + 1, b + 1, c' + 1))"
    using assms unfolding sample3_def Let_def by (auto split: if_split_asm elim!: bindO_returnE)
  show ?thesis
    using randbelow_range [OF ra] randbelow_range [OF rb] randbelow_range [OF rc] unfolding r
    by (auto simp: Let_def)
qed

lemma draw_bits_length: "draw_bits mac n st = returnO r \<Longrightarrow> length (fst r) = n"
proof (induction n arbitrary: st r)
  case (Suc n)
  then show ?case by (auto elim!: bindO_returnE)
qed auto

lemma draw_bits_spec:
  assumes "mac_ok mac" "rng_at mac st p" "p + n \<le> stream_end"
  shows "\<exists>st'. draw_bits mac n st =
      returnO (map (\<lambda>i. odd (uint (stream_byte mac (rng_key st) i))) [p..<p + n], st') \<and>
    rng_at mac st' (p + n) \<and> rng_key st' = rng_key st"
  using assms(2,3)
proof (induction n arbitrary: st p)
  case (Suc n)
  then have "p < stream_end" by simp
  from rng_bit_spec [OF assms(1) Suc.prems(1) this] obtain st' where
    st': "rng_bit mac st = returnO (odd (uint (stream_byte mac (rng_key st) p)), st')"
    "rng_at mac st' (p + 1)" "rng_key st' = rng_key st" by blast
  have "p + 1 + n \<le> stream_end" using Suc.prems(2) by simp
  from Suc.IH [OF st'(2) this] st' show ?case by (auto simp: upt_conv_Cons simp del: upt_Suc)
qed simp

section \<open>Every generated formula has two hidden models\<close>

definition good_clause :: "int \<Rightarrow> bool list \<Rightarrow> clause3 \<Rightarrow> bool" where
  "good_clause nv model cl = (clause_wf nv cl \<and> true_count model (clause_lits cl) \<in> {1, 2})"

lemma sort3_facts:
  "length (sort3 t) = 3" "set (sort3 (a, b, c)) = {a, b, c}" "distinct (sort3 (a, b, c)) = distinct [a, b, c]"
  unfolding sort3_def by (cases t, simp) (simp_all only: prod.case set_sort distinct_sort list.set)

lemma length3_conv: "length xs = 3 \<Longrightarrow> xs = [xs ! 0, xs ! 1, xs ! 2]"
  by (auto simp: numeral_3_eq_3 length_Suc_conv)

lemma draw_literals_abs:
  assumes "draw_literals mac vs st = returnO r" "\<forall>v \<in> set vs. 0 < v"
  shows "map abs (fst r) = vs"
proof -
  from assms(1) obtain bs s' where bs: "draw_bits mac (length vs) st = returnO (bs, s')"
    and r: "fst r = map (\<lambda>(v, b). if b then v else - v) (zip vs bs)"
    by (auto simp: draw_literals_def elim!: bindO_returnE)
  have "length bs = length vs" using draw_bits_length [OF bs] by simp
  then show ?thesis using assms(2) unfolding r by (intro nth_equalityI) (auto simp: nth_zip less_imp_le)
qed

lemma drawn_clause_wf:
  assumes "sample3 mac st nv = returnO rv" "draw_literals mac (sort3 (fst rv)) st' = returnO rl"
  shows "clause_wf nv (clause_of (fst rl)) \<and> clause_lits (clause_of (fst rl)) = fst rl"
proof -
  obtain a b c where abc: "fst rv = (a, b, c)" by (cases "fst rv")
  have abc_ok: "distinct [a, b, c]" "{a, b, c} \<subseteq> {1..nv}"
    using sample3_range [OF assms(1)] by (simp_all add: abc)
  let ?vs = "sort3 (a, b, c)"
  have "\<forall>v \<in> set ?vs. 0 < v" using abc_ok(2) unfolding sort3_facts by auto
  with assms(2) have vs: "map abs (fst rl) = ?vs" using draw_literals_abs abc by metis
  then have len: "length (fst rl) = 3" by (metis length_map sort3_facts(1))
  then obtain x y z where xyz: "fst rl = [x, y, z]" using length3_conv by blast
  have "distinct (map abs (fst rl))" "set (map abs (fst rl)) \<subseteq> {1..nv}"
    using vs abc_ok sort3_facts(2,3) [of a b c] by simp_all
  then show ?thesis by (auto simp: xyz clause_of_def clause_wf_def clause_lits_def)
qed

lemma ajm_loop_invariant:
  assumes "ajm_loop mac nv nc model mx att st cls = returnO r"
    and "distinct cls" "\<forall>cl \<in> set cls. good_clause nv model cl" "int (length cls) \<le> nc"
  shows "distinct (fst r) \<and> (\<forall>cl \<in> set (fst r). good_clause nv model cl) \<and> int (length (fst r)) = nc"
  using assms
proof (induction mac nv nc model mx att st cls rule: ajm_loop.induct)
  case (1 mac nv nc model mx att st cls)
  show ?case
  proof (cases "int (length cls) < nc")
    case False
    then show ?thesis using 1(3-6) by (subst (asm) ajm_loop.simps) auto
  next
    case True
    with 1(3) obtain rv rl where mx: "\<not> att + 1 > mx" and rv: "sample3 mac st nv = returnO rv"
      and rl: "draw_literals mac (sort3 (fst rv)) (snd rv) = returnO rl"
      and rest: "(if true_count model (fst rl) \<notin> {1, 2} \<or> clause_of (fst rl) \<in> set cls
          then ajm_loop mac nv nc model mx (att + 1) (snd rl) cls
          else ajm_loop mac nv nc model mx (att + 1) (snd rl) (cls @ [clause_of (fst rl)])) = returnO r"
      by (subst (asm) ajm_loop.simps) (auto simp del: insert_iff split: if_split_asm elim!: bindO_returnE)
    show ?thesis
    proof (cases "true_count model (fst rl) \<notin> {1, 2} \<or> clause_of (fst rl) \<in> set cls")
      case skip: True
      then show ?thesis using 1(1) [OF True mx rv rl] 1(4-6) rest by simp
    next
      case False
      have "good_clause nv model (clause_of (fst rl))"
        using drawn_clause_wf [OF rv rl] False by (simp add: good_clause_def)
      moreover have "ajm_loop mac nv nc model mx (att + 1) (snd rl) (cls @ [clause_of (fst rl)]) = returnO r"
        using rest False by (simp only: if_False)
      ultimately show ?thesis using 1(2) [OF True mx rv rl] 1(4-6) False True by simp
    qed
  qed
qed

definition planted_lits :: "bool list \<Rightarrow> int \<Rightarrow> int list" where
  "planted_lits model nv = map (\<lambda>i. if model ! nat i then i else - i) [1..nv]"

lemma planted_complete: "complete_lits nv (planted_lits model nv)"
proof -
  have "map abs (planted_lits model nv) = [1..nv]"
    by (auto simp: planted_lits_def comp_def intro!: map_idI)
  moreover from this have "abs ` set (planted_lits model nv) = {1..nv}"
    by (metis list.set_map set_upto)
  ultimately show ?thesis
    by (simp add: complete_lits_def distinct_upto) (auto simp: planted_lits_def)
qed

lemma set_planted: "l \<in> set (planted_lits model nv) \<longleftrightarrow> 1 \<le> \<bar>l\<bar> \<and> \<bar>l\<bar> \<le> nv \<and> (l > 0) = model ! nat \<bar>l\<bar>"
proof (cases "l > 0")
  case True
  then show ?thesis by (auto simp: planted_lits_def image_iff)
next
  case False
  then show ?thesis by (auto simp: planted_lits_def image_iff intro!: bexI [of _ "- l"])
qed

lemma complete_lits_uminus: "complete_lits nv ls \<Longrightarrow> complete_lits nv (map uminus ls)"
  by (auto simp: complete_lits_def comp_def image_image)

lemma good_clause_planted:
  assumes "good_clause nv model cl"
  shows "set (clause_lits cl) \<inter> set (planted_lits model nv) \<noteq> {}"
    and "set (clause_lits cl) \<inter> set (map uminus (planted_lits model nv)) \<noteq> {}"
proof -
  obtain a b c where cl: "cl = (a, b, c)" by (cases cl)
  have wf: "\<And>l. l \<in> {a, b, c} \<Longrightarrow> 1 \<le> \<bar>l\<bar> \<and> \<bar>l\<bar> \<le> nv" "\<And>l. l \<in> {a, b, c} \<Longrightarrow> l \<noteq> 0"
    using assms by (auto simp: good_clause_def clause_wf_def cl abs_if)
  let ?t = "\<lambda>l. (l > 0) = model ! nat \<bar>l\<bar>"
  have cnt: "length (filter ?t [a, b, c]) \<in> {1, 2}"
    using assms by (simp add: good_clause_def true_count_def clause_lits_def cl)
  have "\<exists>l \<in> {a, b, c}. ?t l" using cnt by (auto split: if_splits)
  then show "set (clause_lits cl) \<inter> set (planted_lits model nv) \<noteq> {}"
    using wf(1) by (auto simp: clause_lits_def cl set_planted)
  have "\<exists>l \<in> {a, b, c}. \<not> ?t l" using cnt by (auto split: if_splits)
  then obtain l where l: "l \<in> {a, b, c}" "\<not> ?t l" by blast
  then have "- l \<in> set (planted_lits model nv)" using wf [OF l(1)] by (auto simp: set_planted)
  then have "l \<in> set (map uminus (planted_lits model nv))" by (force simp: image_iff)
  then show "set (clause_lits cl) \<inter> set (map uminus (planted_lits model nv)) \<noteq> {}"
    using l(1) by (auto simp: clause_lits_def cl)
qed

lemma generate_ajm_correct:
  assumes "generate_ajm_cnf mac seed nv nc = returnO (c, planted)"
  shows "cnf_wf c \<and> cnf_n_vars c = nv \<and> n_clauses c = nc \<and> distinct (cnf_clauses c) \<and>
    3 \<le> nv \<and> is_model c planted \<and> is_model c (map uminus planted)"
proof -
  from assms obtain st rm rc where
    rc: "ajm_loop mac nv nc (False # fst rm) (max 10000 (nc * 32)) 0 (snd rm) [] = returnO rc"
    and c: "c = \<lparr>cnf_n_vars = nv, cnf_clauses = fst rc\<rparr>" "planted = planted_lits (False # fst rm) nv"
    and b: "3 \<le> nv" "1 \<le> nc"
    unfolding generate_ajm_cnf_def Let_def planted_lits_def
    by (auto split: if_split_asm elim!: bindO_returnE)
  have inv: "distinct (fst rc)" "\<forall>cl \<in> set (fst rc). good_clause nv (False # fst rm) cl"
    "int (length (fst rc)) = nc"
    using ajm_loop_invariant [OF rc] b(2) by auto
  have "is_model c planted" "is_model c (map uminus planted)"
    using inv(2) good_clause_planted planted_complete complete_lits_uminus
    by (auto simp: is_model_def c simp del: set_map)
  then show ?thesis using inv b by (auto simp: c cnf_wf_def good_clause_def n_clauses_def)
qed

section \<open>Properties of the generator\<close>

text \<open>C4. Every formula the generator returns has the requested size, distinct well-formed
  clauses, and two hidden models: the planted assignment and its complement.\<close>

theorem generate_ajm_two_models:
  "generate_ajm_cnf mac seed nv nc = returnO (c, planted) \<Longrightarrow>
     cnf_wf c \<and> cnf_n_vars c = nv \<and> n_clauses c = nc \<and> distinct (cnf_clauses c) \<and>
     is_model c planted \<and> is_model c (map uminus planted)"
  using generate_ajm_correct by blast

definition demo_mac :: prf_fun where
  "demo_mac k m = [0, 0, 0, 0, 0, 0, 1] @ replicate 25 0"

lemma demo_generate: "generate_ajm_cnf demo_mac (replicate 32 0) 3 1 =
    returnO (\<lparr>cnf_n_vars = 3, cnf_clauses = [(1, -2, -3)]\<rparr>, [-1, -2, -3])"
  by code_simp

theorem generate_ajm_two_models_witness:
  "is_model \<lparr>cnf_n_vars = 3, cnf_clauses = [(1, -2, -3)]\<rparr> [-1, -2, -3]"
  using generate_ajm_two_models [OF demo_generate] by blast

text \<open>C5. \<open>randbelow\<close> returns, and its value is unbiased by construction: reading the key's
  byte stream in chunks of the bound's width, it answers with the first chunk below the
  largest multiple of the bound, reduced, and leaves the stream just behind that chunk.\<close>

theorem randbelow_first_accepted:
  assumes "mac_ok mac" "rng_at mac st p" "0 < ub"
    and "\<And>i. i < j \<Longrightarrow> draw mac (rng_key st) p ub i \<ge> draw_limit ub"
    and "draw mac (rng_key st) p ub j < draw_limit ub"
    and "p + Suc j * nat (draw_bytes ub) \<le> stream_end"
  shows "\<exists>st'. randbelow mac st ub = returnO (draw mac (rng_key st) p ub j mod ub, st') \<and>
    rng_at mac st' (p + Suc j * nat (draw_bytes ub)) \<and> rng_key st' = rng_key st"
  using randbelow_loop_spec [OF assms(1,2,4-6)] assms(3) by (simp add: randbelow_def)

theorem randbelow_first_accepted_witness:
  "\<exists>st'. randbelow demo_mac \<lparr>rng_key = replicate 32 0, rng_counter = 0, rng_buffer = []\<rparr> 3 = returnO (0, st')"
proof -
  let ?st = "\<lparr>rng_key = replicate 32 0, rng_counter = 0, rng_buffer = []\<rparr>"
  have d: "draw demo_mac (replicate 32 0) 0 3 0 = 0" "draw_limit 3 = 255" "draw_bytes 3 = 1" by code_simp+
  have "mac_ok demo_mac" by (simp add: mac_ok_def demo_mac_def)
  moreover have "rng_at demo_mac ?st 0" by (simp add: rng_at_def)
  ultimately show ?thesis
    using randbelow_first_accepted [of demo_mac ?st 0 3 0] by (auto simp: d)
qed

end
