(* ===== verification/Core_Assignment.thy ===== *)
theory Core_Assignment
  imports Core_Cnf Py_Codec
begin

text \<open>
  \<open>cathedral_thin/core.py\<close>, the wire forms: the compressed base64 CNF
  (\<open>encode_cnf\<close>, \<open>decode_cnf\<close>) and the base64 bitset of an assignment
  (\<open>encode_assignment\<close>, \<open>decode_assignment\<close>). zlib is not under src/: its compressor and
  inflater are parameters, and the law the code relies on is the hypothesis
  \<open>zlib_law\<close>. The lemmas show that both pairs are inverse on the protocol's values.
\<close>

section \<open>The compressed CNF\<close>

definition MAX_COMPRESSED_CNF_BYTES :: int where "MAX_COMPRESSED_CNF_BYTES = 512000"

definition MAX_DIMACS_BYTES :: int where "MAX_DIMACS_BYTES = 4000000"

text \<open>What \<open>decompressobj().decompress(data, max_length)\<close> leaves behind: the output and the
  three attributes of the inflater the code reads. None is \<open>zlib.error\<close>.\<close>

record inflated =
  inf_raw :: bytes
  inf_unconsumed :: bool
  inf_eof :: bool
  inf_unused :: bool

definition encode_cnf :: "(bytes \<Rightarrow> bytes) \<Rightarrow> cnf \<Rightarrow> (string \<times> string) res" where
  "encode_cnf zlib_compress c =
     bindE (ascii_encode (to_dimacs c)) (\<lambda>raw.
     guardE (int (length raw) > MAX_DIMACS_BYTES) ''DIMACS payload exceeds limit''
       (let compressed = zlib_compress raw in
        guardE (int (length compressed) > MAX_COMPRESSED_CNF_BYTES) ''compressed CNF exceeds limit''
          (Inr (b64encode compressed, sha256_hex raw))))"

text \<open>\<open>except (binascii.Error, ValueError): raise ThinSubnetError(msg)\<close> around base64.\<close>

definition b64decode_or :: "string \<Rightarrow> string \<Rightarrow> bytes res" where
  "b64decode_or msg s = (case b64decode s of Inl e \<Rightarrow> raise msg | Inr b \<Rightarrow> Inr b)"

definition decode_cnf ::
  "(bytes \<Rightarrow> int \<Rightarrow> inflated option) \<Rightarrow> string \<Rightarrow> string \<Rightarrow> int \<Rightarrow> int \<Rightarrow> int \<Rightarrow> cnf res" where
  "decode_cnf zlib_inflate payload_b64 expected_sha256 expected_vars expected_clauses max_dimacs_bytes =
     guardE (int (length payload_b64) > (MAX_COMPRESSED_CNF_BYTES + 2) div 3 * 4 + 8)
       ''base64 CNF exceeds limit''
     (bindE (b64decode_or ''invalid base64 CNF'' payload_b64) (\<lambda>compressed.
      guardE (int (length compressed) > MAX_COMPRESSED_CNF_BYTES) ''compressed CNF exceeds limit''
      (case zlib_inflate compressed (max_dimacs_bytes + 1) of
         None \<Rightarrow> raise ''invalid compressed CNF''
       | Some z \<Rightarrow>
           guardE (int (length (inf_raw z)) > max_dimacs_bytes \<or> inf_unconsumed z
               \<or> \<not> inf_eof z \<or> inf_unused z)
             ''decompressed CNF exceeds limit or has trailing data''
           (bindE (compare_digest (sha256_hex (inf_raw z)) (lower expected_sha256)) (\<lambda>same.
            guardE (\<not> same) ''CNF digest mismatch''
            (case ascii_decode (inf_raw z) of
               Inl e \<Rightarrow> raise ''DIMACS must be ASCII''
             | Inr txt \<Rightarrow> parse_dimacs_strict txt (Some expected_vars) (Some expected_clauses)))))))"

text \<open>The documented behaviour of zlib: inflating what the compressor wrote, with room for all
  of it, returns it whole and ends the stream.\<close>

definition zlib_law :: "(bytes \<Rightarrow> bytes) \<Rightarrow> (bytes \<Rightarrow> int \<Rightarrow> inflated option) \<Rightarrow> bool" where
  "zlib_law zlib_compress zlib_inflate =
     (\<forall>raw n. int (length raw) < n \<longrightarrow> zlib_inflate (zlib_compress raw) n =
        Some \<lparr>inf_raw = raw, inf_unconsumed = False, inf_eof = True, inf_unused = False\<rparr>)"

lemma lower_hex [simp]: "lower (hex_of bs) = hex_of bs"
proof -
  have "\<forall>c \<in> set ''0123456789abcdef''. lower_char c = c"
    by (simp add: lower_char_def code_def)
  then have "map lower_char (hex_of bs) = map id (hex_of bs)"
    by (intro map_cong) (auto dest: hex_of_chars)
  then show ?thesis by (simp add: lower_def)
qed

lemma b64_bound: "length bs \<le> 512000 \<Longrightarrow> int (length (b64encode bs)) \<le> (MAX_COMPRESSED_CNF_BYTES + 2) div 3 * 4 + 8"
  by (simp add: length_b64encode MAX_COMPRESSED_CNF_BYTES_def)

lemma decode_encode_cnf:
  assumes zlib: "zlib_law zc zi"
    and wf: "cnf_wf c" "0 \<le> cnf_n_vars c" "cnf_n_vars c \<le> 100000" "n_clauses c \<le> 1000000"
    and enc: "encode_cnf zc c = Inr (payload, digest)"
  shows "decode_cnf zi payload digest (cnf_n_vars c) (n_clauses c) MAX_DIMACS_BYTES = Inr c"
proof -
  from enc obtain raw where raw: "ascii_encode (to_dimacs c) = Inr raw"
    "int (length raw) \<le> MAX_DIMACS_BYTES" "length (zc raw) \<le> 512000"
    "payload = b64encode (zc raw)" "digest = sha256_hex raw"
    by (auto simp: encode_cnf_def Let_def MAX_COMPRESSED_CNF_BYTES_def elim!: resE)
  have "zi (zc raw) (MAX_DIMACS_BYTES + 1) =
      Some \<lparr>inf_raw = raw, inf_unconsumed = False, inf_eof = True, inf_unused = False\<rparr>"
    using zlib raw(2) by (simp add: zlib_law_def)
  moreover have "parse_dimacs_strict (to_dimacs c) (Some (cnf_n_vars c)) (Some (n_clauses c)) = Inr c"
    using wf by (intro parse_to_dimacs) (simp_all add: expected_mismatch_def)
  ultimately show ?thesis
    using raw b64_bound [OF raw(3)] ascii_roundtrip [OF raw(1)]
    by (simp add: decode_cnf_def b64decode_or_def b64decode_encode compare_digest_def sha256_hex_def
        MAX_COMPRESSED_CNF_BYTES_def guardE_def)
qed

lemma decode_cnf_wf: "decode_cnf zi payload sha ev ec mx = Inr c \<Longrightarrow>
    cnf_wf c \<and> cnf_n_vars c = ev \<and> n_clauses c = ec"
  by (auto simp: decode_cnf_def elim!: resE split: option.splits sum.splits
      dest: parse_dimacs_wf parse_dimacs_expected)

section \<open>The assignment bitset\<close>

text \<open>The loop of \<open>encode_assignment\<close>, as \<open>witness_values\<close> but with its raises.\<close>

fun assignment_values :: "int \<Rightarrow> (int \<times> bool) list \<Rightarrow> lit_item list \<Rightarrow> (int \<times> bool) list res" where
  "assignment_values nv vals [] = Inr vals"
| "assignment_values nv vals (LInt l # items) =
     (if l = 0 then raise ''invalid assignment literal''
      else if \<bar>l\<bar> > nv \<or> \<bar>l\<bar> \<in> fst ` set vals
      then raise ''duplicate or out-of-range assignment literal''
      else assignment_values nv (dict_set \<bar>l\<bar> (l > 0) vals) items)"
| "assignment_values nv vals (LBool b # items) = raise ''invalid assignment literal''"
| "assignment_values nv vals (LOther # items) = raise ''invalid assignment literal''"

text \<open>\<open>packed[k // 8] |= 1 << (k % 8)\<close> for the index \<open>k = var - 1\<close>.\<close>

definition set_bit_at :: "bytes \<Rightarrow> nat \<Rightarrow> bytes" where
  "set_bit_at packed k = packed[k div 8 := (packed ! (k div 8)) OR push_bit (k mod 8) 1]"

definition pack_bits :: "(nat \<Rightarrow> bool) \<Rightarrow> nat \<Rightarrow> bytes" where
  "pack_bits on n = foldl (\<lambda>packed k. if on k then set_bit_at packed k else packed)
     (replicate ((n + 7) div 8) 0) [0..<n]"

definition encode_assignment :: "lit_item list \<Rightarrow> int \<Rightarrow> string res" where
  "encode_assignment assignment nv =
     bindE (assignment_values nv [] assignment) (\<lambda>vals.
     guardE (int (length vals) \<noteq> nv) ''assignment must be complete''
       (Inr (b64encode (pack_bits (\<lambda>k. map_of vals (int k + 1) = Some True) (nat nv)))))"

definition decode_assignment :: "string \<Rightarrow> int \<Rightarrow> int list res" where
  "decode_assignment payload_b64 nv =
     (let expected_bytes = (nv + 7) div 8 in
      guardE (int (length payload_b64) > (expected_bytes + 2) div 3 * 4 + 4)
        ''assignment payload exceeds limit''
      (bindE (b64decode_or ''invalid base64 assignment'' payload_b64) (\<lambda>packed.
       guardE (int (length packed) \<noteq> expected_bytes) ''assignment bitset length mismatch''
       (guardE (nv mod 8 \<noteq> 0 \<and> packed \<noteq> [] \<and> drop_bit (nat (nv mod 8)) (last packed) \<noteq> 0)
         ''non-zero assignment padding bits''
         (Inr (map (\<lambda>k. if bit (packed ! (k div 8)) (k mod 8) then int k + 1 else - (int k + 1))
            [0..<nat nv]))))))"

lemma length_pack_bits [simp]: "length (pack_bits on n) = (n + 7) div 8"
proof -
  have "length (foldl (\<lambda>packed k. if on k then set_bit_at packed k else packed) p ks) = length p" for p ks
    by (induction ks arbitrary: p) (auto simp: set_bit_at_def)
  then show ?thesis by (simp add: pack_bits_def)
qed

lemma bit_pack_fold:
  assumes "m \<le> n" "8 * i + j < 8 * ((n + 7) div 8)" "j < 8"
  shows "bit (foldl (\<lambda>packed k. if on k then set_bit_at packed k else packed)
      (replicate ((n + 7) div 8) 0) [0..<m] ! i) j \<longleftrightarrow> 8 * i + j < m \<and> on (8 * i + j)"
  using assms(1)
proof (induction m)
  case 0
  then show ?case using assms by simp
next
  case (Suc m)
  let ?f = "foldl (\<lambda>packed k. if on k then set_bit_at packed k else packed) (replicate ((n + 7) div 8) 0)"
  have len: "length (?f ks) = (n + 7) div 8" for ks
  proof -
    have "length (foldl (\<lambda>packed k. if on k then set_bit_at packed k else packed) p ks) = length p" for p
      by (induction ks arbitrary: p) (auto simp: set_bit_at_def)
    then show ?thesis by simp
  qed
  have IH: "bit (?f [0..<m] ! i) j \<longleftrightarrow> 8 * i + j < m \<and> on (8 * i + j)" using Suc by simp
  have mi: "8 * i + j = m \<longleftrightarrow> m div 8 = i \<and> m mod 8 = j" using assms(3) by auto
  have "bit (set_bit_at (?f [0..<m]) m ! i) j \<longleftrightarrow> bit (?f [0..<m] ! i) j \<or> 8 * i + j = m"
  proof (cases "m div 8 = i")
    case True
    have "i < length (?f [0..<m])" using assms(2) by (simp add: len)
    moreover have "bit (push_bit (m mod 8) (1 :: 8 word)) j \<longleftrightarrow> j = m mod 8"
      using assms(3) by (auto simp: bit_exp_iff)
    ultimately show ?thesis using True mi by (auto simp: set_bit_at_def bit_or_iff)
  next
    case False
    then show ?thesis using mi by (auto simp: set_bit_at_def)
  qed
  then show ?case using IH by (auto simp: less_Suc_eq)
qed

lemma bit_pack_bits:
  assumes "k < 8 * ((n + 7) div 8)"
  shows "bit (pack_bits on n ! (k div 8)) (k mod 8) \<longleftrightarrow> k < n \<and> on k"
  using bit_pack_fold [of n n "k div 8" "k mod 8" on] assms by (simp add: pack_bits_def)

lemma pack_bits_padding:
  assumes "n mod 8 \<noteq> 0"
  shows "drop_bit (n mod 8) (last (pack_bits on n)) = 0"
proof (rule bit_word_eqI)
  fix j
  assume "j < LENGTH(8)"
  have one: "0 < r \<Longrightarrow> r < 8 \<Longrightarrow> (r + 7) div 8 = 1" for r :: nat by linarith
  have len: "(n + 7) div 8 = Suc (n div 8)"
    using assms one [of "n mod 8"] by (simp add: div_add1_eq [of n 7])
  then have "last (pack_bits on n) = pack_bits on n ! (n div 8)"
    by (simp add: last_conv_nth flip: length_0_conv)
  moreover have "\<not> bit (pack_bits on n ! (n div 8)) (n mod 8 + j)"
  proof (cases "n mod 8 + j < 8")
    case True
    have "n + j = (n mod 8 + j) + 8 * (n div 8)" by simp
    then have "(n + j) div 8 = n div 8" "(n + j) mod 8 = n mod 8 + j"
      using True by (metis add.commute add_cancel_right_right div_less div_mult_self2 zero_neq_numeral,
        metis mod_less mod_mult_self2)
    then show ?thesis using bit_pack_bits [of "n + j" n on] True len by simp
  next
    case False
    then show ?thesis using bit_imp_le_length [of "pack_bits on n ! (n div 8)" "n mod 8 + j"] by auto
  qed
  ultimately show "bit (drop_bit (n mod 8) (last (pack_bits on n))) j = bit 0 j"
    by (simp add: bit_drop_bit_eq)
qed

lemma assignment_values_eq:
  "assignment_values nv vals items = Inr vals' \<longleftrightarrow> witness_values nv vals items = Some vals'"
  by (induction nv vals items rule: assignment_values.induct) auto

definition lits_of :: "(nat \<Rightarrow> bool) \<Rightarrow> nat \<Rightarrow> int list" where
  "lits_of on n = map (\<lambda>k. if on k then int k + 1 else - (int k + 1)) [0..<n]"

lemma complete_lits_of: "complete_lits (int n) (lits_of on n)"
proof -
  have "map abs (lits_of on n) = map (\<lambda>k. int k + 1) [0..<n]"
    by (simp add: lits_of_def)
  moreover have "(\<lambda>k. int k + 1) ` {0..<n} = {1..int n}"
  proof (intro equalityI subsetI)
    fix x assume "x \<in> {1..int n}"
    then have "x = int (nat (x - 1)) + 1" "nat (x - 1) < n" by auto
    then show "x \<in> (\<lambda>k. int k + 1) ` {0..<n}" by (metis atLeastLessThan_iff image_eqI le0)
  qed auto
  moreover have "abs ` set (lits_of on n) = set (map abs (lits_of on n))" by simp
  ultimately have "distinct (map abs (lits_of on n))" "abs ` set (lits_of on n) = {1..int n}"
    by (simp_all only: distinct_map inj_on_def set_map set_upt distinct_upt) auto
  then show ?thesis by (auto simp: complete_lits_def lits_of_def)
qed

lemma set_lits_of_complete:
  assumes "complete_lits (int n) ls"
  shows "set (lits_of (\<lambda>k. int k + 1 \<in> set ls) n) = set ls"
proof (intro equalityI subsetI)
  have dist: "distinct (map abs ls)" and cover: "abs ` set ls = {1..int n}" and nz: "\<forall>l \<in> set ls. l \<noteq> 0"
    using assms by (auto simp: complete_lits_def)
  fix x
  show "x \<in> set ls" if "x \<in> set (lits_of (\<lambda>k. int k + 1 \<in> set ls) n)"
  proof -
    from that obtain k where k: "k < n" "x = (if int k + 1 \<in> set ls then int k + 1 else - (int k + 1))"
      by (auto simp: lits_of_def)
    then have "int k + 1 \<in> abs ` set ls" using cover by auto
    then obtain l where l: "l \<in> set ls" "\<bar>l\<bar> = int k + 1" by auto
    then have "l = int k + 1 \<or> l = - (int k + 1)" by linarith
    then show ?thesis using k(2) l(1) by auto
  qed
  show "x \<in> set (lits_of (\<lambda>k. int k + 1 \<in> set ls) n)" if x: "x \<in> set ls"
  proof -
    have "\<bar>x\<bar> \<in> {1..int n}" using x cover by auto
    then have "nat (\<bar>x\<bar> - 1) < n" "int (nat (\<bar>x\<bar> - 1)) + 1 = \<bar>x\<bar>" by auto
    then obtain k where k: "k < n" "int k + 1 = \<bar>x\<bar>" by blast
    have "x > 0 \<longleftrightarrow> \<bar>x\<bar> \<in> set ls"
    proof
      assume "\<bar>x\<bar> \<in> set ls"
      then have "\<bar>x\<bar> = x" using dist x by (metis abs_abs distinct_map inj_onD)
      then show "x > 0" using nz x by force
    qed (use x in simp)
    then have "x = (if int k + 1 \<in> set ls then int k + 1 else - (int k + 1))"
      using k(2) by auto
    then show ?thesis using k(1) unfolding lits_of_def set_map set_upt by (intro image_eqI [of _ _ k]) auto
  qed
qed

lemma is_model_set_cong:
  "complete_lits (cnf_n_vars c) ls' \<Longrightarrow> set ls' = set ls \<Longrightarrow> is_model c ls \<Longrightarrow> is_model c ls'"
  by (simp add: is_model_def)

lemma decode_assignment_lits:
  "decode_assignment p nv = Inr ls \<Longrightarrow> \<exists>on. ls = lits_of on (nat nv)"
  unfolding decode_assignment_def Let_def lits_of_def
  by (elim resE) (rule exI, drule sym, unfold sum.inject, assumption)

lemma decode_assignment_complete:
  assumes "decode_assignment p nv = Inr ls" "0 \<le> nv"
  shows "complete_lits nv ls"
proof -
  from assms(1) obtain on where "ls = lits_of on (nat nv)"
    using decode_assignment_lits by blast
  then show ?thesis using complete_lits_of [of "nat nv"] assms(2) by simp
qed

lemma encode_decode_assignment:
  assumes "complete_lits nv ls" "0 \<le> nv"
  obtains p where "encode_assignment (map LInt ls) nv = Inr p"
    and "decode_assignment p nv = Inr (lits_of (\<lambda>k. int k + 1 \<in> set ls) (nat nv))"
proof -
  let ?n = "nat nv"
  let ?on = "\<lambda>k. map_of (map lit_binding ls) (int k + 1) = Some True"
  let ?b = "pack_bits ?on ?n"
  have n: "int ?n = nv" using assms(2) by simp
  have "fresh_lits nv {} ls" "int (length ls) = nv"
    using complete_lits_iff [OF assms(2), of ls] assms(1) by simp_all
  then have "assignment_values nv [] (map LInt ls) = Inr (map lit_binding ls)"
    by (auto simp: assignment_values_eq witness_values_eq)
  then have enc: "encode_assignment (map LInt ls) nv = Inr (b64encode ?b)"
    using \<open>int (length ls) = nv\<close> by (simp add: encode_assignment_def)
  have on: "?on k \<longleftrightarrow> int k + 1 \<in> set ls" for k
    using map_of_lit_binding [of ls "int k + 1"] assms(1) by (auto simp: complete_lits_def)
  have div: "(nv + 7) div 8 = int ((?n + 7) div 8)" "nv mod 8 = int (?n mod 8)"
    using n by (metis of_nat_add of_nat_numeral zdiv_int, metis of_nat_numeral zmod_int)
  have len: "int (length (b64encode ?b)) \<le> ((nv + 7) div 8 + 2) div 3 * 4 + 4"
    unfolding div by (simp add: length_b64encode zdiv_int)
  have pad: "\<not> (nv mod 8 \<noteq> 0 \<and> ?b \<noteq> [] \<and> drop_bit (nat (nv mod 8)) (last ?b) \<noteq> 0)"
    using pack_bits_padding [of ?n ?on] unfolding div by auto
  have bits: "bit (?b ! (k div 8)) (k mod 8) \<longleftrightarrow> ?on k" if "k < ?n" for k
    using bit_pack_bits [of k ?n ?on] that by simp
  have "decode_assignment (b64encode ?b) nv
      = Inr (map (\<lambda>k. if bit (?b ! (k div 8)) (k mod 8) then int k + 1 else - (int k + 1)) [0..<?n])"
    using len pad div(1)
    by (simp add: decode_assignment_def Let_def b64decode_or_def b64decode_encode guardE_def)
  also have "\<dots> = Inr (lits_of (\<lambda>k. int k + 1 \<in> set ls) ?n)"
    unfolding lits_of_def sum.inject by (rule map_cong) (use bits on in auto)
  finally show thesis using enc that by blast
qed

section \<open>Properties of the wire forms\<close>

text \<open>An assignment survives the wire: encoding the literals of any complete assignment
  succeeds, and decoding the payload gives the same set of literals, in variable order.\<close>

lemma assignment_roundtrip:
  assumes "complete_lits nv ls" "0 \<le> nv"
  shows "\<exists>p ms. encode_assignment (map LInt ls) nv = Inr p \<and> decode_assignment p nv = Inr ms \<and>
    set ms = set ls \<and> map abs ms = [1..nv]"
proof -
  from encode_decode_assignment [OF assms] obtain p where p: "encode_assignment (map LInt ls) nv = Inr p"
    "decode_assignment p nv = Inr (lits_of (\<lambda>k. int k + 1 \<in> set ls) (nat nv))" .
  have "set (lits_of (\<lambda>k. int k + 1 \<in> set ls) (nat nv)) = set ls"
    using set_lits_of_complete assms by simp
  moreover have "map abs (lits_of on (nat nv)) = [1..nv]" for on
    using assms(2) by (intro nth_equalityI) (auto simp: lits_of_def)
  ultimately show ?thesis using p by blast
qed

lemma assignment_roundtrip_witness:
  "\<exists>p ms. encode_assignment (map LInt [3, -1, 2]) 3 = Inr p \<and> decode_assignment p 3 = Inr ms \<and>
    set ms = set [3, -1, 2] \<and> map abs ms = [1..3]"
  by (rule assignment_roundtrip) (auto simp: complete_lits_def)

text \<open>The payload decoder fails closed: what it returns is always a complete assignment
  of the declared variables, whatever the miner sent.\<close>

lemma decode_assignment_total:
  "decode_assignment payload nv = Inr ls \<Longrightarrow> 0 \<le> nv \<Longrightarrow> complete_lits nv ls"
  by (rule decode_assignment_complete)

lemma decode_assignment_total_witness: "complete_lits 3 [1, -2, 3]"
proof -
  have "decode_assignment ''BQ=='' 3 = Inr [1, -2, 3]" by code_simp
  from decode_assignment_total [OF this] show ?thesis by simp
qed

text \<open>The compressed CNF survives the wire, for any compressor and inflater that obey
  zlib's documented law; and the decoder only ever returns a well-formed formula of the
  declared size whose text has the declared digest.\<close>

lemma cnf_wire_roundtrip:
  assumes "zlib_law zc zi" "cnf_wf c" "0 \<le> cnf_n_vars c" "cnf_n_vars c \<le> 100000"
    and "n_clauses c \<le> 1000000" "encode_cnf zc c = Inr (payload, digest)"
  shows "decode_cnf zi payload digest (cnf_n_vars c) (n_clauses c) MAX_DIMACS_BYTES = Inr c"
  using assms by (rule decode_encode_cnf)

definition stored_inflate :: "bytes \<Rightarrow> int \<Rightarrow> inflated option" where
  "stored_inflate b n = Some \<lparr>inf_raw = take (nat n) b, inf_unconsumed = int (length b) > n,
     inf_eof = int (length b) \<le> n, inf_unused = False\<rparr>"

lemma stored_law: "zlib_law id stored_inflate"
  by (auto simp: zlib_law_def stored_inflate_def)

lemma cnf_wire_roundtrip_witness:
  "\<exists>payload digest. decode_cnf stored_inflate payload digest 3 1 MAX_DIMACS_BYTES
    = Inr \<lparr>cnf_n_vars = 3, cnf_clauses = [(1, -2, 3)]\<rparr>"
proof -
  let ?c = "\<lparr>cnf_n_vars = 3, cnf_clauses = [(1, -2, 3)]\<rparr>"
  have tx: "to_dimacs ?c = ''p cnf 3 1\<newline>1 -2 3 0\<newline>''" by code_simp
  have len: "length (to_dimacs ?c) = 19" unfolding tx by simp
  have "is_ascii (to_dimacs ?c)" unfolding tx by code_simp
  then have "encode_cnf id ?c = Inr (b64encode (map byte_of (to_dimacs ?c)), sha256_hex (map byte_of (to_dimacs ?c)))"
    by (simp add: encode_cnf_def ascii_encode_def MAX_DIMACS_BYTES_def MAX_COMPRESSED_CNF_BYTES_def len)
  from cnf_wire_roundtrip [OF stored_law _ _ _ _ this] show ?thesis
    by (auto simp: cnf_wf_def clause_wf_def n_clauses_def)
qed

end
