(* ===== verification/Py_Json.thy ===== *)
theory Py_Json
  imports Py_Codec Py_Float "HOL-Library.Product_Lexorder" "HOL-Library.Multiset"
begin

text \<open>
  Python's \<open>json\<close> module as the code uses it: values, the compact writer with sorted keys
  and ASCII output (\<open>json.dumps(v, sort_keys=True, separators=(",", ":"))\<close>) and the reader
  \<open>json.loads\<close> with its hooks for numbers, constants and objects. The lemmas show that
  the reader inverts the writer up to the order of keys. The reader's recursion carries
  fuel, twice the length of the text, which \<open>Py_Reader\<close> shows to be enough.
\<close>

datatype json =
    JNull
  | JBool bool
  | JInt int
  | JFloat pyfloat
  | JStr string
  | JArr "json list"
  | JObj "(string \<times> json) list"

section \<open>The writer\<close>

definition hex4 :: "nat \<Rightarrow> string" where
  "hex4 n = [hex_char (n div 4096 mod 16), hex_char (n div 256 mod 16), hex_char (n div 16 mod 16), hex_char (n mod 16)]"

definition BACKSLASH :: char where "BACKSLASH = char_of (92::nat)"

definition QUOTE :: char where "QUOTE = char_of (34::nat)"

text \<open>The letter of a two-character escape.\<close>

definition short_escape :: "nat \<Rightarrow> char option" where
  "short_escape n =
     (if n = 34 then Some QUOTE else if n = 92 then Some BACKSLASH
      else if n = 10 then Some CHR ''n'' else if n = 13 then Some CHR ''r''
      else if n = 9 then Some CHR ''t'' else if n = 12 then Some CHR ''f''
      else if n = 8 then Some CHR ''b'' else None)"

definition escape_char :: "char \<Rightarrow> string" where
  "escape_char c =
     (case short_escape (code c) of
        Some e \<Rightarrow> [BACKSLASH, e]
      | None \<Rightarrow> if 32 \<le> code c \<and> code c < 127 then [c]
          else BACKSLASH # CHR ''u'' # hex4 (code c))"

definition quote :: "string \<Rightarrow> string" where
  "quote s = QUOTE # concat (map escape_char s) @ [QUOTE]"

fun join_with :: "string \<Rightarrow> string list \<Rightarrow> string" where
  "join_with sep [] = []"
| "join_with sep [x] = x"
| "join_with sep (x # y # xs) = x @ sep @ join_with sep (y # xs)"

definition sort_items :: "(string \<times> 'v) list \<Rightarrow> (string \<times> 'v) list" where
  "sort_items kvs = sort_key fst kvs"

lemma insort_map: "(\<And>x. fst (f x) = fst x) \<Longrightarrow> insort_key fst (f x) (map f xs) = map f (insort_key fst x xs)"
  by (induction xs) auto

lemma sort_items_map: "(\<And>x. fst (f x) = fst x) \<Longrightarrow> sort_items (map f xs) = map f (sort_items xs)"
  by (induction xs) (auto simp: sort_items_def insort_map)

lemma sort_items_idem [simp]: "sort_items (sort_items xs) = sort_items xs"
  by (simp add: sort_items_def sort_key_id_if_sorted)

lemma set_sort_items [simp]: "set (sort_items kvs) = set kvs"
  by (simp add: sort_items_def)

lemma json_item_size [termination_simp]: "(k, v) \<in> set kvs \<Longrightarrow> size v < size_list (size_prod (\<lambda>x. 0) size) kvs"
  by (induction kvs) auto

lemma json_item_size' [termination_simp]: "(k, v) \<in> set kvs \<Longrightarrow> size v < Suc (size_list (size_prod (\<lambda>x. 0) size) kvs)"
  by (rule less_SucI [OF json_item_size])

fun dumps :: "json \<Rightarrow> string" where
  "dumps JNull = ''null''"
| "dumps (JBool b) = (if b then ''true'' else ''false'')"
| "dumps (JInt n) = int_str n"
| "dumps (JFloat x) = float_repr x"
| "dumps (JStr s) = quote s"
| "dumps (JArr vs) = ''['' @ join_with '','' (map dumps vs) @ '']''"
| "dumps (JObj kvs) =
     ''{'' @ join_with '','' (map (\<lambda>(k, v). quote k @ '':'' @ dumps v) (sort_items kvs)) @ ''}''"

section \<open>The reader\<close>

definition skip_ws :: "string \<Rightarrow> string" where
  "skip_ws s = dropWhile (\<lambda>c. code c \<in> {32, 9, 10, 13}) s"

definition unescape :: "char \<Rightarrow> char option" where
  "unescape e =
     (if e = QUOTE \<or> e = BACKSLASH \<or> e = CHR ''/'' then Some e
      else if e = CHR ''b'' then Some (char_of (8::nat)) else if e = CHR ''f'' then Some (char_of (12::nat))
      else if e = CHR ''n'' then Some (char_of (10::nat)) else if e = CHR ''r'' then Some (char_of (13::nat))
      else if e = CHR ''t'' then Some (char_of (9::nat)) else None)"

text \<open>Four hex digits that name a code point of the model's alphabet.\<close>

definition hex4_value :: "char \<Rightarrow> char \<Rightarrow> char \<Rightarrow> char \<Rightarrow> char option" where
  "hex4_value a b c d =
     (case (hex_value a, hex_value b, hex_value c, hex_value d) of
        (Some x, Some y, Some z, Some w) \<Rightarrow>
          if x = 0 \<and> y = 0 then Some (char_of (16 * z + w)) else None
      | _ \<Rightarrow> None)"

text \<open>The text after an opening quote: the string and what follows the closing quote.\<close>

fun scan_string :: "string \<Rightarrow> (string \<times> string) option" where
  "scan_string [] = None"
| "scan_string (c # cs) =
     (if c = QUOTE then Some ([], cs)
      else if c = BACKSLASH then
        (case cs of
           [] \<Rightarrow> None
         | e # es \<Rightarrow>
             if e = CHR ''u'' then
               (case es of
                  h1 # h2 # h3 # h4 # rest \<Rightarrow>
                    (case hex4_value h1 h2 h3 h4 of None \<Rightarrow> None
                     | Some x \<Rightarrow> map_option (\<lambda>(t, r). (x # t, r)) (scan_string rest))
                | _ \<Rightarrow> None)
             else (case unescape e of None \<Rightarrow> None
                   | Some x \<Rightarrow> map_option (\<lambda>(t, r). (x # t, r)) (scan_string es)))
      else if code c < 32 then None
      else map_option (\<lambda>(t, r). (c # t, r)) (scan_string cs))"

definition span_digits :: "string \<Rightarrow> string \<times> string" where
  "span_digits s = (takeWhile is_digit s, dropWhile is_digit s)"

text \<open>\<open>(-?(?:0|[1-9]\d*))(\.\d+)?([eE][-+]?\d+)?\<close>: the parts and the rest.\<close>

definition scan_int :: "string \<Rightarrow> (string \<times> string) option" where
  "scan_int s =
     (let (sg, t) = (case s of c # cs \<Rightarrow> if c = CHR ''-'' then (''-'', cs) else ([], s) | [] \<Rightarrow> ([], s)) in
      case t of
        [] \<Rightarrow> None
      | d # ds \<Rightarrow>
          if d = CHR ''0'' then Some (sg @ ''0'', ds)
          else if is_digit d then Some (sg @ takeWhile is_digit t, dropWhile is_digit t)
          else None)"

definition scan_frac :: "string \<Rightarrow> string \<times> string" where
  "scan_frac s =
     (case s of
        d # ds \<Rightarrow> if d = CHR ''.'' \<and> takeWhile is_digit ds \<noteq> []
          then (takeWhile is_digit ds, dropWhile is_digit ds) else ([], s)
      | [] \<Rightarrow> ([], s))"

text \<open>The exponent, None when there is none.\<close>

definition scan_exp :: "string \<Rightarrow> int option \<times> string" where
  "scan_exp s =
     (case s of
        e # es \<Rightarrow>
          if e = CHR ''e'' \<or> e = CHR ''E'' then
            (let (neg, t) = (case es of c # cs \<Rightarrow> if c = CHR ''-'' then (True, cs)
                 else if c = CHR ''+'' then (False, cs) else (False, es) | [] \<Rightarrow> (False, es)) in
             if takeWhile is_digit t = [] then (None, s)
             else (Some (if neg then - int (digits_value (takeWhile is_digit t))
                         else int (digits_value (takeWhile is_digit t))), dropWhile is_digit t))
          else (None, s)
      | [] \<Rightarrow> (None, s))"

text \<open>\<open>float(text)\<close> of a JSON number: the decimal value, rounded.\<close>

definition decimal_float :: "string \<Rightarrow> string \<Rightarrow> int option \<Rightarrow> pyfloat" where
  "decimal_float ip fp ex =
     (let neg = starts_with ip ''-''; ds = (if neg then tl ip else ip) @ fp;
          v = of_int (int (digits_value ds)) * pow10 ((case ex of None \<Rightarrow> 0 | Some e \<Rightarrow> e) - int (length fp))
      in mk_float neg (if neg then - v else v))"

record json_hooks =
  h_int :: "string \<Rightarrow> json res"
  h_float :: "pyfloat \<Rightarrow> json res"
  h_const :: "pyfloat \<Rightarrow> json res"
  h_pairs :: "(string \<times> json) list \<Rightarrow> json res"

definition scan_number :: "json_hooks \<Rightarrow> string \<Rightarrow> (json \<times> string) res" where
  "scan_number h s =
     (case scan_int s of
        None \<Rightarrow> Inl PyValueError
      | Some (ip, r1) \<Rightarrow>
          (case scan_frac r1 of (fp, r2) \<Rightarrow>
           (case scan_exp r2 of (ex, r3) \<Rightarrow>
              if fp = [] \<and> ex = None then bindE (h_int h ip) (\<lambda>v. Inr (v, r3))
              else bindE (h_float h (decimal_float ip fp ex)) (\<lambda>v. Inr (v, r3)))))"

text \<open>The tokens that are words.\<close>

definition scan_word :: "json_hooks \<Rightarrow> string \<Rightarrow> (json \<times> string) res option" where
  "scan_word h s =
     (if starts_with s ''null'' then Some (Inr (JNull, drop 4 s))
      else if starts_with s ''true'' then Some (Inr (JBool True, drop 4 s))
      else if starts_with s ''false'' then Some (Inr (JBool False, drop 5 s))
      else if starts_with s ''NaN'' then Some (bindE (h_const h NaN) (\<lambda>v. Inr (v, drop 3 s)))
      else if starts_with s ''Infinity'' then Some (bindE (h_const h PosInf) (\<lambda>v. Inr (v, drop 8 s)))
      else if starts_with s ''-Infinity'' then Some (bindE (h_const h NegInf) (\<lambda>v. Inr (v, drop 9 s)))
      else None)"

fun parse_value :: "json_hooks \<Rightarrow> nat \<Rightarrow> string \<Rightarrow> (json \<times> string) res"
  and parse_elems :: "json_hooks \<Rightarrow> nat \<Rightarrow> string \<Rightarrow> (json list \<times> string) res"
  and parse_members :: "json_hooks \<Rightarrow> nat \<Rightarrow> string \<Rightarrow> ((string \<times> json) list \<times> string) res" where
  "parse_value h 0 s = Inl PyValueError"
| "parse_value h (Suc n) s =
     (case s of
        [] \<Rightarrow> Inl PyValueError
      | c # cs \<Rightarrow>
          if c = QUOTE then
            (case scan_string cs of None \<Rightarrow> Inl PyValueError | Some (t, r) \<Rightarrow> Inr (JStr t, r))
          else if c = CHR ''['' then
            (let t = skip_ws cs in
             if starts_with t '']'' then Inr (JArr [], tl t)
             else bindE (parse_elems h n t) (\<lambda>(vs, r). Inr (JArr vs, r)))
          else if c = CHR ''{'' then
            (let t = skip_ws cs in
             if starts_with t ''}'' then bindE (h_pairs h []) (\<lambda>v. Inr (v, tl t))
             else bindE (parse_members h n t) (\<lambda>(kvs, r). bindE (h_pairs h kvs) (\<lambda>v. Inr (v, r))))
          else
            (case scan_word h s of Some res \<Rightarrow> res | None \<Rightarrow> scan_number h s))"
| "parse_elems h 0 s = Inl PyValueError"
| "parse_elems h (Suc n) s =
     bindE (parse_value h n s) (\<lambda>(v, r).
       case skip_ws r of
         [] \<Rightarrow> Inl PyValueError
       | c # t \<Rightarrow>
           if c = CHR '']'' then Inr ([v], t)
           else if c = CHR '','' then bindE (parse_elems h n (skip_ws t)) (\<lambda>(vs, r'). Inr (v # vs, r'))
           else Inl PyValueError)"
| "parse_members h 0 s = Inl PyValueError"
| "parse_members h (Suc n) s =
     (case s of
        [] \<Rightarrow> Inl PyValueError
      | q # cs \<Rightarrow>
          if q \<noteq> QUOTE then Inl PyValueError
          else
            (case scan_string cs of
               None \<Rightarrow> Inl PyValueError
             | Some (k, r1) \<Rightarrow>
                 (case skip_ws r1 of
                    [] \<Rightarrow> Inl PyValueError
                  | c # r2 \<Rightarrow>
                      if c \<noteq> CHR '':'' then Inl PyValueError
                      else
                        bindE (parse_value h n (skip_ws r2)) (\<lambda>(v, r).
                          case skip_ws r of
                            [] \<Rightarrow> Inl PyValueError
                          | d # t \<Rightarrow>
                              if d = CHR ''}'' then Inr ([(k, v)], t)
                              else if d = CHR '','' then
                                bindE (parse_members h n (skip_ws t)) (\<lambda>(kvs, r'). Inr ((k, v) # kvs, r'))
                              else Inl PyValueError))))"

definition json_loads :: "json_hooks \<Rightarrow> string \<Rightarrow> json res" where
  "json_loads h s =
     (let t = skip_ws s in
      bindE (parse_value h (2 * length t + 2) t) (\<lambda>(v, r). if skip_ws r = [] then Inr v else Inl PyValueError))"

text \<open>The default hooks: any int of at most 4300 digits, floats, and the last of duplicate
  keys.\<close>

definition dict_of_pairs :: "('k \<times> 'v) list \<Rightarrow> ('k \<times> 'v) list" where
  "dict_of_pairs kvs = foldl (\<lambda>d (k, v). dict_set k v d) [] kvs"

definition plain_hooks :: json_hooks where
  "plain_hooks = \<lparr>
     h_int = (\<lambda>s. case py_int s of None \<Rightarrow> Inl PyValueError | Some n \<Rightarrow> Inr (JInt n)),
     h_float = (\<lambda>x. Inr (JFloat x)),
     h_const = (\<lambda>x. Inr (JFloat x)),
     h_pairs = (\<lambda>kvs. Inr (JObj (dict_of_pairs kvs)))\<rparr>"

section \<open>Reading back what was written: tokens\<close>

lemma code_char_of_code [simp]: "char_of (code c) = c"
  by (simp add: code_def)

lemma code_eq_iff: "code c = code d \<longleftrightarrow> c = d"
  by (metis code_char_of_code)

lemma special_codes [simp]: "code QUOTE = 34" "code BACKSLASH = 92"
  by (simp_all add: QUOTE_def BACKSLASH_def)

lemma hex4_value_hex4:
  assumes "n < 256"
  shows "hex4 n = [hex_char 0, hex_char 0, hex_char (n div 16), hex_char (n mod 16)]"
    and "hex4_value (hex_char 0) (hex_char 0) (hex_char (n div 16)) (hex_char (n mod 16)) = Some (char_of n)"
proof -
  have "n div 4096 = 0" "n div 256 = 0" "n div 16 < 16" using assms by auto
  then show "hex4 n = [hex_char 0, hex_char 0, hex_char (n div 16), hex_char (n mod 16)]"
    by (simp add: hex4_def)
  show "hex4_value (hex_char 0) (hex_char 0) (hex_char (n div 16)) (hex_char (n mod 16)) = Some (char_of n)"
    using \<open>n div 16 < 16\<close> by (simp add: hex4_value_def hex_value_char)
qed

lemma unescape_short_nat:
  "short_escape n = Some e \<Longrightarrow> unescape e = Some (char_of n) \<and> e \<noteq> CHR ''u''"
  by (auto simp: short_escape_def unescape_def QUOTE_def BACKSLASH_def char_of_def bit_0 split: if_split_asm)

lemma unescape_short: "short_escape (code c) = Some e \<Longrightarrow> unescape e = Some c \<and> e \<noteq> CHR ''u''"
  using unescape_short_nat [of "code c"] by simp

lemma scan_escape: "scan_string (escape_char c @ s) = map_option (\<lambda>(t, r). (c # t, r)) (scan_string s)"
proof (cases "short_escape (code c)")
  case (Some e)
  have "BACKSLASH \<noteq> QUOTE" by (simp flip: code_eq_iff)
  then show ?thesis using unescape_short [OF Some] by (simp add: escape_char_def Some)
next
  case None
  have sep: "BACKSLASH \<noteq> QUOTE" by (simp flip: code_eq_iff)
  show ?thesis
  proof (cases "32 \<le> code c \<and> code c < 127")
    case True
    have "c \<noteq> QUOTE" "c \<noteq> BACKSLASH" using None by (auto simp: short_escape_def)
    then show ?thesis using True by (simp add: escape_char_def None)
  next
    case False
    then have "escape_char c = BACKSLASH # CHR ''u'' # hex4 (code c)"
      by (auto simp: escape_char_def None)
    then show ?thesis using hex4_value_hex4 [OF code_less [of c]] sep by simp
  qed
qed

lemma scan_quote: "scan_string (concat (map escape_char s) @ QUOTE # rest) = Some (s, rest)"
  by (induction s) (simp_all add: scan_escape del: scan_string.simps(2), simp)

lemma quote_Cons: "quote s @ rest = QUOTE # (concat (map escape_char s) @ QUOTE # rest)"
  by (simp add: quote_def)

definition num_end :: "string \<Rightarrow> bool" where
  "num_end rest = (case rest of [] \<Rightarrow> True | c # _ \<Rightarrow> code c \<in> {44, 93, 125})"

lemma nat_str_head: "0 < n \<Longrightarrow> \<exists>d ds. nat_str n = digit_char d # ds \<and> 0 < d \<and> d < 10"
proof (induction n rule: nat_str.induct)
  case (1 n)
  show ?case
  proof (cases "n < 10")
    case True
    then show ?thesis using 1(2) by (subst nat_str.simps) auto
  next
    case False
    then obtain d ds where "nat_str (n div 10) = digit_char d # ds" "0 < d" "d < 10"
      using 1(1) by force
    then show ?thesis using False by (subst nat_str.simps) auto
  qed
qed

lemma nat_str_0: "nat_str 0 = ''0''"
  by (simp add: nat_str.simps digit_char_def char_of_def bit_0)

lemma takeWhile_digits:
  assumes "\<And>c. c \<in> set ds \<Longrightarrow> is_digit c" "num_end rest"
  shows "takeWhile is_digit (ds @ rest) = ds \<and> dropWhile is_digit (ds @ rest) = rest"
proof -
  have "takeWhile is_digit rest = [] \<and> dropWhile is_digit rest = rest"
    using assms(2) by (cases rest) (auto simp: num_end_def is_digit_def)
  then show ?thesis using assms(1) by simp
qed

definition scan_nat :: "string \<Rightarrow> string \<Rightarrow> (string \<times> string) option" where
  "scan_nat sg t =
     (case t of
        [] \<Rightarrow> None
      | d # ds \<Rightarrow>
          if d = CHR ''0'' then Some (sg @ ''0'', ds)
          else if is_digit d then Some (sg @ takeWhile is_digit t, dropWhile is_digit t)
          else None)"

lemma scan_nat_str: "num_end rest \<Longrightarrow> scan_nat sg (nat_str n @ rest) = Some (sg @ nat_str n, rest)"
proof (cases "n = 0")
  case False
  assume rest: "num_end rest"
  obtain d ds where d: "nat_str n = digit_char d # ds" "0 < d" "d < 10"
    using False nat_str_head by blast
  have "code (digit_char d) \<noteq> code (CHR ''0'')" using d by (simp add: code_def [of "CHR ''0''"])
  then have "digit_char d \<noteq> CHR ''0''" by metis
  moreover have "takeWhile is_digit (nat_str n @ rest) = nat_str n \<and> dropWhile is_digit (nat_str n @ rest) = rest"
    using takeWhile_digits [of "nat_str n" rest] nat_str_digits rest by blast
  ultimately show ?thesis using d by (simp add: scan_nat_def)
qed (simp add: nat_str_0 scan_nat_def)

lemma scan_int_str: "num_end rest \<Longrightarrow> scan_int (int_str n @ rest) = Some (int_str n, rest)"
proof -
  assume rest: "num_end rest"
  have split: "scan_int s = (if starts_with s ''-'' then scan_nat ''-'' (tl s) else scan_nat [] s)" for s
    by (cases s) (auto simp: scan_int_def scan_nat_def starts_with_def)
  have "\<not> starts_with (nat_str m @ rest) ''-''" for m
  proof -
    obtain c cs where c: "nat_str m = c # cs" using nat_str_nonempty by (metis list.exhaust)
    then have "is_digit c" using nat_str_digits [of c m] by simp
    then show ?thesis using c not_is_digit_signs by (auto simp: starts_with_def)
  qed
  then show ?thesis using scan_nat_str [OF rest] by (auto simp: split int_str_def starts_with_def)
qed

section \<open>Reading back what was written: values\<close>

text \<open>The value the reader returns for a written value: the keys sorted at every level.\<close>

fun jsort :: "json \<Rightarrow> json" where
  "jsort (JArr vs) = JArr (map jsort vs)"
| "jsort (JObj kvs) = JObj (map (\<lambda>(k, v). (k, jsort v)) (sort_items kvs))"
| "jsort JNull = JNull"
| "jsort (JBool b) = JBool b"
| "jsort (JInt n) = JInt n"
| "jsort (JFloat x) = JFloat x"
| "jsort (JStr s) = JStr s"

text \<open>Values without floats whose integers and objects the hooks accept as they are.\<close>

definition hooks_faithful :: "json_hooks \<Rightarrow> bool" where
  "hooks_faithful h = (\<forall>kvs. distinct (map fst kvs) \<longrightarrow> h_pairs h kvs = Inr (JObj kvs))"

fun json_plain :: "json_hooks \<Rightarrow> json \<Rightarrow> bool" where
  "json_plain h (JInt n) = (h_int h (int_str n) = Inr (JInt n))"
| "json_plain h (JFloat x) = False"
| "json_plain h (JArr vs) = (\<forall>v \<in> set vs. json_plain h v)"
| "json_plain h (JObj kvs) = (distinct (map fst kvs) \<and> (\<forall>(k, v) \<in> set kvs. json_plain h v))"
| "json_plain h JNull = True"
| "json_plain h (JBool b) = True"
| "json_plain h (JStr s) = True"

definition opens_value :: "string \<Rightarrow> bool" where
  "opens_value s = (case s of [] \<Rightarrow> False | c # _ \<Rightarrow> code c \<notin> {32, 9, 10, 13, 93, 125})"

lemma quote_opens: "opens_value (quote s @ r)"
  by (simp add: quote_def opens_value_def)

lemma dumps_opens:
  assumes "json_plain h j"
  shows "opens_value (dumps j @ r)"
proof (cases j)
  case (JInt n)
  obtain c cs where c: "int_str n = c # cs" by (meson int_str_nonempty list.exhaust)
  then have "numeral_char c" using int_str_chars [of c n] by simp
  then have "code c \<notin> {32, 9, 10, 13, 93, 125}"
    by (auto simp: numeral_char_def is_digit_def) (auto simp: code_def)
  then show ?thesis by (simp add: JInt c opens_value_def)
next
  case (JBool b)
  then show ?thesis by (cases b) (simp_all add: opens_value_def code_def)
next
  case (JStr s)
  then show ?thesis by (simp add: quote_opens)
qed (use assms in \<open>simp_all add: opens_value_def code_def\<close>)

lemma skip_ws_opens [simp]: "opens_value s \<Longrightarrow> skip_ws s = s"
  by (cases s) (auto simp: opens_value_def skip_ws_def)

lemma opens_not_close: "opens_value s \<Longrightarrow> \<not> starts_with s '']''" "opens_value s \<Longrightarrow> \<not> starts_with s ''}''"
  by (cases s; auto simp: opens_value_def starts_with_def code_def)+

lemma skip_ws_end: "num_end r \<Longrightarrow> skip_ws r = r"
  by (cases r) (auto simp: num_end_def skip_ws_def)

lemma num_end_Cons [simp]: "num_end (CHR '','' # r)" "num_end (CHR '']'' # r)" "num_end (CHR ''}'' # r)"
  by (simp_all add: num_end_def code_def)

lemma starts_with_head: "starts_with (c # cs) (p # ps) \<longleftrightarrow> c = p \<and> starts_with cs ps"
  by (simp add: starts_with_def)

lemma num_end_not_number: "num_end rest \<Longrightarrow> scan_frac rest = ([], rest) \<and> scan_exp rest = (None, rest)"
proof (cases rest)
  case (Cons c cs)
  assume "num_end rest"
  then have "c \<noteq> CHR ''.''" "c \<noteq> CHR ''e''" "c \<noteq> CHR ''E''"
    by (auto simp: Cons num_end_def code_def)
  then show ?thesis by (simp add: Cons scan_frac_def scan_exp_def)
qed (simp add: scan_frac_def scan_exp_def)

lemma parse_int:
  assumes "json_plain h (JInt n)" "num_end rest"
  shows "parse_value h (Suc f) (int_str n @ rest) = Inr (JInt n, rest)"
proof -
  obtain c cs where c: "int_str n @ rest = c # cs" "c \<in> set (int_str n)"
    by (metis append_is_Nil_conv hd_append2 hd_in_set int_str_nonempty list.collapse)
  have nc: "numeral_char c" using int_str_chars c(2) by blast
  have ne: "c \<noteq> QUOTE" "c \<noteq> CHR ''[''" "c \<noteq> CHR ''{''" "code c \<notin> {110, 116, 102, 78, 73}"
    using nc by (auto simp: numeral_char_def is_digit_def) (auto simp: code_def QUOTE_def char_of_def bit_0)
  have "\<not> starts_with (int_str n @ rest) ''-Infinity''"
  proof
    assume a: "starts_with (int_str n @ rest) ''-Infinity''"
    then have neg: "c = CHR ''-''" by (simp add: c starts_with_def)
    then have "int_str n = CHR ''-'' # nat_str (nat (- n))" using c
      by (auto simp: int_str_def dest: nat_str_digits split: if_split_asm)
    then have "starts_with (nat_str (nat (- n)) @ rest) ''Infinity''" using a by (simp add: starts_with_def)
    moreover obtain d ds where "nat_str (nat (- n)) = d # ds" by (meson list.exhaust nat_str_nonempty)
    moreover from this have "is_digit d" using nat_str_digits [of d "nat (- n)"] by simp
    ultimately show False by (auto simp: starts_with_head is_digit_def code_def)
  qed
  have "scan_word h (int_str n @ rest) = None"
  proof -
    have "c \<noteq> CHR ''n''" "c \<noteq> CHR ''t''" "c \<noteq> CHR ''f''" "c \<noteq> CHR ''N''" "c \<noteq> CHR ''I''"
      using ne(4) by (auto simp: code_def)
    then show ?thesis using \<open>\<not> starts_with (int_str n @ rest) ''-Infinity''\<close>
      unfolding scan_word_def c starts_with_head by simp
  qed
  then have "(case scan_word h (int_str n @ rest) of Some res \<Rightarrow> res | None \<Rightarrow> scan_number h (int_str n @ rest))
      = Inr (JInt n, rest)"
    using scan_int_str [OF assms(2)] num_end_not_number [OF assms(2)] assms(1)
    by (simp add: scan_number_def)
  then show ?thesis using ne(1-3) unfolding c by simp
qed

lemma parse_elems_dumps:
  assumes IH: "\<And>v f rest. v \<in> set vs \<Longrightarrow> length (dumps v) < f \<Longrightarrow> num_end rest \<Longrightarrow>
        parse_value h f (dumps v @ rest) = Inr (jsort v, rest)"
    and plain: "\<forall>v \<in> set vs. json_plain h v" and "vs \<noteq> []"
    and "length (join_with '','' (map dumps vs)) + 1 < f"
  shows "parse_elems h f (join_with '','' (map dumps vs) @ CHR '']'' # rest) = Inr (map jsort vs, rest)"
  using assms
proof (induction vs arbitrary: f)
  case (Cons v vs)
  obtain g where f: "f = Suc g" using Cons.prems(4) by (cases f) auto
  show ?case
  proof (cases vs)
    case Nil
    then have "parse_value h g (dumps v @ CHR '']'' # rest) = Inr (jsort v, CHR '']'' # rest)"
      using Cons.prems(1,4) f by simp
    then show ?thesis by (simp add: f Nil skip_ws_end)
  next
    case (Cons w ws)
    let ?tl = "join_with '','' (map dumps vs) @ CHR '']'' # rest"
    have v: "parse_value h g (dumps v @ CHR '','' # ?tl) = Inr (jsort v, CHR '','' # ?tl)"
      using Cons.prems(1) [of v g "CHR '','' # ?tl"] Cons.prems(4) f Cons by simp
    have "opens_value (dumps w @ s)" for s
      by (rule dumps_opens [of h]) (use Cons.prems(2) Cons in simp)
    then have "skip_ws ?tl = ?tl" unfolding Cons by (cases ws) simp_all
    moreover have "parse_elems h g ?tl = Inr (map jsort vs, rest)"
      using Cons.prems(1,2,4) f Cons by (intro Cons.IH) auto
    ultimately show ?thesis using v by (simp add: f Cons skip_ws_end)
  qed
qed simp

definition dump_item :: "string \<times> json \<Rightarrow> string" where
  "dump_item kv = quote (fst kv) @ '':'' @ dumps (snd kv)"

lemma parse_members_dumps:
  assumes IH: "\<And>k v f rest. (k, v) \<in> set kvs \<Longrightarrow> length (dumps v) < f \<Longrightarrow> num_end rest \<Longrightarrow>
        parse_value h f (dumps v @ rest) = Inr (jsort v, rest)"
    and plain: "\<forall>(k, v) \<in> set kvs. json_plain h v" and "kvs \<noteq> []"
    and "length (join_with '','' (map dump_item kvs)) + 1 < f"
  shows "parse_members h f (join_with '','' (map dump_item kvs) @ CHR ''}'' # rest)
    = Inr (map (\<lambda>(k, v). (k, jsort v)) kvs, rest)"
  using assms
proof (induction kvs arbitrary: f)
  case (Cons kv kvs)
  obtain g where f: "f = Suc g" using Cons.prems(4) by (cases f) auto
  obtain k v where kv: "kv = (k, v)" by (cases kv)
  have item: "dump_item kv @ s = QUOTE # (concat (map escape_char k) @ QUOTE # CHR '':'' # dumps v @ s)" for s
    by (simp add: dump_item_def kv quote_def)
  have colon: "skip_ws (CHR '':'' # s) = CHR '':'' # s" for s by (simp add: skip_ws_def code_def)
  have opens: "skip_ws (dumps v @ s) = dumps v @ s" for s
    using Cons.prems(2) dumps_opens [of h v s] by (simp add: kv)
  show ?case
  proof (cases kvs)
    case Nil
    then have "parse_value h g (dumps v @ CHR ''}'' # rest) = Inr (jsort v, CHR ''}'' # rest)"
      using Cons.prems(1) [of k v g] Cons.prems(4) f by (simp add: kv dump_item_def)
    then show ?thesis by (simp add: f Nil item scan_quote colon opens skip_ws_end) (simp add: kv)
  next
    case (Cons kw ws)
    let ?tl = "join_with '','' (map dump_item kvs) @ CHR ''}'' # rest"
    have v: "parse_value h g (dumps v @ CHR '','' # ?tl) = Inr (jsort v, CHR '','' # ?tl)"
      using Cons.prems(1) [of k v g "CHR '','' # ?tl"] Cons.prems(4) f Cons by (simp add: kv dump_item_def)
    have "opens_value (dump_item kw @ s)" for s by (simp add: dump_item_def quote_opens)
    then have "skip_ws ?tl = ?tl" unfolding Cons by (cases ws) simp_all
    moreover have "parse_members h g ?tl = Inr (map (\<lambda>(k, v). (k, jsort v)) kvs, rest)"
      using Cons.prems(1,2,4) f Cons by (intro Cons.IH) auto
    ultimately show ?thesis using v
      by (simp add: f Cons item scan_quote colon opens skip_ws_end) (simp add: kv)
  qed
qed simp

lemma dumps_obj: "dumps (JObj kvs) = ''{'' @ join_with '','' (map dump_item (sort_items kvs)) @ ''}''"
  by (simp add: dump_item_def [abs_def] case_prod_beta')

lemma distinct_sort_items [simp]: "distinct (map fst (sort_items kvs)) = distinct (map fst kvs)"
proof -
  have "mset (map fst (sort_items kvs)) = mset (map fst kvs)"
    by (simp only: sort_items_def mset_map mset_sort)
  then show ?thesis by (metis mset_eq_imp_distinct_iff)
qed

lemma not_opener:
  "CHR ''['' \<noteq> QUOTE" "CHR ''{'' \<noteq> QUOTE" "CHR ''{'' \<noteq> CHR ''[''"
  by (simp_all add: QUOTE_def char_of_def bit_0)

lemma parse_array:
  assumes "parse_elems h f t = Inr (vs, rest)" "opens_value t"
  shows "parse_value h (Suc f) (CHR ''['' # t) = Inr (JArr vs, rest)"
  using assms opens_not_close(1) [OF assms(2)] not_opener by simp

lemma parse_object:
  assumes "parse_members h f t = Inr (kvs, rest)" "opens_value t" "h_pairs h kvs = Inr v"
  shows "parse_value h (Suc f) (CHR ''{'' # t) = Inr (v, rest)"
  using assms opens_not_close(2) [OF assms(2)] not_opener by simp

lemma parse_word:
  "parse_value h (Suc f) (''null'' @ rest) = Inr (JNull, rest)"
  "parse_value h (Suc f) (''true'' @ rest) = Inr (JBool True, rest)"
  "parse_value h (Suc f) (''false'' @ rest) = Inr (JBool False, rest)"
  by (simp_all add: scan_word_def starts_with_def QUOTE_def char_of_def bit_0)

lemma parse_dumps:
  assumes "hooks_faithful h"
  shows "json_plain h j \<Longrightarrow> length (dumps j) < f \<Longrightarrow> num_end rest \<Longrightarrow>
    parse_value h f (dumps j @ rest) = Inr (jsort j, rest)"
proof (induction j arbitrary: f rest rule: dumps.induct)
  case 1
  then obtain g where "f = Suc g" by (cases f) auto
  then show ?case using parse_word(1) by simp
next
  case (2 b)
  then obtain g where "f = Suc g" by (cases f) auto
  then show ?case using parse_word(2,3) by (cases b) simp_all
next
  case (3 n)
  then obtain g where "f = Suc g" by (cases f) auto
  then show ?case using parse_int 3 by simp
next
  case (5 s)
  then obtain g where "f = Suc g" by (cases f) auto
  then show ?case by (simp add: quote_def scan_quote)
next
  case (6 vs)
  then obtain g where f: "f = Suc g" by (cases f) auto
  show ?case
  proof (cases vs)
    case Nil
    then show ?thesis using not_opener by (simp add: f starts_with_def skip_ws_def code_def)
  next
    case (Cons v ws)
    let ?t = "join_with '','' (map dumps vs) @ CHR '']'' # rest"
    have "parse_elems h g ?t = Inr (map jsort vs, rest)"
    proof (rule parse_elems_dumps [where h = h])
      show "parse_value h f' (dumps v @ r) = Inr (jsort v, r)"
        if "v \<in> set vs" "length (dumps v) < f'" "num_end r" for v f' r
        using 6 that by simp
    qed (use 6(2,3) f Cons in auto)
    moreover have "opens_value (dumps v @ s)" for s
      by (rule dumps_opens [of h]) (use 6(2) Cons in simp)
    then have "opens_value ?t" unfolding Cons by (cases ws) simp_all
    ultimately show ?thesis using parse_array f by simp
  qed
next
  case (7 kvs)
  then obtain g where f: "f = Suc g" by (cases f) auto
  let ?kvs = "sort_items kvs"
  show ?case
  proof (cases ?kvs)
    case Nil
    then show ?thesis using not_opener assms
      by (simp add: f starts_with_def skip_ws_def code_def hooks_faithful_def)
  next
    case (Cons kv ws)
    let ?t = "join_with '','' (map dump_item ?kvs) @ CHR ''}'' # rest"
    have "parse_members h g ?t = Inr (map (\<lambda>(k, v). (k, jsort v)) ?kvs, rest)"
    proof (rule parse_members_dumps [where h = h])
      show "parse_value h f' (dumps v @ r) = Inr (jsort v, r)"
        if "(k, v) \<in> set ?kvs" "length (dumps v) < f'" "num_end r" for k v f' r
        using 7(1) [OF that(1) refl _ that(2,3)] 7(2) that(1) by auto
      show "\<forall>(k, v) \<in> set ?kvs. json_plain h v" using 7(2) by simp
    qed (use 7(3) f Cons in \<open>auto simp: dumps_obj simp del: dumps.simps\<close>)
    moreover have "opens_value (dump_item kv @ s)" for s by (simp add: dump_item_def quote_opens)
    then have "opens_value ?t" unfolding Cons by (cases ws) simp_all
    moreover have "distinct (map fst (map (\<lambda>(k, v). (k, jsort v)) ?kvs)) = distinct (map fst ?kvs)"
      by (simp add: comp_def case_prod_beta')
    then have "distinct (map fst (map (\<lambda>(k, v). (k, jsort v)) ?kvs))" using 7(2) by simp
    then have "h_pairs h (map (\<lambda>(k, v). (k, jsort v)) ?kvs) = Inr (jsort (JObj kvs))"
      using assms unfolding hooks_faithful_def by simp
    ultimately show ?thesis using parse_object f by (simp add: dumps_obj del: dumps.simps)
  qed
qed simp

theorem loads_dumps:
  assumes "hooks_faithful h" "json_plain h j"
  shows "json_loads h (dumps j) = Inr (jsort j)"
proof -
  have "parse_value h (2 * length (dumps j) + 2) (dumps j @ []) = Inr (jsort j, [])"
    by (rule parse_dumps [OF assms]) (simp_all add: num_end_def)
  moreover have "skip_ws (dumps j) = dumps j" using dumps_opens [OF assms(2), of "[]"] by simp
  ultimately show ?thesis by (simp add: json_loads_def skip_ws_def [of "[]"])
qed

end
