(* ===== verification/Py_Value.thy ===== *)
theory Py_Value
  imports Py_Json
begin

text \<open>
  The built-in conversions the code applies to untrusted JSON values: \<open>int(x)\<close>,
  \<open>float(x)\<close>, \<open>str(x)\<close>, truth, and \<open>dict.get\<close>. A conversion that raises in Python is an
  \<open>Inl\<close>.
\<close>

section \<open>Dictionaries of JSON values\<close>

type_synonym jdict = "(string \<times> json) list"

text \<open>\<open>d.get(key)\<close> and \<open>d[key]\<close>.\<close>

definition jget :: "jdict \<Rightarrow> string \<Rightarrow> json" where
  "jget d k = (case map_of d k of None \<Rightarrow> JNull | Some v \<Rightarrow> v)"

definition jitem :: "jdict \<Rightarrow> string \<Rightarrow> json res" where
  "jitem d k = (case map_of d k of None \<Rightarrow> Inl PyKeyError | Some v \<Rightarrow> Inr v)"

definition keys_are :: "jdict \<Rightarrow> string list \<Rightarrow> bool" where
  "keys_are d ks = (fst ` set d = set ks)"

section \<open>Text of a value\<close>

text \<open>\<open>repr(s)\<close> of a string: single quotes unless it has one and no double quote.\<close>

definition hex2 :: "nat \<Rightarrow> string" where
  "hex2 n = [hex_char (n div 16), hex_char (n mod 16)]"

definition repr_char :: "char \<Rightarrow> char \<Rightarrow> string" where
  "repr_char q c =
     (if c = q \<or> c = BACKSLASH then [BACKSLASH, c]
      else if code c = 10 then [BACKSLASH, CHR ''n'']
      else if code c = 13 then [BACKSLASH, CHR ''r'']
      else if code c = 9 then [BACKSLASH, CHR ''t'']
      else if code c < 32 \<or> (127 \<le> code c \<and> code c \<le> 160) \<or> code c = 173
      then [BACKSLASH, CHR ''x''] @ hex2 (code c)
      else [c])"

definition str_repr :: "string \<Rightarrow> string" where
  "str_repr s =
     (let q = (if char_of (39::nat) \<in> set s \<and> QUOTE \<notin> set s then QUOTE else char_of (39::nat))
      in q # concat (map (repr_char q) s) @ [q])"

definition float_str :: "pyfloat \<Rightarrow> string" where
  "float_str x = (case x of PosInf \<Rightarrow> ''inf'' | NegInf \<Rightarrow> ''-inf'' | NaN \<Rightarrow> ''nan'' | _ \<Rightarrow> float_repr x)"

fun py_repr :: "json \<Rightarrow> string" where
  "py_repr JNull = ''None''"
| "py_repr (JBool b) = (if b then ''True'' else ''False'')"
| "py_repr (JInt n) = int_str n"
| "py_repr (JFloat x) = float_str x"
| "py_repr (JStr s) = str_repr s"
| "py_repr (JArr vs) = ''['' @ join_with '', '' (map py_repr vs) @ '']''"
| "py_repr (JObj kvs) =
     ''{'' @ join_with '', '' (map (\<lambda>(k, v). str_repr k @ '': '' @ py_repr v) kvs) @ ''}''"

definition py_str :: "json \<Rightarrow> string" where
  "py_str v = (case v of JStr s \<Rightarrow> s | _ \<Rightarrow> py_repr v)"

section \<open>Numbers\<close>

definition float_to_int :: "pyfloat \<Rightarrow> int res" where
  "float_to_int x =
     (if x = NaN then Inl PyValueError
      else if is_inf x then Inl PyOverflowError
      else Inr (if fval x < 0 then \<lceil>fval x\<rceil> else \<lfloor>fval x\<rfloor>))"

definition py_to_int :: "json \<Rightarrow> int res" where
  "py_to_int v =
     (case v of
        JInt n \<Rightarrow> Inr n
      | JBool b \<Rightarrow> Inr (if b then 1 else 0)
      | JFloat x \<Rightarrow> float_to_int x
      | JStr s \<Rightarrow> (case py_int s of None \<Rightarrow> Inl PyValueError | Some n \<Rightarrow> Inr n)
      | _ \<Rightarrow> Inl PyTypeError)"

text \<open>\<open>float(s)\<close>: an optional sign, then \<open>inf\<close>, \<open>infinity\<close>, \<open>nan\<close> or a decimal literal
  whose digits may be grouped by underscores.\<close>

definition strip_num :: "string \<Rightarrow> string" where
  "strip_num s = rev (dropWhile int_space (rev (dropWhile int_space s)))"

definition digit_part :: "string \<Rightarrow> string option" where
  "digit_part s = (if s = [] then Some [] else digit_run False s)"

definition split_first :: "(char \<Rightarrow> bool) \<Rightarrow> string \<Rightarrow> string \<times> string option" where
  "split_first p s = (case dropWhile (\<lambda>c. \<not> p c) s of
     [] \<Rightarrow> (s, None) | _ # r \<Rightarrow> (takeWhile (\<lambda>c. \<not> p c) s, Some r))"

definition exp_part :: "string option \<Rightarrow> int option" where
  "exp_part e =
     (case e of
        None \<Rightarrow> Some 0
      | Some t \<Rightarrow>
          (let neg = starts_with t ''-''; u = (if neg \<or> starts_with t ''+'' then tl t else t) in
           case digit_run False u of None \<Rightarrow> None
           | Some ds \<Rightarrow> Some (if neg then - int (digits_value ds) else int (digits_value ds))))"

definition float_of_str :: "string \<Rightarrow> pyfloat res" where
  "float_of_str s =
     (let t = strip_num s; neg = starts_with t ''-'';
          u = (if neg \<or> starts_with t ''+'' then tl t else t);
          (mant, ex) = split_first (\<lambda>c. c = CHR ''e'' \<or> c = CHR ''E'') u;
          (ip, fp) = split_first (\<lambda>c. c = CHR ''.'') mant in
      if lower u \<in> {''inf'', ''infinity''} then Inr (signed_inf neg)
      else if lower u = ''nan'' then Inr NaN
      else case digit_part ip of None \<Rightarrow> Inl PyValueError | Some ids \<Rightarrow>
        (case digit_part (case fp of None \<Rightarrow> [] | Some f \<Rightarrow> f) of None \<Rightarrow> Inl PyValueError | Some fds \<Rightarrow>
          (case exp_part ex of None \<Rightarrow> Inl PyValueError | Some e \<Rightarrow>
            if ids = [] \<and> fds = [] then Inl PyValueError
            else
              (let v = of_int (int (digits_value (ids @ fds))) * pow10 (e - int (length fds))
               in Inr (mk_float neg (if neg then - v else v))))))"

definition py_to_float :: "json \<Rightarrow> pyfloat res" where
  "py_to_float v =
     (case v of
        JFloat x \<Rightarrow> Inr x
      | JInt n \<Rightarrow> f_of_int n
      | JBool b \<Rightarrow> Inr (Fin (if b then 1 else 0))
      | JStr s \<Rightarrow> float_of_str s
      | _ \<Rightarrow> Inl PyTypeError)"

text \<open>\<open>bool(x)\<close>.\<close>

definition truthy :: "json \<Rightarrow> bool" where
  "truthy v =
     (case v of JNull \<Rightarrow> False | JBool b \<Rightarrow> b | JInt n \<Rightarrow> n \<noteq> 0
      | JFloat x \<Rightarrow> \<not> (isfinite x \<and> fval x = 0)
      | JStr s \<Rightarrow> s \<noteq> [] | JArr vs \<Rightarrow> vs \<noteq> [] | JObj kvs \<Rightarrow> kvs \<noteq> [])"

section \<open>Tests and views of a value\<close>

text \<open>What \<open>len\<close> and iteration see of a value: a list, the characters of a string, the keys
  of a dict.\<close>

definition items_list :: "json \<Rightarrow> json list res" where
  "items_list v =
     (case v of JArr vs \<Rightarrow> Inr vs | JStr s \<Rightarrow> Inr (map (\<lambda>c. JStr [c]) s)
      | JObj d \<Rightarrow> Inr (map (\<lambda>kv. JStr (fst kv)) d) | _ \<Rightarrow> Inl PyTypeError)"

definition ints_of :: "json list \<Rightarrow> int list" where
  "ints_of vs = concat (map (\<lambda>v. case v of JInt n \<Rightarrow> [n] | _ \<Rightarrow> []) vs)"

definition strs_of :: "json list \<Rightarrow> string list" where
  "strs_of vs = concat (map (\<lambda>v. case v of JStr s \<Rightarrow> [s] | _ \<Rightarrow> []) vs)"

definition nat_field :: "json \<Rightarrow> bool" where
  "nat_field v = (case v of JInt n \<Rightarrow> 0 \<le> n | _ \<Rightarrow> False)"

definition int_field :: "json \<Rightarrow> int" where
  "int_field v = (case v of JInt n \<Rightarrow> n | _ \<Rightarrow> 0)"

definition nonempty_str :: "json \<Rightarrow> bool" where
  "nonempty_str v = (case v of JStr s \<Rightarrow> s \<noteq> [] | _ \<Rightarrow> False)"

section \<open>Hashing a canonical document\<close>

text \<open>\<open>json.dumps(..., sort_keys=True, separators=(",", ":")).encode()\<close>.\<close>

definition canonical_bytes :: "json \<Rightarrow> bytes" where
  "canonical_bytes v = map byte_of (dumps v)"

definition domain_message :: "string \<Rightarrow> json \<Rightarrow> bytes" where
  "domain_message label v = map byte_of label @ [0] @ canonical_bytes v"

definition domain_digest :: "string \<Rightarrow> json \<Rightarrow> string" where
  "domain_digest label v = sha256_hex (domain_message label v)"

lemma inj_byte_of: "map byte_of s = map byte_of t \<Longrightarrow> s = t"
  by (metis char_of_byte_of inj_map_eq_map injI)

text \<open>The int hook of \<open>json.loads\<close> reads back every int that fits CPython's digit limit.\<close>

definition int_fits :: "int \<Rightarrow> bool" where
  "int_fits n = (length (nat_str (nat \<bar>n\<bar>)) \<le> 4300)"

lemma int_fits_word: "\<bar>n\<bar> \<le> 2 ^ 64 \<Longrightarrow> int_fits n"
proof -
  assume "\<bar>n\<bar> \<le> 2 ^ 64"
  then have "nat \<bar>n\<bar> < 10 ^ Suc 19" by simp
  from length_nat_str [OF this] show ?thesis by (simp add: int_fits_def)
qed

lemma dict_of_pairs_distinct: "distinct (map fst kvs) \<Longrightarrow> dict_of_pairs kvs = kvs"
proof -
  have "foldl (\<lambda>d (k, v). dict_set k v d) acc kvs = acc @ kvs" if "distinct (map fst (acc @ kvs))" for acc
    using that
  proof (induction kvs arbitrary: acc)
    case (Cons kv kvs)
    obtain k v where kv: "kv = (k, v)" by (cases kv)
    have "k \<notin> fst ` set acc" using Cons.prems by (auto simp: kv)
    then show ?case using Cons by (simp add: kv dict_set_new)
  qed simp
  from this [of "[]"] show "distinct (map fst kvs) \<Longrightarrow> dict_of_pairs kvs = kvs"
    by (simp add: dict_of_pairs_def)
qed

lemma plain_hooks_faithful: "hooks_faithful plain_hooks"
  by (simp add: hooks_faithful_def plain_hooks_def dict_of_pairs_distinct)

lemma plain_int: "int_fits n \<Longrightarrow> json_plain plain_hooks (JInt n)"
  by (simp add: plain_hooks_def int_fits_def py_int_int_str)

text \<open>Two values with the same canonical text are equal up to the order of keys.\<close>

lemma canonical_bytes_inj:
  assumes "json_plain plain_hooks a" "json_plain plain_hooks b" "canonical_bytes a = canonical_bytes b"
  shows "jsort a = jsort b"
proof -
  have "dumps a = dumps b" using assms(3) by (simp add: canonical_bytes_def inj_byte_of)
  with loads_dumps [OF plain_hooks_faithful] assms show ?thesis by (metis sum.inject(2))
qed

text \<open>A pair of messages the hash maps to one digest.\<close>

definition sha_collision :: "bytes \<Rightarrow> bytes \<Rightarrow> bool" where
  "sha_collision m m' = (m \<noteq> m' \<and> sha256 m = sha256 m')"

lemma domain_digest_binding:
  assumes "json_plain plain_hooks a" "json_plain plain_hooks b"
    and "domain_digest label a = domain_digest label b"
  shows "jsort a = jsort b \<or> sha_collision (domain_message label a) (domain_message label b)"
proof -
  have "sha256 (domain_message label a) = sha256 (domain_message label b)"
    using assms(3) by (simp add: domain_digest_def sha256_hex_def hex_of_inj)
  then show ?thesis using canonical_bytes_inj [OF assms(1,2)] unfolding sha_collision_def domain_message_def
    by (metis append_same_eq same_append_eq)
qed

end
