(* ===== verification/Core_Challenge.thy ===== *)
theory Core_Challenge
  imports Core_Rng Core_Assignment Py_Value
begin

text \<open>
  \<open>cathedral_thin/core.py\<close>, the challenge envelope: its public fields, the commitment that
  names it, the guards a receiver applies, and how a validator builds one. A challenge is
  read as a dictionary in both of the source's forms: \<open>challenge.get\<close> of a decoded
  payload and \<open>getattr\<close> of a \<open>Challenge\<close> see the same fields. The lemmas show that a
  built envelope passes every guard, and that two accepted envelopes with one id commit to
  the same fields, up to a hash collision.
\<close>

record challenge =
  ch_protocol_version :: int
  ch_challenge_id :: string
  ch_validator_hotkey :: string
  ch_miner_hotkey :: string
  ch_netuid :: int
  ch_round_id :: int
  ch_issued_at_ms :: int
  ch_expires_at_ms :: int
  ch_n_vars :: int
  ch_n_clauses :: int
  ch_cnf_b64 :: string
  ch_cnf_sha256 :: string

definition challenge_dict :: "challenge \<Rightarrow> jdict" where
  "challenge_dict ch =
     [(''protocol_version'', JInt (ch_protocol_version ch)),
      (''challenge_id'', JStr (ch_challenge_id ch)),
      (''validator_hotkey'', JStr (ch_validator_hotkey ch)),
      (''miner_hotkey'', JStr (ch_miner_hotkey ch)),
      (''netuid'', JInt (ch_netuid ch)),
      (''round_id'', JInt (ch_round_id ch)),
      (''issued_at_ms'', JInt (ch_issued_at_ms ch)),
      (''expires_at_ms'', JInt (ch_expires_at_ms ch)),
      (''n_vars'', JInt (ch_n_vars ch)),
      (''n_clauses'', JInt (ch_n_clauses ch)),
      (''cnf_b64'', JStr (ch_cnf_b64 ch)),
      (''cnf_sha256'', JStr (ch_cnf_sha256 ch))]"

text \<open>The ten public fields, after their conversions.\<close>

record public_fields =
  pf_protocol_version :: int
  pf_validator_hotkey :: string
  pf_miner_hotkey :: string
  pf_netuid :: int
  pf_round_id :: int
  pf_issued_at_ms :: int
  pf_expires_at_ms :: int
  pf_n_vars :: int
  pf_n_clauses :: int
  pf_cnf_sha256 :: string

definition fields_json :: "public_fields \<Rightarrow> json" where
  "fields_json f = JObj
     [(''protocol_version'', JInt (pf_protocol_version f)),
      (''validator_hotkey'', JStr (pf_validator_hotkey f)),
      (''miner_hotkey'', JStr (pf_miner_hotkey f)),
      (''netuid'', JInt (pf_netuid f)),
      (''round_id'', JInt (pf_round_id f)),
      (''issued_at_ms'', JInt (pf_issued_at_ms f)),
      (''expires_at_ms'', JInt (pf_expires_at_ms f)),
      (''n_vars'', JInt (pf_n_vars f)),
      (''n_clauses'', JInt (pf_n_clauses f)),
      (''cnf_sha256'', JStr (pf_cnf_sha256 f))]"

definition challenge_commitment :: "public_fields \<Rightarrow> string" where
  "challenge_commitment f = domain_digest ''cathedral-thin-envelope-v1'' (fields_json f)"

text \<open>The bytes the commitment hashes.\<close>

definition commitment_message :: "public_fields \<Rightarrow> bytes" where
  "commitment_message f = domain_message ''cathedral-thin-envelope-v1'' (fields_json f)"

definition challenge_public_fields :: "jdict \<Rightarrow> public_fields res" where
  "challenge_public_fields d =
     bindE (py_to_int (jget d ''protocol_version'')) (\<lambda>pv.
     bindE (py_to_int (jget d ''netuid'')) (\<lambda>netuid.
     bindE (py_to_int (jget d ''round_id'')) (\<lambda>round_id.
     bindE (py_to_int (jget d ''issued_at_ms'')) (\<lambda>issued.
     bindE (py_to_int (jget d ''expires_at_ms'')) (\<lambda>expires.
     bindE (py_to_int (jget d ''n_vars'')) (\<lambda>nv.
     bindE (py_to_int (jget d ''n_clauses'')) (\<lambda>nc.
       Inr \<lparr>pf_protocol_version = pv,
            pf_validator_hotkey = py_str (jget d ''validator_hotkey''),
            pf_miner_hotkey = py_str (jget d ''miner_hotkey''),
            pf_netuid = netuid, pf_round_id = round_id,
            pf_issued_at_ms = issued, pf_expires_at_ms = expires,
            pf_n_vars = nv, pf_n_clauses = nc,
            pf_cnf_sha256 = py_str (jget d ''cnf_sha256'')\<rparr>)))))))"

definition PROTOCOL_VERSION :: int where "PROTOCOL_VERSION = 1"

definition other_than :: "string option \<Rightarrow> string \<Rightarrow> bool" where
  "other_than expected actual = (case expected of None \<Rightarrow> False | Some e \<Rightarrow> actual \<noteq> e)"

definition digest_shape :: "string \<Rightarrow> bool" where
  "digest_shape s = (length s = 64 \<and> set (lower s) \<subseteq> set ''0123456789abcdef'')"

definition check_fields ::
  "public_fields \<Rightarrow> int \<Rightarrow> string option \<Rightarrow> string option \<Rightarrow> 'a res \<Rightarrow> 'a res" where
  "check_fields f now_ms expected_miner expected_validator k =
     guardE (pf_protocol_version f \<noteq> PROTOCOL_VERSION) ''unsupported protocol version''
     (guardE (pf_validator_hotkey f = [] \<or> pf_miner_hotkey f = []) ''missing challenge identity''
     (guardE (other_than expected_miner (pf_miner_hotkey f)) ''challenge targets another miner''
     (guardE (other_than expected_validator (pf_validator_hotkey f))
       ''challenge claims another validator''
     (guardE (pf_expires_at_ms f \<le> pf_issued_at_ms f) ''invalid challenge expiry''
     (guardE (now_ms > pf_expires_at_ms f) ''challenge expired''
     (guardE (pf_issued_at_ms f > now_ms + 30000) ''challenge issue time is in the future''
     (guardE (\<not> (3 \<le> pf_n_vars f \<and> pf_n_vars f \<le> 100000))
       ''challenge variable count outside safe bounds''
     (guardE (\<not> (1 \<le> pf_n_clauses f \<and> pf_n_clauses f \<le> 1000000))
       ''challenge clause count outside safe bounds''
     (guardE (\<not> digest_shape (pf_cnf_sha256 f)) ''invalid CNF digest'' k)))))))))"

definition validate_challenge_envelope ::
  "jdict \<Rightarrow> int \<Rightarrow> string option \<Rightarrow> string option \<Rightarrow> unit res" where
  "validate_challenge_envelope d now_ms expected_miner expected_validator =
     bindE (challenge_public_fields d) (\<lambda>f.
       check_fields f now_ms expected_miner expected_validator
         (bindE (compare_digest (py_str (jget d ''challenge_id'')) (challenge_commitment f)) (\<lambda>same.
            guardE (\<not> same) ''challenge commitment mismatch'' (Inr ()))))"

definition build_challenge ::
  "prf_fun \<Rightarrow> (bytes \<Rightarrow> bytes) \<Rightarrow> bytes \<Rightarrow> int \<Rightarrow> string \<Rightarrow> string \<Rightarrow> int \<Rightarrow> int \<Rightarrow> int \<Rightarrow> int \<Rightarrow> int \<Rightarrow> int
     \<Rightarrow> (challenge \<times> cnf) comp" where
  "build_challenge mac zlib_compress master_secret netuid validator_hotkey miner_hotkey round_id
     issued_at_ms ttl_ms nv nc slot =
     (if ttl_ms \<le> 0 then raiseO ''challenge ttl must be positive''
      else
        bindO (Some (derive_challenge_seed mac master_secret netuid validator_hotkey miner_hotkey
          round_id slot)) (\<lambda>seed.
        bindO (generate_ajm_cnf mac seed nv nc) (\<lambda>(c, planted).
        bindO (Some (encode_cnf zlib_compress c)) (\<lambda>(cnf_b64, cnf_sha256).
          let f = \<lparr>pf_protocol_version = PROTOCOL_VERSION,
                pf_validator_hotkey = validator_hotkey, pf_miner_hotkey = miner_hotkey,
                pf_netuid = netuid, pf_round_id = round_id,
                pf_issued_at_ms = issued_at_ms, pf_expires_at_ms = issued_at_ms + ttl_ms,
                pf_n_vars = nv, pf_n_clauses = nc, pf_cnf_sha256 = cnf_sha256\<rparr> in
          returnO (\<lparr>ch_protocol_version = PROTOCOL_VERSION,
              ch_challenge_id = challenge_commitment f,
              ch_validator_hotkey = validator_hotkey, ch_miner_hotkey = miner_hotkey,
              ch_netuid = netuid, ch_round_id = round_id,
              ch_issued_at_ms = issued_at_ms, ch_expires_at_ms = issued_at_ms + ttl_ms,
              ch_n_vars = nv, ch_n_clauses = nc,
              ch_cnf_b64 = cnf_b64, ch_cnf_sha256 = cnf_sha256\<rparr>, c)))))"

section \<open>What an accepted envelope guarantees\<close>

definition fields_ok :: "public_fields \<Rightarrow> int \<Rightarrow> string option \<Rightarrow> string option \<Rightarrow> bool" where
  "fields_ok f now_ms em ev =
     (pf_protocol_version f = PROTOCOL_VERSION \<and> pf_validator_hotkey f \<noteq> [] \<and> pf_miner_hotkey f \<noteq> []
      \<and> \<not> other_than em (pf_miner_hotkey f) \<and> \<not> other_than ev (pf_validator_hotkey f)
      \<and> pf_issued_at_ms f < pf_expires_at_ms f
      \<and> pf_issued_at_ms f - 30000 \<le> now_ms \<and> now_ms \<le> pf_expires_at_ms f
      \<and> 3 \<le> pf_n_vars f \<and> pf_n_vars f \<le> 100000 \<and> 1 \<le> pf_n_clauses f \<and> pf_n_clauses f \<le> 1000000
      \<and> digest_shape (pf_cnf_sha256 f))"

lemma check_fields_iff: "check_fields f now em ev k = Inr y \<longleftrightarrow> fields_ok f now em ev \<and> k = Inr y"
  by (auto simp: check_fields_def guardE_eq_Inr fields_ok_def)

lemma sha256_hex_ascii [simp]: "is_ascii (sha256_hex m)"
  by (simp add: sha256_hex_def)

lemma commitment_ascii [simp]: "is_ascii (challenge_commitment f)"
  by (simp add: challenge_commitment_def domain_digest_def)

lemma validate_iff:
  "validate_challenge_envelope d now em ev = Inr () \<longleftrightarrow>
     (\<exists>f. challenge_public_fields d = Inr f \<and> fields_ok f now em ev \<and>
       py_str (jget d ''challenge_id'') = challenge_commitment f)"
proof -
  have "(bindE (compare_digest s (challenge_commitment f)) (\<lambda>same.
      guardE (\<not> same) msg (Inr ())) = Inr ()) \<longleftrightarrow> s = challenge_commitment f" for s f msg
    by (auto simp: compare_digest_def guardE_def)
  then show ?thesis
    unfolding validate_challenge_envelope_def bindE_eq_Inr [of "challenge_public_fields d"] check_fields_iff
    by auto
qed

lemma public_fields_of_challenge:
  "challenge_public_fields (challenge_dict ch) = Inr
     \<lparr>pf_protocol_version = ch_protocol_version ch, pf_validator_hotkey = ch_validator_hotkey ch,
      pf_miner_hotkey = ch_miner_hotkey ch, pf_netuid = ch_netuid ch, pf_round_id = ch_round_id ch,
      pf_issued_at_ms = ch_issued_at_ms ch, pf_expires_at_ms = ch_expires_at_ms ch,
      pf_n_vars = ch_n_vars ch, pf_n_clauses = ch_n_clauses ch, pf_cnf_sha256 = ch_cnf_sha256 ch\<rparr>"
  by (simp add: challenge_public_fields_def challenge_dict_def jget_def py_to_int_def py_str_def)

lemma digest_shape_sha [simp]: "digest_shape (sha256_hex m)"
  unfolding digest_shape_def sha256_hex_def lower_hex
proof
  show "set (hex_of (sha256 m)) \<subseteq> set ''0123456789abcdef''" using hex_of_chars by blast
qed simp

lemma build_challenge_parts:
  assumes "build_challenge mac zc secret netuid vh mh rid issued ttl nv nc slot = returnO (ch, c)"
  obtains seed planted where "derive_challenge_seed mac secret netuid vh mh rid slot = Inr seed"
    and "generate_ajm_cnf mac seed nv nc = returnO (c, planted)"
    and "encode_cnf zc c = Inr (ch_cnf_b64 ch, ch_cnf_sha256 ch)"
    and "0 < ttl" and "vh \<noteq> []" and "mh \<noteq> []"
    and "ch_validator_hotkey ch = vh" "ch_miner_hotkey ch = mh" "ch_n_vars ch = nv" "ch_n_clauses ch = nc"
      "ch_issued_at_ms ch = issued" "ch_expires_at_ms ch = issued + ttl"
      "ch_protocol_version ch = PROTOCOL_VERSION"
    and "challenge_public_fields (challenge_dict ch) = Inr f \<Longrightarrow> ch_challenge_id ch = challenge_commitment f"
proof -
  from assms obtain seed planted b64 sha where
    seed: "derive_challenge_seed mac secret netuid vh mh rid slot = Inr seed"
    and gen: "generate_ajm_cnf mac seed nv nc = returnO (c, planted)"
    and enc: "encode_cnf zc c = Inr (b64, sha)" and ttl: "0 < ttl"
    and ch: "ch = \<lparr>ch_protocol_version = PROTOCOL_VERSION,
      ch_challenge_id = challenge_commitment \<lparr>pf_protocol_version = PROTOCOL_VERSION,
          pf_validator_hotkey = vh, pf_miner_hotkey = mh, pf_netuid = netuid, pf_round_id = rid,
          pf_issued_at_ms = issued, pf_expires_at_ms = issued + ttl,
          pf_n_vars = nv, pf_n_clauses = nc, pf_cnf_sha256 = sha\<rparr>,
      ch_validator_hotkey = vh, ch_miner_hotkey = mh, ch_netuid = netuid, ch_round_id = rid,
      ch_issued_at_ms = issued, ch_expires_at_ms = issued + ttl, ch_n_vars = nv, ch_n_clauses = nc,
      ch_cnf_b64 = b64, ch_cnf_sha256 = sha\<rparr>"
    unfolding build_challenge_def Let_def by (auto split: if_split_asm elim!: bindO_returnE)
  have "vh \<noteq> [] \<and> mh \<noteq> []" using seed by (auto simp: derive_challenge_seed_def Let_def elim!: resE)
  then show thesis
    using enc ttl by (intro that [OF seed gen]) (simp_all add: ch public_fields_of_challenge)
qed

lemma encode_cnf_digest: "encode_cnf zc c = Inr (payload, digest) \<Longrightarrow> \<exists>raw. digest = sha256_hex raw"
  by (auto simp: encode_cnf_def Let_def elim!: resE)

lemma generate_ajm_bounds:
  "generate_ajm_cnf mac seed nv nc = returnO r \<Longrightarrow> 3 \<le> nv \<and> nv \<le> 100000 \<and> 1 \<le> nc \<and> nc \<le> 1000000"
  by (auto simp: generate_ajm_cnf_def split: if_split_asm)

lemma built_challenge_valid:
  assumes "build_challenge mac zc secret netuid vh mh rid issued ttl nv nc slot = returnO (ch, c)"
    and "issued - 30000 \<le> now" "now \<le> issued + ttl"
  shows "validate_challenge_envelope (challenge_dict ch) now (Some mh) (Some vh) = Inr ()"
proof -
  obtain f where f: "challenge_public_fields (challenge_dict ch) = Inr f"
    using public_fields_of_challenge by blast
  from assms(1) show ?thesis
  proof (rule build_challenge_parts [where f = f])
    fix seed planted
    assume gen: "generate_ajm_cnf mac seed nv nc = returnO (c, planted)"
      and enc: "encode_cnf zc c = Inr (ch_cnf_b64 ch, ch_cnf_sha256 ch)"
      and ttl: "0 < ttl" "vh \<noteq> []" "mh \<noteq> []"
      and eqs: "ch_validator_hotkey ch = vh" "ch_miner_hotkey ch = mh" "ch_n_vars ch = nv"
        "ch_n_clauses ch = nc" "ch_issued_at_ms ch = issued" "ch_expires_at_ms ch = issued + ttl"
        "ch_protocol_version ch = PROTOCOL_VERSION"
      and id: "challenge_public_fields (challenge_dict ch) = Inr f \<Longrightarrow>
        ch_challenge_id ch = challenge_commitment f"
    obtain raw where "ch_cnf_sha256 ch = sha256_hex raw" using encode_cnf_digest [OF enc] by blast
    then have "fields_ok f now (Some mh) (Some vh)"
      using f generate_ajm_bounds [OF gen] ttl assms(2,3) unfolding public_fields_of_challenge
      by (auto simp: fields_ok_def eqs other_than_def)
    moreover have "py_str (jget (challenge_dict ch) ''challenge_id'') = ch_challenge_id ch"
      by (simp add: challenge_dict_def jget_def py_str_def)
    ultimately show ?thesis unfolding validate_iff using f id [OF f] by auto
  qed
qed

lemma built_challenge_decodes:
  assumes "build_challenge mac zc secret netuid vh mh rid issued ttl nv nc slot = returnO (ch, c)"
    and "zlib_law zc zi"
  shows "decode_cnf zi (ch_cnf_b64 ch) (ch_cnf_sha256 ch) (ch_n_vars ch) (ch_n_clauses ch) MAX_DIMACS_BYTES = Inr c"
  using assms(1)
proof (rule build_challenge_parts)
  fix seed planted
  assume gen: "generate_ajm_cnf mac seed nv nc = returnO (c, planted)"
    and enc: "encode_cnf zc c = Inr (ch_cnf_b64 ch, ch_cnf_sha256 ch)"
    and eqs: "ch_n_vars ch = nv" "ch_n_clauses ch = nc"
  have c: "cnf_wf c" "cnf_n_vars c = nv" "n_clauses c = nc" using generate_ajm_correct [OF gen] by auto
  then show ?thesis
    using decode_encode_cnf [OF assms(2) c(1) _ _ _ enc] generate_ajm_bounds [OF gen] by (simp add: eqs)
qed

section \<open>The id binds the fields\<close>

definition fields_fit :: "public_fields \<Rightarrow> bool" where
  "fields_fit f = (int_fits (pf_protocol_version f) \<and> int_fits (pf_netuid f) \<and> int_fits (pf_round_id f)
     \<and> int_fits (pf_issued_at_ms f) \<and> int_fits (pf_expires_at_ms f) \<and> int_fits (pf_n_vars f)
     \<and> int_fits (pf_n_clauses f))"

lemma fields_plain: "fields_fit f \<Longrightarrow> json_plain plain_hooks (fields_json f)"
  using plain_int by (auto simp: fields_json_def fields_fit_def simp del: json_plain.simps(1))

lemma jsort_obj_inj:
  assumes "jsort (JObj a) = jsort (JObj b)" "distinct (map fst a)" "distinct (map fst b)"
  shows "map_option jsort (map_of a k) = map_option jsort (map_of b k)"
proof -
  have lookup: "map_of (map (\<lambda>(k, v). (k, jsort v)) (sort_items kvs)) k = map_option jsort (map_of kvs k)"
    if "distinct (map fst kvs)" for kvs
  proof -
    have "map_of (sort_items kvs) = map_of kvs"
      using that by (subst map_of_inject_set) simp_all
    then show ?thesis by (simp add: map_of_map)
  qed
  show ?thesis using lookup [OF assms(2)] lookup [OF assms(3)] assms(1) by simp
qed

lemma fields_json_inj:
  assumes "jsort (fields_json f) = jsort (fields_json g)"
  shows "f = g"
proof -
  note eq = jsort_obj_inj [OF assms [unfolded fields_json_def]]
  show ?thesis
    using eq [of "''protocol_version''"] eq [of "''validator_hotkey''"] eq [of "''miner_hotkey''"]
      eq [of "''netuid''"] eq [of "''round_id''"] eq [of "''issued_at_ms''"] eq [of "''expires_at_ms''"]
      eq [of "''n_vars''"] eq [of "''n_clauses''"] eq [of "''cnf_sha256''"]
    by simp
qed

lemma commitment_binding:
  assumes "fields_fit f" "fields_fit g" "challenge_commitment f = challenge_commitment g"
  shows "f = g \<or> sha_collision (commitment_message f) (commitment_message g)"
  using domain_digest_binding [OF fields_plain [OF assms(1)] fields_plain [OF assms(2)]]
    assms(3) fields_json_inj unfolding challenge_commitment_def commitment_message_def by blast

section \<open>Properties of the envelope\<close>

text \<open>A built challenge passes the receiver's guards for its own miner and validator from
  30 seconds before its issue time to its expiry.\<close>

lemma build_then_validate:
  assumes "build_challenge mac zc secret netuid vh mh rid issued ttl nv nc slot = returnO (ch, c)"
    and "issued - 30000 \<le> now" "now \<le> issued + ttl"
  shows "validate_challenge_envelope (challenge_dict ch) now (Some mh) (Some vh) = Inr ()"
  using assms by (rule built_challenge_valid)

lemma demo_build:
  "\<exists>ch. build_challenge demo_mac id (replicate 32 0) netuid ''v'' ''m'' 7 1000 60000 3 1 0 =
    returnO (ch, \<lparr>cnf_n_vars = 3, cnf_clauses = [(1, -2, -3)]\<rparr>)"
proof -
  let ?c = "\<lparr>cnf_n_vars = 3, cnf_clauses = [(1, -2, -3)]\<rparr>"
  have tx: "to_dimacs ?c = ''p cnf 3 1\<newline>1 -2 -3 0\<newline>''" by code_simp
  have len: "length (to_dimacs ?c) = 20" unfolding tx by simp
  have "is_ascii (to_dimacs ?c)" unfolding tx by code_simp
  then have enc: "encode_cnf id ?c = Inr (b64encode (map byte_of (to_dimacs ?c)), sha256_hex (map byte_of (to_dimacs ?c)))"
    by (simp add: encode_cnf_def ascii_encode_def MAX_DIMACS_BYTES_def MAX_COMPRESSED_CNF_BYTES_def len)
  have seed: "derive_challenge_seed demo_mac (replicate 32 0) netuid ''v'' ''m'' 7 0 = Inr (demo_mac [] [])"
    by (simp add: derive_challenge_seed_def Let_def demo_mac_def)
  have gen: "generate_ajm_cnf demo_mac (demo_mac [] []) 3 1 = returnO (?c, [-1, -2, -3])"
    by code_simp
  show ?thesis by (simp add: build_challenge_def seed gen enc Let_def)
qed

lemma build_then_validate_witness:
  "\<exists>ch. validate_challenge_envelope (challenge_dict ch) 2000 (Some ''m'') (Some ''v'') = Inr ()"
proof -
  from demo_build [of 39] obtain ch where
    "build_challenge demo_mac id (replicate 32 0) 39 ''v'' ''m'' 7 1000 60000 3 1 0 =
      returnO (ch, \<lparr>cnf_n_vars = 3, cnf_clauses = [(1, -2, -3)]\<rparr>)" ..
  from build_then_validate [OF this, of 2000] show ?thesis by auto
qed

text \<open>C6. The challenge id binds the public fields: two envelopes that any receivers accept
  under one id have equal fields, unless the two messages their commitments hash are a collision
  of SHA-256. So an id names one validator, miner, round, time window and formula digest.\<close>

theorem envelope_id_binds:
  assumes "validate_challenge_envelope d now em ev = Inr ()"
    and "validate_challenge_envelope d' now' em' ev' = Inr ()"
    and "challenge_public_fields d = Inr f" "challenge_public_fields d' = Inr f'"
    and "py_str (jget d ''challenge_id'') = py_str (jget d' ''challenge_id'')"
    and "fields_fit f" "fields_fit f'"
  shows "f = f' \<or> sha_collision (commitment_message f) (commitment_message f')"
  using assms commitment_binding by (auto simp: validate_iff)

theorem envelope_id_binds_witness:
  "\<exists>d d' f f'. d \<noteq> d' \<and> validate_challenge_envelope d 2000 None None = Inr () \<and>
     validate_challenge_envelope d' 2000 None None = Inr () \<and> challenge_public_fields d = Inr f \<and> challenge_public_fields d' = Inr f' \<and>
     (f = f' \<or> sha_collision (commitment_message f) (commitment_message f'))"
proof -
  let ?f = "\<lparr>pf_protocol_version = 1, pf_validator_hotkey = ''v'', pf_miner_hotkey = ''m'',
    pf_netuid = 39, pf_round_id = 7, pf_issued_at_ms = 1000, pf_expires_at_ms = 61000,
    pf_n_vars = 3, pf_n_clauses = 1, pf_cnf_sha256 = sha256_hex []\<rparr>"
  let ?d = "\<lambda>payload. challenge_dict \<lparr>ch_protocol_version = 1, ch_challenge_id = challenge_commitment ?f,
    ch_validator_hotkey = ''v'', ch_miner_hotkey = ''m'', ch_netuid = 39, ch_round_id = 7,
    ch_issued_at_ms = 1000, ch_expires_at_ms = 61000, ch_n_vars = 3, ch_n_clauses = 1,
    ch_cnf_b64 = payload, ch_cnf_sha256 = sha256_hex []\<rparr>"
  have f: "challenge_public_fields (?d payload) = Inr ?f" for payload unfolding public_fields_of_challenge by simp
  have v: "validate_challenge_envelope (?d payload) 2000 None None = Inr ()" for payload
    unfolding validate_iff using f
    by (intro exI [of _ ?f]) (simp add: fields_ok_def PROTOCOL_VERSION_def other_than_def
        challenge_dict_def jget_def py_str_def)
  have id: "py_str (jget (?d []) ''challenge_id'') = py_str (jget (?d ''AA=='') ''challenge_id'')"
    by (simp add: challenge_dict_def jget_def)
  have "fields_fit ?f" by (simp add: fields_fit_def int_fits_word)
  from envelope_id_binds [OF v v f f id this this]
  have "?f = ?f \<or> sha_collision (commitment_message ?f) (commitment_message ?f)" .
  moreover have "?d [] \<noteq> ?d ''AA==''" by (simp add: challenge_dict_def)
  ultimately show ?thesis using v f by blast
qed

end
