(* ===== verification/Core_Scores.thy ===== *)
theory Core_Scores
  imports Core_Challenge
begin

text \<open>
  \<open>cathedral_thin/core.py\<close>, scoring: the grade of one response, the moving average over
  rounds, the gate that makes current verified work a prerequisite, and the weights that
  collapse the hotkeys of one coldkey. Floats are binary64 throughout. The lemmas show that
  every score and weight stays in the unit interval and that only verified work earns one.
\<close>

type_synonym score_map = "(string \<times> pyfloat) list"

section \<open>Grading a response\<close>

definition grade_response ::
  "challenge \<Rightarrow> cnf \<Rightarrow> string \<Rightarrow> string \<Rightarrow> string \<Rightarrow> pyfloat \<Rightarrow> int \<Rightarrow> pyfloat \<Rightarrow> pyfloat
     \<Rightarrow> (pyfloat \<times> string) res" where
  "grade_response ch c response_challenge_id response_miner_hotkey assignment_b64 observed_ms
     received_at_ms reference_ms correctness_share =
     (if response_challenge_id \<noteq> ch_challenge_id ch then Inr (Fin 0, ''challenge_mismatch'')
      else if response_miner_hotkey \<noteq> ch_miner_hotkey ch then Inr (Fin 0, ''miner_identity_mismatch'')
      else if received_at_ms > ch_expires_at_ms ch then Inr (Fin 0, ''expired'')
      else if \<not> isfinite observed_ms \<or> f_less observed_ms (Fin 0) then Inr (Fin 0, ''invalid_observed_time'')
      else
        guardE (\<not> isfinite reference_ms \<or> f_le reference_ms (Fin 0))
          ''reference_ms must be finite and positive''
        (guardE (\<not> (f_le (Fin 0) correctness_share \<and> f_le correctness_share (Fin 1)))
          ''correctness_share must be in [0,1]''
        (case decode_assignment assignment_b64 (cnf_n_vars c) of
           Inl (ThinSubnetError msg) \<Rightarrow> Inr (Fin 0, msg)
         | Inl e \<Rightarrow> Inl e
         | Inr assignment \<Rightarrow>
             bindE (verify_witness c (map LInt assignment)) (\<lambda>ok.
               if \<not> ok then Inr (Fin 0, ''witness_failed'')
               else
                 bindE (f_div reference_ms (f_add reference_ms observed_ms)) (\<lambda>speed.
                   let score = f_add correctness_share (f_mul (f_sub (Fin 1) correctness_share) speed)
                   in Inr (f_round (f_max (Fin 0) (f_min (Fin 1) score)) 9, ''verified''))))))"

section \<open>The moving average and the eligibility gate\<close>

definition score_get :: "score_map \<Rightarrow> string \<Rightarrow> pyfloat" where
  "score_get m k = (case map_of m k of None \<Rightarrow> Fin 0 | Some v \<Rightarrow> v)"

definition ema_entry :: "score_map \<Rightarrow> score_map \<Rightarrow> pyfloat \<Rightarrow> string \<Rightarrow> (string \<times> pyfloat) res" where
  "ema_entry previous observations alpha hotkey =
     (let old = score_get previous hotkey; new = score_get observations hotkey in
      guardE (\<not> isfinite old \<or> f_less old (Fin 0) \<or> \<not> isfinite new \<or> f_less new (Fin 0))
        ''EMA input must be finite and non-negative''
        (Inr (hotkey, f_round (f_add (f_mul (f_sub (Fin 1) alpha) old) (f_mul alpha new)) 12)))"

definition update_ema :: "score_map \<Rightarrow> score_map \<Rightarrow> string list \<Rightarrow> pyfloat \<Rightarrow> score_map res" where
  "update_ema previous observations current_hotkeys alpha =
     guardE (\<not> isfinite alpha \<or> \<not> (f_less (Fin 0) alpha \<and> f_le alpha (Fin 1)))
       ''EMA alpha must be in (0,1]''
       (mapE (ema_entry previous observations alpha) (sorted_list_of_set (set current_hotkeys)))"

definition gate_scores_by_current_verification :: "score_map \<Rightarrow> score_map \<Rightarrow> score_map res" where
  "gate_scores_by_current_verification ema_scores observations =
     mapE (\<lambda>(hotkey, ema).
        let observation = score_get observations hotkey in
        guardE (\<not> isfinite ema \<or> f_less ema (Fin 0) \<or> \<not> isfinite observation
            \<or> f_less observation (Fin 0))
          ''eligibility scores must be finite and non-negative''
          (Inr (hotkey, if f_less (Fin 0) observation then ema else Fin 0)))
      (sort_items ema_scores)"

section \<open>Collapsing the hotkeys of a coldkey\<close>

type_synonym groups = "(string \<times> score_map) list"

definition group_add :: "groups \<Rightarrow> string \<Rightarrow> string \<Rightarrow> pyfloat \<Rightarrow> groups" where
  "group_add gs coldkey hotkey score =
     dict_set coldkey ((case map_of gs coldkey of None \<Rightarrow> [] | Some ms \<Rightarrow> ms) @ [(hotkey, score)]) gs"

definition collect_groups :: "score_map \<Rightarrow> (string \<times> string) list \<Rightarrow> groups res" where
  "collect_groups scores coldkey_of =
     foldE (\<lambda>gs (hotkey, score).
       guardE (\<not> isfinite score \<or> f_less score (Fin 0)) ''score must be finite and non-negative''
       (case map_of coldkey_of hotkey of
          None \<Rightarrow> raise (''missing coldkey for '' @ hotkey)
        | Some coldkey \<Rightarrow>
            guardE (coldkey = []) (''missing coldkey for '' @ hotkey)
              (Inr (if f_less (Fin 0) score then group_add gs coldkey hotkey score else gs))))
     [] (sort_items scores)"

text \<open>\<open>max(score for _, score in members)\<close> of a non-empty group.\<close>

definition group_budget :: "score_map \<Rightarrow> pyfloat" where
  "group_budget ms = (case map snd ms of [] \<Rightarrow> Fin 0 | s # ss \<Rightarrow> foldl f_max s ss)"

definition group_weights :: "pyfloat \<Rightarrow> score_map \<Rightarrow> score_map res" where
  "group_weights total_budget ms =
     (let group_total = f_sum (map snd ms) in
      bindE (f_div (group_budget ms) total_budget) (\<lambda>budget.
        mapE (\<lambda>(hotkey, score).
          bindE (f_div (f_mul budget score) group_total) (\<lambda>w. Inr (hotkey, w))) ms))"

definition coldkey_collapsed_weights :: "score_map \<Rightarrow> (string \<times> string) list \<Rightarrow> score_map res" where
  "coldkey_collapsed_weights scores coldkey_of =
     bindE (collect_groups scores coldkey_of) (\<lambda>gs.
       let total_budget = f_sum (map (\<lambda>g. group_budget (snd g)) gs) in
       if f_le total_budget (Fin 0) then Inr []
       else
         bindE (mapE (\<lambda>g. group_weights total_budget (snd g)) gs) (\<lambda>outs.
           let out = concat outs; norm = f_sum (map snd out) in
           if f_le norm (Fin 0) then Inr []
           else mapE (\<lambda>(hotkey, weight). bindE (f_div weight norm) (\<lambda>w. Inr (hotkey, w))) (sort_items out)))"

section \<open>Unit-interval arithmetic\<close>

definition unit_float :: "pyfloat \<Rightarrow> bool" where
  "unit_float x = (isfinite x \<and> 0 \<le> fval x \<and> fval x \<le> 1 \<and> float_ok x)"

lemma fl_rat_abs_1: "\<bar>r\<bar> \<le> 1 \<Longrightarrow> \<bar>fl_rat r\<bar> \<le> 1"
  using fl_rat_mono [of r 1] fl_rat_mono [of "-1" r] fl_rat_minus [of 1] by (auto simp: abs_le_iff)

lemma mk_float_unit:
  assumes "0 \<le> r" "r \<le> 1"
  shows "unit_float (mk_float neg r) \<and> fval (mk_float neg r) = fl_rat r"
proof -
  have "\<bar>fl_rat r\<bar> \<le> 1" using fl_rat_abs_1 [of r] assms by simp
  then have "\<bar>fl_rat r\<bar> < 2 ^ 1024" by (rule order.strict_trans1) simp
  then have "isfinite (mk_float neg r)" by (rule mk_float_finite)
  then show ?thesis
    using mk_float_fval mk_float_ok fl_rat_nonneg [OF assms(1)] fl_rat_le_1 [OF assms(2)]
    by (simp add: unit_float_def)
qed

lemma unit_isfinite: "unit_float x \<Longrightarrow> isfinite x"
  by (simp add: unit_float_def)

lemma f_le_fin: "isfinite x \<Longrightarrow> isfinite y \<Longrightarrow> f_le x y \<longleftrightarrow> fval x \<le> fval y"
  using finite_not_inf f_less_fin by (auto simp: f_le_def f_eq_def)

lemma unit_round: "unit_float x \<Longrightarrow> unit_float (f_round x nd)"
proof (cases "fval x = 0")
  case False
  assume x: "unit_float x"
  then have b: "0 \<le> fval x * 10 ^ nd" "fval x * 10 ^ nd \<le> of_int (10 ^ nd)" by (simp_all add: unit_float_def)
  have "0 \<le> round_half_even (fval x * 10 ^ nd)" using rhe_mono [OF b(1)] rhe_of_int [of 0] by simp
  moreover have "round_half_even (fval x * 10 ^ nd) \<le> 10 ^ nd" using rhe_mono [OF b(2)] rhe_of_int by metis
  then have "(of_int (round_half_even (fval x * 10 ^ nd)) :: rat) \<le> 10 ^ nd"
    by (metis of_int_le_iff of_int_numeral of_int_power)
  ultimately have "0 \<le> (of_int (round_half_even (fval x * 10 ^ nd)) :: rat) / 10 ^ nd"
    "(of_int (round_half_even (fval x * 10 ^ nd)) :: rat) / 10 ^ nd \<le> 1" by simp_all
  then show ?thesis using mk_float_unit x False by (simp add: f_round_def unit_isfinite)
qed (simp add: f_round_def)

lemma unit_clamp:
  assumes "x \<noteq> NaN" "float_ok x"
  shows "unit_float (f_max (Fin 0) (f_min (Fin 1) x))"
proof (cases x)
  case (Fin r)
  then show ?thesis using assms(2)
    by (auto simp: f_max_def f_min_def f_less_def unit_float_def float_ok_def)
qed (use assms in \<open>auto simp: f_max_def f_min_def f_less_def unit_float_def float_ok_def\<close>)

lemma f_sub_unit: "unit_float a \<Longrightarrow> unit_float (f_sub (Fin 1) a) \<and> fval (f_sub (Fin 1) a) = fl_rat (1 - fval a)"
proof -
  assume a: "unit_float a"
  have "isfinite (f_neg a)" "fval (f_neg a) = - fval a"
    using a by (cases a; simp add: f_neg_def unit_float_def)+
  then have "f_sub (Fin 1) a = mk_float (is_neg (Fin 1) \<and> is_neg (f_neg a)) (1 - fval a)"
    by (simp add: f_sub_def f_add_fin)
  then show ?thesis using a mk_float_unit [of "1 - fval a"] by (simp add: unit_float_def [of a])
qed

lemma f_mul_unit: "unit_float a \<Longrightarrow> unit_float b \<Longrightarrow>
    unit_float (f_mul a b) \<and> fval (f_mul a b) = fl_rat (fval a * fval b)"
proof -
  assume ab: "unit_float a" "unit_float b"
  then have "f_mul a b = mk_float (is_neg a \<noteq> is_neg b) (fval a * fval b)"
    by (simp add: f_mul_fin unit_isfinite)
  then show ?thesis using ab mk_float_unit [of "fval a * fval b"]
    by (simp add: unit_float_def [of a] unit_float_def [of b] mult_le_one)
qed

lemma fl_exact: "float_ok x \<Longrightarrow> isfinite x \<Longrightarrow> fl_rat (fval x) = fval x"
  by (cases x) (auto simp: float_ok_def)

lemma f_div_unit:
  assumes "isfinite x" "isfinite y" "0 \<le> fval x" "fval x \<le> fval y" "0 < fval y"
  shows "\<exists>w. f_div x y = Inr w \<and> unit_float w"
proof -
  have "0 \<le> fval x / fval y" "fval x / fval y \<le> 1" using assms by simp_all
  then show ?thesis using mk_float_unit assms finite_not_inf by (simp add: f_div_def)
qed

lemma ema_step_unit:
  assumes "unit_float alpha" "0 < fval alpha" "unit_float old" "unit_float new"
  shows "unit_float (f_round (f_add (f_mul (f_sub (Fin 1) alpha) old) (f_mul alpha new)) nd)"
proof -
  let ?a = "fval alpha" and ?c = "fl_rat (1 - fval alpha)"
  let ?x = "f_mul (f_sub (Fin 1) alpha) old" and ?y = "f_mul alpha new"
  have c: "unit_float (f_sub (Fin 1) alpha)" "fval (f_sub (Fin 1) alpha) = ?c" using f_sub_unit assms(1) by auto
  have x: "unit_float ?x" "fval ?x = fl_rat (?c * fval old)" using f_mul_unit [OF c(1) assms(3)] c(2) by auto
  have y: "unit_float ?y" "fval ?y = fl_rat (?a * fval new)" using f_mul_unit [OF assms(1,4)] by auto
  have "?c * fval old \<le> ?c" "?a * fval new \<le> ?a"
    using assms c(1) by (simp_all add: unit_float_def mult_left_le c(2))
  from this [THEN fl_rat_mono] have "fval ?x \<le> fl_rat ?c" "fval ?y \<le> fl_rat ?a" unfolding x y .
  then have le: "fval ?x \<le> ?c" "fval ?y \<le> ?a" using fl_exact [of alpha] assms(1) by (simp_all add: unit_float_def)
  have "?c \<le> 1 - ?a + 1 / 2 ^ 54"
  proof (cases "?a = 1")
    case False
    then have "0 < 1 - ?a" "1 - ?a < 1" using assms(1,2) by (auto simp: unit_float_def)
    then show ?thesis by (rule fl_rat_below_1)
  qed simp
  then have sum: "fval ?x + fval ?y \<le> 1 + 1 / 2 ^ 53" using le by simp
  have "0 \<le> fval ?x + fval ?y" using x(1) y(1) by (simp add: unit_float_def)
  then have rng: "0 \<le> fl_rat (fval ?x + fval ?y)" "fl_rat (fval ?x + fval ?y) \<le> 1"
    using fl_rat_nonneg fl_rat_above_1 [OF sum] by auto
  then have "\<bar>fl_rat (fval ?x + fval ?y)\<bar> < 2 ^ 1024" by (simp add: order.strict_trans1)
  then have "isfinite (mk_float neg (fval ?x + fval ?y))" for neg by (rule mk_float_finite)
  then have "unit_float (f_add ?x ?y)"
    using rng mk_float_ok mk_float_fval x(1) y(1) by (simp add: f_add_fin unit_float_def)
  then show ?thesis by (rule unit_round)
qed

lemma score_get_unit: "\<forall>v \<in> snd ` set m. unit_float v \<Longrightarrow> unit_float (score_get m k)"
proof (cases "map_of m k")
  case (Some v)
  assume "\<forall>v \<in> snd ` set m. unit_float v"
  then show ?thesis using map_of_SomeD [OF Some] by (force simp: score_get_def Some)
qed (simp add: score_get_def unit_float_def float_ok_def)

lemma mapE_fst: "(\<And>x y. f x = Inr y \<Longrightarrow> fst y = x) \<Longrightarrow> mapE f xs = Inr ys \<Longrightarrow> map fst ys = xs"
  by (induction xs arbitrary: ys) (auto elim!: bindE_InrE)

lemma update_ema_keys: "update_ema prev obs hks alpha = Inr out \<Longrightarrow> map fst out = sorted_list_of_set (set hks)"
  unfolding update_ema_def
  by (elim guardE_InrE, rule mapE_fst [of "ema_entry prev obs alpha"])
    (auto simp: ema_entry_def Let_def elim!: guardE_InrE)

lemma mapE_total: "(\<And>x. x \<in> set xs \<Longrightarrow> \<exists>y. f x = Inr y \<and> P y) \<Longrightarrow> \<exists>ys. mapE f xs = Inr ys \<and> (\<forall>y \<in> set ys. P y)"
proof (induction xs)
  case (Cons x xs)
  obtain y ys where "f x = Inr y" "P y" "mapE f xs = Inr ys" "\<forall>y \<in> set ys. P y"
    using Cons by (meson list.set_intros)
  then show ?case by simp
qed simp

lemma unit_not_bad: "unit_float x \<Longrightarrow> isfinite x \<and> \<not> f_less x (Fin 0)"
  by (simp add: unit_float_def f_less_fin)

lemma update_ema_unit:
  assumes "\<forall>v \<in> snd ` set prev. unit_float v" "\<forall>v \<in> snd ` set obs. unit_float v"
    and "unit_float alpha" "0 < fval alpha"
  shows "\<exists>out. update_ema prev obs hks alpha = Inr out \<and> (\<forall>v \<in> snd ` set out. unit_float v)"
proof -
  have a: "isfinite alpha" "f_less (Fin 0) alpha" "f_le alpha (Fin 1)"
    using assms(3,4) by (simp_all add: unit_float_def f_less_fin f_le_fin)
  have g: "unit_float (score_get prev h)" "unit_float (score_get obs h)" for h
    using score_get_unit assms(1,2) by blast+
  have "\<exists>ys. mapE (ema_entry prev obs alpha) (sorted_list_of_set (set hks)) = Inr ys \<and>
      (\<forall>y \<in> set ys. unit_float (snd y))"
    using g ema_step_unit [OF assms(3,4)] unit_not_bad by (intro mapE_total) (simp add: ema_entry_def)
  then show ?thesis using a by (auto simp: update_ema_def)
qed

section \<open>The grade\<close>

text \<open>A sum of non-negative terms: a finite value or positive infinity.\<close>

definition ext_nonneg :: "pyfloat \<Rightarrow> bool" where
  "ext_nonneg s = (s = PosInf \<or> (isfinite s \<and> 0 \<le> fval s \<and> float_ok s))"

definition bounds_above :: "pyfloat \<Rightarrow> pyfloat \<Rightarrow> bool" where
  "bounds_above s x = (s = PosInf \<or> (isfinite s \<and> fval x \<le> fval s))"

lemma mk_float_cases:
  "0 \<le> r \<Longrightarrow> mk_float neg r = PosInf \<or> (isfinite (mk_float neg r) \<and> fval (mk_float neg r) = fl_rat r)"
  using fl_rat_nonneg [of r] by (auto simp: mk_float_def Let_def)

lemma ext_add:
  assumes "ext_nonneg s" "isfinite x" "0 \<le> fval x" "float_ok x"
  shows "ext_nonneg (f_add s x)" "bounds_above (f_add s x) x"
    "bounds_above s y \<Longrightarrow> bounds_above (f_add s x) y"
proof -
  have inf: "f_add PosInf x = PosInf" using assms(2) finite_not_inf by (simp add: f_add_def is_inf_def)
  have "ext_nonneg (f_add s x) \<and> bounds_above (f_add s x) x \<and> (bounds_above s y \<longrightarrow> bounds_above (f_add s x) y)"
  proof (cases "s = PosInf")
    case False
    then have s: "isfinite s" "0 \<le> fval s" "float_ok s" using assms(1) by (auto simp: ext_nonneg_def)
    let ?r = "fval s + fval x"
    have "fl_rat (fval x) \<le> fl_rat ?r" "fl_rat (fval s) \<le> fl_rat ?r"
      using s assms by (auto intro: fl_rat_mono)
    then have ge: "fval x \<le> fl_rat ?r" "fval s \<le> fl_rat ?r"
      using fl_exact s assms by simp_all
    have r: "0 \<le> ?r" using s assms by simp
    from mk_float_cases [OF r] mk_float_ok ge fl_rat_nonneg [OF r] show ?thesis
      using s assms(2) by (force simp: f_add_fin ext_nonneg_def bounds_above_def)
  qed (simp add: inf ext_nonneg_def bounds_above_def)
  then show "ext_nonneg (f_add s x)" "bounds_above (f_add s x) x"
    "bounds_above s y \<Longrightarrow> bounds_above (f_add s x) y" by blast+
qed

lemma div_bounded:
  assumes "isfinite x" "0 \<le> fval x" "bounds_above s x" "s = PosInf \<or> 0 < fval s"
  shows "\<exists>w. f_div x s = Inr w \<and> unit_float w \<and> fval w = (if s = PosInf then 0 else fl_rat (fval x / fval s))"
proof (cases "s = PosInf")
  case True
  then show ?thesis using finite_not_inf [OF assms(1)] mk_float_unit [of 0]
    by (simp add: f_div_def is_inf_def)
next
  case False
  then have s: "isfinite s" "fval x \<le> fval s" "0 < fval s" using assms by (auto simp: bounds_above_def)
  then have "0 \<le> fval x / fval s" "fval x / fval s \<le> 1" using assms by simp_all
  then show ?thesis using mk_float_unit finite_not_inf assms(1) s False by (simp add: f_div_def)
qed

definition positive_float :: "pyfloat \<Rightarrow> bool" where
  "positive_float x = (isfinite x \<and> 0 < fval x \<and> float_ok x)"

definition elapsed_float :: "pyfloat \<Rightarrow> bool" where
  "elapsed_float x = (isfinite x \<and> 0 \<le> fval x \<and> float_ok x)"

lemma speed_unit:
  assumes "positive_float r" "elapsed_float ob"
  shows "\<exists>w. f_div r (f_add r ob) = Inr w \<and> unit_float w \<and>
    fval w = (if f_add r ob = PosInf then 0 else fl_rat (fval r / fval (f_add r ob)))"
proof -
  have r: "ext_nonneg r" "isfinite r" "0 < fval r" "bounds_above r r"
    using assms(1) by (auto simp: positive_float_def ext_nonneg_def bounds_above_def)
  have ob: "isfinite ob" "0 \<le> fval ob" "float_ok ob" using assms(2) by (auto simp: elapsed_float_def)
  have b: "bounds_above (f_add r ob) r" by (rule ext_add(3) [OF r(1) ob r(4)])
  have "f_add r ob = PosInf \<or> 0 < fval (f_add r ob)" using b r(3) by (auto simp: bounds_above_def)
  then show ?thesis using div_bounded [OF r(2) _ b] r(3) by simp
qed

lemma speed_antimono:
  assumes "positive_float r" "elapsed_float o1" "elapsed_float o2" "fval o1 \<le> fval o2"
    and "f_div r (f_add r o1) = Inr w1" "f_div r (f_add r o2) = Inr w2"
  shows "fval w2 \<le> fval w1"
proof -
  have w: "unit_float w1" "fval w1 = (if f_add r o1 = PosInf then 0 else fl_rat (fval r / fval (f_add r o1)))"
      "fval w2 = (if f_add r o2 = PosInf then 0 else fl_rat (fval r / fval (f_add r o2)))"
    using speed_unit [OF assms(1,2)] speed_unit [OF assms(1,3)] assms(5,6) by auto
  have fin: "isfinite r" "0 < fval r" "float_ok r" "isfinite o1" "isfinite o2" "0 \<le> fval o1"
    using assms(1-3) by (auto simp: positive_float_def elapsed_float_def)
  have mono: "fl_rat (fval r + fval o1) \<le> fl_rat (fval r + fval o2)" using assms(4) by (intro fl_rat_mono) simp
  have pos: "0 < fl_rat (fval r + fval o1)"
    using fl_rat_mono [of "fval r" "fval r + fval o1"] fl_exact [OF fin(3,1)] fin by simp
  have sum: "f_add r o1 = mk_float (is_neg r \<and> is_neg o1) (fval r + fval o1)"
    "f_add r o2 = mk_float (is_neg r \<and> is_neg o2) (fval r + fval o2)" using fin by (simp_all add: f_add_fin)
  show ?thesis
  proof (cases "f_add r o2 = PosInf")
    case True
    then show ?thesis using w by (simp add: unit_float_def)
  next
    case False
    then have f2: "fval (f_add r o2) = fl_rat (fval r + fval o2)"
      using mk_float_cases [of "fval r + fval o2"] fin assms(4) unfolding sum by force
    have "fl_rat (fval r + fval o2) < 2 ^ 1024"
      using False pos mono unfolding sum by (auto simp: mk_float_def Let_def split: if_splits)
    then have "\<bar>fl_rat (fval r + fval o1)\<bar> < 2 ^ 1024" using mono pos by simp
    then have f1: "isfinite (f_add r o1)" "fval (f_add r o1) = fl_rat (fval r + fval o1)"
      unfolding sum using mk_float_finite mk_float_fval by blast+
    have "fval r / fval (f_add r o2) \<le> fval r / fval (f_add r o1)"
      unfolding f1 f2 using mono pos fin by (intro divide_left_mono) auto
    then show ?thesis using w f1(1) False fl_rat_mono by auto
  qed
qed

definition final_score :: "pyfloat \<Rightarrow> pyfloat \<Rightarrow> pyfloat" where
  "final_score share speed =
     f_round (f_max (Fin 0) (f_min (Fin 1) (f_add share (f_mul (f_sub (Fin 1) share) speed)))) 9"

lemma round_unit_fval: "unit_float x \<Longrightarrow>
    fval (f_round x nd) = fl_rat (of_int (round_half_even (fval x * 10 ^ nd)) / 10 ^ nd)"
proof (cases "fval x = 0")
  case True
  then show ?thesis using rhe_of_int [of 0] by (simp add: f_round_def)
next
  case False
  assume x: "unit_float x"
  have "unit_float (f_round x nd)" using unit_round [OF x] .
  then show ?thesis using x False mk_float_fval by (simp add: f_round_def unit_float_def)
qed

lemma round_mono: "unit_float x \<Longrightarrow> unit_float y \<Longrightarrow> fval x \<le> fval y \<Longrightarrow> fval (f_round x nd) \<le> fval (f_round y nd)"
  unfolding round_unit_fval by (intro fl_rat_mono divide_right_mono) (simp_all add: rhe_mono)

lemma clamp_fval:
  "isfinite x \<Longrightarrow> fval (f_max (Fin 0) (f_min (Fin 1) x)) = max 0 (min 1 (fval x))"
  by (auto simp: f_max_def f_min_def f_less_fin max_def min_def)

lemma score_sum:
  assumes "unit_float share" "unit_float speed"
  shows "isfinite (f_add share (f_mul (f_sub (Fin 1) share) speed)) \<and>
    fval (f_add share (f_mul (f_sub (Fin 1) share) speed))
      = fl_rat (fval share + fl_rat (fl_rat (1 - fval share) * fval speed))"
proof -
  let ?m = "f_mul (f_sub (Fin 1) share) speed"
  have m: "unit_float ?m" "fval ?m = fl_rat (fl_rat (1 - fval share) * fval speed)"
    using f_mul_unit [OF _ assms(2)] f_sub_unit [OF assms(1)] by auto
  have "0 \<le> fval share + fval ?m" "fval share + fval ?m \<le> 2" using m(1) assms(1) by (simp_all add: unit_float_def)
  then have "0 \<le> fl_rat (fval share + fval ?m)" "fl_rat (fval share + fval ?m) \<le> fl_rat (of_int 2)"
    by (auto intro: fl_rat_mono fl_rat_nonneg)
  then have "\<bar>fl_rat (fval share + fval ?m)\<bar> < 2 ^ 1024" using fl_rat_int [of 2] by simp
  then show ?thesis using m assms(1) mk_float_finite mk_float_fval by (simp add: f_add_fin unit_isfinite)
qed

lemma score_sum_ok:
  assumes "unit_float share" "unit_float speed"
  shows "float_ok (f_add share (f_mul (f_sub (Fin 1) share) speed))"
    "f_add share (f_mul (f_sub (Fin 1) share) speed) \<noteq> NaN"
proof -
  show "float_ok (f_add share (f_mul (f_sub (Fin 1) share) speed))"
    using mk_float_ok assms f_mul_unit f_sub_unit by (auto simp: f_add_fin unit_isfinite)
  show "f_add share (f_mul (f_sub (Fin 1) share) speed) \<noteq> NaN"
    using score_sum [OF assms] by (auto simp del: fval_simps)
qed

lemma final_score_unit: "unit_float share \<Longrightarrow> unit_float speed \<Longrightarrow> unit_float (final_score share speed)"
  unfolding final_score_def by (intro unit_round unit_clamp score_sum_ok)

lemma final_score_mono:
  assumes "unit_float share" "unit_float v" "unit_float w" "fval v \<le> fval w"
  shows "fval (final_score share v) \<le> fval (final_score share w)"
proof -
  let ?s = "\<lambda>v. f_add share (f_mul (f_sub (Fin 1) share) v)"
  have "0 \<le> fl_rat (1 - fval share)" using assms(1) by (intro fl_rat_nonneg) (simp add: unit_float_def)
  then have "fval (?s v) \<le> fval (?s w)" using score_sum assms
    by (auto intro!: fl_rat_mono mult_left_mono)
  then have le: "fval (f_max (Fin 0) (f_min (Fin 1) (?s v))) \<le> fval (f_max (Fin 0) (f_min (Fin 1) (?s w)))"
    using score_sum assms by (simp add: clamp_fval)
  show ?thesis unfolding final_score_def
    by (intro round_mono unit_clamp score_sum_ok assms le)
qed

lemma final_score_ge_share:
  assumes "unit_float share" "unit_float v"
  shows "fval (f_round share 9) \<le> fval (final_score share v)"
proof -
  let ?s = "f_add share (f_mul (f_sub (Fin 1) share) v)"
  have s: "isfinite ?s" "fval ?s = fl_rat (fval share + fl_rat (fl_rat (1 - fval share) * fval v))"
    using score_sum [OF assms] by auto
  have "0 \<le> fl_rat (fl_rat (1 - fval share) * fval v)"
    using assms by (intro fl_rat_nonneg mult_nonneg_nonneg) (simp_all add: unit_float_def)
  then have "fl_rat (fval share) \<le> fval ?s" unfolding s by (intro fl_rat_mono) simp
  then have "fval share \<le> fval ?s" using fl_exact assms(1) by (simp add: unit_float_def)
  then have "fval share \<le> fval (f_max (Fin 0) (f_min (Fin 1) ?s))"
    using s assms(1) by (simp add: clamp_fval unit_float_def)
  then show ?thesis unfolding final_score_def
    by (intro round_mono unit_clamp score_sum_ok assms)
qed

lemma model_of_decoded:
  assumes "cnf_wf c" "0 \<le> cnf_n_vars c" "verify_witness c (map LInt ls) = Inr True"
  shows "is_model c ls"
proof -
  obtain ms where "map LInt ls = map LInt ms" "is_model c ms"
    using assms verify_witness_iff [OF assms(1,2)] by auto
  moreover have "inj LInt" by (simp add: inj_def)
  ultimately show ?thesis by (simp add: inj_map_eq_map)
qed

lemma f_le_fin0: "isfinite x \<Longrightarrow> f_le x (Fin 0) \<longleftrightarrow> fval x \<le> 0"
  by (simp add: f_le_fin)

lemma share_unit: "float_ok x \<Longrightarrow> f_le (Fin 0) x \<Longrightarrow> f_le x (Fin 1) \<Longrightarrow> unit_float x"
  by (cases x) (auto simp: unit_float_def f_le_def f_less_def f_eq_def is_inf_def)

text \<open>The outcomes of a grade: a zero with a reason, or a verified model and its score.\<close>

lemma grade_cases:
  assumes "grade_response ch c rid rmh b64 ob rcv ref share = Inr (s, reason)"
    and ok: "cnf_wf c" "0 \<le> cnf_n_vars c" "float_ok ob" "float_ok ref" "float_ok share"
  shows "s = Fin 0 \<or>
    (rid = ch_challenge_id ch \<and> rmh = ch_miner_hotkey ch \<and> rcv \<le> ch_expires_at_ms ch \<and>
     reason = ''verified'' \<and> positive_float ref \<and> elapsed_float ob \<and> unit_float share \<and>
     (\<exists>ls w. decode_assignment b64 (cnf_n_vars c) = Inr ls \<and> is_model c ls \<and>
        f_div ref (f_add ref ob) = Inr w \<and> unit_float w \<and> s = final_score share w))"
proof (cases "s = Fin 0")
  case False
  note g = assms(1)[unfolded grade_response_def]
  have ids: "rid = ch_challenge_id ch" "rmh = ch_miner_hotkey ch" "rcv \<le> ch_expires_at_ms ch"
    "isfinite ob" "\<not> f_less ob (Fin 0)"
    using g False by (auto split: if_split_asm)
  have ref: "isfinite ref" "\<not> f_le ref (Fin 0)" "f_le (Fin 0) share" "f_le share (Fin 1)"
    using g False ids by (auto simp: guardE_def split: if_split_asm)
  obtain ls where ls: "decode_assignment b64 (cnf_n_vars c) = Inr ls"
    using g False ids ref by (cases "decode_assignment b64 (cnf_n_vars c)") (auto split: py_error.splits)
  have n: "(if rid \<noteq> ch_challenge_id ch then A else B) = B"
    "(if rmh \<noteq> ch_miner_hotkey ch then A else B) = B"
    "(if rcv > ch_expires_at_ms ch then A else B) = B"
    "(if \<not> isfinite ob \<or> f_less ob (Fin 0) then A else B) = B"
    "guardE (\<not> isfinite ref \<or> f_le ref (Fin 0)) m B = B"
    "guardE (\<not> (f_le (Fin 0) share \<and> f_le share (Fin 1))) m B = B"
    for A B :: "(pyfloat \<times> string) res" and m using ids ref by simp_all
  have p: "positive_float ref" "elapsed_float ob" "unit_float share"
    using ids ref ok share_unit by (auto simp: positive_float_def elapsed_float_def f_le_fin0 f_less_fin)
  obtain w where w: "f_div ref (f_add ref ob) = Inr w" "unit_float w" using speed_unit [OF p(1,2)] by blast
  have v: "verify_witness c (map LInt ls) = Inr True" "reason = ''verified''" "s = final_score share w"
    using g [unfolded n ls] w(1) False by (auto simp: final_score_def Let_def elim!: bindE_InrE split: if_split_asm)
  show ?thesis using ids p ls w v model_of_decoded [OF ok(1,2) v(1)] by auto
qed simp

lemma grade_complete:
  assumes "rid = ch_challenge_id ch" "rmh = ch_miner_hotkey ch" "rcv \<le> ch_expires_at_ms ch"
    and "positive_float ref" "elapsed_float ob" "unit_float share"
    and "decode_assignment b64 (cnf_n_vars c) = Inr ls" "is_model c ls"
    and "cnf_wf c" "0 \<le> cnf_n_vars c" "f_div ref (f_add ref ob) = Inr w"
  shows "grade_response ch c rid rmh b64 ob rcv ref share = Inr (final_score share w, ''verified'')"
proof -
  have "verify_witness c (map LInt ls) = Inr True" using verify_witness_iff assms(8-10) by auto
  moreover have "isfinite ob \<and> \<not> f_less ob (Fin 0) \<and> isfinite ref \<and> \<not> f_le ref (Fin 0) \<and>
      f_le (Fin 0) share \<and> f_le share (Fin 1)"
    using assms(4-6) by (auto simp: positive_float_def elapsed_float_def unit_float_def f_less_fin f_le_fin)
  ultimately show ?thesis using assms(1-3,7,11)
    by (simp add: grade_response_def guardE_def final_score_def Let_def)
qed

section \<open>The collapsed weights\<close>

definition score_ok :: "pyfloat \<Rightarrow> bool" where
  "score_ok x = (isfinite x \<and> 0 \<le> fval x \<and> float_ok x)"

lemma sum_bounds:
  assumes "\<forall>x \<in> set xs. score_ok x"
  shows "ext_nonneg (f_sum xs) \<and> (\<forall>x \<in> set xs. bounds_above (f_sum xs) x)"
proof -
  have "ext_nonneg (foldl f_add s xs) \<and> (\<forall>x \<in> set xs. bounds_above (foldl f_add s xs) x) \<and>
      (\<forall>y. bounds_above s y \<longrightarrow> bounds_above (foldl f_add s xs) y)"
    if "ext_nonneg s" "\<forall>x \<in> set xs. score_ok x" for s
    using that
  proof (induction xs arbitrary: s)
    case (Cons x xs)
    then have x: "isfinite x" "0 \<le> fval x" "float_ok x" by (auto simp: score_ok_def)
    note e = ext_add [OF Cons.prems(1) x]
    from Cons.IH [OF e(1)] Cons.prems(2) e(2,3) show ?case by auto
  qed simp
  moreover have "ext_nonneg (Fin 0)" by (simp add: ext_nonneg_def float_ok_def)
  ultimately show ?thesis using assms unfolding f_sum_def by blast
qed

definition member_ok :: "string \<times> pyfloat \<Rightarrow> bool" where
  "member_ok m = (score_ok (snd m) \<and> 0 < fval (snd m))"

definition groups_ok :: "score_map \<Rightarrow> groups \<Rightarrow> bool" where
  "groups_ok scores gs = (\<forall>(ck, ms) \<in> set gs. ms \<noteq> [] \<and> (\<forall>m \<in> set ms. member_ok m \<and> m \<in> set scores))"

lemma group_add_ok:
  assumes "groups_ok scores gs" "member_ok (h, s)" "(h, s) \<in> set scores"
  shows "groups_ok scores (group_add gs ck h s)"
proof -
  let ?old = "case map_of gs ck of None \<Rightarrow> [] | Some ms \<Rightarrow> ms"
  have "\<forall>m \<in> set ?old. member_ok m \<and> m \<in> set scores"
    using assms(1) by (cases "map_of gs ck") (auto simp: groups_ok_def dest!: map_of_SomeD)
  then have new: "\<forall>m \<in> set (?old @ [(h, s)]). member_ok m \<and> m \<in> set scores" using assms(2,3) by simp
  show ?thesis unfolding groups_ok_def group_add_def
  proof
    fix g assume "g \<in> set (dict_set ck (?old @ [(h, s)]) gs)"
    then consider "g = (ck, ?old @ [(h, s)])" | "g \<in> set gs" using in_dict_setD by metis
    then show "case g of (ck, ms) \<Rightarrow> ms \<noteq> [] \<and> (\<forall>m \<in> set ms. member_ok m \<and> m \<in> set scores)"
    proof cases
      case 1
      then show ?thesis using new by (simp only: prod.case) simp
    qed (use assms(1) in \<open>auto simp: groups_ok_def\<close>)
  qed
qed

lemma collect_groups_ok:
  assumes "collect_groups scores coldkey_of = Inr gs" "\<forall>v \<in> snd ` set scores. float_ok v"
  shows "groups_ok scores gs"
  using assms(1) unfolding collect_groups_def
proof (rule foldE_invariant)
  show "groups_ok scores []" by (simp add: groups_ok_def)
next
  fix gs x gs'
  assume x: "x \<in> set (sort_items scores)" and inv: "groups_ok scores gs"
    and step: "(\<lambda>(hotkey, score). guardE (\<not> isfinite score \<or> f_less score (Fin 0))
        ''score must be finite and non-negative''
       (case map_of coldkey_of hotkey of
          None \<Rightarrow> raise (''missing coldkey for '' @ hotkey)
        | Some coldkey \<Rightarrow>
            guardE (coldkey = []) (''missing coldkey for '' @ hotkey)
              (Inr (if f_less (Fin 0) score then group_add gs coldkey hotkey score else gs)))) x = Inr gs'"
  obtain h s where hs: "x = (h, s)" by (cases x)
  have mem: "(h, s) \<in> set scores" "float_ok s" using x assms(2) by (force simp: hs)+
  from step have fin: "isfinite s" "\<not> f_less s (Fin 0)" by (auto simp: hs elim!: guardE_InrE)
  from step obtain ck where gs': "gs' = (if f_less (Fin 0) s then group_add gs ck h s else gs)"
    by (cases "map_of coldkey_of h") (auto simp: hs elim!: guardE_InrE)
  have "f_less (Fin 0) s \<Longrightarrow> member_ok (h, s)"
    using fin mem by (simp add: member_ok_def score_ok_def f_less_fin)
  then show "groups_ok scores gs'" using inv group_add_ok mem(1) by (simp add: gs')
qed

lemma budget_ok:
  assumes "ms \<noteq> []" "\<forall>m \<in> set ms. member_ok m"
  shows "score_ok (group_budget ms) \<and> 0 < fval (group_budget ms)"
proof -
  have fold: "foldl f_max s ss \<in> set (s # ss)" for s ss
  proof (induction ss arbitrary: s)
    case (Cons t ss)
    have "f_max s t = s \<or> f_max s t = t" by (simp add: f_max_def)
    then show ?case using Cons.IH [of "f_max s t"] by auto
  qed simp
  obtain s ss where ss: "map snd ms = s # ss" using assms(1) by (cases ms) auto
  have "group_budget ms \<in> set (map snd ms)" using fold [of s ss] by (simp add: group_budget_def ss)
  then show ?thesis using assms(2) unfolding set_map by (auto simp: member_ok_def)
qed

lemma unit_times_bounded:
  assumes "unit_float b" "score_ok x"
  shows "score_ok (f_mul b x) \<and> fval (f_mul b x) \<le> fval x"
proof -
  have x: "isfinite x" "0 \<le> fval x" "float_ok x" using assms(2) by (auto simp: score_ok_def)
  have b: "isfinite b" "0 \<le> fval b" "fval b \<le> 1" using assms(1) by (auto simp: unit_float_def)
  have p: "0 \<le> fval b * fval x" "fval b * fval x \<le> fval x" using x b by (simp_all add: mult_left_le_one_le)
  then have le: "0 \<le> fl_rat (fval b * fval x)" "fl_rat (fval b * fval x) \<le> fval x"
    using fl_rat_nonneg fl_rat_mono [OF p(2)] fl_exact [OF x(3,1)] by auto
  have "fval x < 2 ^ 1024" using x by (cases x) (auto simp: float_ok_def)
  then have "isfinite (f_mul b x)" "fval (f_mul b x) = fl_rat (fval b * fval x)"
    using le mk_float_finite mk_float_fval x b by (auto simp: f_mul_fin abs_less_iff)
  then show ?thesis using le mk_float_ok x b by (simp add: score_ok_def f_mul_fin)
qed

lemma positive_total: "ext_nonneg t \<Longrightarrow> \<not> f_le t (Fin 0) \<Longrightarrow> t = PosInf \<or> 0 < fval t"
  by (auto simp: ext_nonneg_def f_le_fin0)

lemma bounds_trans: "bounds_above s x \<Longrightarrow> fval y \<le> fval x \<Longrightarrow> bounds_above s y"
  by (auto simp: bounds_above_def)

definition weight_from :: "score_map \<Rightarrow> string \<times> pyfloat \<Rightarrow> bool" where
  "weight_from scores hw = (unit_float (snd hw) \<and> (\<exists>s. (fst hw, s) \<in> set scores \<and> 0 < fval s))"

lemma group_weights_ok:
  assumes ms: "ms \<noteq> []" "\<forall>m \<in> set ms. member_ok m \<and> m \<in> set scores"
    and total: "bounds_above tb (group_budget ms)" "tb = PosInf \<or> 0 < fval tb"
  shows "\<exists>ws. group_weights tb ms = Inr ws \<and> (\<forall>hw \<in> set ws. weight_from scores hw)"
proof -
  have bud: "score_ok (group_budget ms)" using budget_ok ms by blast
  obtain b where b: "f_div (group_budget ms) tb = Inr b" "unit_float b"
    using div_bounded [OF _ _ total] bud by (auto simp: score_ok_def)
  let ?gt = "f_sum (map snd ms)"
  have gt: "ext_nonneg ?gt" "\<And>h s. (h, s) \<in> set ms \<Longrightarrow> bounds_above ?gt s"
    using sum_bounds [of "map snd ms"] ms(2) by (force simp: member_ok_def)+
  have "\<exists>hw. bindE (f_div (f_mul b s) ?gt) (\<lambda>w. Inr (h, w)) = Inr hw \<and> weight_from scores hw"
    if m: "(h, s) \<in> set ms" for h s
  proof -
    have s: "score_ok s" "0 < fval s" "(h, s) \<in> set scores" using ms(2) m by (auto simp: member_ok_def)
    note le = unit_times_bounded [OF b(2) s(1)]
    have "bounds_above ?gt (f_mul b s)" using bounds_trans gt(2) [OF m] le by blast
    moreover have "?gt = PosInf \<or> 0 < fval ?gt" using gt(2) [OF m] s(2) by (auto simp: bounds_above_def)
    ultimately obtain w where "f_div (f_mul b s) ?gt = Inr w" "unit_float w"
      using div_bounded [of "f_mul b s" ?gt] le by (auto simp: score_ok_def)
    then show ?thesis using s by (auto simp: weight_from_def)
  qed
  then have "\<exists>ws. mapE (\<lambda>(h, s). bindE (f_div (f_mul b s) ?gt) (\<lambda>w. Inr (h, w))) ms = Inr ws \<and>
      (\<forall>hw \<in> set ws. weight_from scores hw)"
    by (intro mapE_total) auto
  then show ?thesis by (simp add: group_weights_def b(1))
qed

lemma unit_score_ok: "unit_float w \<Longrightarrow> score_ok w"
  by (simp add: unit_float_def score_ok_def)

lemma collapsed_weights_ok:
  assumes gs: "collect_groups scores coldkey_of = Inr gs" and ok: "\<forall>v \<in> snd ` set scores. float_ok v"
  shows "\<exists>out. coldkey_collapsed_weights scores coldkey_of = Inr out \<and> (\<forall>hw \<in> set out. weight_from scores hw)"
proof -
  have g: "ms \<noteq> [] \<and> (\<forall>m \<in> set ms. member_ok m \<and> m \<in> set scores)" if "(ck, ms) \<in> set gs" for ck ms
    using collect_groups_ok [OF gs ok] that unfolding groups_ok_def by fast
  let ?total = "f_sum (map (\<lambda>g. group_budget (snd g)) gs)"
  have "\<forall>x \<in> set (map (\<lambda>g. group_budget (snd g)) gs). score_ok x"
    using budget_ok g by fastforce
  note total = sum_bounds [OF this]
  show ?thesis
  proof (cases "f_le ?total (Fin 0)")
    case True
    then show ?thesis by (simp add: coldkey_collapsed_weights_def gs)
  next
    case False
    then have pos: "?total = PosInf \<or> 0 < fval ?total" using positive_total total by blast
    have "\<exists>ws. group_weights ?total (snd g) = Inr ws \<and> (\<forall>hw \<in> set ws. weight_from scores hw)"
      if "g \<in> set gs" for g
      using that total g [of "fst g" "snd g"] by (intro group_weights_ok pos) auto
    then obtain outs where outs: "mapE (\<lambda>g. group_weights ?total (snd g)) gs = Inr outs"
      "\<forall>ws \<in> set outs. \<forall>hw \<in> set ws. weight_from scores hw"
      using mapE_total [of gs "\<lambda>g. group_weights ?total (snd g)" "\<lambda>ws. \<forall>hw \<in> set ws. weight_from scores hw"]
      by blast
    let ?out = "concat outs" and ?norm = "f_sum (map snd (concat outs))"
    have out: "\<forall>hw \<in> set ?out. weight_from scores hw" using outs(2) by auto
    then have "\<forall>x \<in> set (map snd ?out). score_ok x" using unit_score_ok by (force simp: weight_from_def)
    note norm = sum_bounds [OF this]
    show ?thesis
    proof (cases "f_le ?norm (Fin 0)")
      case True
      then show ?thesis using False outs(1) by (simp add: coldkey_collapsed_weights_def gs Let_def)
    next
      case nz: False
      then have npos: "?norm = PosInf \<or> 0 < fval ?norm" using positive_total norm by blast
      have "\<exists>y. (case hw of (h, w) \<Rightarrow> bindE (f_div w ?norm) (\<lambda>w. Inr (h, w))) = Inr y \<and> weight_from scores y"
        if "hw \<in> set (sort_items ?out)" for hw
      proof -
        obtain h w where hw: "hw = (h, w)" by (cases hw)
        have mem: "(h, w) \<in> set ?out" using that unfolding hw set_sort_items .
        then have w: "weight_from scores (h, w)" using out by blast
        have "w \<in> set (map snd ?out)" using imageI [OF mem, of snd] by (simp only: set_map snd_conv)
        then have "bounds_above ?norm w" using norm by blast
        then obtain v where "f_div w ?norm = Inr v" "unit_float v"
          using div_bounded [OF _ _ _ npos] w by (auto simp: weight_from_def unit_float_def)
        then show ?thesis using w by (auto simp: hw weight_from_def)
      qed
      then have "\<exists>ys. mapE (\<lambda>(h, w). bindE (f_div w ?norm) (\<lambda>w. Inr (h, w))) (sort_items ?out) = Inr ys \<and>
          (\<forall>y \<in> set ys. weight_from scores y)"
        by (rule mapE_total)
      then show ?thesis using False nz outs(1) by (simp add: coldkey_collapsed_weights_def gs Let_def)
    qed
  qed
qed

section \<open>Properties of the scores\<close>

text \<open>C7. Only verified work is graded above zero, and every grade lies in the unit interval:
  a positive grade means the response names this challenge and this miner, came before the
  expiry, and its payload decodes to a model of the formula; it is then at least the rounded
  correctness share.\<close>

theorem grade_only_verified_work:
  assumes "grade_response ch c rid rmh b64 ob rcv ref share = Inr (s, reason)"
    and "cnf_wf c" "0 \<le> cnf_n_vars c" "float_ok ob" "float_ok ref" "float_ok share"
  shows "unit_float s \<and> (s \<noteq> Fin 0 \<longrightarrow>
    rid = ch_challenge_id ch \<and> rmh = ch_miner_hotkey ch \<and> rcv \<le> ch_expires_at_ms ch \<and>
    (\<exists>ls. decode_assignment b64 (cnf_n_vars c) = Inr ls \<and> is_model c ls) \<and>
    fval (f_round share 9) \<le> fval s)"
proof -
  have "unit_float (Fin 0)" by (simp add: unit_float_def float_ok_def)
  with grade_cases [OF assms] show ?thesis
    using final_score_unit final_score_ge_share by auto
qed

definition demo_challenge :: challenge where
  "demo_challenge = \<lparr>ch_protocol_version = 1, ch_challenge_id = ''id'', ch_validator_hotkey = ''v'',
    ch_miner_hotkey = ''m'', ch_netuid = 39, ch_round_id = 7, ch_issued_at_ms = 1000,
    ch_expires_at_ms = 61000, ch_n_vars = 3, ch_n_clauses = 1, ch_cnf_b64 = [], ch_cnf_sha256 = []\<rparr>"

definition demo_formula :: cnf where
  "demo_formula = \<lparr>cnf_n_vars = 3, cnf_clauses = [(1, -2, 3)]\<rparr>"

lemma demo_formula_wf: "cnf_wf demo_formula" "0 \<le> cnf_n_vars demo_formula"
  by (simp_all add: demo_formula_def cnf_wf_def clause_wf_def)

lemma mk_float_1: "mk_float neg 1 = Fin 1"
  by (simp add: mk_float_def)

lemma demo_score: "f_div (Fin 1) (f_add (Fin 1) (Fin 0)) = Inr (Fin 1)"
    "final_score (Fin 1) (Fin 1) = Fin 1"
proof -
  have zero: "mk_float False 0 = Fin 0" by (simp add: mk_float_def)
  have r: "round_half_even (10 ^ 9) = 10 ^ 9" using rhe_of_int [of "10 ^ 9"] by simp
  show "f_div (Fin 1) (f_add (Fin 1) (Fin 0)) = Inr (Fin 1)"
    by (simp add: f_div_def f_add_fin is_neg_def mk_float_1 is_inf_def)
  show "final_score (Fin 1) (Fin 1) = Fin 1" using r
    by (simp add: final_score_def f_sub_def f_neg_def f_add_fin f_mul_fin is_neg_def mk_float_1 zero
        f_max_def f_min_def f_less_def f_round_def)
qed

lemma demo_grade: "grade_response demo_challenge demo_formula ''id'' ''m'' ''BQ=='' (Fin 0) 2000 (Fin 1) (Fin 1)
    = Inr (Fin 1, ''verified'')"
proof -
  have d: "decode_assignment ''BQ=='' 3 = Inr [1, -2, 3]" by code_simp
  have v: "verify_witness demo_formula [LInt 1, LInt (-2), LInt 3] = Inr True" by code_simp
  have n: "cnf_n_vars demo_formula = 3" by (simp add: demo_formula_def)
  have cmp: "\<not> f_less (Fin 0) (Fin 0)" "\<not> f_le (Fin 1) (Fin 0)" "f_le (Fin 0) (Fin 1)" "f_le (Fin 1) (Fin 1)"
    by (simp_all add: f_less_def f_le_fin)
  show ?thesis
    by (simp add: grade_response_def demo_challenge_def n d v demo_score cmp guardE_def Let_def
        flip: final_score_def)
qed

theorem grade_only_verified_work_witness:
  "\<exists>ls. decode_assignment ''BQ=='' (cnf_n_vars demo_formula) = Inr ls \<and> is_model demo_formula ls"
  using grade_only_verified_work [OF demo_grade demo_formula_wf] by (simp add: float_ok_def)

text \<open>A faster verified response never scores less: with everything else equal, the grade
  is antitone in the observed time, through all five roundings.\<close>

lemma grade_rewards_speed:
  assumes "grade_response ch c rid rmh b64 o1 rcv ref share = Inr (s1, r1)"
    and "grade_response ch c rid rmh b64 o2 rcv ref share = Inr (s2, r2)"
    and "cnf_wf c" "0 \<le> cnf_n_vars c" "float_ok ref" "float_ok share"
    and "elapsed_float o1" "elapsed_float o2" "fval o1 \<le> fval o2"
  shows "fval s2 \<le> fval s1"
proof -
  have o: "float_ok o1" "float_ok o2" using assms(7,8) by (simp_all add: elapsed_float_def)
  note g1 = grade_cases [OF assms(1,3,4) o(1) assms(5,6)]
  note g2 = grade_cases [OF assms(2,3,4) o(2) assms(5,6)]
  show ?thesis
  proof (cases "s2 = Fin 0")
    case True
    then show ?thesis using g1 final_score_unit by (auto simp: unit_float_def)
  next
    case False
    with g2 obtain ls w2 where 2: "rid = ch_challenge_id ch" "rmh = ch_miner_hotkey ch"
      "rcv \<le> ch_expires_at_ms ch" "positive_float ref" "unit_float share"
      "decode_assignment b64 (cnf_n_vars c) = Inr ls" "is_model c ls"
      "f_div ref (f_add ref o2) = Inr w2" "unit_float w2" "s2 = final_score share w2" by blast
    obtain w1 where w1: "f_div ref (f_add ref o1) = Inr w1" "unit_float w1"
      using speed_unit [OF 2(4) assms(7)] by blast
    have "s1 = final_score share w1"
      using grade_complete [OF 2(1-4) assms(7) 2(5-7) assms(3,4) w1(1)] assms(1) by simp
    then show ?thesis
      using final_score_mono [OF 2(5,9) w1(2) speed_antimono [OF 2(4) assms(7-9) w1(1) 2(8)]] 2(10) by simp
  qed
qed

lemma grade_rewards_speed_witness: "fval (Fin 1) \<le> fval (Fin 1)"
  using grade_rewards_speed [OF demo_grade demo_grade demo_formula_wf]
  by (simp add: float_ok_def elapsed_float_def)

text \<open>The moving average keeps every score in the unit interval, whatever the rounding, and
  its keys are exactly the current hotkeys, sorted, so a departed hotkey keeps no score.\<close>

lemma ema_stays_in_unit_interval:
  assumes "\<forall>v \<in> snd ` set prev. unit_float v" "\<forall>v \<in> snd ` set obs. unit_float v"
    and "unit_float alpha" "0 < fval alpha"
  shows "\<exists>out. update_ema prev obs hks alpha = Inr out \<and> map fst out = sorted_list_of_set (set hks) \<and>
    (\<forall>v \<in> snd ` set out. unit_float v)"
  using update_ema_unit [OF assms] update_ema_keys by blast

lemma ema_stays_in_unit_interval_witness:
  "\<exists>out. update_ema [(''a'', Fin 1), (''gone'', Fin 1)] [(''b'', Fin 1)] [''b'', ''a''] (Fin (1 / 2)) = Inr out \<and>
    map fst out = sorted_list_of_set (set [''b'', ''a'']) \<and> (\<forall>v \<in> snd ` set out. unit_float v)"
proof (rule ema_stays_in_unit_interval)
  have "ilog2 (1 / 2) = -1" by (rule ilog2_unique) (simp_all add: pow2_def)
  then have q: "quantum (1 / 2) = 1 / 2 ^ 53" by (simp add: quantum_def pow2_def)
  have "1 / 2 = of_int (2 ^ 52) * quantum (1 / 2)" unfolding q by simp
  then have "fl_pos (1 / 2) = 1 / 2" by (rule fl_pos_fixed [rotated]) simp
  then show "unit_float (Fin (1 / 2))" by (simp add: unit_float_def float_ok_def fl_rat_def)
qed (simp_all add: unit_float_def float_ok_def)

text \<open>Collapsing never raises once every scored hotkey has a coldkey, gives a weight in the
  unit interval, and only to hotkeys with a positive score.\<close>

lemma collapsed_weights_unit:
  assumes "collect_groups scores coldkey_of = Inr gs" "\<forall>v \<in> snd ` set scores. float_ok v"
  shows "\<exists>out. coldkey_collapsed_weights scores coldkey_of = Inr out \<and>
    (\<forall>(h, w) \<in> set out. unit_float w \<and> (\<exists>s. (h, s) \<in> set scores \<and> 0 < fval s))"
  using collapsed_weights_ok [OF assms] unfolding weight_from_def by fastforce

lemma collapsed_weights_unit_witness:
  "\<exists>out. coldkey_collapsed_weights [(''b'', Fin 1), (''a'', Fin 0)] [(''a'', ''k''), (''b'', ''k'')] = Inr out \<and>
    (\<forall>(h, w) \<in> set out. unit_float w \<and> (\<exists>s. (h, s) \<in> set [(''b'', Fin 1), (''a'', Fin 0)] \<and> 0 < fval s))"
proof (rule collapsed_weights_unit)
  show "collect_groups [(''b'', Fin 1), (''a'', Fin 0)] [(''a'', ''k''), (''b'', ''k'')]
      = Inr [(''k'', [(''b'', Fin 1)])]" by code_simp
qed (simp add: float_ok_def)

text \<open>The eligibility gate keeps a score only for a hotkey whose current observation is
  positive, and never invents or changes a kept score.\<close>

lemma gate_requires_current_work:
  assumes "gate_scores_by_current_verification ema obs = Inr out" "(h, v) \<in> set out"
  shows "(\<exists>e. (h, e) \<in> set ema \<and> (v = e \<or> v = Fin 0)) \<and>
    (v \<noteq> Fin 0 \<longrightarrow> f_less (Fin 0) (score_get obs h))"
proof -
  obtain x where x: "x \<in> set (sort_items ema)" "(case x of (hotkey, ema) \<Rightarrow>
      let observation = score_get obs hotkey in
        guardE (\<not> isfinite ema \<or> f_less ema (Fin 0) \<or> \<not> isfinite observation \<or> f_less observation (Fin 0))
          ''eligibility scores must be finite and non-negative''
          (Inr (hotkey, if f_less (Fin 0) observation then ema else Fin 0))) = Inr (h, v)"
    using mapE_all [OF assms(1) [unfolded gate_scores_by_current_verification_def] assms(2)] by blast
  obtain h' e where "x = (h', e)" by (cases x)
  with x show ?thesis by (auto simp: Let_def elim!: guardE_InrE split: if_splits)
qed

lemma gate_requires_current_work_witness:
  "\<exists>out. gate_scores_by_current_verification [(''a'', Fin 1), (''b'', Fin 1)] [(''b'', Fin 1)] = Inr out \<and>
    (''a'', Fin 0) \<in> set out \<and> f_less (Fin 0) (score_get [(''b'', Fin 1)] ''b'')"
proof -
  have g: "gate_scores_by_current_verification [(''a'', Fin 1), (''b'', Fin 1)] [(''b'', Fin 1)]
      = Inr [(''a'', Fin 0), (''b'', Fin 1)]" by code_simp
  from gate_requires_current_work [OF g, of "''b''" "Fin 1"] g show ?thesis by simp
qed

end
