(* ===== verification/Core_State.thy ===== *)
theory Core_State
  imports Core_Scores
begin

text \<open>
  \<open>cathedral_thin/core.py\<close>, the validator's durable state: the digest of a weight vector,
  the pending vector and its retry metadata, the state file (\<open>StateStore\<close>) and the SDK
  response classifiers. The file system is explicit: a \<open>store\<close> holds what a
  reader finds under the name of the file and under that of the temporary file, and what of
  it a power loss leaves. A save is a sequence of system calls, each with its effect on the
  store, and a \<open>fault\<close> says which of them fail. The lemmas show that a save is atomic between
  any two of its calls, that a loaded state satisfies the invariant the validator relies on, and how the retry
  backoff grows.
\<close>

section \<open>The digest of a weight vector\<close>

definition is_number :: "json \<Rightarrow> bool" where
  "is_number v = (case v of JInt n \<Rightarrow> True | JFloat x \<Rightarrow> True | _ \<Rightarrow> False)"

definition typed_entry :: "json \<Rightarrow> json \<Rightarrow> json \<Rightarrow> (int \<times> string) option" where
  "typed_entry u w h = (case u of JInt n \<Rightarrow> (case h of JStr s \<Rightarrow> if is_number w then Some (n, s) else None
     | _ \<Rightarrow> None) | _ \<Rightarrow> None)"

text \<open>The loop over \<open>zip(uids, weights, hotkeys)\<close>, with the set of UIDs already seen.\<close>

fun vector_pairs :: "int list \<Rightarrow> (json \<times> json \<times> json) list \<Rightarrow> json list res" where
  "vector_pairs seen [] = Inr []"
| "vector_pairs seen ((u, w, h) # rest) =
     (case typed_entry u w h of
        None \<Rightarrow> raise ''invalid UID weight vector''
      | Some (uid, hotkey) \<Rightarrow>
          bindE (py_to_float w) (\<lambda>value.
            guardE (uid < 0 \<or> uid \<in> set seen \<or> \<not> isfinite value \<or> f_less value (Fin 0) \<or> hotkey = [])
              ''invalid UID weight vector''
              (bindE (vector_pairs (uid # seen) rest) (\<lambda>ps.
                Inr (JArr [JInt uid, JStr hotkey, JFloat (f_round value 12)] # ps)))))"

text \<open>A string \<open>sha256:\<close> followed by 64 characters that \<open>bytes.fromhex\<close> accepts.\<close>

definition sha_ref :: "json \<Rightarrow> bool" where
  "sha_ref v = (case v of JStr s \<Rightarrow> starts_with s ''sha256:'' \<and> length s = 71 \<and>
     \<not> isl (fromhex (removeprefix s ''sha256:'')) | _ \<Rightarrow> False)"

definition check_registrations :: "jdict \<Rightarrow> unit res" where
  "check_registrations regs =
     foldE (\<lambda>u (class_id, registration_id).
       guardE (class_id = [] \<or> \<not> sha_ref registration_id) ''invalid vector owner registration binding'' (Inr ()))
     () regs"

definition vector_document :: "json list \<Rightarrow> json \<Rightarrow> jdict \<Rightarrow> json" where
  "vector_document ps provenance regs = JObj
     [(''pairs'', JArr ps), (''provenance_digest'', provenance), (''registration_ids'', JObj (sort_items regs))]"

text \<open>\<open>registration_ids or {}\<close>, with None for a value that is no dict.\<close>

definition registration_dict :: "json \<Rightarrow> jdict option" where
  "registration_dict v = (case v of JNull \<Rightarrow> Some [] | JObj d \<Rightarrow> Some d | _ \<Rightarrow> None)"

definition vector_digest :: "json \<Rightarrow> json \<Rightarrow> json \<Rightarrow> json \<Rightarrow> json \<Rightarrow> string res" where
  "vector_digest uids_value weights_value hotkeys_value provenance registration_ids =
     bindE (items_list uids_value) (\<lambda>uids.
     bindE (items_list weights_value) (\<lambda>weights.
     guardE (length uids \<noteq> length weights) ''weight vector must be non-empty and aligned''
     (bindE (items_list hotkeys_value) (\<lambda>hotkeys.
     guardE (length uids \<noteq> length hotkeys \<or> uids = []) ''weight vector must be non-empty and aligned''
     (bindE (vector_pairs [] (zip uids (zip weights hotkeys))) (\<lambda>ps.
      guardE (provenance \<noteq> JNull \<and> \<not> sha_ref provenance) ''invalid vector provenance digest''
      (case registration_dict registration_ids of
         None \<Rightarrow> raise ''invalid vector owner registration binding''
       | Some regs \<Rightarrow>
           bindE (check_registrations regs) (\<lambda>_.
             Inr (domain_digest ''cathedral-thin-vector-v3'' (vector_document ps provenance regs))))))))))"

section \<open>Pending vectors and the validator's state\<close>

record pending =
  pv_digest :: string
  pv_uids :: "int list"
  pv_weights :: "json list"
  pv_hotkeys :: "string list"
  pv_provenance :: "string option"
  pv_registrations :: "(string \<times> string) list"
  pv_attempts :: int
  pv_next_retry :: int
  pv_ambiguous :: bool

record validator_state =
  vs_schema :: int
  vs_fingerprint :: string
  vs_secret_hex :: string
  vs_last_round :: int
  vs_ema :: score_map
  vs_pending :: "pending option"
  vs_confirmed_vector :: json
  vs_confirmed_decision :: json
  vs_class_checkpoints :: "(string \<times> jdict) list"
  vs_registration_checkpoints :: "(string \<times> jdict) list"

definition STATE_SCHEMA :: int where "STATE_SCHEMA = 5"

definition master_secret :: "validator_state \<Rightarrow> bytes res" where
  "master_secret st =
     (case fromhex (vs_secret_hex st) of
        Inl e \<Rightarrow> raise ''state master secret is not hex''
      | Inr value \<Rightarrow> guardE (length value \<noteq> 32) ''state master secret must be 32 bytes'' (Inr value))"

definition config_fingerprint :: "jdict \<Rightarrow> string" where
  "config_fingerprint config = domain_digest ''cathedral-thin-config-v1'' (JObj config)"

definition opt_str :: "string option \<Rightarrow> json" where
  "opt_str v = (case v of None \<Rightarrow> JNull | Some s \<Rightarrow> JStr s)"

definition pending_json :: "pending \<Rightarrow> json" where
  "pending_json p = JObj
     [(''digest'', JStr (pv_digest p)), (''uids'', JArr (map JInt (pv_uids p))),
      (''weights'', JArr (pv_weights p)), (''hotkeys'', JArr (map JStr (pv_hotkeys p))),
      (''provenance_digest'', opt_str (pv_provenance p)),
      (''registration_ids'', JObj (map (\<lambda>(k, v). (k, JStr v)) (pv_registrations p))),
      (''attempts'', JInt (pv_attempts p)), (''next_retry_at_ms'', JInt (pv_next_retry p)),
      (''ambiguous'', JBool (pv_ambiguous p))]"

text \<open>\<open>asdict(state)\<close>.\<close>

definition state_json :: "validator_state \<Rightarrow> json" where
  "state_json st = JObj
     [(''schema'', JInt (vs_schema st)), (''config_fingerprint'', JStr (vs_fingerprint st)),
      (''master_secret_hex'', JStr (vs_secret_hex st)), (''last_completed_round'', JInt (vs_last_round st)),
      (''ema_scores'', JObj (map (\<lambda>(k, v). (k, JFloat v)) (vs_ema st))),
      (''pending_vector'', case vs_pending st of None \<Rightarrow> JNull | Some p \<Rightarrow> pending_json p),
      (''confirmed_vector_digest'', vs_confirmed_vector st),
      (''confirmed_decision_digest'', vs_confirmed_decision st),
      (''class_checkpoints'', JObj (map (\<lambda>(k, d). (k, JObj d)) (vs_class_checkpoints st))),
      (''registration_checkpoints'', JObj (map (\<lambda>(k, d). (k, JObj d)) (vs_registration_checkpoints st)))]"

section \<open>The state file\<close>

text \<open>The state file and the temporary file of a save. \<open>sf_file\<close> is what a reader sees: the text when
  the file exists (None of the inner option is text that is unreadable or not UTF-8);
  \<open>sf_symlink\<close> says whether the path is a symlink, \<open>sf_chmod_ok\<close> whether chmod works.
  What has reached the disk is kept apart from what a reader sees: \<open>sf_disk\<close> lists the contents
  that the path may have when the power fails now, and the two \<open>synced\<close> flags say whether
  the data of the file is on the disk.\<close>

record store =
  sf_file :: "string option option"
  sf_synced :: bool
  sf_disk :: "string option option list"
  sf_symlink :: bool
  sf_chmod_ok :: bool
  sf_tmp :: "string option"
  sf_tmp_synced :: bool

text \<open>The system calls of a save, and a fault: the calls that raise OSError, and how many
  characters a failing write leaves in the file.\<close>

datatype sys_call = CallMkdir | CallOpen | CallWrite | CallFsync | CallClose | CallReplace
  | CallOpenDir | CallFsyncDir | CallCloseDir | CallUnlink

record fault =
  ft_fails :: "sys_call set"
  ft_written :: nat

abbreviation NoFault :: fault where
  "NoFault \<equiv> \<lparr>ft_fails = {}, ft_written = 0\<rparr>"

text \<open>A save runs on the history of stores it has gone through, the newest first, so that a
  crash between two system calls is a store of the history.\<close>

type_synonym history = "store list"

definition sys :: "fault \<Rightarrow> sys_call \<Rightarrow> (store \<Rightarrow> store) \<Rightarrow> (store \<Rightarrow> store) \<Rightarrow> history \<Rightarrow> history \<times> unit res" where
  "sys f c done_effect fail_effect h =
     (if c \<in> ft_fails f then (fail_effect (hd h) # h, Inl PyOSError) else (done_effect (hd h) # h, Inr ()))"

definition andthen ::
  "(history \<Rightarrow> history \<times> unit res) \<Rightarrow> (history \<Rightarrow> history \<times> unit res) \<Rightarrow> history \<Rightarrow> history \<times> unit res" where
  "andthen m k h = (case m h of (h', Inl e) \<Rightarrow> (h', Inl e) | (h', Inr _) \<Rightarrow> k h')"

text \<open>\<open>try: m finally: k\<close>, also the exit of a \<open>with\<close> block: an exception of \<open>k\<close> wins.\<close>

definition ensuring ::
  "(history \<Rightarrow> history \<times> unit res) \<Rightarrow> (history \<Rightarrow> history \<times> unit res) \<Rightarrow> history \<Rightarrow> history \<times> unit res" where
  "ensuring m k h =
     (case m h of (h', r) \<Rightarrow> (case k h' of (h'', Inl e) \<Rightarrow> (h'', Inl e) | (h'', Inr _) \<Rightarrow> (h'', r)))"

text \<open>What the power failing may leave of a file whose text is \<open>c\<close>: all of it once its data is
  synced, any prefix before.\<close>

definition on_disk :: "bool \<Rightarrow> string option \<Rightarrow> string option list" where
  "on_disk synced c =
     (case c of
        None \<Rightarrow> [None]
      | Some raw \<Rightarrow> if synced then [Some raw] else map (\<lambda>n. Some (take n raw)) [0 ..< Suc (length raw)])"

text \<open>The effects of the calls. \<open>os.replace\<close> is atomic for a reader, but until the directory
  is synced the power failing leaves either entry; a sync of the directory keeps the new entry.\<close>

definition open_effect :: "store \<Rightarrow> store" where
  "open_effect s = s\<lparr>sf_tmp := Some [], sf_tmp_synced := False\<rparr>"

definition write_effect :: "string \<Rightarrow> store \<Rightarrow> store" where
  "write_effect raw s = s\<lparr>sf_tmp := Some raw, sf_tmp_synced := False\<rparr>"

definition fsync_effect :: "store \<Rightarrow> store" where
  "fsync_effect s = s\<lparr>sf_tmp_synced := True\<rparr>"

definition replace_effect :: "store \<Rightarrow> store" where
  "replace_effect s =
     s\<lparr>sf_file := Some (sf_tmp s), sf_synced := sf_tmp_synced s, sf_symlink := False, sf_tmp := None,
       sf_disk := map Some (on_disk (sf_tmp_synced s) (sf_tmp s)) @ sf_disk s\<rparr>"

definition sync_effect :: "store \<Rightarrow> store" where
  "sync_effect s =
     s\<lparr>sf_disk := (case sf_file s of None \<Rightarrow> [None] | Some c \<Rightarrow> map Some (on_disk (sf_synced s) c))\<rparr>"

definition unlink_effect :: "store \<Rightarrow> store" where
  "unlink_effect s = s\<lparr>sf_tmp := None\<rparr>"

text \<open>The steps of \<open>save\<close>. The temporary file is opened with \<open>O_EXCL\<close>, which fails when it
  exists; the \<open>with\<close> block closes it; an OSError of the directory sync is ignored; \<open>finally\<close>
  removes the temporary file when it still exists.\<close>

definition open_temporary :: "fault \<Rightarrow> history \<Rightarrow> history \<times> unit res" where
  "open_temporary f h =
     (if sf_tmp (hd h) \<noteq> None then (h, Inl PyOSError) else sys f CallOpen open_effect id h)"

definition write_temporary :: "fault \<Rightarrow> string \<Rightarrow> history \<Rightarrow> history \<times> unit res" where
  "write_temporary f raw =
     andthen (open_temporary f)
       (ensuring
          (andthen (sys f CallWrite (write_effect raw) (write_effect (take (ft_written f) raw)))
             (sys f CallFsync fsync_effect id))
          (sys f CallClose id id))"

definition sync_directory :: "fault \<Rightarrow> history \<Rightarrow> history \<times> unit res" where
  "sync_directory f h =
     (case andthen (sys f CallOpenDir id id)
            (ensuring (sys f CallFsyncDir sync_effect id) (sys f CallCloseDir id id)) h of
        (h', _) \<Rightarrow> (h', Inr ()))"

definition remove_temporary :: "fault \<Rightarrow> history \<Rightarrow> history \<times> unit res" where
  "remove_temporary f h =
     (if sf_tmp (hd h) = None then (h, Inr ()) else sys f CallUnlink unlink_effect id h)"

definition save_trace :: "fault \<Rightarrow> store \<Rightarrow> validator_state \<Rightarrow> history \<times> unit res" where
  "save_trace f sf st =
     (let raw = dumps (state_json st) @ [LF] in
      andthen (sys f CallMkdir id id)
        (ensuring
           (andthen (write_temporary f raw)
              (andthen (sys f CallReplace replace_effect id) (sync_directory f)))
           (remove_temporary f))
        [sf])"

definition save_state :: "fault \<Rightarrow> store \<Rightarrow> validator_state \<Rightarrow> store \<times> unit res" where
  "save_state f sf st = (case save_trace f sf st of (h, r) \<Rightarrow> (hd h, r))"

text \<open>\<open>PendingVector(**raw)\<close>: the nine fields by name, the last five with defaults; the
  values are not yet checked.\<close>

definition pending_fields :: "string list" where
  "pending_fields = [''digest'', ''uids'', ''weights'', ''hotkeys'', ''provenance_digest'',
     ''registration_ids'', ''attempts'', ''next_retry_at_ms'', ''ambiguous'']"

definition pending_defaults :: jdict where
  "pending_defaults = [(''provenance_digest'', JNull), (''registration_ids'', JObj []),
     (''attempts'', JInt 0), (''next_retry_at_ms'', JInt 0), (''ambiguous'', JBool False)]"

definition raw_pending :: "json \<Rightarrow> jdict option res" where
  "raw_pending v =
     (case v of
        JNull \<Rightarrow> Inr None
      | JObj d \<Rightarrow>
          if fst ` set d \<subseteq> set pending_fields \<and> {''digest'', ''uids'', ''weights'', ''hotkeys''} \<subseteq> fst ` set d
          then Inr (Some (d @ filter (\<lambda>kv. fst kv \<notin> fst ` set d) pending_defaults))
          else Inl PyTypeError
      | _ \<Rightarrow> Inl PyTypeError)"

text \<open>\<open>dict(v)\<close>: a dict, or a sequence of pairs. A key that is not a string is kept under a
  name that no checkpoint field has.\<close>

definition pair_of :: "json \<Rightarrow> (string \<times> json) res" where
  "pair_of v =
     bindE (items_list v) (\<lambda>xs.
       case xs of
         [k, x] \<Rightarrow> (case k of JStr s \<Rightarrow> Inr (s, x) | JArr _ \<Rightarrow> Inl PyTypeError | JObj _ \<Rightarrow> Inl PyTypeError
           | _ \<Rightarrow> Inr (''key '' @ py_repr k, x))
       | _ \<Rightarrow> Inl PyValueError)"

definition dict_of :: "json \<Rightarrow> jdict res" where
  "dict_of v =
     (case v of
        JObj d \<Rightarrow> Inr d
      | JArr vs \<Rightarrow> bindE (mapE pair_of vs) (\<lambda>kvs. Inr (dict_of_pairs kvs))
      | JStr s \<Rightarrow> if s = [] then Inr [] else Inl PyValueError
      | _ \<Rightarrow> Inl PyTypeError)"

text \<open>\<open>v.items()\<close>: only a dict has it.\<close>

definition items_attr :: "json \<Rightarrow> jdict res" where
  "items_attr v = (case v of JObj d \<Rightarrow> Inr d | _ \<Rightarrow> Inl PyAttributeError)"

definition jget_default :: "jdict \<Rightarrow> string \<Rightarrow> json \<Rightarrow> json" where
  "jget_default d k dflt = (case map_of d k of None \<Rightarrow> dflt | Some v \<Rightarrow> v)"

definition checkpoint_map :: "jdict \<Rightarrow> string \<Rightarrow> (string \<times> jdict) list res" where
  "checkpoint_map payload name =
     bindE (items_attr (jget_default payload name (JObj []))) (\<lambda>kvs.
       mapE (\<lambda>(k, v). bindE (dict_of v) (\<lambda>d. Inr (k, d))) kvs)"

text \<open>The body of the \<open>try\<close>: a state whose pending vector is still raw.\<close>

definition parse_state :: "json \<Rightarrow> (validator_state \<times> jdict option) res" where
  "parse_state value =
     bindE (items_attr value) (\<lambda>payload.
     bindE (raw_pending (jget payload ''pending_vector'')) (\<lambda>pending_raw.
     bindE (bindE (jitem payload ''schema'') py_to_int) (\<lambda>schema.
     bindE (jitem payload ''config_fingerprint'') (\<lambda>fingerprint.
     bindE (jitem payload ''master_secret_hex'') (\<lambda>secret.
     bindE (py_to_int (jget_default payload ''last_completed_round'' (JInt (-1)))) (\<lambda>last_round.
     bindE (bindE (items_attr (jget_default payload ''ema_scores'' (JObj []))) (\<lambda>kvs.
         mapE (\<lambda>(k, v). bindE (py_to_float v) (\<lambda>x. Inr (k, x))) kvs)) (\<lambda>ema.
     bindE (checkpoint_map payload ''class_checkpoints'') (\<lambda>class_cps.
     bindE (checkpoint_map payload ''registration_checkpoints'') (\<lambda>reg_cps.
       Inr (\<lparr>vs_schema = schema, vs_fingerprint = py_str fingerprint, vs_secret_hex = py_str secret,
          vs_last_round = last_round, vs_ema = ema, vs_pending = None,
          vs_confirmed_vector = jget payload ''confirmed_vector_digest'',
          vs_confirmed_decision = jget payload ''confirmed_decision_digest'',
          vs_class_checkpoints = class_cps, vs_registration_checkpoints = reg_cps\<rparr>, pending_raw))))))))))"

text \<open>\<open>except (OSError, KeyError, TypeError, ValueError, ...)\<close>: an AttributeError or an
  OverflowError is not among them and escapes.\<close>

definition corrupt_state :: "'a res \<Rightarrow> 'a res" where
  "corrupt_state r =
     (case r of
        Inl e \<Rightarrow> if e = PyAttributeError \<or> e = PyOverflowError then Inl e else raise ''validator state is corrupt''
      | Inr x \<Rightarrow> Inr x)"

definition list_of :: "json \<Rightarrow> json list" where
  "list_of v = (case items_list v of Inr vs \<Rightarrow> vs | Inl e \<Rightarrow> [])"

definition check_pending :: "jdict \<Rightarrow> pending res" where
  "check_pending d =
     bindE (vector_digest (jget d ''uids'') (jget d ''weights'') (jget d ''hotkeys'')
       (jget d ''provenance_digest'') (jget d ''registration_ids'')) (\<lambda>expected.
     case jget d ''digest'' of
       JStr digest \<Rightarrow>
         bindE (compare_digest expected digest) (\<lambda>same.
         guardE (\<not> same) ''pending vector digest mismatch''
         (guardE (\<not> nat_field (jget d ''attempts'') \<or> \<not> nat_field (jget d ''next_retry_at_ms'')
             \<or> \<not> (\<exists>b \<in> {True, False}. jget d ''ambiguous'' = JBool b))
           ''invalid pending vector retry metadata''
           (Inr \<lparr>pv_digest = digest,
              pv_uids = ints_of (list_of (jget d ''uids'')),
              pv_weights = list_of (jget d ''weights''),
              pv_hotkeys = strs_of (list_of (jget d ''hotkeys'')),
              pv_provenance = (case jget d ''provenance_digest'' of JStr s \<Rightarrow> Some s | _ \<Rightarrow> None),
              pv_registrations = (case jget d ''registration_ids'' of
                  JObj kvs \<Rightarrow> map (\<lambda>(k, v). (k, py_str v)) kvs | _ \<Rightarrow> []),
              pv_attempts = int_field (jget d ''attempts''),
              pv_next_retry = int_field (jget d ''next_retry_at_ms''),
              pv_ambiguous = (jget d ''ambiguous'' = JBool True)\<rparr>)))
     | _ \<Rightarrow> Inl PyTypeError)"

definition class_checkpoint_ok :: "string \<times> jdict \<Rightarrow> bool" where
  "class_checkpoint_ok c =
     (fst c \<noteq> [] \<and> keys_are (snd c) [''source_epoch'', ''report_id'']
      \<and> nat_field (jget (snd c) ''source_epoch'') \<and> sha_ref (jget (snd c) ''report_id''))"

definition registration_checkpoint_ok :: "string \<times> jdict \<Rightarrow> bool" where
  "registration_checkpoint_ok c =
     (fst c \<noteq> [] \<and> keys_are (snd c) [''owner_coldkey'', ''delegate_hotkey'', ''sequence'', ''registration_id'']
      \<and> nonempty_str (jget (snd c) ''owner_coldkey'') \<and> nonempty_str (jget (snd c) ''delegate_hotkey'')
      \<and> nat_field (jget (snd c) ''sequence'') \<and> sha_ref (jget (snd c) ''registration_id''))"

text \<open>The checks after the configuration branch, in their order.\<close>

definition check_state :: "validator_state \<Rightarrow> jdict option \<Rightarrow> validator_state res" where
  "check_state st pending_raw =
     bindE (case pending_raw of None \<Rightarrow> Inr None | Some d \<Rightarrow> bindE (check_pending d) (\<lambda>p. Inr (Some p))) (\<lambda>p.
     guardE (\<not> list_all class_checkpoint_ok (vs_class_checkpoints st)) ''invalid score class checkpoint''
     (guardE (\<not> list_all registration_checkpoint_ok (vs_registration_checkpoints st))
       ''invalid owner registration checkpoint''
     (guardE (\<exists>kv \<in> set (vs_ema st). \<not> isfinite (snd kv) \<or> f_less (snd kv) (Fin 0))
       ''invalid score in validator state''
       (Inr (st\<lparr>vs_pending := p\<rparr>)))))"

definition fresh_state :: "string \<Rightarrow> bytes \<Rightarrow> validator_state" where
  "fresh_state fingerprint entropy =
     \<lparr>vs_schema = STATE_SCHEMA, vs_fingerprint = fingerprint, vs_secret_hex = hex_of entropy,
      vs_last_round = -1, vs_ema = [], vs_pending = None, vs_confirmed_vector = JNull,
      vs_confirmed_decision = JNull, vs_class_checkpoints = [], vs_registration_checkpoints = []\<rparr>"

definition accept_config :: "string \<Rightarrow> validator_state \<Rightarrow> validator_state" where
  "accept_config fingerprint st =
     st\<lparr>vs_fingerprint := fingerprint, vs_last_round := -1, vs_ema := [],
        vs_confirmed_vector := JNull, vs_confirmed_decision := JNull\<rparr>"

text \<open>\<open>load_or_create\<close>: \<open>entropy\<close> is \<open>os.urandom(32)\<close>, \<open>fault\<close> the outcome of a save.\<close>

definition load_or_create ::
  "bool \<Rightarrow> string \<Rightarrow> bytes \<Rightarrow> fault \<Rightarrow> store \<Rightarrow> store \<times> validator_state res" where
  "load_or_create allow_config_change fingerprint entropy fault sf =
     (case sf_file sf of
        None \<Rightarrow>
          (case save_state fault sf (fresh_state fingerprint entropy) of
             (sf', r) \<Rightarrow> (sf', bindE r (\<lambda>_. Inr (fresh_state fingerprint entropy))))
      | Some content \<Rightarrow>
          if sf_symlink sf then (sf, raise ''validator state must not be a symlink'')
          else if \<not> sf_chmod_ok sf then (sf, raise ''could not secure validator state permissions'')
          else
            (case corrupt_state (bindE (case content of None \<Rightarrow> Inl PyUnicodeError | Some txt \<Rightarrow> json_loads plain_hooks txt) parse_state) of
               Inl e \<Rightarrow> (sf, Inl e)
             | Inr (st, pending_raw) \<Rightarrow>
                 if vs_schema st \<noteq> STATE_SCHEMA
                 then (sf, raise (''unsupported validator state schema '' @ int_str (vs_schema st)))
                 else
                   (case master_secret st of
                      Inl e \<Rightarrow> (sf, Inl e)
                    | Inr secret \<Rightarrow>
                        if vs_fingerprint st = fingerprint then (sf, check_state st pending_raw)
                        else if \<not> allow_config_change
                        then (sf, raise ''config fingerprint changed; use explicit acceptance'')
                        else if pending_raw \<noteq> None
                        then (sf, raise ''cannot accept config change with a pending weight vector'')
                        else
                          (let st' = accept_config fingerprint st in
                           case save_state fault sf st' of
                             (sf', Inl e) \<Rightarrow> (sf', Inl e)
                           | (sf', Inr _) \<Rightarrow> (sf', check_state st' None)))))"

text \<open>The lease file: a non-blocking exclusive lock on it, held until exit. The state is the
  set of holders of the lock.\<close>

definition lease_enter :: "nat set \<Rightarrow> nat \<Rightarrow> (nat set) res" where
  "lease_enter holders who =
     (if holders \<noteq> {} then raise ''validator state is already locked'' else Inr {who})"

definition lease_exit :: "nat set \<Rightarrow> nat \<Rightarrow> nat set" where
  "lease_exit holders who = holders - {who}"

section \<open>The pending vector's life\<close>

definition mark_pending ::
  "validator_state \<Rightarrow> int list \<Rightarrow> pyfloat list \<Rightarrow> string list \<Rightarrow> string option \<Rightarrow> (string \<times> string) list
     \<Rightarrow> validator_state res" where
  "mark_pending st uids weights hotkeys provenance registration_ids =
     bindE (vector_digest (JArr (map JInt uids)) (JArr (map JFloat weights)) (JArr (map JStr hotkeys))
         (opt_str provenance) (JObj (map (\<lambda>(k, v). (k, JStr v)) registration_ids))) (\<lambda>digest.
       Inr (st\<lparr>vs_pending := Some \<lparr>pv_digest = digest, pv_uids = uids, pv_weights = map JFloat weights,
         pv_hotkeys = hotkeys, pv_provenance = provenance, pv_registrations = sort_items registration_ids,
         pv_attempts = 0, pv_next_retry = 0, pv_ambiguous = False\<rparr>\<rparr>))"

definition retry_delay :: "int \<Rightarrow> int \<Rightarrow> int \<Rightarrow> int" where
  "retry_delay base_backoff_ms max_backoff_ms attempts =
     min max_backoff_ms (base_backoff_ms * 2 ^ nat (min 10 (attempts - 1)))"

definition note_submission_failure ::
  "validator_state \<Rightarrow> int \<Rightarrow> int \<Rightarrow> int \<Rightarrow> bool \<Rightarrow> validator_state res" where
  "note_submission_failure st now_ms base_backoff_ms max_backoff_ms ambiguous =
     (case vs_pending st of
        None \<Rightarrow> raise ''no pending vector to fail''
      | Some p \<Rightarrow>
          Inr (st\<lparr>vs_pending := Some (p\<lparr>pv_attempts := pv_attempts p + 1, pv_ambiguous := ambiguous,
            pv_next_retry := now_ms + retry_delay base_backoff_ms max_backoff_ms (pv_attempts p + 1)\<rparr>)\<rparr>))"

definition note_submission_success :: "validator_state \<Rightarrow> validator_state res" where
  "note_submission_success st =
     (case vs_pending st of
        None \<Rightarrow> raise ''no pending vector to confirm''
      | Some p \<Rightarrow> Inr (st\<lparr>vs_confirmed_vector := JStr (pv_digest p),
            vs_confirmed_decision := opt_str (pv_provenance p), vs_pending := None\<rparr>))"

section \<open>SDK responses\<close>

text \<open>The response shapes: an attribute that is absent is None; a present one carries what the
  code tests of it (its truth after a call if it is callable, or whether it is not None).\<close>

record response_attrs =
  ra_is_success :: "bool option"
  ra_success :: "bool option"
  ra_receipt :: "bool option"
  ra_error :: "bool option"
  ra_extrinsic :: "bool option"
  ra_ambiguous :: "bool option"

datatype sdk_response = RNone | RBool bool | RTuple "bool list" | RObject response_attrs

definition response_succeeded :: "sdk_response \<Rightarrow> bool" where
  "response_succeeded r =
     (case r of
        RBool b \<Rightarrow> b
      | RTuple xs \<Rightarrow> (case xs of [] \<Rightarrow> False | x # _ \<Rightarrow> x)
      | RNone \<Rightarrow> False
      | RObject a \<Rightarrow>
          (case ra_is_success a of Some v \<Rightarrow> v
           | None \<Rightarrow> (case ra_success a of Some v \<Rightarrow> v | None \<Rightarrow> False)))"

definition submission_failure_is_ambiguous :: "sdk_response \<Rightarrow> bool" where
  "submission_failure_is_ambiguous r =
     (case r of
        RNone \<Rightarrow> True
      | RObject a \<Rightarrow>
          (case ra_receipt a of
             Some present \<Rightarrow>
               if present then False
               else if ra_error a = Some True then True
               else ra_extrinsic a = Some True
           | None \<Rightarrow> ra_ambiguous a = Some True)
      | _ \<Rightarrow> False)"

section \<open>What a loaded state satisfies\<close>

definition pending_digest :: "pending \<Rightarrow> string res" where
  "pending_digest p = vector_digest (JArr (map JInt (pv_uids p))) (JArr (pv_weights p))
     (JArr (map JStr (pv_hotkeys p))) (opt_str (pv_provenance p))
     (JObj (map (\<lambda>(k, v). (k, JStr v)) (pv_registrations p)))"

definition pending_ok :: "pending \<Rightarrow> bool" where
  "pending_ok p = (pending_digest p = Inr (pv_digest p) \<and> 0 \<le> pv_attempts p \<and> 0 \<le> pv_next_retry p)"

definition state_ok :: "string \<Rightarrow> validator_state \<Rightarrow> bool" where
  "state_ok fingerprint st =
     (vs_schema st = STATE_SCHEMA \<and> vs_fingerprint st = fingerprint
      \<and> (\<exists>secret. master_secret st = Inr secret \<and> length secret = 32)
      \<and> (case vs_pending st of None \<Rightarrow> True | Some p \<Rightarrow> pending_ok p)
      \<and> list_all class_checkpoint_ok (vs_class_checkpoints st)
      \<and> list_all registration_checkpoint_ok (vs_registration_checkpoints st)
      \<and> (\<forall>kv \<in> set (vs_ema st). nonneg (snd kv)))"

lemma vector_pairs_typed:
  "vector_pairs seen xs = Inr ps \<Longrightarrow>
     \<forall>(u, w, h) \<in> set xs. (\<exists>n. u = JInt n) \<and> is_number w \<and> (\<exists>s. h = JStr s)"
proof (induction seen xs arbitrary: ps rule: vector_pairs.induct)
  case (2 seen u w h rest)
  from 2(2) obtain n s where t: "typed_entry u w h = Some (n, s)"
    by (cases "typed_entry u w h") auto
  then have "u = JInt n" "h = JStr s" "is_number w"
    by (auto simp: typed_entry_def split: json.splits if_splits)
  moreover have "\<exists>seen ps. vector_pairs seen rest = Inr ps" using 2(2) t by (auto elim!: resE)
  ultimately show ?case using 2 t by (fastforce elim!: resE)
qed simp

lemma zip3_sets:
  assumes "length us = length ws" "length us = length hs"
    and "\<forall>(u, w, h) \<in> set (zip us (zip ws hs)). P u \<and> Q w \<and> R h"
  shows "(\<forall>u \<in> set us. P u) \<and> (\<forall>w \<in> set ws. Q w) \<and> (\<forall>h \<in> set hs. R h)"
  using assms
proof (induction us ws arbitrary: hs rule: list_induct2)
  case (Cons u us w ws)
  obtain h hs' where hs: "hs = h # hs'" using Cons.prems(1) by (cases hs) auto
  have "(\<forall>u \<in> set us. P u) \<and> (\<forall>w \<in> set ws. Q w) \<and> (\<forall>h \<in> set hs'. R h)"
    using Cons.prems by (intro Cons.IH) (simp_all add: hs)
  moreover have "P u \<and> Q w \<and> R h" using Cons.prems(2) by (simp add: hs)
  ultimately show ?case by (simp add: hs)
qed simp

lemma ints_of_id: "\<forall>u \<in> set us. \<exists>n. u = JInt n \<Longrightarrow> map JInt (ints_of us) = us"
  by (induction us) (auto simp: ints_of_def)

lemma strs_of_id: "\<forall>h \<in> set hs. \<exists>s. h = JStr s \<Longrightarrow> map JStr (strs_of hs) = hs"
  by (induction hs) (auto simp: strs_of_def)

lemma check_registrations_typed:
  "check_registrations regs = Inr () \<Longrightarrow> \<forall>(k, v) \<in> set regs. \<exists>s. v = JStr s"
  unfolding check_registrations_def
proof (induction regs)
  case (Cons kv regs)
  obtain k v where kv: "kv = (k, v)" by (cases kv)
  then have "sha_ref v" using Cons.prems by (auto elim!: resE)
  then have "\<exists>s. v = JStr s" by (auto simp: sha_ref_def split: json.splits)
  moreover have "\<forall>(k, v) \<in> set regs. \<exists>s. v = JStr s"
    using Cons.prems by (intro Cons.IH) (auto simp: kv elim!: resE)
  ultimately show ?case by (simp add: kv)
qed simp

lemma vector_digest_parts:
  "vector_digest uv wv hv prov regv = Inr digest \<Longrightarrow>
     \<exists>us ws hs ps regs. items_list uv = Inr us \<and> items_list wv = Inr ws \<and> items_list hv = Inr hs \<and>
       length us = length ws \<and> length us = length hs \<and> us \<noteq> [] \<and>
       vector_pairs [] (zip us (zip ws hs)) = Inr ps \<and> (prov = JNull \<or> sha_ref prov) \<and>
       registration_dict regv = Some regs \<and> check_registrations regs = Inr () \<and>
       digest = domain_digest ''cathedral-thin-vector-v3'' (vector_document ps prov regs)"
  unfolding vector_digest_def
  by (elim bindE_InrE guardE_InrE, cases "registration_dict regv") (auto elim!: bindE_InrE)

text \<open>A digest that could be computed pins the types of the vector, and can be recomputed from
  the typed lists.\<close>

lemma vector_digest_typed:
  assumes "vector_digest uv wv hv prov regv = Inr digest"
  shows "vector_digest (JArr (map JInt (ints_of (list_of uv)))) (JArr (list_of wv))
     (JArr (map JStr (strs_of (list_of hv)))) (opt_str (case prov of JStr s \<Rightarrow> Some s | _ \<Rightarrow> None))
     (JObj (map (\<lambda>(k, v). (k, JStr v)) (case regv of JObj kvs \<Rightarrow> map (\<lambda>(k, v). (k, py_str v)) kvs | _ \<Rightarrow> [])))
    = Inr digest"
proof -
  from vector_digest_parts [OF assms] obtain us ws hs ps regs where us: "items_list uv = Inr us"
    and ws: "items_list wv = Inr ws" and hs: "items_list hv = Inr hs"
    and len: "length us = length ws" "length us = length hs" "us \<noteq> []"
    and ps: "vector_pairs [] (zip us (zip ws hs)) = Inr ps" and prov: "prov = JNull \<or> sha_ref prov"
    and regs: "registration_dict regv = Some regs" and chk: "check_registrations regs = Inr ()"
    and digest: "digest = domain_digest ''cathedral-thin-vector-v3'' (vector_document ps prov regs)"
    by blast
  have "(\<forall>u \<in> set us. \<exists>n. u = JInt n) \<and> (\<forall>w \<in> set ws. is_number w) \<and> (\<forall>h \<in> set hs. \<exists>s. h = JStr s)"
    by (rule zip3_sets [OF len(1,2) vector_pairs_typed [OF ps]])
  then have ids: "map JInt (ints_of us) = us" "map JStr (strs_of hs) = hs" using ints_of_id strs_of_id by auto
  have p: "opt_str (case prov of JStr s \<Rightarrow> Some s | _ \<Rightarrow> None) = prov"
    using prov by (auto simp: opt_str_def sha_ref_def split: json.splits)
  have "map (\<lambda>(k, v). (k, JStr v)) (map (\<lambda>(k, v). (k, py_str v)) regs) = regs"
    using check_registrations_typed [OF chk] by (induction regs) (auto simp: py_str_def)
  then have r: "map (\<lambda>(k, v). (k, JStr v)) (case regv of JObj kvs \<Rightarrow> map (\<lambda>(k, v). (k, py_str v)) kvs | _ \<Rightarrow> []) = regs"
    using regs by (cases regv) (auto simp: registration_dict_def)
  show ?thesis
    using len ps prov chk unfolding p r digest
    by (simp add: vector_digest_def items_list_def [of "JArr _"] registration_dict_def [of "JObj _"]
        list_of_def us ws hs ids guardE_def)
qed

lemma check_pending_ok: "check_pending d = Inr p \<Longrightarrow> pending_ok p"
proof -
  assume a: "check_pending d = Inr p"
  then obtain expected where e: "vector_digest (jget d ''uids'') (jget d ''weights'') (jget d ''hotkeys'')
      (jget d ''provenance_digest'') (jget d ''registration_ids'') = Inr expected"
    by (auto simp: check_pending_def elim!: bindE_InrE)
  then obtain digest where "jget d ''digest'' = JStr digest"
    using a by (cases "jget d ''digest''") (auto simp: check_pending_def)
  then have c: "compare_digest expected digest = Inr True" "nat_field (jget d ''attempts'')"
      "nat_field (jget d ''next_retry_at_ms'')"
    and p: "pv_digest p = digest" "pv_uids p = ints_of (list_of (jget d ''uids''))"
      "pv_weights p = list_of (jget d ''weights'')" "pv_hotkeys p = strs_of (list_of (jget d ''hotkeys''))"
      "pv_provenance p = (case jget d ''provenance_digest'' of JStr s \<Rightarrow> Some s | _ \<Rightarrow> None)"
      "pv_registrations p = (case jget d ''registration_ids'' of
          JObj kvs \<Rightarrow> map (\<lambda>(k, v). (k, py_str v)) kvs | _ \<Rightarrow> [])"
      "pv_attempts p = int_field (jget d ''attempts'')" "pv_next_retry p = int_field (jget d ''next_retry_at_ms'')"
    using a e unfolding check_pending_def by (auto elim!: bindE_InrE guardE_InrE)
  have "expected = digest" using c(1) by (simp add: compare_digest_def split: if_splits)
  moreover have "pending_digest p = Inr expected"
    unfolding pending_digest_def p by (rule vector_digest_typed [OF e])
  moreover have "0 \<le> int_field v" if "nat_field v" for v
    using that by (cases v) (auto simp: nat_field_def int_field_def)
  ultimately show ?thesis using c(2,3) p by (simp add: pending_ok_def)
qed

lemma check_state_ok:
  assumes "check_state st raw = Inr st'" "vs_schema st = STATE_SCHEMA" "vs_fingerprint st = fp"
    and "master_secret st = Inr secret"
  shows "state_ok fp st'"
proof -
  have sec: "length secret = 32" using assms(4)
    by (auto simp: master_secret_def elim!: resE split: sum.splits)
  from assms(1) obtain p where
    raw: "(case raw of None \<Rightarrow> Inr None | Some d \<Rightarrow> bindE (check_pending d) (\<lambda>p. Inr (Some p))) = Inr p"
    and chk: "list_all class_checkpoint_ok (vs_class_checkpoints st)"
      "list_all registration_checkpoint_ok (vs_registration_checkpoints st)"
      "\<forall>kv \<in> set (vs_ema st). \<not> (\<not> isfinite (snd kv) \<or> f_less (snd kv) (Fin 0))"
    and st': "st' = st\<lparr>vs_pending := p\<rparr>"
    unfolding check_state_def by (elim bindE_InrE guardE_InrE) simp
  have p: "case p of None \<Rightarrow> True | Some q \<Rightarrow> pending_ok q"
    using raw check_pending_ok by (cases raw) (auto elim!: bindE_InrE)
  have "master_secret st' = master_secret st" by (simp add: st' master_secret_def)
  then show ?thesis using p chk assms(2-4) sec by (simp add: state_ok_def st' nonneg_def)
qed

lemma fromhex_hex_of: "fromhex (hex_of bs) = Inr bs"
proof (induction bs)
  case (Cons b bs)
  have lt: "unat b div 16 < 16" "unat b mod 16 < 16" using unat_byte_less [of b] by auto
  have ns: "\<not> ascii_space (hex_char v)" if "v < 16" for v
    using hex_char_cases [OF that] by (auto simp: ascii_space_def code_def)
  have "hex_of (b # bs) = hex_char (unat b div 16) # hex_char (unat b mod 16) # hex_of bs"
    by (simp add: hex_of_def)
  then show ?case using Cons ns [OF lt(1)] hex_value_char [OF lt(1)] hex_value_char [OF lt(2)]
    by (simp add: mult.commute [of 16])
qed (simp add: hex_of_def)

lemma load_ok:
  assumes "load_or_create allow fp entropy fault sf = (sf', Inr st)" "length entropy = 32"
  shows "state_ok fp st"
proof (cases "sf_file sf")
  case None
  then have "st = fresh_state fp entropy"
    using assms(1) by (auto simp: load_or_create_def split: prod.splits elim!: bindE_InrE)
  then show ?thesis using assms(2)
    by (simp add: state_ok_def fresh_state_def STATE_SCHEMA_def master_secret_def fromhex_hex_of guardE_def)
next
  case (Some content)
  let ?parsed = "corrupt_state (bindE (case content of None \<Rightarrow> Inl PyUnicodeError
    | Some txt \<Rightarrow> json_loads plain_hooks txt) parse_state)"
  obtain st0 raw where parsed: "?parsed = Inr (st0, raw)"
    using assms(1) by (cases ?parsed) (auto simp: load_or_create_def Some split: if_split_asm)
  obtain secret where sec: "master_secret st0 = Inr secret"
    using assms(1) by (cases "master_secret st0") (auto simp: load_or_create_def Some parsed split: if_split_asm)
  have schema: "vs_schema st0 = STATE_SCHEMA"
    using assms(1) by (auto simp: load_or_create_def Some parsed split: if_split_asm)
  show ?thesis
  proof (cases "vs_fingerprint st0 = fp")
    case True
    then have "check_state st0 raw = Inr st"
      using assms(1) by (auto simp: load_or_create_def Some parsed sec split: if_split_asm)
    then show ?thesis using check_state_ok schema True sec by blast
  next
    case False
    then have "check_state (accept_config fp st0) None = Inr st"
      using assms(1) by (auto simp: load_or_create_def Some parsed sec Let_def split: if_split_asm prod.splits sum.splits)
    moreover have "master_secret (accept_config fp st0) = Inr secret"
      using sec by (simp add: master_secret_def accept_config_def)
    ultimately show ?thesis using check_state_ok schema by (simp add: accept_config_def)
  qed
qed

section \<open>The pending vector as a state machine\<close>

text \<open>The operations a running validator applies to its state; times are non-negative.\<close>

inductive pending_step :: "validator_state \<Rightarrow> validator_state \<Rightarrow> bool" where
  mark: "mark_pending st uids weights hotkeys prov regs = Inr st' \<Longrightarrow> pending_step st st'"
| fail: "note_submission_failure st now base mx amb = Inr st' \<Longrightarrow> 0 \<le> now \<Longrightarrow> 0 \<le> base \<Longrightarrow> 0 \<le> mx \<Longrightarrow>
    pending_step st st'"
| success: "note_submission_success st = Inr st' \<Longrightarrow> pending_step st st'"

inductive pending_reach :: "validator_state \<Rightarrow> validator_state \<Rightarrow> bool" where
  start: "pending_reach st st"
| step: "pending_reach st st' \<Longrightarrow> pending_step st' st'' \<Longrightarrow> pending_reach st st''"

inductive_cases pending_stepE: "pending_step st st'"

lemma retry_delay_bounds:
  assumes "1 \<le> attempts" "0 \<le> base" "base \<le> mx"
  shows "base \<le> retry_delay base mx attempts \<and> retry_delay base mx attempts \<le> mx"
proof -
  have "base * 1 \<le> base * 2 ^ nat (min 10 (attempts - 1))"
    using assms(2) by (intro mult_left_mono) simp_all
  then show ?thesis using assms(3) by (simp add: retry_delay_def)
qed

lemma retry_delay_nonneg: "0 \<le> base \<Longrightarrow> 0 \<le> mx \<Longrightarrow> 0 \<le> retry_delay base mx attempts"
  by (simp add: retry_delay_def)

lemma retry_delay_mono:
  assumes "0 \<le> base" "a \<le> b"
  shows "retry_delay base mx a \<le> retry_delay base mx b"
proof -
  have "nat (min 10 (a - 1)) \<le> nat (min 10 (b - 1))" using assms(2) by simp
  then have "(2::int) ^ nat (min 10 (a - 1)) \<le> 2 ^ nat (min 10 (b - 1))" by (intro power_increasing) simp_all
  then have "base * 2 ^ nat (min 10 (a - 1)) \<le> base * 2 ^ nat (min 10 (b - 1))"
    using assms(1) by (intro mult_left_mono)
  then show ?thesis by (simp add: retry_delay_def min.coboundedI2 min.mono)
qed

lemma pending_digest_mark:
  assumes "mark_pending st uids weights hotkeys prov regs = Inr st'"
  shows "\<exists>p. vs_pending st' = Some p \<and> pv_uids p = uids \<and> pv_weights p = map JFloat weights \<and>
    pv_hotkeys p = hotkeys \<and> pv_registrations p = sort_items regs \<and> pv_provenance p = prov \<and>
    vector_digest (JArr (map JInt uids)) (JArr (map JFloat weights)) (JArr (map JStr hotkeys))
      (opt_str prov) (JObj (map (\<lambda>(k, v). (k, JStr v)) regs)) = Inr (pv_digest p) \<and>
    pv_attempts p = 0 \<and> pv_next_retry p = 0 \<and> \<not> pv_ambiguous p"
  using assms by (auto simp: mark_pending_def elim!: bindE_InrE)

text \<open>Sorting the registrations first does not change the digest.\<close>

lemma check_registrations_set:
  "check_registrations a = Inr () \<longleftrightarrow> (\<forall>(k, v) \<in> set a. k \<noteq> [] \<and> sha_ref v)"
  unfolding check_registrations_def
proof (induction a)
  case (Cons kv a)
  then show ?case by (cases kv) (auto simp: guardE_def)
qed simp

lemma vector_digest_sorted:
  assumes "vector_digest u w h prov (JObj regs) = Inr digest"
  shows "vector_digest u w h prov (JObj (sort_items regs)) = Inr digest"
proof -
  from assms have "check_registrations regs = Inr ()" by (auto simp: registration_dict_def dest!: vector_digest_parts)
  then have "check_registrations (sort_items regs) = Inr ()" by (simp add: check_registrations_set)
  then show ?thesis using vector_digest_parts [OF assms]
    by (auto simp: vector_digest_def registration_dict_def vector_document_def guardE_def)
qed

lemma pending_step_ok:
  assumes "pending_step st st'" "state_ok fp st"
  shows "state_ok fp st'"
  using assms(1)
proof (cases rule: pending_step.cases)
  case (mark uids weights hotkeys prov regs)
  then obtain p where p: "vs_pending st' = Some p" "pv_uids p = uids" "pv_weights p = map JFloat weights"
    "pv_hotkeys p = hotkeys" "pv_registrations p = sort_items regs" "pv_provenance p = prov"
    "vector_digest (JArr (map JInt uids)) (JArr (map JFloat weights)) (JArr (map JStr hotkeys))
      (opt_str prov) (JObj (map (\<lambda>(k, v). (k, JStr v)) regs)) = Inr (pv_digest p)"
    "pv_attempts p = 0" "pv_next_retry p = 0"
    using pending_digest_mark by metis
  have "sort_items (map (\<lambda>(k, v). (k, JStr v)) regs) = map (\<lambda>(k, v). (k, JStr v)) (sort_items regs)"
    by (rule sort_items_map) auto
  then have "pending_ok p" using vector_digest_sorted [OF p(7)] p
    by (simp add: pending_ok_def pending_digest_def)
  moreover have "st' = st\<lparr>vs_pending := vs_pending st'\<rparr>"
    using mark by (auto simp: mark_pending_def elim!: bindE_InrE)
  ultimately show ?thesis using assms(2) p(1)
    by (metis (no_types, lifting) master_secret_def option.simps(5) state_ok_def validator_state.select_convs
        validator_state.surjective validator_state.update_convs(6))
next
  case (fail now base mx amb)
  then obtain p where p: "vs_pending st = Some p" and st': "st' = st\<lparr>vs_pending := Some (p\<lparr>pv_attempts := pv_attempts p + 1,
      pv_ambiguous := amb, pv_next_retry := now + retry_delay base mx (pv_attempts p + 1)\<rparr>)\<rparr>"
    by (auto simp: note_submission_failure_def split: option.splits)
  have "pending_ok p" using assms(2) p by (simp add: state_ok_def)
  then show ?thesis using assms(2) fail retry_delay_nonneg
    by (simp add: state_ok_def st' master_secret_def pending_ok_def pending_digest_def)
next
  case success
  then show ?thesis using assms(2)
    by (auto simp: note_submission_success_def state_ok_def master_secret_def split: option.splits)
qed

lemma pending_reach_ok: "pending_reach st st' \<Longrightarrow> state_ok fp st \<Longrightarrow> state_ok fp st'"
  by (induction rule: pending_reach.induct) (auto intro: pending_step_ok)

section \<open>Properties of the durable state\<close>

lemmas save_defs = save_trace_def write_temporary_def sync_directory_def remove_temporary_def open_temporary_def
  andthen_def ensuring_def sys_def

lemmas effect_defs = open_effect_def write_effect_def fsync_effect_def replace_effect_def sync_effect_def
  unlink_effect_def on_disk_def

definition state_text :: "validator_state \<Rightarrow> string option option" where
  "state_text st = Some (Some (dumps (state_json st) @ [LF]))"

text \<open>\<open>old_or_new\<close>: a reader, and a restart after a power loss, find a content the old store
  allowed or the complete new one.\<close>

definition old_or_new :: "store \<Rightarrow> string option option \<Rightarrow> store \<Rightarrow> bool" where
  "old_or_new sf new s \<longleftrightarrow>
     sf_file s \<in> {sf_file sf, new} \<and> set (sf_disk s) \<subseteq> set (sf_disk sf) \<union> {new}"

definition untouched :: "store \<Rightarrow> store \<Rightarrow> bool" where
  "untouched sf s \<longleftrightarrow> sf_file s = sf_file sf \<and> sf_disk s = sf_disk sf"

lemma untouched_old: "untouched sf s \<Longrightarrow> old_or_new sf new s"
  unfolding untouched_def old_or_new_def by (metis Un_upper1 insertI1)

lemma synced_new: "old_or_new sf new s \<Longrightarrow> old_or_new sf new (s\<lparr>sf_disk := [new]\<rparr>)"
  by (simp add: old_or_new_def)

text \<open>Writing the temporary file does not touch the state file, and the text is on the disk when it succeeds.\<close>

lemma write_temporary_steps:
  assumes "write_temporary f raw h = (h', r)" "h \<noteq> []" "\<forall>s \<in> set h. untouched sf s"
  shows "h' \<noteq> [] \<and> (\<forall>s \<in> set h'. untouched sf s) \<and> (r = Inl PyOSError \<or>
    r = Inr () \<and> sf_tmp (hd h') = Some raw \<and> sf_tmp_synced (hd h'))"
proof -
  obtain s h0 where h: "h = s # h0" using assms(2) by (cases h) auto
  show ?thesis using assms(1,3) unfolding h
    by (auto simp: save_defs effect_defs untouched_def split: if_split_asm prod.splits sum.splits)
qed

lemma sync_directory_steps:
  assumes "sync_directory f h = (h', r)" "h \<noteq> []" "sf_synced (hd h)" "sf_file (hd h) = Some (Some raw)"
    "\<forall>s \<in> set h. old_or_new sf (Some (Some raw)) s"
  shows "h' \<noteq> [] \<and> (\<forall>s \<in> set h'. old_or_new sf (Some (Some raw)) s) \<and> r = Inr () \<and>
    sf_file (hd h') = Some (Some raw) \<and> sf_tmp (hd h') = sf_tmp (hd h) \<and>
    (ft_fails f \<inter> {CallOpenDir, CallFsyncDir} = {} \<longrightarrow> sf_disk (hd h') = [Some (Some raw)])"
proof -
  obtain s h0 where h: "h = s # h0" using assms(2) by (cases h) auto
  show ?thesis using assms(1,3,4,5) unfolding h
    by (auto simp: save_defs effect_defs synced_new split: if_split_asm prod.splits sum.splits)
qed

lemma save_trace_steps:
  assumes "save_trace f sf st = (h, r)"
  shows "h \<noteq> [] \<and> (\<forall>s \<in> set h. old_or_new sf (state_text st) s) \<and>
    (if r = Inr ()
     then sf_file (hd h) = state_text st \<and> sf_tmp (hd h) = None \<and>
       (ft_fails f \<inter> {CallOpenDir, CallFsyncDir} = {} \<longrightarrow> sf_disk (hd h) = [state_text st])
     else r = Inl PyOSError \<and> untouched sf (hd h) \<and>
       (sf_tmp sf = None \<and> CallUnlink \<notin> ft_fails f \<longrightarrow> sf_tmp (hd h) = None))"
proof (cases "CallMkdir \<in> ft_fails f")
  case True
  then show ?thesis using assms
    by (auto simp: save_trace_def andthen_def sys_def Let_def untouched_def old_or_new_def)
next
  case False
  let ?raw = "dumps (state_json st) @ [LF]"
  obtain h1 r1 where w: "write_temporary f ?raw [sf, sf] = (h1, r1)" by fastforce
  have w': "h1 \<noteq> []" "\<forall>s \<in> set h1. untouched sf s" "r1 = Inl PyOSError \<or>
      r1 = Inr () \<and> sf_tmp (hd h1) = Some ?raw \<and> sf_tmp_synced (hd h1)"
    using write_temporary_steps [OF w, of sf] by (auto simp: untouched_def)
  have removal: "\<exists>h2 r2. remove_temporary f g = (h2, r2) \<and> h2 \<noteq> [] \<and> (set h2 \<subseteq> insert (hd h2) (set g)) \<and>
      untouched (hd g) (hd h2) \<and> (r2 = Inl PyOSError \<and> CallUnlink \<in> ft_fails f \<and> sf_tmp (hd g) \<noteq> None \<or>
        r2 = Inr () \<and> sf_tmp (hd h2) = None)" if "g \<noteq> []" for g
    using that by (cases g) (auto simp: remove_temporary_def sys_def untouched_def unlink_effect_def)
  have failed: ?thesis if body: "andthen (write_temporary f ?raw)
      (andthen (sys f CallReplace replace_effect id) (sync_directory f)) [sf, sf] = (g, Inl PyOSError)"
      and g: "g \<noteq> []" "\<forall>s \<in> set g. untouched sf s" for g
  proof -
    obtain h2 r2 where rem: "remove_temporary f g = (h2, r2)" "h2 \<noteq> []" "set h2 \<subseteq> insert (hd h2) (set g)"
        "untouched (hd g) (hd h2)" "r2 = Inl PyOSError \<and> CallUnlink \<in> ft_fails f \<or> r2 = Inr () \<and> sf_tmp (hd h2) = None"
      using removal [OF g(1)] by blast
    have res: "h = h2 \<and> r = Inl PyOSError" using assms False body rem(1,5)
      by (auto simp: save_trace_def andthen_def [of "sys f CallMkdir id id"] sys_def ensuring_def Let_def)
    have "untouched sf (hd g)" using g by simp
    then have "untouched sf (hd h2)" using rem(4) by (simp add: untouched_def)
    moreover have "\<forall>s \<in> set h2. old_or_new sf (state_text st) s"
      using rem(3) g(2) \<open>untouched sf (hd h2)\<close> by (blast intro: untouched_old)
    ultimately show ?thesis using res rem(2,5) by auto
  qed
  show ?thesis
  proof (cases "r1 = Inl PyOSError")
    case True
    then show ?thesis using failed [of h1] w w'(1,2) by (simp add: andthen_def)
  next
    case written: False
    show ?thesis
    proof (cases "CallReplace \<in> ft_fails f")
      case True
      have "\<forall>s \<in> set (hd h1 # h1). untouched sf s" using w'(1,2) by simp
      then show ?thesis using failed [of "hd h1 # h1"] w w'(3) written True
        by (auto simp: andthen_def sys_def)
    next
      case False
      let ?g = "replace_effect (hd h1) # h1"
      have disk: "untouched sf (hd h1)" using w'(1,2) by simp
      have "old_or_new sf (state_text st) (replace_effect (hd h1))"
        using disk w'(3) written by (auto simp: old_or_new_def untouched_def effect_defs state_text_def)
      then have g: "\<forall>s \<in> set ?g. old_or_new sf (state_text st) s" using w'(2) untouched_old by auto
      obtain h2 r2 where d: "sync_directory f ?g = (h2, r2)" by fastforce
      have d': "h2 \<noteq> []" "\<forall>s \<in> set h2. old_or_new sf (state_text st) s" "r2 = Inr ()"
          "sf_file (hd h2) = state_text st" "sf_tmp (hd h2) = None"
          "ft_fails f \<inter> {CallOpenDir, CallFsyncDir} = {} \<longrightarrow> sf_disk (hd h2) = [state_text st]"
        using sync_directory_steps [OF d, of ?raw sf] g w'(3) written
        by (auto simp: replace_effect_def state_text_def)
      have "h = h2 \<and> r = Inr ()" using assms \<open>CallMkdir \<notin> _\<close> w w'(3) written False d d'(3,5)
        by (auto simp: save_trace_def andthen_def sys_def ensuring_def Let_def remove_temporary_def)
      then show ?thesis using d' by simp
    qed
  qed
qed

lemma save_state_cases:
  assumes "save_state f sf st = (sf', r)"
  shows "r = Inr () \<and> sf_file sf' = state_text st \<or> r = Inl PyOSError \<and> sf_file sf' = sf_file sf"
proof -
  obtain h where t: "save_trace f sf st = (h, r)" "sf' = hd h"
    using assms by (auto simp: save_state_def split: prod.splits)
  show ?thesis using save_trace_steps [OF t(1)] t(2) by (auto simp: untouched_def split: if_split_asm)
qed

text \<open>C8. A save is atomic, also under crashes. Whichever of its system calls fail, in every store
  between two of them a reader of the state file finds the old content or the complete new
  text, and so does a restart when the power fails there: the data is synced before the rename.
  A save that returns leaves the new text and no temporary file, and only the new text can
  survive a power loss unless the directory could not be synced; a save that raises has changed
  nothing of the state file, and removes its temporary file unless that fails.\<close>

theorem save_is_atomic:
  assumes "save_trace f sf st = (h, r)" "new = Some (Some (dumps (state_json st) @ [LF]))"
  shows "save_state f sf st = (hd h, r) \<and>
    (\<forall>s \<in> set h. sf_file s \<in> {sf_file sf, new} \<and> set (sf_disk s) \<subseteq> set (sf_disk sf) \<union> {new}) \<and>
    (if r = Inr ()
     then sf_file (hd h) = new \<and> sf_tmp (hd h) = None \<and>
       (ft_fails f \<inter> {CallOpenDir, CallFsyncDir} = {} \<longrightarrow> sf_disk (hd h) = [new])
     else r = Inl PyOSError \<and> sf_file (hd h) = sf_file sf \<and> sf_disk (hd h) = sf_disk sf \<and>
       (sf_tmp sf = None \<and> CallUnlink \<notin> ft_fails f \<longrightarrow> sf_tmp (hd h) = None))"
  using save_trace_steps [OF assms(1)] assms
  by (auto simp: save_state_def old_or_new_def untouched_def state_text_def)

definition empty_store :: store where
  "empty_store = \<lparr>sf_file = None, sf_synced = False, sf_disk = [None], sf_symlink = False, sf_chmod_ok = True,
     sf_tmp = None, sf_tmp_synced = False\<rparr>"

theorem save_is_atomic_witness:
  "\<exists>h. save_trace \<lparr>ft_fails = {CallReplace, CallClose}, ft_written = 3\<rparr> empty_store (fresh_state ''fp'' []) = (h, Inl PyOSError) \<and>
     sf_file (hd h) = None \<and> sf_disk (hd h) = [None] \<and> sf_tmp (hd h) = None"
proof -
  let ?f = "\<lparr>ft_fails = {CallReplace, CallClose}, ft_written = 3\<rparr>"
  obtain h where t: "save_trace ?f empty_store (fresh_state ''fp'' []) = (h, Inl PyOSError)"
    by (simp add: save_defs Let_def empty_store_def effect_defs)
  from save_is_atomic [OF t refl] t show ?thesis by (simp add: empty_store_def)
qed

text \<open>A save without faults, and one whose write fails.\<close>

lemma save_works: "sf_tmp sf = None \<Longrightarrow> \<exists>sf'. save_state NoFault sf st = (sf', Inr ())"
  by (simp add: save_state_def save_defs effect_defs Let_def)

lemma save_write_fails:
  assumes "sf_tmp sf = None" "ft_fails f = {CallWrite}"
  shows "\<exists>sf'. save_state f sf st = (sf', Inl PyOSError) \<and> sf_file sf' = sf_file sf"
  using assms by (simp add: save_state_def save_defs effect_defs Let_def)

text \<open>C9. Every state that \<open>load_or_create\<close> returns satisfies the invariant the validator
  relies on, whatever the file held: the schema and fingerprint are current, the secret has 32
  bytes, the pending vector hashes to its digest, every checkpoint is well formed and every
  score is finite and non-negative. Otherwise the load raises.\<close>

theorem load_establishes_invariant:
  "load_or_create allow fp entropy fault sf = (sf', Inr st) \<Longrightarrow> length entropy = 32 \<Longrightarrow> state_ok fp st"
  by (rule load_ok)

lemma demo_load: "\<exists>sf'. load_or_create False ''fp'' (replicate 32 7) NoFault empty_store
    = (sf', Inr (fresh_state ''fp'' (replicate 32 7)))"
  using save_works [of empty_store "fresh_state ''fp'' (replicate 32 7)"]
  by (auto simp: load_or_create_def empty_store_def)

theorem load_establishes_invariant_witness: "state_ok ''fp'' (fresh_state ''fp'' (replicate 32 7))"
proof -
  from demo_load obtain sf' where "load_or_create False ''fp'' (replicate 32 7) NoFault empty_store
    = (sf', Inr (fresh_state ''fp'' (replicate 32 7)))" ..
  from load_establishes_invariant [OF this] show ?thesis by simp
qed

text \<open>C10. Marking, failing and confirming keep that invariant: in every state reachable by any
  interleaving of the three operations the pending vector still hashes to its digest and its
  retry metadata is non-negative, so the next load accepts it.\<close>

theorem pending_machine_invariant:
  "pending_reach st st' \<Longrightarrow> state_ok fp st \<Longrightarrow> state_ok fp st'"
  by (rule pending_reach_ok)

lemma demo_state_ok: "state_ok ''fp'' (fresh_state ''fp'' (replicate 32 7))"
  using demo_load load_ok by fastforce

lemma demo_mark: "\<exists>st'. mark_pending (fresh_state ''fp'' (replicate 32 7)) [0, 4] [Fin 1, Fin 0] [''a'', ''b''] None []
    = Inr st' \<and> vs_pending st' \<noteq> None"
  by (simp add: mark_pending_def vector_digest_def items_list_def typed_entry_def is_number_def py_to_float_def
      guardE_def f_less_fin opt_str_def registration_dict_def check_registrations_def)

theorem pending_machine_invariant_witness:
  "\<exists>st' st''. mark_pending (fresh_state ''fp'' (replicate 32 7)) [0, 4] [Fin 1, Fin 0] [''a'', ''b''] None [] = Inr st' \<and>
     note_submission_failure st' 1000 15000 900000 True = Inr st'' \<and> state_ok ''fp'' st''"
proof -
  obtain st' where m: "mark_pending (fresh_state ''fp'' (replicate 32 7)) [0, 4] [Fin 1, Fin 0] [''a'', ''b''] None []
      = Inr st'" "vs_pending st' \<noteq> None" using demo_mark by blast
  then obtain st'' where f: "note_submission_failure st' 1000 15000 900000 True = Inr st''"
    by (auto simp: note_submission_failure_def)
  have "pending_reach (fresh_state ''fp'' (replicate 32 7)) st''"
    using pending_reach.step [OF pending_reach.step [OF start mark [OF m(1)]] fail [OF f]] by simp
  from pending_machine_invariant [OF this demo_state_ok] m(1) f show ?thesis by blast
qed

text \<open>The retry backoff of the code's defaults: after every failure the next retry is
  between the base and the maximum delay away, and the delay never shrinks as attempts grow.\<close>

lemma backoff_bounded_and_monotone:
  assumes "note_submission_failure st now base mx amb = Inr st'" "vs_pending st = Some p"
    and "0 \<le> pv_attempts p" "0 \<le> base" "base \<le> mx"
  shows "\<exists>p'. vs_pending st' = Some p' \<and> pv_attempts p' = pv_attempts p + 1 \<and> pv_ambiguous p' = amb \<and>
    now + base \<le> pv_next_retry p' \<and> pv_next_retry p' \<le> now + mx \<and> pv_digest p' = pv_digest p \<and>
    (\<forall>n \<ge> pv_attempts p'. now + retry_delay base mx n \<ge> pv_next_retry p')"
  using assms retry_delay_bounds [of "pv_attempts p + 1" base mx] retry_delay_mono
  by (auto simp: note_submission_failure_def)

lemma backoff_bounded_and_monotone_witness:
  "\<exists>st p st'. note_submission_failure st 1000 15000 900000 True = Inr st' \<and> vs_pending st = Some p \<and>
     (\<exists>p'. vs_pending st' = Some p' \<and> 16000 \<le> pv_next_retry p' \<and> pv_next_retry p' \<le> 901000)"
proof -
  let ?p = "\<lparr>pv_digest = ''d'', pv_uids = [0], pv_weights = [JInt 1], pv_hotkeys = [''a''], pv_provenance = None,
    pv_registrations = [], pv_attempts = 3, pv_next_retry = 0, pv_ambiguous = False\<rparr>"
  let ?st = "(fresh_state ''fp'' [])\<lparr>vs_pending := Some ?p\<rparr>"
  obtain st' where f: "note_submission_failure ?st 1000 15000 900000 True = Inr st'"
    by (simp add: note_submission_failure_def)
  from backoff_bounded_and_monotone [OF f, of ?p] f show ?thesis
    by (intro exI [of _ ?st] exI [of _ ?p] exI [of _ st']) auto
qed

text \<open>A state file that holds a JSON document which is not an object is not reported as corrupt: the
  AttributeError of \<open>payload.get\<close> is in no handler.\<close>

lemma foreign_document_escapes:
  "load_or_create allow fp entropy fault (empty_store\<lparr>sf_file := Some (Some ''[]'')\<rparr>)
     = ((empty_store\<lparr>sf_file := Some (Some ''[]'')\<rparr>), Inl PyAttributeError)"
proof -
  have "json_loads plain_hooks ''[]'' = Inr (JArr [])" by code_simp
  then show ?thesis by (simp add: load_or_create_def corrupt_state_def parse_state_def items_attr_def empty_store_def)
qed

end
