(* ===== verification/Score_Json.thy ===== *)
theory Score_Json
  imports Core_Scores
begin

text \<open>
  \<open>cathedral_thin/score_classes.py\<close>, the shared ground of the signed artifacts: strict JSON,
  canonical JSON, the syntactic validators (identifiers, key ids, digests, decimals, times),
  and the URL checks. The functions \<open>parse_strict_json\<close> and \<open>canonical_json\<close> are those of an
  interpreter whose stack suffices; \<open>parse_strict_json_within\<close> and \<open>canonical_json_within\<close> have
  the stack as an argument and turn its overflow into the error the code reports. The lemmas
  show how the two pairs are related and that strict parsing and canonical printing are
  inverse, so that a signed body and its bytes determine each other.
\<close>

section \<open>Strict and canonical JSON\<close>

definition MAX_REPORT_BYTES :: int where "MAX_REPORT_BYTES = 1048576"
definition MAX_REPORT_ENTRIES :: nat where "MAX_REPORT_ENTRIES = 4096"
definition MAX_EVIDENCE_PER_ENTRY :: nat where "MAX_EVIDENCE_PER_ENTRY = 32"
definition MAX_METRICS_PER_ENTRY :: nat where "MAX_METRICS_PER_ENTRY = 32"

fun reject_pairs_from :: "jdict \<Rightarrow> jdict \<Rightarrow> json res" where
  "reject_pairs_from out [] = Inr (JObj out)"
| "reject_pairs_from out ((k, v) # kvs) =
     (if k \<in> fst ` set out then raise (''duplicate JSON key: '' @ k)
      else reject_pairs_from (dict_set k v out) kvs)"

definition reject_pairs :: "jdict \<Rightarrow> json res" where
  "reject_pairs kvs = reject_pairs_from [] kvs"

definition parse_int64 :: "string \<Rightarrow> json res" where
  "parse_int64 s =
     (case py_int s of
        None \<Rightarrow> Inl PyValueError
      | Some n \<Rightarrow> guardE (\<not> (- (2 ^ 63) \<le> n \<and> n \<le> 2 ^ 63 - 1)) ''JSON integer outside signed 64-bit range''
          (Inr (JInt n)))"

definition strict_hooks :: json_hooks where
  "strict_hooks = \<lparr>h_int = parse_int64,
     h_float = (\<lambda>x. raise ''floating-point JSON is forbidden; use decimal strings''),
     h_const = (\<lambda>x. raise ''non-finite JSON is forbidden''),
     h_pairs = reject_pairs\<rparr>"

text \<open>\<open>raw.decode("utf-8")\<close>, for the code points the model's text has.\<close>

fun utf8_decode :: "bytes \<Rightarrow> string res" where
  "utf8_decode [] = Inr []"
| "utf8_decode (b # bs) =
     (if unat b < 128 then bindE (utf8_decode bs) (\<lambda>s. Inr (char_of_byte b # s))
      else if 194 \<le> unat b \<and> unat b \<le> 195 then
        (case bs of
           [] \<Rightarrow> Inl PyUnicodeError
         | c # cs \<Rightarrow>
             if 128 \<le> unat c \<and> unat c < 192
             then bindE (utf8_decode cs) (\<lambda>s. Inr (char_of (64 * (unat b - 192) + (unat c - 128)) # s))
             else Inl PyUnicodeError)
      else Inl PyUnicodeError)"

text \<open>Python recurses once for each level of arrays and objects, in the reader and in the printer, and
  raises RecursionError when the stack has no room for another level. \<open>room\<close> is the number of
  levels that still fit: it depends on the interpreter and on the caller. Of a text that nests too
  deep and breaks another rule of the dialect the model reports the broken rule.\<close>

fun nesting :: "json \<Rightarrow> nat" where
  "nesting (JArr vs) = Suc (Max (insert 0 (set (map nesting vs))))"
| "nesting (JObj kvs) = Suc (Max (insert 0 (set (map (\<lambda>(k, v). nesting v) kvs))))"
| "nesting JNull = 0"
| "nesting (JBool b) = 0"
| "nesting (JInt n) = 0"
| "nesting (JFloat x) = 0"
| "nesting (JStr s) = 0"

definition parse_strict_json_within :: "nat \<Rightarrow> bytes \<Rightarrow> int \<Rightarrow> jdict res" where
  "parse_strict_json_within room raw maximum_bytes =
     guardE (raw = [] \<or> int (length raw) > maximum_bytes)
       ''JSON artifact is empty or exceeds the size limit''
     (case bindE (utf8_decode raw) (\<lambda>s. bindE (json_loads strict_hooks s) (\<lambda>v.
             if room < nesting v then Inl PyRecursionError else Inr v)) of
        Inl (ThinSubnetError m) \<Rightarrow> raise m
      | Inl e \<Rightarrow> raise ''artifact is not strict UTF-8 JSON''
      | Inr (JObj d) \<Rightarrow> Inr d
      | Inr v \<Rightarrow> raise ''artifact must be a JSON object'')"

definition canonical_json_within :: "nat \<Rightarrow> jdict \<Rightarrow> bytes res" where
  "canonical_json_within room d =
     (case if room < nesting (JObj d) then Inl PyRecursionError else Inr (canonical_bytes (JObj d)) of
        Inl e \<Rightarrow> raise ''artifact contains a non-canonical value''
      | Inr raw \<Rightarrow> Inr raw)"

text \<open>The same functions on a stack with room enough, as the rest of the development uses them:
  the limited ones give the same results on every document that fits and refuse the others.\<close>

definition parse_strict_json :: "bytes \<Rightarrow> int \<Rightarrow> jdict res" where
  "parse_strict_json raw maximum_bytes =
     guardE (raw = [] \<or> int (length raw) > maximum_bytes)
       ''JSON artifact is empty or exceeds the size limit''
     (case bindE (utf8_decode raw) (json_loads strict_hooks) of
        Inl (ThinSubnetError m) \<Rightarrow> raise m
      | Inl e \<Rightarrow> raise ''artifact is not strict UTF-8 JSON''
      | Inr (JObj d) \<Rightarrow> Inr d
      | Inr v \<Rightarrow> raise ''artifact must be a JSON object'')"

definition canonical_json :: "jdict \<Rightarrow> bytes" where
  "canonical_json d = canonical_bytes (JObj d)"

definition str_list_repr :: "string list \<Rightarrow> string" where
  "str_list_repr xs = py_repr (JArr (map JStr xs))"

definition require_exact_keys :: "jdict \<Rightarrow> string list \<Rightarrow> string \<Rightarrow> 'a res \<Rightarrow> 'a res" where
  "require_exact_keys d expected label k =
     guardE (\<not> keys_are d expected)
       (label @ '' fields mismatch missing='' @ str_list_repr (sorted_list_of_set (set expected - fst ` set d))
          @ '' unknown='' @ str_list_repr (sorted_list_of_set (fst ` set d - set expected)))
       k"

section \<open>The syntactic validators\<close>

definition is_lower :: "char \<Rightarrow> bool" where
  "is_lower c = (97 \<le> code c \<and> code c \<le> 122)"

definition is_upper :: "char \<Rightarrow> bool" where
  "is_upper c = (65 \<le> code c \<and> code c \<le> 90)"

text \<open>\<open>[a-z][a-z0-9_]{0,63}\<close>, also the pattern of reason codes.\<close>

definition identifier_text :: "string \<Rightarrow> bool" where
  "identifier_text s = (case s of [] \<Rightarrow> False
     | c # cs \<Rightarrow> is_lower c \<and> length cs \<le> 63 \<and> list_all (\<lambda>x. is_lower x \<or> is_digit x \<or> code x = 95) cs)"

text \<open>\<open>[A-Za-z0-9][A-Za-z0-9._:-]{0,127}\<close>.\<close>

definition key_id_text :: "string \<Rightarrow> bool" where
  "key_id_text s = (case s of [] \<Rightarrow> False
     | c # cs \<Rightarrow> (is_lower c \<or> is_upper c \<or> is_digit c) \<and> length cs \<le> 127 \<and>
         list_all (\<lambda>x. is_lower x \<or> is_upper x \<or> is_digit x \<or> code x \<in> {46, 95, 58, 45}) cs)"

definition hex64 :: "string \<Rightarrow> bool" where
  "hex64 s = (length s = 64 \<and> list_all (\<lambda>x. is_digit x \<or> (97 \<le> code x \<and> code x \<le> 102)) s)"

definition digest_text :: "string \<Rightarrow> bool" where
  "digest_text s =
     ((starts_with s ''sha256:'' \<and> hex64 (removeprefix s ''sha256:''))
      \<or> (starts_with s ''receipt-sha256:'' \<and> hex64 (removeprefix s ''receipt-sha256:'')))"

definition identifier_value :: "json \<Rightarrow> string \<Rightarrow> string res" where
  "identifier_value v label = (case v of JStr s \<Rightarrow> if identifier_text s then Inr s else raise (''invalid '' @ label)
     | _ \<Rightarrow> raise (''invalid '' @ label))"

definition key_id_value :: "json \<Rightarrow> string res" where
  "key_id_value v = (case v of JStr s \<Rightarrow> if key_id_text s then Inr s else raise ''invalid signing key id''
     | _ \<Rightarrow> raise ''invalid signing key id'')"

definition digest_value :: "json \<Rightarrow> string \<Rightarrow> string res" where
  "digest_value v label = (case v of JStr s \<Rightarrow> if digest_text s then Inr s else raise (''invalid '' @ label)
     | _ \<Rightarrow> raise (''invalid '' @ label))"

section \<open>Decimals\<close>

text \<open>A parsed decimal: its coefficient and the number of its fractional digits.\<close>

type_synonym dec = "int \<times> nat"

definition dec_val :: "dec \<Rightarrow> rat" where
  "dec_val d = of_int (fst d) / 10 ^ snd d"

text \<open>\<open>str(Decimal)\<close>: fixed notation unless the adjusted exponent is below -6.\<close>

definition dec_str :: "dec \<Rightarrow> string" where
  "dec_str d =
     (let ds = nat_str (nat (fst d)); n = length ds; adj = int n - 1 - int (snd d) in
      if adj \<ge> -6 then
        (if snd d = 0 then ds
         else if snd d < n then take (n - snd d) ds @ ''.'' @ drop (n - snd d) ds
         else ''0.'' @ replicate (snd d - n) CHR ''0'' @ ds)
      else take 1 ds @ (if n > 1 then ''.'' @ drop 1 ds else []) @ ''E'' @ int_str adj)"

text \<open>\<open>(?:0|[1-9][0-9]{0,29})(?:\.[0-9]{1,12})?\<close>.\<close>

definition decimal_text :: "string \<Rightarrow> dec option" where
  "decimal_text s =
     (let ip = takeWhile is_digit s; r = dropWhile is_digit s in
      if ip = [] \<or> length ip > 30 \<or> (length ip > 1 \<and> hd ip = CHR ''0'') then None
      else (case r of
        [] \<Rightarrow> Some (int (digits_value ip), 0)
      | c # fp \<Rightarrow>
          if c = CHR ''.'' \<and> 1 \<le> length fp \<and> length fp \<le> 12 \<and> list_all is_digit fp
          then Some (int (digits_value (ip @ fp)), length fp) else None))"

definition decimal_value :: "json \<Rightarrow> string \<Rightarrow> bool \<Rightarrow> dec res" where
  "decimal_value v label allow_zero =
     (case v of
        JStr s \<Rightarrow>
          (case decimal_text s of
             None \<Rightarrow> raise (label @ '' must be a canonical non-negative decimal string'')
           | Some d \<Rightarrow> guardE (dec_val d < 0 \<or> (\<not> allow_zero \<and> dec_val d = 0)) (''invalid '' @ label) (Inr d))
      | _ \<Rightarrow> raise (label @ '' must be a canonical non-negative decimal string''))"

section \<open>Times\<close>

text \<open>A UTC time is its number of microseconds since 0001-01-01.\<close>

definition leap_year :: "nat \<Rightarrow> bool" where
  "leap_year y = (y mod 4 = 0 \<and> (y mod 100 \<noteq> 0 \<or> y mod 400 = 0))"

definition month_days :: "nat \<Rightarrow> nat \<Rightarrow> nat" where
  "month_days y m = (if m = 2 then (if leap_year y then 29 else 28) else if m \<in> {4, 6, 9, 11} then 30 else 31)"

definition days_before :: "nat \<Rightarrow> nat \<Rightarrow> nat \<Rightarrow> int" where
  "days_before y m d =
     (let p = int y - 1 in
      365 * p + p div 4 - p div 100 + p div 400 + (\<Sum>k \<leftarrow> [1..<m]. int (month_days y k)) + int d - 1)"

definition num_at :: "string \<Rightarrow> nat \<Rightarrow> nat \<Rightarrow> nat" where
  "num_at s i n = digits_value (take n (drop i s))"

definition digits_at :: "string \<Rightarrow> nat \<Rightarrow> nat \<Rightarrow> bool" where
  "digits_at s i n = list_all is_digit (take n (drop i s))"

definition time_shape :: "string \<Rightarrow> bool" where
  "time_shape s =
     (length s = 27 \<and> digits_at s 0 4 \<and> s ! 4 = CHR ''-'' \<and> digits_at s 5 2 \<and> s ! 7 = CHR ''-''
      \<and> digits_at s 8 2 \<and> s ! 10 = CHR ''T'' \<and> digits_at s 11 2 \<and> s ! 13 = CHR '':'' \<and> digits_at s 14 2
      \<and> s ! 16 = CHR '':'' \<and> digits_at s 17 2 \<and> s ! 19 = CHR ''.'' \<and> digits_at s 20 6 \<and> s ! 26 = CHR ''Z'')"

definition time_value :: "string \<Rightarrow> int option" where
  "time_value s =
     (let y = num_at s 0 4; mo = num_at s 5 2; d = num_at s 8 2; h = num_at s 11 2;
          mi = num_at s 14 2; sec = num_at s 17 2; us = num_at s 20 6 in
      if 1 \<le> y \<and> 1 \<le> mo \<and> mo \<le> 12 \<and> 1 \<le> d \<and> d \<le> month_days y mo \<and> h \<le> 23 \<and> mi \<le> 59 \<and> sec \<le> 59
      then Some (((days_before y mo d * 24 + int h) * 60 + int mi) * 60000000 + int sec * 1000000 + int us)
      else None)"

definition parse_time :: "json \<Rightarrow> string \<Rightarrow> int res" where
  "parse_time v label =
     (case v of
        JStr s \<Rightarrow>
          if time_shape s
          then (case time_value s of None \<Rightarrow> raise (''invalid '' @ label) | Some t \<Rightarrow> Inr t)
          else raise (label @ '' must be canonical UTC with six fractional digits'')
      | _ \<Rightarrow> raise (label @ '' must be canonical UTC with six fractional digits''))"

text \<open>\<open>(a - b).total_seconds()\<close>: the quotient of two ints, correctly rounded.\<close>

definition elapsed_seconds :: "int \<Rightarrow> int \<Rightarrow> rat" where
  "elapsed_seconds a b = fl_rat (of_int (a - b) / 1000000)"

section \<open>URLs\<close>

text \<open>
  The parts of \<open>urllib.parse.urlsplit\<close> the code reads. The acceptance of a bracketed host
  (an IP literal, decided by \<open>ipaddress\<close>) is the argument \<open>ip_literal\<close>.
\<close>

record url_parts =
  url_scheme :: string
  url_netloc :: string
  url_path :: string
  url_query :: string
  url_fragment :: string

definition scheme_char :: "char \<Rightarrow> bool" where
  "scheme_char c = (is_lower c \<or> is_upper c \<or> is_digit c \<or> code c \<in> {43, 45, 46})"

definition split_scheme :: "string \<Rightarrow> string \<times> string" where
  "split_scheme url =
     (case split_first (\<lambda>c. c = CHR '':'') url of
        (sch, Some rest) \<Rightarrow>
          if sch \<noteq> [] \<and> (is_lower (hd sch) \<or> is_upper (hd sch)) \<and> list_all scheme_char sch
          then (lower sch, rest) else ([], url)
      | _ \<Rightarrow> ([], url))"

definition brackets_ok :: "(string \<Rightarrow> bool) \<Rightarrow> string \<Rightarrow> bool" where
  "brackets_ok ip_literal netloc =
     ((CHR ''['' \<in> set netloc) = (CHR '']'' \<in> set netloc) \<and>
      (CHR ''['' \<in> set netloc \<longrightarrow> ip_literal netloc))"

definition urlsplit :: "(string \<Rightarrow> bool) \<Rightarrow> string \<Rightarrow> url_parts res" where
  "urlsplit ip_literal raw =
     (let url = filter (\<lambda>c. code c \<notin> {9, 10, 13}) (dropWhile (\<lambda>c. code c \<le> 32) raw);
          (scheme, rest) = split_scheme url;
          (netloc, rest') = (if starts_with rest ''//''
            then (takeWhile (\<lambda>c. c \<notin> set ''/?#'') (drop 2 rest), dropWhile (\<lambda>c. c \<notin> set ''/?#'') (drop 2 rest))
            else ([], rest));
          (front, frag) = split_first (\<lambda>c. c = CHR ''#'') rest';
          (path, query) = split_first (\<lambda>c. c = CHR ''?'') front in
      if \<not> brackets_ok ip_literal netloc then Inl PyValueError
      else Inr \<lparr>url_scheme = scheme, url_netloc = netloc, url_path = path,
        url_query = (case query of None \<Rightarrow> [] | Some q \<Rightarrow> q),
        url_fragment = (case frag of None \<Rightarrow> [] | Some f \<Rightarrow> f)\<rparr>)"

text \<open>\<open>netloc.rpartition("@")\<close>: the user information, if any, and the host.\<close>

definition userinfo :: "string \<Rightarrow> string option" where
  "userinfo netloc = (case split_first (\<lambda>c. c = CHR ''@'') (rev netloc) of
     (_, Some u) \<Rightarrow> Some (rev u) | _ \<Rightarrow> None)"

definition hostinfo :: "string \<Rightarrow> string" where
  "hostinfo netloc = rev (fst (split_first (\<lambda>c. c = CHR ''@'') (rev netloc)))"

definition url_username :: "url_parts \<Rightarrow> string" where
  "url_username u = (case userinfo (url_netloc u) of None \<Rightarrow> [] | Some i \<Rightarrow> fst (split_first (\<lambda>c. c = CHR '':'') i))"

definition url_password :: "url_parts \<Rightarrow> string" where
  "url_password u = (case userinfo (url_netloc u) of None \<Rightarrow> []
     | Some i \<Rightarrow> (case snd (split_first (\<lambda>c. c = CHR '':'') i) of None \<Rightarrow> [] | Some p \<Rightarrow> p))"

definition url_hostname :: "url_parts \<Rightarrow> string" where
  "url_hostname u =
     (let h = hostinfo (url_netloc u) in
      case split_first (\<lambda>c. c = CHR ''['') h of
        (_, Some b) \<Rightarrow> lower (takeWhile (\<lambda>c. c \<noteq> CHR '']'') b)
      | _ \<Rightarrow> lower (takeWhile (\<lambda>c. c \<noteq> CHR '':'') h))"

definition delegated_report_location :: "(string \<Rightarrow> bool) \<Rightarrow> json \<Rightarrow> string res" where
  "delegated_report_location ip_literal v =
     (case v of
        JStr s \<Rightarrow>
          guardE (\<not> (1 \<le> utf8_length s \<and> utf8_length s \<le> 2048)) ''delegated report location is invalid''
          (bindE (urlsplit ip_literal s) (\<lambda>u.
            guardE (url_scheme u \<noteq> ''https'' \<or> url_hostname u = [] \<or> url_username u \<noteq> [] \<or> url_password u \<noteq> []
                \<or> url_query u \<noteq> [] \<or> url_fragment u \<noteq> [])
              ''owner-delegated report locations must be credential-free HTTPS'' (Inr s)))
      | _ \<Rightarrow> raise ''delegated report location is invalid'')"

section \<open>Strict parsing inverts canonical printing\<close>

lemma reject_pairs_distinct: "distinct (map fst (out @ kvs)) \<Longrightarrow> reject_pairs_from out kvs = Inr (JObj (out @ kvs))"
proof (induction out kvs rule: reject_pairs_from.induct)
  case (2 out k v kvs)
  then have "k \<notin> fst ` set out" by auto
  then show ?case using 2 by (simp add: dict_set_new)
qed simp

lemma strict_hooks_faithful: "hooks_faithful strict_hooks"
  using reject_pairs_distinct [of "[]"] by (simp add: hooks_faithful_def strict_hooks_def reject_pairs_def)

definition int64 :: "int \<Rightarrow> bool" where
  "int64 n = (- (2 ^ 63) \<le> n \<and> n \<le> 2 ^ 63 - 1)"

text \<open>The documents of the strict dialect: no float, 64-bit integers, distinct keys.\<close>

fun strict_ok :: "json \<Rightarrow> bool" where
  "strict_ok (JInt n) = int64 n"
| "strict_ok (JFloat x) = False"
| "strict_ok (JArr vs) = (\<forall>v \<in> set vs. strict_ok v)"
| "strict_ok (JObj kvs) = (distinct (map fst kvs) \<and> (\<forall>(k, v) \<in> set kvs. strict_ok v))"
| "strict_ok JNull = True"
| "strict_ok (JBool b) = True"
| "strict_ok (JStr s) = True"

lemma strict_plain: "strict_ok v \<Longrightarrow> json_plain strict_hooks v"
proof (induction v rule: strict_ok.induct)
  case (1 n)
  then have "\<bar>n\<bar> \<le> 2 ^ 64" by (auto simp: int64_def)
  then have "py_int (int_str n) = Some n" using int_fits_word by (simp add: int_fits_def py_int_int_str)
  then show ?case using 1 by (simp add: strict_hooks_def parse_int64_def int64_def guardE_def)
qed fastforce+

lemma ascii_escape: "is_ascii (escape_char c)"
proof -
  have h: "code (hex_char v) < 128" if "v < 16" for v
    using hex_char_cases [OF that] by (auto simp: code_def)
  show ?thesis
  proof (cases "short_escape (code c)")
    case None
    have "code CHR ''u'' < 128" by (simp add: code_def)
    then show ?thesis by (auto simp: escape_char_def None hex4_def h)
  next
    case (Some e)
    then have "code e < 128"
      by (auto simp: short_escape_def split: if_split_asm) (auto simp: code_def)
    then show ?thesis by (simp add: escape_char_def Some)
  qed
qed

lemma ascii_concat: "(\<And>x. x \<in> set xs \<Longrightarrow> is_ascii x) \<Longrightarrow> is_ascii (concat xs)"
  by (induction xs) auto

lemma ascii_quote: "is_ascii (quote s)"
  unfolding quote_def by (auto intro!: ascii_concat ascii_escape)

lemma ascii_join: "is_ascii sep \<Longrightarrow> (\<And>x. x \<in> set xs \<Longrightarrow> is_ascii x) \<Longrightarrow> is_ascii (join_with sep xs)"
  by (induction sep xs rule: join_with.induct) auto

lemma ascii_int_str: "is_ascii (int_str n)"
  using int_str_chars numeral_char_plain(4) by (auto simp: is_ascii_def)

lemma ascii_literals [simp]: "is_ascii ''null''" "is_ascii ''true''" "is_ascii ''false''"
    "code CHR ''['' < 128" "code CHR '']'' < 128" "code CHR ''{'' < 128" "code CHR ''}'' < 128"
    "code CHR '','' < 128" "code CHR '':'' < 128"
  by (simp_all add: code_def)

lemma ascii_dumps: "strict_ok v \<Longrightarrow> is_ascii (dumps v)"
proof (induction v rule: dumps.induct)
  case (6 vs)
  then show ?case by (auto intro!: ascii_join)
next
  case (7 kvs)
  have "is_ascii (dumps v)" if "(k, v) \<in> set kvs" for k v
    using 7(1) [of "(k, v)" k v] 7(2) that by auto
  then show ?case by (auto intro!: ascii_join ascii_quote)
qed (simp_all add: ascii_int_str ascii_quote code_def)

lemma utf8_decode_ascii: "is_ascii s \<Longrightarrow> utf8_decode (map byte_of s) = Inr s"
  by (induction s) auto

lemma parse_canonical:
  assumes "strict_ok (JObj d)" "int (length (canonical_json d)) \<le> mx"
  shows "parse_strict_json (canonical_json d) mx = Inr (map (\<lambda>(k, v). (k, jsort v)) (sort_items d))"
proof -
  have "utf8_decode (canonical_json d) = Inr (dumps (JObj d))"
    unfolding canonical_json_def canonical_bytes_def by (rule utf8_decode_ascii [OF ascii_dumps [OF assms(1)]])
  moreover have "json_loads strict_hooks (dumps (JObj d)) = Inr (jsort (JObj d))"
    by (rule loads_dumps [OF strict_hooks_faithful strict_plain [OF assms(1)]])
  moreover have "canonical_json d \<noteq> []" by (simp add: canonical_json_def canonical_bytes_def)
  ultimately show ?thesis using assms(2) by (simp add: parse_strict_json_def)
qed

section \<open>The printed form of a parsed document\<close>

lemma dumps_jsort: "dumps (jsort v) = dumps v"
proof (induction v rule: jsort.induct)
  case (1 vs)
  then show ?case by (simp add: comp_def cong: map_cong)
next
  case (2 kvs)
  have s: "sort_items (map (\<lambda>(k, v). (k, jsort v)) (sort_items kvs)) = map (\<lambda>(k, v). (k, jsort v)) (sort_items kvs)"
    by (subst sort_items_map) auto
  have "map (\<lambda>x. case case x of (k, v) \<Rightarrow> (k, jsort v) of (k, v) \<Rightarrow> quote k @ '':'' @ dumps v) (sort_items kvs)
      = map (\<lambda>(k, v). quote k @ '':'' @ dumps v) (sort_items kvs)"
    using 2 by (intro map_cong) (auto split: prod.splits)
  then show ?case by (simp only: jsort.simps dumps.simps s map_map comp_def)
qed simp_all

lemma canonical_json_sorted: "canonical_json (map (\<lambda>(k, v). (k, jsort v)) (sort_items d)) = canonical_json d"
  using dumps_jsort [of "JObj d"] by (simp add: canonical_json_def canonical_bytes_def)

section \<open>What strict parsing accepts\<close>

lemma reject_pairs_sound: "reject_pairs_from out kvs = Inr v \<Longrightarrow> distinct (map fst out) \<Longrightarrow>
    v = JObj (out @ kvs) \<and> distinct (map fst (out @ kvs))"
proof (induction out kvs rule: reject_pairs_from.induct)
  case (2 out k v' kvs)
  then have "k \<notin> fst ` set out" by (auto split: if_splits)
  then show ?case using 2 by (auto simp: dict_set_new split: if_splits)
qed simp

lemma strict_number: "scan_number strict_hooks s = Inr (v, r) \<Longrightarrow> strict_ok v"
proof -
  assume a: "scan_number strict_hooks s = Inr (v, r)"
  then obtain ip r1 where ip: "scan_int s = Some (ip, r1)" by (auto simp: scan_number_def split: option.splits)
  obtain fp r2 where fp: "scan_frac r1 = (fp, r2)" by (cases "scan_frac r1")
  obtain ex r3 where ex: "scan_exp r2 = (ex, r3)" by (cases "scan_exp r2")
  have "parse_int64 ip = Inr v"
    using a by (auto simp: scan_number_def ip fp ex strict_hooks_def split: if_split_asm elim!: bindE_InrE)
  then show ?thesis
    by (cases "py_int ip") (auto simp: parse_int64_def int64_def elim!: guardE_InrE)
qed

lemma strict_word: "scan_word strict_hooks s = Some (Inr (v, r)) \<Longrightarrow> strict_ok v"
  by (auto simp: scan_word_def strict_hooks_def split: if_split_asm)

lemma parse_strict_ok:
  "h = strict_hooks \<Longrightarrow> parse_value h n s = Inr vr \<Longrightarrow> strict_ok (fst vr)"
  "h = strict_hooks \<Longrightarrow> parse_elems h n s = Inr vsr \<Longrightarrow> \<forall>v \<in> set (fst vsr). strict_ok v"
  "h = strict_hooks \<Longrightarrow> parse_members h n s = Inr kvsr \<Longrightarrow> \<forall>(k, v) \<in> set (fst kvsr). strict_ok v"
proof (induction h n s and h n s and h n s arbitrary: vr and vsr and kvsr
    rule: parse_value_parse_elems_parse_members.induct)
  case (2 h n s)
  obtain c cs where s: "s = c # cs" using 2(4) by (cases s) auto
  have pairs: "h_pairs h kvs = Inr v \<Longrightarrow> \<forall>(k, v) \<in> set kvs. strict_ok v \<Longrightarrow> strict_ok v" for kvs v
    using reject_pairs_sound [of "[]" kvs v] 2(3) by (auto simp: strict_hooks_def reject_pairs_def)
  consider (q) "c = QUOTE" | (a) "c \<noteq> QUOTE" "c = CHR ''[''" | (o) "c \<noteq> QUOTE" "c = CHR ''{''"
    | (w) "c \<noteq> QUOTE" "c \<noteq> CHR ''[''" "c \<noteq> CHR ''{''" by blast
  then show ?case
  proof cases
    case q
    then show ?thesis using 2(4) by (cases "scan_string cs") (auto simp: s)
  next
    case a
    show ?thesis
    proof (cases "starts_with (skip_ws cs) '']''")
      case True
      then show ?thesis using 2(4) a by (auto simp: s)
    next
      case False
      then obtain vs r where "parse_elems h n (skip_ws cs) = Inr (vs, r)" "vr = (JArr vs, r)"
        using 2(4) a by (auto simp: s elim!: bindE_InrE)
      then show ?thesis using 2(1) [OF s _ a(2) refl False 2(3)] a by auto
    qed
  next
    case o
    have ne: "c \<noteq> CHR ''[''" using o by simp
    show ?thesis
    proof (cases "starts_with (skip_ws cs) ''}''")
      case True
      then show ?thesis using 2(4) o ne pairs [of "[]"] by (auto simp: s elim!: bindE_InrE)
    next
      case False
      then obtain kvs r v where "parse_members h n (skip_ws cs) = Inr (kvs, r)" "h_pairs h kvs = Inr v" "vr = (v, r)"
        using 2(4) o ne by (auto simp: s elim!: bindE_InrE)
      then show ?thesis using 2(2) [OF s _ _ o(2) refl False 2(3)] o ne pairs by auto
    qed
  next
    case w
    then have "(case scan_word h s of Some res \<Rightarrow> res | None \<Rightarrow> scan_number h s) = Inr vr"
      using 2(4) unfolding s by simp
    then show ?thesis using strict_number strict_word 2(3)
      by (cases "scan_word h s"; cases vr) auto
  qed
next
  case (4 h n s)
  then obtain v r where v: "parse_value h n s = Inr (v, r)" by (auto elim!: bindE_InrE)
  have "strict_ok v" using 4(1) [OF 4(3) v] by simp
  moreover obtain c t where "skip_ws r = c # t" using 4(4) v by (cases "skip_ws r") auto
  ultimately show ?case using 4(2) [OF v] 4(3,4) v by (auto split: if_split_asm elim!: bindE_InrE)
next
  case (6 h n s)
  obtain q cs where s: "s = q # cs" using 6(4) by (cases s) auto
  have q: "\<not> q \<noteq> QUOTE" using 6(4) by (auto simp: s split: if_split_asm)
  obtain k r1 where k: "scan_string cs = Some (k, r1)" using 6(4) q by (cases "scan_string cs") (auto simp: s)
  obtain c r2 where c: "skip_ws r1 = c # r2" using 6(4) q k by (cases "skip_ws r1") (auto simp: s)
  have colon: "\<not> c \<noteq> CHR '':''" using 6(4) q k c by (auto simp: s split: if_split_asm)
  obtain v r where v: "parse_value h n (skip_ws r2) = Inr (v, r)"
    using 6(4) q k c colon by (auto simp: s elim!: bindE_InrE)
  have "strict_ok v" using 6(1) [OF s q k refl c colon 6(3) v] by simp
  moreover obtain d t where "skip_ws r = d # t"
    using 6(4) q k c colon v by (cases "skip_ws r") (auto simp: s)
  ultimately show ?case using 6(2) [OF s q k refl c colon v] 6(3,4) q k c colon v
    by (fastforce simp: s split: if_split_asm elim!: bindE_InrE)
qed simp_all

lemma parse_strict_sound:
  assumes "parse_strict_json raw mx = Inr d"
  shows "strict_ok (JObj d)"
proof -
  obtain v where v: "bindE (utf8_decode raw) (json_loads strict_hooks) = Inr v" "v = JObj d"
    using assms unfolding parse_strict_json_def
    by (auto elim!: guardE_InrE split: sum.splits json.splits py_error.splits)
  then obtain tx r where "parse_value strict_hooks (2 * length (skip_ws tx) + 2) (skip_ws tx) = Inr (v, r)"
    by (auto simp: json_loads_def Let_def split: if_splits elim!: bindE_InrE)
  from parse_strict_ok(1) [OF refl this] show ?thesis by (simp add: v(2))
qed

section \<open>Documents that nest too deep\<close>

lemma nesting_jsort [simp]: "nesting (jsort v) = nesting v"
proof (induction v rule: jsort.induct)
  case (1 vs)
  then have "nesting ` set (map jsort vs) = nesting ` set vs" by (force simp: image_iff)
  then show ?case by (simp add: image_image)
next
  case (2 kvs)
  have "(\<lambda>(k, v). nesting v) ` set (map (\<lambda>(k, v). (k, jsort v)) (sort_items kvs)) = (\<lambda>(k, v). nesting v) ` set kvs"
    using 2 by (force simp: image_iff)
  then show ?case by (simp only: jsort.simps nesting.simps set_map)
qed simp_all

lemma nesting_canonical:
  "nesting (JObj (map (\<lambda>(k, v). (k, jsort v)) (sort_items d))) = nesting (JObj d)"
  using nesting_jsort [of "JObj d"] unfolding jsort.simps .

lemma parse_within_fits:
  "parse_strict_json_within room raw mx = Inr d \<longleftrightarrow> parse_strict_json raw mx = Inr d \<and> nesting (JObj d) \<le> room"
  unfolding parse_strict_json_within_def parse_strict_json_def
  by (auto simp: guardE_def not_less simp del: nesting.simps split: sum.splits json.splits py_error.splits if_splits
      elim!: bindE_InrE)

lemma parse_within_deep:
  assumes "parse_strict_json raw mx = Inr d" "room < nesting (JObj d)"
  shows "parse_strict_json_within room raw mx = raise ''artifact is not strict UTF-8 JSON''"
  using assms unfolding parse_strict_json_within_def parse_strict_json_def
  by (auto simp: guardE_def simp del: nesting.simps split: sum.splits json.splits py_error.splits if_splits elim!: bindE_InrE)

lemma canonical_within:
  "canonical_json_within room d =
     (if room < nesting (JObj d) then raise ''artifact contains a non-canonical value'' else Inr (canonical_json d))"
  by (simp add: canonical_json_within_def canonical_json_def del: nesting.simps)

lemma parse_canonical_within:
  assumes "strict_ok (JObj d)" "int (length (canonical_json d)) \<le> mx"
  shows "parse_strict_json_within room (canonical_json d) mx =
    (if room < nesting (JObj d) then raise ''artifact is not strict UTF-8 JSON''
     else Inr (map (\<lambda>(k, v). (k, jsort v)) (sort_items d)))"
proof (cases "room < nesting (JObj d)")
  case True
  then have "room < nesting (JObj (map (\<lambda>(k, v). (k, jsort v)) (sort_items d)))" by (simp only: nesting_canonical)
  from parse_within_deep [OF parse_canonical [OF assms] this] show ?thesis using True by (simp only: if_True)
next
  case False
  then have "nesting (JObj (map (\<lambda>(k, v). (k, jsort v)) (sort_items d))) \<le> room" by (simp only: nesting_canonical not_less)
  then have "parse_strict_json_within room (canonical_json d) mx = Inr (map (\<lambda>(k, v). (k, jsort v)) (sort_items d))"
    unfolding parse_within_fits using parse_canonical [OF assms] by blast
  then show ?thesis using False by (simp only: if_False)
qed

lemma parse_within_sound:
  "parse_strict_json_within room raw mx = Inr d \<Longrightarrow> strict_ok (JObj d) \<and> nesting (JObj d) \<le> room"
  unfolding parse_within_fits using parse_strict_sound by blast

lemma canonical_within_InrD:
  "canonical_json_within room d = Inr out \<Longrightarrow> nesting (JObj d) \<le> room \<and> out = canonical_json d"
  unfolding canonical_within by (simp only: not_less split: if_split_asm) auto

section \<open>Properties of the strict dialect\<close>

text \<open>C11. Canonical printing and strict parsing are inverse, whatever room the stack leaves the
  reader and the printer. A strict document prints exactly when it fits the printer; its bytes
  parse back to the document with its keys sorted when that fits the reader and are refused
  otherwise. Every document that the reader returns is strict, fits, and prints to bytes that
  parse to its sorted form and print again to themselves: the bytes a signature covers and the
  document the code reads determine each other.\<close>

theorem strict_canonical_roundtrip:
  fixes room_r room_w :: nat
  shows "(\<forall>d. strict_ok (JObj d) \<longrightarrow>
      canonical_json_within room_w d =
        (if room_w < nesting (JObj d) then raise ''artifact contains a non-canonical value'' else Inr (canonical_json d)) \<and>
      (int (length (canonical_json d)) \<le> mx \<longrightarrow>
         parse_strict_json_within room_r (canonical_json d) mx =
           (if room_r < nesting (JObj d) then raise ''artifact is not strict UTF-8 JSON''
            else Inr (map (\<lambda>(k, v). (k, jsort v)) (sort_items d))))) \<and>
    (\<forall>raw d. parse_strict_json_within room_r raw mx = Inr d \<longrightarrow>
      strict_ok (JObj d) \<and> nesting (JObj d) \<le> room_r \<and>
      (\<forall>out. canonical_json_within room_w d = Inr out \<longrightarrow>
         canonical_json_within room_w (map (\<lambda>(k, v). (k, jsort v)) (sort_items d)) = Inr out \<and>
         (int (length out) \<le> mx \<longrightarrow>
            parse_strict_json_within room_r out mx = Inr (map (\<lambda>(k, v). (k, jsort v)) (sort_items d)))))"
proof (intro conjI allI impI, goal_cases)
  case (1 d)
  show ?case by (rule canonical_within)
next
  case (2 d)
  then show ?case by (rule parse_canonical_within)
next
  case (3 raw d)
  then show ?case by (blast dest: parse_within_sound)
next
  case (4 raw d)
  then show ?case by (blast dest: parse_within_sound)
next
  case (5 raw d out)
  from canonical_within_InrD [OF 5(2)] show ?case
    unfolding canonical_within nesting_canonical canonical_json_sorted by (simp only: not_le [symmetric] if_False simp_thms)
next
  case (6 raw d out)
  from parse_within_sound [OF 6(1)] canonical_within_InrD [OF 6(2)] parse_canonical_within [of d mx room_r] 6(3)
  show ?case by (simp only: not_less [symmetric] if_False simp_thms)
qed

theorem strict_canonical_roundtrip_witness:
  "parse_strict_json_within 2 (canonical_json [(''b'', JArr [JInt 1, JNull]), (''a'', JStr ''x'')]) 100
     = Inr [(''a'', JStr ''x''), (''b'', JArr [JInt 1, JNull])] \<and>
   parse_strict_json_within 1 (canonical_json [(''b'', JArr [JInt 1, JNull]), (''a'', JStr ''x'')]) 100
     = raise ''artifact is not strict UTF-8 JSON'' \<and>
   canonical_json_within 1 [(''b'', JArr [JInt 1, JNull]), (''a'', JStr ''x'')] = raise ''artifact contains a non-canonical value''"
proof -
  let ?d = "[(''b'', JArr [JInt 1, JNull]), (''a'', JStr ''x'')]"
  have "strict_ok (JObj ?d)" by (simp add: int64_def)
  moreover have "length (canonical_json ?d) = 22" by code_simp
  moreover have "map (\<lambda>(k, v). (k, jsort v)) (sort_items ?d) = [(''a'', JStr ''x''), (''b'', JArr [JInt 1, JNull])]"
    by code_simp
  moreover have "nesting (JObj ?d) = 2" by simp
  ultimately show ?thesis using strict_canonical_roundtrip [of 1 100 2] strict_canonical_roundtrip [of 1 100 1]
    by (simp del: nesting.simps strict_ok.simps)
qed

text \<open>Strict parsing is strict at every depth: an accepted artifact holds no float, no
  duplicate key and no integer outside 64 bits, anywhere in it.\<close>

lemma strict_parsing_sound: "parse_strict_json raw mx = Inr d \<Longrightarrow> strict_ok (JObj d)"
  by (rule parse_strict_sound)

lemma strict_parsing_sound_witness:
  "strict_ok (JObj [(''a'', JStr ''x''), (''b'', JArr [JInt 1, JNull])])"
proof -
  let ?d = "[(''b'', JArr [JInt 1, JNull]), (''a'', JStr ''x'')]"
  have "strict_ok (JObj ?d)" by (simp add: int64_def)
  moreover have "length (canonical_json ?d) = 22" by code_simp
  moreover have "map (\<lambda>(k, v). (k, jsort v)) (sort_items ?d) = [(''a'', JStr ''x''), (''b'', JArr [JInt 1, JNull])]"
    by code_simp
  ultimately have "parse_strict_json (canonical_json ?d) 100 = Inr [(''a'', JStr ''x''), (''b'', JArr [JInt 1, JNull])]"
    using parse_canonical [of ?d 100] by simp
  then show ?thesis by (rule strict_parsing_sound)
qed

end
