(* ===== verification/Score_Policy.thy ===== *)
theory Score_Policy
  imports Score_Json
begin

text \<open>
  \<open>cathedral_thin/score_classes.py\<close>, the validator-owned score policy: its assignment
  rules, classes and owner-registration rules, and the loader that turns the canonical JSON
  file into it. The lemmas show what every loaded policy satisfies.
\<close>

section \<open>The policy values\<close>

record assignment_policy =
  ap_mode :: string
  ap_metric :: "string option"
  ap_transform :: string
  ap_cap :: "dec option"
  ap_reasons :: "string list"
  ap_kinds :: "string list"

record owner_policy =
  op_source_netuid :: int
  op_locations :: "string list"
  op_max_age :: int
  op_max_future :: int
  op_max_span :: int
  op_require_target :: bool

record external_policy =
  ep_class_id :: string
  ep_allocation :: dec
  ep_source_id :: string
  ep_locations :: "string list"
  ep_keys :: "(string \<times> bytes) list"
  ep_max_age :: int
  ep_max_future :: int
  ep_max_span :: int
  ep_require_evidence :: bool
  ep_assignment :: assignment_policy
  ep_owner :: "owner_policy option"

datatype class_policy = LocalClass string dec | ExternalClass external_policy

fun cp_class_id :: "class_policy \<Rightarrow> string" where
  "cp_class_id (LocalClass c a) = c"
| "cp_class_id (ExternalClass e) = ep_class_id e"

fun cp_allocation :: "class_policy \<Rightarrow> dec" where
  "cp_allocation (LocalClass c a) = a"
| "cp_allocation (ExternalClass e) = ep_allocation e"

fun cp_kind :: "class_policy \<Rightarrow> string" where
  "cp_kind (LocalClass c a) = ''local_sat''"
| "cp_kind (ExternalClass e) = ''external''"

record score_policy =
  sp_network :: string
  sp_netuid :: int
  sp_classes :: "class_policy list"
  sp_digest :: string
  sp_burn :: "string option"

definition local_class :: "score_policy \<Rightarrow> class_policy option" where
  "local_class p = find (\<lambda>c. cp_kind c = ''local_sat'') (sp_classes p)"

definition external_classes :: "score_policy \<Rightarrow> external_policy list" where
  "external_classes p = concat (map (\<lambda>c. case c of ExternalClass e \<Rightarrow> [e] | _ \<Rightarrow> []) (sp_classes p))"

definition prefixed_digest :: "string \<Rightarrow> bytes \<Rightarrow> string" where
  "prefixed_digest label body = ''sha256:'' @ sha256_hex (map byte_of label @ [0] @ body)"

definition default_score_policy :: "string \<Rightarrow> int \<Rightarrow> score_policy" where
  "default_score_policy network netuid =
     (let document = [(''schema'', JStr ''cathedral_score_policy_v1''), (''network'', JStr network),
        (''netuid'', JInt netuid),
        (''classes'', JArr [JObj [(''allocation'', JStr ''1''), (''class_id'', JStr ''local_sat''),
           (''kind'', JStr ''local_sat'')]])]
      in \<lparr>sp_network = network, sp_netuid = netuid, sp_classes = [LocalClass ''local_sat'' (1, 0)],
          sp_digest = prefixed_digest ''cathedral-score-policy-v1'' (canonical_json document),
          sp_burn = None\<rparr>)"

section \<open>Parsing the parts\<close>

definition decode_public_key :: "json \<Rightarrow> bytes res" where
  "decode_public_key v =
     (case v of
        JStr s \<Rightarrow>
          bindE (b64decode_or ''public key must be canonical base64'' s) (\<lambda>raw.
          guardE (length raw \<noteq> 32 \<or> b64encode raw \<noteq> s) ''Ed25519 public key must be exactly 32 bytes''
            (Inr raw))
      | _ \<Rightarrow> raise ''public key must be canonical base64'')"

text \<open>\<open>xs != sorted(set(xs))\<close> for a list of strings that all match a pattern.\<close>

definition sorted_unique_texts :: "(string \<Rightarrow> bool) \<Rightarrow> nat \<Rightarrow> nat \<Rightarrow> json \<Rightarrow> string list option" where
  "sorted_unique_texts pat lo hi v =
     (case v of
        JArr vs \<Rightarrow>
          (let xs = strs_of vs in
           if lo \<le> length vs \<and> length vs \<le> hi \<and> length xs = length vs \<and> list_all pat xs
             \<and> xs = sorted_list_of_set (set xs) then Some xs else None)
      | _ \<Rightarrow> None)"

definition assignment_keys :: "string list" where
  "assignment_keys = [''mode'', ''metric'', ''transform'', ''cap'', ''required_reason_codes'',
     ''required_evidence_kinds'']"

text \<open>\<open>value not in {...}\<close>: an unhashable value is a TypeError.\<close>

definition not_in_set :: "json \<Rightarrow> string list \<Rightarrow> string \<Rightarrow> 'a res \<Rightarrow> 'a res" where
  "not_in_set v allowed msg k =
     (case v of JArr _ \<Rightarrow> Inl PyTypeError | JObj _ \<Rightarrow> Inl PyTypeError
      | _ \<Rightarrow> guardE (v \<notin> JStr ` set allowed) msg k)"

definition parse_assignment :: "json \<Rightarrow> assignment_policy res" where
  "parse_assignment v =
     (case v of
        JObj d \<Rightarrow>
          require_exact_keys d assignment_keys ''assignment''
          (not_in_set (jget d ''mode'') [''metric'', ''asserted_score'']
             ''assignment mode must be metric or asserted_score''
          (not_in_set (jget d ''transform'') [''linear'', ''binary'']
             ''assignment transform must be linear or binary''
          (bindE (if jget d ''mode'' = JStr ''metric''
                  then bindE (identifier_value (jget d ''metric'') ''assignment metric'') (\<lambda>m. Inr (Some m))
                  else guardE (jget d ''metric'' \<noteq> JNull) ''asserted_score assignment metric must be null''
                    (Inr None)) (\<lambda>metric.
           bindE (if jget d ''cap'' = JNull then Inr None
                  else bindE (decimal_value (jget d ''cap'') ''assignment cap'' False) (\<lambda>c. Inr (Some c))) (\<lambda>cap.
           case sorted_unique_texts identifier_text 0 16 (jget d ''required_reason_codes'') of
             None \<Rightarrow> raise ''required_reason_codes must be sorted and unique''
           | Some reasons \<Rightarrow>
               (case sorted_unique_texts identifier_text 0 16 (jget d ''required_evidence_kinds'') of
                  None \<Rightarrow> raise ''required_evidence_kinds must be sorted and unique''
                | Some kinds \<Rightarrow>
                    Inr \<lparr>ap_mode = py_str (jget d ''mode''), ap_metric = metric,
                      ap_transform = py_str (jget d ''transform''), ap_cap = cap,
                      ap_reasons = reasons, ap_kinds = kinds\<rparr>))))))
      | _ \<Rightarrow> raise ''assignment must be an object'')"

definition locations :: "json \<Rightarrow> string \<Rightarrow> string list res" where
  "locations v label =
     (let bad = raise (label @ '' must contain 1..8 unique strings'') in
      case v of
        JArr vs \<Rightarrow>
          (let xs = strs_of vs in
           if 1 \<le> length vs \<and> length vs \<le> 8 \<and> length xs = length vs \<and> [] \<notin> set xs \<and> distinct xs
           then Inr xs else bad)
      | _ \<Rightarrow> bad)"

definition positive_int :: "json \<Rightarrow> string \<Rightarrow> int res" where
  "positive_int v label = (case v of JInt n \<Rightarrow> guardE (n \<le> 0) (label @ '' must be a positive integer'') (Inr n)
     | _ \<Rightarrow> raise (label @ '' must be a positive integer''))"

definition owner_policy_keys :: "string list" where
  "owner_policy_keys = [''source_netuid'', ''locations'', ''max_age_seconds'', ''max_future_seconds'',
     ''max_block_span'', ''require_target_registration'']"

definition parse_owner_policy :: "json \<Rightarrow> owner_policy res" where
  "parse_owner_policy v =
     (case v of
        JObj d \<Rightarrow>
          require_exact_keys d owner_policy_keys ''owner registration policy''
          (guardE (\<not> nat_field (jget d ''source_netuid'')) ''owner registration source_netuid is invalid''
          (bindE (positive_int (jget d ''max_age_seconds'') ''owner registration max_age_seconds'') (\<lambda>age.
           bindE (positive_int (jget d ''max_future_seconds'') ''owner registration max_future_seconds'') (\<lambda>future.
           bindE (positive_int (jget d ''max_block_span'') ''owner registration max_block_span'') (\<lambda>span.
           guardE (jget d ''require_target_registration'' \<noteq> JBool True)
             ''owner registration require_target_registration must be true''
           (bindE (locations (jget d ''locations'') ''owner registration locations'') (\<lambda>locs.
             Inr \<lparr>op_source_netuid = int_field (jget d ''source_netuid''), op_locations = locs,
               op_max_age = age, op_max_future = future, op_max_span = span, op_require_target = True\<rparr>)))))))
      | _ \<Rightarrow> raise ''owner_registration must be an object'')"

definition key_entries :: "jdict \<Rightarrow> (string \<times> bytes) list res" where
  "key_entries kvs =
     mapE (\<lambda>(k, v). bindE (key_id_value (JStr k)) (\<lambda>i. bindE (decode_public_key v) (\<lambda>raw. Inr (i, raw)))) kvs"

definition trusted_keys :: "json \<Rightarrow> string \<Rightarrow> (string \<times> bytes) list res" where
  "trusted_keys v msg =
     (case v of
        JObj kvs \<Rightarrow> guardE (\<not> (1 \<le> length kvs \<and> length kvs \<le> 8)) msg (key_entries kvs)
      | _ \<Rightarrow> raise msg)"

section \<open>Loading a policy\<close>

definition local_class_keys :: "string list" where
  "local_class_keys = [''class_id'', ''kind'', ''allocation'']"

definition external_class_keys :: "string list" where
  "external_class_keys = [''class_id'', ''kind'', ''allocation'', ''source_id'', ''locations'', ''trusted_keys'',
     ''max_age_seconds'', ''max_future_seconds'', ''max_block_span'', ''require_evidence'', ''assignment'']"

definition registered_class_keys :: "string list" where
  "registered_class_keys = [''class_id'', ''kind'', ''allocation'', ''source_id'', ''locations'',
     ''max_age_seconds'', ''max_future_seconds'', ''max_block_span'', ''require_evidence'', ''assignment'',
     ''owner_registration'']"

record policy_loop =
  pl_seen :: "string list"
  pl_total :: rat
  pl_classes :: "class_policy list"

text \<open>Where a class takes its reports from: locations with pinned keys, or a registration by the
  subnet owner.\<close>

definition external_source ::
    "(string \<Rightarrow> bool) \<Rightarrow> jdict \<Rightarrow> (string list \<times> (string \<times> bytes) list \<times> owner_policy option) res" where
  "external_source ip_literal d =
     (if ''owner_registration'' \<in> fst ` set d then
        bindE (parse_owner_policy (jget d ''owner_registration'')) (\<lambda>owner.
        bindE (locations (jget d ''locations'') ''registered external class locations'') (\<lambda>raw_locs.
        bindE (mapE (\<lambda>l. delegated_report_location ip_literal (JStr l)) raw_locs) (\<lambda>locs.
          Inr (locs, [], Some owner))))
      else
        bindE (locations (jget d ''locations'') ''external class locations'') (\<lambda>locs.
        bindE (trusted_keys (jget d ''trusted_keys'') ''external class must pin 1..8 signing keys'') (\<lambda>keys.
          Inr (locs, keys, None))))"

text \<open>The external branch of the loop body, after the fields every class has.\<close>

definition parse_external :: "(string \<Rightarrow> bool) \<Rightarrow> jdict \<Rightarrow> string \<Rightarrow> dec \<Rightarrow> external_policy res" where
  "parse_external ip_literal d class_id allocation =
     bindE (identifier_value (jget d ''source_id'') ''source id'') (\<lambda>source_id.
     bindE (positive_int (jget d ''max_age_seconds'') ''max_age_seconds'') (\<lambda>age.
     bindE (positive_int (jget d ''max_future_seconds'') ''max_future_seconds'') (\<lambda>future.
     bindE (positive_int (jget d ''max_block_span'') ''max_block_span'') (\<lambda>span.
     guardE (\<not> (\<exists>b \<in> {True, False}. jget d ''require_evidence'' = JBool b)) ''require_evidence must be boolean''
     (bindE
       (external_source ip_literal d) (\<lambda>(locs, keys, owner).
      bindE (parse_assignment (jget d ''assignment'')) (\<lambda>asg.
        Inr \<lparr>ep_class_id = class_id, ep_allocation = allocation, ep_source_id = source_id, ep_locations = locs,
          ep_keys = keys, ep_max_age = age, ep_max_future = future, ep_max_span = span,
          ep_require_evidence = (jget d ''require_evidence'' = JBool True), ep_assignment = asg,
          ep_owner = owner\<rparr>)))))))"

text \<open>The end of the loop body: record the class.\<close>

definition add_class :: "(string \<Rightarrow> bool) \<Rightarrow> policy_loop \<Rightarrow> jdict \<Rightarrow> string \<Rightarrow> dec \<Rightarrow> policy_loop res" where
  "add_class ip_literal pl d class_id allocation =
     (let pl' = pl\<lparr>pl_seen := class_id # pl_seen pl, pl_total := pl_total pl + dec_val allocation\<rparr> in
      if jget d ''kind'' = JStr ''local_sat'' then
        guardE (\<exists>c \<in> set (pl_classes pl). cp_kind c = ''local_sat'') ''only one local_sat class is allowed''
          (Inr (pl'\<lparr>pl_classes := pl_classes pl @ [LocalClass class_id allocation]\<rparr>))
      else
        guardE (jget d ''kind'' \<noteq> JStr ''external'') ''class kind must be local_sat or external''
          (bindE (parse_external ip_literal d class_id allocation) (\<lambda>e.
            Inr (pl'\<lparr>pl_classes := pl_classes pl @ [ExternalClass e]\<rparr>))))"

text \<open>One pass of the loop over \<open>classes_raw\<close>. The total is exact: at most 32 allocations of at
  most 12 decimals never reach the 28 digits of the decimal context.\<close>

definition policy_class :: "(string \<Rightarrow> bool) \<Rightarrow> policy_loop \<Rightarrow> json \<Rightarrow> policy_loop res" where
  "policy_class ip_literal pl raw_class =
     (case raw_class of
        JObj d \<Rightarrow>
          require_exact_keys d
            (if jget d ''kind'' = JStr ''local_sat'' then local_class_keys
             else if ''owner_registration'' \<in> fst ` set d then registered_class_keys
             else external_class_keys) ''score class''
          (bindE (identifier_value (jget d ''class_id'') ''class id'') (\<lambda>class_id.
           guardE (class_id \<in> set (pl_seen pl)) (''duplicate score class: '' @ class_id)
           (bindE (decimal_value (jget d ''allocation'') ''class allocation'' False) (\<lambda>allocation.
            guardE (dec_val allocation > 1) ''class allocation cannot exceed 1''
              (add_class ip_literal pl d class_id allocation)))))
      | _ \<Rightarrow> raise ''score class policy must be an object'')"

definition policy_keys :: "string list" where
  "policy_keys = [''schema'', ''network'', ''netuid'', ''classes'']"

definition text_between :: "json \<Rightarrow> nat \<Rightarrow> nat \<Rightarrow> bool" where
  "text_between v lo hi = (case v of JStr s \<Rightarrow> lo \<le> utf8_length s \<and> utf8_length s \<le> hi | _ \<Rightarrow> False)"

text \<open>The end of the loader, after the loop.\<close>

definition close_policy :: "jdict \<Rightarrow> bytes \<Rightarrow> string \<Rightarrow> int \<Rightarrow> policy_loop \<Rightarrow> score_policy res" where
  "close_policy d encoded network netuid pl =
     guardE (pl_total pl \<noteq> 1) ''class allocations must sum exactly to 1''
     (guardE (jget d ''burn_hotkey'' \<noteq> JNull \<and> \<not> text_between (jget d ''burn_hotkey'') 1 128)
       ''score policy burn_hotkey is invalid''
     (Inr \<lparr>sp_network = network, sp_netuid = netuid, sp_classes = pl_classes pl,
        sp_digest = prefixed_digest ''cathedral-score-policy-v1'' encoded,
        sp_burn = (case jget d ''burn_hotkey'' of JStr s \<Rightarrow> Some s | _ \<Rightarrow> None)\<rparr>))"

text \<open>\<open>load_score_policy\<close>: \<open>contents\<close> is what reading the file gives, None for an OSError.\<close>

definition load_score_policy :: "(string \<Rightarrow> bool) \<Rightarrow> bytes option \<Rightarrow> string \<Rightarrow> int \<Rightarrow> score_policy res" where
  "load_score_policy ip_literal contents network netuid =
     (case contents of
        None \<Rightarrow> raise ''could not read score policy''
      | Some raw \<Rightarrow>
          (let encoded = (if raw \<noteq> [] \<and> last raw = 10 then butlast raw else raw) in
           bindE (parse_strict_json encoded MAX_REPORT_BYTES) (\<lambda>d.
           guardE (encoded \<noteq> canonical_json d) ''score policy JSON must be canonical''
           (guardE (\<not> set policy_keys \<subseteq> fst ` set d \<or> \<not> fst ` set d - set policy_keys \<subseteq> {''burn_hotkey''})
             (''score policy fields mismatch missing=''
               @ str_list_repr (sorted_list_of_set (set policy_keys - fst ` set d)) @ '' unknown=''
               @ str_list_repr (sorted_list_of_set (fst ` set d - set policy_keys - {''burn_hotkey''})))
           (guardE (jget d ''schema'' \<noteq> JStr ''cathedral_score_policy_v1'') ''unsupported score policy schema''
           (guardE (\<not> text_between (jget d ''network'') 1 128 \<or> \<not> nat_field (jget d ''netuid''))
             ''score policy network or netuid is invalid''
           (guardE (jget d ''network'' \<noteq> JStr network \<or> jget d ''netuid'' \<noteq> JInt netuid)
             ''score policy network or netuid mismatch''
           (case jget d ''classes'' of
              JArr cs \<Rightarrow>
                guardE (\<not> (1 \<le> length cs \<and> length cs \<le> 32)) ''score policy must contain 1..32 classes''
                (bindE (foldE (policy_class ip_literal) \<lparr>pl_seen = [], pl_total = 0, pl_classes = []\<rparr> cs)
                  (close_policy d encoded network netuid))
            | _ \<Rightarrow> raise ''score policy must contain 1..32 classes''))))))))"

section \<open>What a loaded policy satisfies\<close>

definition assignment_ok :: "assignment_policy \<Rightarrow> bool" where
  "assignment_ok a =
     (ap_mode a \<in> {''metric'', ''asserted_score''} \<and> ap_transform a \<in> {''linear'', ''binary''}
      \<and> (ap_mode a = ''metric'' \<longleftrightarrow> ap_metric a \<noteq> None)
      \<and> (case ap_cap a of None \<Rightarrow> True | Some c \<Rightarrow> 0 < dec_val c)
      \<and> ap_reasons a = sorted_list_of_set (set (ap_reasons a))
      \<and> ap_kinds a = sorted_list_of_set (set (ap_kinds a)))"

definition external_ok :: "external_policy \<Rightarrow> bool" where
  "external_ok e =
     (distinct (ep_locations e) \<and> 1 \<le> length (ep_locations e) \<and> length (ep_locations e) \<le> 8
      \<and> 0 < ep_max_age e \<and> 0 < ep_max_future e \<and> 0 < ep_max_span e \<and> assignment_ok (ep_assignment e)
      \<and> (case ep_owner e of
           None \<Rightarrow> 1 \<le> length (ep_keys e) \<and> length (ep_keys e) \<le> 8 \<and> (\<forall>kv \<in> set (ep_keys e). length (snd kv) = 32)
         | Some ow \<Rightarrow> ep_keys e = [] \<and> op_require_target ow \<and> 0 \<le> op_source_netuid ow))"

definition class_ok :: "class_policy \<Rightarrow> bool" where
  "class_ok c = (identifier_text (cp_class_id c) \<and> 0 < dec_val (cp_allocation c) \<and> dec_val (cp_allocation c) \<le> 1
     \<and> (case c of LocalClass _ _ \<Rightarrow> True | ExternalClass e \<Rightarrow> external_ok e))"

definition policy_ok :: "score_policy \<Rightarrow> bool" where
  "policy_ok p =
     (distinct (map cp_class_id (sp_classes p)) \<and> sp_classes p \<noteq> []
      \<and> length (filter (\<lambda>c. cp_kind c = ''local_sat'') (sp_classes p)) \<le> 1
      \<and> (\<forall>c \<in> set (sp_classes p). class_ok c)
      \<and> (\<Sum>c \<leftarrow> sp_classes p. dec_val (cp_allocation c)) = 1)"

lemma require_exact_keys_InrE:
  "require_exact_keys d ks l k = Inr y \<Longrightarrow> (keys_are d ks \<Longrightarrow> k = Inr y \<Longrightarrow> P) \<Longrightarrow> P"
  by (auto simp: require_exact_keys_def elim!: guardE_InrE)

declare require_exact_keys_InrE [resE]

lemma not_in_set_InrE:
  "not_in_set v allowed msg k = Inr y \<Longrightarrow> (\<And>s. v = JStr s \<Longrightarrow> s \<in> set allowed \<Longrightarrow> k = Inr y \<Longrightarrow> P) \<Longrightarrow> P"
  by (cases v) (auto simp: not_in_set_def elim!: guardE_InrE)

lemma identifier_InrE: "identifier_value v l = Inr s \<Longrightarrow> (v = JStr s \<Longrightarrow> identifier_text s \<Longrightarrow> P) \<Longrightarrow> P"
  by (cases v) (auto simp: identifier_value_def split: if_splits)

lemma decimal_InrD: "decimal_value v l z = Inr d \<Longrightarrow> 0 \<le> dec_val d \<and> (\<not> z \<longrightarrow> 0 < dec_val d)"
  by (cases v) (auto simp: decimal_value_def split: option.splits elim!: guardE_InrE)

lemma sorted_unique_SomeD:
  "sorted_unique_texts pat lo hi v = Some xs \<Longrightarrow> xs = sorted_list_of_set (set xs) \<and> list_all pat xs \<and>
     lo \<le> length xs \<and> length xs \<le> hi"
  by (cases v) (auto simp: sorted_unique_texts_def Let_def split: if_splits)

lemma positive_int_InrD: "positive_int v l = Inr n \<Longrightarrow> 0 < n"
  by (cases v) (auto simp: positive_int_def elim!: guardE_InrE)

lemma locations_InrD: "locations v l = Inr xs \<Longrightarrow> distinct xs \<and> 1 \<le> length xs \<and> length xs \<le> 8"
  by (cases v) (auto simp: locations_def Let_def split: if_splits)

lemma parse_assignment_ok:
  assumes "parse_assignment v = Inr a"
  shows "assignment_ok a"
proof -
  obtain d where v: "v = JObj d" using assms by (cases v) (auto simp: parse_assignment_def)
  from assms obtain m t metric cap where
    m: "jget d ''mode'' = JStr m" "m \<in> {''metric'', ''asserted_score''}"
    and t: "jget d ''transform'' = JStr t" "t \<in> {''linear'', ''binary''}"
    and metric: "(if jget d ''mode'' = JStr ''metric''
        then bindE (identifier_value (jget d ''metric'') ''assignment metric'') (\<lambda>m. Inr (Some m))
        else guardE (jget d ''metric'' \<noteq> JNull) ''asserted_score assignment metric must be null'' (Inr None)) = Inr metric"
    and cap: "(if jget d ''cap'' = JNull then Inr None
        else bindE (decimal_value (jget d ''cap'') ''assignment cap'' False) (\<lambda>c. Inr (Some c))) = Inr cap"
    and rest: "(case sorted_unique_texts identifier_text 0 16 (jget d ''required_reason_codes'') of
             None \<Rightarrow> raise ''required_reason_codes must be sorted and unique''
           | Some reasons \<Rightarrow>
               (case sorted_unique_texts identifier_text 0 16 (jget d ''required_evidence_kinds'') of
                  None \<Rightarrow> raise ''required_evidence_kinds must be sorted and unique''
                | Some kinds \<Rightarrow>
                    Inr \<lparr>ap_mode = py_str (jget d ''mode''), ap_metric = metric,
                      ap_transform = py_str (jget d ''transform''), ap_cap = cap,
                      ap_reasons = reasons, ap_kinds = kinds\<rparr>)) = Inr a"
    unfolding parse_assignment_def v json.case
    by (elim resE not_in_set_InrE) (simp only: set_simps)
  obtain reasons kinds where r: "sorted_unique_texts identifier_text 0 16 (jget d ''required_reason_codes'') = Some reasons"
    "sorted_unique_texts identifier_text 0 16 (jget d ''required_evidence_kinds'') = Some kinds"
    and a: "a = \<lparr>ap_mode = m, ap_metric = metric, ap_transform = t, ap_cap = cap, ap_reasons = reasons, ap_kinds = kinds\<rparr>"
    using rest m t by (auto simp: py_str_def split: option.splits)
  have "m = ''metric'' \<longleftrightarrow> metric \<noteq> None"
    using metric m(1) by (auto elim!: bindE_InrE guardE_InrE split: if_splits)
  moreover have "case cap of None \<Rightarrow> True | Some c \<Rightarrow> 0 < dec_val c"
    using cap by (auto elim!: bindE_InrE dest!: decimal_InrD split: if_splits)
  ultimately show ?thesis using m(2) t(2) sorted_unique_SomeD [OF r(1)] sorted_unique_SomeD [OF r(2)]
    by (simp add: assignment_ok_def a)
qed

lemma key_entries_ok: "key_entries kvs = Inr ks \<Longrightarrow> length ks = length kvs \<and> (\<forall>kv \<in> set ks. length (snd kv) = 32)"
proof -
  have raw: "decode_public_key v = Inr raw \<Longrightarrow> length raw = 32" for v raw
    by (cases v) (auto simp: decode_public_key_def elim!: resE)
  assume a: "key_entries kvs = Inr ks"
  then show ?thesis using mapE_length mapE_all [OF a [unfolded key_entries_def]]
    by (fastforce simp: key_entries_def elim!: bindE_InrE dest: raw)
qed

lemma trusted_keys_ok: "trusted_keys v m = Inr ks \<Longrightarrow>
    1 \<le> length ks \<and> length ks \<le> 8 \<and> (\<forall>kv \<in> set ks. length (snd kv) = 32)"
  by (cases v) (auto simp: trusted_keys_def elim!: guardE_InrE dest: key_entries_ok)

lemma parse_owner_policy_ok: "parse_owner_policy v = Inr ow \<Longrightarrow> op_require_target ow \<and> 0 \<le> op_source_netuid ow"
proof (cases v)
  case (JObj d)
  assume "parse_owner_policy v = Inr ow"
  then have "nat_field (jget d ''source_netuid'')" "op_require_target ow"
    "op_source_netuid ow = int_field (jget d ''source_netuid'')"
    unfolding parse_owner_policy_def JObj json.case by (auto elim!: resE)
  then show ?thesis by (cases "jget d ''source_netuid''") (auto simp: nat_field_def int_field_def)
qed (simp_all add: parse_owner_policy_def)

lemma delegated_locations: "mapE (\<lambda>l. delegated_report_location ip (JStr l)) xs = Inr ys \<Longrightarrow> ys = xs"
  by (induction xs arbitrary: ys) (auto simp: delegated_report_location_def elim!: resE)

lemma external_source_ok:
  assumes "external_source ip d = Inr (locs, keys, ow)"
  shows "distinct locs \<and> 1 \<le> length locs \<and> length locs \<le> 8 \<and>
      (case ow of None \<Rightarrow> 1 \<le> length keys \<and> length keys \<le> 8 \<and> (\<forall>kv \<in> set keys. length (snd kv) = 32)
         | Some ow \<Rightarrow> keys = [] \<and> op_require_target ow \<and> 0 \<le> op_source_netuid ow)"
proof (cases "''owner_registration'' \<in> fst ` set d")
  case True
  with assms obtain raw ow' where "parse_owner_policy (jget d ''owner_registration'') = Inr ow'"
      "locations (jget d ''locations'') ''registered external class locations'' = Inr raw"
      "mapE (\<lambda>l. delegated_report_location ip (JStr l)) raw = Inr locs" "keys = []" "ow = Some ow'"
    unfolding external_source_def by (auto elim!: bindE_InrE)
  then show ?thesis using parse_owner_policy_ok locations_InrD delegated_locations by force
next
  case False
  with assms obtain "locations (jget d ''locations'') ''external class locations'' = Inr locs"
      "trusted_keys (jget d ''trusted_keys'') ''external class must pin 1..8 signing keys'' = Inr keys" "ow = None"
    unfolding external_source_def by (auto elim!: bindE_InrE)
  then show ?thesis using trusted_keys_ok locations_InrD by force
qed

lemma parse_external_ok:
  assumes "parse_external ip d cid al = Inr e"
  shows "external_ok e \<and> ep_class_id e = cid \<and> ep_allocation e = al"
  using assms unfolding parse_external_def
proof (elim bindE_InrE guardE_InrE)
  fix sid age future span src asg
  assume pos: "positive_int (jget d ''max_age_seconds'') ''max_age_seconds'' = Inr age"
      "positive_int (jget d ''max_future_seconds'') ''max_future_seconds'' = Inr future"
      "positive_int (jget d ''max_block_span'') ''max_block_span'' = Inr span"
    and src: "external_source ip d = Inr src"
    and rest: "(case src of (locs, keys, owner) \<Rightarrow> bindE (parse_assignment (jget d ''assignment''))
      (\<lambda>asg. Inr \<lparr>ep_class_id = cid, ep_allocation = al, ep_source_id = sid, ep_locations = locs,
          ep_keys = keys, ep_max_age = age, ep_max_future = future, ep_max_span = span,
          ep_require_evidence = (jget d ''require_evidence'' = JBool True), ep_assignment = asg,
          ep_owner = owner\<rparr>)) = Inr e"
  obtain locs keys ow where s: "src = (locs, keys, ow)" by (cases src)
  from rest [unfolded s prod.case] show ?thesis
    using external_source_ok [OF src [unfolded s]] pos [THEN positive_int_InrD]
    by (cases ow) (auto simp: external_ok_def dest!: parse_assignment_ok elim!: bindE_InrE)
qed

definition loop_ok :: "policy_loop \<Rightarrow> bool" where
  "loop_ok pl =
     (distinct (map cp_class_id (pl_classes pl)) \<and> set (pl_seen pl) = cp_class_id ` set (pl_classes pl)
      \<and> length (filter (\<lambda>c. cp_kind c = ''local_sat'') (pl_classes pl)) \<le> 1
      \<and> (\<forall>c \<in> set (pl_classes pl). class_ok c)
      \<and> pl_total pl = (\<Sum>c \<leftarrow> pl_classes pl. dec_val (cp_allocation c)))"

lemma policy_class_ok:
  assumes "policy_class ip pl v = Inr pl'" "loop_ok pl"
  shows "loop_ok pl' \<and> pl_classes pl' \<noteq> []"
proof -
  obtain d where v: "v = JObj d" using assms(1) by (cases v) (auto simp: policy_class_def)
  from assms(1) obtain cid al where cid: "identifier_text cid" "cid \<notin> set (pl_seen pl)"
    and al: "decimal_value (jget d ''allocation'') ''class allocation'' False = Inr al" "dec_val al \<le> 1"
    and rest: "add_class ip pl d cid al = Inr pl'"
    unfolding policy_class_def v json.case
    by (auto elim!: require_exact_keys_InrE bindE_InrE guardE_InrE identifier_InrE)
  note al = al decimal_InrD [OF al(1)]
  let ?kind = "jget d ''kind''"
  obtain c where c: "cp_class_id c = cid" "cp_allocation c = al" "class_ok c"
      "cp_kind c = ''local_sat'' \<longrightarrow> filter (\<lambda>c. cp_kind c = ''local_sat'') (pl_classes pl) = []"
    and pl': "pl' = pl\<lparr>pl_seen := cid # pl_seen pl, pl_total := pl_total pl + dec_val al,
      pl_classes := pl_classes pl @ [c]\<rparr>"
  proof (cases "?kind = JStr ''local_sat''")
    case True
    show thesis by (rule that [of "LocalClass cid al"])
      (use rest True cid al in \<open>auto simp: add_class_def Let_def class_ok_def filter_empty_conv elim!: guardE_InrE\<close>)
  next
    case False
    then obtain e where e: "parse_external ip d cid al = Inr e" "pl' = pl\<lparr>pl_seen := cid # pl_seen pl,
        pl_total := pl_total pl + dec_val al, pl_classes := pl_classes pl @ [ExternalClass e]\<rparr>"
      using rest by (auto simp: add_class_def Let_def elim!: guardE_InrE bindE_InrE)
    show thesis by (rule that [of "ExternalClass e"])
      (use parse_external_ok [OF e(1)] e(2) cid al in \<open>auto simp: class_ok_def\<close>)
  qed
  show ?thesis using assms(2) cid c unfolding loop_ok_def pl' by (auto simp: image_iff)
qed

lemma fold_policy_ok:
  assumes "foldE (policy_class ip) pl cs = Inr pl'" "loop_ok pl"
  shows "loop_ok pl' \<and> (pl_classes pl \<noteq> [] \<or> cs \<noteq> [] \<longrightarrow> pl_classes pl' \<noteq> [])"
  using assms
proof (induction cs arbitrary: pl)
  case (Cons v cs)
  then obtain pl1 where p: "policy_class ip pl v = Inr pl1" "foldE (policy_class ip) pl1 cs = Inr pl'"
    by (auto elim!: bindE_InrE)
  have "loop_ok pl1 \<and> pl_classes pl1 \<noteq> []" using policy_class_ok [OF p(1) Cons.prems(2)] .
  then show ?case using Cons.IH [OF p(2)] by simp
qed simp

lemma load_policy_ok:
  assumes "load_score_policy ip contents network netuid = Inr p"
  shows "policy_ok p \<and> sp_network p = network \<and> sp_netuid p = netuid"
proof -
  obtain raw where raw: "contents = Some raw" using assms by (cases contents) (auto simp: load_score_policy_def)
  let ?enc = "if raw \<noteq> [] \<and> last raw = 10 then butlast raw else raw"
  obtain d where d: "parse_strict_json ?enc MAX_REPORT_BYTES = Inr d"
    using assms unfolding load_score_policy_def raw option.case Let_def by (elim bindE_InrE)
  obtain cs where cs: "jget d ''classes'' = JArr cs"
    using assms unfolding load_score_policy_def raw option.case Let_def d bindE_Inr
    by (elim guardE_InrE) (cases "jget d ''classes''"; simp)
  obtain pl where pl: "foldE (policy_class ip) \<lparr>pl_seen = [], pl_total = 0, pl_classes = []\<rparr> cs = Inr pl"
    and cl: "close_policy d ?enc network netuid pl = Inr p" and cs': "cs \<noteq> []"
    using assms unfolding load_score_policy_def raw option.case Let_def d bindE_Inr cs json.case
    by (elim guardE_InrE bindE_InrE) force
  have p: "pl_total pl = 1" "sp_classes p = pl_classes pl" "sp_network p = network" "sp_netuid p = netuid"
    using cl by (auto simp: close_policy_def elim!: guardE_InrE)
  have "loop_ok \<lparr>pl_seen = [], pl_total = 0, pl_classes = []\<rparr>" by (simp add: loop_ok_def)
  from fold_policy_ok [OF pl this] p cs' show ?thesis by (simp add: loop_ok_def policy_ok_def)
qed


section \<open>Properties of the loader\<close>

text \<open>C12. A policy the loader accepts is bound to the validator's own network and netuid, its
  classes are distinct with at most one local one, their allocations lie in (0, 1] and sum
  exactly to 1, and every external class pins 1 to 8 keys of 32 bytes or delegates to an
  owner-registered source.\<close>

theorem loaded_policy_sound:
  "load_score_policy ip contents network netuid = Inr p \<Longrightarrow>
     policy_ok p \<and> sp_network p = network \<and> sp_netuid p = netuid"
  by (rule load_policy_ok)

definition default_document :: "string \<Rightarrow> int \<Rightarrow> jdict" where
  "default_document network netuid =
     [(''schema'', JStr ''cathedral_score_policy_v1''), (''network'', JStr network), (''netuid'', JInt netuid),
      (''classes'', JArr [JObj [(''allocation'', JStr ''1''), (''class_id'', JStr ''local_sat''),
         (''kind'', JStr ''local_sat'')]])]"

lemma default_loads:
  assumes "1 \<le> utf8_length network" "utf8_length network \<le> 128" "0 \<le> netuid" "int64 netuid"
    and len: "int (length (canonical_json (default_document network netuid))) \<le> MAX_REPORT_BYTES"
  shows "load_score_policy ip (Some (canonical_json (default_document network netuid))) network netuid
    = Inr (default_score_policy network netuid)"
proof -
  let ?d = "default_document network netuid"
  let ?c = "JObj [(''allocation'', JStr ''1''), (''class_id'', JStr ''local_sat''), (''kind'', JStr ''local_sat'')]"
  let ?s = "[(''classes'', JArr [?c]), (''netuid'', JInt netuid), (''network'', JStr network),
      (''schema'', JStr ''cathedral_score_policy_v1'')]"
  have sorted: "map (\<lambda>(k, v). (k, jsort v)) (sort_items ?d) = ?s"
    by (simp add: default_document_def sort_items_def)
  have "strict_ok (JObj ?d)" using assms(4) by (simp add: default_document_def)
  from parse_canonical [OF this len] sorted
  have parse: "parse_strict_json (canonical_json ?d) MAX_REPORT_BYTES = Inr ?s" by simp
  have canon: "canonical_json ?s = canonical_json ?d"
    using canonical_json_sorted [of ?d] by (simp only: sorted)
  have "last (dumps (JObj ?d)) = CHR ''}''" by (simp add: dumps_obj)
  then have enc: "(if canonical_json ?d \<noteq> [] \<and> last (canonical_json ?d) = 10
      then butlast (canonical_json ?d) else canonical_json ?d) = canonical_json ?d"
    by (auto simp: canonical_json_def canonical_bytes_def last_map byte_of_def)
  have cls: "policy_class ip \<lparr>pl_seen = [], pl_total = 0, pl_classes = []\<rparr> ?c
      = Inr \<lparr>pl_seen = [''local_sat''], pl_total = 1, pl_classes = [LocalClass ''local_sat'' (1, 0)]\<rparr>"
  proof -
    have k: "keys_are [(''allocation'', JStr ''1''), (''class_id'', JStr ''local_sat''), (''kind'', JStr ''local_sat'')]
        local_class_keys" by (auto simp: keys_are_def local_class_keys_def)
    have i: "identifier_text ''local_sat''" by code_simp
    have d: "decimal_text ''1'' = Some (1, 0)" by code_simp
    show ?thesis
      by (simp add: policy_class_def require_exact_keys_def k jget_def identifier_value_def i decimal_value_def d
        dec_val_def add_class_def Let_def)
  qed
  have keys: "set policy_keys \<subseteq> fst ` set ?s \<and> fst ` set ?s - set policy_keys \<subseteq> {''burn_hotkey''}"
    by (simp add: policy_keys_def)
  show ?thesis
    unfolding load_score_policy_def option.case Let_def enc parse bindE_Inr canon
    using keys assms
    by (simp add: jget_def text_between_def nat_field_def cls close_policy_def default_score_policy_def Let_def
      default_document_def guardE_def)
qed

text \<open>C13. The policy a validator uses when none is configured is the one the loader makes of its
  canonical document: the built-in default passes every check of the loader, digest included.\<close>

theorem default_policy_is_loadable:
  "1 \<le> utf8_length network \<Longrightarrow> utf8_length network \<le> 128 \<Longrightarrow> 0 \<le> netuid \<Longrightarrow> int64 netuid \<Longrightarrow>
     int (length (canonical_json (default_document network netuid))) \<le> MAX_REPORT_BYTES \<Longrightarrow>
     load_score_policy ip (Some (canonical_json (default_document network netuid))) network netuid
       = Inr (default_score_policy network netuid)"
  by (rule default_loads)

lemma default_document_length: "length (canonical_json (default_document ''finney'' 39)) = 142"
  by code_simp

theorem default_policy_is_loadable_witness:
  "load_score_policy (\<lambda>_. False) (Some (canonical_json (default_document ''finney'' 39))) ''finney'' 39
     = Inr (default_score_policy ''finney'' 39)"
proof -
  have "utf8_length ''finney'' = 6" by code_simp
  then show ?thesis
    using default_policy_is_loadable [of "''finney''" 39 "\<lambda>_. False"] default_document_length
    by (simp add: int64_def MAX_REPORT_BYTES_def)
qed

theorem loaded_policy_sound_witness: "policy_ok (default_score_policy ''finney'' 39)"
proof -
  have "utf8_length ''finney'' = 6" by code_simp
  then have "load_score_policy (\<lambda>_. False) (Some (canonical_json (default_document ''finney'' 39))) ''finney'' 39
     = Inr (default_score_policy ''finney'' 39)"
    using default_loads [of "''finney''" 39 "\<lambda>_. False"] default_document_length
    by (simp add: int64_def MAX_REPORT_BYTES_def)
  from loaded_policy_sound [OF this] show ?thesis by simp
qed

end
