(* ===== verification/Score_Report.thy ===== *)
theory Score_Report
  imports Score_Policy
begin

text \<open>
  \<open>cathedral_thin/score_classes.py\<close>, the signed artifacts: score reports and owner
  registrations, their signing and verification, and the mirrors they are fetched from.
  The signature schemes, the network and the file system are the fields of \<open>world\<close>: the
  code calls them and they are not part of the repository.
\<close>

section \<open>What the code calls\<close>

text \<open>\<open>or_ed key sig msg\<close> is \<open>Ed25519PublicKey.from_public_bytes(key).verify(sig, msg)\<close> without an
  exception; \<open>or_sr addr msg sig\<close> is \<open>Keypair(ss58_address=addr).verify\<close>, None when it raises.
  \<open>or_http\<close> gives the \<open>Content-Length\<close> header and the body of a response, None for a network
  error; \<open>or_path\<close> resolves a location (a file URI or not) to a path; \<open>or_file\<close> gives the size
  \<open>stat\<close> reports and the bytes read, None for an OSError.\<close>

record world =
  or_ip :: "string \<Rightarrow> bool"
  or_ed :: "bytes \<Rightarrow> bytes \<Rightarrow> bytes \<Rightarrow> bool"
  or_sr :: "string \<Rightarrow> bytes \<Rightarrow> bytes \<Rightarrow> bool option"
  or_http :: "string \<Rightarrow> (string option \<times> bytes) option"
  or_path :: "bool \<Rightarrow> string \<Rightarrow> string"
  or_file :: "string \<Rightarrow> (int \<times> bytes) option"

section \<open>The artifacts\<close>

record evidence_ref =
  ev_kind :: string
  ev_id :: string
  ev_digest :: string
  ev_uri :: "string option"

record score_entry =
  se_hotkey :: string
  se_metrics :: "(string \<times> dec) list"
  se_asserted :: "dec option"
  se_reasons :: "string list"
  se_evidence :: "evidence_ref list"

record verified_report =
  vr_class_id :: string
  vr_source_id :: string
  vr_epoch :: int
  vr_report_id :: string
  vr_previous :: "string option"
  vr_generated :: int
  vr_until :: int
  vr_first :: int
  vr_last :: int
  vr_policy_digest :: string
  vr_verifier_digest :: string
  vr_key_id :: string
  vr_entries :: "score_entry list"
  vr_document :: jdict

record verified_registration =
  rg_source_netuid :: int
  rg_target_netuid :: int
  rg_owner :: string
  rg_delegate :: string
  rg_source_id :: string
  rg_class_ids :: "string list"
  rg_locations :: "string list"
  rg_keys :: "(string \<times> bytes) list"
  rg_sequence :: int
  rg_previous :: "string option"
  rg_id :: string
  rg_issued :: int
  rg_expires :: int
  rg_first :: int
  rg_last :: int
  rg_document :: jdict

section \<open>Bodies and signing\<close>

definition without :: "string list \<Rightarrow> jdict \<Rightarrow> jdict" where
  "without ks d = filter (\<lambda>(k, v). k \<notin> set ks) d"

definition unsigned_report_body :: "jdict \<Rightarrow> jdict" where
  "unsigned_report_body d = without [''report_id'', ''signature''] d"

definition signed_report_body :: "jdict \<Rightarrow> jdict" where
  "signed_report_body d = without [''signature''] d"

definition report_id_for :: "jdict \<Rightarrow> string" where
  "report_id_for d = prefixed_digest ''cathedral-score-class-id-v1'' (canonical_json (unsigned_report_body d))"

definition report_message :: "jdict \<Rightarrow> bytes" where
  "report_message d = map byte_of ''cathedral-score-class-report-v1'' @ [0] @ canonical_json (signed_report_body d)"

definition signature_object :: "string \<Rightarrow> bytes \<Rightarrow> json" where
  "signature_object alg sig = JObj [(''algorithm'', JStr alg), (''value_base64'', JStr (b64encode sig))]"

definition sign_report :: "(bytes \<Rightarrow> bytes) \<Rightarrow> jdict \<Rightarrow> bytes res" where
  "sign_report sign d =
     guardE (''report_id'' \<in> fst ` set d \<or> ''signature'' \<in> fst ` set d)
       ''unsigned report must omit report_id and signature''
     (let signed = dict_set ''report_id'' (JStr (report_id_for d)) d;
          sig = sign (report_message signed)
      in Inr (canonical_json (dict_set ''signature'' (signature_object ''ed25519'' sig) signed)))"

definition unsigned_registration_body :: "jdict \<Rightarrow> jdict" where
  "unsigned_registration_body d = without [''registration_id'', ''signature''] d"

definition signed_registration_body :: "jdict \<Rightarrow> jdict" where
  "signed_registration_body d = without [''signature''] d"

definition registration_id_for :: "jdict \<Rightarrow> string" where
  "registration_id_for d =
     prefixed_digest ''cathedral-owner-score-registration-id-v1'' (canonical_json (unsigned_registration_body d))"

definition registration_message :: "jdict \<Rightarrow> bytes" where
  "registration_message d =
     map byte_of ''cathedral-owner-score-registration-v1'' @ [0] @ canonical_json (signed_registration_body d)"

text \<open>\<open>sign\<close> is the owner's coldkey, None when it raises.\<close>

definition sign_owner_registration :: "(bytes \<Rightarrow> bytes option) \<Rightarrow> jdict \<Rightarrow> bytes res" where
  "sign_owner_registration sign d =
     guardE (''registration_id'' \<in> fst ` set d \<or> ''signature'' \<in> fst ` set d)
       ''unsigned owner registration must omit registration_id and signature''
     (let signed = dict_set ''registration_id'' (JStr (registration_id_for d)) d in
      case sign (registration_message signed) of
        None \<Rightarrow> raise ''could not sign owner registration''
      | Some sig \<Rightarrow>
          guardE (length sig \<noteq> 64) ''owner registration signature must be 64 bytes''
            (Inr (canonical_json (dict_set ''signature'' (signature_object ''sr25519'' sig) signed))))"

section \<open>The checks both artifacts share\<close>

definition block_window ::
    "(string \<Rightarrow> string) \<Rightarrow> string \<Rightarrow> string \<Rightarrow> jdict \<Rightarrow> int \<Rightarrow> int \<Rightarrow> (int \<times> int) res" where
  "block_window bad outside wide d block max_span =
     guardE (\<not> nat_field (jget d ''valid_from_block'')) (bad ''valid_from_block'')
     (guardE (\<not> nat_field (jget d ''valid_until_block'')) (bad ''valid_until_block'')
     (let first = int_field (jget d ''valid_from_block''); final = int_field (jget d ''valid_until_block'') in
      guardE (first > block \<or> block \<ge> final) outside
      (guardE (final \<le> first \<or> final - first > max_span) wide (Inr (first, final)))))"

text \<open>\<open>now\<close> is the verification time, None for a datetime that is not UTC.\<close>

definition time_window ::
    "json \<Rightarrow> string \<Rightarrow> json \<Rightarrow> string \<Rightarrow> int option \<Rightarrow> int \<Rightarrow> int \<Rightarrow> string \<Rightarrow> string \<Rightarrow> string \<Rightarrow> (int \<times> int) res" where
  "time_window v1 l1 v2 l2 now max_age max_future not_utc stale expired =
     bindE (parse_time v1 l1) (\<lambda>t1. bindE (parse_time v2 l2) (\<lambda>t2.
     case now of
       None \<Rightarrow> raise not_utc
     | Some t \<Rightarrow>
         (let age = elapsed_seconds t t1 in
          guardE (age < of_int (- max_future) \<or> age > of_int max_age) stale
          (guardE (\<not> t1 < t2 \<or> t \<ge> t2) expired (Inr (t1, t2))))))"

definition opt_digest :: "json \<Rightarrow> string \<Rightarrow> string option res" where
  "opt_digest v label = (if v = JNull then Inr None else bindE (digest_value v label) (\<lambda>s. Inr (Some s)))"

definition signature_keys :: "string list" where
  "signature_keys = [''algorithm'', ''value_base64'']"

definition signature_bytes :: "string \<Rightarrow> string \<Rightarrow> json \<Rightarrow> bytes res" where
  "signature_bytes alg label v =
     (case v of
        JObj sg \<Rightarrow>
          require_exact_keys sg signature_keys (label @ '' signature'')
          (guardE (jget sg ''algorithm'' \<noteq> JStr alg) (''unsupported '' @ label @ '' signature algorithm'')
          (case jget sg ''value_base64'' of
             JStr s \<Rightarrow>
               bindE (b64decode_or (label @ '' signature is not canonical base64'') s) (\<lambda>b.
               guardE (length b \<noteq> 64 \<or> b64encode b \<noteq> s) (label @ '' signature must be 64 bytes'') (Inr b))
           | _ \<Rightarrow> raise (label @ '' signature is not canonical base64'')))
      | _ \<Rightarrow> raise (label @ '' signature must be an object''))"

section \<open>Verifying an owner registration\<close>

definition registration_keys :: "string list" where
  "registration_keys = [''schema'', ''network'', ''source_netuid'', ''target_netuid'', ''owner_coldkey'',
     ''delegate_hotkey'', ''source_id'', ''class_ids'', ''report_locations'', ''report_keys'', ''sequence'',
     ''previous_registration_id'', ''issued_at'', ''expires_at'', ''valid_from_block'', ''valid_until_block'',
     ''registration_id'', ''signature'']"

text \<open>The subnet and key bindings: owner and delegate.\<close>

definition registration_parties ::
    "owner_policy \<Rightarrow> jdict \<Rightarrow> string \<Rightarrow> int \<Rightarrow> string \<Rightarrow> (string \<times> string) list \<Rightarrow> (string \<times> string) res" where
  "registration_parties op d network netuid current_owner registered =
     guardE (jget d ''schema'' \<noteq> JStr ''cathedral_owner_score_registration_v1'')
       ''unsupported owner registration schema''
     (guardE (jget d ''network'' \<noteq> JStr network) ''owner registration network mismatch''
     (guardE (\<not> nat_field (jget d ''source_netuid'')) ''owner registration source_netuid is invalid''
     (guardE (\<not> nat_field (jget d ''target_netuid'')) ''owner registration target_netuid is invalid''
     (guardE (\<not> nat_field (jget d ''sequence'')) ''owner registration sequence is invalid''
     (guardE (jget d ''source_netuid'' \<noteq> JInt (op_source_netuid op) \<or> jget d ''target_netuid'' \<noteq> JInt netuid)
       ''owner registration subnet binding mismatch''
     (case (jget d ''owner_coldkey'', jget d ''delegate_hotkey'') of
        (JStr owner, JStr delegate) \<Rightarrow>
          guardE (\<not> text_between (JStr owner) 1 128 \<or> \<not> text_between (JStr delegate) 1 128
              \<or> \<not> text_between (JStr current_owner) 1 128) ''owner or delegate key is invalid''
          (guardE (owner \<noteq> current_owner) ''registration signer is not the current source subnet owner''
          (guardE (\<not> op_require_target op) ''owner registration must require target registration''
          (guardE (map_of registered delegate \<noteq> Some owner)
            ''owner delegate is not currently registered to the target subnet'' (Inr (owner, delegate)))))
      | _ \<Rightarrow> raise ''owner or delegate key is invalid''))))))"

text \<open>What is delegated: the source, the classes, the report locations and the report keys.\<close>

definition registration_scope ::
    "(string \<Rightarrow> bool) \<Rightarrow> external_policy \<Rightarrow> jdict
       \<Rightarrow> (string \<times> string list \<times> string list \<times> (string \<times> bytes) list) res" where
  "registration_scope ip policy d =
     bindE (identifier_value (jget d ''source_id'') ''registration source id'') (\<lambda>source_id.
     guardE (source_id \<noteq> ep_source_id policy) ''owner registration source mismatch''
     (case sorted_unique_texts identifier_text 1 32 (jget d ''class_ids'') of
        None \<Rightarrow> raise ''owner registration class_ids must be sorted and unique''
      | Some class_ids \<Rightarrow>
          guardE (ep_class_id policy \<notin> set class_ids) ''owner registration does not delegate this class''
          (case jget d ''report_locations'' of
             JArr vs \<Rightarrow>
               guardE (\<not> (1 \<le> length vs \<and> length vs \<le> 8) \<or> length (strs_of vs) \<noteq> length vs
                   \<or> \<not> distinct (strs_of vs)) ''owner registration report locations are invalid''
               (bindE (mapE (delegated_report_location ip) vs) (\<lambda>locs.
                guardE (locs \<noteq> ep_locations policy)
                  ''owner registration report locations do not match validator policy''
                (bindE (trusted_keys (jget d ''report_keys'') ''owner registration must delegate 1..8 report keys'')
                  (\<lambda>keys. Inr (source_id, class_ids, locs, keys)))))
           | _ \<Rightarrow> raise ''owner registration report locations are invalid'')))"

text \<open>The identity and the owner's signature.\<close>

definition registration_proof :: "world \<Rightarrow> jdict \<Rightarrow> string \<Rightarrow> (string option \<times> string) res" where
  "registration_proof env d owner =
     bindE (opt_digest (jget d ''previous_registration_id'') ''previous registration id'') (\<lambda>previous.
     bindE (digest_value (jget d ''registration_id'') ''registration id'') (\<lambda>rid.
     guardE (rid \<noteq> registration_id_for d) ''owner registration id does not match its canonical body''
     (bindE (signature_bytes ''sr25519'' ''owner registration'' (jget d ''signature'')) (\<lambda>sig.
      case or_sr env owner (registration_message d) sig of
        None \<Rightarrow> raise ''owner registration signer address is invalid''
      | Some ok \<Rightarrow> guardE (\<not> ok) ''owner registration signature verification failed'' (Inr (previous, rid))))))"

definition check_registration ::
    "world \<Rightarrow> bytes \<Rightarrow> external_policy \<Rightarrow> string \<Rightarrow> int \<Rightarrow> int \<Rightarrow> string \<Rightarrow> (string \<times> string) list
       \<Rightarrow> int option \<Rightarrow> verified_registration res" where
  "check_registration env raw policy network netuid block current_owner registered now =
     (case ep_owner policy of
        None \<Rightarrow> raise ''score class is not owner-registered''
      | Some op \<Rightarrow>
          bindE (parse_strict_json raw MAX_REPORT_BYTES) (\<lambda>d.
          guardE (raw \<noteq> canonical_json d) ''owner registration JSON must be canonical''
          (require_exact_keys d registration_keys ''owner registration''
          (bindE (registration_parties op d network netuid current_owner registered) (\<lambda>(owner, delegate).
           bindE (registration_scope (or_ip env) policy d) (\<lambda>(source_id, class_ids, locs, keys).
           bindE (block_window (\<lambda>n. ''owner registration '' @ n @ '' is invalid'')
               ''owner registration is outside its block window''
               ''owner registration block window is invalid or too wide'' d block (op_max_span op)) (\<lambda>(first, final).
           bindE (time_window (jget d ''issued_at'') ''registration issued_at'' (jget d ''expires_at'')
               ''registration expires_at'' now (op_max_age op) (op_max_future op)
               ''owner registration verification time must be UTC''
               ''owner registration is stale or future-dated'' ''owner registration has expired'') (\<lambda>(issued, expires).
           bindE (registration_proof env d owner) (\<lambda>(previous, rid).
             Inr \<lparr>rg_source_netuid = int_field (jget d ''source_netuid''),
               rg_target_netuid = int_field (jget d ''target_netuid''), rg_owner = owner, rg_delegate = delegate,
               rg_source_id = source_id, rg_class_ids = class_ids, rg_locations = locs, rg_keys = keys,
               rg_sequence = int_field (jget d ''sequence''), rg_previous = previous, rg_id = rid,
               rg_issued = issued, rg_expires = expires, rg_first = first, rg_last = final,
               rg_document = d\<rparr>)))))))))"

definition materialize_registered_policy :: "external_policy \<Rightarrow> verified_registration \<Rightarrow> external_policy res" where
  "materialize_registered_policy policy reg =
     guardE (ep_owner policy = None) ''cannot materialize a directly pinned class''
     (guardE (rg_source_id reg \<noteq> ep_source_id policy \<or> ep_class_id policy \<notin> set (rg_class_ids reg))
       ''owner registration does not match score class''
     (Inr (policy\<lparr>ep_keys := rg_keys reg\<rparr>)))"

section \<open>Verifying a score report\<close>

definition entry_keys :: "string list" where
  "entry_keys = [''miner_hotkey'', ''metrics'', ''asserted_score'', ''reason_codes'', ''evidence'']"

definition evidence_keys :: "string list" where
  "evidence_keys = [''kind'', ''id'', ''digest'', ''uri'']"

definition evidence_uri :: "(string \<Rightarrow> bool) \<Rightarrow> json \<Rightarrow> string option res" where
  "evidence_uri ip v =
     (case v of
        JNull \<Rightarrow> Inr None
      | JStr s \<Rightarrow>
          guardE (\<not> text_between v 1 2048) ''evidence URI is invalid''
          (bindE (urlsplit ip s) (\<lambda>u.
           guardE (url_scheme u \<notin> {''https'', ''ipfs''} \<or> url_netloc u = [] \<or> url_username u \<noteq> []
               \<or> url_password u \<noteq> [] \<or> url_fragment u \<noteq> [])
             ''evidence URI must be credential-free HTTPS or IPFS'' (Inr (Some s))))
      | _ \<Rightarrow> raise ''evidence URI is invalid'')"

definition parse_evidence :: "(string \<Rightarrow> bool) \<Rightarrow> evidence_ref list \<Rightarrow> json \<Rightarrow> evidence_ref list res" where
  "parse_evidence ip seen item =
     (case item of
        JObj d \<Rightarrow>
          require_exact_keys d evidence_keys ''evidence reference''
          (bindE (identifier_value (jget d ''kind'') ''evidence kind'') (\<lambda>kind.
           bindE (digest_value (jget d ''id'') ''evidence id'') (\<lambda>eid.
           bindE (digest_value (jget d ''digest'') ''evidence digest'') (\<lambda>dig.
           bindE (evidence_uri ip (jget d ''uri'')) (\<lambda>uri.
           guardE (\<exists>e \<in> set seen. ev_kind e = kind \<and> ev_id e = eid) ''duplicate evidence reference''
             (Inr (seen @ [\<lparr>ev_kind = kind, ev_id = eid, ev_digest = dig, ev_uri = uri\<rparr>])))))))
      | _ \<Rightarrow> raise ''evidence reference must be an object'')"

definition parse_metrics :: "json \<Rightarrow> (string \<times> dec) list res" where
  "parse_metrics v =
     (case v of
        JObj ms \<Rightarrow>
          guardE (length ms > MAX_METRICS_PER_ENTRY) ''entry metrics must be a bounded object''
          (mapE (\<lambda>(name, raw). bindE (identifier_value (JStr name) ''metric name'') (\<lambda>n.
            bindE (decimal_value raw (''metric '' @ name) True) (\<lambda>x. Inr (n, x)))) ms)
      | _ \<Rightarrow> raise ''entry metrics must be a bounded object'')"

definition parse_entry :: "(string \<Rightarrow> bool) \<Rightarrow> json \<Rightarrow> score_entry res" where
  "parse_entry ip v =
     (case v of
        JObj d \<Rightarrow>
          require_exact_keys d entry_keys ''score entry''
          (guardE (\<not> text_between (jget d ''miner_hotkey'') 1 512) ''invalid miner hotkey''
          (bindE (parse_metrics (jget d ''metrics'')) (\<lambda>metrics.
           bindE (if jget d ''asserted_score'' = JNull then Inr None
                  else bindE (decimal_value (jget d ''asserted_score'') ''asserted score'' True) (\<lambda>x. Inr (Some x)))
             (\<lambda>asserted.
           case sorted_unique_texts identifier_text 1 32 (jget d ''reason_codes'') of
             None \<Rightarrow> raise ''reason_codes must be a sorted unique non-empty list''
           | Some reasons \<Rightarrow>
               (case jget d ''evidence'' of
                  JArr es \<Rightarrow>
                    guardE (length es > MAX_EVIDENCE_PER_ENTRY) ''evidence must be a bounded list''
                    (bindE (foldE (parse_evidence ip) [] es) (\<lambda>evidence.
                      Inr \<lparr>se_hotkey = py_str (jget d ''miner_hotkey''), se_metrics = metrics,
                        se_asserted = asserted, se_reasons = reasons, se_evidence = evidence\<rparr>))
                | _ \<Rightarrow> raise ''evidence must be a bounded list'')))))
      | _ \<Rightarrow> raise ''score entry must be an object'')"

definition report_keys :: "string list" where
  "report_keys = [''schema'', ''network'', ''netuid'', ''class_id'', ''source_id'', ''source_epoch'',
     ''generated_at'', ''valid_until'', ''valid_from_block'', ''valid_until_block'', ''complete'',
     ''policy_digest'', ''verifier_digest'', ''previous_report_id'', ''entries'', ''signing_key_id'',
     ''report_id'', ''signature'']"

text \<open>The header fields, up to the epoch.\<close>

definition report_header :: "external_policy \<Rightarrow> jdict \<Rightarrow> string \<Rightarrow> int \<Rightarrow> int res" where
  "report_header policy d network netuid =
     guardE (jget d ''schema'' \<noteq> JStr ''cathedral_score_class_report_v1'' \<or> jget d ''complete'' \<noteq> JBool True)
       ''unsupported or incomplete score report''
     (guardE (\<not> text_between (jget d ''network'') 1 128 \<or> \<not> nat_field (jget d ''netuid''))
       ''score report network or netuid is invalid''
     (guardE (jget d ''network'' \<noteq> JStr network \<or> jget d ''netuid'' \<noteq> JInt netuid)
       ''score report network or netuid mismatch''
     (guardE (jget d ''class_id'' \<noteq> JStr (ep_class_id policy) \<or> jget d ''source_id'' \<noteq> JStr (ep_source_id policy))
       ''score report class or source mismatch''
     (guardE (\<not> nat_field (jget d ''source_epoch'')) ''invalid source epoch''
       (Inr (int_field (jget d ''source_epoch'')))))))"

text \<open>The digests, the identity and the signature of a pinned key.\<close>

definition report_proof ::
    "world \<Rightarrow> external_policy \<Rightarrow> jdict \<Rightarrow> (string \<times> string \<times> string option \<times> string \<times> string) res" where
  "report_proof env policy d =
     bindE (digest_value (jget d ''policy_digest'') ''policy digest'') (\<lambda>pd.
     bindE (digest_value (jget d ''verifier_digest'') ''verifier digest'') (\<lambda>vd.
     bindE (opt_digest (jget d ''previous_report_id'') ''previous report id'') (\<lambda>previous.
     bindE (digest_value (jget d ''report_id'') ''report id'') (\<lambda>rid.
     guardE (rid \<noteq> report_id_for d) ''score report id does not match its canonical body''
     (bindE (key_id_value (jget d ''signing_key_id'')) (\<lambda>kid.
      case map_of (ep_keys policy) kid of
        None \<Rightarrow> raise ''score report signing key is not locally trusted''
      | Some key \<Rightarrow>
          bindE (signature_bytes ''ed25519'' ''score report'' (jget d ''signature'')) (\<lambda>sig.
          guardE (\<not> or_ed env key sig (report_message d)) ''score report signature verification failed''
            (Inr (pd, vd, previous, rid, kid)))))))))"

definition report_entries :: "(string \<Rightarrow> bool) \<Rightarrow> json \<Rightarrow> score_entry list res" where
  "report_entries ip v =
     (case v of
        JArr es \<Rightarrow>
          guardE (length es > MAX_REPORT_ENTRIES) ''score report entries must be a bounded list''
          (bindE (mapE (parse_entry ip) es) (\<lambda>entries.
           let hotkeys = map se_hotkey entries in
           guardE (hotkeys \<noteq> sorted_list_of_set (set hotkeys))
             ''score report entries must have sorted unique hotkeys'' (Inr entries)))
      | _ \<Rightarrow> raise ''score report entries must be a bounded list'')"

definition verify_report ::
    "world \<Rightarrow> bytes \<Rightarrow> external_policy \<Rightarrow> string \<Rightarrow> int \<Rightarrow> int \<Rightarrow> int option \<Rightarrow> verified_report res" where
  "verify_report env raw policy network netuid block now =
     guardE (netuid < 0 \<or> block < 0) ''validator network, netuid, or block is invalid''
     (bindE (parse_strict_json raw MAX_REPORT_BYTES) (\<lambda>d.
      guardE (raw \<noteq> canonical_json d) ''score report JSON must be canonical''
      (require_exact_keys d report_keys ''score report''
      (bindE (report_header policy d network netuid) (\<lambda>epoch.
       bindE (block_window (\<lambda>n. ''invalid '' @ n) ''score report is outside its authorized block window''
           ''score report block window is invalid or too wide'' d block (ep_max_span policy)) (\<lambda>(first, final).
       bindE (time_window (jget d ''generated_at'') ''generated_at'' (jget d ''valid_until'') ''valid_until''
           now (ep_max_age policy) (ep_max_future policy) ''verification time must be UTC''
           ''score report generation time is stale or future-dated''
           ''score report validity window has expired'') (\<lambda>(generated, until).
       bindE (report_proof env policy d) (\<lambda>(pd, vd, previous, rid, kid).
       bindE (report_entries (or_ip env) (jget d ''entries'')) (\<lambda>entries.
         Inr \<lparr>vr_class_id = ep_class_id policy, vr_source_id = ep_source_id policy, vr_epoch = epoch,
           vr_report_id = rid, vr_previous = previous, vr_generated = generated, vr_until = until,
           vr_first = first, vr_last = final, vr_policy_digest = pd, vr_verifier_digest = vd,
           vr_key_id = kid, vr_entries = entries, vr_document = d\<rparr>)))))))))"


section \<open>What an accepted artifact satisfies\<close>

lemma block_window_InrD:
  "block_window bad outside wide d block mx = Inr w \<Longrightarrow> fst w = int_field (jget d ''valid_from_block'')
     \<and> snd w = int_field (jget d ''valid_until_block'') \<and> 0 \<le> fst w \<and> fst w \<le> block \<and> block < snd w \<and> snd w - fst w \<le> mx"
  by (cases "jget d ''valid_from_block''")
    (auto simp: block_window_def Let_def nat_field_def int_field_def elim!: guardE_InrE)

definition fresh_at :: "int option \<Rightarrow> int \<Rightarrow> int \<Rightarrow> int \<Rightarrow> int \<Rightarrow> bool" where
  "fresh_at now generated expires max_age max_future =
     (case now of None \<Rightarrow> False
      | Some t \<Rightarrow> of_int (- max_future) \<le> elapsed_seconds t generated \<and> elapsed_seconds t generated \<le> of_int max_age
          \<and> generated < expires \<and> t < expires)"

lemma time_window_InrD:
  "time_window v1 l1 v2 l2 now age future a b c = Inr w \<Longrightarrow> fresh_at now (fst w) (snd w) age future"
  by (cases now) (auto simp: time_window_def fresh_at_def Let_def elim!: bindE_InrE guardE_InrE)

lemma signature_bytes_InrD: "signature_bytes alg label v = Inr sig \<Longrightarrow> length sig = 64"
  by (cases v)
    (auto simp: signature_bytes_def require_exact_keys_def elim!: guardE_InrE bindE_InrE split: json.splits)

lemma digest_InrD: "digest_value v l = Inr s \<Longrightarrow> v = JStr s \<and> digest_text s"
  by (cases v) (auto simp: digest_value_def split: if_splits)

lemma opt_digest_InrD: "opt_digest v l = Inr s \<Longrightarrow> case s of None \<Rightarrow> v = JNull | Some t \<Rightarrow> v = JStr t \<and> digest_text t"
  by (auto simp: opt_digest_def dest!: digest_InrD elim!: bindE_InrE split: if_splits)

lemma report_header_InrD:
  "report_header policy d network netuid = Inr epoch \<Longrightarrow> jget d ''network'' = JStr network \<and> jget d ''netuid'' = JInt netuid
     \<and> jget d ''class_id'' = JStr (ep_class_id policy) \<and> jget d ''source_id'' = JStr (ep_source_id policy)
     \<and> jget d ''complete'' = JBool True \<and> jget d ''source_epoch'' = JInt epoch \<and> 0 \<le> epoch"
  by (cases "jget d ''source_epoch''") (auto simp: report_header_def nat_field_def int_field_def elim!: guardE_InrE)

lemma report_proof_InrD:
  assumes "report_proof env policy d = Inr (pd, vd, previous, rid, kid)"
  shows "rid = report_id_for d \<and> jget d ''report_id'' = JStr rid \<and> jget d ''signing_key_id'' = JStr kid \<and>
     (\<exists>key sig. map_of (ep_keys policy) kid = Some key \<and> length sig = 64 \<and> or_ed env key sig (report_message d))"
  using assms unfolding report_proof_def
proof (elim bindE_InrE guardE_InrE)
  fix p v q r k
  assume k: "key_id_value (jget d ''signing_key_id'') = Inr k" and r: "digest_value (jget d ''report_id'') ''report id'' = Inr r"
    and rid: "\<not> r \<noteq> report_id_for d"
    and rest: "(case map_of (ep_keys policy) k of None \<Rightarrow> raise ''score report signing key is not locally trusted''
      | Some key \<Rightarrow> bindE (signature_bytes ''ed25519'' ''score report'' (jget d ''signature'')) (\<lambda>sig.
          guardE (\<not> or_ed env key sig (report_message d)) ''score report signature verification failed''
            (Inr (p, v, q, r, k)))) = Inr (pd, vd, previous, rid, kid)"
  from rest obtain key where key: "map_of (ep_keys policy) k = Some key" by (auto split: option.splits)
  have kv: "jget d ''signing_key_id'' = JStr k"
    using k by (cases "jget d ''signing_key_id''") (auto simp: key_id_value_def split: if_splits)
  from rest show ?thesis unfolding key option.case
    using kv rid key digest_InrD [OF r] by (auto elim!: bindE_InrE guardE_InrE dest: signature_bytes_InrD)
qed

definition entry_ok :: "score_entry \<Rightarrow> bool" where
  "entry_ok e =
     ((\<forall>m \<in> set (se_metrics e). identifier_text (fst m) \<and> 0 \<le> dec_val (snd m))
      \<and> length (se_metrics e) \<le> MAX_METRICS_PER_ENTRY
      \<and> (case se_asserted e of None \<Rightarrow> True | Some x \<Rightarrow> 0 \<le> dec_val x)
      \<and> se_reasons e \<noteq> [] \<and> list_all identifier_text (se_reasons e)
      \<and> length (se_evidence e) \<le> MAX_EVIDENCE_PER_ENTRY
      \<and> distinct (map (\<lambda>v. (ev_kind v, ev_id v)) (se_evidence e))
      \<and> (\<forall>v \<in> set (se_evidence e). digest_text (ev_id v) \<and> digest_text (ev_digest v)))"

lemma parse_evidence_InrD:
  assumes "parse_evidence ip seen item = Inr seen'"
  shows "\<exists>e. seen' = seen @ [e] \<and> digest_text (ev_id e) \<and> digest_text (ev_digest e)
    \<and> (ev_kind e, ev_id e) \<notin> (\<lambda>v. (ev_kind v, ev_id v)) ` set seen"
proof -
  obtain d where item: "item = JObj d" using assms by (cases item) (auto simp: parse_evidence_def)
  from assms show ?thesis unfolding parse_evidence_def item json.case
  proof (elim require_exact_keys_InrE guardE_InrE bindE_InrE)
    fix kind eid dig uri
    assume i: "digest_value (jget d ''id'') ''evidence id'' = Inr eid"
      and g: "digest_value (jget d ''digest'') ''evidence digest'' = Inr dig"
      and new: "\<not> (\<exists>e \<in> set seen. ev_kind e = kind \<and> ev_id e = eid)"
      and out: "Inr (seen @ [\<lparr>ev_kind = kind, ev_id = eid, ev_digest = dig, ev_uri = uri\<rparr>]) = (Inr seen' :: evidence_ref list res)"
    show ?thesis
      by (rule exI [of _ "\<lparr>ev_kind = kind, ev_id = eid, ev_digest = dig, ev_uri = uri\<rparr>"])
        (use out new digest_InrD [OF i] digest_InrD [OF g] in auto)
  qed
qed

lemma fold_evidence:
  assumes "foldE (parse_evidence ip) seen es = Inr out"
    and "distinct (map (\<lambda>v. (ev_kind v, ev_id v)) seen)"
    and "\<forall>v \<in> set seen. digest_text (ev_id v) \<and> digest_text (ev_digest v)"
  shows "length out = length seen + length es \<and> distinct (map (\<lambda>v. (ev_kind v, ev_id v)) out)
    \<and> (\<forall>v \<in> set out. digest_text (ev_id v) \<and> digest_text (ev_digest v))"
  using assms
proof (induction es arbitrary: seen)
  case (Cons x es)
  then obtain s1 where s1: "parse_evidence ip seen x = Inr s1" "foldE (parse_evidence ip) s1 es = Inr out"
    by (auto elim!: bindE_InrE)
  obtain e where "s1 = seen @ [e]" "digest_text (ev_id e)" "digest_text (ev_digest e)"
      "(ev_kind e, ev_id e) \<notin> (\<lambda>v. (ev_kind v, ev_id v)) ` set seen"
    using parse_evidence_InrD [OF s1(1)] by auto
  then have "distinct (map (\<lambda>v. (ev_kind v, ev_id v)) s1)" "\<forall>v \<in> set s1. digest_text (ev_id v) \<and> digest_text (ev_digest v)"
      "length s1 = Suc (length seen)"
    using Cons.prems(2,3) by (simp_all add: image_iff)
  then show ?case using Cons.IH [OF s1(2)] by simp
qed simp

lemma parse_metrics_InrD:
  assumes "parse_metrics v = Inr ms"
  shows "length ms \<le> MAX_METRICS_PER_ENTRY \<and> (\<forall>m \<in> set ms. identifier_text (fst m) \<and> 0 \<le> dec_val (snd m))"
proof -
  obtain kvs where v: "v = JObj kvs" using assms by (cases v) (auto simp: parse_metrics_def)
  let ?f = "\<lambda>(name, raw). bindE (identifier_value (JStr name) ''metric name'') (\<lambda>n.
            bindE (decimal_value raw (''metric '' @ name) True) (\<lambda>x. Inr (n, x)))"
  have m: "mapE ?f kvs = Inr ms" "length kvs \<le> MAX_METRICS_PER_ENTRY"
    using assms unfolding parse_metrics_def v json.case by (auto elim!: guardE_InrE)
  have f: "identifier_text (fst m) \<and> 0 \<le> dec_val (snd m)" if "?f kv = Inr m" for kv m
  proof -
    obtain name raw where kv: "kv = (name, raw)" by (cases kv)
    from that show ?thesis unfolding kv prod.case
      by (elim bindE_InrE identifier_InrE) (use decimal_InrD in fastforce)
  qed
  have "identifier_text (fst m) \<and> 0 \<le> dec_val (snd m)" if "m \<in> set ms" for m
    using mapE_all [OF m(1) that] f by blast
  then show ?thesis using mapE_length [OF m(1)] m(2) by simp
qed

lemma parse_entry_ok:
  assumes "parse_entry ip v = Inr e"
  shows "entry_ok e"
proof -
  obtain d where v: "v = JObj d" using assms by (cases v) (auto simp: parse_entry_def)
  from assms show ?thesis unfolding parse_entry_def v json.case
  proof (elim require_exact_keys_InrE guardE_InrE bindE_InrE)
    fix ms asserted
    assume ms: "parse_metrics (jget d ''metrics'') = Inr ms"
      and asserted: "(if jget d ''asserted_score'' = JNull then Inr None
        else bindE (decimal_value (jget d ''asserted_score'') ''asserted score'' True) (\<lambda>x. Inr (Some x))) = Inr asserted"
      and rest: "(case sorted_unique_texts identifier_text 1 32 (jget d ''reason_codes'') of
             None \<Rightarrow> raise ''reason_codes must be a sorted unique non-empty list''
           | Some reasons \<Rightarrow>
               (case jget d ''evidence'' of
                  JArr es \<Rightarrow>
                    guardE (length es > MAX_EVIDENCE_PER_ENTRY) ''evidence must be a bounded list''
                    (bindE (foldE (parse_evidence ip) [] es) (\<lambda>evidence.
                      Inr \<lparr>se_hotkey = py_str (jget d ''miner_hotkey''), se_metrics = ms,
                        se_asserted = asserted, se_reasons = reasons, se_evidence = evidence\<rparr>))
                | _ \<Rightarrow> raise ''evidence must be a bounded list'')) = Inr e"
    obtain rs where rs: "sorted_unique_texts identifier_text 1 32 (jget d ''reason_codes'') = Some rs"
      using rest by (auto split: option.splits)
    obtain es where es: "jget d ''evidence'' = JArr es" using rest unfolding rs option.case by (auto split: json.splits)
    from rest [unfolded rs es option.case json.case] obtain evs where
      evs: "foldE (parse_evidence ip) [] es = Inr evs" "length es \<le> MAX_EVIDENCE_PER_ENTRY"
      and e: "e = \<lparr>se_hotkey = py_str (jget d ''miner_hotkey''), se_metrics = ms,
          se_asserted = asserted, se_reasons = rs, se_evidence = evs\<rparr>"
      by (auto elim!: guardE_InrE bindE_InrE)
    have "case asserted of None \<Rightarrow> True | Some x \<Rightarrow> 0 \<le> dec_val x"
      using asserted by (auto split: if_splits elim!: bindE_InrE dest: decimal_InrD)
    then show ?thesis
      using fold_evidence [OF evs(1)] evs(2) parse_metrics_InrD [OF ms] sorted_unique_SomeD [OF rs]
      by (auto simp: entry_ok_def e)
  qed
qed

lemma report_entries_InrD:
  assumes "report_entries ip v = Inr es"
  shows "sorted (map se_hotkey es) \<and> distinct (map se_hotkey es) \<and> length es \<le> MAX_REPORT_ENTRIES
    \<and> (\<forall>e \<in> set es. entry_ok e)"
proof -
  obtain xs where v: "v = JArr xs" using assms by (cases v) (auto simp: report_entries_def)
  have m: "mapE (parse_entry ip) xs = Inr es" "map se_hotkey es = sorted_list_of_set (set (map se_hotkey es))"
      "length xs \<le> MAX_REPORT_ENTRIES"
    using assms unfolding report_entries_def v json.case Let_def by (auto elim!: guardE_InrE bindE_InrE)
  have "sorted (map se_hotkey es) \<and> distinct (map se_hotkey es)"
    by (subst (1 2) m(2)) simp
  then show ?thesis using m mapE_length [OF m(1)] mapE_all [OF m(1)] parse_entry_ok by metis
qed

text \<open>The contract of an accepted report.\<close>

definition report_ok ::
    "world \<Rightarrow> bytes \<Rightarrow> external_policy \<Rightarrow> string \<Rightarrow> int \<Rightarrow> int \<Rightarrow> int option \<Rightarrow> verified_report \<Rightarrow> bool" where
  "report_ok env raw policy network netuid block now r =
     (let d = vr_document r in
      raw = canonical_json d \<and> strict_ok (JObj d) \<and> keys_are d report_keys
      \<and> jget d ''network'' = JStr network \<and> jget d ''netuid'' = JInt netuid
      \<and> jget d ''class_id'' = JStr (ep_class_id policy) \<and> jget d ''source_id'' = JStr (ep_source_id policy)
      \<and> jget d ''complete'' = JBool True \<and> jget d ''source_epoch'' = JInt (vr_epoch r) \<and> 0 \<le> vr_epoch r
      \<and> vr_report_id r = report_id_for d \<and> jget d ''report_id'' = JStr (vr_report_id r)
      \<and> (\<exists>key sig. map_of (ep_keys policy) (vr_key_id r) = Some key \<and> length sig = 64
           \<and> or_ed env key sig (report_message d))
      \<and> vr_first r \<le> block \<and> block < vr_last r \<and> vr_last r - vr_first r \<le> ep_max_span policy
      \<and> fresh_at now (vr_generated r) (vr_until r) (ep_max_age policy) (ep_max_future policy)
      \<and> sorted (map se_hotkey (vr_entries r)) \<and> distinct (map se_hotkey (vr_entries r))
      \<and> (\<forall>e \<in> set (vr_entries r). entry_ok e))"

lemma verify_report_ok:
  assumes "verify_report env raw policy network netuid block now = Inr r"
  shows "report_ok env raw policy network netuid block now r"
  using assms unfolding verify_report_def
proof (elim guardE_InrE bindE_InrE require_exact_keys_InrE)
  fix d epoch bw rest0
  assume d: "parse_strict_json raw MAX_REPORT_BYTES = Inr d" "\<not> raw \<noteq> canonical_json d" "keys_are d report_keys"
    and h: "report_header policy d network netuid = Inr epoch"
    and bw: "block_window (\<lambda>n. ''invalid '' @ n) ''score report is outside its authorized block window''
           ''score report block window is invalid or too wide'' d block (ep_max_span policy) = Inr bw"
    and rest: "(case bw of (first, final) \<Rightarrow>
       bindE (time_window (jget d ''generated_at'') ''generated_at'' (jget d ''valid_until'') ''valid_until''
           now (ep_max_age policy) (ep_max_future policy) ''verification time must be UTC''
           ''score report generation time is stale or future-dated''
           ''score report validity window has expired'') (\<lambda>(generated, until).
       bindE (report_proof env policy d) (\<lambda>(pd, vd, previous, rid, kid).
       bindE (report_entries (or_ip env) (jget d ''entries'')) (\<lambda>entries.
         Inr \<lparr>vr_class_id = ep_class_id policy, vr_source_id = ep_source_id policy, vr_epoch = epoch,
           vr_report_id = rid, vr_previous = previous, vr_generated = generated, vr_until = until,
           vr_first = first, vr_last = final, vr_policy_digest = pd, vr_verifier_digest = vd,
           vr_key_id = kid, vr_entries = entries, vr_document = d\<rparr>)))) = Inr r"
  obtain first final where b: "bw = (first, final)" by (cases bw)
  from rest [unfolded b prod.case] show ?thesis
  proof (elim bindE_InrE)
    fix tw pf entries
    assume tw: "time_window (jget d ''generated_at'') ''generated_at'' (jget d ''valid_until'') ''valid_until''
           now (ep_max_age policy) (ep_max_future policy) ''verification time must be UTC''
           ''score report generation time is stale or future-dated''
           ''score report validity window has expired'' = Inr tw"
      and r1: "(case tw of (generated, until) \<Rightarrow> bindE (report_proof env policy d) (\<lambda>(pd, vd, previous, rid, kid).
       bindE (report_entries (or_ip env) (jget d ''entries'')) (\<lambda>entries.
         Inr \<lparr>vr_class_id = ep_class_id policy, vr_source_id = ep_source_id policy, vr_epoch = epoch,
           vr_report_id = rid, vr_previous = previous, vr_generated = generated, vr_until = until,
           vr_first = first, vr_last = final, vr_policy_digest = pd, vr_verifier_digest = vd,
           vr_key_id = kid, vr_entries = entries, vr_document = d\<rparr>))) = Inr r"
    obtain g u where t: "tw = (g, u)" by (cases tw)
    from r1 [unfolded t prod.case] obtain pd vd previous rid kid entries where
      p: "report_proof env policy d = Inr (pd, vd, previous, rid, kid)"
      and e: "report_entries (or_ip env) (jget d ''entries'') = Inr entries"
      and r: "r = \<lparr>vr_class_id = ep_class_id policy, vr_source_id = ep_source_id policy, vr_epoch = epoch,
           vr_report_id = rid, vr_previous = previous, vr_generated = g, vr_until = u,
           vr_first = first, vr_last = final, vr_policy_digest = pd, vr_verifier_digest = vd,
           vr_key_id = kid, vr_entries = entries, vr_document = d\<rparr>"
      by (auto elim!: bindE_InrE)
    show ?thesis
      using d parse_strict_sound [OF d(1)] report_header_InrD [OF h] block_window_InrD [OF bw [unfolded b]]
        time_window_InrD [OF tw [unfolded t]] report_proof_InrD [OF p] report_entries_InrD [OF e]
      unfolding report_ok_def Let_def r by simp
  qed
qed


section \<open>Canonical form and the signed bodies\<close>

definition canonical_dict :: "jdict \<Rightarrow> jdict" where
  "canonical_dict d = map (\<lambda>(k, v). (k, jsort v)) (sort_items d)"

lemma canonical_json_dict: "canonical_json (canonical_dict d) = canonical_json d"
  unfolding canonical_dict_def by (rule canonical_json_sorted)

lemma keys_canonical_dict [simp]: "fst ` set (canonical_dict d) = fst ` set d"
  by (force simp: canonical_dict_def)

lemma sort_items_filter: "sort_items (filter p d) = filter p (sort_items d)"
  by (simp add: sort_items_def filter_sort)

lemma canonical_without: "canonical_dict (without ks d) = without ks (canonical_dict d)"
proof -
  have "sort_items (without ks d) = filter (\<lambda>(k, v). k \<notin> set ks) (sort_items d)"
    unfolding without_def by (rule sort_items_filter)
  then show ?thesis unfolding canonical_dict_def without_def
    by (simp add: filter_map comp_def case_prod_unfold)
qed

lemma without_dict_set: "k \<in> set ks \<Longrightarrow> without ks (dict_set k v d) = without ks d"
  by (induction k v d rule: dict_set.induct) (auto simp: without_def)

lemma without_other: "fst ` set d \<inter> set ks = {} \<Longrightarrow> without ks d = d"
  unfolding without_def by (rule filter_True) (auto simp: disjoint_iff image_iff Ball_def)

lemma strict_dict_set: "strict_ok (JObj d) \<Longrightarrow> strict_ok v \<Longrightarrow> strict_ok (JObj (dict_set k v d))"
proof -
  have "set (dict_set k v d) \<subseteq> insert (k, v) (set d)"
    by (induction k v d rule: dict_set.induct) auto
  moreover assume "strict_ok (JObj d)" "strict_ok v"
  ultimately show ?thesis by (auto simp del: set_map)
qed

lemma jget_canonical:
  assumes "distinct (map fst d)"
  shows "jget (canonical_dict d) k = jsort (jget d k)"
proof -
  have "map_of (sort_items d) = map_of d"
    using assms by (intro map_of_inject_set [THEN iffD2]) simp_all
  moreover have "map_of (map (\<lambda>(k, v). (k, jsort v)) xs) k = map_option jsort (map_of xs k)" for xs :: jdict
    by (induction xs) auto
  ultimately show ?thesis by (simp add: jget_def canonical_dict_def split: option.splits)
qed

lemma jget_dict_set: "jget (dict_set k v d) k' = (if k' = k then v else jget d k')"
  by (simp add: jget_def)

lemma jsort_atom [simp]:
  "jsort v = JStr s \<longleftrightarrow> v = JStr s" "jsort v = JInt n \<longleftrightarrow> v = JInt n" "jsort v = JBool b \<longleftrightarrow> v = JBool b"
  "jsort v = JNull \<longleftrightarrow> v = JNull"
  by (cases v; simp)+

lemma jsort_views [simp]:
  "text_between (jsort v) lo hi = text_between v lo hi" "nat_field (jsort v) = nat_field v"
  "int_field (jsort v) = int_field v" "parse_time (jsort v) l = parse_time v l"
  "digest_value (jsort v) l = digest_value v l" "opt_digest (jsort v) l = opt_digest v l"
  "key_id_value (jsort v) = key_id_value v"
  by (cases v; simp add: text_between_def nat_field_def int_field_def parse_time_def digest_value_def
    opt_digest_def key_id_value_def)+

lemma digest_text_sha: "digest_text (''sha256:'' @ sha256_hex m)"
proof -
  have "list_all (\<lambda>x. is_digit x \<or> (97 \<le> code x \<and> code x \<le> 102)) ''0123456789abcdef''" by code_simp
  then have "list_all (\<lambda>x. is_digit x \<or> (97 \<le> code x \<and> code x \<le> 102)) (sha256_hex m)"
    unfolding list_all_iff sha256_hex_def using hex_of_chars by blast
  then have "hex64 (sha256_hex m)" by (simp add: hex64_def)
  moreover have "removeprefix (''sha256:'' @ sha256_hex m) ''sha256:'' = sha256_hex m"
    using starts_with_append [of "''sha256:''" "sha256_hex m"] by (simp add: removeprefix_def)
  ultimately show ?thesis using starts_with_append [of "''sha256:''" "sha256_hex m"] by (simp add: digest_text_def)
qed

lemma parse_canonical_dict:
  "strict_ok (JObj d) \<Longrightarrow> int (length (canonical_json d)) \<le> mx \<Longrightarrow>
     parse_strict_json (canonical_json d) mx = Inr (canonical_dict d)"
  by (simp add: parse_canonical canonical_dict_def)

lemma signature_bytes_object:
  assumes "length sig = 64"
  shows "signature_bytes alg label (jsort (signature_object alg sig)) = Inr sig"
proof -
  have s: "jsort (signature_object alg sig) = signature_object alg sig"
    by (simp add: signature_object_def sort_items_def)
  have k: "keys_are [(''algorithm'', JStr alg), (''value_base64'', JStr (b64encode sig))] signature_keys"
    by (auto simp: keys_are_def signature_keys_def)
  show ?thesis unfolding s
    by (simp add: signature_object_def signature_bytes_def require_exact_keys_def k jget_def b64decode_or_def
      b64decode_encode assms)
qed


lemma bodies_canonical:
  "report_id_for (canonical_dict d) = report_id_for d" "report_message (canonical_dict d) = report_message d"
  by (simp_all add: report_id_for_def report_message_def unsigned_report_body_def signed_report_body_def
    canonical_json_dict flip: canonical_without)

lemma bodies_signed:
  "report_id_for (dict_set ''signature'' v d) = report_id_for d"
  "report_id_for (dict_set ''report_id'' v d) = report_id_for d"
  "report_message (dict_set ''signature'' v d) = report_message d"
  by (simp_all add: report_id_for_def report_message_def unsigned_report_body_def signed_report_body_def
    without_dict_set)

text \<open>What a source must get right before it signs.\<close>

definition signable ::
    "world \<Rightarrow> external_policy \<Rightarrow> string \<Rightarrow> int \<Rightarrow> int \<Rightarrow> int option \<Rightarrow> jdict \<Rightarrow> score_entry list \<Rightarrow> bool" where
  "signable env policy network netuid block now d entries =
     (strict_ok (JObj d) \<and> fst ` set d = set report_keys - {''report_id'', ''signature''}
      \<and> 0 \<le> netuid \<and> 0 \<le> block
      \<and> jget d ''schema'' = JStr ''cathedral_score_class_report_v1'' \<and> jget d ''complete'' = JBool True
      \<and> jget d ''network'' = JStr network \<and> text_between (JStr network) 1 128 \<and> jget d ''netuid'' = JInt netuid
      \<and> jget d ''class_id'' = JStr (ep_class_id policy) \<and> jget d ''source_id'' = JStr (ep_source_id policy)
      \<and> nat_field (jget d ''source_epoch'')
      \<and> nat_field (jget d ''valid_from_block'') \<and> nat_field (jget d ''valid_until_block'')
      \<and> int_field (jget d ''valid_from_block'') \<le> block \<and> block < int_field (jget d ''valid_until_block'')
      \<and> int_field (jget d ''valid_until_block'') - int_field (jget d ''valid_from_block'') \<le> ep_max_span policy
      \<and> (\<exists>g u. parse_time (jget d ''generated_at'') ''generated_at'' = Inr g
           \<and> parse_time (jget d ''valid_until'') ''valid_until'' = Inr u
           \<and> fresh_at now g u (ep_max_age policy) (ep_max_future policy))
      \<and> (\<exists>s. jget d ''policy_digest'' = JStr s \<and> digest_text s)
      \<and> (\<exists>s. jget d ''verifier_digest'' = JStr s \<and> digest_text s)
      \<and> (jget d ''previous_report_id'' = JNull \<or> (\<exists>s. jget d ''previous_report_id'' = JStr s \<and> digest_text s))
      \<and> (\<exists>s. jget d ''signing_key_id'' = JStr s \<and> key_id_text s \<and> map_of (ep_keys policy) s \<noteq> None)
      \<and> report_entries (or_ip env) (jsort (jget d ''entries'')) = Inr entries)"

lemma block_window_Inr:
  "nat_field (jget d ''valid_from_block'') \<Longrightarrow> nat_field (jget d ''valid_until_block'') \<Longrightarrow>
     int_field (jget d ''valid_from_block'') \<le> block \<Longrightarrow> block < int_field (jget d ''valid_until_block'') \<Longrightarrow>
     int_field (jget d ''valid_until_block'') - int_field (jget d ''valid_from_block'') \<le> mx \<Longrightarrow>
     block_window bad outside wide d block mx
       = Inr (int_field (jget d ''valid_from_block''), int_field (jget d ''valid_until_block''))"
  by (simp add: block_window_def Let_def)

lemma time_window_Inr:
  "parse_time v1 l1 = Inr g \<Longrightarrow> parse_time v2 l2 = Inr u \<Longrightarrow> fresh_at now g u age future \<Longrightarrow>
     time_window v1 l1 v2 l2 now age future a b c = Inr (g, u)"
  by (cases now) (auto simp: time_window_def fresh_at_def Let_def guardE_def)

lemma report_proof_Inr:
  assumes "jget d ''policy_digest'' = JStr pd" "digest_text pd" "jget d ''verifier_digest'' = JStr vd" "digest_text vd"
    and "jget d ''previous_report_id'' = JNull \<or> (\<exists>s. jget d ''previous_report_id'' = JStr s \<and> digest_text s)"
    and "jget d ''report_id'' = JStr (report_id_for d)" "jget d ''signing_key_id'' = JStr kid" "key_id_text kid"
    and "map_of (ep_keys policy) kid = Some key"
    and "jget d ''signature'' = jsort (signature_object ''ed25519'' sig)" "length sig = 64"
    and "or_ed env key sig (report_message d)"
  shows "\<exists>previous. report_proof env policy d = Inr (pd, vd, previous, report_id_for d, kid)"
proof -
  obtain previous where p: "opt_digest (jget d ''previous_report_id'') ''previous report id'' = Inr previous"
    using assms(5) by (auto simp: opt_digest_def digest_value_def)
  have "digest_text (report_id_for d)" unfolding report_id_for_def prefixed_digest_def by (rule digest_text_sha)
  then show ?thesis
    by (intro exI [of _ previous])
      (simp add: report_proof_def assms p digest_value_def key_id_value_def signature_bytes_object)
qed

lemma sign_report_verifies:
  assumes ok: "signable env policy network netuid block now d entries"
    and raw: "sign_report sign d = Inr raw" "int (length raw) \<le> MAX_REPORT_BYTES"
    and pinned: "jget d ''signing_key_id'' = JStr kid" "map_of (ep_keys policy) kid = Some key"
    and law: "\<And>m. or_ed env key (sign m) m" "\<And>m. length (sign m) = 64"
  shows "\<exists>r. verify_report env raw policy network netuid block now = Inr r \<and> vr_entries r = entries
    \<and> vr_report_id r = report_id_for d \<and> JInt (vr_epoch r) = jget d ''source_epoch''"
proof -
  define d1 where "d1 = dict_set ''report_id'' (JStr (report_id_for d)) d"
  define sig where "sig = sign (report_message d1)"
  define d2 where "d2 = dict_set ''signature'' (signature_object ''ed25519'' sig) d1"
  define c where "c = canonical_dict d2"
  have raw': "raw = canonical_json d2"
    using raw(1) by (auto simp: sign_report_def Let_def d2_def d1_def sig_def elim!: guardE_InrE)
  have strict: "strict_ok (JObj d2)" unfolding d2_def d1_def
    by (intro strict_dict_set) (use ok in \<open>simp_all add: signable_def signature_object_def\<close>)
  have parse: "parse_strict_json raw MAX_REPORT_BYTES = Inr c"
    unfolding raw' c_def by (rule parse_canonical_dict [OF strict raw(2) [unfolded raw']])
  have canon: "raw = canonical_json c" by (simp add: raw' c_def canonical_json_dict)
  have keys: "keys_are c report_keys"
    using ok by (auto simp: keys_are_def c_def d2_def d1_def signable_def report_keys_def)
  have dist: "distinct (map fst d2)" using strict by simp
  have getc: "jget c k = jsort (jget d2 k)" for k unfolding c_def by (rule jget_canonical [OF dist])
  have get: "jget c k = jsort (jget d k)" if "k \<notin> {''report_id'', ''signature''}" for k
    using that by (simp add: getc d2_def d1_def jget_dict_set)
  have rid: "report_id_for c = report_id_for d" by (simp add: c_def d2_def d1_def bodies_canonical bodies_signed)
  have getid: "jget c ''report_id'' = JStr (report_id_for c)"
    by (simp add: rid getc d2_def d1_def jget_dict_set)
  have getsig: "jget c ''signature'' = jsort (signature_object ''ed25519'' sig)"
    by (simp add: getc d2_def jget_dict_set)
  have msg: "report_message c = report_message d1" by (simp add: c_def d2_def bodies_canonical bodies_signed)
  obtain epoch where epoch: "jget d ''source_epoch'' = JInt epoch" "0 \<le> epoch"
    using ok by (cases "jget d ''source_epoch''") (auto simp: signable_def nat_field_def)
  have header: "report_header policy c network netuid = Inr epoch"
    using ok epoch by (simp add: report_header_def get signable_def nat_field_def int_field_def)
  have bw: "\<exists>w. block_window bad outside wide c block (ep_max_span policy) = Inr w" for bad outside wide
    by (rule exI, rule block_window_Inr) (use ok in \<open>simp_all add: get signable_def\<close>)
  obtain g u where times: "parse_time (jget c ''generated_at'') ''generated_at'' = Inr g"
      "parse_time (jget c ''valid_until'') ''valid_until'' = Inr u"
      "fresh_at now g u (ep_max_age policy) (ep_max_future policy)"
    using ok by (auto simp: get signable_def)
  note tw = time_window_Inr [OF times]
  obtain pd vd where k: "jget c ''policy_digest'' = JStr pd" "digest_text pd" "jget c ''verifier_digest'' = JStr vd"
      "digest_text vd" "jget c ''signing_key_id'' = JStr kid" "key_id_text kid" "map_of (ep_keys policy) kid = Some key"
    using ok pinned by (auto simp: get signable_def)
  have prev: "jget c ''previous_report_id'' = JNull \<or> (\<exists>s. jget c ''previous_report_id'' = JStr s \<and> digest_text s)"
    using ok by (auto simp: get signable_def)
  have "or_ed env key sig (report_message c)" unfolding msg sig_def by (rule law(1))
  from report_proof_Inr [OF k(1-4) prev getid k(5-7) getsig _ this] law(2)
  obtain previous where pf: "report_proof env policy c = Inr (pd, vd, previous, report_id_for c, kid)"
    by (auto simp: sig_def)
  have ents: "report_entries (or_ip env) (jget c ''entries'') = Inr entries" using ok by (simp add: get signable_def)
  obtain w where w: "block_window (\<lambda>n. ''invalid '' @ n) ''score report is outside its authorized block window''
           ''score report block window is invalid or too wide'' c block (ep_max_span policy) = Inr w" using bw by blast
  have nn: "\<not> (netuid < 0 \<or> block < 0)" using ok by (simp add: signable_def)
  show ?thesis unfolding verify_report_def
    by (cases w) (simp add: nn parse require_exact_keys_def keys header w tw pf ents epoch rid flip: canon)
qed


section \<open>One report per id\<close>

lemma canonical_fixed:
  assumes "parse_strict_json raw mx = Inr d" "raw = canonical_json d"
  shows "canonical_dict d = d"
proof -
  have "strict_ok (JObj d)" by (rule parse_strict_sound [OF assms(1)])
  moreover have "int (length (canonical_json d)) \<le> mx"
    using assms by (auto simp: parse_strict_json_def elim!: guardE_InrE)
  ultimately have "parse_strict_json raw mx = Inr (canonical_dict d)"
    unfolding assms(2) by (rule parse_canonical_dict)
  then show ?thesis using assms(1) by simp
qed

lemma jsort_dict: "jsort (JObj d) = JObj (canonical_dict d)"
  by (simp add: canonical_dict_def)

lemma strict_without: "strict_ok (JObj d) \<Longrightarrow> strict_ok (JObj (without ks d))"
  by (auto simp: without_def distinct_map_filter simp del: set_map)

lemma strict_ok_plain: "strict_ok v \<Longrightarrow> json_plain plain_hooks v"
proof (induction v rule: strict_ok.induct)
  case (1 n)
  then have "\<bar>n\<bar> \<le> 2 ^ 64" by (auto simp: int64_def)
  then show ?case by (intro plain_int int_fits_word)
qed fastforce+

lemma prefixed_digest_inj:
  assumes "prefixed_digest label a = prefixed_digest label b"
  shows "a = b \<or> sha_collision (map byte_of label @ [0] @ a) (map byte_of label @ [0] @ b)"
proof -
  have "sha256 (map byte_of label @ [0] @ a) = sha256 (map byte_of label @ [0] @ b)"
    using assms by (simp add: prefixed_digest_def sha256_hex_def hex_of_inj)
  then show ?thesis unfolding sha_collision_def by (metis append_same_eq same_append_eq)
qed

text \<open>The bytes a report id hashes.\<close>

definition report_id_message :: "jdict \<Rightarrow> bytes" where
  "report_id_message d = map byte_of ''cathedral-score-class-id-v1'' @ [0] @ canonical_json (unsigned_report_body d)"

lemma report_ids_bind:
  assumes "verify_report env raw policy network netuid block now = Inr r"
    and "verify_report env' raw' policy' network' netuid' block' now' = Inr r'"
    and "vr_report_id r = vr_report_id r'"
  shows "unsigned_report_body (vr_document r) = unsigned_report_body (vr_document r')
    \<or> sha_collision (report_id_message (vr_document r)) (report_id_message (vr_document r'))"
proof -
  let ?d = "vr_document r" and ?d' = "vr_document r'"
  have fixed: "canonical_dict (vr_document r) = vr_document r \<and> strict_ok (JObj (vr_document r))
      \<and> vr_report_id r = report_id_for (vr_document r)"
    if "verify_report env raw policy network netuid block now = Inr r" for env raw policy network netuid block now r
  proof -
    have "\<exists>d. parse_strict_json raw MAX_REPORT_BYTES = Inr d \<and> vr_document r = d"
      using that unfolding verify_report_def
      by (elim guardE_InrE bindE_InrE require_exact_keys_InrE) (auto split: prod.splits elim!: bindE_InrE)
    then show ?thesis using canonical_fixed verify_report_ok [OF that] unfolding report_ok_def Let_def by blast
  qed
  note f = fixed [OF assms(1)] and f' = fixed [OF assms(2)]
  let ?u = "unsigned_report_body ?d" and ?u' = "unsigned_report_body ?d'"
  have canon: "canonical_dict ?u = ?u" "canonical_dict ?u' = ?u'"
    using f f' by (simp_all add: unsigned_report_body_def canonical_without)
  have plain: "json_plain plain_hooks (JObj ?u)" "json_plain plain_hooks (JObj ?u')"
    unfolding unsigned_report_body_def using f f' by (blast intro: strict_ok_plain strict_without)+
  have "prefixed_digest ''cathedral-score-class-id-v1'' (canonical_json ?u)
      = prefixed_digest ''cathedral-score-class-id-v1'' (canonical_json ?u')"
    using f f' assms(3) by (simp only: report_id_for_def)
  from prefixed_digest_inj [OF this] show ?thesis
    using canonical_bytes_inj [OF plain] unfolding canonical_json_def jsort_dict canon report_id_message_def by auto
qed

section \<open>What an accepted registration satisfies\<close>

definition registration_ok ::
    "world \<Rightarrow> bytes \<Rightarrow> external_policy \<Rightarrow> string \<Rightarrow> int \<Rightarrow> int \<Rightarrow> string \<Rightarrow> (string \<times> string) list
       \<Rightarrow> int option \<Rightarrow> verified_registration \<Rightarrow> bool" where
  "registration_ok env raw policy network netuid block current_owner registered now g =
     (let d = rg_document g in
      raw = canonical_json d \<and> strict_ok (JObj d) \<and> rg_owner g = current_owner
      \<and> map_of registered (rg_delegate g) = Some (rg_owner g)
      \<and> (\<exists>op. ep_owner policy = Some op \<and> jget d ''source_netuid'' = JInt (op_source_netuid op)
           \<and> rg_last g - rg_first g \<le> op_max_span op
           \<and> fresh_at now (rg_issued g) (rg_expires g) (op_max_age op) (op_max_future op))
      \<and> jget d ''network'' = JStr network \<and> jget d ''target_netuid'' = JInt netuid
      \<and> jget d ''sequence'' = JInt (rg_sequence g) \<and> 0 \<le> rg_sequence g
      \<and> rg_source_id g = ep_source_id policy \<and> ep_class_id policy \<in> set (rg_class_ids g)
      \<and> rg_locations g = ep_locations policy
      \<and> 1 \<le> length (rg_keys g) \<and> length (rg_keys g) \<le> 8 \<and> (\<forall>kv \<in> set (rg_keys g). length (snd kv) = 32)
      \<and> rg_first g \<le> block \<and> block < rg_last g
      \<and> rg_id g = registration_id_for d
      \<and> (\<exists>sig. length sig = 64 \<and> or_sr env (rg_owner g) (registration_message d) sig = Some True))"

lemma registration_parties_InrD:
  assumes "registration_parties op d network netuid current_owner registered = Inr (owner, delegate)"
  shows "owner = current_owner \<and> map_of registered delegate = Some owner \<and> jget d ''network'' = JStr network
    \<and> jget d ''source_netuid'' = JInt (op_source_netuid op) \<and> jget d ''target_netuid'' = JInt netuid
    \<and> jget d ''sequence'' = JInt (int_field (jget d ''sequence'')) \<and> 0 \<le> int_field (jget d ''sequence'')"
proof -
  have seq: "jget d ''sequence'' = JInt (int_field (jget d ''sequence'')) \<and> 0 \<le> int_field (jget d ''sequence'')"
    if "nat_field (jget d ''sequence'')"
    using that by (cases "jget d ''sequence''") (auto simp: nat_field_def int_field_def)
  show ?thesis using assms unfolding registration_parties_def
    by (elim guardE_InrE) (auto split: json.splits elim!: guardE_InrE dest: seq)
qed

lemma registration_scope_InrD:
  assumes "registration_scope ip policy d = Inr (source_id, class_ids, locs, keys)"
  shows "source_id = ep_source_id policy \<and> ep_class_id policy \<in> set class_ids \<and> locs = ep_locations policy
    \<and> 1 \<le> length keys \<and> length keys \<le> 8 \<and> (\<forall>kv \<in> set keys. length (snd kv) = 32)"
  using assms unfolding registration_scope_def
proof (elim bindE_InrE guardE_InrE)
  fix sid
  assume sid: "\<not> sid \<noteq> ep_source_id policy"
    and rest: "(case sorted_unique_texts identifier_text 1 32 (jget d ''class_ids'') of
        None \<Rightarrow> raise ''owner registration class_ids must be sorted and unique''
      | Some class_ids \<Rightarrow>
          guardE (ep_class_id policy \<notin> set class_ids) ''owner registration does not delegate this class''
          (case jget d ''report_locations'' of
             JArr vs \<Rightarrow>
               guardE (\<not> (1 \<le> length vs \<and> length vs \<le> 8) \<or> length (strs_of vs) \<noteq> length vs
                   \<or> \<not> distinct (strs_of vs)) ''owner registration report locations are invalid''
               (bindE (mapE (delegated_report_location ip) vs) (\<lambda>locs.
                guardE (locs \<noteq> ep_locations policy)
                  ''owner registration report locations do not match validator policy''
                (bindE (trusted_keys (jget d ''report_keys'') ''owner registration must delegate 1..8 report keys'')
                  (\<lambda>keys. Inr (sid, class_ids, locs, keys)))))
           | _ \<Rightarrow> raise ''owner registration report locations are invalid'')) = Inr (source_id, class_ids, locs, keys)"
  obtain cs where cs: "sorted_unique_texts identifier_text 1 32 (jget d ''class_ids'') = Some cs"
    using rest by (auto split: option.splits)
  obtain vs where vs: "jget d ''report_locations'' = JArr vs"
    using rest unfolding cs option.case by (auto split: json.splits elim!: guardE_InrE)
  from rest [unfolded cs vs option.case json.case] sid show ?thesis
    by (auto elim!: guardE_InrE bindE_InrE dest: trusted_keys_ok)
qed

text \<open>What the document says of owner, delegate, source, classes and keys is what the result says.\<close>

lemma registration_parties_read:
  "registration_parties op d network netuid current_owner registered = Inr (owner, delegate) \<Longrightarrow>
     jget d ''owner_coldkey'' = JStr owner \<and> jget d ''delegate_hotkey'' = JStr delegate"
  unfolding registration_parties_def by (elim guardE_InrE) (auto split: json.splits elim!: guardE_InrE)

lemma sorted_unique_texts_read: "sorted_unique_texts pat lo hi v = Some xs \<Longrightarrow> v = JArr (map JStr xs)"
proof (cases v)
  case (JArr vs)
  have le: "length (strs_of vs) \<le> length vs" for vs
    by (induction vs) (auto simp: strs_of_def split: json.splits)
  have "length (strs_of vs) = length vs \<Longrightarrow> vs = map JStr (strs_of vs)" for vs
  proof (induction vs)
    case (Cons a vs)
    then show ?case using le [of vs] by (cases a) (simp_all add: strs_of_def)
  qed (simp add: strs_of_def)
  moreover assume "sorted_unique_texts pat lo hi v = Some xs"
  ultimately show ?thesis by (auto simp: JArr sorted_unique_texts_def Let_def split: if_split_asm)
qed (auto simp: sorted_unique_texts_def)

lemma trusted_keys_read:
  assumes "trusted_keys v m = Inr keys" "(kid, key) \<in> set keys"
  shows "\<exists>kvs w. v = JObj kvs \<and> (kid, w) \<in> set kvs \<and> decode_public_key w = Inr key"
proof -
  obtain kvs where v: "v = JObj kvs" "key_entries kvs = Inr keys"
    using assms(1) by (cases v) (auto simp: trusted_keys_def elim!: guardE_InrE)
  have "list_all2 (\<lambda>(k, w) y. bindE (key_id_value (JStr k)) (\<lambda>i. bindE (decode_public_key w) (\<lambda>raw. Inr (i, raw))) = Inr y) kvs keys"
    using mapE_list_all2 [OF v(2) [unfolded key_entries_def]] by (simp add: case_prod_unfold)
  then obtain k w where "(k, w) \<in> set kvs" "bindE (key_id_value (JStr k)) (\<lambda>i. bindE (decode_public_key w) (\<lambda>raw. Inr (i, raw))) = Inr (kid, key)"
    using assms(2) by (auto simp: list_all2_conv_all_nth in_set_conv_nth split: prod.splits) (metis surj_pair)
  then show ?thesis using v(1) by (auto simp: key_id_value_def elim!: bindE_InrE guardE_InrE split: if_split_asm)
qed

lemma registration_scope_read:
  assumes "registration_scope ip policy d = Inr (source_id, class_ids, locs, keys)"
  shows "jget d ''source_id'' = JStr source_id \<and> jget d ''class_ids'' = JArr (map JStr class_ids) \<and>
    (\<forall>kid key. (kid, key) \<in> set keys \<longrightarrow>
       (\<exists>kvs w. jget d ''report_keys'' = JObj kvs \<and> (kid, w) \<in> set kvs \<and> decode_public_key w = Inr key))"
proof -
  from assms obtain m where "identifier_value (jget d ''source_id'') ''registration source id'' = Inr source_id"
      "sorted_unique_texts identifier_text 1 32 (jget d ''class_ids'') = Some class_ids"
      "trusted_keys (jget d ''report_keys'') m = Inr keys"
    unfolding registration_scope_def
    by (elim bindE_InrE guardE_InrE) (auto split: option.splits json.splits elim!: guardE_InrE bindE_InrE)
  then show ?thesis using sorted_unique_texts_read trusted_keys_read
    by (auto simp: identifier_value_def split: json.splits if_split_asm elim!: guardE_InrE)
qed

text \<open>The delegation that a verified registration stands for, in terms of the document its owner signed.\<close>

definition delegates :: "jdict \<Rightarrow> verified_registration \<Rightarrow> bool" where
  "delegates d g =
     (jget d ''owner_coldkey'' = JStr (rg_owner g) \<and> jget d ''delegate_hotkey'' = JStr (rg_delegate g)
      \<and> jget d ''source_id'' = JStr (rg_source_id g) \<and> jget d ''class_ids'' = JArr (map JStr (rg_class_ids g))
      \<and> (\<forall>kid key. (kid, key) \<in> set (rg_keys g) \<longrightarrow>
           (\<exists>kvs w. jget d ''report_keys'' = JObj kvs \<and> (kid, w) \<in> set kvs \<and> decode_public_key w = Inr key)))"

lemma registration_proof_InrD:
  assumes "registration_proof env d owner = Inr (previous, rid)"
  shows "rid = registration_id_for d \<and>
    (\<exists>sig. length sig = 64 \<and> or_sr env owner (registration_message d) sig = Some True)"
  using assms unfolding registration_proof_def
  by (elim bindE_InrE guardE_InrE) (auto split: option.splits elim!: guardE_InrE dest: signature_bytes_InrD)

lemma check_registration_ok:
  assumes "check_registration env raw policy network netuid block current_owner registered now = Inr g"
  shows "registration_ok env raw policy network netuid block current_owner registered now g" "delegates (rg_document g) g"
proof -
  obtain op where op: "ep_owner policy = Some op" using assms by (cases "ep_owner policy") (auto simp: check_registration_def)
  from assms obtain d owner delegate source_id class_ids locs keys first final issued expires previous rid where
    d: "parse_strict_json raw MAX_REPORT_BYTES = Inr d" "raw = canonical_json d"
    and p: "registration_parties op d network netuid current_owner registered = Inr (owner, delegate)"
    and sc: "registration_scope (or_ip env) policy d = Inr (source_id, class_ids, locs, keys)"
    and bw: "block_window (\<lambda>n. ''owner registration '' @ n @ '' is invalid'')
               ''owner registration is outside its block window''
               ''owner registration block window is invalid or too wide'' d block (op_max_span op) = Inr (first, final)"
    and tw: "time_window (jget d ''issued_at'') ''registration issued_at'' (jget d ''expires_at'')
               ''registration expires_at'' now (op_max_age op) (op_max_future op)
               ''owner registration verification time must be UTC''
               ''owner registration is stale or future-dated'' ''owner registration has expired'' = Inr (issued, expires)"
    and pf: "registration_proof env d owner = Inr (previous, rid)"
    and g: "g = \<lparr>rg_source_netuid = int_field (jget d ''source_netuid''),
               rg_target_netuid = int_field (jget d ''target_netuid''), rg_owner = owner, rg_delegate = delegate,
               rg_source_id = source_id, rg_class_ids = class_ids, rg_locations = locs, rg_keys = keys,
               rg_sequence = int_field (jget d ''sequence''), rg_previous = previous, rg_id = rid,
               rg_issued = issued, rg_expires = expires, rg_first = first, rg_last = final,
               rg_document = d\<rparr>"
    unfolding check_registration_def op option.case
    by (auto elim!: guardE_InrE bindE_InrE require_exact_keys_InrE)
  show "delegates (rg_document g) g"
    using registration_parties_read [OF p] registration_scope_read [OF sc] by (simp add: delegates_def g)
  show "registration_ok env raw policy network netuid block current_owner registered now g"
    using d parse_strict_sound [OF d(1)] registration_parties_InrD [OF p] registration_scope_InrD [OF sc]
      block_window_InrD [OF bw] time_window_InrD [OF tw] registration_proof_InrD [OF pf] op
    unfolding registration_ok_def Let_def g by simp
qed

end
