(* ===== verification/Score_Delegation.thy ===== *)
theory Score_Delegation
  imports Score_Report
begin

text \<open>
  The properties of the signed artifacts of \<open>cathedral_thin/score_classes.py\<close>: the round trip of
  signing and verification, the contract of an accepted report, the binding of report ids, and
  the chain of authority from a subnet owner through a registration to a report.
\<close>

section \<open>Signing a registration\<close>

lemma registration_bodies_canonical:
  "registration_id_for (canonical_dict d) = registration_id_for d"
  "registration_message (canonical_dict d) = registration_message d"
  by (simp_all add: registration_id_for_def registration_message_def unsigned_registration_body_def
    signed_registration_body_def canonical_json_dict flip: canonical_without)

lemma registration_bodies_signed:
  "registration_id_for (dict_set ''signature'' v d) = registration_id_for d"
  "registration_id_for (dict_set ''registration_id'' v d) = registration_id_for d"
  "registration_message (dict_set ''signature'' v d) = registration_message d"
  by (simp_all add: registration_id_for_def registration_message_def unsigned_registration_body_def
    signed_registration_body_def without_dict_set)

lemma registration_proof_Inr:
  assumes "jget d ''previous_registration_id'' = JNull" "jget d ''registration_id'' = JStr (registration_id_for d)"
    and "jget d ''signature'' = jsort (signature_object ''sr25519'' sig)" "length sig = 64"
    and "or_sr env owner (registration_message d) sig = Some True"
  shows "registration_proof env d owner = Inr (None, registration_id_for d)"
proof -
  have "digest_text (registration_id_for d)"
    unfolding registration_id_for_def prefixed_digest_def by (rule digest_text_sha)
  then show ?thesis
    by (simp add: registration_proof_def assms digest_value_def opt_digest_def signature_bytes_object)
qed

lemma sign_registration_verifies:
  assumes raw: "sign_owner_registration sign d = Inr raw" "int (length raw) \<le> MAX_REPORT_BYTES"
    and d: "strict_ok (JObj d)" "fst ` set d = set registration_keys - {''registration_id'', ''signature''}"
    and op: "ep_owner policy = Some op" and prev: "jget d ''previous_registration_id'' = JNull"
    and p: "registration_parties op (canonical_dict d) network netuid current_owner registered = Inr (owner, delegate)"
    and sc: "registration_scope (or_ip env) policy (canonical_dict d) = Inr (source_id, class_ids, locs, keys)"
    and bw: "\<And>a b c. block_window a b c (canonical_dict d) block (op_max_span op) = Inr (first, final)"
    and tm: "parse_time (jget d ''issued_at'') ''registration issued_at'' = Inr i"
      "parse_time (jget d ''expires_at'') ''registration expires_at'' = Inr e" "fresh_at now i e (op_max_age op) (op_max_future op)"
    and law: "\<And>m sig. sign m = Some sig \<Longrightarrow> or_sr env owner m sig = Some True"
  shows "\<exists>g. check_registration env raw policy network netuid block current_owner registered now = Inr g
    \<and> rg_keys g = keys \<and> rg_source_id g = source_id \<and> rg_class_ids g = class_ids"
proof -
  define d1 where "d1 = dict_set ''registration_id'' (JStr (registration_id_for d)) d"
  obtain sig where sig: "sign (registration_message d1) = Some sig" "length sig = 64"
      "raw = canonical_json (dict_set ''signature'' (signature_object ''sr25519'' sig) d1)"
    using raw(1) by (auto simp: sign_owner_registration_def Let_def d1_def elim!: guardE_InrE split: option.splits)
  define d2 where "d2 = dict_set ''signature'' (signature_object ''sr25519'' sig) d1"
  define c where "c = canonical_dict d2"
  note raw' = sig(3) [folded d2_def]
  have strict: "strict_ok (JObj d2)" unfolding d2_def d1_def
    by (intro strict_dict_set) (use d in \<open>simp_all add: signature_object_def\<close>)
  have parse: "parse_strict_json raw MAX_REPORT_BYTES = Inr c"
    unfolding raw' c_def by (rule parse_canonical_dict [OF strict raw(2) [unfolded raw']])
  have canon: "raw = canonical_json c" by (simp add: raw' c_def canonical_json_dict)
  have keys: "keys_are c registration_keys"
    using d(2) by (auto simp: keys_are_def c_def d2_def d1_def registration_keys_def)
  have dist: "distinct (map fst d2)" "distinct (map fst d)" using strict d(1) by simp_all
  have getc: "jget c k = jsort (jget d2 k)" for k unfolding c_def by (rule jget_canonical [OF dist(1)])
  have get: "jget c k = jget (canonical_dict d) k" if "k \<notin> {''registration_id'', ''signature''}" for k
    using that by (simp add: getc d2_def d1_def jget_dict_set jget_canonical [OF dist(2)])
  have p': "registration_parties op c network netuid current_owner registered = Inr (owner, delegate)"
    using p unfolding registration_parties_def by (simp add: get)
  have sc': "registration_scope (or_ip env) policy c = Inr (source_id, class_ids, locs, keys)"
  proof -
    have gs: "jget c ''source_id'' = jget (canonical_dict d) ''source_id''"
        "jget c ''class_ids'' = jget (canonical_dict d) ''class_ids''"
        "jget c ''report_locations'' = jget (canonical_dict d) ''report_locations''"
        "jget c ''report_keys'' = jget (canonical_dict d) ''report_keys''"
      by (simp_all add: get)
    show ?thesis using sc unfolding registration_scope_def gs .
  qed
  have bw': "block_window (\<lambda>n. ''owner registration '' @ n @ '' is invalid'')
               ''owner registration is outside its block window''
               ''owner registration block window is invalid or too wide'' c block (op_max_span op) = Inr (first, final)"
  proof -
    have gs: "jget c ''valid_from_block'' = jget (canonical_dict d) ''valid_from_block''"
        "jget c ''valid_until_block'' = jget (canonical_dict d) ''valid_until_block''"
      by (simp_all add: get)
    show ?thesis unfolding block_window_def gs
      by (rule bw [unfolded block_window_def, of "\<lambda>n. ''owner registration '' @ n @ '' is invalid''"])
  qed
  have times: "parse_time (jget c ''issued_at'') ''registration issued_at'' = Inr i"
      "parse_time (jget c ''expires_at'') ''registration expires_at'' = Inr e"
    using tm(1,2) by (simp_all add: get jget_canonical [OF dist(2)])
  note tw = time_window_Inr [OF times tm(3)]
  have ids: "registration_id_for c = registration_id_for d" "registration_message c = registration_message d1"
    by (simp_all add: c_def d2_def d1_def registration_bodies_canonical registration_bodies_signed)
  have pf: "registration_proof env c owner = Inr (None, registration_id_for c)"
    by (rule registration_proof_Inr [where sig = sig])
      (use prev sig law [OF sig(1)] in \<open>simp_all add: get jget_canonical [OF dist(2)] getc ids d2_def d1_def jget_dict_set\<close>)
  have passed: "(raw \<noteq> canonical_json c) = False" "(\<not> keys_are c registration_keys) = False"
    using canon keys by simp_all
  show ?thesis
    unfolding check_registration_def op option.case parse bindE_Inr require_exact_keys_def passed guardE_simps
      p' sc' bw' tw pf prod.case by simp
qed

section \<open>Sizes of printed documents\<close>

definition item_size :: "string \<times> json \<Rightarrow> nat" where
  "item_size kv = Suc (length (dump_item kv))"

lemma join_length: "length (join_with '','' xs) \<le> (\<Sum>x \<leftarrow> xs. Suc (length x))"
  by (induction "'',''" xs rule: join_with.induct) auto

lemma sum_sort_items: "(\<Sum>x \<leftarrow> sort_items kvs. f x) = (\<Sum>x \<leftarrow> kvs. f x)" for f :: "_ \<Rightarrow> nat"
  by (simp add: sort_items_def flip: sum_mset_sum_list)

lemma canonical_json_length: "length (canonical_json kvs) \<le> 2 + (\<Sum>kv \<leftarrow> kvs. item_size kv)"
  using join_length [of "map dump_item (sort_items kvs)"] sum_sort_items [of item_size kvs]
  by (simp add: canonical_json_def canonical_bytes_def dumps_obj comp_def item_size_def [abs_def] del: dumps.simps)

lemma escape_length: "length (escape_char c) \<le> 6"
  by (auto simp: escape_char_def hex4_def split: option.splits)

lemma quote_length: "length (quote s) \<le> 6 * length s + 2"
proof -
  have "length (concat (map escape_char s)) \<le> 6 * length s"
    by (induction s) (use escape_length in \<open>auto intro: add_mono\<close>)
  then show ?thesis by (simp add: quote_def)
qed

lemma item_size_str: "item_size (k, JStr s) \<le> 6 * length k + 6 * length s + 6"
  using quote_length [of k] quote_length [of s] by (simp add: item_size_def dump_item_def)


section \<open>A concrete source\<close>

text \<open>The witnesses run the checks on a concrete owner, source and validator. The signature
  schemes are instantiated by a keyed hash: whoever knows the key can make the 64 bytes.\<close>

definition demo_sign :: "bytes \<Rightarrow> bytes" where
  "demo_sign m = hmac_sha256 (replicate 32 0) m @ hmac_sha256 (replicate 32 0) m"

definition demo_world :: world where
  "demo_world = \<lparr>or_ip = (\<lambda>_. False), or_ed = (\<lambda>key sig m. sig = hmac_sha256 key m @ hmac_sha256 key m),
     or_sr = (\<lambda>addr m sig. Some (addr = ''owner'' \<and> sig = demo_sign m)), or_http = (\<lambda>_. None),
     or_path = (\<lambda>_ p. p), or_file = (\<lambda>_. None)\<rparr>"

definition demo_assignment :: assignment_policy where
  "demo_assignment = \<lparr>ap_mode = ''metric'', ap_metric = Some ''score'', ap_transform = ''linear'', ap_cap = None,
     ap_reasons = [], ap_kinds = []\<rparr>"

definition demo_class :: "(string \<times> bytes) list \<Rightarrow> owner_policy option \<Rightarrow> external_policy" where
  "demo_class keys owner = \<lparr>ep_class_id = ''c'', ep_allocation = (1, 0), ep_source_id = ''s'',
     ep_locations = [''https://h/r''], ep_keys = keys, ep_max_age = 100, ep_max_future = 10, ep_max_span = 100,
     ep_require_evidence = False, ep_assignment = demo_assignment, ep_owner = owner\<rparr>"

definition demo_owner :: owner_policy where
  "demo_owner = \<lparr>op_source_netuid = 7, op_locations = [''https://h/o''], op_max_age = 100, op_max_future = 10,
     op_max_span = 100, op_require_target = True\<rparr>"

definition demo_keys :: "(string \<times> bytes) list" where
  "demo_keys = [(''k'', replicate 32 0)]"

definition demo_zeros :: string where
  "demo_zeros = ''sha256:'' @ replicate 64 CHR ''0''"

definition demo_entry :: json where
  "demo_entry = JObj [(''asserted_score'', JNull), (''evidence'', JArr []), (''metrics'', JObj [(''score'', JStr ''1'')]),
     (''miner_hotkey'', JStr ''m''), (''reason_codes'', JArr [JStr ''ok''])]"

definition demo_report :: jdict where
  "demo_report =
     [(''schema'', JStr ''cathedral_score_class_report_v1''), (''network'', JStr ''n''), (''netuid'', JInt 39),
      (''class_id'', JStr ''c''), (''source_id'', JStr ''s''), (''source_epoch'', JInt 3),
      (''generated_at'', JStr ''2026-01-01T00:00:00.000000Z''), (''valid_until'', JStr ''2026-01-02T00:00:00.000000Z''),
      (''valid_from_block'', JInt 0), (''valid_until_block'', JInt 50), (''complete'', JBool True),
      (''policy_digest'', JStr demo_zeros), (''verifier_digest'', JStr demo_zeros), (''previous_report_id'', JNull),
      (''entries'', JArr [demo_entry]), (''signing_key_id'', JStr ''k'')]"

definition demo_registration :: jdict where
  "demo_registration =
     [(''schema'', JStr ''cathedral_owner_score_registration_v1''), (''network'', JStr ''n''),
      (''source_netuid'', JInt 7), (''target_netuid'', JInt 39), (''owner_coldkey'', JStr ''owner''),
      (''delegate_hotkey'', JStr ''delegate''), (''source_id'', JStr ''s''), (''class_ids'', JArr [JStr ''c'']),
      (''report_locations'', JArr [JStr ''https://h/r'']),
      (''report_keys'', JObj [(''k'', JStr (replicate 43 CHR ''A'' @ ''=''))]), (''sequence'', JInt 0),
      (''previous_registration_id'', JNull), (''issued_at'', JStr ''2026-01-01T00:00:00.000000Z''),
      (''expires_at'', JStr ''2026-01-02T00:00:00.000000Z''), (''valid_from_block'', JInt 0), (''valid_until_block'', JInt 50)]"

definition demo_now :: int where "demo_now = 63902822400000000"

lemma demo_times:
  "parse_time (JStr ''2026-01-01T00:00:00.000000Z'') l = Inr demo_now"
  "parse_time (JStr ''2026-01-02T00:00:00.000000Z'') l = Inr (demo_now + 86400000000)"
proof -
  have "time_shape ''2026-01-01T00:00:00.000000Z''" "time_value ''2026-01-01T00:00:00.000000Z'' = Some demo_now"
    "time_shape ''2026-01-02T00:00:00.000000Z''"
    "time_value ''2026-01-02T00:00:00.000000Z'' = Some (demo_now + 86400000000)" by code_simp+
  then show "parse_time (JStr ''2026-01-01T00:00:00.000000Z'') l = Inr demo_now"
    "parse_time (JStr ''2026-01-02T00:00:00.000000Z'') l = Inr (demo_now + 86400000000)"
    by (simp_all add: parse_time_def)
qed

lemma demo_fresh: "fresh_at (Some demo_now) demo_now (demo_now + 86400000000) 100 10"
  by (simp add: fresh_at_def elapsed_seconds_def)

definition demo_entries :: "score_entry list" where
  "demo_entries = [\<lparr>se_hotkey = ''m'', se_metrics = [(''score'', (1, 0))], se_asserted = None, se_reasons = [''ok''],
     se_evidence = []\<rparr>]"

lemma demo_report_entries: "report_entries (\<lambda>_. False) (JArr [demo_entry]) = Inr demo_entries"
  by code_simp

lemma demo_sorted_entries: "jsort (JArr [demo_entry]) = JArr [demo_entry]"
  by (simp add: demo_entry_def sort_items_def)

lemma demo_signable_with:
  assumes "map_of ks ''k'' \<noteq> None"
  shows "signable demo_world (demo_class ks owner) ''n'' 39 7 (Some demo_now) demo_report demo_entries"
proof -
  have keys: "fst ` set demo_report = set report_keys - {''report_id'', ''signature''}" by code_simp
  have strict: "strict_ok (JObj demo_report)" by code_simp
  have z: "digest_text demo_zeros" "key_id_text ''k''" "text_between (JStr ''n'') 1 128" by code_simp+
  have g: "jget demo_report ''entries'' = JArr [demo_entry]"
    by (simp add: demo_report_def jget_def)
  show ?thesis unfolding signable_def g demo_sorted_entries
    using keys strict z demo_times demo_fresh demo_report_entries assms
    by (simp add: demo_report_def jget_def nat_field_def int_field_def demo_class_def demo_world_def)
qed

lemma demo_signable:
  "signable demo_world (demo_class demo_keys owner) ''n'' 39 7 (Some demo_now) demo_report demo_entries"
  by (rule demo_signable_with) (simp add: demo_keys_def)

text \<open>A policy in the middle of a key rotation pins the old and the new key.\<close>

definition rotated_keys :: "(string \<times> bytes) list" where
  "rotated_keys = [(''old'', replicate 32 1), (''k'', replicate 32 0)]"


lemma length_demo_sign [simp]: "length (demo_sign m) = 64"
  by (simp add: demo_sign_def)

lemma dict_set_size:
  "k \<notin> fst ` set d \<Longrightarrow> (\<Sum>kv \<leftarrow> dict_set k v d. item_size kv) = (\<Sum>kv \<leftarrow> d. item_size kv) + item_size (k, v)"
  by (simp add: dict_set_new)

lemma signature_size: "length sig = 64 \<Longrightarrow> length alg \<le> 7 \<Longrightarrow> item_size (''signature'', signature_object alg sig) \<le> 1000"
proof -
  assume len: "length sig = 64" "length alg \<le> 7"
  let ?kvs = "[(''algorithm'', JStr alg), (''value_base64'', JStr (b64encode sig))]"
  have "item_size (''signature'', JObj ?kvs) = length (quote ''signature'') + length (canonical_json ?kvs) + 2"
    by (simp add: item_size_def dump_item_def canonical_json_def canonical_bytes_def del: dumps.simps)
  moreover have "length (canonical_json ?kvs) \<le> 2 + (item_size (''algorithm'', JStr alg) + item_size (''value_base64'', JStr (b64encode sig)))"
    using canonical_json_length [of ?kvs] by simp
  moreover have "item_size (''algorithm'', JStr alg) \<le> 102" using item_size_str [of "''algorithm''" alg] len(2) by simp
  moreover have "item_size (''value_base64'', JStr (b64encode sig)) \<le> 606"
    using item_size_str [of "''value_base64''" "b64encode sig"] by (simp add: length_b64encode len)
  moreover have "length (quote ''signature'') \<le> 56" using quote_length [of "''signature''"] by simp
  ultimately show ?thesis by (simp add: signature_object_def)
qed

lemma signed_size:
  assumes "ident \<notin> fst ` set d" "''signature'' \<notin> fst ` set d" "ident \<noteq> ''signature''" "length ident \<le> 15" "length rid = 71"
    and "length sig = 64" "length alg \<le> 7" "(\<Sum>kv \<leftarrow> d. item_size kv) \<le> 10000"
  shows "int (length (canonical_json (dict_set ''signature'' (signature_object alg sig) (dict_set ident (JStr rid) d))))
    \<le> MAX_REPORT_BYTES"
proof -
  have "(\<Sum>kv \<leftarrow> dict_set ''signature'' (signature_object alg sig) (dict_set ident (JStr rid) d). item_size kv)
      = (\<Sum>kv \<leftarrow> d. item_size kv) + item_size (ident, JStr rid) + item_size (''signature'', signature_object alg sig)"
    using assms by (subst dict_set_size) (auto simp: dict_set_size)
  moreover have "item_size (ident, JStr rid) \<le> 522" using item_size_str [of ident rid] assms by simp
  ultimately show ?thesis
    using canonical_json_length [of "dict_set ''signature'' (signature_object alg sig) (dict_set ident (JStr rid) d)"]
      signature_size [OF assms(6,7)] assms(8) by (simp add: MAX_REPORT_BYTES_def)
qed

lemma id_lengths [simp]: "length (report_id_for d) = 71" "length (registration_id_for d) = 71"
  by (simp_all add: report_id_for_def registration_id_for_def prefixed_digest_def)

definition demo_raw :: bytes where
  "demo_raw = canonical_json (dict_set ''signature''
     (signature_object ''ed25519'' (demo_sign (report_message
        (dict_set ''report_id'' (JStr (report_id_for demo_report)) demo_report))))
     (dict_set ''report_id'' (JStr (report_id_for demo_report)) demo_report))"

lemma demo_keys_of_documents:
  "''report_id'' \<notin> fst ` set demo_report" "''signature'' \<notin> fst ` set demo_report"
  "''registration_id'' \<notin> fst ` set demo_registration" "''signature'' \<notin> fst ` set demo_registration"
  by (code_simp, code_simp, code_simp, code_simp)

lemma demo_sizes: "(\<Sum>kv \<leftarrow> demo_report. item_size kv) \<le> 10000" "(\<Sum>kv \<leftarrow> demo_registration. item_size kv) \<le> 10000"
  by (code_simp, code_simp)

lemma demo_signed: "sign_report demo_sign demo_report = Inr demo_raw" "int (length demo_raw) \<le> MAX_REPORT_BYTES"
proof -
  show "sign_report demo_sign demo_report = Inr demo_raw"
    using demo_keys_of_documents by (simp add: sign_report_def Let_def demo_raw_def)
  show "int (length demo_raw) \<le> MAX_REPORT_BYTES"
    unfolding demo_raw_def using demo_keys_of_documents demo_sizes by (intro signed_size) simp_all
qed

lemma demo_law: "or_ed demo_world (replicate 32 0) (demo_sign m) m"
  by (simp add: demo_world_def demo_sign_def)

lemma demo_pinned:
  "jget demo_report ''signing_key_id'' = JStr ''k''" "map_of (ep_keys (demo_class demo_keys owner)) ''k'' = Some (replicate 32 0)"
  "map_of (ep_keys (demo_class rotated_keys owner)) ''k'' = Some (replicate 32 0)"
  by (simp_all add: demo_report_def jget_def demo_class_def demo_keys_def rotated_keys_def)

lemma demo_verified:
  "\<exists>r. verify_report demo_world demo_raw (demo_class demo_keys owner) ''n'' 39 7 (Some demo_now) = Inr r
     \<and> vr_entries r = demo_entries"
proof -
  have "\<exists>r. verify_report demo_world demo_raw (demo_class demo_keys owner) ''n'' 39 7 (Some demo_now) = Inr r
     \<and> vr_entries r = demo_entries \<and> vr_report_id r = report_id_for demo_report
     \<and> JInt (vr_epoch r) = jget demo_report ''source_epoch''"
    by (rule sign_report_verifies [OF demo_signable demo_signed demo_pinned(1,2) demo_law]) simp
  then show ?thesis by blast
qed

section \<open>Properties of signed reports\<close>

text \<open>C14. What a source signs, a validator that pins its key accepts, entry for entry: signing a
  well-formed unsigned report and verifying the bytes returns its entries, its epoch and the id
  of its canonical body. Of the signature scheme it takes only that the signatures verify under
  the one pinned key the report names; the policy may pin others, as during a key rotation.\<close>

theorem signed_report_verifies:
  "signable env policy network netuid block now d entries \<Longrightarrow>
   sign_report sign d = Inr raw \<Longrightarrow> int (length raw) \<le> MAX_REPORT_BYTES \<Longrightarrow>
   jget d ''signing_key_id'' = JStr kid \<Longrightarrow> map_of (ep_keys policy) kid = Some key \<Longrightarrow>
   (\<And>m. or_ed env key (sign m) m) \<Longrightarrow> (\<And>m. length (sign m) = 64) \<Longrightarrow>
   \<exists>r. verify_report env raw policy network netuid block now = Inr r \<and> vr_entries r = entries
     \<and> vr_report_id r = report_id_for d \<and> JInt (vr_epoch r) = jget d ''source_epoch''"
  by (rule sign_report_verifies)

theorem signed_report_verifies_witness:
  "\<exists>r. verify_report demo_world demo_raw (demo_class rotated_keys None) ''n'' 39 7 (Some demo_now) = Inr r
     \<and> vr_entries r = demo_entries \<and> vr_epoch r = 3"
proof -
  have "signable demo_world (demo_class rotated_keys None) ''n'' 39 7 (Some demo_now) demo_report demo_entries"
    by (rule demo_signable_with) (simp add: rotated_keys_def)
  then have "\<exists>r. verify_report demo_world demo_raw (demo_class rotated_keys None) ''n'' 39 7 (Some demo_now) = Inr r
     \<and> vr_entries r = demo_entries \<and> vr_report_id r = report_id_for demo_report
     \<and> JInt (vr_epoch r) = jget demo_report ''source_epoch''"
    by (rule signed_report_verifies [OF _ demo_signed demo_pinned(1,3) demo_law]) simp
  moreover have "jget demo_report ''source_epoch'' = JInt 3" by code_simp
  ultimately show ?thesis by auto
qed

text \<open>C15. An accepted report is canonical and strict, names this network, subnet, class and source,
  carries the id of its own body and a valid signature of a pinned key over it, covers the
  current block within the policy's span, is neither stale nor from the future, and lists
  distinct hotkeys in order with well-formed entries.\<close>

theorem accepted_report_contract:
  "verify_report env raw policy network netuid block now = Inr r \<Longrightarrow>
     report_ok env raw policy network netuid block now r"
  by (rule verify_report_ok)

theorem accepted_report_contract_witness:
  "\<exists>r. report_ok demo_world demo_raw (demo_class demo_keys None) ''n'' 39 7 (Some demo_now) r
     \<and> vr_entries r = demo_entries"
  using demo_verified [of None] accepted_report_contract by blast

text \<open>A report id names one content: two accepted reports with the same id, whatever
  validators accepted them, have the same unsigned body, or the bytes their ids hash are a collision
  of SHA-256.\<close>

lemma report_id_binds_body:
  "verify_report env raw policy network netuid block now = Inr r \<Longrightarrow>
   verify_report env' raw' policy' network' netuid' block' now' = Inr r' \<Longrightarrow>
   vr_report_id r = vr_report_id r' \<Longrightarrow>
   unsigned_report_body (vr_document r) = unsigned_report_body (vr_document r')
     \<or> sha_collision (report_id_message (vr_document r)) (report_id_message (vr_document r'))"
  by (rule report_ids_bind)

section \<open>The chain of authority\<close>

lemma materialize_InrD:
  "materialize_registered_policy policy g = Inr policy' \<Longrightarrow> policy' = policy\<lparr>ep_keys := rg_keys g\<rparr>"
  by (auto simp: materialize_registered_policy_def elim!: guardE_InrE)

lemma delegation_chain:
  assumes "check_registration env raw policy network netuid block owner registered now = Inr g"
    and "materialize_registered_policy policy g = Inr policy'"
    and "verify_report env raw' policy' network netuid block now = Inr r"
  shows "let d = rg_document g; body = vr_document r in
     raw = canonical_json d \<and> jget d ''network'' = JStr network \<and> jget d ''target_netuid'' = JInt netuid
   \<and> (\<exists>op. ep_owner policy = Some op \<and> jget d ''source_netuid'' = JInt (op_source_netuid op))
   \<and> jget d ''owner_coldkey'' = JStr owner \<and> jget d ''delegate_hotkey'' = JStr (rg_delegate g)
   \<and> map_of registered (rg_delegate g) = Some owner
   \<and> (\<exists>sig. or_sr env owner (registration_message d) sig = Some True)
   \<and> (\<exists>keys w key sig. jget d ''report_keys'' = JObj keys \<and> (vr_key_id r, w) \<in> set keys
        \<and> decode_public_key w = Inr key \<and> length key = 32 \<and> or_ed env key sig (report_message body))
   \<and> jget body ''source_id'' = jget d ''source_id'' \<and> jget body ''source_id'' = JStr (rg_source_id g)
   \<and> (\<exists>classes. jget d ''class_ids'' = JArr classes \<and> jget body ''class_id'' \<in> set classes)"
proof -
  note p = materialize_InrD [OF assms(2)]
  have g: "registration_ok env raw policy network netuid block owner registered now g"
    by (rule check_registration_ok(1) [OF assms(1)])
  have r: "report_ok env raw' policy' network netuid block now r" by (rule verify_report_ok [OF assms(3)])
  from r obtain key sig where k: "map_of (rg_keys g) (vr_key_id r) = Some key" "or_ed env key sig (report_message (vr_document r))"
    unfolding report_ok_def Let_def p by auto
  have key: "(vr_key_id r, key) \<in> set (rg_keys g)" by (rule map_of_SomeD [OF k(1)])
  have "delegates (rg_document g) g" by (rule check_registration_ok(2) [OF assms(1)])
  then obtain kvs w where w: "jget (rg_document g) ''report_keys'' = JObj kvs" "(vr_key_id r, w) \<in> set kvs"
      "decode_public_key w = Inr key"
    and says: "jget (rg_document g) ''owner_coldkey'' = JStr (rg_owner g)"
      "jget (rg_document g) ''delegate_hotkey'' = JStr (rg_delegate g)"
      "jget (rg_document g) ''source_id'' = JStr (rg_source_id g)"
      "jget (rg_document g) ''class_ids'' = JArr (map JStr (rg_class_ids g))"
    using key unfolding delegates_def by blast
  have "length key = 32" using g key unfolding registration_ok_def Let_def by force
  then show ?thesis using g r k(2) w says unfolding registration_ok_def report_ok_def Let_def p by auto
qed

definition demo_registration_raw :: bytes where
  "demo_registration_raw = canonical_json (dict_set ''signature''
     (signature_object ''sr25519'' (demo_sign (registration_message
        (dict_set ''registration_id'' (JStr (registration_id_for demo_registration)) demo_registration))))
     (dict_set ''registration_id'' (JStr (registration_id_for demo_registration)) demo_registration))"

lemma demo_registration_signed:
  "sign_owner_registration (\<lambda>m. Some (demo_sign m)) demo_registration = Inr demo_registration_raw"
  "int (length demo_registration_raw) \<le> MAX_REPORT_BYTES"
proof -
  show "sign_owner_registration (\<lambda>m. Some (demo_sign m)) demo_registration = Inr demo_registration_raw"
    using demo_keys_of_documents by (simp add: sign_owner_registration_def Let_def demo_registration_raw_def)
  show "int (length demo_registration_raw) \<le> MAX_REPORT_BYTES"
    unfolding demo_registration_raw_def using demo_keys_of_documents demo_sizes by (intro signed_size) simp_all
qed

lemma demo_registration_stages:
  "registration_parties demo_owner (canonical_dict demo_registration) ''n'' 39 ''owner'' [(''delegate'', ''owner'')]
     = Inr (''owner'', ''delegate'')"
  "registration_scope (\<lambda>_. False) (demo_class [] (Some demo_owner)) (canonical_dict demo_registration)
     = Inr (''s'', [''c''], [''https://h/r''], demo_keys)"
  by (code_simp, code_simp)

lemma demo_registration_window:
  "block_window a b c (canonical_dict demo_registration) 7 (op_max_span demo_owner) = Inr (0, 50)"
proof -
  have "jget (canonical_dict demo_registration) ''valid_from_block'' = JInt 0"
    "jget (canonical_dict demo_registration) ''valid_until_block'' = JInt 50" by (code_simp, code_simp)
  then show ?thesis by (simp add: block_window_def nat_field_def int_field_def demo_owner_def)
qed

lemma demo_registration_verified:
  "\<exists>g. check_registration demo_world demo_registration_raw (demo_class [] (Some demo_owner)) ''n'' 39 7 ''owner''
      [(''delegate'', ''owner'')] (Some demo_now) = Inr g
    \<and> rg_keys g = demo_keys \<and> rg_source_id g = ''s'' \<and> rg_class_ids g = [''c'']"
proof (rule sign_registration_verifies [OF demo_registration_signed])
  show "strict_ok (JObj demo_registration)" by code_simp
  show "fst ` set demo_registration = set registration_keys - {''registration_id'', ''signature''}" by code_simp
  show "ep_owner (demo_class [] (Some demo_owner)) = Some demo_owner" by (simp add: demo_class_def)
  show "jget demo_registration ''previous_registration_id'' = JNull" by (simp add: demo_registration_def jget_def)
  show "registration_parties demo_owner (canonical_dict demo_registration) ''n'' 39 ''owner'' [(''delegate'', ''owner'')]
     = Inr (''owner'', ''delegate'')" by (rule demo_registration_stages)
  show "registration_scope (or_ip demo_world) (demo_class [] (Some demo_owner)) (canonical_dict demo_registration)
     = Inr (''s'', [''c''], [''https://h/r''], demo_keys)" using demo_registration_stages by (simp add: demo_world_def)
  show "block_window a b c (canonical_dict demo_registration) 7 (op_max_span demo_owner) = Inr (0, 50)" for a b c
    by (rule demo_registration_window)
  show "parse_time (jget demo_registration ''issued_at'') ''registration issued_at'' = Inr demo_now"
    "parse_time (jget demo_registration ''expires_at'') ''registration expires_at'' = Inr (demo_now + 86400000000)"
    using demo_times by (simp_all add: demo_registration_def jget_def)
  show "fresh_at (Some demo_now) demo_now (demo_now + 86400000000) (op_max_age demo_owner) (op_max_future demo_owner)"
    using demo_fresh by (simp add: demo_owner_def)
  show "or_sr demo_world ''owner'' m sig = Some True" if "Some (demo_sign m) = Some sig" for m sig
    using that by (simp add: demo_world_def)
qed

text \<open>C16. Authority reaches a report only through the chain the validator checks. A report accepted
  for an owner-registered class is signed with a key that stands in the report keys of the
  registration document; that document is signed by the current owner of the source subnet,
  names this network and this subnet, the owner itself, a delegate that is registered here under
  the same owner, and the report's source and class.\<close>

theorem delegated_report_authority:
  "check_registration env raw policy network netuid block owner registered now = Inr g \<Longrightarrow>
   materialize_registered_policy policy g = Inr policy' \<Longrightarrow>
   verify_report env raw' policy' network netuid block now = Inr r \<Longrightarrow>
   let d = rg_document g; body = vr_document r in
     raw = canonical_json d \<and> jget d ''network'' = JStr network \<and> jget d ''target_netuid'' = JInt netuid
   \<and> (\<exists>op. ep_owner policy = Some op \<and> jget d ''source_netuid'' = JInt (op_source_netuid op))
   \<and> jget d ''owner_coldkey'' = JStr owner \<and> jget d ''delegate_hotkey'' = JStr (rg_delegate g)
   \<and> map_of registered (rg_delegate g) = Some owner
   \<and> (\<exists>sig. or_sr env owner (registration_message d) sig = Some True)
   \<and> (\<exists>keys w key sig. jget d ''report_keys'' = JObj keys \<and> (vr_key_id r, w) \<in> set keys
        \<and> decode_public_key w = Inr key \<and> length key = 32 \<and> or_ed env key sig (report_message body))
   \<and> jget body ''source_id'' = jget d ''source_id'' \<and> jget body ''source_id'' = JStr (rg_source_id g)
   \<and> (\<exists>classes. jget d ''class_ids'' = JArr classes \<and> jget body ''class_id'' \<in> set classes)"
  by (rule delegation_chain)

theorem delegated_report_authority_witness:
  "\<exists>g r. check_registration demo_world demo_registration_raw (demo_class [] (Some demo_owner)) ''n'' 39 7 ''owner''
      [(''delegate'', ''owner'')] (Some demo_now) = Inr g
    \<and> verify_report demo_world demo_raw (demo_class demo_keys (Some demo_owner)) ''n'' 39 7 (Some demo_now) = Inr r
    \<and> jget (rg_document g) ''owner_coldkey'' = JStr ''owner'' \<and> jget (vr_document r) ''source_id'' = jget (rg_document g) ''source_id''"
proof -
  obtain g where g: "check_registration demo_world demo_registration_raw (demo_class [] (Some demo_owner)) ''n'' 39 7 ''owner''
      [(''delegate'', ''owner'')] (Some demo_now) = Inr g"
      "rg_keys g = demo_keys" "rg_source_id g = ''s''" "rg_class_ids g = [''c'']"
    using demo_registration_verified by blast
  obtain r where r: "verify_report demo_world demo_raw (demo_class demo_keys (Some demo_owner)) ''n'' 39 7 (Some demo_now) = Inr r"
    using demo_verified by blast
  have "materialize_registered_policy (demo_class [] (Some demo_owner)) g = Inr (demo_class demo_keys (Some demo_owner))"
    using g by (simp add: materialize_registered_policy_def demo_class_def)
  from delegated_report_authority [OF g(1) this r] g r show ?thesis unfolding Let_def by blast
qed

end
