(* ===== verification/Score_Mirror.thy ===== *)
theory Score_Mirror
  imports Score_Delegation
begin

text \<open>
  \<open>cathedral_thin/score_classes.py\<close>, from the mirrors to the accepted artifact: fetching a
  location, choosing the newest valid artifact of several mirrors, and the checkpoints that
  forbid rollback and equivocation. The two checkpoint rules share one contract, the locale
  \<open>accepted_chain\<close>, interpreted on both.
\<close>

section \<open>Fetching\<close>

definition over_limit :: string where
  "over_limit = ''score report exceeds size limit''"

text \<open>The HTTPS branch: \<open>read\<close> returns at most one byte more than the limit.\<close>

definition fetch_remote :: "world \<Rightarrow> string \<Rightarrow> bytes res" where
  "fetch_remote env location =
     (case or_http env location of
        None \<Rightarrow> raise ''could not fetch remote score report''
      | Some (header, body) \<Rightarrow>
          bindE (case header of
              None \<Rightarrow> Inr ()
            | Some h \<Rightarrow>
                (case py_int h of
                   None \<Rightarrow> raise ''invalid score report Content-Length''
                 | Some n \<Rightarrow> guardE (n < 0 \<or> n > MAX_REPORT_BYTES) over_limit (Inr ()))) (\<lambda>_.
          let raw = take (nat MAX_REPORT_BYTES + 1) body in
          guardE (int (length raw) > MAX_REPORT_BYTES) over_limit (Inr raw)))"

definition fetch_file :: "world \<Rightarrow> string \<Rightarrow> bytes res" where
  "fetch_file env path =
     (case or_file env path of
        None \<Rightarrow> raise (''could not read score report: '' @ path)
      | Some (stat_size, raw) \<Rightarrow>
          guardE (stat_size > MAX_REPORT_BYTES) over_limit
          (guardE (int (length raw) > MAX_REPORT_BYTES) over_limit (Inr raw)))"

definition fetch_report :: "world \<Rightarrow> string \<Rightarrow> bytes res" where
  "fetch_report env location =
     bindE (urlsplit (or_ip env) location) (\<lambda>u.
     if url_scheme u \<in> {''http'', ''https''} then
       guardE (url_scheme u \<noteq> ''https'') ''remote score report locations must use HTTPS''
       (guardE (url_username u \<noteq> [] \<or> url_password u \<noteq> [] \<or> url_query u \<noteq> [] \<or> url_fragment u \<noteq> []
           \<or> url_hostname u = []) ''invalid remote score report location''
         (fetch_remote env location))
     else
       guardE (url_scheme u \<notin> {'''', ''file''}) ''score report location must be a path, file URI, or HTTPS URL''
         (fetch_file env (or_path env (url_scheme u = ''file'') (if url_scheme u = ''file'' then url_path u else location))))"

lemma fetch_bounded: "fetch_report env location = Inr raw \<Longrightarrow> int (length raw) \<le> MAX_REPORT_BYTES"
  by (auto simp: fetch_report_def fetch_remote_def fetch_file_def Let_def
    split: if_splits option.splits prod.splits elim!: bindE_InrE guardE_InrE)

section \<open>Choosing among mirrors\<close>

definition mirror_message :: "nat \<Rightarrow> string \<Rightarrow> string" where
  "mirror_message i msg = ''mirror['' @ nat_str i @ '']:'' @ msg"

text \<open>The loop over the locations: a ThinSubnetError is recorded, any other exception escapes.\<close>

fun gather :: "(string \<Rightarrow> 'a res) \<Rightarrow> nat \<Rightarrow> string list \<Rightarrow> ('a list \<times> string list) res" where
  "gather f i [] = Inr ([], [])"
| "gather f i (l # ls) =
     (case f l of
        Inr v \<Rightarrow> bindE (gather f (Suc i) ls) (\<lambda>(vs, es). Inr (v # vs, es))
      | Inl (ThinSubnetError msg) \<Rightarrow> bindE (gather f (Suc i) ls) (\<lambda>(vs, es). Inr (vs, mirror_message i msg # es))
      | Inl e \<Rightarrow> Inl e)"

definition select_best :: "('a \<Rightarrow> int) \<Rightarrow> ('a \<Rightarrow> string) \<Rightarrow> string \<Rightarrow> string \<Rightarrow> 'a list \<times> string list \<Rightarrow> 'a res" where
  "select_best seq_of id_of none_msg fork_msg found =
     guardE (fst found = []) (none_msg @ join_with ''; '' (snd found))
     (let highest = Max (set (map seq_of (fst found)));
          candidates = filter (\<lambda>v. seq_of v = highest) (fst found) in
      guardE (card (set (map id_of candidates)) \<noteq> 1) fork_msg (Inr (hd candidates)))"

lemma gather_sound: "gather f i ls = Inr (vs, es) \<Longrightarrow> set vs = {v. \<exists>l \<in> set ls. f l = Inr v}"
proof (induction f i ls arbitrary: vs es rule: gather.induct)
  case (2 f i l ls)
  show ?case
  proof (cases "f l")
    case (Inl e)
    then obtain msg where e: "e = ThinSubnetError msg" using 2(3) by (cases e) auto
    obtain es' where "gather f (Suc i) ls = Inr (vs, es')" using 2(3) by (auto simp: Inl e elim!: bindE_InrE)
    from 2(1) [OF Inl e this] Inl show ?thesis by auto
  next
    case (Inr v)
    obtain vs' es' where g: "gather f (Suc i) ls = Inr (vs', es')" "vs = v # vs'"
      using 2(3) by (auto simp: Inr elim!: bindE_InrE)
    from 2(2) [OF Inr g(1)] g(2) Inr show ?thesis by auto
  qed
qed simp

lemma select_best_sound:
  assumes "select_best seq_of id_of a b found = Inr v"
  shows "v \<in> set (fst found) \<and> (\<forall>w \<in> set (fst found). seq_of w \<le> seq_of v \<and> (seq_of w = seq_of v \<longrightarrow> id_of w = id_of v))"
proof -
  let ?vs = "fst found"
  let ?c = "filter (\<lambda>w. seq_of w = Max (set (map seq_of ?vs))) ?vs"
  have ne: "?vs \<noteq> []" and one: "card (set (map id_of ?c)) = 1" and v: "v = hd ?c"
    using assms by (auto simp: select_best_def Let_def elim!: guardE_InrE)
  have "set (map id_of ?c) \<noteq> {}" using one by (metis card.empty zero_neq_one)
  then have "?c \<noteq> []" by (metis list.set(1) list.simps(8))
  then have vc: "v \<in> set ?c" unfolding v by (rule hd_in_set)
  obtain i where i: "set (map id_of ?c) = {i}" using one by (auto simp: card_1_singleton_iff)
  have mx: "seq_of w \<le> Max (set (map seq_of ?vs))" if "w \<in> set ?vs" for w using that by (intro Max_ge) auto
  have ids: "id_of w = i" if "w \<in> set ?c" for w
  proof -
    have "id_of w \<in> set (map id_of ?c)" using that by (metis image_eqI list.set_map)
    then show ?thesis using i by simp
  qed
  show ?thesis using vc mx ids by auto
qed

section \<open>Checkpoints\<close>

record source_checkpoint =
  sc_epoch :: int
  sc_report_id :: string

record registration_checkpoint =
  rc_owner :: string
  rc_delegate :: string
  rc_sequence :: int
  rc_id :: string

definition enforce_checkpoint :: "verified_report \<Rightarrow> source_checkpoint option \<Rightarrow> source_checkpoint res" where
  "enforce_checkpoint r cp =
     (let fresh = \<lparr>sc_epoch = vr_epoch r, sc_report_id = vr_report_id r\<rparr> in
      case cp of
        None \<Rightarrow> Inr fresh
      | Some c \<Rightarrow>
          guardE (vr_epoch r < sc_epoch c) ''score report source epoch rolled back''
          (if vr_epoch r = sc_epoch c
           then guardE (vr_report_id r \<noteq> sc_report_id c) ''score source equivocated at an accepted epoch'' (Inr c)
           else guardE (vr_epoch r = sc_epoch c + 1 \<and> vr_previous r \<noteq> Some (sc_report_id c))
             ''contiguous score report does not extend the accepted chain'' (Inr fresh)))"

definition enforce_registration_checkpoint ::
    "verified_registration \<Rightarrow> registration_checkpoint option \<Rightarrow> registration_checkpoint res" where
  "enforce_registration_checkpoint g cp =
     (let accepted = \<lparr>rc_owner = rg_owner g, rc_delegate = rg_delegate g, rc_sequence = rg_sequence g, rc_id = rg_id g\<rparr> in
      case cp of
        None \<Rightarrow> Inr accepted
      | Some c \<Rightarrow>
          if rc_owner c \<noteq> rg_owner g then Inr accepted
          else guardE (rg_sequence g < rc_sequence c) ''owner registration sequence rolled back''
          (if rg_sequence g = rc_sequence c
           then guardE (rg_id g \<noteq> rc_id c) ''subnet owner equivocated at an accepted sequence'' (Inr c)
           else guardE (rg_sequence g = rc_sequence c + 1 \<and> rg_previous g \<noteq> Some (rc_id c))
             ''contiguous owner registration does not extend the accepted chain'' (Inr accepted)))"

text \<open>A run of accepted artifacts: the checkpoint is carried from one to the next.\<close>

fun accepted_run :: "('a \<Rightarrow> 'c option \<Rightarrow> 'c res) \<Rightarrow> 'c option \<Rightarrow> 'a list \<Rightarrow> bool" where
  "accepted_run enforce cp [] = True"
| "accepted_run enforce cp (x # xs) =
     (case enforce x cp of Inl e \<Rightarrow> False | Inr c \<Rightarrow> accepted_run enforce (Some c) xs)"

text \<open>The contract of a checkpoint rule. An artifact has an author, a sequence number, an id and the
  id it extends; a checkpoint remembers the first three. Accepting stores the artifact's numbers
  and, for the author of the checkpoint, never goes back, never replaces an id in place and
  never skips the link of a contiguous step.\<close>

locale accepted_chain =
  fixes author :: "'a \<Rightarrow> 'k" and seq_no :: "'a \<Rightarrow> int" and ident :: "'a \<Rightarrow> string" and extends :: "'a \<Rightarrow> string option"
    and cp_author :: "'c \<Rightarrow> 'k" and cp_seq :: "'c \<Rightarrow> int" and cp_ident :: "'c \<Rightarrow> string"
    and enforce :: "'a \<Rightarrow> 'c option \<Rightarrow> 'c res"
  assumes stores: "enforce x cp = Inr c' \<Longrightarrow> cp_author c' = author x \<and> cp_seq c' = seq_no x \<and> cp_ident c' = ident x"
    and no_rollback: "cp_author c = author x \<Longrightarrow> enforce x (Some c) = Inr c' \<Longrightarrow> cp_seq c \<le> seq_no x"
    and no_fork: "cp_author c = author x \<Longrightarrow> enforce x (Some c) = Inr c' \<Longrightarrow> seq_no x = cp_seq c \<Longrightarrow> ident x = cp_ident c"
    and linked: "cp_author c = author x \<Longrightarrow> enforce x (Some c) = Inr c' \<Longrightarrow> seq_no x = cp_seq c + 1 \<Longrightarrow>
        extends x = Some (cp_ident c)"
begin

lemma run_after:
  assumes "accepted_run enforce (Some c) xs" "\<forall>x \<in> set xs. author x = cp_author c" "x \<in> set xs"
  shows "cp_seq c \<le> seq_no x \<and> (seq_no x = cp_seq c \<longrightarrow> ident x = cp_ident c)"
  using assms
proof (induction xs arbitrary: c)
  case (Cons y ys)
  then obtain c' where c': "enforce y (Some c) = Inr c'" "accepted_run enforce (Some c') ys"
    by (auto split: sum.splits)
  have a: "cp_author c = author y" using Cons.prems(2) by simp
  note s = stores [OF c'(1)] and n = no_rollback [OF a c'(1)] and f = no_fork [OF a c'(1)]
  show ?case
  proof (cases "x = y")
    case False
    then have "cp_seq c' \<le> seq_no x \<and> (seq_no x = cp_seq c' \<longrightarrow> ident x = cp_ident c')"
      using Cons.IH [OF c'(2)] Cons.prems s by auto
    then show ?thesis using s n f by auto
  qed (use n f in simp)
qed simp

lemma run_consistent:
  assumes "accepted_run enforce cp xs" "\<forall>x \<in> set xs. author x = k" "i < j" "j < length xs"
  shows "seq_no (xs ! i) \<le> seq_no (xs ! j) \<and> (seq_no (xs ! i) = seq_no (xs ! j) \<longrightarrow> ident (xs ! i) = ident (xs ! j))"
  using assms
proof (induction xs arbitrary: cp i j)
  case (Cons y ys)
  then obtain c' where c': "enforce y cp = Inr c'" "accepted_run enforce (Some c') ys" by (auto split: sum.splits)
  obtain j' where j: "j = Suc j'" "j' < length ys" using Cons.prems by (cases j) auto
  show ?case
  proof (cases i)
    case 0
    have "\<forall>x \<in> set ys. author x = cp_author c'" using Cons.prems(2) stores [OF c'(1)] by auto
    from run_after [OF c'(2) this nth_mem [OF j(2)]] show ?thesis using stores [OF c'(1)] j 0 by auto
  next
    case (Suc i')
    then show ?thesis using Cons.IH [OF c'(2), of i' j'] Cons.prems j by simp
  qed
qed simp

lemma run_linked:
  assumes "accepted_run enforce cp xs" "\<forall>x \<in> set xs. author x = k" "Suc i < length xs"
    and "seq_no (xs ! Suc i) = seq_no (xs ! i) + 1"
  shows "extends (xs ! Suc i) = Some (ident (xs ! i))"
  using assms
proof (induction xs arbitrary: cp i)
  case (Cons y ys)
  then obtain c' where c': "enforce y cp = Inr c'" "accepted_run enforce (Some c') ys" by (auto split: sum.splits)
  note s = stores [OF c'(1)]
  show ?case
  proof (cases i)
    case 0
    obtain z zs where ys: "ys = z # zs" using Cons.prems(3) by (cases ys) auto
    obtain c'' where "enforce z (Some c') = Inr c''" using c'(2) by (auto simp: ys split: sum.splits)
    then show ?thesis using linked [of c' z c''] s Cons.prems by (simp add: 0 ys)
  next
    case (Suc i')
    then show ?thesis using Cons.IH [OF c'(2), of i'] Cons.prems by simp
  qed
qed simp

end

interpretation report_chain: accepted_chain "\<lambda>_. ()" vr_epoch vr_report_id vr_previous "\<lambda>_. ()" sc_epoch sc_report_id
    enforce_checkpoint
  by unfold_locales
    (auto simp: enforce_checkpoint_def Let_def split: option.splits if_splits elim!: guardE_InrE)

interpretation registration_chain: accepted_chain rg_owner rg_sequence rg_id rg_previous rc_owner rc_sequence rc_id
    enforce_registration_checkpoint
  by unfold_locales
    (auto simp: enforce_registration_checkpoint_def Let_def split: option.splits if_splits elim!: guardE_InrE)

section \<open>Loading the best artifact\<close>

definition load_best_report ::
    "world \<Rightarrow> external_policy \<Rightarrow> string \<Rightarrow> int \<Rightarrow> int \<Rightarrow> source_checkpoint option \<Rightarrow> int option
       \<Rightarrow> (verified_report \<times> source_checkpoint) res" where
  "load_best_report env policy network netuid block cp now =
     bindE (gather (\<lambda>l. bindE (fetch_report env l) (\<lambda>raw. verify_report env raw policy network netuid block now))
        0 (ep_locations policy)) (\<lambda>found.
     bindE (select_best vr_epoch vr_report_id (''no valid report for class '' @ ep_class_id policy @ '': '')
        ''score report mirrors expose same-epoch equivocation'' found) (\<lambda>r.
     bindE (enforce_checkpoint r cp) (\<lambda>c. Inr (r, c))))"

definition verify_owner_registration ::
    "world \<Rightarrow> bytes \<Rightarrow> external_policy \<Rightarrow> string \<Rightarrow> int \<Rightarrow> int \<Rightarrow> string \<Rightarrow> (string \<times> string) list
       \<Rightarrow> registration_checkpoint option \<Rightarrow> int option \<Rightarrow> (verified_registration \<times> registration_checkpoint) res" where
  "verify_owner_registration env raw policy network netuid block owner registered cp now =
     bindE (check_registration env raw policy network netuid block owner registered now) (\<lambda>g.
     bindE (enforce_registration_checkpoint g cp) (\<lambda>c. Inr (g, c)))"

definition load_best_owner_registration ::
    "world \<Rightarrow> external_policy \<Rightarrow> string \<Rightarrow> int \<Rightarrow> int \<Rightarrow> string \<Rightarrow> (string \<times> string) list
       \<Rightarrow> registration_checkpoint option \<Rightarrow> int option \<Rightarrow> (verified_registration \<times> registration_checkpoint) res" where
  "load_best_owner_registration env policy network netuid block owner registered cp now =
     (case ep_owner policy of
        None \<Rightarrow> raise ''score class does not use owner registration''
      | Some op \<Rightarrow>
          bindE (gather (\<lambda>l. bindE (fetch_report env l) (\<lambda>raw.
              verify_owner_registration env raw policy network netuid block owner registered cp now))
            0 (op_locations op)) (\<lambda>found.
          select_best (\<lambda>v. rg_sequence (fst v)) (\<lambda>v. rg_id (fst v))
            (''no valid owner registration for class '' @ ep_class_id policy @ '': '')
            ''owner registration mirrors expose same-sequence equivocation'' found))"

lemma load_best_report_sound:
  assumes "load_best_report env policy network netuid block cp now = Inr (r, c)"
  shows "\<exists>l \<in> set (ep_locations policy). \<exists>raw. fetch_report env l = Inr raw
    \<and> verify_report env raw policy network netuid block now = Inr r
    \<and> (\<forall>l' \<in> set (ep_locations policy). \<forall>raw' r'. fetch_report env l' = Inr raw' \<longrightarrow>
         verify_report env raw' policy network netuid block now = Inr r' \<longrightarrow>
         vr_epoch r' \<le> vr_epoch r \<and> (vr_epoch r' = vr_epoch r \<longrightarrow> vr_report_id r' = vr_report_id r))
    \<and> sc_epoch c = vr_epoch r \<and> sc_report_id c = vr_report_id r
    \<and> (case cp of None \<Rightarrow> True | Some c0 \<Rightarrow> sc_epoch c0 \<le> vr_epoch r \<and> (vr_epoch r = sc_epoch c0 \<longrightarrow> vr_report_id r = sc_report_id c0))"
proof -
  let ?f = "\<lambda>l. bindE (fetch_report env l) (\<lambda>raw. verify_report env raw policy network netuid block now)"
  from assms obtain vs es where g: "gather ?f 0 (ep_locations policy) = Inr (vs, es)"
    and b: "select_best vr_epoch vr_report_id (''no valid report for class '' @ ep_class_id policy @ '': '')
        ''score report mirrors expose same-epoch equivocation'' (vs, es) = Inr r"
    and c: "enforce_checkpoint r cp = Inr c"
    unfolding load_best_report_def by (auto elim!: bindE_InrE)
  note vs = gather_sound [OF g] and best = select_best_sound [OF b, unfolded fst_conv]
  have from_mirror: "\<exists>l \<in> set (ep_locations policy). \<exists>raw. fetch_report env l = Inr raw
      \<and> verify_report env raw policy network netuid block now = Inr r"
    using best vs by (auto elim!: bindE_InrE)
  have others: "v \<in> set vs" if "l \<in> set (ep_locations policy)" "fetch_report env l = Inr raw"
      "verify_report env raw policy network netuid block now = Inr v" for l raw v
    using that vs by (auto intro!: bexI [of _ l])
  have "case cp of None \<Rightarrow> True | Some c0 \<Rightarrow> sc_epoch c0 \<le> vr_epoch r \<and> (vr_epoch r = sc_epoch c0 \<longrightarrow> vr_report_id r = sc_report_id c0)"
    using report_chain.no_rollback report_chain.no_fork c by (cases cp) auto
  then show ?thesis using from_mirror others best report_chain.stores [OF c] by blast
qed


section \<open>Properties of the checkpoints and the mirrors\<close>

text \<open>C17. No rollback, no equivocation, no missing link: through any run of accepted reports of a
  class, whatever was published in between, epochs never fall, an epoch keeps its report id, and
  the report of the next epoch extends the one before it.\<close>

theorem report_checkpoints_protect:
  assumes "accepted_run enforce_checkpoint cp rs" "i < j" "j < length rs"
  shows "vr_epoch (rs ! i) \<le> vr_epoch (rs ! j)
    \<and> (vr_epoch (rs ! i) = vr_epoch (rs ! j) \<longrightarrow> vr_report_id (rs ! i) = vr_report_id (rs ! j))
    \<and> (j = Suc i \<longrightarrow> vr_epoch (rs ! j) = vr_epoch (rs ! i) + 1 \<longrightarrow> vr_previous (rs ! j) = Some (vr_report_id (rs ! i)))"
  using report_chain.run_consistent [OF assms(1) _ assms(2,3)] report_chain.run_linked [OF assms(1)] assms(3) by simp

definition demo_numbered :: "int \<Rightarrow> string \<Rightarrow> string option \<Rightarrow> verified_report" where
  "demo_numbered n i p = \<lparr>vr_class_id = ''c'', vr_source_id = ''s'', vr_epoch = n, vr_report_id = i, vr_previous = p,
     vr_generated = 0, vr_until = 1, vr_first = 0, vr_last = 1, vr_policy_digest = [], vr_verifier_digest = [],
     vr_key_id = ''k'', vr_entries = [], vr_document = []\<rparr>"

theorem report_checkpoints_protect_witness:
  "accepted_run enforce_checkpoint None [demo_numbered 1 ''a'' None, demo_numbered 1 ''a'' None, demo_numbered 2 ''b'' (Some ''a'')]
   \<and> \<not> accepted_run enforce_checkpoint None [demo_numbered 1 ''a'' None, demo_numbered 1 ''b'' None]
   \<and> vr_previous (demo_numbered 2 ''b'' (Some ''a'')) = Some ''a''"
proof -
  let ?rs = "[demo_numbered 1 ''a'' None, demo_numbered 1 ''a'' None, demo_numbered 2 ''b'' (Some ''a'')]"
  have run: "accepted_run enforce_checkpoint None ?rs" by code_simp
  have fork: "\<not> accepted_run enforce_checkpoint None [demo_numbered 1 ''a'' None, demo_numbered 1 ''b'' None]" by code_simp
  from report_checkpoints_protect [OF run, of 1 2] run fork show ?thesis
    by (simp add: demo_numbered_def numeral_2_eq_2)
qed

text \<open>The same holds of the registrations of one subnet owner: sequence numbers never fall, a
  number keeps its registration, and the next number extends the one before it.\<close>

lemma registration_checkpoints_protect:
  assumes "accepted_run enforce_registration_checkpoint cp gs" "\<forall>g \<in> set gs. rg_owner g = owner" "i < j" "j < length gs"
  shows "rg_sequence (gs ! i) \<le> rg_sequence (gs ! j)
    \<and> (rg_sequence (gs ! i) = rg_sequence (gs ! j) \<longrightarrow> rg_id (gs ! i) = rg_id (gs ! j))
    \<and> (j = Suc i \<longrightarrow> rg_sequence (gs ! j) = rg_sequence (gs ! i) + 1 \<longrightarrow> rg_previous (gs ! j) = Some (rg_id (gs ! i)))"
  using registration_chain.run_consistent [OF assms] registration_chain.run_linked [OF assms(1,2)] assms(4) by simp

definition demo_sequenced :: "int \<Rightarrow> string \<Rightarrow> string option \<Rightarrow> verified_registration" where
  "demo_sequenced n i p = \<lparr>rg_source_netuid = 7, rg_target_netuid = 39, rg_owner = ''owner'', rg_delegate = ''d'',
     rg_source_id = ''s'', rg_class_ids = [''c''], rg_locations = [], rg_keys = [], rg_sequence = n, rg_previous = p,
     rg_id = i, rg_issued = 0, rg_expires = 1, rg_first = 0, rg_last = 1, rg_document = []\<rparr>"

lemma registration_checkpoints_protect_witness:
  "accepted_run enforce_registration_checkpoint None [demo_sequenced 4 ''a'' None, demo_sequenced 5 ''b'' (Some ''a'')]
   \<and> rg_sequence (demo_sequenced 4 ''a'' None) \<le> rg_sequence (demo_sequenced 5 ''b'' (Some ''a''))"
proof -
  let ?gs = "[demo_sequenced 4 ''a'' None, demo_sequenced 5 ''b'' (Some ''a'')]"
  have run: "accepted_run enforce_registration_checkpoint None ?gs" by code_simp
  have "\<forall>g \<in> set ?gs. rg_owner g = ''owner''" by (simp add: demo_sequenced_def)
  from registration_checkpoints_protect [OF run this, of 0 1] run show ?thesis by simp
qed

text \<open>C18. Mirrors cannot lower what is accepted: the loaded report comes from one of the pinned
  locations and passed verification there, no valid mirror has a later epoch, none has another
  report at its epoch, and it agrees with the stored checkpoint.\<close>

theorem best_report_is_newest:
  "load_best_report env policy network netuid block cp now = Inr (r, c) \<Longrightarrow>
   \<exists>l \<in> set (ep_locations policy). \<exists>raw. fetch_report env l = Inr raw
    \<and> verify_report env raw policy network netuid block now = Inr r
    \<and> (\<forall>l' \<in> set (ep_locations policy). \<forall>raw' r'. fetch_report env l' = Inr raw' \<longrightarrow>
         verify_report env raw' policy network netuid block now = Inr r' \<longrightarrow>
         vr_epoch r' \<le> vr_epoch r \<and> (vr_epoch r' = vr_epoch r \<longrightarrow> vr_report_id r' = vr_report_id r))
    \<and> sc_epoch c = vr_epoch r \<and> sc_report_id c = vr_report_id r
    \<and> (case cp of None \<Rightarrow> True | Some c0 \<Rightarrow> sc_epoch c0 \<le> vr_epoch r \<and> (vr_epoch r = sc_epoch c0 \<longrightarrow> vr_report_id r = sc_report_id c0))"
  by (rule load_best_report_sound)

definition demo_mirrors :: world where
  "demo_mirrors = demo_world\<lparr>or_http := (\<lambda>l. Some (None, demo_raw))\<rparr>"

lemma demo_fetch: "fetch_report demo_mirrors ''https://h/r'' = Inr demo_raw"
proof -
  have "urlsplit (\<lambda>_. False) ''https://h/r'' = Inr \<lparr>url_scheme = ''https'', url_netloc = ''h'', url_path = ''/r'',
      url_query = [], url_fragment = []\<rparr>" by code_simp
  moreover have "url_hostname \<lparr>url_scheme = ''https'', url_netloc = ''h'', url_path = ''/r'', url_query = [], url_fragment = []\<rparr> = ''h''"
    "url_username \<lparr>url_scheme = ''https'', url_netloc = ''h'', url_path = ''/r'', url_query = [], url_fragment = []\<rparr> = []"
    "url_password \<lparr>url_scheme = ''https'', url_netloc = ''h'', url_path = ''/r'', url_query = [], url_fragment = []\<rparr> = []"
    by code_simp+
  moreover have "int (length demo_raw) \<le> MAX_REPORT_BYTES" by (rule demo_signed)
  ultimately show ?thesis
    by (simp add: fetch_report_def fetch_remote_def demo_mirrors_def demo_world_def MAX_REPORT_BYTES_def Let_def)
qed

theorem best_report_is_newest_witness:
  "\<exists>r c. load_best_report demo_mirrors (demo_class demo_keys None) ''n'' 39 7 None (Some demo_now) = Inr (r, c)
     \<and> sc_epoch c = vr_epoch r \<and> sc_report_id c = vr_report_id r"
proof -
  have same: "verify_report demo_mirrors = verify_report demo_world"
  proof -
    have "or_ed demo_mirrors = or_ed demo_world" "or_ip demo_mirrors = or_ip demo_world"
      by (simp_all add: demo_mirrors_def)
    then show ?thesis by (intro ext) (simp only: verify_report_def report_proof_def)
  qed
  obtain r where r: "verify_report demo_world demo_raw (demo_class demo_keys None) ''n'' 39 7 (Some demo_now) = Inr r"
    using demo_verified by blast
  have one: "{x. x = r \<and> vr_epoch x = vr_epoch r} = {r}" by auto
  have "load_best_report demo_mirrors (demo_class demo_keys None) ''n'' 39 7 None (Some demo_now)
      = Inr (r, \<lparr>sc_epoch = vr_epoch r, sc_report_id = vr_report_id r\<rparr>)"
    using r by (simp add: load_best_report_def demo_class_def demo_fetch same select_best_def enforce_checkpoint_def Let_def one)
  from best_report_is_newest [OF this] this show ?thesis by blast
qed

end
