(* ===== verification/Py_Decimal.thy ===== *)
theory Py_Decimal
  imports Py_Float
begin

text \<open>
  The decimal arithmetic the code uses: results carry 28 significant digits, rounded half-even
  (the default context of the \<open>decimal\<close> module). The lemmas show that rounding is monotone and
  idempotent, so sums of non-negative decimals dominate their terms.
\<close>

definition round28 :: "rat \<Rightarrow> rat" where
  "round28 r = (if r = 0 then 0
     else let q = pow10 (ilog10 \<bar>r\<bar> - 27) in of_int (round_half_even (r / q)) * q)"

definition d_add :: "rat \<Rightarrow> rat \<Rightarrow> rat" where "d_add a b = round28 (a + b)"
definition d_mul :: "rat \<Rightarrow> rat \<Rightarrow> rat" where "d_mul a b = round28 (a * b)"
definition d_div :: "rat \<Rightarrow> rat \<Rightarrow> rat" where "d_div a b = round28 (a / b)"

definition d_sum :: "rat list \<Rightarrow> rat" where "d_sum xs = foldl d_add 0 xs"

text \<open>\<open>Decimal(str(x))\<close> of a finite float: the shortest decimal that reads back as it.\<close>

definition float_decimal :: "pyfloat \<Rightarrow> rat" where
  "float_decimal x =
     (let v = fval x in
      if v = 0 then 0
      else (case shortest_decimal \<bar>v\<bar> of (m, e) \<Rightarrow> (if v < 0 then -1 else 1) * of_int m * pow10 e))"

section \<open>Powers of ten and the decimal exponent\<close>

lemma pow10_pos [simp]: "0 < pow10 k"
  by (simp add: pow10_def)

lemma pow10_add_nat: "pow10 (k + int n) = pow10 k * 10 ^ n"
proof (cases "0 \<le> k")
  case True
  then show ?thesis by (simp add: pow10_def nat_add_distrib power_add)
next
  case False
  show ?thesis
  proof (cases "0 \<le> k + int n")
    case True
    have "n = nat (k + int n) + nat (- k)" using True False by simp
    then have "(10::rat) ^ n = 10 ^ nat (k + int n) * 10 ^ nat (- k)" by (metis power_add)
    then show ?thesis using True False by (simp add: pow10_def)
  next
    case neg: False
    have "nat (- k) = nat (- (k + int n)) + n" using neg False by simp
    then have "(10::rat) ^ nat (- k) = 10 ^ nat (- (k + int n)) * 10 ^ n" by (metis power_add)
    then show ?thesis using neg False by (simp add: pow10_def field_simps)
  qed
qed

lemma pow10_mono: "j \<le> k \<Longrightarrow> pow10 j \<le> pow10 k"
  using pow10_add_nat [of j "nat (k - j)"] by simp

lemma pow10_multiple: "k \<le> e \<Longrightarrow> \<exists>n::int. pow10 e = of_int n * pow10 k"
  using pow10_add_nat [of k "nat (e - k)"] by (intro exI [of _ "10 ^ nat (e - k)"]) (simp add: mult.commute)

lemma dec_length_bounds: "0 < n \<Longrightarrow> 10 ^ (dec_length n - 1) \<le> n \<and> n < 10 ^ dec_length n \<and> 0 < dec_length n"
proof (induction n rule: dec_length.induct)
  case (1 n)
  have step: "dec_length n = Suc (dec_length (n div 10))" using 1(2) by (subst dec_length.simps) simp
  show ?case
  proof (cases "0 < n div 10")
    case True
    with 1 have ih: "10 ^ (dec_length (n div 10) - 1) \<le> n div 10" "n div 10 < 10 ^ dec_length (n div 10)"
        "0 < dec_length (n div 10)" by auto
    then have "10 ^ dec_length (n div 10) = 10 * (10::int) ^ (dec_length (n div 10) - 1)"
      by (metis Suc_diff_1 power_Suc)
    moreover have "n = 10 * (n div 10) + n mod 10" "0 \<le> n mod 10" "n mod 10 < 10" by simp_all
    ultimately have "10 ^ dec_length (n div 10) \<le> n" using ih(1) by linarith
    moreover have "n < 10 * 10 ^ dec_length (n div 10)"
      using ih(2) \<open>n = 10 * (n div 10) + n mod 10\<close> \<open>n mod 10 < 10\<close> by linarith
    ultimately show ?thesis by (simp add: step)
  next
    case False
    then have "dec_length (n div 10) = 0" by (subst dec_length.simps) simp
    moreover have "n < 10" using False 1(2) by linarith
    ultimately show ?thesis using 1(2) by (simp add: step)
  qed
qed

lemma ilog10_bounds: "0 < r \<Longrightarrow> pow10 (ilog10 r) \<le> r \<and> r < pow10 (ilog10 r + 1)"
proof (cases "1 \<le> r")
  case True
  then have pos: "0 < \<lfloor>r\<rfloor>" by simp
  let ?k = "dec_length \<lfloor>r\<rfloor>"
  note b = dec_length_bounds [OF pos]
  then have "of_int (10 ^ (?k - 1)) \<le> r" "r < of_int (10 ^ ?k)" by (simp_all only: le_floor_iff floor_less_iff)
  moreover have "nat (int ?k - 1) = ?k - 1" by simp
  ultimately show ?thesis using True b by (simp add: ilog10_def pow10_def)
next
  case False
  assume r: "0 < r"
  let ?n = "\<lceil>1 / r\<rceil> - 1" and ?k = "dec_length (\<lceil>1 / r\<rceil> - 1)"
  have "1 < 1 / r" using False r by simp
  then have pos: "0 < ?n" by (simp add: less_ceiling_iff)
  note d = dec_length_bounds [OF pos]
  then have "10 ^ (?k - 1) < \<lceil>1 / r\<rceil>" "\<lceil>1 / r\<rceil> \<le> 10 ^ ?k" by simp_all
  then have "of_int (10 ^ (?k - 1)) < 1 / r" "1 / r \<le> of_int (10 ^ ?k)"
    by (simp_all only: less_ceiling_iff ceiling_le_iff)
  then have b: "r * 10 ^ (?k - 1) < 1" "1 \<le> r * 10 ^ ?k" using r by (simp_all add: field_simps)
  have p: "pow10 (- int ?k) = 1 / 10 ^ ?k" using d by (simp add: pow10_def)
  have "nat (int ?k - 1) = ?k - 1" by simp
  then have q: "pow10 (1 - int ?k) = 1 / 10 ^ (?k - 1)" using d by (cases "?k = 1") (auto simp: pow10_def)
  show ?thesis using False b by (simp add: ilog10_def p q add.commute [of _ "1::int"] field_simps)
qed

lemma ilog10_unique: "pow10 e \<le> r \<Longrightarrow> r < pow10 (e + 1) \<Longrightarrow> ilog10 r = e"
proof -
  assume a: "pow10 e \<le> r" "r < pow10 (e + 1)"
  then have "0 < r" using pow10_pos [of e] by linarith
  from ilog10_bounds [OF this] have b: "pow10 (ilog10 r) \<le> r" "r < pow10 (ilog10 r + 1)" by auto
  show ?thesis
    using pow10_mono [of "ilog10 r + 1" e] pow10_mono [of "e + 1" "ilog10 r"] a b by force
qed

lemma ilog10_mono: "0 < r \<Longrightarrow> r \<le> s \<Longrightarrow> ilog10 r \<le> ilog10 s"
  using ilog10_bounds [of r] ilog10_bounds [of s] pow10_mono [of "ilog10 s + 1" "ilog10 r"] by force

section \<open>Rounding to 28 digits\<close>

definition quantum28 :: "rat \<Rightarrow> rat" where
  "quantum28 r = pow10 (ilog10 r - 27)"

lemma quantum28_pos [simp]: "0 < quantum28 r"
  by (simp add: quantum28_def)

lemma round28_pos: "0 < r \<Longrightarrow> round28 r = of_int (round_half_even (r / quantum28 r)) * quantum28 r"
  by (simp add: round28_def quantum28_def Let_def)

lemma round28_0 [simp]: "round28 0 = 0"
  by (simp add: round28_def)

lemma round28_ge:
  assumes "0 < r" "x \<le> r" "x = of_int n * quantum28 r"
  shows "x \<le> round28 r"
proof -
  have "of_int n \<le> r / quantum28 r" using assms by (simp add: field_simps)
  then have "n \<le> round_half_even (r / quantum28 r)" using rhe_mono rhe_of_int by metis
  then have "of_int n * quantum28 r \<le> of_int (round_half_even (r / quantum28 r)) * quantum28 r" by simp
  then show ?thesis using assms by (simp add: round28_pos)
qed

lemma round28_le:
  assumes "0 < r" "r \<le> x" "x = of_int n * quantum28 r"
  shows "round28 r \<le> x"
proof -
  have "r / quantum28 r \<le> of_int n" using assms by (simp add: field_simps)
  then have "round_half_even (r / quantum28 r) \<le> n" using rhe_mono rhe_of_int by metis
  then have "of_int (round_half_even (r / quantum28 r)) * quantum28 r \<le> of_int n * quantum28 r" by simp
  then show ?thesis using assms by (simp add: round28_pos)
qed

lemma round28_nonneg: "0 \<le> r \<Longrightarrow> 0 \<le> round28 r"
  by (cases "r = 0") (auto intro: round28_ge [of r 0 0])

lemma round28_fixed: "0 < v \<Longrightarrow> v = of_int n * quantum28 v \<Longrightarrow> round28 v = v"
  using round28_ge [of v v n] round28_le [of v v n] by simp

lemma round28_binade:
  assumes "0 < r"
  shows "pow10 (ilog10 r) \<le> round28 r \<and> round28 r \<le> pow10 (ilog10 r + 1)"
proof -
  note b = ilog10_bounds [OF assms]
  obtain n where n: "pow10 (ilog10 r) = of_int n * quantum28 r"
    using pow10_multiple [of "ilog10 r - 27" "ilog10 r"] by (auto simp: quantum28_def)
  obtain m where m: "pow10 (ilog10 r + 1) = of_int m * quantum28 r"
    using pow10_multiple [of "ilog10 r - 27" "ilog10 r + 1"] by (auto simp: quantum28_def)
  show ?thesis using round28_ge [OF assms _ n] round28_le [OF assms _ m] b by simp
qed

lemma round28_mono: "0 \<le> r \<Longrightarrow> r \<le> s \<Longrightarrow> round28 r \<le> round28 s"
proof (cases "r = 0")
  case True
  then show "0 \<le> r \<Longrightarrow> r \<le> s \<Longrightarrow> round28 r \<le> round28 s" by (simp add: round28_nonneg)
next
  case False
  assume "0 \<le> r" and rs: "r \<le> s"
  then have r: "0 < r" "0 < s" using False by auto
  show ?thesis
  proof (cases "ilog10 r = ilog10 s")
    case True
    then have q: "quantum28 r = quantum28 s" by (simp add: quantum28_def)
    have "r / quantum28 s \<le> s / quantum28 s" using rs by (simp add: divide_right_mono less_imp_le)
    then have "round_half_even (r / quantum28 s) \<le> round_half_even (s / quantum28 s)" by (rule rhe_mono)
    then show ?thesis using r by (simp add: round28_pos q)
  next
    case False
    then have "ilog10 r + 1 \<le> ilog10 s" using ilog10_mono [OF r(1) rs] by simp
    then show ?thesis using round28_binade [OF r(1)] round28_binade [OF r(2)] pow10_mono by force
  qed
qed

lemma round28_idem [simp]: "0 \<le> r \<Longrightarrow> round28 (round28 r) = round28 r"
proof (cases "r = 0")
  case False
  assume "0 \<le> r"
  then have r: "0 < r" using False by simp
  let ?e = "ilog10 r" and ?x = "round28 r"
  note b = round28_binade [OF r]
  then have x: "0 < ?x" using pow10_pos [of ?e] by linarith
  show ?thesis
  proof (cases "?x < pow10 (?e + 1)")
    case True
    then have "ilog10 ?x = ?e" using b by (intro ilog10_unique) auto
    then have "quantum28 ?x = quantum28 r" by (simp add: quantum28_def)
    then show ?thesis using round28_fixed [OF x] round28_pos [OF r] by metis
  next
    case False
    then have eq: "?x = pow10 (?e + 1)" using b by simp
    have "ilog10 ?x = ?e + 1" unfolding eq using pow10_add_nat [of "?e + 1" 1] by (intro ilog10_unique) auto
    then obtain n where "?x = of_int n * quantum28 ?x"
      using pow10_multiple [of "?e + 1 - 27" "?e + 1"] eq by (auto simp: quantum28_def)
    then show ?thesis by (rule round28_fixed [OF x])
  qed
qed simp

lemma round28_1 [simp]: "round28 1 = 1"
proof (rule round28_fixed)
  have "ilog10 1 = 0" by (rule ilog10_unique) (simp_all add: pow10_def)
  then show "1 = of_int (10 ^ 27) * quantum28 1" by (simp add: quantum28_def pow10_def)
qed simp

section \<open>Sums of non-negative decimals\<close>

text \<open>The values the arithmetic produces: non-negative with at most 28 digits.\<close>

definition dec28 :: "rat \<Rightarrow> bool" where
  "dec28 v = (0 \<le> v \<and> round28 v = v)"

lemma dec28_0 [simp]: "dec28 0" by (simp add: dec28_def)

lemma dec28_round: "0 \<le> r \<Longrightarrow> dec28 (round28 r)"
  by (simp add: dec28_def round28_nonneg)

lemma d_add_ok: "dec28 a \<Longrightarrow> dec28 b \<Longrightarrow> dec28 (d_add a b) \<and> a \<le> d_add a b \<and> b \<le> d_add a b"
  using round28_mono [of a "a + b"] round28_mono [of b "a + b"] by (auto simp: dec28_def d_add_def round28_nonneg)

lemma d_sum_ok:
  assumes "\<forall>v \<in> set vs. dec28 v"
  shows "dec28 (d_sum vs) \<and> (\<forall>v \<in> set vs. v \<le> d_sum vs)"
proof -
  have "dec28 (foldl d_add a vs) \<and> a \<le> foldl d_add a vs \<and> (\<forall>v \<in> set vs. v \<le> foldl d_add a vs)" if "dec28 a" for a
    using assms that
  proof (induction vs arbitrary: a)
    case (Cons v vs)
    have "dec28 v" using Cons.prems(1) by simp
    note s = d_add_ok [OF Cons.prems(2) this]
    have "dec28 (foldl d_add (d_add a v) vs) \<and> d_add a v \<le> foldl d_add (d_add a v) vs
        \<and> (\<forall>w \<in> set vs. w \<le> foldl d_add (d_add a v) vs)"
      using Cons.IH [of "d_add a v"] Cons.prems(1) s by simp
    then show ?case using s by auto
  qed simp
  from this [of 0] show ?thesis by (simp add: d_sum_def)
qed

lemma d_mul_ok: "0 \<le> a \<Longrightarrow> 0 \<le> b \<Longrightarrow> dec28 (d_mul a b)"
  by (simp add: d_mul_def dec28_round)

lemma d_div_unit: "dec28 v \<Longrightarrow> v \<le> t \<Longrightarrow> 0 < t \<Longrightarrow> 0 \<le> d_div v t \<and> d_div v t \<le> 1"
  using round28_mono [of "v / t" 1] by (simp add: d_div_def dec28_def round28_nonneg)

lemma rhe_nonneg: "0 \<le> x \<Longrightarrow> 0 \<le> round_half_even x"
  using rhe_mono [of 0 x] rhe_of_int [of 0] by simp

lemma float_decimal_nonneg: "0 \<le> fval x \<Longrightarrow> 0 \<le> float_decimal x"
proof -
  assume x: "0 \<le> fval x"
  have "0 \<le> fst (nearest_decimal \<bar>v\<bar> n)" for v n by (simp add: nearest_decimal_def Let_def rhe_nonneg less_imp_le)
  then have "0 \<le> fst (shortest_decimal \<bar>fval x\<bar>)" unfolding shortest_decimal_def by (auto split: option.splits)
  then show ?thesis using x by (cases "shortest_decimal \<bar>fval x\<bar>") (auto simp: float_decimal_def Let_def less_imp_le)
qed

end
