(* ===== verification/Score_Decide.thy ===== *)
theory Score_Decide
  imports Score_Mirror Py_Decimal
begin

text \<open>
  \<open>cathedral_thin/score_classes.py\<close>, from verified artifacts to weights: the score an entry is
  assigned, the decision of one class, the composition of the classes by their allocations, the
  decision record and the store it is written to.
\<close>

section \<open>The score of an entry\<close>

definition capped :: "assignment_policy \<Rightarrow> rat \<Rightarrow> rat" where
  "capped a v =
     (let w = (case ap_cap a of None \<Rightarrow> v | Some c \<Rightarrow> min v (dec_val c)) in
      if ap_transform a = ''binary'' then (if w > 0 then 1 else 0) else w)"

definition assigned_value :: "score_entry \<Rightarrow> assignment_policy \<Rightarrow> dec res" where
  "assigned_value e a =
     (if ap_mode a = ''metric'' then
        (case ap_metric a of
           None \<Rightarrow> raise (''entry '' @ se_hotkey e @ '' lacks assigned metric None'')
         | Some metric \<Rightarrow>
             (case map_of (se_metrics e) metric of
                None \<Rightarrow> raise (''entry '' @ se_hotkey e @ '' lacks assigned metric '' @ metric)
              | Some v \<Rightarrow> Inr v))
      else
        (case se_asserted e of
           None \<Rightarrow> raise (''entry '' @ se_hotkey e @ '' lacks asserted_score'')
         | Some v \<Rightarrow> Inr v))"

definition assignment_score :: "score_entry \<Rightarrow> assignment_policy \<Rightarrow> pyfloat res" where
  "assignment_score e a =
     bindE (assigned_value e a) (\<lambda>v.
     let score = mk_float False (capped a (dec_val v)) in
     guardE (\<not> isfinite score \<or> f_less score (Fin 0)) ''assigned score is non-finite or negative'' (Inr score))"

section \<open>The decision of a class\<close>

record class_decision =
  cd_class_id :: string
  cd_kind :: string
  cd_allocation :: string
  cd_source_id :: "string option"
  cd_epoch :: "int option"
  cd_report_id :: "string option"
  cd_assignment :: jdict
  cd_raw :: score_map
  cd_weights :: score_map
  cd_provenance :: jdict

definition opt_json :: "string option \<Rightarrow> json" where
  "opt_json v = (case v of None \<Rightarrow> JNull | Some s \<Rightarrow> JStr s)"

definition opt_dec_json :: "dec option \<Rightarrow> json" where
  "opt_dec_json v = (case v of None \<Rightarrow> JNull | Some d \<Rightarrow> JStr (dec_str d))"

definition strings_json :: "string list \<Rightarrow> json" where
  "strings_json xs = JArr (map JStr xs)"

definition evidence_json :: "evidence_ref \<Rightarrow> json" where
  "evidence_json v = JObj [(''kind'', JStr (ev_kind v)), (''id'', JStr (ev_id v)), (''digest'', JStr (ev_digest v)),
     (''uri'', opt_json (ev_uri v))]"

definition entry_provenance :: "score_entry \<Rightarrow> json" where
  "entry_provenance e = JObj
     [(''metrics'', JObj (map (\<lambda>(k, v). (k, JStr (dec_str v))) (sort_items (se_metrics e)))),
      (''asserted_score'', opt_dec_json (se_asserted e)), (''reason_codes'', strings_json (se_reasons e)),
      (''evidence'', JArr (map evidence_json (se_evidence e)))]"

definition check_entry :: "external_policy \<Rightarrow> score_entry \<Rightarrow> pyfloat \<Rightarrow> 'a res \<Rightarrow> 'a res" where
  "check_entry policy e score k =
     (let a = ep_assignment policy; positive = f_less (Fin 0) score in
      guardE (positive \<and> ep_require_evidence policy \<and> se_evidence e = [])
        (''positive score for '' @ se_hotkey e @ '' lacks required evidence'')
      (guardE (positive \<and> \<not> set (ap_reasons a) \<subseteq> set (se_reasons e))
        (''positive score for '' @ se_hotkey e @ '' lacks validator-required reasons'')
      (guardE (positive \<and> \<not> set (ap_kinds a) \<subseteq> ev_kind ` set (se_evidence e))
        (''positive score for '' @ se_hotkey e @ '' lacks validator-required evidence kinds'') k)))"

definition score_step ::
    "external_policy \<Rightarrow> (string \<times> string) list \<Rightarrow> score_map \<times> jdict \<Rightarrow> score_entry \<Rightarrow> (score_map \<times> jdict) res" where
  "score_step policy coldkey_of acc e =
     bindE (assignment_score e (ep_assignment policy)) (\<lambda>score.
     check_entry policy e score
       (Inr (if se_hotkey e \<notin> fst ` set coldkey_of then acc
             else (dict_set (se_hotkey e) score (fst acc),
                   dict_set (se_hotkey e) (entry_provenance e) (snd acc)))))"

definition registration_json :: "verified_registration option \<Rightarrow> json" where
  "registration_json g =
     (case g of
        None \<Rightarrow> JNull
      | Some g \<Rightarrow> JObj
          [(''schema'', JStr ''cathedral_owner_score_registration_v1''), (''source_netuid'', JInt (rg_source_netuid g)),
           (''target_netuid'', JInt (rg_target_netuid g)), (''owner_coldkey'', JStr (rg_owner g)),
           (''delegate_hotkey'', JStr (rg_delegate g)), (''sequence'', JInt (rg_sequence g)),
           (''registration_id'', JStr (rg_id g)), (''valid_from_block'', JInt (rg_first g)),
           (''valid_until_block'', JInt (rg_last g))])"

definition assignment_json :: "external_policy \<Rightarrow> verified_report \<Rightarrow> verified_registration option \<Rightarrow> jdict" where
  "assignment_json policy r g =
     (let a = ep_assignment policy in
      [(''mode'', JStr (ap_mode a)), (''metric'', opt_json (ap_metric a)), (''transform'', JStr (ap_transform a)),
       (''cap'', opt_dec_json (ap_cap a)), (''require_evidence'', JBool (ep_require_evidence policy)),
       (''policy_digest'', JStr (vr_policy_digest r)), (''verifier_digest'', JStr (vr_verifier_digest r)),
       (''signing_key_id'', JStr (vr_key_id r)), (''required_reason_codes'', strings_json (ap_reasons a)),
       (''required_evidence_kinds'', strings_json (ap_kinds a)), (''owner_registration'', registration_json g)])"

definition external_class_decision ::
    "external_policy \<Rightarrow> verified_report \<Rightarrow> (string \<times> string) list \<Rightarrow> verified_registration option \<Rightarrow> class_decision res" where
  "external_class_decision policy r coldkey_of g =
     bindE (foldE (score_step policy coldkey_of) ([], []) (vr_entries r)) (\<lambda>(raw, provenance).
     bindE (coldkey_collapsed_weights raw coldkey_of) (\<lambda>normalized.
     guardE (normalized = []) (''configured class '' @ ep_class_id policy @ '' has no positive scores'')
       (Inr \<lparr>cd_class_id = ep_class_id policy, cd_kind = ''external'', cd_allocation = dec_str (ep_allocation policy),
          cd_source_id = Some (ep_source_id policy), cd_epoch = Some (vr_epoch r), cd_report_id = Some (vr_report_id r),
          cd_assignment = assignment_json policy r g, cd_raw = raw, cd_weights = normalized,
          cd_provenance = provenance\<rparr>)))"

definition local_class_decision ::
    "string \<Rightarrow> dec \<Rightarrow> score_map \<Rightarrow> (string \<times> string) list \<Rightarrow> (string \<times> string) list \<Rightarrow> class_decision res" where
  "local_class_decision class_id allocation raw coldkey_of reasons =
     bindE (coldkey_collapsed_weights raw coldkey_of) (\<lambda>normalized.
       Inr \<lparr>cd_class_id = class_id, cd_kind = ''local_sat'', cd_allocation = dec_str allocation,
          cd_source_id = None, cd_epoch = None, cd_report_id = None,
          cd_assignment = [(''mode'', JStr ''validator_local_sat_v1'')],
          cd_raw = sort_items raw, cd_weights = normalized,
          cd_provenance = map (\<lambda>(h, _). (h, JObj [(''reason_codes'',
            JArr [JStr (case map_of reasons h of None \<Rightarrow> ''missing_result'' | Some s \<Rightarrow> s)])])) (sort_items raw)\<rparr>)"

section \<open>Composing the classes\<close>

text \<open>The tolerance \<open>Decimal("0.000000001")\<close>. A non-finite weight is reported as not normalized.\<close>

definition near_one :: "rat \<Rightarrow> bool" where
  "near_one t = (\<bar>round28 (t - 1)\<bar> \<le> 1 / 1000000000)"

definition credit :: "string \<Rightarrow> rat \<Rightarrow> (string \<times> rat) list \<Rightarrow> (string \<times> rat) list" where
  "credit hotkey v m = dict_set hotkey (d_add (case map_of m hotkey of None \<Rightarrow> 0 | Some x \<Rightarrow> x) v) m"

definition credit_class ::
    "string option \<Rightarrow> rat \<Rightarrow> (string \<times> rat) list \<Rightarrow> score_map \<Rightarrow> (string \<times> rat) list res" where
  "credit_class burn allocation m weights =
     (case weights of
        [] \<Rightarrow>
          (case burn of
             None \<Rightarrow> raise ''class weights are not normalized''
           | Some b \<Rightarrow> Inr (credit b allocation m))
      | _ \<Rightarrow>
          guardE (\<not> list_all (\<lambda>kv. isfinite (snd kv)) weights
              \<or> \<not> near_one (d_sum (map (\<lambda>kv. float_decimal (snd kv)) weights))) ''class weights are not normalized''
          (foldE (\<lambda>m (hotkey, w).
             guardE (burn = Some hotkey) ''burn hotkey cannot earn validated supply''
               (Inr (credit hotkey (d_mul allocation (float_decimal w)) m))) m weights))"

definition compose_step ::
    "string option \<Rightarrow> (string \<times> class_decision) list \<Rightarrow> (string \<times> rat) list \<Rightarrow> class_policy \<Rightarrow> (string \<times> rat) list res" where
  "compose_step burn by_id m c =
     (case map_of by_id (cp_class_id c) of
        None \<Rightarrow> Inl PyKeyError
      | Some d \<Rightarrow>
          guardE (cd_kind d \<noteq> cp_kind c) ''class decision kind mismatch''
            (credit_class burn (dec_val (cp_allocation c)) m (cd_weights d)))"

definition compose_class_decisions :: "score_policy \<Rightarrow> class_decision list \<Rightarrow> score_map res" where
  "compose_class_decisions p ds =
     (let by_id = dict_of_pairs (map (\<lambda>d. (cd_class_id d, d)) ds) in
      guardE (length by_id \<noteq> length ds \<or> fst ` set by_id \<noteq> cp_class_id ` set (sp_classes p))
        ''class decisions do not cover the configured policy''
      (if sp_burn p = None \<and> ds \<noteq> [] \<and> list_all (\<lambda>d. cd_weights d = []) ds then Inr []
       else
         bindE (foldE (compose_step (sp_burn p) by_id) [] (sp_classes p)) (\<lambda>m.
         let all = d_sum (map snd m) in
         guardE (\<not> near_one all) ''composed class weights do not conserve allocation''
           (Inr (map (\<lambda>(hotkey, v). (hotkey, mk_float False (d_div v all)))
              (filter (\<lambda>(_, v). v > 0) (sort_items m)))))))"

section \<open>The decision record\<close>

definition scores_json :: "score_map \<Rightarrow> json" where
  "scores_json m = JObj (map (\<lambda>(k, v). (k, JFloat v)) m)"

definition decision_json :: "class_decision \<Rightarrow> json" where
  "decision_json d = JObj
     [(''class_id'', JStr (cd_class_id d)), (''kind'', JStr (cd_kind d)), (''allocation'', JStr (cd_allocation d)),
      (''source_id'', opt_json (cd_source_id d)),
      (''source_epoch'', case cd_epoch d of None \<Rightarrow> JNull | Some n \<Rightarrow> JInt n),
      (''report_id'', opt_json (cd_report_id d)), (''assignment'', JObj (cd_assignment d)),
      (''raw_scores'', scores_json (cd_raw d)), (''normalized_weights'', scores_json (cd_weights d)),
      (''provenance'', JObj (cd_provenance d))]"

definition decision_digest_of :: "jdict \<Rightarrow> string" where
  "decision_digest_of d = prefixed_digest ''cathedral-weight-decision-v1'' (canonical_json d)"

text \<open>\<open>sorted(peers, key=lambda item: int(item["uid"]))\<close>.\<close>

definition sorted_peers :: "jdict list \<Rightarrow> json list res" where
  "sorted_peers peers =
     bindE (mapE (\<lambda>p. bindE (jitem p ''uid'') (\<lambda>v. bindE (py_to_int v) (\<lambda>u. Inr (u, JObj p)))) peers) (\<lambda>ps.
       Inr (map snd (sort_key fst ps)))"

definition decision_document ::
    "string \<Rightarrow> string \<Rightarrow> int \<Rightarrow> int \<Rightarrow> int \<Rightarrow> string \<Rightarrow> class_decision list \<Rightarrow> jdict list \<Rightarrow> int list \<Rightarrow> pyfloat list
       \<Rightarrow> (jdict \<times> string) res" where
  "decision_document validator_hotkey network netuid round_id block policy_digest ds peers uids weights =
     guardE (length uids \<noteq> length weights \<or> \<not> distinct uids) ''decision UID vector must be aligned and unique''
     (guardE (\<exists>(uid, w) \<in> set (zip uids weights). uid < 0 \<or> \<not> isfinite w \<or> f_less w (Fin 0))
       ''decision UID vector is invalid''
     (bindE (sorted_peers peers) (\<lambda>metagraph.
        let document =
          [(''schema'', JStr ''cathedral_weight_decision_v1''), (''validator_hotkey'', JStr validator_hotkey),
           (''network'', JStr network), (''netuid'', JInt netuid), (''round'', JInt round_id), (''block'', JInt block),
           (''score_policy_digest'', JStr policy_digest), (''classes'', JArr (map decision_json ds)),
           (''metagraph'', JArr metagraph),
           (''onchain_vector'', JArr (map (\<lambda>(uid, w). JObj [(''uid'', JInt uid), (''weight'', JFloat (f_round w 12))])
              (zip uids weights)))];
          digest = decision_digest_of document
        in Inr (dict_set ''decision_digest'' (JStr digest) document, digest))))"

section \<open>The decision store\<close>

text \<open>The directory maps file names to contents. A fault is the step at which the file system raises
  an OSError; the temporary file never survives the call.\<close>

type_synonym decision_dir = "(string \<times> bytes) list"

datatype write_fault = WriteOk | FailMkdir | FailRead | FailWrite | FailReplace

definition decision_path :: "int \<Rightarrow> string \<Rightarrow> string" where
  "decision_path round_id digest =
     ''round-'' @ int_str round_id @ ''-'' @ removeprefix digest ''sha256:'' @ ''.json''"

definition write_decision :: "write_fault \<Rightarrow> decision_dir \<Rightarrow> jdict \<Rightarrow> decision_dir \<times> string res" where
  "write_decision fault dir document =
     (case jget document ''decision_digest'' of
        JStr digest \<Rightarrow>
          if \<not> digest_text digest then (dir, raise ''decision record lacks a valid digest'')
          else if digest \<noteq> decision_digest_of (without [''decision_digest''] document)
          then (dir, raise ''decision record digest mismatch'')
          else if \<not> nat_field (jget document ''round'') then (dir, raise ''decision record round is invalid'')
          else if fault = FailMkdir then (dir, raise ''could not create decision directory'')
          else
            (let path = decision_path (int_field (jget document ''round'')) digest;
                 raw = canonical_json document @ [10] in
             case map_of dir path of
               Some existing \<Rightarrow>
                 if fault = FailRead then (dir, raise ''could not read existing decision record'')
                 else if existing \<noteq> raw then (dir, raise ''decision record path already contains different bytes'')
                 else (dir, Inr path)
             | None \<Rightarrow>
                 if fault \<in> {FailWrite, FailReplace} then (dir, raise ''could not persist decision record'')
                 else (dict_set path raw dir, Inr path))
      | _ \<Rightarrow> (dir, raise ''decision record lacks a valid digest''))"


section \<open>What a class decision is worth\<close>

lemma check_entry_InrE:
  "check_entry policy e score k = Inr y \<Longrightarrow>
     (f_less (Fin 0) score \<longrightarrow> (ep_require_evidence policy \<longrightarrow> se_evidence e \<noteq> [])
        \<and> set (ap_reasons (ep_assignment policy)) \<subseteq> set (se_reasons e)
        \<and> set (ap_kinds (ep_assignment policy)) \<subseteq> ev_kind ` set (se_evidence e)) \<and> k = Inr y"
  by (auto simp: check_entry_def Let_def elim!: guardE_InrE)

text \<open>An entry that may earn: it has its assigned score and, for a positive one, the required evidence.\<close>

definition supported :: "external_policy \<Rightarrow> score_entry \<Rightarrow> pyfloat \<Rightarrow> bool" where
  "supported policy e score =
     (assignment_score e (ep_assignment policy) = Inr score \<and> (f_less (Fin 0) score \<longrightarrow>
        (ep_require_evidence policy \<longrightarrow> se_evidence e \<noteq> [])
        \<and> set (ap_reasons (ep_assignment policy)) \<subseteq> set (se_reasons e)
        \<and> set (ap_kinds (ep_assignment policy)) \<subseteq> ev_kind ` set (se_evidence e)))"

definition raw_ok :: "external_policy \<Rightarrow> verified_report \<Rightarrow> (string \<times> string) list \<Rightarrow> score_map \<Rightarrow> bool" where
  "raw_ok policy r coldkey_of raw =
     (\<forall>(h, s) \<in> set raw. h \<in> fst ` set coldkey_of \<and> float_ok s
        \<and> (\<exists>e \<in> set (vr_entries r). se_hotkey e = h \<and> supported policy e s))"

lemma score_step_ok:
  assumes step: "score_step policy coldkey_of acc e = Inr acc'" and ok: "raw_ok policy r coldkey_of (fst acc)"
    and e: "e \<in> set (vr_entries r)"
  shows "raw_ok policy r coldkey_of (fst acc')"
proof -
  obtain s where s: "assignment_score e (ep_assignment policy) = Inr s"
    and k: "check_entry policy e s (Inr (if se_hotkey e \<notin> fst ` set coldkey_of then acc
             else (dict_set (se_hotkey e) s (fst acc), dict_set (se_hotkey e) (entry_provenance e) (snd acc)))) = Inr acc'"
    using step unfolding score_step_def by (auto elim!: bindE_InrE)
  note c = check_entry_InrE [OF k]
  have sup: "supported policy e s" using s c by (simp add: supported_def)
  have "float_ok s" using s by (auto simp: assignment_score_def Let_def mk_float_ok elim!: bindE_InrE guardE_InrE)
  then show ?thesis using c ok sup e set_dict_set [of "se_hotkey e" s "fst acc"]
    by (cases "se_hotkey e \<in> fst ` set coldkey_of") (auto simp: raw_ok_def)
qed

lemma score_fold_ok:
  assumes "foldE (score_step policy coldkey_of) acc es = Inr acc'" "raw_ok policy r coldkey_of (fst acc)"
    and "set es \<subseteq> set (vr_entries r)"
  shows "raw_ok policy r coldkey_of (fst acc')"
  using assms
proof (induction es arbitrary: acc)
  case (Cons e es)
  then obtain acc1 where a: "score_step policy coldkey_of acc e = Inr acc1"
      "foldE (score_step policy coldkey_of) acc1 es = Inr acc'" by (auto elim!: bindE_InrE)
  show ?case using Cons.IH [OF a(2) score_step_ok [OF a(1)]] Cons.prems by simp
qed simp

lemma external_decision_ok:
  assumes "external_class_decision policy r coldkey_of g = Inr d"
  shows "raw_ok policy r coldkey_of (cd_raw d) \<and> cd_weights d \<noteq> [] \<and> cd_kind d = ''external''
    \<and> cd_class_id d = ep_class_id policy
    \<and> (\<forall>(h, w) \<in> set (cd_weights d). unit_float w \<and> (\<exists>s. (h, s) \<in> set (cd_raw d) \<and> 0 < fval s))"
proof -
  obtain raw prov where fold: "foldE (score_step policy coldkey_of) ([], []) (vr_entries r) = Inr (raw, prov)"
    and w: "coldkey_collapsed_weights raw coldkey_of = Inr (cd_weights d)" "cd_weights d \<noteq> []"
    and d: "cd_raw d = raw" "cd_kind d = ''external''" "cd_class_id d = ep_class_id policy"
    using assms unfolding external_class_decision_def by (auto elim!: bindE_InrE guardE_InrE)
  have raw: "raw_ok policy r coldkey_of raw"
    using score_fold_ok [OF fold] by (simp add: raw_ok_def)
  then have ok: "\<forall>v \<in> snd ` set raw. float_ok v" by (auto simp: raw_ok_def)
  obtain gs where "collect_groups raw coldkey_of = Inr gs"
    using w(1) by (auto simp: coldkey_collapsed_weights_def elim!: bindE_InrE)
  from collapsed_weights_ok [OF this ok] w(1)
  have "\<forall>hw \<in> set (cd_weights d). weight_from raw hw" by simp
  then have "\<forall>(h, v) \<in> set (cd_weights d). unit_float v \<and> (\<exists>s. (h, s) \<in> set raw \<and> 0 < fval s)"
    unfolding weight_from_def case_prod_unfold by simp
  then show ?thesis using raw w(2) d by simp
qed

section \<open>What the composition guarantees\<close>

definition pot_ok :: "string option \<Rightarrow> class_decision list \<Rightarrow> (string \<times> rat) list \<Rightarrow> bool" where
  "pot_ok burn ds m =
     (distinct (map fst m) \<and> (\<forall>(h, v) \<in> set m. dec28 v \<and> (burn = Some h \<or> (\<exists>d \<in> set ds. h \<in> fst ` set (cd_weights d)))))"

lemma credit_ok:
  assumes "pot_ok burn ds m" "0 \<le> v" "burn = Some h \<or> (\<exists>d \<in> set ds. h \<in> fst ` set (cd_weights d))"
  shows "pot_ok burn ds (credit h v m)"
proof -
  let ?x = "case map_of m h of None \<Rightarrow> 0 | Some x \<Rightarrow> x"
  have "0 \<le> ?x" using assms(1) by (auto simp: pot_ok_def dec28_def dest!: map_of_SomeD split: option.splits)
  then have x: "dec28 (d_add ?x v)" using assms(2) by (simp add: d_add_def dec28_round)
  have "dec28 v' \<and> (burn = Some h' \<or> (\<exists>d \<in> set ds. h' \<in> fst ` set (cd_weights d)))"
    if "(h', v') \<in> set (dict_set h (d_add ?x v) m)" for h' v'
  proof (cases "(h', v') \<in> set m")
    case True
    then show ?thesis using assms(1) by (auto simp: pot_ok_def)
  next
    case False
    then have "h' = h" "v' = d_add ?x v" using that set_dict_set [of h "d_add ?x v" m] by auto
    then show ?thesis using x assms(3) by simp
  qed
  moreover have "distinct (map fst (dict_set h (d_add ?x v) m))" using assms(1) by (simp add: pot_ok_def)
  ultimately show ?thesis by (auto simp: pot_ok_def credit_def)
qed

lemma credit_class_ok:
  assumes step: "credit_class burn a m ws = Inr m'" and ok: "pot_ok burn ds m" "0 \<le> a"
    and d: "d \<in> set ds" "cd_weights d = ws" "\<forall>(h, w) \<in> set ws. 0 \<le> fval w"
  shows "pot_ok burn ds m' \<and> (\<forall>b. burn = Some b \<longrightarrow> b \<notin> fst ` set ws)"
proof (cases ws)
  case Nil
  then show ?thesis using step ok credit_ok by (auto simp: credit_class_def split: option.splits)
next
  case (Cons w0 rest)
  let ?f = "\<lambda>m (hotkey, w). guardE (burn = Some hotkey) ''burn hotkey cannot earn validated supply''
               (Inr (credit hotkey (d_mul a (float_decimal w)) m))"
  have fold: "foldE ?f m ws = Inr m'" using step by (auto simp: credit_class_def Cons elim!: guardE_InrE)
  have "pot_ok burn ds m' \<and> (\<forall>b. burn = Some b \<longrightarrow> b \<notin> fst ` set xs)"
    if "foldE ?f m xs = Inr m'" "set xs \<subseteq> set ws" "pot_ok burn ds m" for xs m
    using that
  proof (induction xs arbitrary: m)
    case (Cons x xs)
    obtain h w where x: "x = (h, w)" by (cases x)
    obtain m1 where m1: "m1 = credit h (d_mul a (float_decimal w)) m" "foldE ?f m1 xs = Inr m'" "burn \<noteq> Some h"
      using Cons.prems(1) by (auto simp: x elim!: bindE_InrE guardE_InrE)
    have hw: "(h, w) \<in> set ws" using Cons.prems(2) by (simp add: x)
    then have "0 \<le> d_mul a (float_decimal w)"
      using d_mul_ok [OF ok(2) float_decimal_nonneg] d(3) by (auto simp: dec28_def)
    moreover have "h \<in> fst ` set (cd_weights d)" using hw d(2) by force
    ultimately have "pot_ok burn ds m1" unfolding m1(1) using credit_ok [OF Cons.prems(3)] d(1) by blast
    then show ?case using Cons.IH [OF m1(2)] Cons.prems(2) m1(3) by (auto simp: x)
  qed simp
  from this [OF fold _ ok(1)] show ?thesis by simp
qed

lemma compose_fold_ok:
  assumes "foldE (compose_step burn by_id) m cs = Inr m'" "pot_ok burn ds m"
    and by_id: "\<forall>(i, d) \<in> set by_id. d \<in> set ds"
    and cs: "\<forall>c \<in> set cs. 0 \<le> dec_val (cp_allocation c)"
    and ds: "\<forall>d \<in> set ds. \<forall>(h, w) \<in> set (cd_weights d). 0 \<le> fval w"
  shows "pot_ok burn ds m' \<and> (\<forall>b. burn = Some b \<longrightarrow>
    (\<forall>c \<in> set cs. \<forall>d. map_of by_id (cp_class_id c) = Some d \<longrightarrow> b \<notin> fst ` set (cd_weights d)))"
  using assms(1,2) cs
proof (induction cs arbitrary: m)
  case (Cons c cs)
  obtain m1 where m1: "compose_step burn by_id m c = Inr m1" "foldE (compose_step burn by_id) m1 cs = Inr m'"
    using Cons.prems(1) by (auto elim!: bindE_InrE)
  obtain d where d: "map_of by_id (cp_class_id c) = Some d"
      "credit_class burn (dec_val (cp_allocation c)) m (cd_weights d) = Inr m1"
    using m1(1) by (auto simp: compose_step_def split: option.splits elim!: guardE_InrE)
  have mem: "d \<in> set ds" using by_id map_of_SomeD [OF d(1)] by auto
  have "pot_ok burn ds m1 \<and> (\<forall>b. burn = Some b \<longrightarrow> b \<notin> fst ` set (cd_weights d))"
    using credit_class_ok [OF d(2) Cons.prems(2) _ mem refl] Cons.prems(3) ds mem by simp
  then show ?case using Cons.IH [OF m1(2)] Cons.prems(3) d(1) by auto
qed simp

lemma compose_ok:
  assumes "compose_class_decisions p ds = Inr out"
    and cs: "\<forall>c \<in> set (sp_classes p). 0 \<le> dec_val (cp_allocation c)"
    and nn: "\<forall>d \<in> set ds. \<forall>(h, w) \<in> set (cd_weights d). 0 \<le> fval w"
  shows "sorted (map fst out) \<and> distinct (map fst out) \<and> (\<forall>(h, w) \<in> set out. unit_float w
    \<and> (sp_burn p = Some h \<or> (\<exists>d \<in> set ds. h \<in> fst ` set (cd_weights d))))"
proof -
  let ?by = "dict_of_pairs (map (\<lambda>d. (cd_class_id d, d)) ds)"
  show ?thesis
  proof (cases "sp_burn p = None \<and> ds \<noteq> [] \<and> list_all (\<lambda>d. cd_weights d = []) ds")
    case True
    then have "out = []" using assms(1) by (auto simp: compose_class_decisions_def Let_def elim!: guardE_InrE)
    then show ?thesis by simp
  next
    case False
    then obtain m where m: "foldE (compose_step (sp_burn p) ?by) [] (sp_classes p) = Inr m"
      and near: "near_one (d_sum (map snd m))"
      and out: "out = map (\<lambda>(hotkey, v). (hotkey, mk_float False (d_div v (d_sum (map snd m)))))
              (filter (\<lambda>(_, v). v > 0) (sort_items m))"
      using assms(1) unfolding compose_class_decisions_def Let_def by (auto elim!: guardE_InrE bindE_InrE)
    have by_id: "\<forall>(i, d) \<in> set ?by. d \<in> set ds"
    proof -
      have "set (foldl (\<lambda>d (k, v). dict_set k v d) acc kvs) \<subseteq> set acc \<union> set kvs" for acc kvs :: "(string \<times> class_decision) list"
      proof (induction kvs arbitrary: acc)
        case (Cons kv kvs)
        obtain k v where kv: "kv = (k, v)" by (cases kv)
        show ?case using Cons.IH [of "dict_set k v acc"] set_dict_set [of k v acc] by (auto simp: kv)
      qed simp
      from this [of "[]"] show ?thesis by (fastforce simp: dict_of_pairs_def)
    qed
    have pot: "pot_ok (sp_burn p) ds m"
      using compose_fold_ok [OF m _ by_id cs nn] by (simp add: pot_ok_def)
    let ?t = "d_sum (map snd m)"
    have sum: "dec28 ?t" "\<And>h v. (h, v) \<in> set m \<Longrightarrow> v \<le> ?t \<and> dec28 v"
      using d_sum_ok [of "map snd m"] pot by (force simp: pot_ok_def)+
    have unit: "unit_float (mk_float False (d_div v ?t))" if "(h, v) \<in> set m" "0 < v" for h v
    proof -
      have "0 \<le> d_div v ?t" "d_div v ?t \<le> 1" using d_div_unit [of v ?t] sum(2) [OF that(1)] that(2) by auto
      then have r: "0 \<le> fl_rat (d_div v ?t)" "fl_rat (d_div v ?t) \<le> 1"
        using fl_rat_nonneg fl_rat_le_1 by auto
      then have "isfinite (mk_float False (d_div v ?t))" by (intro mk_float_finite) simp
      then show ?thesis using r mk_float_fval mk_float_ok by (simp add: unit_float_def)
    qed
    have keys: "map fst out = map fst (filter (\<lambda>(_, v). v > 0) (sort_items m))"
      by (simp add: out comp_def case_prod_beta)
    have "distinct (map fst (sort_items m))" "sorted (map fst (sort_items m))"
      using pot by (simp_all add: pot_ok_def) (simp add: sort_items_def)
    then have "sorted (map fst out) \<and> distinct (map fst out)"
      unfolding keys by (simp add: distinct_map_filter sorted_filter)
    moreover have "unit_float w \<and> (sp_burn p = Some h \<or> (\<exists>d \<in> set ds. h \<in> fst ` set (cd_weights d)))"
      if "(h, w) \<in> set out" for h w
      using that unit pot by (fastforce simp: out pot_ok_def)
    ultimately show ?thesis by blast
  qed
qed


section \<open>The store is write-once\<close>

lemma write_decision_ok:
  assumes "write_decision fault dir document = (dir', out)"
  shows "(\<forall>path c. map_of dir path = Some c \<longrightarrow> map_of dir' path = Some c)
    \<and> (case out of
         Inl e \<Rightarrow> dir' = dir
       | Inr path \<Rightarrow> map_of dir' path = Some (canonical_json document @ [10])
           \<and> jget document ''decision_digest'' = JStr (decision_digest_of (without [''decision_digest''] document)))"
proof (cases "jget document ''decision_digest''")
  case (JStr digest)
  let ?path = "decision_path (int_field (jget document ''round'')) digest"
  show ?thesis
    using assms unfolding write_decision_def JStr json.case Let_def
    by (cases "map_of dir ?path") (auto split: if_splits)
qed (use assms in \<open>auto simp: write_decision_def\<close>)

lemma decision_document_shape:
  assumes "decision_document vh network netuid rnd block pd ds peers uids ws = Inr (document, digest)"
  shows "jget document ''decision_digest'' = JStr digest \<and> digest = decision_digest_of (without [''decision_digest''] document)
    \<and> digest_text digest \<and> jget document ''round'' = JInt rnd"
proof -
  let ?doc = "\<lambda>metagraph. [(''schema'', JStr ''cathedral_weight_decision_v1''), (''validator_hotkey'', JStr vh),
           (''network'', JStr network), (''netuid'', JInt netuid), (''round'', JInt rnd), (''block'', JInt block),
           (''score_policy_digest'', JStr pd), (''classes'', JArr (map decision_json ds)),
           (''metagraph'', JArr metagraph),
           (''onchain_vector'', JArr (map (\<lambda>(uid, w). JObj [(''uid'', JInt uid), (''weight'', JFloat (f_round w 12))])
              (zip uids ws)))]"
  obtain metagraph where doc: "document = dict_set ''decision_digest'' (JStr digest) (?doc metagraph)"
    and dig: "digest = decision_digest_of (?doc metagraph)"
    using assms unfolding decision_document_def Let_def by (elim guardE_InrE bindE_InrE) blast
  let ?body = "?doc metagraph"
  have "without [''decision_digest''] document = without [''decision_digest''] ?body"
    unfolding doc by (rule without_dict_set) simp
  also have "without [''decision_digest''] ?body = ?body" by (rule without_other) simp
  finally have body: "without [''decision_digest''] document = ?body" .
  have "digest_text digest" unfolding dig decision_digest_of_def prefixed_digest_def by (rule digest_text_sha)
  moreover have "jget document ''decision_digest'' = JStr digest" unfolding doc jget_dict_set by simp
  moreover have "jget document ''round'' = JInt rnd" unfolding doc jget_dict_set by (simp add: jget_def)
  ultimately show ?thesis using dig unfolding body by blast
qed

lemma decision_document_writable:
  assumes "decision_document vh network netuid rnd block pd ds peers uids ws = Inr (document, digest)" "0 \<le> rnd"
    and "map_of dir (decision_path rnd digest) = None"
  shows "write_decision WriteOk dir document
    = (dict_set (decision_path rnd digest) (canonical_json document @ [10]) dir, Inr (decision_path rnd digest))"
  using decision_document_shape [OF assms(1)] assms(2,3)
  by (auto simp add: write_decision_def Let_def nat_field_def int_field_def)

section \<open>Properties of decisions\<close>

text \<open>C19. An external class pays only for evidence: every raw score belongs to a hotkey registered on
  this subnet and is the assigned score of an entry of the verified report, a positive one with
  the evidence, reasons and evidence kinds the validator requires; every weight lies in the unit
  interval and belongs to a positive raw score.\<close>

theorem external_decision_needs_evidence:
  "external_class_decision policy r coldkey_of g = Inr d \<Longrightarrow>
     raw_ok policy r coldkey_of (cd_raw d) \<and> cd_weights d \<noteq> [] \<and> cd_kind d = ''external''
     \<and> cd_class_id d = ep_class_id policy
     \<and> (\<forall>(h, w) \<in> set (cd_weights d). unit_float w \<and> (\<exists>s. (h, s) \<in> set (cd_raw d) \<and> 0 < fval s))"
  by (rule external_decision_ok)

lemma demo_entry_score: "assignment_score (hd demo_entries) demo_assignment = Inr (Fin 1)"
  by (simp add: demo_entries_def assignment_score_def assigned_value_def demo_assignment_def capped_def dec_val_def mk_float_1
    Let_def f_less_def)

lemma demo_collapse: "coldkey_collapsed_weights [(''m'', Fin 1)] [(''m'', ''k'')] = Inr [(''m'', Fin 1)]"
  by (simp add: coldkey_collapsed_weights_def collect_groups_def sort_items_def f_less_def group_add_def
    group_budget_def group_weights_def f_sum_def f_add_def f_div_def f_mul_def f_le_def mk_float_1 Let_def is_neg_def
    is_inf_def f_eq_def)

lemma demo_decision:
  assumes "vr_entries r = demo_entries"
  shows "\<exists>d. external_class_decision (demo_class keys None) r [(''m'', ''k'')] None = Inr d
    \<and> cd_weights d = [(''m'', Fin 1)] \<and> cd_class_id d = ''c'' \<and> cd_kind d = ''external''"
proof -
  have e: "demo_entries = [hd demo_entries]" "se_hotkey (hd demo_entries) = ''m''" by (simp_all add: demo_entries_def)
  have "score_step (demo_class keys None) [(''m'', ''k'')] ([], []) (hd demo_entries)
      = Inr ([(''m'', Fin 1)], [(''m'', entry_provenance (hd demo_entries))])"
    using demo_entry_score e(2) by (simp add: score_step_def check_entry_def demo_class_def demo_assignment_def Let_def)
  then have "foldE (score_step (demo_class keys None) [(''m'', ''k'')]) ([], []) (vr_entries r)
      = Inr ([(''m'', Fin 1)], [(''m'', entry_provenance (hd demo_entries))])"
    unfolding assms by (subst e(1)) simp
  then show ?thesis by (simp add: external_class_decision_def demo_collapse demo_class_def)
qed

theorem external_decision_needs_evidence_witness:
  "\<exists>d. external_class_decision (demo_class demo_keys None) ((demo_numbered 1 ''a'' None)\<lparr>vr_entries := demo_entries\<rparr>)
       [(''m'', ''k'')] None = Inr d \<and> cd_weights d = [(''m'', Fin 1)]
     \<and> raw_ok (demo_class demo_keys None) ((demo_numbered 1 ''a'' None)\<lparr>vr_entries := demo_entries\<rparr>) [(''m'', ''k'')] (cd_raw d)"
  using demo_decision [of "(demo_numbered 1 ''a'' None)\<lparr>vr_entries := demo_entries\<rparr>" demo_keys]
    external_decision_needs_evidence by fastforce

text \<open>Composition stays inside the policy: with allocations and class weights non-negative, the
  composed vector lists distinct hotkeys in order, every weight lies in the unit interval, and
  only the burn destination or a hotkey weighted by some class receives one.\<close>

lemma composed_weights_bounded:
  "compose_class_decisions p ds = Inr out \<Longrightarrow>
   \<forall>c \<in> set (sp_classes p). 0 \<le> dec_val (cp_allocation c) \<Longrightarrow>
   \<forall>d \<in> set ds. \<forall>(h, w) \<in> set (cd_weights d). 0 \<le> fval w \<Longrightarrow>
   sorted (map fst out) \<and> distinct (map fst out) \<and> (\<forall>(h, w) \<in> set out. unit_float w
     \<and> (sp_burn p = Some h \<or> (\<exists>d \<in> set ds. h \<in> fst ` set (cd_weights d))))"
  by (rule compose_ok)

definition demo_policy :: score_policy where
  "demo_policy = \<lparr>sp_network = ''n'', sp_netuid = 39, sp_classes = [ExternalClass (demo_class demo_keys None)],
     sp_digest = [], sp_burn = None\<rparr>"

lemma float_decimal_1: "float_decimal (Fin 1) = 1"
proof -
  have "ilog10 1 = 0" by (rule ilog10_unique) (simp_all add: pow10_def)
  then have "nearest_decimal 1 1 = (1, 0)" using rhe_of_int [of 1] by (simp add: nearest_decimal_def pow10_def Let_def)
  moreover have "[1::nat..<17] = 1 # [2..<17]" by (simp add: upt_rec)
  ultimately have "shortest_decimal 1 = (1, 0)" by (simp add: shortest_decimal_def pow10_def)
  then show ?thesis by (simp add: float_decimal_def pow10_def)
qed

lemma demo_compose:
  assumes "cd_weights d = [(''m'', Fin 1)]" "cd_class_id d = ''c''" "cd_kind d = ''external''"
  shows "compose_class_decisions demo_policy [d] = Inr [(''m'', Fin 1)]"
proof -
  have one: "d_sum [1] = 1" "d_mul 1 1 = 1" "d_add 0 1 = 1" "d_div 1 1 = 1" "near_one 1" "dec_val (1, 0) = 1"
    by (simp_all add: d_sum_def d_add_def d_mul_def d_div_def near_one_def dec_val_def)
  show ?thesis
    by (simp add: compose_class_decisions_def demo_policy_def dict_of_pairs_def assms demo_class_def compose_step_def
      credit_class_def float_decimal_1 one credit_def Let_def sort_items_def mk_float_1)
qed

lemma composed_weights_bounded_witness:
  "\<exists>d. compose_class_decisions demo_policy [d] = Inr [(''m'', Fin 1)] \<and> unit_float (Fin 1)"
proof -
  obtain d :: class_decision where d: "cd_weights d = [(''m'', Fin 1)]" "cd_class_id d = ''c''" "cd_kind d = ''external''"
    using demo_decision [of "(demo_numbered 1 ''a'' None)\<lparr>vr_entries := demo_entries\<rparr>" demo_keys] by auto
  have "\<forall>c \<in> set (sp_classes demo_policy). 0 \<le> dec_val (cp_allocation c)"
    by (simp add: demo_policy_def demo_class_def dec_val_def)
  from composed_weights_bounded [OF demo_compose [OF d] this] d show ?thesis using demo_compose [OF d] by auto
qed

text \<open>C20. The decision record is write-once: no call changes the bytes of an existing record,
  whatever the file system does; a call that returns a path leaves there exactly the canonical
  record, whose digest covers its body, and a call that raises leaves the directory as it was.\<close>

theorem decision_store_write_once:
  "write_decision fault dir document = (dir', out) \<Longrightarrow>
     (\<forall>path c. map_of dir path = Some c \<longrightarrow> map_of dir' path = Some c)
     \<and> (case out of
          Inl e \<Rightarrow> dir' = dir
        | Inr path \<Rightarrow> map_of dir' path = Some (canonical_json document @ [10])
            \<and> jget document ''decision_digest'' = JStr (decision_digest_of (without [''decision_digest''] document)))"
  by (rule write_decision_ok)

theorem decision_store_write_once_witness:
  "\<exists>document digest. decision_document ''v'' ''n'' 39 4 100 ''p'' [] [[(''uid'', JInt 0)]] [0] [Fin 1] = Inr (document, digest)
     \<and> map_of (fst (write_decision WriteOk [] document)) (decision_path 4 digest) = Some (canonical_json document @ [10])"
proof -
  have "\<exists>document digest. decision_document ''v'' ''n'' 39 4 100 ''p'' [] [[(''uid'', JInt 0)]] [0] [Fin 1] = Inr (document, digest)"
    by (simp add: decision_document_def sorted_peers_def jitem_def py_to_int_def f_less_def Let_def)
  then obtain document digest where d: "decision_document ''v'' ''n'' 39 4 100 ''p'' [] [[(''uid'', JInt 0)]] [0] [Fin 1] = Inr (document, digest)"
    by blast
  note w = decision_document_writable [OF d, of "[]", simplified]
  from decision_store_write_once [OF w] d w show ?thesis by auto
qed

end
