(* ===== verification/Validator_Round.thy ===== *)
theory Validator_Round
  imports Core_State Score_Decide
begin

text \<open>
  \<open>cathedral_thin/validator.py\<close>, one round seen from the network side: the configuration and its
  fingerprint, the metagraph snapshot, the evaluation of every peer, and the vector of UIDs a map
  of weights becomes. The clock, the transport and the SDK's weight processing are parameters.
  The lemmas show that a snapshot is a bijection between UIDs and hotkeys, that a positive score
  is only given to work the validator checked, and what a final vector looks like.
\<close>

section \<open>Configuration\<close>

record validator_config =
  vc_network :: string
  vc_netuid :: int
  vc_hotkey :: string
  vc_n_vars :: int
  vc_n_clauses :: int
  vc_timeout :: pyfloat
  vc_reference :: pyfloat
  vc_share :: pyfloat
  vc_alpha :: pyfloat
  vc_concurrency :: int
  vc_round_blocks :: int
  vc_policy_digest :: "string option"

definition fingerprint :: "validator_config \<Rightarrow> string" where
  "fingerprint c = config_fingerprint
     [(''protocol'', JInt 1), (''network'', JStr (vc_network c)), (''netuid'', JInt (vc_netuid c)),
      (''validator_hotkey'', JStr (vc_hotkey c)), (''n_vars'', JInt (vc_n_vars c)),
      (''n_clauses'', JInt (vc_n_clauses c)), (''timeout_secs'', JFloat (vc_timeout c)),
      (''reference_ms'', JFloat (vc_reference c)), (''correctness_share'', JFloat (vc_share c)),
      (''ema_alpha'', JFloat (vc_alpha c)), (''round_blocks'', JInt (vc_round_blocks c)),
      (''score_policy_digest'', opt_str (vc_policy_digest c))]"

section \<open>The metagraph snapshot\<close>

text \<open>The attributes the code reads; None is an attribute that is absent or None.\<close>

record axon =
  ax_port :: "int option"
  ax_serving :: "bool option"

record metagraph =
  mg_uids :: "int list"
  mg_hotkeys :: "string list"
  mg_coldkeys :: "string list option"
  mg_axons :: "axon list"

record peer =
  pr_uid :: int
  pr_hotkey :: string
  pr_coldkey :: string
  pr_axon :: axon
  pr_serviceable :: bool

definition axon_serviceable :: "axon \<Rightarrow> bool" where
  "axon_serviceable a =
     (let port = (case ax_port a of None \<Rightarrow> 0 | Some n \<Rightarrow> n) in
      (case ax_serving a of None \<Rightarrow> port > 0 | Some b \<Rightarrow> b) \<and> port > 0)"

definition snapshot_peers :: "metagraph \<Rightarrow> peer list res" where
  "snapshot_peers mg =
     (case mg_coldkeys mg of
        None \<Rightarrow> raise ''metagraph lacks coldkeys; Sybil collapse cannot run''
      | Some coldkeys \<Rightarrow>
          guardE (\<not> (length (mg_uids mg) = length (mg_hotkeys mg) \<and> length (mg_hotkeys mg) = length coldkeys
              \<and> length coldkeys = length (mg_axons mg))) ''metagraph arrays have inconsistent lengths''
          (guardE (\<not> distinct (mg_uids mg) \<or> \<not> distinct (mg_hotkeys mg)) ''metagraph contains duplicate UID or hotkey''
            (Inr (map (\<lambda>(uid, hotkey, coldkey, axon).
                 \<lparr>pr_uid = uid, pr_hotkey = hotkey, pr_coldkey = coldkey, pr_axon = axon,
                  pr_serviceable = axon_serviceable axon\<rparr>)
               (zip (mg_uids mg) (zip (mg_hotkeys mg) (zip coldkeys (mg_axons mg))))))))"

definition coldkeys_of :: "peer list \<Rightarrow> (string \<times> string) list" where
  "coldkeys_of peers = dict_of_pairs (map (\<lambda>p. (pr_hotkey p, pr_coldkey p)) peers)"

section \<open>Evaluating a peer\<close>

record round_result =
  rr_hotkey :: string
  rr_score :: pyfloat
  rr_reason :: string
  rr_observed :: pyfloat
  rr_reported :: pyfloat

text \<open>The attributes of a response object that the code reads. \<open>wi_status\<close> is None when there is
  no \<open>dendrite\<close>, and the status code otherwise (null when it is missing).\<close>

record wire_response =
  wi_status :: "json option"
  wi_hotkey :: "string option"
  wi_elapsed :: json
  wi_error :: json
  wi_challenge_id :: string
  wi_miner_hotkey :: string
  wi_assignment :: string

datatype query_reply = QRaised string | QOne "wire_response option" | QMany "wire_response option list"

text \<open>What the validator reads from its clocks around one query.\<close>

record query_clock =
  qc_issued :: int
  qc_started :: pyfloat
  qc_ended :: pyfloat
  qc_received :: int

record round_env =
  re_mac :: prf_fun
  re_zlib :: "bytes \<Rightarrow> bytes"
  re_clock :: "string \<Rightarrow> query_clock"
  re_query :: "peer \<Rightarrow> challenge \<Rightarrow> pyfloat \<Rightarrow> query_reply"

definition remote_hotkey :: "wire_response \<Rightarrow> string" where
  "remote_hotkey w = (case wi_hotkey w of None \<Rightarrow> [] | Some h \<Rightarrow> h)"

definition response_status_ok :: "wire_response \<Rightarrow> bool res" where
  "response_status_ok w =
     (case wi_status w of
        None \<Rightarrow> Inr False
      | Some status \<Rightarrow>
          (case py_to_int status of
             Inr n \<Rightarrow> Inr (n = 200)
           | Inl e \<Rightarrow> if e = PyTypeError \<or> e = PyValueError then Inr False else Inl e))"

text \<open>\<open>float(getattr(response, "miner_elapsed_ms", 0.0) or 0.0)\<close>.\<close>

definition reported_ms :: "wire_response \<Rightarrow> pyfloat res" where
  "reported_ms w = (if truthy (wi_elapsed w) then py_to_float (wi_elapsed w) else Inr (Fin 0))"

definition observed_ms :: "query_clock \<Rightarrow> pyfloat" where
  "observed_ms t = f_mul (f_sub (qc_ended t) (qc_started t)) (Fin 1000)"

definition reply_response :: "query_reply \<Rightarrow> wire_response option" where
  "reply_response q = (case q of QOne w \<Rightarrow> w | QMany ws \<Rightarrow> (case ws of [] \<Rightarrow> None | w # _ \<Rightarrow> w) | QRaised _ \<Rightarrow> None)"

definition judge_response :: "validator_config \<Rightarrow> peer \<Rightarrow> query_clock \<Rightarrow> challenge \<Rightarrow> cnf \<Rightarrow> wire_response \<Rightarrow> round_result res" where
  "judge_response cfg p t ch c w =
     (let result = (\<lambda>score reason reported. \<lparr>rr_hotkey = pr_hotkey p, rr_score = score, rr_reason = reason,
            rr_observed = observed_ms t, rr_reported = reported\<rparr>) in
      bindE (response_status_ok w) (\<lambda>status_ok.
      if \<not> status_ok then Inr (result (Fin 0) ''transport_status'' (Fin 0))
      else if remote_hotkey w \<noteq> pr_hotkey p then Inr (result (Fin 0) ''axon_identity_mismatch'' (Fin 0))
      else
        bindE (reported_ms w) (\<lambda>reported.
        if truthy (wi_error w) then Inr (result (Fin 0) ''miner_error'' reported)
        else
          bindE (grade_response ch c (wi_challenge_id w) (wi_miner_hotkey w) (wi_assignment w) (observed_ms t)
              (qc_received t) (vc_reference cfg) (vc_share cfg)) (\<lambda>(score, reason).
            Inr (result score reason reported)))))"

definition judge_reply :: "validator_config \<Rightarrow> peer \<Rightarrow> query_clock \<Rightarrow> challenge \<Rightarrow> cnf \<Rightarrow> query_reply \<Rightarrow> round_result res" where
  "judge_reply cfg p t ch c q =
     (let zero = (\<lambda>reason. \<lparr>rr_hotkey = pr_hotkey p, rr_score = Fin 0, rr_reason = reason,
            rr_observed = observed_ms t, rr_reported = Fin 0\<rparr>) in
      case q of
        QRaised kind \<Rightarrow> Inr (zero (''transport:'' @ kind))
      | _ \<Rightarrow>
          (case reply_response q of
             None \<Rightarrow> Inr (zero ''empty_response'')
           | Some w \<Rightarrow> judge_response cfg p t ch c w))"

text \<open>The challenge of a peer. The generator works in memory: the \<open>OSError\<close> of the handler has no
  counterpart in the model.\<close>

definition peer_challenge ::
    "round_env \<Rightarrow> validator_state \<Rightarrow> validator_config \<Rightarrow> int \<Rightarrow> peer \<Rightarrow> (challenge \<times> cnf) comp" where
  "peer_challenge env st cfg round_id p =
     bindO (Some (master_secret st)) (\<lambda>secret.
     bindO (Some (float_to_int (f_mul (vc_timeout cfg) (Fin 1000)))) (\<lambda>ttl.
       build_challenge (re_mac env) (re_zlib env) secret (vc_netuid cfg) (vc_hotkey cfg) (pr_hotkey p) round_id
         (qc_issued (re_clock env (pr_hotkey p))) ttl (vc_n_vars cfg) (vc_n_clauses cfg) 0))"

definition evaluate_one ::
    "round_env \<Rightarrow> validator_state \<Rightarrow> validator_config \<Rightarrow> int \<Rightarrow> peer \<Rightarrow> round_result comp" where
  "evaluate_one env st cfg round_id p =
     (let unmeasured = (\<lambda>reason. returnO \<lparr>rr_hotkey = pr_hotkey p, rr_score = Fin 0, rr_reason = reason,
            rr_observed = Fin 0, rr_reported = Fin 0\<rparr>) in
      if \<not> pr_serviceable p then unmeasured ''axon_unavailable''
      else
        (case peer_challenge env st cfg round_id p of
           None \<Rightarrow> None
         | Some (Inl (ThinSubnetError msg)) \<Rightarrow> unmeasured (''challenge_generation:'' @ msg)
         | Some (Inl e) \<Rightarrow> Some (Inl e)
         | Some (Inr (ch, c)) \<Rightarrow>
             Some (judge_reply cfg p (re_clock env (pr_hotkey p)) ch c (re_query env p ch (vc_timeout cfg)))))"

fun mapO :: "('x \<Rightarrow> 'y comp) \<Rightarrow> 'x list \<Rightarrow> 'y list comp" where
  "mapO f [] = returnO []"
| "mapO f (x # xs) = bindO (f x) (\<lambda>y. bindO (mapO f xs) (\<lambda>ys. returnO (y # ys)))"

text \<open>\<open>asyncio.gather\<close> of the peers: the tasks share no state, so their order does not matter; when
  several raise, the first in list order stands for the first in time.\<close>

definition evaluate_peers ::
    "round_env \<Rightarrow> peer list \<Rightarrow> validator_state \<Rightarrow> validator_config \<Rightarrow> int \<Rightarrow> (string \<times> round_result) list comp" where
  "evaluate_peers env peers st cfg round_id =
     bindO (mapO (evaluate_one env st cfg round_id) peers) (\<lambda>results.
       returnO (dict_of_pairs (map (\<lambda>r. (rr_hotkey r, r)) results)))"

section \<open>The vector of UIDs\<close>

text \<open>The list comprehension, then \<open>pairs.sort()\<close>: by UID, and by value between equal UIDs.\<close>

definition vector_step ::
    "(string \<times> int) list \<Rightarrow> (int \<times> pyfloat) list \<Rightarrow> string \<times> pyfloat \<Rightarrow> (int \<times> pyfloat) list res" where
  "vector_step uid_of ps hw =
     (case map_of uid_of (fst hw) of
        None \<Rightarrow> Inr ps
      | Some uid \<Rightarrow>
          guardE (\<not> isfinite (snd hw) \<or> f_less (snd hw) (Fin 0)) ''non-finite or negative final weight''
            (Inr (if f_less (Fin 0) (snd hw) then ps @ [(uid, snd hw)] else ps)))"

definition sort_pairs :: "(int \<times> pyfloat) list \<Rightarrow> (int \<times> pyfloat) list" where
  "sort_pairs ps = sort_key fst (sort_key (\<lambda>p. fval (snd p)) ps)"

definition uid_vector :: "score_map \<Rightarrow> peer list \<Rightarrow> (int list \<times> pyfloat list) res" where
  "uid_vector weights_by_hotkey peers =
     bindE (foldE (vector_step (dict_of_pairs (map (\<lambda>p. (pr_hotkey p, pr_uid p)) peers))) [] weights_by_hotkey) (\<lambda>raw.
     let pairs = sort_pairs raw in
     if pairs = [] then Inr ([], [])
     else
       let total_weight = f_sum (map snd pairs) in
       guardE (\<not> isfinite total_weight \<or> f_le total_weight (Fin 0)) ''final weight total is not positive''
         (bindE (mapE (\<lambda>(_, w). f_div w total_weight) pairs) (\<lambda>weights. Inr (map fst pairs, weights))))"

section \<open>The chain's constraints\<close>

text \<open>What the chain and the SDK answer: the minimum number of weights, the largest weight, and
  \<open>process_weights_for_netuid\<close> (after numpy's conversion of its arguments).\<close>

record chain_limits =
  cl_min_allowed :: "int res"
  cl_max_limit :: "pyfloat res"
  cl_process :: "int list \<Rightarrow> pyfloat list \<Rightarrow> (int list \<times> pyfloat list) res"

definition prepare_weights :: "chain_limits \<Rightarrow> int list \<Rightarrow> pyfloat list \<Rightarrow> (int list \<times> pyfloat list) res" where
  "prepare_weights lims uids weights =
     (let positive_count = int (length (filter (f_less (Fin 0)) weights)) in
      bindE (cl_min_allowed lims) (\<lambda>min_allowed.
      bindE (cl_max_limit lims) (\<lambda>max_limit.
      guardE (positive_count < min_allowed)
        (''verified weight count '' @ int_str positive_count @ '' is below chain minimum '' @ int_str min_allowed)
      (guardE (f_le max_limit (Fin 0) \<or> f_less (Fin 1) max_limit)
        (''invalid chain max_weight_limit '' @ float_str max_limit)
      (bindE (f_of_int positive_count) (\<lambda>n.
       guardE (f_less (f_mul n max_limit) (f_sub (Fin 1) (mk_float False (1 / 10 ^ 9))))
         (int_str positive_count @ '' positive weights cannot satisfy max_weight_limit '' @ float_str max_limit)
         (cl_process lims uids weights)))))))"

section \<open>Facts about a snapshot\<close>

lemma map_zip4:
  assumes "length us = length hs" "length hs = length cs" "length cs = length xs"
  shows "map (\<lambda>(u, h, c, x). u) (zip us (zip hs (zip cs xs))) = us"
    "map (\<lambda>(u, h, c, x). h) (zip us (zip hs (zip cs xs))) = hs"
  using assms by (induction us hs cs xs rule: list_induct4) auto

lemma snapshot_sound:
  assumes "snapshot_peers mg = Inr peers"
  shows "map pr_uid peers = mg_uids mg" "map pr_hotkey peers = mg_hotkeys mg"
    "distinct (map pr_uid peers)" "distinct (map pr_hotkey peers)"
proof -
  obtain cs where "length (mg_uids mg) = length (mg_hotkeys mg)" "length (mg_hotkeys mg) = length cs"
    "length cs = length (mg_axons mg)" and d: "distinct (mg_uids mg)" "distinct (mg_hotkeys mg)"
    and p: "peers = map (\<lambda>(uid, hotkey, coldkey, axon).
                 \<lparr>pr_uid = uid, pr_hotkey = hotkey, pr_coldkey = coldkey, pr_axon = axon,
                  pr_serviceable = axon_serviceable axon\<rparr>)
               (zip (mg_uids mg) (zip (mg_hotkeys mg) (zip cs (mg_axons mg))))"
    using assms by (auto simp: snapshot_peers_def guardE_eq_Inr split: option.splits)
  note z = map_zip4 [OF this(1-3)]
  show u: "map pr_uid peers = mg_uids mg" using z(1) by (simp add: p case_prod_unfold comp_def)
  show h: "map pr_hotkey peers = mg_hotkeys mg" using z(2) by (simp add: p case_prod_unfold comp_def)
  show "distinct (map pr_uid peers)" "distinct (map pr_hotkey peers)" using d u h by simp_all
qed

lemma map_of_peers:
  assumes "distinct (map pr_hotkey peers)"
  shows "map_of (dict_of_pairs (map (\<lambda>p. (pr_hotkey p, f p)) peers)) h = Some v \<longleftrightarrow> (\<exists>p \<in> set peers. pr_hotkey p = h \<and> f p = v)"
proof -
  have "dict_of_pairs (map (\<lambda>p. (pr_hotkey p, f p)) peers) = map (\<lambda>p. (pr_hotkey p, f p)) peers"
    using assms by (intro dict_of_pairs_distinct) (simp add: comp_def)
  moreover have "map_of (map (\<lambda>p. (pr_hotkey p, f p)) peers) h = Some v \<longleftrightarrow> (\<exists>p \<in> set peers. pr_hotkey p = h \<and> f p = v)"
    using assms by (induction peers) (force simp: image_iff)+
  ultimately show ?thesis by simp
qed

section \<open>Facts about the vector\<close>

definition kept :: "(string \<times> int) list \<Rightarrow> score_map \<Rightarrow> (int \<times> pyfloat) list" where
  "kept uid_of ws = map (\<lambda>(h, w). (the (map_of uid_of h), w))
     (filter (\<lambda>(h, w). map_of uid_of h \<noteq> None \<and> f_less (Fin 0) w) ws)"

lemma vector_fold:
  "foldE (vector_step uid_of) acc ws = Inr raw \<Longrightarrow>
     raw = acc @ kept uid_of ws \<and> (\<forall>(h, w) \<in> set ws. map_of uid_of h \<noteq> None \<longrightarrow> isfinite w \<and> \<not> f_less w (Fin 0))"
proof (induction ws arbitrary: acc)
  case (Cons hw ws)
  obtain h w where hw: "hw = (h, w)" by (cases hw)
  from Cons.prems obtain acc' where a: "vector_step uid_of acc (h, w) = Inr acc'" "foldE (vector_step uid_of) acc' ws = Inr raw"
    by (auto simp: hw elim!: bindE_InrE)
  from a(1) have "acc' = acc @ kept uid_of [(h, w)] \<and> (map_of uid_of h \<noteq> None \<longrightarrow> isfinite w \<and> \<not> f_less w (Fin 0))"
    by (auto simp: vector_step_def kept_def guardE_eq_Inr split: option.splits if_splits)
  then show ?case using Cons.IH [OF a(2)] by (auto simp: hw kept_def)
qed (simp add: kept_def)

lemma sort_pairs_sorted: "sorted (map fst (sort_pairs ps))"
  by (simp add: sort_pairs_def)

lemma mset_sort_pairs [simp]: "mset (sort_pairs ps) = mset ps"
  by (simp add: sort_pairs_def)

lemma set_sort_pairs [simp]: "set (sort_pairs ps) = set ps"
  by (metis mset_sort_pairs set_mset_mset)

lemma distinct_sort_pairs: "distinct (map fst ps) \<Longrightarrow> distinct (map fst (sort_pairs ps))"
  by (metis mset_map mset_sort_pairs mset_eq_imp_distinct_iff)

lemma kept_simps [simp]:
  "kept d [] = []"
  "kept d ((h, w) # ws) = (if map_of d h \<noteq> None \<and> f_less (Fin 0) w then [(the (map_of d h), w)] else []) @ kept d ws"
  by (simp_all add: kept_def)

lemma kept_iff: "(u, w) \<in> set (kept d ws) \<longleftrightarrow> (\<exists>h. (h, w) \<in> set ws \<and> map_of d h = Some u \<and> f_less (Fin 0) w)"
proof (induction ws)
  case (Cons hw ws)
  then show ?case by (cases hw) force
qed simp

lemma kept_member:
  assumes "distinct (map pr_hotkey peers)"
  shows "(u, w) \<in> set (kept (dict_of_pairs (map (\<lambda>p. (pr_hotkey p, pr_uid p)) peers)) ws) \<longleftrightarrow>
    (\<exists>p \<in> set peers. pr_uid p = u \<and> (pr_hotkey p, w) \<in> set ws \<and> f_less (Fin 0) w)"
  unfolding kept_iff map_of_peers [OF assms] by blast

lemma kept_distinct:
  assumes "distinct (map fst ws)" and inj: "\<And>h h' u. map_of d h = Some u \<Longrightarrow> map_of d h' = Some u \<Longrightarrow> h = h'"
  shows "distinct (map fst (kept d ws))"
  using assms(1)
proof (induction ws)
  case (Cons hw ws)
  obtain h w where hw: "hw = (h, w)" by (cases hw)
  have "u \<notin> fst ` set (kept d ws)" if u: "map_of d h = Some u" for u
  proof
    assume "u \<in> fst ` set (kept d ws)"
    then obtain w' where "(u, w') \<in> set (kept d ws)" by auto
    then obtain h' where h': "(h', w') \<in> set ws" "map_of d h' = Some u" unfolding kept_iff by blast
    then have "h' = h" using inj u by blast
    then show False using h'(1) Cons.prems by (force simp: hw)
  qed
  then show ?case using Cons by (auto simp: hw)
qed simp

text \<open>The heart of \<open>uid_vector\<close>: the sorted kept pairs, each divided by their sum.\<close>

lemma uid_vector_cases:
  assumes "uid_vector ws peers = Inr (uids, vs)"
  defines "ps \<equiv> sort_pairs (kept (dict_of_pairs (map (\<lambda>p. (pr_hotkey p, pr_uid p)) peers)) ws)"
  shows "uids = map fst ps \<and> mapE (\<lambda>(_, w). f_div w (f_sum (map snd ps))) ps = Inr vs \<and>
    (ps \<noteq> [] \<longrightarrow> isfinite (f_sum (map snd ps)) \<and> \<not> f_le (f_sum (map snd ps)) (Fin 0)) \<and>
    (\<forall>(u, w) \<in> set ps. isfinite w \<and> f_less (Fin 0) w)"
proof -
  let ?d = "dict_of_pairs (map (\<lambda>p. (pr_hotkey p, pr_uid p)) peers)"
  obtain raw where raw: "foldE (vector_step ?d) [] ws = Inr raw"
    and k: "(let pairs = sort_pairs raw in if pairs = [] then Inr ([], []) else
       let total_weight = f_sum (map snd pairs) in
       guardE (\<not> isfinite total_weight \<or> f_le total_weight (Fin 0)) ''final weight total is not positive''
         (bindE (mapE (\<lambda>(_, w). f_div w total_weight) pairs) (\<lambda>weights. Inr (map fst pairs, weights)))) = Inr (uids, vs)"
    using assms(1) unfolding uid_vector_def by (rule bindE_InrE)
  have r: "raw = kept ?d ws" "\<forall>(h, w) \<in> set ws. map_of ?d h \<noteq> None \<longrightarrow> isfinite w \<and> \<not> f_less w (Fin 0)"
    using vector_fold [OF raw] by auto
  have "\<forall>(u, w) \<in> set (kept ?d ws). isfinite w \<and> f_less (Fin 0) w" using r(2) by (auto simp: kept_def)
  moreover have "sort_pairs raw = ps" by (simp add: ps_def r(1))
  moreover have "set ps = set (kept ?d ws)" by (simp add: ps_def)
  ultimately show ?thesis using k by (auto simp: Let_def guardE_eq_Inr elim!: bindE_InrE split: if_splits)
qed

lemma mapE_nth: "mapE f xs = Inr ys \<Longrightarrow> i < length xs \<Longrightarrow> f (xs ! i) = Inr (ys ! i)"
  using mapE_list_all2 [of f xs ys] by (auto simp: list_all2_conv_all_nth)

lemma vector_entry:
  assumes "uid_vector ws peers = Inr (uids, vs)" "distinct (map pr_hotkey peers)" "\<forall>w \<in> snd ` set ws. float_ok w"
  shows "\<exists>raw. length raw = length uids \<and> (uids \<noteq> [] \<longrightarrow> isfinite (f_sum raw) \<and> \<not> f_le (f_sum raw) (Fin 0)) \<and>
      (\<forall>i < length uids. (\<exists>p \<in> set peers. pr_uid p = uids ! i \<and> (pr_hotkey p, raw ! i) \<in> set ws) \<and>
         f_less (Fin 0) (raw ! i) \<and> f_div (raw ! i) (f_sum raw) = Inr (vs ! i) \<and> unit_float (vs ! i))"
proof -
  let ?k = "kept (dict_of_pairs (map (\<lambda>p. (pr_hotkey p, pr_uid p)) peers)) ws"
  let ?ps = "sort_pairs ?k"
  let ?t = "f_sum (map snd ?ps)"
  note c = uid_vector_cases [OF assms(1)]
  have mem: "\<exists>p \<in> set peers. pr_uid p = u \<and> (pr_hotkey p, w) \<in> set ws \<and> f_less (Fin 0) w" if "(u, w) \<in> set ?ps" for u w
    using that kept_member [OF assms(2)] by simp
  have ok: "score_ok w \<and> 0 < fval w" if uw: "(u, w) \<in> set ?ps" for u w
  proof -
    obtain p :: peer where "(pr_hotkey p, w) \<in> set ws" using mem [OF uw] by blast
    then have "float_ok w" using assms(3) by force
    moreover have "isfinite w" "f_less (Fin 0) w" using c uw by auto
    ultimately show ?thesis by (simp add: score_ok_def f_less_fin)
  qed
  then have "\<forall>x \<in> set (map snd ?ps). score_ok x" by auto
  note sb = sum_bounds [OF this]
  have pos: "?t = PosInf \<or> 0 < fval ?t" if ne: "?ps \<noteq> []"
    using mp [OF c [THEN conjunct2, THEN conjunct2, THEN conjunct1] ne] positive_total [OF conjunct1 [OF sb]] by blast
  have each: "(\<exists>p \<in> set peers. pr_uid p = uids ! i \<and> (pr_hotkey p, map snd ?ps ! i) \<in> set ws) \<and>
      f_less (Fin 0) (map snd ?ps ! i) \<and> f_div (map snd ?ps ! i) ?t = Inr (vs ! i) \<and> unit_float (vs ! i)"
    if i: "i < length uids" for i
  proof -
    have l: "i < length ?ps" using i c by simp
    obtain u w where e: "?ps ! i = (u, w)" by (cases "?ps ! i")
    then have uw: "?ps ! i = (u, w)" "(u, w) \<in> set ?ps" using nth_mem [OF l] by simp_all
    have d: "f_div w ?t = Inr (vs ! i)" using mapE_nth [OF c [THEN conjunct2, THEN conjunct1] l] uw(1) by simp
    have "w \<in> set (map snd ?ps)" using uw(2) by force
    then have b: "bounds_above ?t w" using sb by blast
    have "?ps \<noteq> []" using l by auto
    then have "unit_float (vs ! i)" using div_bounded [OF _ _ b pos] ok [OF uw(2)] d by (auto simp: score_ok_def)
    moreover have "uids ! i = u" using c uw(1) l by simp
    moreover obtain p where "p \<in> set peers" "pr_uid p = u" "(pr_hotkey p, w) \<in> set ws" "f_less (Fin 0) w"
      using mem [OF uw(2)] by blast
    moreover have "map snd ?ps ! i = w" using uw(1) l by simp
    ultimately show ?thesis using d by auto
  qed
  have "length (map snd ?ps) = length uids" "uids \<noteq> [] \<longrightarrow> isfinite ?t \<and> \<not> f_le ?t (Fin 0)" using c by auto
  then show ?thesis using each by (intro exI [of _ "map snd ?ps"]) blast
qed

lemma vector_uids:
  assumes "uid_vector ws peers = Inr (uids, vs)" "distinct (map pr_hotkey peers)" "distinct (map pr_uid peers)"
    and "distinct (map fst ws)"
  shows "sorted uids \<and> distinct uids \<and> length vs = length uids \<and>
    set uids = {u. \<exists>p \<in> set peers. pr_uid p = u \<and> (\<exists>w. (pr_hotkey p, w) \<in> set ws \<and> f_less (Fin 0) w)}"
proof -
  let ?d = "dict_of_pairs (map (\<lambda>p. (pr_hotkey p, pr_uid p)) peers)"
  note c = uid_vector_cases [OF assms(1)]
  have inj: "h = h'" if "map_of ?d h = Some u" "map_of ?d h' = Some u" for h h' u
    using that assms(3) unfolding map_of_peers [OF assms(2)] by (auto simp: distinct_map inj_on_def)
  have "distinct (map fst (kept ?d ws))" using assms(4) inj by (rule kept_distinct)
  then have "distinct uids" using c distinct_sort_pairs by blast
  moreover have "sorted uids" using c sort_pairs_sorted by simp
  moreover have "length vs = length uids" using c mapE_length by fastforce
  moreover have "set uids = fst ` set (kept ?d ws)" using c by simp
  moreover have "fst ` set (kept ?d ws) = {u. \<exists>p \<in> set peers. pr_uid p = u \<and> (\<exists>w. (pr_hotkey p, w) \<in> set ws \<and> f_less (Fin 0) w)}"
    using kept_member [OF assms(2)] by (force simp: image_iff)
  ultimately show ?thesis by simp
qed

section \<open>Facts about an evaluation\<close>

lemma mapO_all: "mapO f xs = Some (Inr ys) \<Longrightarrow> y \<in> set ys \<Longrightarrow> \<exists>x \<in> set xs. f x = Some (Inr y)"
  by (induction xs arbitrary: ys) (auto elim!: bindO_returnE)

lemma f_mul_float_ok: "float_ok (f_mul x y)"
proof -
  have "float_ok NaN" "float_ok (signed_inf b)" for b by (simp_all add: float_ok_def signed_inf_def)
  then show ?thesis by (simp add: f_mul_def mk_float_ok)
qed

lemma built_challenge_parts:
  assumes "build_challenge mac zc secret netuid vh mh rid issued ttl nv nc slot = returnO (ch, c)"
  shows "ch_miner_hotkey ch = mh \<and> ch_expires_at_ms ch = issued + ttl \<and> cnf_wf c \<and> 0 \<le> cnf_n_vars c"
proof -
  obtain seed planted where "generate_ajm_cnf mac seed nv nc = returnO (c, planted)"
    and m: "ch_miner_hotkey ch = mh" "ch_expires_at_ms ch = issued + ttl"
    using assms by (auto simp: build_challenge_def Let_def split: if_splits elim!: bindO_returnE)
  then show ?thesis using generate_ajm_correct by fastforce
qed

lemma peer_challenge_parts:
  assumes "peer_challenge env st cfg rid p = Some (Inr (ch, c))"
  shows "ch_miner_hotkey ch = pr_hotkey p \<and> cnf_wf c \<and> 0 \<le> cnf_n_vars c"
  using assms built_challenge_parts unfolding peer_challenge_def by (fastforce elim!: bindO_returnE)

lemma judge_response_positive:
  assumes "judge_response cfg p t ch c w = Inr r" "rr_score r \<noteq> Fin 0"
  shows "response_status_ok w = Inr True \<and> remote_hotkey w = pr_hotkey p \<and> \<not> truthy (wi_error w) \<and>
    grade_response ch c (wi_challenge_id w) (wi_miner_hotkey w) (wi_assignment w) (observed_ms t)
      (qc_received t) (vc_reference cfg) (vc_share cfg) = Inr (rr_score r, rr_reason r)"
  using assms unfolding judge_response_def Let_def
  by (auto elim!: bindE_InrE split: if_splits)

lemma judge_reply_positive:
  assumes "judge_reply cfg p t ch c q = Inr r" "rr_score r \<noteq> Fin 0"
  shows "\<exists>w. reply_response q = Some w \<and> judge_response cfg p t ch c w = Inr r"
  using assms by (auto simp: judge_reply_def Let_def split: query_reply.splits option.splits)

lemma judged_hotkey: "judge_reply cfg p t ch c q = Inr r \<Longrightarrow> rr_hotkey r = pr_hotkey p"
  by (auto simp: judge_reply_def judge_response_def Let_def elim!: bindE_InrE split: query_reply.splits option.splits if_splits)

lemma evaluate_one_cases:
  assumes "evaluate_one env st cfg rid p = Some (Inr r)"
  shows "rr_hotkey r = pr_hotkey p \<and> (rr_score r = Fin 0 \<or> pr_serviceable p \<and>
    (\<exists>ch c. peer_challenge env st cfg rid p = Some (Inr (ch, c)) \<and>
      judge_reply cfg p (re_clock env (pr_hotkey p)) ch c (re_query env p ch (vc_timeout cfg)) = Inr r))"
  using assms judged_hotkey unfolding evaluate_one_def Let_def
  by (auto split: if_splits option.splits sum.splits py_error.splits)

lemma dict_of_pairs_mem: "(k, v) \<in> set (dict_of_pairs kvs) \<Longrightarrow> (k, v) \<in> set kvs"
proof -
  have "(k, v) \<in> set (foldl (\<lambda>d (k, v). dict_set k v d) acc kvs) \<Longrightarrow> (k, v) \<in> set kvs \<union> set acc" for acc
  proof (induction kvs arbitrary: acc)
    case (Cons kv kvs)
    obtain a b where "kv = (a, b)" by (cases kv)
    then show ?case using Cons.IH [of "dict_set a b acc"] Cons.prems set_dict_set [of a b acc] by auto
  qed simp
  from this [of "[]"] show "(k, v) \<in> set (dict_of_pairs kvs) \<Longrightarrow> (k, v) \<in> set kvs" by (simp add: dict_of_pairs_def)
qed

lemma evaluate_peers_all:
  assumes "evaluate_peers env peers st cfg rid = Some (Inr results)" "(h, r) \<in> set results"
  shows "\<exists>p \<in> set peers. pr_hotkey p = h \<and> rr_hotkey r = h \<and> evaluate_one env st cfg rid p = Some (Inr r)"
proof -
  obtain rs where rs: "mapO (evaluate_one env st cfg rid) peers = Some (Inr rs)"
    and d: "results = dict_of_pairs (map (\<lambda>r. (rr_hotkey r, r)) rs)"
    using assms(1) by (auto simp: evaluate_peers_def elim!: bindO_returnE)
  have "rr_hotkey r = h" "r \<in> set rs" using dict_of_pairs_mem assms(2) unfolding d by fastforce+
  then obtain p where "p \<in> set peers" "evaluate_one env st cfg rid p = Some (Inr r)" using mapO_all [OF rs] by blast
  then show ?thesis using evaluate_one_cases \<open>rr_hotkey r = h\<close> by fastforce
qed

lemma evaluation_checked:
  assumes "evaluate_peers env peers st cfg round_id = Some (Inr results)" "(h, r) \<in> set results"
    and "float_ok (vc_reference cfg)" "float_ok (vc_share cfg)"
  shows "unit_float (rr_score r) \<and> (rr_score r \<noteq> Fin 0 \<longrightarrow>
    (\<exists>p \<in> set peers. \<exists>ch c w ls. pr_hotkey p = h \<and> pr_serviceable p \<and>
       peer_challenge env st cfg round_id p = Some (Inr (ch, c)) \<and>
       reply_response (re_query env p ch (vc_timeout cfg)) = Some w \<and> remote_hotkey w = h \<and>
       wi_challenge_id w = ch_challenge_id ch \<and> wi_miner_hotkey w = h \<and>
       qc_received (re_clock env h) \<le> ch_expires_at_ms ch \<and>
       decode_assignment (wi_assignment w) (cnf_n_vars c) = Inr ls \<and> is_model c ls))"
proof (cases "rr_score r = Fin 0")
  case True
  then show ?thesis by (simp add: unit_float_def float_ok_def)
next
  case False
  obtain p where p: "p \<in> set peers" "pr_hotkey p = h" "evaluate_one env st cfg round_id p = Some (Inr r)"
    using evaluate_peers_all [OF assms(1,2)] by blast
  obtain ch c where ch: "pr_serviceable p" "peer_challenge env st cfg round_id p = Some (Inr (ch, c))"
    "judge_reply cfg p (re_clock env h) ch c (re_query env p ch (vc_timeout cfg)) = Inr r"
    using evaluate_one_cases [OF p(3)] False p(2) by blast
  obtain w where w: "reply_response (re_query env p ch (vc_timeout cfg)) = Some w"
    "judge_response cfg p (re_clock env h) ch c w = Inr r" using judge_reply_positive [OF ch(3) False] by blast
  note c = peer_challenge_parts [OF ch(2)] and j = judge_response_positive [OF w(2) False]
  have "float_ok (observed_ms (re_clock env h))" by (simp add: observed_ms_def f_mul_float_ok)
  with j c assms(3,4) have "rr_score r = Fin 0 \<or>
      (wi_challenge_id w = ch_challenge_id ch \<and> wi_miner_hotkey w = ch_miner_hotkey ch \<and>
       qc_received (re_clock env h) \<le> ch_expires_at_ms ch \<and>
       (\<exists>ls v. decode_assignment (wi_assignment w) (cnf_n_vars c) = Inr ls \<and> is_model c ls \<and>
          unit_float (vc_share cfg) \<and> unit_float v \<and> rr_score r = final_score (vc_share cfg) v))"
    using grade_cases [of ch c "wi_challenge_id w" "wi_miner_hotkey w" "wi_assignment w"] by blast
  then show ?thesis using False p(1,2) ch(1,2) w(1) j c final_score_unit by metis
qed

section \<open>Properties of a round\<close>

text \<open>C21. A peer's positive score is always work the validator checked itself: the peer was serving,
  the reply answers the challenge built for this peer and round, carries its transport identity,
  arrived before the expiry, and its payload decodes to a model of the challenge's formula. Every
  score of the round lies in the unit interval.\<close>

theorem positive_scores_are_checked_work:
  assumes "evaluate_peers env peers st cfg round_id = Some (Inr results)" "(h, r) \<in> set results"
    and "float_ok (vc_reference cfg)" "float_ok (vc_share cfg)"
  shows "unit_float (rr_score r) \<and> (rr_score r \<noteq> Fin 0 \<longrightarrow>
    (\<exists>p \<in> set peers. \<exists>ch c w ls. pr_hotkey p = h \<and> pr_serviceable p \<and>
       peer_challenge env st cfg round_id p = Some (Inr (ch, c)) \<and>
       reply_response (re_query env p ch (vc_timeout cfg)) = Some w \<and> remote_hotkey w = h \<and>
       wi_challenge_id w = ch_challenge_id ch \<and> wi_miner_hotkey w = h \<and>
       qc_received (re_clock env h) \<le> ch_expires_at_ms ch \<and>
       decode_assignment (wi_assignment w) (cnf_n_vars c) = Inr ls \<and> is_model c ls))"
  using assms by (rule evaluation_checked)

definition demo_round_env :: round_env where
  "demo_round_env = \<lparr>re_mac = demo_mac, re_zlib = id,
     re_clock = (\<lambda>_. \<lparr>qc_issued = 1000, qc_started = Fin 0, qc_ended = Fin 0, qc_received = 2000\<rparr>),
     re_query = (\<lambda>p ch timeout. QMany [Some \<lparr>wi_status = Some (JInt 200), wi_hotkey = Some ''m'',
        wi_elapsed = JFloat (Fin 0), wi_error = JStr [], wi_challenge_id = ch_challenge_id ch,
        wi_miner_hotkey = ''m'', wi_assignment = ''AA==''\<rparr>])\<rparr>"

definition demo_config :: validator_config where
  "demo_config = \<lparr>vc_network = ''local'', vc_netuid = 7, vc_hotkey = ''v'', vc_n_vars = 3, vc_n_clauses = 1,
     vc_timeout = Fin 60, vc_reference = Fin 1, vc_share = Fin 1, vc_alpha = Fin 1, vc_concurrency = 1,
     vc_round_blocks = 100, vc_policy_digest = None\<rparr>"

definition demo_peer :: peer where
  "demo_peer = \<lparr>pr_uid = 4, pr_hotkey = ''m'', pr_coldkey = ''k'',
     pr_axon = \<lparr>ax_port = Some 8091, ax_serving = None\<rparr>, pr_serviceable = True\<rparr>"

lemma demo_grade_built:
  assumes "ch_challenge_id ch = cid" "ch_miner_hotkey ch = ''m''" "ch_expires_at_ms ch = 61000"
  shows "grade_response ch \<lparr>cnf_n_vars = 3, cnf_clauses = [(1, -2, -3)]\<rparr> cid ''m'' ''AA=='' (Fin 0) 2000 (Fin 1) (Fin 1)
    = Inr (Fin 1, ''verified'')"
proof -
  let ?c = "\<lparr>cnf_n_vars = 3, cnf_clauses = [(1, -2, -3)]\<rparr>"
  have "grade_response ch ?c cid ''m'' ''AA=='' (Fin 0) 2000 (Fin 1) (Fin 1) = Inr (final_score (Fin 1) (Fin 1), ''verified'')"
  proof (rule grade_complete)
    show "decode_assignment ''AA=='' (cnf_n_vars ?c) = Inr [-1, -2, -3]" by code_simp
    show "is_model ?c [-1, -2, -3]" by code_simp
    show "f_div (Fin 1) (f_add (Fin 1) (Fin 0)) = Inr (Fin 1)" by (rule demo_score)
  qed (simp_all add: assms positive_float_def elapsed_float_def unit_float_def float_ok_def cnf_wf_def clause_wf_def)
  then show ?thesis by (simp only: demo_score)
qed

lemma demo_evaluation:
  "evaluate_peers demo_round_env [demo_peer] (fresh_state ''fp'' (replicate 32 0)) demo_config 7 =
     returnO [(''m'', \<lparr>rr_hotkey = ''m'', rr_score = Fin 1, rr_reason = ''verified'', rr_observed = Fin 0, rr_reported = Fin 0\<rparr>)]"
proof -
  obtain ch where b: "build_challenge demo_mac id (replicate 32 0) 7 ''v'' ''m'' 7 1000 60000 3 1 0 =
    returnO (ch, \<lparr>cnf_n_vars = 3, cnf_clauses = [(1, -2, -3)]\<rparr>)" using demo_build by blast
  have "ch_miner_hotkey ch = ''m''" "ch_expires_at_ms ch = 61000" using built_challenge_parts [OF b] by simp_all
  note g = demo_grade_built [OF refl this]
  have "mk_float False 60000 = Fin 60000" using fl_rat_int [of 60000] by (simp add: mk_float_def)
  then have ttl: "float_to_int (f_mul (Fin 60) (Fin 1000)) = Inr 60000"
    by (simp add: f_mul_fin is_neg_def float_to_int_def is_inf_def)
  have z: "mk_float False 0 = Fin 0" by (simp add: mk_float_def)
  have ob: "f_mul (f_sub (Fin 0) (Fin 0)) (Fin 1000) = Fin 0"
    by (simp add: f_sub_def f_neg_def f_add_fin f_mul_fin is_neg_def z)
  have "peer_challenge demo_round_env (fresh_state ''fp'' (replicate 32 0)) demo_config 7 demo_peer =
      returnO (ch, \<lparr>cnf_n_vars = 3, cnf_clauses = [(1, -2, -3)]\<rparr>)"
    by (simp add: peer_challenge_def demo_round_env_def demo_config_def demo_peer_def b ttl
        fresh_state_def master_secret_def fromhex_hex_of guardE_def)
  then show ?thesis
    by (simp add: evaluate_peers_def evaluate_one_def demo_peer_def demo_round_env_def demo_config_def judge_reply_def
        reply_response_def judge_response_def response_status_ok_def py_to_int_def remote_hotkey_def reported_ms_def
        truthy_def observed_ms_def ob g dict_of_pairs_def)
qed

theorem positive_scores_are_checked_work_witness:
  "\<exists>p \<in> set [demo_peer]. \<exists>ch c ls. peer_challenge demo_round_env (fresh_state ''fp'' (replicate 32 0)) demo_config 7 p =
     Some (Inr (ch, c)) \<and> is_model c ls"
proof -
  have "float_ok (vc_reference demo_config)" "float_ok (vc_share demo_config)"
    by (simp_all add: demo_config_def float_ok_def)
  from positive_scores_are_checked_work [OF demo_evaluation _ this] show ?thesis by fastforce
qed

text \<open>C22. The final vector is sorted by UID without repetition, holds exactly the UIDs of current
  peers with a positive weight, and gives each its weight divided by the float sum of exactly the
  listed weights in that order, a finite positive total; every entry is in the unit interval.\<close>

theorem uid_vector_sound:
  assumes "uid_vector ws peers = Inr (uids, vs)" "snapshot_peers mg = Inr peers"
    and "distinct (map fst ws)" "\<forall>w \<in> snd ` set ws. float_ok w"
  shows "sorted_wrt (<) uids \<and> length vs = length uids \<and>
    set uids = {u. \<exists>p \<in> set peers. pr_uid p = u \<and> (\<exists>w. (pr_hotkey p, w) \<in> set ws \<and> f_less (Fin 0) w)} \<and>
    (\<exists>raw. length raw = length uids \<and> (uids \<noteq> [] \<longrightarrow> isfinite (f_sum raw) \<and> \<not> f_le (f_sum raw) (Fin 0)) \<and>
      (\<forall>i < length uids. (\<exists>p \<in> set peers. pr_uid p = uids ! i \<and> (pr_hotkey p, raw ! i) \<in> set ws) \<and>
         f_less (Fin 0) (raw ! i) \<and> f_div (raw ! i) (f_sum raw) = Inr (vs ! i) \<and> unit_float (vs ! i)))"
proof (intro conjI)
  show "sorted_wrt (<) uids" "length vs = length uids"
    "set uids = {u. \<exists>p \<in> set peers. pr_uid p = u \<and> (\<exists>w. (pr_hotkey p, w) \<in> set ws \<and> f_less (Fin 0) w)}"
    using vector_uids [OF assms(1) snapshot_sound(4,3) [OF assms(2)] assms(3)] by (simp_all add: strict_sorted_iff)
qed (rule vector_entry [OF assms(1) snapshot_sound(4) [OF assms(2)] assms(4)])

definition demo_metagraph :: metagraph where
  "demo_metagraph = \<lparr>mg_uids = [4, 2], mg_hotkeys = [''m'', ''n''], mg_coldkeys = Some [''k'', ''cn''],
     mg_axons = [\<lparr>ax_port = Some 8091, ax_serving = None\<rparr>, \<lparr>ax_port = None, ax_serving = Some True\<rparr>]\<rparr>"

definition demo_peers :: "peer list" where
  "demo_peers =
     [demo_peer,
      \<lparr>pr_uid = 2, pr_hotkey = ''n'', pr_coldkey = ''cn'', pr_axon = \<lparr>ax_port = None, ax_serving = Some True\<rparr>,
       pr_serviceable = False\<rparr>]"

lemma demo_snapshot: "snapshot_peers demo_metagraph = Inr demo_peers"
  by code_simp

lemma demo_vector: "uid_vector [(''m'', Fin 1), (''x'', Fin 1), (''n'', Fin 0)] demo_peers = Inr ([4], [Fin 1])"
proof -
  have s: "f_less (Fin 0) (Fin 1)" "\<not> f_less (Fin 1) (Fin 0)" "\<not> f_less (Fin 0) (Fin 0)" "\<not> f_le (Fin 1) (Fin 0)"
    "f_add (Fin 0) (Fin 1) = Fin 1" "f_div (Fin 1) (Fin 1) = Inr (Fin 1)"
    by (simp_all add: f_less_fin f_le_fin f_add_fin f_div_def mk_float_1 is_neg_def is_inf_def)
  have d: "dict_of_pairs (map (\<lambda>p. (pr_hotkey p, pr_uid p)) demo_peers) = [(''m'', 4), (''n'', 2)]"
    by (simp add: demo_peers_def demo_peer_def dict_of_pairs_def)
  show ?thesis unfolding uid_vector_def d
    by (simp add: vector_step_def s sort_pairs_def f_sum_def guardE_def)
qed

theorem uid_vector_sound_witness:
  "\<exists>raw. length raw = 1 \<and> f_div (raw ! 0) (f_sum raw) = Inr (Fin 1) \<and> unit_float (Fin 1)"
proof -
  have ok: "\<forall>w \<in> snd ` set [(''m'', Fin 1), (''x'', Fin 1), (''n'', Fin 0)]. float_ok w" by (simp add: float_ok_def)
  have "distinct (map fst [(''m'', Fin 1), (''x'', Fin 1), (''n'', Fin 0)])" by simp
  from uid_vector_sound [OF demo_vector demo_snapshot this ok] show ?thesis by auto
qed

end
