(* ===== verification/Validator_Submit.thy ===== *)
theory Validator_Submit
  imports Validator_Round
begin

text \<open>
  \<open>cathedral_thin/validator.py\<close>, the runner's state, the loading of the owner registrations and
  the submission of a pending vector (\<open>ValidatorRunner._load_owner_registrations\<close>,
  \<open>_submit_pending\<close>, \<open>BittensorRuntime.submit_weights\<close>). A tick's environment holds the answers
  of the chain, the SDK, the loaders and the disk; the vectors handed to the SDK are logged in the
  runner's state. The lemmas show under which conditions a vector leaves the validator.
\<close>

section \<open>The runner\<close>

record runner =
  rn_config :: validator_config
  rn_policy :: score_policy
  rn_broadcast :: bool
  rn_retry_ambiguous :: bool
  rn_records :: bool
  rn_netuid :: int

text \<open>\<open>ValidatorRunner.__init__\<close>; \<open>runtime_netuid\<close> is the netuid of the runtime it is given.\<close>

definition make_runner ::
    "validator_config \<Rightarrow> score_policy option \<Rightarrow> bool \<Rightarrow> bool \<Rightarrow> bool \<Rightarrow> int \<Rightarrow> runner res" where
  "make_runner cfg policy broadcast retry_ambiguous records runtime_netuid =
     (let chosen = (case policy of Some p \<Rightarrow> p | None \<Rightarrow> default_score_policy (vc_network cfg) (vc_netuid cfg)) in
      guardE (vc_policy_digest cfg \<noteq> None \<and> vc_policy_digest cfg \<noteq> Some (sp_digest chosen))
        ''validator config and score policy digests differ''
        (Inr \<lparr>rn_config = cfg, rn_policy = chosen, rn_broadcast = broadcast, rn_retry_ambiguous = retry_ambiguous,
           rn_records = records, rn_netuid = runtime_netuid\<rparr>))"

text \<open>The mutable state: the validator's state in memory, its file, the decision records, the last
  round previewed by a dry run, and the vectors handed to the SDK so far.\<close>

record runner_state =
  rs_state :: validator_state
  rs_store :: store
  rs_dir :: decision_dir
  rs_dry_round :: "int option"
  rs_sent :: "pending list"

text \<open>The world during one tick. \<open>te_describe\<close> is the text \<open>f"{type(e).__name__}:{str(e)[:200]}"\<close> of
  a built-in exception, whose message is the interpreter's.\<close>

record tick_env =
  te_now :: int
  te_metagraph :: "metagraph res"
  te_block :: "int res"
  te_owner :: "int \<Rightarrow> int \<Rightarrow> string res"
  te_registration :: "external_policy \<Rightarrow> string \<Rightarrow> int \<Rightarrow> int \<Rightarrow> string \<Rightarrow> (string \<times> string) list
     \<Rightarrow> registration_checkpoint option \<Rightarrow> (verified_registration \<times> registration_checkpoint) res"
  te_report :: "external_policy \<Rightarrow> string \<Rightarrow> int \<Rightarrow> int \<Rightarrow> source_checkpoint option
     \<Rightarrow> (verified_report \<times> source_checkpoint) res"
  te_set_weights :: "pending \<Rightarrow> sdk_response res"
  te_limits :: chain_limits
  te_round :: round_env
  te_round_fault :: fault
  te_submit_fault :: fault
  te_write :: write_fault
  te_describe :: "py_error \<Rightarrow> string"

section \<open>Owner registrations\<close>

type_synonym registrations = "(string \<times> (verified_registration \<times> registration_checkpoint)) list"

definition read_registration_checkpoint :: "jdict \<Rightarrow> registration_checkpoint res" where
  "read_registration_checkpoint raw =
     bindE (jitem raw ''owner_coldkey'') (\<lambda>owner.
     bindE (jitem raw ''delegate_hotkey'') (\<lambda>delegate.
     bindE (jitem raw ''sequence'') (\<lambda>sv. bindE (py_to_int sv) (\<lambda>sequence.
     bindE (jitem raw ''registration_id'') (\<lambda>rid.
       Inr \<lparr>rc_owner = py_str owner, rc_delegate = py_str delegate, rc_sequence = sequence,
          rc_id = py_str rid\<rparr>)))))"

definition owned_classes :: "score_policy \<Rightarrow> (external_policy \<times> owner_policy) list" where
  "owned_classes policy = concat (map (\<lambda>e. case ep_owner e of None \<Rightarrow> [] | Some op \<Rightarrow> [(e, op)]) (external_classes policy))"

definition read_owner :: "tick_env \<Rightarrow> int \<Rightarrow> int \<Rightarrow> (int \<times> string) res" where
  "read_owner env block netuid =
     bindE (te_owner env netuid block) (\<lambda>owner.
       guardE (owner = []) (''source subnet '' @ int_str netuid @ '' has no current owner'') (Inr (netuid, owner)))"

text \<open>\<open>require_same_authority\<close>: the checkpoint's owner still owns the source subnet and its delegate
  is still registered under that owner.\<close>

definition same_authority ::
    "string \<Rightarrow> string \<Rightarrow> (string \<times> string) list \<Rightarrow> registration_checkpoint option \<Rightarrow> 'a res \<Rightarrow> 'a res" where
  "same_authority class_id current_owner registered checkpoint k =
     (case checkpoint of
        None \<Rightarrow> k
      | Some c \<Rightarrow>
          guardE (current_owner \<noteq> rc_owner c) (''owner authorization changed for class '' @ class_id)
          (guardE (map_of registered (rc_delegate c) \<noteq> Some (rc_owner c))
            (''owner delegate deregistered for class '' @ class_id) k))"

definition load_registration ::
    "tick_env \<Rightarrow> validator_config \<Rightarrow> validator_state \<Rightarrow> int \<Rightarrow> bool \<Rightarrow> (int \<times> string) list \<Rightarrow> (string \<times> string) list
       \<Rightarrow> external_policy \<times> owner_policy \<Rightarrow> (string \<times> (verified_registration \<times> registration_checkpoint)) res" where
  "load_registration env cfg st block require_same owners registered c =
     (case c of (policy, op) \<Rightarrow>
        bindE (case map_of (vs_registration_checkpoints st) (ep_class_id policy) of
            None \<Rightarrow> Inr None
          | Some raw \<Rightarrow> bindE (read_registration_checkpoint raw) (\<lambda>cp. Inr (Some cp))) (\<lambda>checkpoint.
        case map_of owners (op_source_netuid op) of
          None \<Rightarrow> Inl PyKeyError
        | Some owner \<Rightarrow>
            same_authority (ep_class_id policy) owner registered (if require_same then checkpoint else None)
              (bindE (te_registration env policy (vc_network cfg) (vc_netuid cfg) block owner registered checkpoint)
                (\<lambda>loaded. Inr (ep_class_id policy, loaded)))))"

definition load_owner_registrations ::
    "tick_env \<Rightarrow> validator_config \<Rightarrow> score_policy \<Rightarrow> validator_state \<Rightarrow> peer list \<Rightarrow> int \<Rightarrow> bool \<Rightarrow> registrations res" where
  "load_owner_registrations env cfg policy st peers block require_same =
     (let policies = owned_classes policy in
      if policies = [] then Inr []
      else
        bindE (mapE (read_owner env block) (sorted_list_of_set (set (map (\<lambda>(_, op). op_source_netuid op) policies)))) (\<lambda>owners.
        bindE (mapE (load_registration env cfg st block require_same (dict_of_pairs owners) (coldkeys_of peers)) policies) (\<lambda>loaded.
          Inr (dict_of_pairs loaded))))"

definition registration_ids :: "registrations \<Rightarrow> (string \<times> string) list" where
  "registration_ids rs = map (\<lambda>(class_id, g, _). (class_id, rg_id g)) rs"

section \<open>Submitting the pending vector\<close>

text \<open>\<open>self.store.save(self.state)\<close> followed by \<open>return r\<close>: the state in memory is already \<open>st\<close>.\<close>

definition commit :: "fault \<Rightarrow> runner_state \<Rightarrow> validator_state \<Rightarrow> 'a res \<Rightarrow> runner_state \<times> 'a res" where
  "commit fault rs st r =
     (case save_state fault (rs_store rs) st of
        (sf, Inl e) \<Rightarrow> (rs\<lparr>rs_state := st, rs_store := sf\<rparr>, Inl e)
      | (sf, Inr _) \<Rightarrow> (rs\<lparr>rs_state := st, rs_store := sf\<rparr>, r))"

definition commit_step :: "fault \<Rightarrow> runner_state \<Rightarrow> validator_state res \<Rightarrow> 'a res \<Rightarrow> runner_state \<times> 'a res" where
  "commit_step fault rs next_state r =
     (case next_state of Inl e \<Rightarrow> (rs, Inl e) | Inr st \<Rightarrow> commit fault rs st r)"

definition note_failure :: "tick_env \<Rightarrow> runner_state \<Rightarrow> bool \<Rightarrow> runner_state \<times> bool res" where
  "note_failure env rs ambiguous =
     commit_step (te_submit_fault env) rs
       (note_submission_failure (rs_state rs) (te_now env) 15000 900000 ambiguous) (Inr False)"

definition cancel_pending :: "tick_env \<Rightarrow> runner_state \<Rightarrow> runner_state \<times> bool res" where
  "cancel_pending env rs = commit (te_submit_fault env) rs ((rs_state rs)\<lparr>vs_pending := None\<rparr>) (Inr False)"

definition submit_weights :: "runner \<Rightarrow> tick_env \<Rightarrow> runner_state \<Rightarrow> pending \<Rightarrow> runner_state \<times> sdk_response res" where
  "submit_weights run env rs p =
     (if rn_netuid run = 39
      then (rs, raise ''legacy SAT validator broadcasts are disabled on SN39 regardless of network label or RPC endpoint'')
      else (rs\<lparr>rs_sent := rs_sent rs @ [p]\<rparr>, te_set_weights env p))"

definition transmit :: "runner \<Rightarrow> tick_env \<Rightarrow> runner_state \<Rightarrow> pending \<Rightarrow> runner_state \<times> bool res" where
  "transmit run env rs p =
     (case submit_weights run env rs p of
        (rs', Inl e) \<Rightarrow> note_failure env rs' True
      | (rs', Inr response) \<Rightarrow>
          if response_succeeded response
          then commit_step (te_submit_fault env) rs' (note_submission_success (rs_state rs')) (Inr True)
          else note_failure env rs' (submission_failure_is_ambiguous response))"

text \<open>The UIDs whose hotkey is no longer the one the vector was computed for.\<close>

definition stale_uids :: "pending \<Rightarrow> peer list \<Rightarrow> (int \<times> string) list" where
  "stale_uids p peers =
     filter (\<lambda>(uid, hotkey). map_of (dict_of_pairs (map (\<lambda>q. (pr_uid q, pr_hotkey q)) peers)) uid \<noteq> Some hotkey)
       (zip (pv_uids p) (pv_hotkeys p))"

definition authority_lost :: "string \<Rightarrow> bool" where
  "authority_lost msg = (starts_with msg ''owner authorization changed'' \<or> starts_with msg ''owner delegate deregistered'')"

definition current_ids :: "runner \<Rightarrow> tick_env \<Rightarrow> runner_state \<Rightarrow> peer list \<Rightarrow> (string \<times> string) list res" where
  "current_ids run env rs peers =
     bindE (te_block env) (\<lambda>block.
     bindE (load_owner_registrations env (rn_config run) (rn_policy run) (rs_state rs) peers block True) (\<lambda>regs.
       Inr (registration_ids regs)))"

text \<open>Two dictionaries without repeated keys are equal when they hold the same items.\<close>

definition same_items :: "(string \<times> string) list \<Rightarrow> (string \<times> string) list \<Rightarrow> bool" where
  "same_items a b = (set a = set b)"

definition submit_checked ::
    "runner \<Rightarrow> tick_env \<Rightarrow> (string \<times> string) list option \<Rightarrow> runner_state \<Rightarrow> pending \<Rightarrow> peer list \<Rightarrow> runner_state \<times> bool res" where
  "submit_checked run env known rs p peers =
     (if stale_uids p peers \<noteq> [] then cancel_pending env rs
      else if pv_registrations p = [] then transmit run env rs p
      else
        (case (case known of Some ids \<Rightarrow> Inr ids | None \<Rightarrow> current_ids run env rs peers) of
           Inl (ThinSubnetError msg) \<Rightarrow>
             if authority_lost msg then cancel_pending env rs else note_failure env rs (pv_ambiguous p)
         | Inl e \<Rightarrow> (rs, Inl e)
         | Inr ids \<Rightarrow>
             if same_items ids (pv_registrations p) then transmit run env rs p else cancel_pending env rs))"

definition submit_pending ::
    "runner \<Rightarrow> tick_env \<Rightarrow> metagraph option \<Rightarrow> (string \<times> string) list option \<Rightarrow> runner_state \<Rightarrow> runner_state \<times> bool res" where
  "submit_pending run env known_metagraph known_ids rs =
     (case vs_pending (rs_state rs) of
        None \<Rightarrow> (rs, Inr True)
      | Some p \<Rightarrow>
          if pv_ambiguous p \<and> \<not> rn_retry_ambiguous run then (rs, Inr False)
          else if pv_next_retry p > te_now env then (rs, Inr False)
          else if \<not> rn_broadcast run then (rs, Inr False)
          else
            (case bindE (case known_metagraph of Some m \<Rightarrow> Inr m | None \<Rightarrow> te_metagraph env) snapshot_peers of
               Inl e \<Rightarrow> note_failure env rs (pv_ambiguous p)
             | Inr peers \<Rightarrow> submit_checked run env known_ids rs p peers))"

section \<open>What a submission does to the state\<close>

lemma commit_frame:
  assumes "commit fault rs st r = (rs', r')"
  shows "rs_state rs' = st \<and> rs_dir rs' = rs_dir rs \<and> rs_sent rs' = rs_sent rs \<and> rs_dry_round rs' = rs_dry_round rs \<and>
    (r' = r \<or> r' = Inl PyOSError)"
  using assms save_state_cases [of fault "rs_store rs" st]
  by (auto simp: commit_def split: prod.splits sum.splits)

text \<open>The four ways a pending vector is settled: held, failed, confirmed, cancelled.\<close>

inductive settles :: "int \<Rightarrow> validator_state \<Rightarrow> validator_state \<Rightarrow> bool" for now where
  held: "settles now st st"
| failed: "note_submission_failure st now 15000 900000 ambiguous = Inr st' \<Longrightarrow> settles now st st'"
| confirmed: "note_submission_success st = Inr st' \<Longrightarrow> settles now st st'"
| cancelled: "settles now st (st\<lparr>vs_pending := None\<rparr>)"

inductive_cases settlesE: "settles now st st'"

definition live_ok :: "string \<Rightarrow> validator_state \<Rightarrow> bool" where
  "live_ok fp st = (state_ok fp st \<and> (\<forall>v \<in> snd ` set (vs_ema st). unit_float v))"

lemma settles_frame:
  "settles now st st' \<Longrightarrow> vs_last_round st' = vs_last_round st \<and> vs_ema st' = vs_ema st \<and>
     vs_class_checkpoints st' = vs_class_checkpoints st \<and> vs_registration_checkpoints st' = vs_registration_checkpoints st \<and>
     (vs_pending st = None \<longrightarrow> vs_pending st' = None)"
  by (auto simp: note_submission_failure_def note_submission_success_def elim!: settlesE split: option.splits)

lemma settles_pending:
  "settles now st st' \<Longrightarrow> vs_pending st' = Some p' \<Longrightarrow>
     \<exists>p. vs_pending st = Some p \<and> pv_digest p' = pv_digest p \<and> pv_provenance p' = pv_provenance p"
  by (auto simp: note_submission_failure_def note_submission_success_def elim!: settlesE split: option.splits)

lemma settles_live: "settles now st st' \<Longrightarrow> 0 \<le> now \<Longrightarrow> live_ok fp st \<Longrightarrow> live_ok fp st'"
proof (elim settlesE)
  show "live_ok fp st \<Longrightarrow> st' = st \<Longrightarrow> live_ok fp st'" by simp
next
  fix amb
  assume a: "0 \<le> now" "live_ok fp st" "note_submission_failure st now 15000 900000 amb = Inr st'"
  then have "pending_step st st'" by (auto intro: pending_step.fail)
  then show "live_ok fp st'" using a settles_frame [OF settles.failed [OF a(3)]] pending_step_ok by (auto simp: live_ok_def)
next
  assume a: "live_ok fp st" "note_submission_success st = Inr st'"
  then have "pending_step st st'" by (auto intro: pending_step.success)
  then show "live_ok fp st'" using a settles_frame [OF settles.confirmed [OF a(2)]] pending_step_ok by (auto simp: live_ok_def)
next
  assume "live_ok fp st" "st' = st\<lparr>vs_pending := None\<rparr>"
  then show "live_ok fp st'" by (simp add: live_ok_def state_ok_def master_secret_def)
qed

text \<open>One frame for the helpers of a submission: the log, the records and the dry-run memo are kept.\<close>

definition quiet :: "int \<Rightarrow> runner_state \<Rightarrow> runner_state \<Rightarrow> bool" where
  "quiet now rs rs' = (settles now (rs_state rs) (rs_state rs') \<and> rs_sent rs' = rs_sent rs \<and> rs_dir rs' = rs_dir rs \<and>
     rs_dry_round rs' = rs_dry_round rs)"

lemma quiet_refl [simp]: "quiet now rs rs"
  by (simp add: quiet_def settles.held)

lemma note_failure_quiet: "note_failure env rs amb = (rs', r) \<Longrightarrow> quiet (te_now env) rs rs' \<and> r \<noteq> Inr True"
  unfolding note_failure_def commit_step_def
  by (auto simp: quiet_def intro: settles.intros split: sum.splits dest!: commit_frame)

lemma cancel_quiet: "cancel_pending env rs = (rs', r) \<Longrightarrow> quiet (te_now env) rs rs' \<and> r \<noteq> Inr True"
  unfolding cancel_pending_def by (auto simp: quiet_def intro: settles.intros dest!: commit_frame)

lemma transmit_cases:
  assumes "transmit run env rs p = (rs', r)"
  shows "settles (te_now env) (rs_state rs) (rs_state rs') \<and> rs_dir rs' = rs_dir rs \<and> rs_dry_round rs' = rs_dry_round rs \<and>
    rs_sent rs' = (if rn_netuid run = 39 then rs_sent rs else rs_sent rs @ [p]) \<and>
    (r = Inr True \<longrightarrow> rn_netuid run \<noteq> 39 \<and> (\<exists>resp. te_set_weights env p = Inr resp \<and> response_succeeded resp))"
proof -
  define rs0 where "rs0 = (if rn_netuid run = 39 then rs else rs\<lparr>rs_sent := rs_sent rs @ [p]\<rparr>)"
  have base: "rs_state rs0 = rs_state rs" "rs_dir rs0 = rs_dir rs" "rs_dry_round rs0 = rs_dry_round rs"
    "rs_sent rs0 = (if rn_netuid run = 39 then rs_sent rs else rs_sent rs @ [p])" by (simp_all add: rs0_def)
  from assms consider amb where "note_failure env rs0 amb = (rs', r)"
    | resp where "rn_netuid run \<noteq> 39" "te_set_weights env p = Inr resp" "response_succeeded resp"
      "commit_step (te_submit_fault env) rs0 (note_submission_success (rs_state rs0)) (Inr True) = (rs', r)"
    by (auto simp: rs0_def transmit_def submit_weights_def split: if_splits sum.splits)
  then show ?thesis
  proof cases
    case 1
    from note_failure_quiet [OF this] base show ?thesis by (simp add: quiet_def)
  next
    case 2
    show ?thesis
    proof (cases "note_submission_success (rs_state rs0)")
      case (Inl e)
      then show ?thesis using 2 base by (auto simp: commit_step_def intro: settles.held)
    next
      case (Inr st)
      then have "commit (te_submit_fault env) rs0 st (Inr True) = (rs', r)" using 2(4) by (simp add: commit_step_def)
      moreover have "settles (te_now env) (rs_state rs) st" using Inr base(1) by (intro settles.confirmed) simp
      ultimately show ?thesis using commit_frame 2 base by metis
    qed
  qed
qed

text \<open>Under which conditions \<open>p\<close> may leave the validator.\<close>

definition may_send :: "runner \<Rightarrow> tick_env \<Rightarrow> metagraph option \<Rightarrow> (string \<times> string) list option \<Rightarrow> runner_state \<Rightarrow> pending \<Rightarrow> bool" where
  "may_send run env mg ids rs p =
     (rn_broadcast run \<and> rn_netuid run \<noteq> 39 \<and> (pv_ambiguous p \<longrightarrow> rn_retry_ambiguous run) \<and> pv_next_retry p \<le> te_now env \<and>
      (\<exists>peers. bindE (case mg of Some m \<Rightarrow> Inr m | None \<Rightarrow> te_metagraph env) snapshot_peers = Inr peers \<and>
        (\<forall>(uid, hotkey) \<in> set (zip (pv_uids p) (pv_hotkeys p)). \<exists>q \<in> set peers. pr_uid q = uid \<and> pr_hotkey q = hotkey) \<and>
        (pv_registrations p \<noteq> [] \<longrightarrow>
          (\<exists>current. (case ids of Some i \<Rightarrow> Inr i | None \<Rightarrow> current_ids run env rs peers) = Inr current \<and>
             set current = set (pv_registrations p)))))"

lemma no_stale:
  assumes "stale_uids p peers = []" "(uid, hotkey) \<in> set (zip (pv_uids p) (pv_hotkeys p))"
  shows "\<exists>q \<in> set peers. pr_uid q = uid \<and> pr_hotkey q = hotkey"
proof -
  have "map_of (dict_of_pairs (map (\<lambda>q. (pr_uid q, pr_hotkey q)) peers)) uid = Some hotkey"
    using assms by (force simp: stale_uids_def filter_empty_conv)
  from map_of_SomeD [OF this] show ?thesis using dict_of_pairs_mem by fastforce
qed

lemma submit_checked_cases:
  assumes "submit_checked run env ids rs p peers = (rs', r)"
  shows "(quiet (te_now env) rs rs' \<and> r \<noteq> Inr True) \<or>
    (stale_uids p peers = [] \<and>
     (pv_registrations p \<noteq> [] \<longrightarrow> (\<exists>current. (case ids of Some i \<Rightarrow> Inr i | None \<Rightarrow> current_ids run env rs peers) = Inr current \<and>
        set current = set (pv_registrations p))) \<and>
     transmit run env rs p = (rs', r))"
  using assms unfolding submit_checked_def
  by (auto simp: same_items_def dest: note_failure_quiet cancel_quiet
      split: if_split_asm sum.split_asm py_error.split_asm)

lemma submit_pending_cases:
  assumes "submit_pending run env mg ids rs = (rs', r)"
  shows "(vs_pending (rs_state rs) = None \<and> rs' = rs \<and> r = Inr True) \<or>
    (quiet (te_now env) rs rs' \<and> vs_pending (rs_state rs) \<noteq> None \<and> r \<noteq> Inr True) \<or>
    (\<exists>p. vs_pending (rs_state rs) = Some p \<and> rn_broadcast run \<and> (rn_netuid run \<noteq> 39 \<longrightarrow> may_send run env mg ids rs p) \<and>
       transmit run env rs p = (rs', r))"
proof (cases "vs_pending (rs_state rs)")
  case None
  then show ?thesis using assms by (auto simp: submit_pending_def)
next
  case (Some p)
  show ?thesis
  proof (cases "pv_ambiguous p \<and> \<not> rn_retry_ambiguous run \<or> pv_next_retry p > te_now env \<or> \<not> rn_broadcast run")
    case True
    then have "submit_pending run env mg ids rs = (rs, Inr False)" by (auto simp: submit_pending_def Some)
    then show ?thesis using assms Some by simp
  next
    case False
    let ?snap = "bindE (case mg of Some m \<Rightarrow> Inr m | None \<Rightarrow> te_metagraph env) snapshot_peers"
    show ?thesis
    proof (cases ?snap)
      case (Inl e)
      then have "note_failure env rs (pv_ambiguous p) = (rs', r)" using assms Some False by (auto simp: submit_pending_def)
      then show ?thesis using note_failure_quiet Some by blast
    next
      case (Inr peers)
      then have "submit_checked run env ids rs p peers = (rs', r)" using assms Some False by (auto simp: submit_pending_def)
      from submit_checked_cases [OF this] show ?thesis
      proof (elim disjE conjE)
        assume "stale_uids p peers = []" "transmit run env rs p = (rs', r)"
          and "pv_registrations p \<noteq> [] \<longrightarrow> (\<exists>current. (case ids of Some i \<Rightarrow> Inr i | None \<Rightarrow> current_ids run env rs peers) = Inr current \<and>
            set current = set (pv_registrations p))"
        moreover have "\<forall>(uid, hotkey) \<in> set (zip (pv_uids p) (pv_hotkeys p)). \<exists>q \<in> set peers. pr_uid q = uid \<and> pr_hotkey q = hotkey"
          using no_stale [OF \<open>stale_uids p peers = []\<close>] by blast
        ultimately show ?thesis using Some False Inr by (auto simp: may_send_def)
      qed (use Some in blast)
    qed
  qed
qed

lemma submit_pending_settles:
  assumes "submit_pending run env mg ids rs = (rs', r)"
  shows "settles (te_now env) (rs_state rs) (rs_state rs') \<and> rs_dir rs' = rs_dir rs \<and> rs_dry_round rs' = rs_dry_round rs \<and>
    (rs_sent rs' = rs_sent rs \<or> (\<exists>p. vs_pending (rs_state rs) = Some p \<and> may_send run env mg ids rs p \<and> rs_sent rs' = rs_sent rs @ [p]))"
  using submit_pending_cases [OF assms]
proof (elim disjE exE conjE)
  fix p
  assume p: "vs_pending (rs_state rs) = Some p" "rn_netuid run \<noteq> 39 \<longrightarrow> may_send run env mg ids rs p" "transmit run env rs p = (rs', r)"
  from transmit_cases [OF p(3)] p(1,2) show ?thesis by (auto split: if_splits)
qed (auto simp: quiet_def intro: settles.held)

section \<open>Properties of the submission\<close>

text \<open>C23. A vector is handed to the SDK only under broadcast, never on subnet 39, never while its outcome
  is ambiguous (unless the operator asks for it) or before its retry time, only when every UID of
  it still belongs to the hotkey it was computed for and the owner registrations it rests on are
  still the current ones; and the call answers True for a pending vector only when the SDK
  confirmed it.\<close>

theorem submission_is_guarded:
  assumes "submit_pending run env mg ids rs = (rs', r)"
  shows "(rs_sent rs' = rs_sent rs \<or> (\<exists>p. vs_pending (rs_state rs) = Some p \<and> rs_sent rs' = rs_sent rs @ [p] \<and>
      may_send run env mg ids rs p)) \<and>
    (\<forall>p. vs_pending (rs_state rs) = Some p \<and> r = Inr True \<longrightarrow>
      (\<exists>response. te_set_weights env p = Inr response \<and> response_succeeded response))"
proof (intro conjI allI impI)
  show "rs_sent rs' = rs_sent rs \<or> (\<exists>p. vs_pending (rs_state rs) = Some p \<and> rs_sent rs' = rs_sent rs @ [p] \<and>
      may_send run env mg ids rs p)" using submit_pending_settles [OF assms] by blast
next
  fix p
  assume "vs_pending (rs_state rs) = Some p \<and> r = Inr True"
  then have "transmit run env rs p = (rs', r)" "r = Inr True" using submit_pending_cases [OF assms] by auto
  then show "\<exists>response. te_set_weights env p = Inr response \<and> response_succeeded response" using transmit_cases by blast
qed

definition demo_pending :: pending where
  "demo_pending = \<lparr>pv_digest = ''d'', pv_uids = [4], pv_weights = [JFloat (Fin 1)], pv_hotkeys = [''m''],
     pv_provenance = None, pv_registrations = [], pv_attempts = 1, pv_next_retry = 500, pv_ambiguous = False\<rparr>"

definition demo_tick_env :: tick_env where
  "demo_tick_env = \<lparr>te_now = 1000, te_metagraph = Inr demo_metagraph, te_block = Inr 700,
     te_owner = (\<lambda>netuid block. raise ''no owner''), te_registration = (\<lambda>e nw nu b ow hks cp. raise ''none''),
     te_report = (\<lambda>e nw nu b cp. raise ''none''), te_set_weights = (\<lambda>p. Inr (RBool True)),
     te_limits = \<lparr>cl_min_allowed = Inr 1, cl_max_limit = Inr (Fin 1), cl_process = (\<lambda>us ws. Inr (us, ws))\<rparr>,
     te_round = demo_round_env, te_round_fault = NoFault, te_submit_fault = NoFault, te_write = WriteOk,
     te_describe = (\<lambda>e. [])\<rparr>"

definition demo_runner :: runner where
  "demo_runner = \<lparr>rn_config = demo_config, rn_policy = default_score_policy ''local'' 7, rn_broadcast = True,
     rn_retry_ambiguous = False, rn_records = True, rn_netuid = 7\<rparr>"

definition demo_runner_state :: "pending option \<Rightarrow> runner_state" where
  "demo_runner_state p = \<lparr>rs_state = (fresh_state ''fp'' (replicate 32 0))\<lparr>vs_pending := p\<rparr>, rs_store = empty_store,
     rs_dir = [], rs_dry_round = None, rs_sent = []\<rparr>"

lemma demo_submit:
  "\<exists>rs'. submit_pending demo_runner demo_tick_env None None (demo_runner_state (Some demo_pending)) = (rs', Inr True) \<and>
     rs_sent rs' = [demo_pending] \<and> vs_pending (rs_state rs') = None"
proof -
  have st: "stale_uids demo_pending demo_peers = []" by code_simp
  show ?thesis
    by (simp add: submit_pending_def demo_runner_state_def demo_pending_def demo_tick_env_def demo_runner_def demo_snapshot
        submit_checked_def st [unfolded demo_pending_def] transmit_def submit_weights_def response_succeeded_def
        commit_step_def note_submission_success_def commit_def save_state_def save_defs effect_defs
        empty_store_def Let_def split: prod.splits)
qed

theorem submission_is_guarded_witness:
  "may_send demo_runner demo_tick_env None None (demo_runner_state (Some demo_pending)) demo_pending \<and>
   (\<exists>response. te_set_weights demo_tick_env demo_pending = Inr response \<and> response_succeeded response)"
proof -
  obtain rs' where s: "submit_pending demo_runner demo_tick_env None None (demo_runner_state (Some demo_pending)) = (rs', Inr True)"
    "rs_sent rs' = [demo_pending]" using demo_submit by blast
  have p: "vs_pending (rs_state (demo_runner_state (Some demo_pending))) = Some demo_pending"
    "rs_sent (demo_runner_state (Some demo_pending)) = []" by (simp_all add: demo_runner_state_def)
  from submission_is_guarded [OF s(1)] p s(2) show ?thesis by simp
qed

end
