(* ===== verification/Validator_Tick.thy ===== *)
theory Validator_Tick
  imports Validator_Submit
begin

text \<open>
  \<open>cathedral_thin/validator.py\<close>, one tick of the validator (\<open>ValidatorRunner.tick\<close>): a pending
  vector is settled first; otherwise a new round is planned from the local evaluation and the
  external classes without touching the state, recorded, and only then committed and submitted.
  The result None is a challenge generation that never returns. The lemmas show what a tick keeps
  of the validator's state and that rounds only move forward.
\<close>

section \<open>Planning a round\<close>

record round_start =
  ro_metagraph :: metagraph
  ro_peers :: "peer list"
  ro_block :: int
  ro_round :: int

definition start_round :: "runner \<Rightarrow> tick_env \<Rightarrow> round_start res" where
  "start_round run env =
     bindE (te_metagraph env) (\<lambda>mg.
     bindE (snapshot_peers mg) (\<lambda>peers.
     bindE (te_block env) (\<lambda>block.
       if vc_round_blocks (rn_config run) = 0 then Inl PyZeroDivisionError
       else Inr \<lparr>ro_metagraph = mg, ro_peers = peers, ro_block = block,
              ro_round = block div vc_round_blocks (rn_config run)\<rparr>)))"

text \<open>The local class: its decision, if the policy has one, and the moving averages after the round.\<close>

definition local_scores ::
    "validator_config \<Rightarrow> score_map \<Rightarrow> peer list \<Rightarrow> (string \<times> round_result) list \<Rightarrow> string \<Rightarrow> dec
       \<Rightarrow> (score_map \<times> class_decision list) res" where
  "local_scores cfg ema peers results class_id allocation =
     (let observations = map (\<lambda>(hotkey, r). (hotkey, rr_score r)) results in
      bindE (update_ema ema observations (map pr_hotkey peers) (vc_alpha cfg)) (\<lambda>new_ema.
      bindE (gate_scores_by_current_verification new_ema observations) (\<lambda>eligible.
      bindE (local_class_decision class_id allocation eligible (coldkeys_of peers)
          (map (\<lambda>(hotkey, r). (hotkey, rr_reason r)) results)) (\<lambda>d.
        Inr (new_ema, [d])))))"

definition local_stage ::
    "runner \<Rightarrow> tick_env \<Rightarrow> validator_state \<Rightarrow> round_start \<Rightarrow> (score_map \<times> class_decision list) comp" where
  "local_stage run env st ro =
     (case local_class (rn_policy run) of
        Some (LocalClass class_id allocation) \<Rightarrow>
          bindO (evaluate_peers (te_round env) (ro_peers ro) st (rn_config run) (ro_round ro)) (\<lambda>results.
            Some (local_scores (rn_config run) (vs_ema st) (ro_peers ro) results class_id allocation))
      | _ \<Rightarrow> returnO (vs_ema st, []))"

definition read_source_checkpoint :: "jdict \<Rightarrow> source_checkpoint res" where
  "read_source_checkpoint raw =
     bindE (jitem raw ''source_epoch'') (\<lambda>ev. bindE (py_to_int ev) (\<lambda>epoch.
     bindE (jitem raw ''report_id'') (\<lambda>rid. Inr \<lparr>sc_epoch = epoch, sc_report_id = py_str rid\<rparr>)))"

record loaded_class =
  lc_policy :: external_policy
  lc_report :: verified_report
  lc_checkpoint :: source_checkpoint
  lc_registration :: "(verified_registration \<times> registration_checkpoint) option"

definition load_external ::
    "tick_env \<Rightarrow> validator_config \<Rightarrow> validator_state \<Rightarrow> int \<Rightarrow> registrations \<Rightarrow> external_policy \<Rightarrow> loaded_class res" where
  "load_external env cfg st block owners policy =
     bindE (case map_of (vs_class_checkpoints st) (ep_class_id policy) of
         None \<Rightarrow> Inr None
       | Some raw \<Rightarrow> bindE (read_source_checkpoint raw) (\<lambda>cp. Inr (Some cp))) (\<lambda>checkpoint.
     bindE (if ep_owner policy = None then Inr (policy, None)
            else
              (case map_of owners (ep_class_id policy) of
                 None \<Rightarrow> Inl PyKeyError
               | Some (g, gc) \<Rightarrow> bindE (materialize_registered_policy policy g) (\<lambda>effective. Inr (effective, Some (g, gc)))))
       (\<lambda>(effective, registration).
     bindE (te_report env effective (vc_network cfg) (vc_netuid cfg) block checkpoint) (\<lambda>(report, accepted).
       Inr \<lparr>lc_policy = effective, lc_report = report, lc_checkpoint = accepted, lc_registration = registration\<rparr>)))"

definition failure_reason :: "tick_env \<Rightarrow> py_error \<Rightarrow> string" where
  "failure_reason env e =
     (case e of ThinSubnetError msg \<Rightarrow> ''ThinSubnetError:'' @ take 200 msg | _ \<Rightarrow> te_describe env e)"

definition revoked_decision :: "external_policy \<Rightarrow> string \<Rightarrow> class_decision" where
  "revoked_decision policy reason =
     \<lparr>cd_class_id = ep_class_id policy, cd_kind = ''external'', cd_allocation = dec_str (ep_allocation policy),
      cd_source_id = Some (ep_source_id policy), cd_epoch = None, cd_report_id = None,
      cd_assignment = [(''mode'', JStr ''revoked_to_burn'')], cd_raw = [], cd_weights = [],
      cd_provenance = [(''class_failure'', JStr reason)]\<rparr>"

definition source_checkpoint_dict :: "source_checkpoint \<Rightarrow> jdict" where
  "source_checkpoint_dict c = [(''source_epoch'', JInt (sc_epoch c)), (''report_id'', JStr (sc_report_id c))]"

definition registration_checkpoint_dict :: "registration_checkpoint \<Rightarrow> jdict" where
  "registration_checkpoint_dict c =
     [(''owner_coldkey'', JStr (rc_owner c)), (''delegate_hotkey'', JStr (rc_delegate c)),
      (''sequence'', JInt (rc_sequence c)), (''registration_id'', JStr (rc_id c))]"

text \<open>What the loop over the external classes accumulates: the decisions and the next checkpoints.\<close>

record class_stage =
  cs_decisions :: "class_decision list"
  cs_checkpoints :: "(string \<times> jdict) list"
  cs_registrations :: "(string \<times> jdict) list"

definition external_step ::
    "tick_env \<Rightarrow> string option \<Rightarrow> (string \<times> string) list \<Rightarrow> class_stage
       \<Rightarrow> external_policy \<times> loaded_class res \<Rightarrow> class_stage res" where
  "external_step env burn coldkeys acc item =
     (case snd item of
        Inl e \<Rightarrow>
          if burn = None then Inl e
          else Inr (acc\<lparr>cs_decisions := cs_decisions acc @ [revoked_decision (fst item) (failure_reason env e)]\<rparr>)
      | Inr l \<Rightarrow>
          bindE (external_class_decision (lc_policy l) (lc_report l) coldkeys (map_option fst (lc_registration l))) (\<lambda>d.
            Inr (acc\<lparr>cs_decisions := cs_decisions acc @ [d],
               cs_checkpoints := dict_set (ep_class_id (lc_policy l)) (source_checkpoint_dict (lc_checkpoint l)) (cs_checkpoints acc),
               cs_registrations := (case lc_registration l of
                   None \<Rightarrow> cs_registrations acc
                 | Some (_, gc) \<Rightarrow> dict_set (ep_class_id (lc_policy l)) (registration_checkpoint_dict gc) (cs_registrations acc))\<rparr>)))"

text \<open>With a burn destination, owner authorizations that cannot be loaded count as absent.\<close>

definition owners_or_burn :: "string option \<Rightarrow> registrations res \<Rightarrow> registrations res" where
  "owners_or_burn burn loaded =
     (case loaded of
        Inl (ThinSubnetError msg) \<Rightarrow> if burn = None then raise msg else Inr []
      | r \<Rightarrow> r)"

definition external_stage ::
    "runner \<Rightarrow> tick_env \<Rightarrow> validator_state \<Rightarrow> round_start \<Rightarrow> class_decision list \<Rightarrow> (registrations \<times> class_stage) res" where
  "external_stage run env st ro local_decisions =
     (let policy = rn_policy run; cfg = rn_config run; classes = external_classes policy in
      bindE (owners_or_burn (sp_burn policy)
          (load_owner_registrations env cfg policy st (ro_peers ro) (ro_block ro) False)) (\<lambda>owners.
      bindE (foldE (external_step env (sp_burn policy) (coldkeys_of (ro_peers ro)))
          \<lparr>cs_decisions = local_decisions, cs_checkpoints = vs_class_checkpoints st,
           cs_registrations = vs_registration_checkpoints st\<rparr>
          (zip classes (map (load_external env cfg st (ro_block ro) owners) classes))) (\<lambda>stage.
        Inr (owners, stage))))"

definition ordered_decisions :: "score_policy \<Rightarrow> class_decision list \<Rightarrow> class_decision list res" where
  "ordered_decisions policy ds =
     (let by_id = dict_of_pairs (map (\<lambda>d. (cd_class_id d, d)) ds) in
      mapE (\<lambda>c. case map_of by_id (cp_class_id c) of None \<Rightarrow> Inl PyKeyError | Some d \<Rightarrow> Inr d) (sp_classes policy))"

section \<open>From decisions to the vector\<close>

definition f_abs :: "pyfloat \<Rightarrow> pyfloat" where
  "f_abs x = (if is_neg x then f_neg x else x)"

definition drifts :: "(int \<times> pyfloat) list \<Rightarrow> (int \<times> pyfloat) list \<Rightarrow> bool" where
  "drifts original prepared =
     (set (map fst prepared) \<noteq> set (map fst original) \<or>
      list_ex (\<lambda>(uid, w). case map_of prepared uid of
          None \<Rightarrow> False
        | Some w' \<Rightarrow> f_less (mk_float False (1 / 10 ^ 6)) (f_abs (f_sub w' w))) original)"

definition burn_only :: "string option \<Rightarrow> score_map \<Rightarrow> bool" where
  "burn_only burn weights =
     (case burn of None \<Rightarrow> False
      | Some b \<Rightarrow> (case weights of [(h, w)] \<Rightarrow> h = b \<and> f_eq w (Fin 1) | _ \<Rightarrow> False))"

definition vector_stage ::
    "score_policy \<Rightarrow> chain_limits \<Rightarrow> peer list \<Rightarrow> class_decision list \<Rightarrow> (int list \<times> pyfloat list) res" where
  "vector_stage policy lims peers ds =
     bindE (compose_class_decisions policy ds) (\<lambda>hotkey_weights.
     bindE (uid_vector hotkey_weights peers) (\<lambda>(uids, weights).
     if uids = [] \<or> burn_only (sp_burn policy) hotkey_weights then Inr (uids, weights)
     else
       bindE (prepare_weights lims uids weights) (\<lambda>(uids', weights').
       guardE (external_classes policy \<noteq> [] \<and>
           drifts (dict_of_pairs (zip uids weights)) (dict_of_pairs (zip uids' weights')))
         ''chain constraints would alter configured class allocations; held''
         (Inr (uids', weights')))))"

section \<open>Recording and committing\<close>

record round_plan =
  pl_start :: round_start
  pl_ema :: score_map
  pl_stage :: class_stage
  pl_owners :: registrations
  pl_uids :: "int list"
  pl_weights :: "pyfloat list"
  pl_document :: jdict
  pl_digest :: string

definition peer_json :: "peer \<Rightarrow> jdict" where
  "peer_json p = [(''uid'', JInt (pr_uid p)), (''hotkey'', JStr (pr_hotkey p)), (''coldkey'', JStr (pr_coldkey p)),
     (''serviceable'', JBool (pr_serviceable p))]"

definition plan_round :: "runner \<Rightarrow> tick_env \<Rightarrow> validator_state \<Rightarrow> round_start \<Rightarrow> round_plan comp" where
  "plan_round run env st ro =
     bindO (local_stage run env st ro) (\<lambda>(new_ema, local_decisions).
     Some (
       bindE (external_stage run env st ro local_decisions) (\<lambda>(owners, stage).
       bindE (ordered_decisions (rn_policy run) (cs_decisions stage)) (\<lambda>ds.
       bindE (vector_stage (rn_policy run) (te_limits env) (ro_peers ro) ds) (\<lambda>(uids, weights).
       bindE (decision_document (vc_hotkey (rn_config run)) (vc_network (rn_config run)) (vc_netuid (rn_config run))
           (ro_round ro) (ro_block ro) (sp_digest (rn_policy run)) ds (map peer_json (ro_peers ro)) uids weights) (\<lambda>(document, digest).
         Inr \<lparr>pl_start = ro, pl_ema = new_ema, pl_stage = stage, pl_owners = owners, pl_uids = uids,
            pl_weights = weights, pl_document = document, pl_digest = digest\<rparr>))))))"

definition advance :: "round_plan \<Rightarrow> validator_state \<Rightarrow> validator_state" where
  "advance plan st =
     st\<lparr>vs_ema := pl_ema plan, vs_class_checkpoints := cs_checkpoints (pl_stage plan),
        vs_registration_checkpoints := cs_registrations (pl_stage plan), vs_last_round := ro_round (pl_start plan)\<rparr>"

definition vector_hotkeys :: "peer list \<Rightarrow> int list \<Rightarrow> string list res" where
  "vector_hotkeys peers uids =
     mapE (\<lambda>uid. case map_of (dict_of_pairs (map (\<lambda>q. (pr_uid q, pr_hotkey q)) peers)) uid of
         None \<Rightarrow> raise (''weight processor returned unknown UID '' @ int_str uid)
       | Some hotkey \<Rightarrow> Inr hotkey) uids"

text \<open>Everything after \<open>self.state.ema_scores = new_ema\<close>: an exception between here and the save
  leaves the advanced state in memory.\<close>

definition complete_round :: "runner \<Rightarrow> tick_env \<Rightarrow> runner_state \<Rightarrow> round_plan \<Rightarrow> runner_state \<times> bool res" where
  "complete_round run env rs plan =
     (let st = advance plan (rs_state rs); peers = ro_peers (pl_start plan); ids = registration_ids (pl_owners plan) in
      if pl_uids plan = [] then commit (te_round_fault env) rs st (Inr True)
      else
        (case bindE (vector_hotkeys peers (pl_uids plan)) (\<lambda>hotkeys.
            mark_pending st (pl_uids plan) (pl_weights plan) hotkeys (Some (pl_digest plan)) ids) of
           Inl e \<Rightarrow> (rs\<lparr>rs_state := st\<rparr>, Inl e)
         | Inr st' \<Rightarrow>
             (case commit (te_round_fault env) rs st' (Inr ()) of
                (rs', Inl e) \<Rightarrow> (rs', Inl e)
              | (rs', Inr _) \<Rightarrow> submit_pending run env (Some (ro_metagraph (pl_start plan))) (Some ids) rs')))"

definition finish_round :: "runner \<Rightarrow> tick_env \<Rightarrow> runner_state \<Rightarrow> round_plan \<Rightarrow> runner_state \<times> bool res" where
  "finish_round run env rs plan =
     (case (if rn_records run then write_decision (te_write env) (rs_dir rs) (pl_document plan) else (rs_dir rs, Inr [])) of
        (dir, Inl e) \<Rightarrow> (rs\<lparr>rs_dir := dir\<rparr>, Inl e)
      | (dir, Inr _) \<Rightarrow>
          if \<not> rn_broadcast run
          then (rs\<lparr>rs_dir := dir, rs_dry_round := Some (ro_round (pl_start plan))\<rparr>, Inr True)
          else complete_round run env (rs\<lparr>rs_dir := dir\<rparr>) plan)"

section \<open>The tick\<close>

definition tick :: "runner \<Rightarrow> tick_env \<Rightarrow> runner_state \<Rightarrow> (runner_state \<times> bool res) option" where
  "tick run env rs =
     (if vs_pending (rs_state rs) \<noteq> None then Some (submit_pending run env None None rs)
      else
        (case start_round run env of
           Inl e \<Rightarrow> Some (rs, Inl e)
         | Inr ro \<Rightarrow>
             if \<not> rn_broadcast run \<and> rs_dry_round rs = Some (ro_round ro) then Some (rs, Inr True)
             else if ro_round ro \<le> vs_last_round (rs_state rs) then Some (rs, Inr True)
             else
               (case plan_round run env (rs_state rs) ro of
                  None \<Rightarrow> None
                | Some (Inl e) \<Rightarrow> Some (rs, Inl e)
                | Some (Inr plan) \<Rightarrow> Some (finish_round run env rs plan))))"

end
