(* ===== verification/Validator_Runs.thy ===== *)
theory Validator_Runs
  imports Validator_Tick
begin

text \<open>
  What the validator's ticks keep. The loaders a tick uses share a contract, the locale
  \<open>artifact_loaders\<close>, which the mirror loaders of \<open>score_classes.py\<close> satisfy. Over it: the state
  invariant of the durable state, the progress of rounds and checkpoints, and the decision record
  behind every vector, for single ticks and for every run of ticks.
\<close>

section \<open>The loaders' contract\<close>

definition good_source :: "source_checkpoint \<Rightarrow> bool" where
  "good_source c = (0 \<le> sc_epoch c \<and> sha_ref (JStr (sc_report_id c)))"

definition good_authority :: "registration_checkpoint \<Rightarrow> bool" where
  "good_authority c = (rc_owner c \<noteq> [] \<and> rc_delegate c \<noteq> [] \<and> 0 \<le> rc_sequence c \<and> sha_ref (JStr (rc_id c)))"

definition follows :: "source_checkpoint \<Rightarrow> source_checkpoint \<Rightarrow> bool" where
  "follows c c' = (sc_epoch c \<le> sc_epoch c' \<and> (sc_epoch c' = sc_epoch c \<longrightarrow> sc_report_id c' = sc_report_id c))"

locale artifact_loaders =
  fixes report :: "external_policy \<Rightarrow> string \<Rightarrow> int \<Rightarrow> int \<Rightarrow> source_checkpoint option \<Rightarrow> (verified_report \<times> source_checkpoint) res"
    and registration :: "external_policy \<Rightarrow> string \<Rightarrow> int \<Rightarrow> int \<Rightarrow> string \<Rightarrow> (string \<times> string) list
       \<Rightarrow> registration_checkpoint option \<Rightarrow> (verified_registration \<times> registration_checkpoint) res"
  assumes report_good: "report e network netuid block cp = Inr (r, c) \<Longrightarrow> good_source c"
    and report_follows: "report e network netuid block (Some c0) = Inr (r, c) \<Longrightarrow> follows c0 c"
    and registration_good: "registration e network netuid block owner hotkeys rcp = Inr (g, rc) \<Longrightarrow>
      (\<And>c0. rcp = Some c0 \<Longrightarrow> good_authority c0) \<Longrightarrow> good_authority rc"

lemma sha_ref_prefixed: "sha_ref (JStr (prefixed_digest l b))"
proof -
  have "removeprefix (''sha256:'' @ sha256_hex m) ''sha256:'' = sha256_hex m" for m
    by (simp add: removeprefix_def starts_with_def)
  moreover have "starts_with (''sha256:'' @ sha256_hex m) ''sha256:''" for m by (simp add: starts_with_def)
  moreover have "fromhex (sha256_hex m) = Inr (sha256 m)" for m by (simp add: sha256_hex_def fromhex_hex_of)
  ultimately show ?thesis unfolding sha_ref_def prefixed_digest_def json.case by simp
qed

lemma loaded_report_good:
  assumes "load_best_report w e network netuid block cp now = Inr (r, c)"
  shows "good_source c \<and> (\<forall>c0. cp = Some c0 \<longrightarrow> follows c0 c)"
proof -
  obtain raw where raw: "verify_report w raw e network netuid block now = Inr r" "sc_epoch c = vr_epoch r"
    "sc_report_id c = vr_report_id r"
    and f: "case cp of None \<Rightarrow> True | Some c0 \<Rightarrow> sc_epoch c0 \<le> vr_epoch r \<and> (vr_epoch r = sc_epoch c0 \<longrightarrow> vr_report_id r = sc_report_id c0)"
    using load_best_report_sound [OF assms] by blast
  have "0 \<le> vr_epoch r" "vr_report_id r = report_id_for (vr_document r)"
    using verify_report_ok [OF raw(1)] by (simp_all add: report_ok_def Let_def)
  then show ?thesis using raw f sha_ref_prefixed by (auto simp: good_source_def report_id_for_def follows_def)
qed

lemma registration_parties_nonempty:
  "registration_parties op d network netuid current_owner registered = Inr (owner, delegate) \<Longrightarrow> owner \<noteq> [] \<and> delegate \<noteq> []"
  by (auto simp: registration_parties_def text_between_def utf8_length_def elim!: guardE_InrE split: json.splits)

lemma checked_registration_good:
  assumes "check_registration w raw e network netuid block owner hotkeys now = Inr g"
  shows "rg_owner g \<noteq> [] \<and> rg_delegate g \<noteq> [] \<and> 0 \<le> rg_sequence g \<and> sha_ref (JStr (rg_id g))"
proof -
  have "\<exists>op d. registration_parties op d network netuid owner hotkeys = Inr (rg_owner g, rg_delegate g)"
  proof (cases "ep_owner e")
    case (Some op)
    from assms show ?thesis unfolding check_registration_def Some option.case
      by (auto elim!: bindE_InrE guardE_InrE require_exact_keys_InrE)
  qed (use assms in \<open>simp add: check_registration_def\<close>)
  moreover have "0 \<le> rg_sequence g" "rg_id g = registration_id_for (rg_document g)"
    using check_registration_ok(1) [OF assms] by (simp_all add: registration_ok_def Let_def)
  moreover have "rg_owner g \<noteq> [] \<and> rg_delegate g \<noteq> []" using calculation(1) registration_parties_nonempty by blast
  ultimately show ?thesis using sha_ref_prefixed by (simp add: registration_id_for_def)
qed

lemma loaded_registration_good:
  assumes "load_best_owner_registration w e network netuid block owner hotkeys cp now = Inr (g, c)"
    and cp: "\<And>c0. cp = Some c0 \<Longrightarrow> good_authority c0"
  shows "good_authority c"
proof -
  obtain op where op: "ep_owner e = Some op"
    using assms(1) by (cases "ep_owner e") (simp_all add: load_best_owner_registration_def)
  obtain found where g: "gather (\<lambda>l. bindE (fetch_report w l) (\<lambda>raw.
      verify_owner_registration w raw e network netuid block owner hotkeys cp now)) 0 (op_locations op) = Inr found"
    and s: "select_best (\<lambda>v. rg_sequence (fst v)) (\<lambda>v. rg_id (fst v))
            (''no valid owner registration for class '' @ ep_class_id e @ '': '')
            ''owner registration mirrors expose same-sequence equivocation'' found = Inr (g, c)"
    using assms(1) unfolding load_best_owner_registration_def op option.case by (rule bindE_InrE)
  obtain vs es where f: "found = (vs, es)" by (cases found)
  have "(g, c) \<in> set vs" using select_best_sound [OF s] by (simp add: f)
  then obtain raw where "verify_owner_registration w raw e network netuid block owner hotkeys cp now = Inr (g, c)"
    using gather_sound [OF g [unfolded f]] by (auto elim!: bindE_InrE)
  then have ch: "check_registration w raw e network netuid block owner hotkeys now = Inr g"
    and en: "enforce_registration_checkpoint g cp = Inr c" by (auto simp: verify_owner_registration_def elim!: bindE_InrE)
  have "good_authority \<lparr>rc_owner = rg_owner g, rc_delegate = rg_delegate g, rc_sequence = rg_sequence g, rc_id = rg_id g\<rparr>"
    using checked_registration_good [OF ch] by (simp add: good_authority_def)
  moreover have "c = \<lparr>rc_owner = rg_owner g, rc_delegate = rg_delegate g, rc_sequence = rg_sequence g, rc_id = rg_id g\<rparr> \<or> cp = Some c"
    using en by (auto simp: enforce_registration_checkpoint_def Let_def elim!: guardE_InrE split: option.splits if_splits)
  ultimately show ?thesis using cp by auto
qed

interpretation mirror_loaders: artifact_loaders
  "\<lambda>e network netuid block cp. load_best_report w e network netuid block cp now"
  "\<lambda>e network netuid block owner hotkeys cp. load_best_owner_registration w e network netuid block owner hotkeys cp now"
  for w now
  by unfold_locales (auto dest: loaded_report_good loaded_registration_good)

section \<open>Checkpoints move forward\<close>

definition cp_forward :: "(string \<times> jdict) list \<Rightarrow> (string \<times> jdict) list \<Rightarrow> bool" where
  "cp_forward a b = (\<forall>k raw c. map_of a k = Some raw \<longrightarrow> read_source_checkpoint raw = Inr c \<longrightarrow>
     (\<exists>raw' c'. map_of b k = Some raw' \<and> read_source_checkpoint raw' = Inr c' \<and> follows c c'))"

lemma follows_refl [simp]: "follows c c"
  by (simp add: follows_def)

lemma follows_trans: "follows a b \<Longrightarrow> follows b c \<Longrightarrow> follows a c"
  by (auto simp: follows_def)

lemma cp_forward_refl [simp]: "cp_forward a a"
  by (auto simp: cp_forward_def)

lemma cp_forward_trans: "cp_forward a b \<Longrightarrow> cp_forward b c \<Longrightarrow> cp_forward a c"
  unfolding cp_forward_def using follows_trans by meson

lemma read_source_dict [simp]: "read_source_checkpoint (source_checkpoint_dict c) = Inr c"
  by (simp add: read_source_checkpoint_def source_checkpoint_dict_def jitem_def py_to_int_def py_str_def)

lemma cp_forward_set:
  assumes "cp_forward a b"
    and "\<And>raw c0. map_of a k = Some raw \<Longrightarrow> read_source_checkpoint raw = Inr c0 \<Longrightarrow> follows c0 c"
  shows "cp_forward a (dict_set k (source_checkpoint_dict c) b)"
  unfolding cp_forward_def
proof (intro allI impI)
  fix k' raw c0
  assume r: "map_of a k' = Some raw" "read_source_checkpoint raw = Inr c0"
  show "\<exists>raw' c'. map_of (dict_set k (source_checkpoint_dict c) b) k' = Some raw' \<and> read_source_checkpoint raw' = Inr c' \<and> follows c0 c'"
  proof (cases "k' = k")
    case True
    then show ?thesis using assms(2) r by simp
  next
    case False
    then show ?thesis using assms(1) r unfolding cp_forward_def by simp
  qed
qed

lemma source_dict_ok: "cid \<noteq> [] \<Longrightarrow> good_source c \<Longrightarrow> class_checkpoint_ok (cid, source_checkpoint_dict c)"
  by (auto simp: class_checkpoint_ok_def source_checkpoint_dict_def keys_are_def nat_field_def jget_def good_source_def)

lemma authority_dict_ok: "cid \<noteq> [] \<Longrightarrow> good_authority c \<Longrightarrow> registration_checkpoint_ok (cid, registration_checkpoint_dict c)"
  by (auto simp: registration_checkpoint_ok_def registration_checkpoint_dict_def keys_are_def nat_field_def jget_def
      good_authority_def nonempty_str_def)

definition owners_ok :: "registrations \<Rightarrow> bool" where
  "owners_ok rs = (\<forall>(cid, g, gc) \<in> set rs. good_authority gc)"

definition stage_ok :: "validator_state \<Rightarrow> class_stage \<Rightarrow> bool" where
  "stage_ok st acc = (list_all class_checkpoint_ok (cs_checkpoints acc) \<and>
     list_all registration_checkpoint_ok (cs_registrations acc) \<and> cp_forward (vs_class_checkpoints st) (cs_checkpoints acc))"

lemma sha_ref_other [simp]: "\<not> sha_ref JNull" "\<not> sha_ref (JBool b)" "\<not> sha_ref (JInt n)" "\<not> sha_ref (JFloat x)"
    "\<not> sha_ref (JArr vs)" "\<not> sha_ref (JObj kvs)"
  by (simp_all add: sha_ref_def)

lemma read_authority_ok:
  assumes "registration_checkpoint_ok (k, raw)" "read_registration_checkpoint raw = Inr c"
  shows "good_authority c"
  using assms by (auto simp: registration_checkpoint_ok_def read_registration_checkpoint_def good_authority_def
      jget_def jitem_def nonempty_str_def nat_field_def py_to_int_def py_str_def elim!: bindE_InrE split: option.splits json.splits)

lemma list_all_dict_set: "list_all P d \<Longrightarrow> P (k, v) \<Longrightarrow> list_all P (dict_set k v d)"
  using set_dict_set [of k v d] by (auto simp: list_all_iff)

lemma external_decision_id: "external_class_decision policy r cks g = Inr d \<Longrightarrow> cd_class_id d = ep_class_id policy"
  by (auto simp: external_class_decision_def elim!: bindE_InrE guardE_InrE)

context artifact_loaders
begin

lemma load_registration_parts:
  assumes "load_registration env cfg st block same owners registered (e, op) = Inr (cid, g, gc)" "te_registration env = registration"
  shows "\<exists>owner cp. registration e (vc_network cfg) (vc_netuid cfg) block owner registered cp = Inr (g, gc) \<and>
    (\<forall>c0. cp = Some c0 \<longrightarrow> (\<exists>raw. map_of (vs_registration_checkpoints st) (ep_class_id e) = Some raw \<and>
        read_registration_checkpoint raw = Inr c0))"
proof -
  let ?cp = "case map_of (vs_registration_checkpoints st) (ep_class_id e) of None \<Rightarrow> Inr None
          | Some raw \<Rightarrow> bindE (read_registration_checkpoint raw) (\<lambda>cp. Inr (Some cp))"
  obtain cp where cp: "?cp = Inr cp" and k: "(case map_of owners (op_source_netuid op) of
          None \<Rightarrow> Inl PyKeyError
        | Some owner \<Rightarrow>
            same_authority (ep_class_id e) owner registered (if same then cp else None)
              (bindE (te_registration env e (vc_network cfg) (vc_netuid cfg) block owner registered cp)
                (\<lambda>loaded. Inr (ep_class_id e, loaded)))) = Inr (cid, g, gc)"
    using assms(1) unfolding load_registration_def prod.case by (rule bindE_InrE)
  then obtain owner where "registration e (vc_network cfg) (vc_netuid cfg) block owner registered cp = Inr (g, gc)"
    using assms(2) by (auto simp: same_authority_def elim!: bindE_InrE guardE_InrE split: option.split_asm if_split_asm)
  moreover have "\<exists>raw. map_of (vs_registration_checkpoints st) (ep_class_id e) = Some raw \<and> read_registration_checkpoint raw = Inr c0"
    if "cp = Some c0" for c0 using cp that by (auto elim!: bindE_InrE split: option.splits)
  ultimately show ?thesis by blast
qed

lemma loaded_owners_ok:
  assumes env: "te_registration env = registration"
    and l: "load_owner_registrations env cfg policy st peers block same = Inr owners"
    and st: "list_all registration_checkpoint_ok (vs_registration_checkpoints st)"
  shows "owners_ok owners"
proof (cases "owned_classes policy = []")
  case True
  then show ?thesis using l by (simp add: load_owner_registrations_def owners_ok_def)
next
  case False
  then obtain os loaded where m: "mapE (load_registration env cfg st block same (dict_of_pairs os) (coldkeys_of peers)) (owned_classes policy) = Inr loaded"
    and o: "owners = dict_of_pairs loaded"
    using l by (auto simp: load_owner_registrations_def Let_def elim!: bindE_InrE)
  have "good_authority gc" if mem: "(cid, g, gc) \<in> set loaded" for cid g gc
  proof -
    obtain e op where "load_registration env cfg st block same (dict_of_pairs os) (coldkeys_of peers) (e, op) = Inr (cid, g, gc)"
      using mapE_all [OF m mem] by fastforce
    from load_registration_parts [OF this env] obtain owner cp where
      r: "registration e (vc_network cfg) (vc_netuid cfg) block owner (coldkeys_of peers) cp = Inr (g, gc)"
      and c: "\<And>c0. cp = Some c0 \<Longrightarrow> \<exists>raw. map_of (vs_registration_checkpoints st) (ep_class_id e) = Some raw \<and>
        read_registration_checkpoint raw = Inr c0" by blast
    have "good_authority c0" if c0: "cp = Some c0" for c0
    proof -
      from c [OF c0] obtain raw where raw: "map_of (vs_registration_checkpoints st) (ep_class_id e) = Some raw"
        "read_registration_checkpoint raw = Inr c0" by blast
      then have "registration_checkpoint_ok (ep_class_id e, raw)" using st map_of_SomeD [OF raw(1)] by (auto simp: list_all_iff)
      then show ?thesis using raw(2) by (rule read_authority_ok)
    qed
    with r show ?thesis by (rule registration_good)
  qed
  then show ?thesis using dict_of_pairs_mem unfolding o owners_ok_def by fastforce
qed

lemma load_external_ok:
  assumes env: "te_report env = report" and l: "load_external env cfg st block owners policy = Inr l" and o: "owners_ok owners"
  shows "ep_class_id (lc_policy l) = ep_class_id policy \<and> good_source (lc_checkpoint l) \<and>
    (\<forall>raw c0. map_of (vs_class_checkpoints st) (ep_class_id policy) = Some raw \<longrightarrow> read_source_checkpoint raw = Inr c0 \<longrightarrow>
       follows c0 (lc_checkpoint l)) \<and>
    (\<forall>g gc. lc_registration l = Some (g, gc) \<longrightarrow> good_authority gc)"
proof -
  let ?cp = "case map_of (vs_class_checkpoints st) (ep_class_id policy) of None \<Rightarrow> Inr None
       | Some raw \<Rightarrow> bindE (read_source_checkpoint raw) (\<lambda>cp. Inr (Some cp))"
  let ?e = "if ep_owner policy = None then Inr (policy, None)
            else (case map_of owners (ep_class_id policy) of
                 None \<Rightarrow> Inl PyKeyError
               | Some (g, gc) \<Rightarrow> bindE (materialize_registered_policy policy g) (\<lambda>effective. Inr (effective, Some (g, gc))))"
  obtain cp where cp: "?cp = Inr cp"
    and k: "bindE ?e (\<lambda>(effective, reg). bindE (report effective (vc_network cfg) (vc_netuid cfg) block cp) (\<lambda>(r, accepted).
       Inr \<lparr>lc_policy = effective, lc_report = r, lc_checkpoint = accepted, lc_registration = reg\<rparr>)) = Inr l"
    using l unfolding load_external_def env by (rule bindE_InrE)
  obtain er where e0: "?e = Inr er" and k2: "(case er of (effective, reg) \<Rightarrow>
       bindE (report effective (vc_network cfg) (vc_netuid cfg) block cp) (\<lambda>(r, accepted).
       Inr \<lparr>lc_policy = effective, lc_report = r, lc_checkpoint = accepted, lc_registration = reg\<rparr>)) = Inr l"
    using k by (rule bindE_InrE)
  obtain effective reg where er: "er = (effective, reg)" by (cases er)
  obtain r where r: "report effective (vc_network cfg) (vc_netuid cfg) block cp = Inr (r, lc_checkpoint l)"
    and lc: "lc_policy l = effective" "lc_registration l = reg"
    using k2 unfolding er by (auto elim!: bindE_InrE)
  note e = e0 [unfolded er]
  have "ep_class_id effective = ep_class_id policy"
    using e by (auto simp: materialize_registered_policy_def elim!: bindE_InrE guardE_InrE split: if_splits option.splits)
  moreover have "good_authority gc" if "reg = Some (g, gc)" for g gc
  proof -
    have "map_of owners (ep_class_id policy) = Some (g, gc)"
      using e that by (auto elim!: bindE_InrE split: if_splits option.splits)
    then show ?thesis using o map_of_SomeD unfolding owners_ok_def by fastforce
  qed
  moreover have "follows c0 (lc_checkpoint l)"
    if "map_of (vs_class_checkpoints st) (ep_class_id policy) = Some raw" "read_source_checkpoint raw = Inr c0" for raw c0
    using cp that r report_follows by simp
  ultimately show ?thesis using report_good [OF r] lc by simp
qed

lemma external_step_ok:
  assumes env: "te_report env = report" and o: "owners_ok owners" and ne: "ep_class_id policy \<noteq> []"
    and ok: "stage_ok st acc"
    and s: "external_step env burn coldkeys acc (policy, load_external env cfg st block owners policy) = Inr acc'"
  shows "stage_ok st acc'"
proof (cases "load_external env cfg st block owners policy")
  case (Inl e)
  then show ?thesis using s ok by (auto simp: external_step_def stage_ok_def split: if_splits)
next
  case (Inr l)
  note l = load_external_ok [OF env Inr o]
  obtain d where acc': "acc' = acc\<lparr>cs_decisions := cs_decisions acc @ [d],
               cs_checkpoints := dict_set (ep_class_id (lc_policy l)) (source_checkpoint_dict (lc_checkpoint l)) (cs_checkpoints acc),
               cs_registrations := (case lc_registration l of
                   None \<Rightarrow> cs_registrations acc
                 | Some (_, gc) \<Rightarrow> dict_set (ep_class_id (lc_policy l)) (registration_checkpoint_dict gc) (cs_registrations acc))\<rparr>"
    using s by (auto simp: external_step_def Inr elim!: bindE_InrE)
  have "list_all class_checkpoint_ok (cs_checkpoints acc')"
    using ok l ne source_dict_ok by (auto simp: acc' stage_ok_def intro!: list_all_dict_set)
  moreover have "list_all registration_checkpoint_ok (cs_registrations acc')"
    using ok l ne authority_dict_ok by (auto simp: acc' stage_ok_def intro!: list_all_dict_set split: option.splits)
  moreover have "cp_forward (vs_class_checkpoints st) (cs_checkpoints acc')"
    using ok l by (auto simp: acc' stage_ok_def intro!: cp_forward_set)
  ultimately show ?thesis by (simp add: stage_ok_def)
qed

end

section \<open>Planning keeps the invariant\<close>

definition runner_ok :: "runner \<Rightarrow> bool" where
  "runner_ok run = (policy_ok (rn_policy run) \<and> unit_float (vc_alpha (rn_config run)) \<and> 0 < fval (vc_alpha (rn_config run)) \<and>
     float_ok (vc_reference (rn_config run)) \<and> float_ok (vc_share (rn_config run)))"

lemma external_class_id: "policy_ok p \<Longrightarrow> e \<in> set (external_classes p) \<Longrightarrow> ep_class_id e \<noteq> []"
  by (force simp: external_classes_def policy_ok_def class_ok_def identifier_text_def split: class_policy.splits)

lemma local_ema_unit:
  assumes "local_stage run env st ro = Some (Inr (new_ema, ds))" "runner_ok run" "\<forall>v \<in> snd ` set (vs_ema st). unit_float v"
  shows "\<forall>v \<in> snd ` set new_ema. unit_float v"
proof -
  consider "new_ema = vs_ema st"
    | class_id allocation results where
      "evaluate_peers (te_round env) (ro_peers ro) st (rn_config run) (ro_round ro) = Some (Inr results)"
      "local_scores (rn_config run) (vs_ema st) (ro_peers ro) results class_id allocation = Inr (new_ema, ds)"
    using assms(1) by (auto simp: local_stage_def elim!: bindO_returnE split: option.split_asm class_policy.split_asm)
  then show ?thesis
  proof cases
    case 2
    let ?obs = "map (\<lambda>(hotkey, r). (hotkey, rr_score r)) results"
    have "unit_float v" if v: "v \<in> snd ` set ?obs" for v
    proof -
      obtain h r where "(h, r) \<in> set results" "v = rr_score r" using v by auto
      then show ?thesis using evaluation_checked [OF 2(1)] assms(2) by (simp add: runner_ok_def)
    qed
    then have obs: "\<forall>v \<in> snd ` set ?obs. unit_float v" by blast
    have "update_ema (vs_ema st) ?obs (map pr_hotkey (ro_peers ro)) (vc_alpha (rn_config run)) = Inr new_ema"
      using 2(2) unfolding local_scores_def Let_def by (auto elim!: bindE_InrE)
    moreover obtain out where "update_ema (vs_ema st) ?obs (map pr_hotkey (ro_peers ro)) (vc_alpha (rn_config run)) = Inr out"
      "\<forall>v \<in> snd ` set out. unit_float v"
      using update_ema_unit [OF assms(3) obs] assms(2) unfolding runner_ok_def by blast
    ultimately show ?thesis by simp
  qed (use assms(3) in simp)
qed

lemma owners_or_burn_ok: "owners_or_burn burn r = Inr owners \<Longrightarrow> (\<And>o'. r = Inr o' \<Longrightarrow> owners_ok o') \<Longrightarrow> owners_ok owners"
  by (auto simp: owners_or_burn_def owners_ok_def split: sum.splits py_error.splits if_splits)

context artifact_loaders
begin

lemma external_stage_ok:
  assumes env: "te_report env = report" "te_registration env = registration"
    and s: "external_stage run env st ro ds = Inr (owners, stage)"
    and p: "policy_ok (rn_policy run)" and st: "list_all class_checkpoint_ok (vs_class_checkpoints st)"
      "list_all registration_checkpoint_ok (vs_registration_checkpoints st)"
  shows "stage_ok st stage"
proof -
  let ?classes = "external_classes (rn_policy run)" and ?cfg = "rn_config run"
  from s have ow: "owners_or_burn (sp_burn (rn_policy run))
      (load_owner_registrations env ?cfg (rn_policy run) st (ro_peers ro) (ro_block ro) False) = Inr owners"
    and f: "foldE (external_step env (sp_burn (rn_policy run)) (coldkeys_of (ro_peers ro)))
          \<lparr>cs_decisions = ds, cs_checkpoints = vs_class_checkpoints st, cs_registrations = vs_registration_checkpoints st\<rparr>
          (zip ?classes (map (load_external env ?cfg st (ro_block ro) owners) ?classes)) = Inr stage"
    unfolding external_stage_def Let_def by (auto elim!: bindE_InrE)
  have ok: "owners_ok owners" using owners_or_burn_ok [OF ow] loaded_owners_ok [OF env(2) _ st(2)] by blast
  show ?thesis using f
  proof (rule foldE_invariant)
    show "stage_ok st \<lparr>cs_decisions = ds, cs_checkpoints = vs_class_checkpoints st, cs_registrations = vs_registration_checkpoints st\<rparr>"
      using st by (simp add: stage_ok_def)
  next
    fix acc x acc'
    assume x: "x \<in> set (zip ?classes (map (load_external env ?cfg st (ro_block ro) owners) ?classes))"
      and a: "stage_ok st acc" "external_step env (sp_burn (rn_policy run)) (coldkeys_of (ro_peers ro)) acc x = Inr acc'"
    obtain e where e: "e \<in> set ?classes" "x = (e, load_external env ?cfg st (ro_block ro) owners e)"
      using x by (auto simp: zip_map2 zip_same_conv_map)
    from external_step_ok [OF env(1) ok external_class_id [OF p e(1)] a(1) a(2) [unfolded e(2)]] show "stage_ok st acc'" .
  qed
qed

lemma plan_round_ok:
  assumes env: "te_report env = report" "te_registration env = registration"
    and plan: "plan_round run env st ro = Some (Inr pl)" and run: "runner_ok run" and st: "live_ok fp st"
  shows "live_ok fp (advance pl st) \<and> cp_forward (vs_class_checkpoints st) (vs_class_checkpoints (advance pl st)) \<and> pl_start pl = ro"
proof -
  from plan obtain new_ema ds where l: "local_stage run env st ro = Some (Inr (new_ema, ds))"
    and k: "bindE (external_stage run env st ro ds) (\<lambda>(owners, stage).
       bindE (ordered_decisions (rn_policy run) (cs_decisions stage)) (\<lambda>ds.
       bindE (vector_stage (rn_policy run) (te_limits env) (ro_peers ro) ds) (\<lambda>(uids, weights).
       bindE (decision_document (vc_hotkey (rn_config run)) (vc_network (rn_config run)) (vc_netuid (rn_config run))
           (ro_round ro) (ro_block ro) (sp_digest (rn_policy run)) ds (map peer_json (ro_peers ro)) uids weights) (\<lambda>(document, digest).
         Inr \<lparr>pl_start = ro, pl_ema = new_ema, pl_stage = stage, pl_owners = owners, pl_uids = uids,
            pl_weights = weights, pl_document = document, pl_digest = digest\<rparr>)))) = Inr pl"
    unfolding plan_round_def by (auto elim!: bindO_returnE)
  have pl: "pl_start pl = ro" "pl_ema pl = new_ema" "\<exists>owners. external_stage run env st ro ds = Inr (owners, pl_stage pl)"
    using k by (auto elim!: bindE_InrE)
  have st': "list_all class_checkpoint_ok (vs_class_checkpoints st)" "list_all registration_checkpoint_ok (vs_registration_checkpoints st)"
    "policy_ok (rn_policy run)" "\<forall>v \<in> snd ` set (vs_ema st). unit_float v"
    using st run by (simp_all add: live_ok_def state_ok_def runner_ok_def)
  have sk: "stage_ok st (pl_stage pl)" using pl(3) external_stage_ok [OF env _ st'(3,1,2)] by blast
  have em: "\<forall>v \<in> snd ` set (pl_ema pl). unit_float v" using local_ema_unit [OF l run st'(4)] pl(2) by simp
  then have "\<forall>kv \<in> set (pl_ema pl). nonneg (snd kv)" by (auto simp: unit_float_def nonneg_iff)
  then have "live_ok fp (advance pl st)" using st sk em
    by (auto simp: live_ok_def state_ok_def advance_def stage_ok_def master_secret_def)
  then show ?thesis using sk pl(1) by (simp add: stage_ok_def advance_def)
qed

end

section \<open>The outcomes of a tick\<close>

lemma complete_round_cases:
  assumes "complete_round run env rs plan = (rs', r)"
  shows "\<exists>st. (st = advance plan (rs_state rs) \<or>
      (\<exists>hotkeys. mark_pending (advance plan (rs_state rs)) (pl_uids plan) (pl_weights plan) hotkeys (Some (pl_digest plan))
         (registration_ids (pl_owners plan)) = Inr st)) \<and>
    settles (te_now env) st (rs_state rs') \<and> rs_dir rs' = rs_dir rs \<and> rs_dry_round rs' = rs_dry_round rs \<and>
    (rs_sent rs' = rs_sent rs \<or> (\<exists>p. vs_pending st = Some p \<and> rn_netuid run \<noteq> 39 \<and> rs_sent rs' = rs_sent rs @ [p]))"
proof -
  let ?st = "advance plan (rs_state rs)" and ?ids = "registration_ids (pl_owners plan)"
  show ?thesis
  proof (cases "pl_uids plan = []")
    case True
    then have "commit (te_round_fault env) rs ?st (Inr True) = (rs', r)" using assms by (simp add: complete_round_def)
    from commit_frame [OF this] show ?thesis by (intro exI [of _ ?st]) (simp add: settles.held)
  next
    case False
    let ?m = "bindE (vector_hotkeys (ro_peers (pl_start plan)) (pl_uids plan)) (\<lambda>hotkeys.
            mark_pending ?st (pl_uids plan) (pl_weights plan) hotkeys (Some (pl_digest plan)) ?ids)"
    show ?thesis
    proof (cases ?m)
      case (Inl e)
      then have "rs' = rs\<lparr>rs_state := ?st\<rparr>" using assms False by (simp add: complete_round_def Let_def)
      then show ?thesis by (intro exI [of _ ?st]) (simp add: settles.held)
    next
      case (Inr st')
      then have m: "\<exists>hotkeys. mark_pending ?st (pl_uids plan) (pl_weights plan) hotkeys (Some (pl_digest plan)) ?ids = Inr st'"
        by (auto elim!: bindE_InrE)
      obtain rs1 out where c: "commit (te_round_fault env) rs st' (Inr ()) = (rs1, out)" by fastforce
      note f = commit_frame [OF c]
      show ?thesis
      proof (cases out)
        case (Inl e)
        then have "rs' = rs1" using assms False \<open>?m = Inr st'\<close> c by (simp add: complete_round_def Let_def)
        then show ?thesis using m f by (intro exI [of _ st']) (simp add: settles.held)
      next
        case (Inr u)
        then have "submit_pending run env (Some (ro_metagraph (pl_start plan))) (Some ?ids) rs1 = (rs', r)"
          using assms False \<open>?m = Inr st'\<close> c by (simp add: complete_round_def Let_def)
        from submit_pending_settles [OF this] show ?thesis using m f by (intro exI [of _ st']) (auto simp: may_send_def)
      qed
    qed
  qed
qed

lemma tick_cases:
  assumes "tick run env rs = Some (rs', r)"
  obtains (settle) "vs_pending (rs_state rs) \<noteq> None" "submit_pending run env None None rs = (rs', r)"
  | (idle) "vs_pending (rs_state rs) = None" "rs_state rs' = rs_state rs" "rs_sent rs' = rs_sent rs"
      "rs_dir rs' = rs_dir rs \<or> (\<exists>doc out. write_decision (te_write env) (rs_dir rs) doc = (rs_dir rs', out))"
  | (round) ro plan dir out where "vs_pending (rs_state rs) = None" "rn_broadcast run"
      "start_round run env = Inr ro" "vs_last_round (rs_state rs) < ro_round ro"
      "plan_round run env (rs_state rs) ro = Some (Inr plan)"
      "(if rn_records run then write_decision (te_write env) (rs_dir rs) (pl_document plan) else (rs_dir rs, Inr [])) = (dir, Inr out)"
      "complete_round run env (rs\<lparr>rs_dir := dir\<rparr>) plan = (rs', r)"
proof (cases "vs_pending (rs_state rs)")
  case (Some p)
  then show ?thesis using assms by (intro settle) (simp_all add: tick_def)
next
  case None
  show ?thesis
  proof (cases "start_round run env")
    case (Inl e)
    then have "rs' = rs" using assms None by (simp add: tick_def)
    with None show ?thesis by (intro idle) simp_all
  next
    case (Inr ro)
    show ?thesis
    proof (cases "(\<not> rn_broadcast run \<and> rs_dry_round rs = Some (ro_round ro)) \<or> ro_round ro \<le> vs_last_round (rs_state rs)")
      case True
      then have "tick run env rs = Some (rs, Inr True)" by (auto simp: tick_def None Inr)
      then have "rs' = rs" using assms by simp
      with None show ?thesis by (intro idle) simp_all
    next
      case False
      note False' = this
      then have t: "tick run env rs = (case plan_round run env (rs_state rs) ro of
                  None \<Rightarrow> None | Some (Inl e) \<Rightarrow> Some (rs, Inl e)
                | Some (Inr plan) \<Rightarrow> Some (finish_round run env rs plan))" by (auto simp: tick_def None Inr)
      then obtain res where res: "plan_round run env (rs_state rs) ro = Some res" using assms by (cases "plan_round run env (rs_state rs) ro") auto
      show ?thesis
      proof (cases res)
        case (Inl e)
        then have "rs' = rs" using assms t res by simp
        with None show ?thesis by (intro idle) simp_all
      next
        case (Inr plan)
        let ?w = "if rn_records run then write_decision (te_write env) (rs_dir rs) (pl_document plan) else (rs_dir rs, Inr [])"
        obtain dir out where w: "?w = (dir, out)" by fastforce
        have wd: "dir = rs_dir rs \<or> (\<exists>doc out. write_decision (te_write env) (rs_dir rs) doc = (dir, out))"
          using w by (auto split: if_splits)
        have f: "finish_round run env rs plan = (rs', r)" using assms t res Inr by simp
        show ?thesis
        proof (cases out)
          case (Inl e)
          then have "rs' = rs\<lparr>rs_dir := dir\<rparr>" using f w by (simp add: finish_round_def)
          with None wd show ?thesis by (intro idle) auto
        next
          case (Inr path)
          show ?thesis
          proof (cases "rn_broadcast run")
            case True
            then have "complete_round run env (rs\<lparr>rs_dir := dir\<rparr>) plan = (rs', r)" using f w Inr by (simp add: finish_round_def)
            with None True \<open>start_round run env = Inr ro\<close> False' res \<open>res = Inr plan\<close> w Inr show ?thesis
              by (intro round [of ro plan dir path]) auto
          next
            case False
            then have "rs' = rs\<lparr>rs_dir := dir, rs_dry_round := Some (ro_round (pl_start plan))\<rparr>"
              using f w Inr by (simp add: finish_round_def)
            with None wd show ?thesis by (intro idle) auto
          qed
        qed
      qed
    qed
  qed
qed

definition sound_env :: "tick_env \<Rightarrow> bool" where
  "sound_env env = (0 \<le> te_now env \<and> (\<exists>w now.
     te_report env = (\<lambda>e network netuid block cp. load_best_report w e network netuid block cp now) \<and>
     te_registration env = (\<lambda>e network netuid block owner hotkeys cp.
       load_best_owner_registration w e network netuid block owner hotkeys cp now)))"

lemma sound_plan:
  assumes "sound_env env" "plan_round run env st ro = Some (Inr plan)" "runner_ok run" "live_ok fp st"
  shows "live_ok fp (advance plan st) \<and> cp_forward (vs_class_checkpoints st) (vs_class_checkpoints (advance plan st)) \<and> pl_start plan = ro"
  using assms mirror_loaders.plan_round_ok unfolding sound_env_def by blast

lemma mark_live:
  assumes "mark_pending st uids ws hks prov ids = Inr st'" "live_ok fp st"
  shows "live_ok fp st' \<and> vs_last_round st' = vs_last_round st \<and> vs_class_checkpoints st' = vs_class_checkpoints st"
proof -
  have "state_ok fp st'" using pending_step_ok [OF pending_step.mark [OF assms(1)]] assms(2) by (simp add: live_ok_def)
  moreover have "vs_last_round st' = vs_last_round st" "vs_class_checkpoints st' = vs_class_checkpoints st" "vs_ema st' = vs_ema st"
    using assms(1) by (auto simp: mark_pending_def elim!: bindE_InrE)
  ultimately show ?thesis using assms(2) by (simp add: live_ok_def)
qed

lemma tick_keeps:
  assumes t: "tick run env rs = Some (rs', r)" and env: "sound_env env" and run: "runner_ok run" and ok: "live_ok fp (rs_state rs)"
  shows "live_ok fp (rs_state rs') \<and> vs_last_round (rs_state rs) \<le> vs_last_round (rs_state rs') \<and>
    cp_forward (vs_class_checkpoints (rs_state rs)) (vs_class_checkpoints (rs_state rs')) \<and>
    (\<exists>new. rs_sent rs' = rs_sent rs @ new) \<and>
    (vs_pending (rs_state rs) = None \<and> vs_last_round (rs_state rs') = vs_last_round (rs_state rs) \<longrightarrow>
       vs_pending (rs_state rs') = None \<and> rs_sent rs' = rs_sent rs)"
  using t
proof (cases rule: tick_cases)
  case settle
  have now: "0 \<le> te_now env" using env by (simp add: sound_env_def)
  note s = submit_pending_settles [OF settle(2)]
  then show ?thesis using settles_live [OF _ now ok] settles_frame settle(1) by fastforce
next
  case idle
  then show ?thesis using ok by auto
next
  case (round ro plan dir out)
  have now: "0 \<le> te_now env" using env by (simp add: sound_env_def)
  let ?st = "advance plan (rs_state rs)"
  note pl = sound_plan [OF env round(5) run ok]
  obtain st where st: "st = ?st \<or> (\<exists>hotkeys. mark_pending ?st (pl_uids plan) (pl_weights plan) hotkeys (Some (pl_digest plan))
         (registration_ids (pl_owners plan)) = Inr st)"
    and s: "settles (te_now env) st (rs_state rs')"
    and sent: "rs_sent rs' = rs_sent rs \<or> (\<exists>p. vs_pending st = Some p \<and> rs_sent rs' = rs_sent rs @ [p])"
    using complete_round_cases [OF round(7)] by auto
  have "live_ok fp st \<and> vs_last_round st = vs_last_round ?st \<and> vs_class_checkpoints st = vs_class_checkpoints ?st"
    using st mark_live pl by blast
  moreover have "vs_last_round ?st = ro_round ro" using pl by (simp add: advance_def)
  ultimately show ?thesis using pl round(4) settles_live [OF s now] settles_frame [OF s] sent by auto
qed

end
