(* ===== verification/Validator_Safety.thy ===== *)
theory Validator_Safety
  imports Validator_Runs
begin

text \<open>
  The properties of the validator's runs: the decision record behind every vector, runs of ticks as
  an inductive relation, and one complete round of a concrete validator, from the challenge to the
  confirmed vector.
\<close>

section \<open>The record behind a vector\<close>

definition recorded :: "decision_dir \<Rightarrow> pending \<Rightarrow> bool" where
  "recorded dir p = (\<exists>document path. map_of dir path = Some (canonical_json document @ [10]) \<and>
     pv_provenance p = Some (decision_digest_of (without [''decision_digest''] document)))"

definition all_recorded :: "runner_state \<Rightarrow> bool" where
  "all_recorded rs = ((\<forall>p. vs_pending (rs_state rs) = Some p \<longrightarrow> recorded (rs_dir rs) p) \<and>
     (\<forall>p \<in> set (rs_sent rs). recorded (rs_dir rs) p))"

lemma recorded_mono:
  "recorded dir p \<Longrightarrow> dir' = dir \<or> (\<exists>fault doc out. write_decision fault dir doc = (dir', out)) \<Longrightarrow> recorded dir' p"
  unfolding recorded_def using write_decision_ok by metis

lemma plan_digest:
  assumes "plan_round run env st ro = Some (Inr plan)"
  shows "pl_digest plan = decision_digest_of (without [''decision_digest''] (pl_document plan))"
proof -
  obtain ds uids weights where "decision_document (vc_hotkey (rn_config run)) (vc_network (rn_config run)) (vc_netuid (rn_config run))
           (ro_round ro) (ro_block ro) (sp_digest (rn_policy run)) ds (map peer_json (ro_peers ro)) uids weights
       = Inr (pl_document plan, pl_digest plan)"
    using assms unfolding plan_round_def by (auto elim!: bindO_returnE bindE_InrE)
  then show ?thesis using decision_document_shape by blast
qed

lemma settles_recorded:
  assumes "settles now st st'" "\<forall>p. vs_pending st = Some p \<longrightarrow> recorded dir p" "vs_pending st' = Some p'"
  shows "recorded dir p'"
  using settles_pending [OF assms(1,3)] assms(2) by (auto simp: recorded_def)

lemma tick_recorded:
  assumes t: "tick run env rs = Some (rs', r)" and rec: "rn_records run" and ok: "all_recorded rs"
  shows "all_recorded rs'"
  using t
proof (cases rule: tick_cases)
  case settle
  note s = submit_pending_settles [OF settle(2)]
  have "recorded (rs_dir rs') p" if "vs_pending (rs_state rs') = Some p" for p
    using settles_recorded [of "te_now env" "rs_state rs" "rs_state rs'" "rs_dir rs" p] s that ok by (simp add: all_recorded_def)
  then show ?thesis using s ok by (auto simp: all_recorded_def)
next
  case idle
  have "recorded (rs_dir rs) p \<Longrightarrow> recorded (rs_dir rs') p" for p using recorded_mono idle(4) by blast
  then show ?thesis using idle ok by (auto simp: all_recorded_def)
next
  case (round ro plan dir out)
  have w: "write_decision (te_write env) (rs_dir rs) (pl_document plan) = (dir, Inr out)" using round(6) rec by simp
  have keep: "recorded (rs_dir rs) p \<Longrightarrow> recorded dir p" for p using recorded_mono w by blast
  have new: "recorded dir p" if "pv_provenance p = Some (pl_digest plan)" for p
    using write_decision_ok [OF w] plan_digest [OF round(5)] that unfolding recorded_def sum.case by metis
  obtain st where st: "st = advance plan (rs_state rs) \<or> (\<exists>hotkeys. mark_pending (advance plan (rs_state rs)) (pl_uids plan)
        (pl_weights plan) hotkeys (Some (pl_digest plan)) (registration_ids (pl_owners plan)) = Inr st)"
    and s: "settles (te_now env) st (rs_state rs')" "rs_dir rs' = dir"
    and sent: "rs_sent rs' = rs_sent rs \<or> (\<exists>p. vs_pending st = Some p \<and> rs_sent rs' = rs_sent rs @ [p])"
    using complete_round_cases [OF round(7)] by auto
  have p: "recorded dir p" if p: "vs_pending st = Some p" for p
    using st
  proof (elim disjE exE)
    assume "st = advance plan (rs_state rs)"
    then show ?thesis using p round(1) by (simp add: advance_def)
  next
    fix hotkeys
    assume "mark_pending (advance plan (rs_state rs)) (pl_uids plan) (pl_weights plan) hotkeys (Some (pl_digest plan))
        (registration_ids (pl_owners plan)) = Inr st"
    then have "pv_provenance p = Some (pl_digest plan)" using pending_digest_mark p by fastforce
    then show ?thesis by (rule new)
  qed
  have "recorded dir q" if "vs_pending (rs_state rs') = Some q" for q
    using settles_recorded [OF s(1) _ that] p by blast
  moreover have "recorded dir q" if "q \<in> set (rs_sent rs')" for q
    using sent that keep p ok by (auto simp: all_recorded_def)
  ultimately show ?thesis by (simp add: all_recorded_def s(2))
qed

section \<open>Runs\<close>

inductive ticks :: "runner \<Rightarrow> runner_state \<Rightarrow> runner_state \<Rightarrow> bool" for run where
  start: "ticks run rs rs"
| step: "ticks run rs rs' \<Longrightarrow> sound_env env \<Longrightarrow> tick run env rs' = Some (rs'', r) \<Longrightarrow> ticks run rs rs''"

lemma ticks_keep:
  "ticks run rs rs' \<Longrightarrow> runner_ok run \<Longrightarrow> live_ok fp (rs_state rs) \<Longrightarrow>
     live_ok fp (rs_state rs') \<and> vs_last_round (rs_state rs) \<le> vs_last_round (rs_state rs') \<and>
     cp_forward (vs_class_checkpoints (rs_state rs)) (vs_class_checkpoints (rs_state rs')) \<and>
     (\<exists>new. rs_sent rs' = rs_sent rs @ new)"
proof (induction rule: ticks.induct)
  case (step rs rs' env rs'' r)
  have ih: "live_ok fp (rs_state rs')" "vs_last_round (rs_state rs) \<le> vs_last_round (rs_state rs')"
    "cp_forward (vs_class_checkpoints (rs_state rs)) (vs_class_checkpoints (rs_state rs'))" "\<exists>new. rs_sent rs' = rs_sent rs @ new"
    using step by simp_all
  from tick_keeps [OF step.hyps(3) step.hyps(2) step.prems(1) ih(1)] ih show ?case
    using cp_forward_trans by fastforce
qed simp

lemma ticks_recorded: "ticks run rs rs' \<Longrightarrow> rn_records run \<Longrightarrow> all_recorded rs \<Longrightarrow> all_recorded rs'"
  by (induction rule: ticks.induct) (auto intro: tick_recorded)

section \<open>One complete round\<close>

definition demo_solo :: metagraph where
  "demo_solo = \<lparr>mg_uids = [4], mg_hotkeys = [''m''], mg_coldkeys = Some [''k''],
     mg_axons = [\<lparr>ax_port = Some 8091, ax_serving = None\<rparr>]\<rparr>"

definition demo_live_env :: tick_env where
  "demo_live_env = demo_tick_env\<lparr>te_metagraph := Inr demo_solo,
     te_report := (\<lambda>e network netuid block cp. load_best_report demo_world e network netuid block cp None),
     te_registration := (\<lambda>e network netuid block owner hotkeys cp.
       load_best_owner_registration demo_world e network netuid block owner hotkeys cp None)\<rparr>"

abbreviation demo_state :: validator_state where
  "demo_state \<equiv> fresh_state ''fp'' (replicate 32 0)"

definition demo_start :: round_start where
  "demo_start = \<lparr>ro_metagraph = demo_solo, ro_peers = [demo_peer], ro_block = 700, ro_round = 7\<rparr>"

lemma demo_sound_env: "sound_env demo_live_env"
  by (auto simp: sound_env_def demo_live_env_def demo_tick_env_def)

lemma demo_starts: "start_round demo_runner demo_live_env = Inr demo_start"
proof -
  have "snapshot_peers demo_solo = Inr [demo_peer]" by code_simp
  then show ?thesis by (simp add: start_round_def demo_live_env_def demo_tick_env_def demo_runner_def demo_config_def demo_start_def)
qed

lemma demo_ema: "update_ema [] [(''m'', Fin 1)] [''m''] (Fin 1) = Inr [(''m'', Fin 1)]"
proof -
  have r: "round_half_even (10 ^ 12) = 10 ^ 12" using rhe_of_int [of "10 ^ 12"] by simp
  have z: "mk_float False 0 = Fin 0" by (simp add: mk_float_def)
  have "f_sub (Fin 1) (Fin 1) = Fin 0" by (simp add: f_sub_def f_neg_def f_add_fin is_neg_def z)
  moreover have "f_mul (Fin 0) (Fin 0) = Fin 0" "f_mul (Fin 1) (Fin 1) = Fin 1" "f_add (Fin 0) (Fin 1) = Fin 1"
    by (simp_all add: f_mul_fin f_add_fin is_neg_def z mk_float_1)
  moreover have "f_round (Fin 1) 12 = Fin 1" using r by (simp add: f_round_def is_neg_def mk_float_1)
  ultimately show ?thesis by (simp add: update_ema_def ema_entry_def score_get_def f_less_fin f_le_fin)
qed

lemma demo_local: "\<exists>d. local_stage demo_runner demo_live_env demo_state demo_start = returnO ([(''m'', Fin 1)], [d]) \<and>
    cd_class_id d = ''local_sat'' \<and> cd_kind d = ''local_sat'' \<and> cd_weights d = [(''m'', Fin 1)]"
proof -
  have lc: "local_class (default_score_policy ''local'' 7) = Some (LocalClass ''local_sat'' (1, 0))"
    by (simp add: local_class_def default_score_policy_def Let_def)
  have ck: "coldkeys_of [demo_peer] = [(''m'', ''k'')]" by (simp add: coldkeys_of_def demo_peer_def dict_of_pairs_def)
  have g: "gate_scores_by_current_verification [(''m'', Fin 1)] [(''m'', Fin 1)] = Inr [(''m'', Fin 1)]"
    by (simp add: gate_scores_by_current_verification_def sort_items_def score_get_def f_less_fin)
  have ev: "evaluate_peers (te_round demo_live_env) (ro_peers demo_start) demo_state (rn_config demo_runner) (ro_round demo_start) =
     returnO [(''m'', \<lparr>rr_hotkey = ''m'', rr_score = Fin 1, rr_reason = ''verified'', rr_observed = Fin 0, rr_reported = Fin 0\<rparr>)]"
    using demo_evaluation by (simp add: demo_live_env_def demo_tick_env_def demo_start_def demo_runner_def)
  have st: "vs_ema demo_state = []" and h: "pr_hotkey demo_peer = ''m''" by (simp_all add: fresh_state_def demo_peer_def)
  have p: "map pr_hotkey (ro_peers demo_start) = [''m'']" "vc_alpha (rn_config demo_runner) = Fin 1" "ro_peers demo_start = [demo_peer]"
    "rn_policy demo_runner = default_score_policy ''local'' 7"
    by (simp_all add: demo_start_def demo_peer_def demo_runner_def demo_config_def)
  show ?thesis unfolding local_stage_def p(4) lc option.case class_policy.case ev st
    by (simp add: local_scores_def p h demo_ema g ck local_class_decision_def demo_collapse Let_def)
qed

lemma demo_vector_stage:
  assumes "cd_class_id d = ''local_sat''" "cd_kind d = ''local_sat''" "cd_weights d = [(''m'', Fin 1)]"
  shows "vector_stage (default_score_policy ''local'' 7) (te_limits demo_live_env) [demo_peer] [d] = Inr ([4], [Fin 1])"
proof -
  have one: "d_sum [1] = 1" "d_mul 1 1 = 1" "d_add 0 1 = 1" "d_div 1 1 = 1" "near_one 1" "dec_val (1, 0) = 1"
    by (simp_all add: d_sum_def d_add_def d_mul_def d_div_def near_one_def dec_val_def)
  have c: "compose_class_decisions (default_score_policy ''local'' 7) [d] = Inr [(''m'', Fin 1)]"
    by (simp add: compose_class_decisions_def default_score_policy_def dict_of_pairs_def assms compose_step_def
      credit_class_def float_decimal_1 one credit_def Let_def sort_items_def mk_float_1)
  have s: "f_less (Fin 0) (Fin 1)" "\<not> f_less (Fin 1) (Fin 0)" "\<not> f_le (Fin 1) (Fin 0)" "\<not> f_less (Fin 1) (Fin 1)"
    "f_add (Fin 0) (Fin 1) = Fin 1" "f_div (Fin 1) (Fin 1) = Inr (Fin 1)" "f_mul (Fin 1) (Fin 1) = Fin 1"
    by (simp_all add: f_less_fin f_le_fin f_add_fin f_mul_fin f_div_def mk_float_1 is_neg_def is_inf_def)
  have v: "uid_vector [(''m'', Fin 1)] [demo_peer] = Inr ([4], [Fin 1])"
    by (simp add: uid_vector_def demo_peer_def dict_of_pairs_def vector_step_def s sort_pairs_def f_sum_def guardE_def)
  have e: "external_classes (default_score_policy ''local'' 7) = []" "sp_burn (default_score_policy ''local'' 7) = None"
    by (simp_all add: external_classes_def default_score_policy_def Let_def)
  have n: "f_of_int 1 = Inr (Fin 1)" by (simp add: f_of_int_def mk_float_1 is_inf_def)
  let ?e = "mk_float False (1 / 10 ^ 9)"
  have "\<not> f_less (Fin 1) (f_sub (Fin 1) ?e)"
  proof -
    have u: "unit_float ?e" using mk_float_unit [of "1 / 10 ^ 9" False] by simp
    then have "unit_float (f_sub (Fin 1) ?e)" using f_sub_unit by blast
    then show ?thesis by (simp add: unit_float_def f_less_fin)
  qed
  then have pr: "prepare_weights (te_limits demo_live_env) [4] [Fin 1] = Inr ([4], [Fin 1])"
    by (simp add: prepare_weights_def demo_live_env_def demo_tick_env_def s n)
  show ?thesis by (simp add: vector_stage_def c v burn_only_def e pr)
qed

lemma demo_plan:
  "\<exists>plan. plan_round demo_runner demo_live_env demo_state demo_start = Some (Inr plan) \<and> pl_uids plan = [4] \<and>
     pl_weights plan = [Fin 1] \<and> pl_owners plan = [] \<and> pl_start plan = demo_start \<and>
     (\<exists>dir path. write_decision WriteOk [] (pl_document plan) = (dir, Inr path))"
proof -
  obtain d where l: "local_stage demo_runner demo_live_env demo_state demo_start = returnO ([(''m'', Fin 1)], [d])"
    and d: "cd_class_id d = ''local_sat''" "cd_kind d = ''local_sat''" "cd_weights d = [(''m'', Fin 1)]"
    using demo_local by blast
  have e: "external_classes (default_score_policy ''local'' 7) = []" "sp_classes (default_score_policy ''local'' 7) = [LocalClass ''local_sat'' (1, 0)]"
    by (simp_all add: external_classes_def default_score_policy_def Let_def)
  have pol: "rn_policy demo_runner = default_score_policy ''local'' 7" "ro_peers demo_start = [demo_peer]"
    by (simp_all add: demo_runner_def demo_start_def)
  have x: "\<exists>stage. external_stage demo_runner demo_live_env demo_state demo_start [d] = Inr ([], stage) \<and> cs_decisions stage = [d]"
    by (simp add: external_stage_def load_owner_registrations_def owned_classes_def pol e owners_or_burn_def Let_def)
  then obtain stage where x: "external_stage demo_runner demo_live_env demo_state demo_start [d] = Inr ([], stage)" "cs_decisions stage = [d]"
    by blast
  have o: "ordered_decisions (default_score_policy ''local'' 7) [d] = Inr [d]"
    by (simp add: ordered_decisions_def e d dict_of_pairs_def)
  have doc: "\<exists>document digest. decision_document vh nw nu rn bl dg [d] (map peer_json [demo_peer]) [4] [Fin 1] = Inr (document, digest)"
    for vh nw nu rn bl dg
    by (simp add: decision_document_def sorted_peers_def jitem_def py_to_int_def peer_json_def demo_peer_def f_less_def Let_def)
  then obtain document digest where doc: "decision_document (vc_hotkey (rn_config demo_runner)) (vc_network (rn_config demo_runner))
      (vc_netuid (rn_config demo_runner)) (ro_round demo_start) (ro_block demo_start) (sp_digest (default_score_policy ''local'' 7))
      [d] (map peer_json [demo_peer]) [4] [Fin 1] = Inr (document, digest)" by blast
  have "0 \<le> ro_round demo_start" by (simp add: demo_start_def)
  note w = decision_document_writable [OF doc this, of "[]", simplified]
  show ?thesis unfolding plan_round_def l bindO_simps prod.case x(1) bindE_Inr x(2) pol o demo_vector_stage [OF d] doc
    using w by simp
qed

lemma demo_mark_round:
  "\<exists>st' p. mark_pending st [4] [Fin 1] [''m''] (Some (prefixed_digest l b)) [] = Inr st' \<and> vs_pending st' = Some p \<and>
     pv_uids p = [4] \<and> pv_hotkeys p = [''m''] \<and> pv_registrations p = [] \<and> pv_next_retry p = 0 \<and> \<not> pv_ambiguous p"
proof -
  have "\<exists>st'. mark_pending st [4] [Fin 1] [''m''] (Some (prefixed_digest l b)) [] = Inr st'"
    by (simp add: mark_pending_def vector_digest_def items_list_def typed_entry_def is_number_def py_to_float_def
      guardE_def f_less_fin opt_str_def registration_dict_def check_registrations_def sha_ref_prefixed)
  then obtain st' where m: "mark_pending st [4] [Fin 1] [''m''] (Some (prefixed_digest l b)) [] = Inr st'" by blast
  from pending_digest_mark [OF m] obtain p where "vs_pending st' = Some p" "pv_uids p = [4]" "pv_hotkeys p = [''m'']"
    "pv_registrations p = sort_items []" "pv_next_retry p = 0" "\<not> pv_ambiguous p" by blast
  then show ?thesis using m by (auto simp: sort_items_def)
qed

lemma demo_round:
  "\<exists>rs' p. tick demo_runner demo_live_env (demo_runner_state None) = Some (rs', Inr True) \<and> rs_sent rs' = [p] \<and>
     pv_uids p = [4] \<and> vs_last_round (rs_state rs') = 7"
proof -
  obtain plan dir path where plan: "plan_round demo_runner demo_live_env demo_state demo_start = Some (Inr plan)"
    and pl: "pl_uids plan = [4]" "pl_weights plan = [Fin 1]" "pl_owners plan = []" "pl_start plan = demo_start"
    and w: "write_decision WriteOk [] (pl_document plan) = (dir, Inr path)" using demo_plan by blast
  obtain l b where dg: "pl_digest plan = prefixed_digest l b"
    using plan_digest [OF plan] by (simp add: decision_digest_of_def)
  define st where "st = advance plan demo_state"
  obtain st' p where m: "mark_pending st [4] [Fin 1] [''m''] (Some (prefixed_digest l b)) [] = Inr st'" "vs_pending st' = Some p"
    and p: "pv_uids p = [4]" "pv_hotkeys p = [''m'']" "pv_registrations p = []" "pv_next_retry p = 0" "\<not> pv_ambiguous p"
    using demo_mark_round by blast
  have last: "vs_last_round st' = 7"
    using m(1) by (auto simp: mark_pending_def st_def advance_def pl(4) demo_start_def elim!: bindE_InrE)
  define rs where "rs = (demo_runner_state None)\<lparr>rs_dir := dir\<rparr>"
  have hk: "vector_hotkeys [demo_peer] [4] = Inr [''m'']"
    by (simp add: vector_hotkeys_def demo_peer_def dict_of_pairs_def)
  have fs: "demo_state\<lparr>vs_pending := None\<rparr> = demo_state" by (simp add: fresh_state_def)
  obtain rs1 where c: "commit NoFault rs st' (Inr ()) = (rs1, Inr ())" and rs1: "rs_state rs1 = st'" "rs_sent rs1 = []"
    "sf_tmp (rs_store rs1) = None"
    by (simp add: commit_def save_state_def save_defs effect_defs empty_store_def Let_def rs_def demo_runner_state_def)
  have snap: "snapshot_peers demo_solo = Inr [demo_peer]" by code_simp
  have stale: "stale_uids p [demo_peer] = []" by (simp add: stale_uids_def p demo_peer_def dict_of_pairs_def)
  obtain rs2 where sub: "submit_pending demo_runner demo_live_env (Some demo_solo) (Some []) rs1 = (rs2, Inr True)"
    and rs2: "rs_sent rs2 = [p]" "vs_last_round (rs_state rs2) = 7"
    by (simp add: submit_pending_def rs1 m(2) p demo_runner_def demo_live_env_def demo_tick_env_def snap submit_checked_def stale
        transmit_def submit_weights_def response_succeeded_def commit_step_def note_submission_success_def commit_def
        save_state_def save_defs effect_defs Let_def last)
  have "complete_round demo_runner demo_live_env rs plan = (rs2, Inr True)"
    using m(1) c sub by (simp add: complete_round_def pl demo_start_def hk registration_ids_def dg rs_def demo_runner_state_def fs
        flip: st_def) (simp add: demo_live_env_def demo_tick_env_def)
  then have "finish_round demo_runner demo_live_env (demo_runner_state None) plan = (rs2, Inr True)"
    using w by (simp add: finish_round_def demo_runner_def rs_def) (simp add: demo_runner_state_def demo_live_env_def demo_tick_env_def)
  moreover have "vs_pending demo_state = None" "vs_last_round demo_state = -1" "ro_round demo_start = 7"
    by (simp_all add: fresh_state_def demo_start_def)
  ultimately have "tick demo_runner demo_live_env (demo_runner_state None) = Some (rs2, Inr True)"
    using plan by (simp add: tick_def demo_starts) (simp add: demo_runner_state_def fs demo_runner_def)
  then show ?thesis using rs2 p by blast
qed

section \<open>Properties of the runs\<close>

text \<open>C24. Through every run of ticks, whatever the chain, the miners, the sources and the disk do, the
  durable state keeps its invariant, the completed round never goes back, the checkpoint of every
  score class stays at its epoch with its report or moves to a later one, and the vectors already
  handed to the SDK are never forgotten.\<close>

theorem runs_keep_the_state_sound:
  assumes "ticks run rs rs'" "runner_ok run" "live_ok fp (rs_state rs)"
  shows "live_ok fp (rs_state rs') \<and> vs_last_round (rs_state rs) \<le> vs_last_round (rs_state rs') \<and>
    cp_forward (vs_class_checkpoints (rs_state rs)) (vs_class_checkpoints (rs_state rs')) \<and>
    (\<exists>new. rs_sent rs' = rs_sent rs @ new)"
  using assms by (rule ticks_keep)

lemma demo_runner_sound: "runner_ok demo_runner"
proof -
  have "utf8_length ''local'' = 5" by code_simp
  moreover have "length (canonical_json (default_document ''local'' 7)) = 140" by code_simp
  ultimately have "load_score_policy (\<lambda>_. False) (Some (canonical_json (default_document ''local'' 7))) ''local'' 7
     = Inr (default_score_policy ''local'' 7)"
    using default_loads [of "''local''" 7 "\<lambda>_. False"] by (simp add: int64_def MAX_REPORT_BYTES_def)
  then show ?thesis using load_policy_ok by (auto simp: runner_ok_def demo_runner_def demo_config_def unit_float_def float_ok_def)
qed

lemma demo_state_live: "live_ok fp (fresh_state fp (replicate 32 0))"
  by (simp add: live_ok_def state_ok_def fresh_state_def STATE_SCHEMA_def master_secret_def fromhex_hex_of guardE_def)

lemma demo_initial: "rs_state (demo_runner_state None) = demo_state" "rs_sent (demo_runner_state None) = []"
  by (simp_all add: demo_runner_state_def fresh_state_def)

theorem runs_keep_the_state_sound_witness:
  "\<exists>rs p. ticks demo_runner (demo_runner_state None) rs \<and> rs_sent rs = [p] \<and> pv_uids p = [4] \<and> live_ok ''fp'' (rs_state rs)"
proof -
  obtain rs p where t: "tick demo_runner demo_live_env (demo_runner_state None) = Some (rs, Inr True)" "rs_sent rs = [p]" "pv_uids p = [4]"
    using demo_round by blast
  have "ticks demo_runner (demo_runner_state None) rs" by (rule ticks.step [OF ticks.start demo_sound_env t(1)])
  moreover from runs_keep_the_state_sound [OF this demo_runner_sound, of "''fp''"] demo_state_live [of "''fp''"]
  have "live_ok ''fp'' (rs_state rs)" by (simp add: demo_initial)
  ultimately show ?thesis using t by blast
qed

text \<open>C25. A round pays once: a tick that starts without a pending vector either moves the completed
  round strictly forward, or leaves no pending vector and hands nothing to the SDK.\<close>

theorem one_vector_per_round:
  assumes "tick run env rs = Some (rs', r)" "sound_env env" "runner_ok run" "live_ok fp (rs_state rs)"
    and "vs_pending (rs_state rs) = None" "vs_pending (rs_state rs') \<noteq> None \<or> rs_sent rs' \<noteq> rs_sent rs"
  shows "vs_last_round (rs_state rs) < vs_last_round (rs_state rs')"
  using tick_keeps [OF assms(1-4)] assms(5,6) by linarith

theorem one_vector_per_round_witness:
  "\<exists>rs :: runner_state. rs_sent rs \<noteq> [] \<and> vs_last_round demo_state < vs_last_round (rs_state rs)"
proof -
  obtain rs p where t: "tick demo_runner demo_live_env (demo_runner_state None) = Some (rs, Inr True)" "rs_sent rs = [p]"
    using demo_round by blast
  have "live_ok ''fp'' (rs_state (demo_runner_state None))" "vs_pending (rs_state (demo_runner_state None)) = None"
    using demo_state_live [of "''fp''"] unfolding demo_initial by (simp_all add: fresh_state_def)
  note v = one_vector_per_round [OF t(1) demo_sound_env demo_runner_sound this]
  have "rs_sent rs \<noteq> rs_sent (demo_runner_state None)" by (simp add: t(2) demo_initial)
  with v have "vs_last_round demo_state < vs_last_round (rs_state rs)" by (simp add: demo_initial)
  then show ?thesis using t(2) by (intro exI [of _ rs]) simp
qed

text \<open>C26. No vector without its evidence: with a decision store, through every run of ticks, the pending
  vector and every vector handed to the SDK name the digest of a decision record that lies in the
  store, complete and canonical.\<close>

theorem vectors_have_records:
  assumes "ticks run rs rs'" "rn_records run" "all_recorded rs"
  shows "all_recorded rs'"
  using assms by (rule ticks_recorded)

theorem vectors_have_records_witness:
  "\<exists>rs p. ticks demo_runner (demo_runner_state None) rs \<and> rs_sent rs = [p] \<and> recorded (rs_dir rs) p"
proof -
  obtain rs p where t: "tick demo_runner demo_live_env (demo_runner_state None) = Some (rs, Inr True)" "rs_sent rs = [p]"
    using demo_round by blast
  have s: "ticks demo_runner (demo_runner_state None) rs" by (rule ticks.step [OF ticks.start demo_sound_env t(1)])
  have "rn_records demo_runner" "all_recorded (demo_runner_state None)"
    by (simp_all add: demo_runner_def all_recorded_def demo_runner_state_def)
  from vectors_have_records [OF s this] t(2) s show ?thesis by (auto simp: all_recorded_def)
qed

section \<open>Two gaps in the order of effects\<close>

text \<open>A round whose save fails leaves the vector in memory only; the next tick hands it to the SDK
  although the file still knows nothing of it.\<close>

lemma unsaved_vector_is_submitted:
  "\<exists>rs1 rs2 p. complete_round run (env\<lparr>te_round_fault := \<lparr>ft_fails = {CallWrite}, ft_written = 0\<rparr>\<rparr>) rs plan = (rs1, Inl PyOSError) \<and>
     sf_file (rs_store rs1) = sf_file (rs_store rs) \<and> vs_pending (rs_state rs1) = Some p \<and>
     submit_pending run env None None rs1 = (rs2, Inr True) \<and> rs_sent rs2 = rs_sent rs1 @ [p]"
  if "run = demo_runner" "env = demo_live_env" "rs = demo_runner_state None" "pl_uids plan = [4]" "pl_weights plan = [Fin 1]"
    "pl_owners plan = []" "pl_start plan = demo_start" "pl_digest plan = prefixed_digest l b"
proof -
  let ?write_fails = "\<lparr>ft_fails = {CallWrite}, ft_written = 0\<rparr>"
  note rs = that(3)
  obtain st' p where m: "mark_pending (advance plan demo_state) [4] [Fin 1] [''m''] (Some (prefixed_digest l b)) [] = Inr st'"
    "vs_pending st' = Some p"
    and p: "pv_uids p = [4]" "pv_hotkeys p = [''m'']" "pv_registrations p = []" "pv_next_retry p = 0" "\<not> pv_ambiguous p"
    using demo_mark_round by blast
  have hk: "vector_hotkeys [demo_peer] [4] = Inr [''m'']"
    by (simp add: vector_hotkeys_def demo_peer_def dict_of_pairs_def)
  have fs: "demo_state\<lparr>vs_pending := None\<rparr> = demo_state" by (simp add: fresh_state_def)
  obtain rs1 where c: "commit ?write_fails rs st' (Inr ()) = (rs1, Inl PyOSError)" and rs1: "rs_state rs1 = st'"
    "sf_file (rs_store rs1) = sf_file (rs_store rs)" "sf_tmp (rs_store rs1) = None"
    by (simp add: rs demo_runner_state_def empty_store_def commit_def save_state_def save_defs effect_defs Let_def)
  have k: "complete_round run (env\<lparr>te_round_fault := ?write_fails\<rparr>) rs plan = (rs1, Inl PyOSError)"
    using m(1) c that by (simp add: complete_round_def demo_start_def hk registration_ids_def) (simp add: demo_runner_state_def fs)
  have snap: "snapshot_peers demo_solo = Inr [demo_peer]" by code_simp
  have stale: "stale_uids p [demo_peer] = []" by (simp add: stale_uids_def p demo_peer_def dict_of_pairs_def)
  have "\<exists>rs2. submit_pending run env None None rs1 = (rs2, Inr True) \<and> rs_sent rs2 = rs_sent rs1 @ [p]"
    by (simp add: that submit_pending_def rs1 m(2) p demo_runner_def demo_live_env_def demo_tick_env_def snap submit_checked_def stale
        transmit_def submit_weights_def response_succeeded_def commit_step_def note_submission_success_def commit_def
        save_state_def save_defs effect_defs Let_def)
  then show ?thesis using k rs1 m(2) by metis
qed

text \<open>An SDK answer with an unknown UID advances the round in memory and raises; every later tick of the
  round answers True without a vector.\<close>

lemma unknown_uid_skips_round:
  assumes "vector_hotkeys (ro_peers (pl_start plan)) (pl_uids plan) = Inl e" "pl_uids plan \<noteq> []"
    and "vs_pending (rs_state rs) = None" "rn_broadcast run" "start_round run env' = Inr ro" "ro_round ro = ro_round (pl_start plan)"
  shows "\<exists>rs'. complete_round run env rs plan = (rs', Inl e) \<and> tick run env' rs' = Some (rs', Inr True)"
  using assms by (simp add: complete_round_def tick_def advance_def)

end
