(* ===== verification/Validator_Main.thy ===== *)
theory Validator_Main
  imports Validator_Safety
begin

text \<open>
  \<open>cathedral_thin/validator.py\<close>, the process around the ticks: the validation of the command line
  (\<open>validate_args\<close>), the start of the validator under its lease (\<open>async_main\<close>) and the loop
  (\<open>run_validator_loop\<close>). The lemmas join the parts: a validator started on validated arguments
  keeps every invariant of its runs.
\<close>

section \<open>The command line\<close>

text \<open>\<open>ar_policy\<close> is None without \<open>--score-policy\<close>; otherwise the bytes of that file, None when it
  cannot be read.\<close>

record cli_args =
  ar_network :: string
  ar_netuid :: int
  ar_vars :: int
  ar_clauses :: int
  ar_timeout :: pyfloat
  ar_reference :: pyfloat
  ar_share :: pyfloat
  ar_alpha :: pyfloat
  ar_concurrency :: int
  ar_round_blocks :: int
  ar_broadcast :: bool
  ar_retry_ambiguous :: bool
  ar_accept_config :: bool
  ar_policy :: "bytes option option"

text \<open>None is a return, \<open>Some msg\<close> a \<open>SystemExit\<close>. The quotient of two ints is correctly rounded.\<close>

definition validate_args :: "cli_args \<Rightarrow> string option" where
  "validate_args a =
     (if ar_broadcast a \<and> ar_netuid a = 39
      then Some ''cathedral-thin-validator cannot broadcast on SN39; use the immutable cathedral-validator SN39 release path''
      else if ar_netuid a < 0 \<or> \<not> (3 \<le> ar_vars a \<and> ar_vars a \<le> 4096) \<or> \<not> (1 \<le> ar_clauses a \<and> ar_clauses a \<le> 20000)
      then Some ''invalid netuid or challenge dimensions''
      else if f_le (ar_timeout a) (Fin 0) \<or> f_le (ar_reference a) (Fin 0) \<or> ar_concurrency a \<le> 0 \<or> ar_round_blocks a \<le> 0
      then Some ''timeouts, concurrency, and round-blocks must be positive''
      else if \<not> (f_le (Fin 0) (ar_share a) \<and> f_le (ar_share a) (Fin 1)) \<or> \<not> (f_less (Fin 0) (ar_alpha a) \<and> f_le (ar_alpha a) (Fin 1))
      then Some ''invalid scoring fractions''
      else
        (let ratio = mk_float False (of_int (ar_clauses a) / of_int (ar_vars a)) in
         if \<not> (f_le (mk_float False (41 / 10)) ratio \<and> f_le ratio (mk_float False (44 / 10)))
         then Some ''3-SAT clause/variable ratio must stay near the 4.26 phase transition''
         else None))"

section \<open>Starting the validator\<close>

definition config_of_args :: "cli_args \<Rightarrow> string \<Rightarrow> string \<Rightarrow> validator_config" where
  "config_of_args a hotkey policy_digest =
     \<lparr>vc_network = ar_network a, vc_netuid = ar_netuid a, vc_hotkey = hotkey, vc_n_vars = ar_vars a,
      vc_n_clauses = ar_clauses a, vc_timeout = ar_timeout a, vc_reference = ar_reference a, vc_share = ar_share a,
      vc_alpha = ar_alpha a, vc_concurrency = ar_concurrency a, vc_round_blocks = ar_round_blocks a,
      vc_policy_digest = Some policy_digest\<rparr>"

definition chosen_policy :: "(string \<Rightarrow> bool) \<Rightarrow> cli_args \<Rightarrow> score_policy res" where
  "chosen_policy ip a =
     (case ar_policy a of
        None \<Rightarrow> Inr (default_score_policy (ar_network a) (ar_netuid a))
      | Some file \<Rightarrow> load_score_policy ip file (ar_network a) (ar_netuid a))"

text \<open>\<open>async_main\<close> up to the loop: \<open>hotkey\<close> is the wallet's address, \<open>entropy\<close> the random bytes of a new
  state, \<open>holders\<close> the processes that hold the lease, \<open>dir\<close> the decision records on disk.\<close>

definition start_validator ::
    "(string \<Rightarrow> bool) \<Rightarrow> cli_args \<Rightarrow> string \<Rightarrow> bytes \<Rightarrow> fault \<Rightarrow> nat set \<Rightarrow> store \<Rightarrow> decision_dir
       \<Rightarrow> store \<times> (runner \<times> runner_state) res" where
  "start_validator ip a hotkey entropy fault holders sf dir =
     (if ar_broadcast a \<and> ar_netuid a = 39
      then (sf, raise ''legacy SAT validator broadcasts are disabled on SN39 regardless of network label or RPC endpoint'')
      else
        (case chosen_policy ip a of
           Inl e \<Rightarrow> (sf, Inl e)
         | Inr policy \<Rightarrow>
             (let cfg = config_of_args a hotkey (sp_digest policy) in
              case lease_enter holders 0 of
                Inl e \<Rightarrow> (sf, Inl e)
              | Inr _ \<Rightarrow>
                  (case load_or_create (ar_accept_config a) (fingerprint cfg) entropy fault sf of
                     (sf', Inl e) \<Rightarrow> (sf', Inl e)
                   | (sf', Inr st) \<Rightarrow>
                       (sf', bindE (make_runner cfg (Some policy) (ar_broadcast a) (ar_retry_ambiguous a) True (ar_netuid a))
                          (\<lambda>run. Inr (run, \<lparr>rs_state = st, rs_store = sf', rs_dir = dir, rs_dry_round = None, rs_sent = []\<rparr>)))))))"

section \<open>The loop\<close>

text \<open>One environment per tick. The result None is a tick that never returns; an exit code None is a
  loop that is still running when the environments are used up.\<close>

fun run_validator_loop :: "runner \<Rightarrow> bool \<Rightarrow> tick_env list \<Rightarrow> runner_state \<Rightarrow> (runner_state \<times> int option) option" where
  "run_validator_loop run once [] rs = Some (rs, None)"
| "run_validator_loop run once (env # envs) rs =
     (case tick run env rs of
        None \<Rightarrow> None
      | Some (rs', r) \<Rightarrow>
          if once then Some (rs', Some (if isl r then 1 else 0)) else run_validator_loop run once envs rs')"

definition loop_pause :: "pyfloat \<Rightarrow> pyfloat" where
  "loop_pause interval_secs = f_max (Fin 5) interval_secs"

section \<open>The parts together\<close>

lemma loop_is_ticks:
  "run_validator_loop run False envs rs = Some (rs', exit_code) \<Longrightarrow> list_all sound_env envs \<Longrightarrow> ticks run rs rs' \<and> exit_code = None"
proof (induction envs arbitrary: rs)
  case (Cons env envs)
  then obtain rs1 r where t: "tick run env rs = Some (rs1, r)" "run_validator_loop run False envs rs1 = Some (rs', exit_code)"
    by (auto split: option.splits)
  have "ticks run rs rs1" by (rule ticks.step [OF ticks.start _ t(1)]) (use Cons.prems in simp)
  moreover have "ticks run rs1 rs'" "exit_code = None" using Cons.IH [OF t(2)] Cons.prems by simp_all
  moreover have "ticks run b c \<Longrightarrow> ticks run a b \<Longrightarrow> ticks run a c" for a b c
    by (induction rule: ticks.induct) (auto intro: ticks.step)
  ultimately show ?case by blast
qed (auto intro: ticks.start)

lemma tick_sent_39:
  assumes "tick run env rs = Some (rs', r)" "rn_netuid run = 39"
  shows "rs_sent rs' = rs_sent rs"
  using assms(1)
proof (cases rule: tick_cases)
  case settle
  then show ?thesis using submit_pending_settles [OF settle(2)] assms(2) by (auto simp: may_send_def)
next
  case (round ro plan dir out)
  show ?thesis using complete_round_cases [OF round(7)] assms(2) by auto
qed (simp_all)

lemma ticks_sent_39: "ticks run rs rs' \<Longrightarrow> rn_netuid run = 39 \<Longrightarrow> rs_sent rs' = rs_sent rs"
  by (induction rule: ticks.induct) (auto dest: tick_sent_39)

lemma default_policy_ok: "policy_ok (default_score_policy network netuid)"
proof -
  have "identifier_text ''local_sat''" by code_simp
  then show ?thesis by (simp add: policy_ok_def default_score_policy_def class_ok_def dec_val_def Let_def)
qed

lemma chosen_policy_ok: "chosen_policy ip a = Inr p \<Longrightarrow> policy_ok p"
  using default_policy_ok load_policy_ok by (auto simp: chosen_policy_def split: option.splits)

lemma start_validator_parts:
  assumes "start_validator ip a hotkey entropy fault holders sf dir = (sf', Inr (run, rs))"
  shows "\<exists>p st. chosen_policy ip a = Inr p \<and> rn_policy run = p \<and> rn_config run = config_of_args a hotkey (sp_digest p) \<and>
    rn_netuid run = ar_netuid a \<and> rn_broadcast run = ar_broadcast a \<and> rn_records run \<and>
    load_or_create (ar_accept_config a) (fingerprint (rn_config run)) entropy fault sf = (sf', Inr st) \<and>
    rs_state rs = st \<and> rs_sent rs = [] \<and> rs_dir rs = dir"
  using assms by (auto simp: start_validator_def make_runner_def Let_def split: if_splits sum.splits prod.splits elim!: bindE_InrE guardE_InrE)

lemma validated_runner_ok:
  assumes "validate_args a = None" "start_validator ip a hotkey entropy fault holders sf dir = (sf', Inr (run, rs))"
    and "float_ok (ar_reference a)" "float_ok (ar_share a)" "float_ok (ar_alpha a)"
  shows "runner_ok run"
proof -
  obtain p where p: "chosen_policy ip a = Inr p" "rn_policy run = p" "rn_config run = config_of_args a hotkey (sp_digest p)"
    using start_validator_parts [OF assms(2)] by blast
  have al: "f_less (Fin 0) (ar_alpha a)" "f_le (ar_alpha a) (Fin 1)" using assms(1) by (auto simp: validate_args_def split: if_splits)
  then have "unit_float (ar_alpha a)" using share_unit [OF assms(5)] by (simp add: f_le_def)
  then have "unit_float (ar_alpha a) \<and> 0 < fval (ar_alpha a)" using al by (simp add: unit_float_def f_less_fin)
  then show ?thesis using chosen_policy_ok [OF p(1)] p assms(3,4) by (simp add: runner_ok_def config_of_args_def)
qed

lemma fresh_live:
  assumes "load_or_create allow fp entropy fault sf = (sf', Inr st)" "sf_file sf = None" "length entropy = 32"
  shows "live_ok fp st \<and> vs_pending st = None"
proof -
  have "st = fresh_state fp entropy"
    using assms(1,2) by (auto simp: load_or_create_def split: prod.splits elim!: bindE_InrE)
  then show ?thesis using load_ok [OF assms(1,3)] by (simp add: live_ok_def fresh_state_def)
qed

section \<open>The property of the whole validator\<close>

text \<open>C27. A validator started on validated arguments and a new state file runs until it is stopped: no
  exception of a tick ends the loop. However the chain, the miners and the sources behave, its state
  keeps the invariant for the fingerprint of its configuration (which covers the policy's digest),
  every vector has its decision record, and on subnet 39 nothing is ever handed to the SDK.\<close>

theorem validator_is_sound:
  assumes "validate_args a = None" "start_validator ip a hotkey entropy fault holders sf dir = (sf', Inr (run, rs))"
    and "float_ok (ar_reference a)" "float_ok (ar_share a)" "float_ok (ar_alpha a)"
    and "sf_file sf = None" "length entropy = 32"
    and "list_all sound_env envs" "run_validator_loop run False envs rs = Some (rs', exit_code)"
  shows "exit_code = None \<and> live_ok (fingerprint (rn_config run)) (rs_state rs') \<and> all_recorded rs' \<and>
    vc_policy_digest (rn_config run) = Some (sp_digest (rn_policy run)) \<and> (rn_netuid run = 39 \<longrightarrow> rs_sent rs' = [])"
proof -
  obtain p st where s: "rn_config run = config_of_args a hotkey (sp_digest p)" "rn_policy run = p" "rn_records run"
    "load_or_create (ar_accept_config a) (fingerprint (rn_config run)) entropy fault sf = (sf', Inr st)"
    "rs_state rs = st" "rs_sent rs = []" using start_validator_parts [OF assms(2)] by blast
  note run = validated_runner_ok [OF assms(1-5)] and t = loop_is_ticks [OF assms(9,8)]
  have st: "live_ok (fingerprint (rn_config run)) (rs_state rs)" "all_recorded rs"
    using fresh_live [OF s(4) assms(6,7)] s(5,6) by (auto simp: all_recorded_def)
  have "live_ok (fingerprint (rn_config run)) (rs_state rs')" using ticks_keep [OF _ run st(1)] t by blast
  moreover have "all_recorded rs'" using ticks_recorded [OF _ s(3) st(2)] t by blast
  moreover have "rn_netuid run = 39 \<longrightarrow> rs_sent rs' = []" using ticks_sent_39 t s(6) by metis
  ultimately show ?thesis using t s(1,2) by (simp add: config_of_args_def)
qed

definition demo_args :: cli_args where
  "demo_args = \<lparr>ar_network = ''local'', ar_netuid = 39, ar_vars = 3, ar_clauses = 13, ar_timeout = Fin 60, ar_reference = Fin 1,
     ar_share = Fin 1, ar_alpha = Fin 1, ar_concurrency = 1, ar_round_blocks = 100, ar_broadcast = False,
     ar_retry_ambiguous = False, ar_accept_config = False, ar_policy = None\<rparr>"

definition demo_outage :: tick_env where
  "demo_outage = demo_live_env\<lparr>te_metagraph := Inl PyOSError\<rparr>"

lemma demo_args_valid: "validate_args demo_args = None"
proof -
  have "f_le (mk_float False (41 / 10)) (mk_float False (13 / 3))" "f_le (mk_float False (13 / 3)) (mk_float False (44 / 10))"
    by (rule mk_float_le; simp)+
  then show ?thesis by (simp add: validate_args_def demo_args_def f_le_fin f_less_fin)
qed

lemma demo_started:
  "\<exists>sf' run rs. start_validator (\<lambda>_. False) demo_args ''v'' (replicate 32 0) NoFault {} empty_store [] = (sf', Inr (run, rs)) \<and>
     vs_pending (rs_state rs) = None \<and> rn_netuid run = 39"
  by (simp add: start_validator_def demo_args_def chosen_policy_def lease_enter_def load_or_create_def empty_store_def
      save_state_def save_defs effect_defs make_runner_def config_of_args_def fresh_state_def Let_def)

theorem validator_is_sound_witness:
  "\<exists>sf' run rs. start_validator (\<lambda>_. False) demo_args ''v'' (replicate 32 0) NoFault {} empty_store [] = (sf', Inr (run, rs)) \<and>
     run_validator_loop run False [demo_outage, demo_outage] rs = Some (rs, None) \<and>
     live_ok (fingerprint (rn_config run)) (rs_state rs) \<and> rs_sent rs = []"
proof -
  obtain sf' run rs where s: "start_validator (\<lambda>_. False) demo_args ''v'' (replicate 32 0) NoFault {} empty_store [] = (sf', Inr (run, rs))"
    "vs_pending (rs_state rs) = None" "rn_netuid run = 39" using demo_started by blast
  have "tick run demo_outage rs = Some (rs, Inl PyOSError)"
    by (simp add: tick_def s(2) start_round_def demo_outage_def)
  then have l: "run_validator_loop run False [demo_outage, demo_outage] rs = Some (rs, None)" by simp
  have e: "list_all sound_env [demo_outage, demo_outage]"
    using demo_sound_env by (simp add: sound_env_def demo_outage_def)
  have f: "float_ok (ar_reference demo_args)" "float_ok (ar_share demo_args)" "float_ok (ar_alpha demo_args)"
    "sf_file empty_store = None" "length (replicate 32 (0 :: 8 word)) = 32"
    by (simp_all add: demo_args_def float_ok_def empty_store_def)
  from validator_is_sound [OF demo_args_valid s(1) f e l] s l show ?thesis by blast
qed

end
