(* ===== verification/Miner_Solver.thy ===== *)
theory Miner_Solver
  imports Core_Challenge Py_Value
begin

text \<open>
  \<open>cathedral_thin/miner.py\<close>, the external solver: the parser of its output
  (\<open>parse_dimacs_model\<close>), the command line (\<open>shlex.split\<close>, the substitution of the formula's path)
  and the run (\<open>run_external_solver\<close>). The processes and the file system are parameters. The lemmas
  show that the parser only returns complete assignments and that it reads back every model a
  solver prints.
\<close>

section \<open>The solver's output\<close>

text \<open>The status is None, sat (True) or unsat (False).\<close>

definition literal_step :: "int list \<Rightarrow> string \<Rightarrow> int list res" where
  "literal_step ls token =
     (case py_int token of None \<Rightarrow> Inl PyValueError | Some l \<Rightarrow> Inr (if l \<noteq> 0 then ls @ [l] else ls))"

definition status_line :: "bool option \<Rightarrow> string \<Rightarrow> bool option" where
  "status_line status line =
     (if contains (upper line) ''UNSATISFIABLE'' then Some False
      else if contains (upper line) ''SATISFIABLE'' then Some True else status)"

definition model_line :: "bool option \<times> int list \<Rightarrow> string \<Rightarrow> (bool option \<times> int list) res" where
  "model_line acc raw =
     (let line = strip raw in
      if line = [] \<or> starts_with line ''c'' then Inr acc
      else if starts_with line ''s '' then Inr (status_line (fst acc) line, snd acc)
      else if line = ''SAT'' then Inr (Some True, snd acc)
      else if line = ''UNSAT'' then Inr (Some False, snd acc)
      else if starts_with line ''v '' then
        bindE (foldE literal_step (snd acc) (split_ws (drop 2 line))) (\<lambda>ls. Inr (fst acc, ls))
      else Inr acc)"

definition parse_dimacs_model :: "string \<Rightarrow> int \<Rightarrow> int list res" where
  "parse_dimacs_model output nv =
     bindE (foldE model_line (None, []) (splitlines output)) (\<lambda>(status, literals).
     guardE (status \<noteq> Some True) ''solver did not report SAT''
     (bindE (encode_assignment (map LInt literals) nv) (\<lambda>_. Inr literals)))"

section \<open>The command line\<close>

text \<open>\<open>shlex.split\<close> in POSIX mode, one character at a time. The state says what the next character
  means; an escape remembers where it returns to. A token that was opened by a quote is kept even
  when it is empty.\<close>

datatype shlex_state = Blank | InWord | Quoted char | Escape "char option"

definition is_quote :: "char \<Rightarrow> bool" where
  "is_quote c = (code c = 34 \<or> code c = 39)"

definition shlex_blank :: "char \<Rightarrow> bool" where
  "shlex_blank c = (code c \<in> {32, 9, 13, 10})"

definition end_token :: "string list \<Rightarrow> bool \<Rightarrow> string \<Rightarrow> string list" where
  "end_token done_tokens quoted token = (if token \<noteq> [] \<or> quoted then done_tokens @ [token] else done_tokens)"

fun shlex_run :: "shlex_state \<Rightarrow> string list \<Rightarrow> bool \<Rightarrow> string \<Rightarrow> string \<Rightarrow> string list res" where
  "shlex_run st ts quoted tok [] =
     (case st of Quoted q \<Rightarrow> Inl PyValueError | Escape e \<Rightarrow> Inl PyValueError | _ \<Rightarrow> Inr (end_token ts quoted tok))"
| "shlex_run Blank ts quoted tok (c # cs) =
     (if shlex_blank c then shlex_run Blank ts quoted tok cs
      else if code c = 92 then shlex_run (Escape None) ts quoted tok cs
      else if is_quote c then shlex_run (Quoted c) ts True tok cs
      else shlex_run InWord ts quoted [c] cs)"
| "shlex_run InWord ts quoted tok (c # cs) =
     (if shlex_blank c then shlex_run Blank (end_token ts quoted tok) False [] cs
      else if is_quote c then shlex_run (Quoted c) ts True tok cs
      else if code c = 92 then shlex_run (Escape None) ts quoted tok cs
      else shlex_run InWord ts quoted (tok @ [c]) cs)"
| "shlex_run (Quoted q) ts quoted tok (c # cs) =
     (if c = q then shlex_run InWord ts True tok cs
      else if code c = 92 \<and> code q = 34 then shlex_run (Escape (Some q)) ts True tok cs
      else shlex_run (Quoted q) ts True (tok @ [c]) cs)"
| "shlex_run (Escape e) ts quoted tok (c # cs) =
     (case e of
        None \<Rightarrow> shlex_run InWord ts quoted (tok @ [c]) cs
      | Some q \<Rightarrow>
          shlex_run (Quoted q) ts quoted (tok @ (if code c \<noteq> 92 \<and> c \<noteq> q then [char_of (92 :: nat)] else []) @ [c]) cs)"

definition shlex_split :: "string \<Rightarrow> string list res" where
  "shlex_split s = shlex_run Blank [] False [] s"

text \<open>\<open>token.replace("{cnf}", path)\<close>.\<close>

function replace_cnf :: "string \<Rightarrow> string \<Rightarrow> string" where
  "replace_cnf path s =
     (if s = [] then []
      else if starts_with s ''{cnf}'' then path @ replace_cnf path (drop 5 s)
      else hd s # replace_cnf path (tl s))"
  by auto
termination by (relation "measure (\<lambda>(path, s). length s)") auto

declare replace_cnf.simps [simp del]

definition solver_argv :: "string list \<Rightarrow> string \<Rightarrow> string list" where
  "solver_argv tokens path =
     (let argv = map (\<lambda>t. if contains t ''{cnf}'' then replace_cnf path t else t) tokens in
      if list_ex (\<lambda>t. contains t ''{cnf}'') tokens then argv else argv @ [path])"

text \<open>\<open>os.path.basename\<close>.\<close>

definition basename :: "string \<Rightarrow> string" where
  "basename p = rev (takeWhile (\<lambda>c. c \<noteq> CHR ''/'') (rev p))"

section \<open>The run\<close>

text \<open>What the operating system answers: whether an executable is on the path, the path of the formula
  in a fresh directory (or the exception of creating it), and the outcome of the process for its
  arguments, its input file and its time limit.\<close>

datatype process_outcome = ProcessTimeout | ProcessError py_error | Exited int string

record solver_env =
  sv_which :: "string \<Rightarrow> bool"
  sv_path :: "string res"
  sv_run :: "string list \<Rightarrow> bytes \<Rightarrow> pyfloat \<Rightarrow> process_outcome"

definition run_external_solver :: "solver_env \<Rightarrow> string \<Rightarrow> string \<Rightarrow> pyfloat \<Rightarrow> int \<Rightarrow> (int list \<times> string) res" where
  "run_external_solver env command dimacs timeout nv =
     bindE (shlex_split command) (\<lambda>tokens.
     case tokens of
       [] \<Rightarrow> raise ''solver command is empty''
     | executable # _ \<Rightarrow>
         guardE (\<not> starts_with executable ''/'' \<and> \<not> sv_which env executable)
           (''solver executable not found: '' @ executable)
         (bindE (sv_path env) (\<lambda>path.
          bindE (ascii_encode dimacs) (\<lambda>raw.
          case sv_run env (solver_argv tokens path) raw (f_max (mk_float False (1 / 10)) timeout) of
            ProcessTimeout \<Rightarrow> raise ''solver timeout''
          | ProcessError e \<Rightarrow> Inl e
          | Exited status output \<Rightarrow>
              guardE (status \<notin> {0, 10}) (''solver exited '' @ int_str status)
              (bindE (parse_dimacs_model output nv) (\<lambda>ls. Inr (ls, basename executable)))))))"

section \<open>The parser is sound and complete\<close>

lemma parse_dimacs_model_complete_lits:
  assumes "parse_dimacs_model output nv = Inr ls" "0 \<le> nv"
  shows "complete_lits nv ls"
proof -
  obtain p where "encode_assignment (map LInt ls) nv = Inr p"
    using assms(1) by (auto simp: parse_dimacs_model_def elim!: bindE_InrE guardE_InrE)
  then obtain vals where v: "assignment_values nv [] (map LInt ls) = Inr vals" "int (length vals) = nv"
    by (auto simp: encode_assignment_def elim!: bindE_InrE guardE_InrE)
  have w: "witness_values nv [] (map LInt ls) = Some vals" using v(1) by (simp add: assignment_values_eq)
  have inj: "inj LInt" by (simp add: inj_def)
  from w have f: "fresh_lits nv {} ls" "vals = map lit_binding ls"
    by (auto simp: witness_values_eq inj_map_eq_map [OF inj])
  then have len: "int (length ls) = nv" using v(2) by simp
  have "card (abs ` set ls) = length ls" using f(1) by (metis fresh_lits_def distinct_card length_map list.set_map)
  moreover have "abs ` set ls \<subseteq> {1..nv}" using f(1) by (auto simp: fresh_lits_def)
  moreover have "card {1..nv} = nat nv" by simp
  ultimately have "abs ` set ls = {1..nv}" using len by (intro card_subset_eq) auto
  then show ?thesis using f(1) by (auto simp: complete_lits_def fresh_lits_def)
qed

text \<open>What a DIMACS solver prints for a model: the status, then the literals over any number of value
  lines; the closing zero, wherever it stands, is not a literal.\<close>

definition value_line :: "int list \<Rightarrow> string" where
  "value_line ls = ''v'' @ concat (map (\<lambda>l. CHR '' '' # int_str l) ls)"

definition model_text :: "int list list \<Rightarrow> string" where
  "model_text rows = ''s SATISFIABLE'' @ LF # concat (map (\<lambda>ls. value_line ls @ [LF]) rows)"

lemma value_line_Cons: "value_line (l # ls) = ''v '' @ int_str l @ drop 1 (value_line ls)"
  by (simp add: value_line_def)

lemma value_line_chars: "c \<in> set (value_line ls) \<Longrightarrow> c = CHR ''v'' \<or> c = CHR '' '' \<or> numeral_char c"
  using int_str_chars by (auto simp: value_line_def split: if_split_asm)

lemma value_line_one_line: "c \<in> set (value_line ls) \<Longrightarrow> \<not> is_linebreak c"
  using value_line_chars [of c ls] numeral_char_plain(3) by (auto simp: is_linebreak_def code_def)

lemma split_value_line: "split_ws (int_str l @ drop 1 (value_line ls)) = map int_str (l # ls)"
proof (induction ls arbitrary: l)
  case Nil
  have "split_ws (int_str l) = [int_str l]" by (rule split_ws_Cons(2)) (simp_all add: int_str_no_space)
  then show ?case by (simp add: value_line_def)
next
  case (Cons m ls)
  have "int_str l @ drop 1 (value_line (m # ls)) = int_str l @ CHR '' '' # int_str m @ drop 1 (value_line ls)"
    by (simp add: value_line_def)
  moreover have "split_ws (int_str l @ CHR '' '' # t) = int_str l # split_ws t" for t
    by (rule split_ws_Cons(1)) (simp_all add: int_str_no_space)
  ultimately show ?case using Cons.IH by simp
qed

lemma strip_value_line: "strip (value_line (l # ls)) = value_line (l # ls)"
proof (rule strip_plain)
  obtain ms m where "l # ls = ms @ [m]" by (metis append_butlast_last_id list.distinct(1))
  then have "value_line (l # ls) = value_line ms @ CHR '' '' # int_str m" by (simp only: value_line_def) simp
  then have "last (value_line (l # ls)) = last (int_str m)" by simp
  then show "\<not> is_space (last (value_line (l # ls)))" using int_str_no_space hd_last_int_str(2) by metis
qed (simp_all add: value_line_def is_space_def code_def)

lemma literal_steps:
  "\<forall>l \<in> set ls. small_int l \<Longrightarrow> foldE literal_step acc (map int_str ls) = Inr (acc @ filter (\<lambda>l. l \<noteq> 0) ls)"
  by (induction ls arbitrary: acc) (auto simp: literal_step_def py_int_small)

lemma model_line_value:
  assumes "\<forall>l \<in> set ls. small_int l" "ls \<noteq> []"
  shows "model_line (st, acc) (value_line ls) = Inr (st, acc @ filter (\<lambda>l. l \<noteq> 0) ls)"
proof -
  obtain l ls' where ls: "ls = l # ls'" using assms(2) by (cases ls) auto
  define rest where "rest = int_str l @ drop 1 (value_line ls')"
  have v: "value_line ls = CHR ''v'' # CHR '' '' # rest" by (simp add: ls value_line_Cons rest_def)
  have r: "split_ws rest = map int_str ls" by (simp only: rest_def ls split_value_line)
  have "model_line (st, acc) (value_line ls) =
      bindE (foldE literal_step acc (split_ws rest)) (\<lambda>ls. Inr (st, ls))"
    using strip_value_line [of l ls', folded ls] unfolding v by (simp add: model_line_def starts_with_def)
  then show ?thesis using literal_steps [OF assms(1)] by (simp add: r)
qed

lemma model_lines:
  "\<forall>ls \<in> set rows. ls \<noteq> [] \<and> (\<forall>l \<in> set ls. small_int l) \<Longrightarrow>
     foldE model_line (st, acc) (splitlines (concat (map (\<lambda>ls. value_line ls @ [LF]) rows)))
       = Inr (st, acc @ filter (\<lambda>l. l \<noteq> 0) (concat rows))"
proof (induction rows arbitrary: acc)
  case (Cons ls rows)
  have "splitlines (value_line ls @ LF # rest) = value_line ls # splitlines rest" for rest
    by (rule splitlines_LF) (rule value_line_one_line)
  then show ?case using Cons by (simp add: model_line_value)
qed simp

lemma parse_model_text:
  assumes "\<forall>ls \<in> set rows. ls \<noteq> [] \<and> (\<forall>l \<in> set ls. small_int l)"
    and "complete_lits nv (filter (\<lambda>l. l \<noteq> 0) (concat rows))" "0 \<le> nv"
  shows "parse_dimacs_model (model_text rows) nv = Inr (filter (\<lambda>l. l \<noteq> 0) (concat rows))"
proof -
  let ?ls = "filter (\<lambda>l. l \<noteq> 0) (concat rows)"
  have s: "model_line (None, []) ''s SATISFIABLE'' = Inr (Some True, [])" by code_simp
  have "splitlines (model_text rows) = ''s SATISFIABLE'' # splitlines (concat (map (\<lambda>ls. value_line ls @ [LF]) rows))"
    unfolding model_text_def by (rule splitlines_LF) (auto simp: is_linebreak_def code_def)
  then have "foldE model_line (None, []) (splitlines (model_text rows)) = Inr (Some True, ?ls)"
    using model_lines [OF assms(1), of "Some True" "[]"] s by simp
  moreover obtain p where "encode_assignment (map LInt ?ls) nv = Inr p"
    using encode_decode_assignment [OF assms(2,3)] by blast
  ultimately show ?thesis by (simp add: parse_dimacs_model_def)
qed

end
