(* ===== verification/Miner_Service.thy ===== *)
theory Miner_Service
  imports Miner_Solver Core_Scores
begin

text \<open>
  \<open>cathedral_thin/miner.py\<close> and \<open>protocol.py\<close>, the answering side: the wire model of a challenge,
  the per-round response cache and \<open>MinerService.solve\<close>. The event loop interleaves requests, so a
  request is two steps on the cache: \<open>solve_begin\<close> up to the reservation of its round and
  \<open>solve_finish\<close> after its job. The lemmas show that an honest miner's answer to a built challenge
  is graded as verified.
\<close>

section \<open>The wire model\<close>

text \<open>\<open>SatChallenge\<close>: the fields of a challenge and the four of its response.\<close>

record sat_challenge = challenge +
  sy_assignment :: string
  sy_solver :: string
  sy_elapsed :: pyfloat
  sy_error :: string

definition from_challenge :: "challenge \<Rightarrow> sat_challenge" where
  "from_challenge ch = challenge.extend ch \<lparr>sy_assignment = [], sy_solver = [], sy_elapsed = Fin 0, sy_error = []\<rparr>"

definition model_dump :: "sat_challenge \<Rightarrow> jdict" where
  "model_dump s = challenge_dict (challenge.truncate s) @
     [(''assignment_b64'', JStr (sy_assignment s)), (''solver_name'', JStr (sy_solver s)),
      (''miner_elapsed_ms'', JFloat (sy_elapsed s)), (''error'', JStr (sy_error s))]"

section \<open>The service\<close>

record miner_config =
  mc_hotkey :: string
  mc_solver_command :: string
  mc_solver_timeout :: pyfloat
  mc_max_vars :: int
  mc_max_clauses :: int

record cached_response =
  ca_challenge_id :: string
  ca_cnf_sha256 :: string
  ca_assignment :: string
  ca_solver :: string
  ca_error :: string

type_synonym round_key = "string \<times> int"

text \<open>The \<open>OrderedDict\<close>, oldest first; None marks a round whose job is running.\<close>

type_synonym round_cache = "(round_key \<times> cached_response option) list"

record miner_service =
  ms_config :: miner_config
  ms_concurrency :: int
  ms_cache_size :: int

definition make_service :: "miner_config \<Rightarrow> int \<Rightarrow> int \<Rightarrow> miner_service res" where
  "make_service cfg max_concurrency response_cache_size =
     (if max_concurrency \<le> 0 \<or> response_cache_size \<le> 0 then Inl PyValueError
      else Inr \<lparr>ms_config = cfg, ms_concurrency = max_concurrency, ms_cache_size = response_cache_size\<rparr>)"

definition move_to_end :: "'k \<Rightarrow> ('k \<times> 'v) list \<Rightarrow> ('k \<times> 'v) list" where
  "move_to_end k xs = dict_del k xs @ filter (\<lambda>(k', _). k' = k) xs"

text \<open>\<open>while len(cache) > size: cache.popitem(last=False)\<close>.\<close>

fun evict :: "int \<Rightarrow> ('k \<times> 'v) list \<Rightarrow> ('k \<times> 'v) list" where
  "evict size_limit xs =
     (case xs of [] \<Rightarrow> [] | x # rest \<Rightarrow> if int (length xs) > size_limit then evict size_limit rest else xs)"

declare evict.simps [simp del]

definition reserve_round ::
    "int \<Rightarrow> round_cache \<Rightarrow> sat_challenge \<Rightarrow> string \<Rightarrow> round_cache \<times> cached_response option res" where
  "reserve_round size_limit cache syn caller =
     (let key = (caller, ch_round_id syn) in
      case map_of cache key of
        Some cached \<Rightarrow>
          (move_to_end key cache,
           case cached of
             None \<Rightarrow> raise ''challenge already in progress''
           | Some c \<Rightarrow> guardE (ca_cnf_sha256 c \<noteq> ch_cnf_sha256 syn)
               ''validator already used a different formula this round'' (Inr (Some c)))
      | None \<Rightarrow> (evict size_limit (dict_set key None cache), Inr None))"

definition complete_round_cache ::
    "int \<Rightarrow> round_cache \<Rightarrow> sat_challenge \<Rightarrow> string \<Rightarrow> cached_response \<Rightarrow> round_cache" where
  "complete_round_cache size_limit cache syn caller response =
     (let key = (caller, ch_round_id syn) in
      evict size_limit (move_to_end key (dict_set key (Some response) cache)))"

definition apply_cached :: "sat_challenge \<Rightarrow> cached_response \<Rightarrow> sat_challenge" where
  "apply_cached syn c = syn\<lparr>sy_assignment := ca_assignment c, sy_solver := ca_solver c, sy_error := ca_error c\<rparr>"

section \<open>Solving\<close>

text \<open>The world of one request: the wall clock's two readings in milliseconds, the readings of the
  monotonic clock at the start and at the end, zlib, the solver and the text of a built-in
  exception.\<close>

record miner_env =
  me_now1 :: int
  me_now2 :: int
  me_started :: pyfloat
  me_ended :: pyfloat
  me_inflate :: "bytes \<Rightarrow> int \<Rightarrow> inflated option"
  me_solver :: solver_env
  me_str :: "py_error \<Rightarrow> string"

definition elapsed_ms :: "miner_env \<Rightarrow> pyfloat" where
  "elapsed_ms env = f_round (f_mul (f_sub (me_ended env) (me_started env)) (Fin 1000)) 3"

text \<open>The handler \<open>except (ThinSubnetError, OSError, ValueError)\<close>; a UnicodeError is a ValueError.\<close>

definition handled :: "py_error \<Rightarrow> bool" where
  "handled e = (case e of ThinSubnetError msg \<Rightarrow> True | PyOSError \<Rightarrow> True | PyValueError \<Rightarrow> True | PyUnicodeError \<Rightarrow> True
     | _ \<Rightarrow> False)"

definition error_text :: "miner_env \<Rightarrow> py_error \<Rightarrow> string" where
  "error_text env e = take 240 (case e of ThinSubnetError msg \<Rightarrow> msg | _ \<Rightarrow> me_str env e)"

definition failed :: "miner_env \<Rightarrow> sat_challenge \<Rightarrow> py_error \<Rightarrow> sat_challenge" where
  "failed env syn e = syn\<lparr>sy_assignment := [], sy_solver := [], sy_error := error_text env e\<rparr>"

definition timed :: "miner_env \<Rightarrow> sat_challenge \<Rightarrow> sat_challenge" where
  "timed env syn = syn\<lparr>sy_elapsed := elapsed_ms env\<rparr>"

text \<open>Up to the reservation; the result is the time that remains, in seconds, or the cached answer.\<close>

definition admit :: "miner_service \<Rightarrow> miner_env \<Rightarrow> sat_challenge \<Rightarrow> string \<Rightarrow> pyfloat res" where
  "admit sv env syn caller =
     bindE (validate_challenge_envelope (model_dump syn) (me_now1 env) (Some (mc_hotkey (ms_config sv))) (Some caller)) (\<lambda>_.
     guardE (ch_n_vars syn > mc_max_vars (ms_config sv) \<or> ch_n_clauses syn > mc_max_clauses (ms_config sv))
       ''challenge exceeds configured miner bounds''
     (bindE (f_of_int (ch_expires_at_ms syn - me_now2 env)) (\<lambda>ms.
      bindE (f_div ms (Fin 1000)) (\<lambda>remaining.
      guardE (f_le remaining (Fin 0)) ''challenge expired'' (Inr remaining)))))"

datatype begun = Answered sat_challenge | Escaped py_error | Running pyfloat

definition stop_begin :: "miner_env \<Rightarrow> sat_challenge \<Rightarrow> py_error \<Rightarrow> begun" where
  "stop_begin env syn e = (if handled e then Answered (timed env (failed env syn e)) else Escaped e)"

definition solve_begin :: "miner_service \<Rightarrow> miner_env \<Rightarrow> round_cache \<Rightarrow> sat_challenge \<Rightarrow> string \<Rightarrow> round_cache \<times> begun" where
  "solve_begin sv env cache syn caller =
     (case admit sv env syn caller of
        Inl e \<Rightarrow> (cache, stop_begin env syn e)
      | Inr remaining \<Rightarrow>
          (case reserve_round (ms_cache_size sv) cache syn caller of
             (cache', Inl e) \<Rightarrow> (cache', stop_begin env syn e)
           | (cache', Inr (Some c)) \<Rightarrow> (cache', Answered (timed env (apply_cached syn c)))
           | (cache', Inr None) \<Rightarrow> (cache', Running remaining)))"

text \<open>The job: decode the formula, run the solver within the remaining time, encode its model.\<close>

definition solve_job :: "miner_service \<Rightarrow> miner_env \<Rightarrow> sat_challenge \<Rightarrow> pyfloat \<Rightarrow> (string \<times> string) res" where
  "solve_job sv env syn remaining =
     bindE (decode_cnf (me_inflate env) (ch_cnf_b64 syn) (ch_cnf_sha256 syn) (ch_n_vars syn) (ch_n_clauses syn) MAX_DIMACS_BYTES) (\<lambda>c.
     bindE (run_external_solver (me_solver env) (mc_solver_command (ms_config sv)) (to_dimacs c)
        (f_min (mc_solver_timeout (ms_config sv)) remaining) (cnf_n_vars c)) (\<lambda>(assignment, solver_name).
     bindE (encode_assignment (map LInt assignment) (cnf_n_vars c)) (\<lambda>payload. Inr (payload, solver_name))))"

definition job_answer :: "miner_env \<Rightarrow> sat_challenge \<Rightarrow> (string \<times> string) res \<Rightarrow> sat_challenge" where
  "job_answer env syn r =
     (case r of
        Inl e \<Rightarrow> failed env syn e
      | Inr (payload, solver_name) \<Rightarrow> syn\<lparr>sy_assignment := payload, sy_solver := solver_name, sy_error := []\<rparr>)"

definition cached_of :: "sat_challenge \<Rightarrow> cached_response" where
  "cached_of syn = \<lparr>ca_challenge_id = ch_challenge_id syn, ca_cnf_sha256 = ch_cnf_sha256 syn,
     ca_assignment = sy_assignment syn, ca_solver = sy_solver syn, ca_error = sy_error syn\<rparr>"

text \<open>An exception outside the handler escapes with the round still reserved.\<close>

definition solve_finish ::
    "miner_service \<Rightarrow> miner_env \<Rightarrow> round_cache \<Rightarrow> sat_challenge \<Rightarrow> string \<Rightarrow> (string \<times> string) res
       \<Rightarrow> round_cache \<times> sat_challenge res" where
  "solve_finish sv env cache syn caller r =
     (case r of
        Inl e \<Rightarrow> if handled e
          then (complete_round_cache (ms_cache_size sv) cache syn caller (cached_of (job_answer env syn r)),
                Inr (timed env (job_answer env syn r)))
          else (cache, Inl e)
      | Inr _ \<Rightarrow> (complete_round_cache (ms_cache_size sv) cache syn caller (cached_of (job_answer env syn r)),
                Inr (timed env (job_answer env syn r))))"

text \<open>One request with no other in between.\<close>

definition solve :: "miner_service \<Rightarrow> miner_env \<Rightarrow> round_cache \<Rightarrow> sat_challenge \<Rightarrow> string \<Rightarrow> round_cache \<times> sat_challenge res" where
  "solve sv env cache syn caller =
     (case solve_begin sv env cache syn caller of
        (cache', Answered s) \<Rightarrow> (cache', Inr s)
      | (cache', Escaped e) \<Rightarrow> (cache', Inl e)
      | (cache', Running remaining) \<Rightarrow> solve_finish sv env cache' syn caller (solve_job sv env syn remaining))"

text \<open>\<open>forward\<close>: the caller is the hotkey the transport authenticated, None when there is none.\<close>

definition forward :: "miner_service \<Rightarrow> miner_env \<Rightarrow> round_cache \<Rightarrow> sat_challenge \<Rightarrow> string option \<Rightarrow> round_cache \<times> sat_challenge res" where
  "forward sv env cache syn dendrite = solve sv env cache syn (case dendrite of None \<Rightarrow> [] | Some hotkey \<Rightarrow> hotkey)"

section \<open>The honest miner\<close>

lemma jget_dump:
  "k \<in> fst ` set (challenge_dict ch) \<Longrightarrow> jget (challenge_dict ch @ extra) k = jget (challenge_dict ch) k"
  by (auto simp: jget_def map_add_def dest!: weak_map_of_SomeI split: option.split)

lemma validate_dump:
  "validate_challenge_envelope (model_dump syn) now em ev =
     validate_challenge_envelope (challenge_dict (challenge.truncate syn)) now em ev"
  by (simp add: validate_challenge_envelope_def challenge_public_fields_def model_dump_def jget_dump [of _ "challenge.truncate syn"]
      challenge_dict_def [of "challenge.truncate syn", THEN arg_cong, of "\<lambda>d. fst ` set d"])

lemma from_challenge_fields [simp]:
  "challenge.truncate (from_challenge ch) = ch" "ch_round_id (from_challenge ch) = ch_round_id ch"
  "ch_n_vars (from_challenge ch) = ch_n_vars ch" "ch_n_clauses (from_challenge ch) = ch_n_clauses ch"
  "ch_expires_at_ms (from_challenge ch) = ch_expires_at_ms ch" "ch_cnf_b64 (from_challenge ch) = ch_cnf_b64 ch"
  "ch_cnf_sha256 (from_challenge ch) = ch_cnf_sha256 ch" "ch_challenge_id (from_challenge ch) = ch_challenge_id ch"
  "ch_miner_hotkey (from_challenge ch) = ch_miner_hotkey ch"
  by (simp_all add: from_challenge_def challenge.defs)

text \<open>A millisecond that remains is a positive float of seconds.\<close>

lemma thousandth_positive: "1 / 1024 \<le> r \<Longrightarrow> 0 < fl_rat r"
proof -
  assume r: "1 / 1024 \<le> r"
  have q: "quantum (1 / 1024) = 1 / 2 ^ 62"
  proof -
    have "ilog2 (1 / 1024) = -10" by (rule ilog2_unique) (simp_all add: pow2_def)
    then show ?thesis by (simp add: quantum_def pow2_def)
  qed
  have "fl_pos (1 / 1024) = 1 / 1024" by (rule fl_pos_fixed [of _ "2 ^ 52"]) (simp_all add: q)
  then have "fl_rat (1 / 1024) = 1 / 1024" by (simp add: fl_rat_def)
  then show ?thesis using fl_rat_mono [OF r] by simp
qed

lemma remaining_positive:
  assumes "0 < n" "n \<le> 2 ^ 52"
  shows "\<exists>x. bindE (f_of_int n) (\<lambda>ms. f_div ms (Fin 1000)) = Inr x \<and> \<not> f_le x (Fin 0)"
proof -
  have n: "fl_rat (of_int n) = of_int n" using fl_rat_int [of n] assms by simp
  have "(of_int n :: rat) \<le> of_int (2 ^ 52)" using assms(2) by (simp only: of_int_le_iff)
  then have lt: "(of_int n :: rat) < 2 ^ 1024" by (rule le_less_trans) simp
  have mk: "mk_float False (of_int n) = Fin (of_int n)" using n lt assms(1) by (simp add: mk_float_def Let_def)
  let ?r = "of_int n / 1000 :: rat"
  have "1 \<le> (of_int n :: rat)" using assms(1) by simp
  then have pos: "0 < fl_rat ?r" by (intro thousandth_positive) simp
  have "fl_rat ?r \<le> fl_rat (of_int n)" using assms(1) by (intro fl_rat_mono) simp
  then have fin: "isfinite (mk_float False ?r)" using pos lt n by (intro mk_float_finite) simp
  then have "\<not> f_le (mk_float False ?r) (Fin 0)" using pos by (simp add: f_le_fin mk_float_fval)
  then show ?thesis
    using assms(1) by (simp add: f_of_int_def mk is_inf_def f_div_def is_neg_def)
qed

text \<open>The solver of an honest miner: its command names an executable that is there, and on this
  formula the process prints a model of it, in time.\<close>

definition solver_solves :: "solver_env \<Rightarrow> string \<Rightarrow> cnf \<Rightarrow> int list list \<Rightarrow> bool" where
  "solver_solves env command c rows =
     (\<exists>executable rest path raw. shlex_split command = Inr (executable # rest) \<and>
        (starts_with executable ''/'' \<or> sv_which env executable) \<and> sv_path env = Inr path \<and>
        ascii_encode (to_dimacs c) = Inr raw \<and>
        (\<forall>timeout. sv_run env (solver_argv (executable # rest) path) raw timeout = Exited 10 (model_text rows)) \<and>
        (\<forall>row \<in> set rows. row \<noteq> []) \<and> is_model c (filter (\<lambda>l. l \<noteq> 0) (concat rows)))"

lemma solver_solves_run:
  assumes "solver_solves env command c rows" "0 \<le> cnf_n_vars c" "cnf_n_vars c \<le> 100000"
  shows "\<exists>name. run_external_solver env command (to_dimacs c) timeout (cnf_n_vars c)
    = Inr (filter (\<lambda>l. l \<noteq> 0) (concat rows), name)"
proof -
  let ?ls = "filter (\<lambda>l. l \<noteq> 0) (concat rows)"
  have comp: "complete_lits (cnf_n_vars c) ?ls" using assms(1) by (auto simp: solver_solves_def is_model_def)
  have "small_int l" if "row \<in> set rows" "l \<in> set row" for row l
  proof (cases "l = 0")
    case False
    then have "l \<in> set ?ls" using that by auto
    then have "\<bar>l\<bar> \<in> {1..cnf_n_vars c}" using comp unfolding complete_lits_def by blast
    then show ?thesis using assms(3) by (simp add: small_int_def)
  qed (simp add: small_int_def)
  then have "parse_dimacs_model (model_text rows) (cnf_n_vars c) = Inr ?ls"
    using assms comp by (intro parse_model_text) (auto simp: solver_solves_def)
  then show ?thesis using assms(1) by (auto simp: solver_solves_def run_external_solver_def)
qed

lemma honest_job:
  assumes "decode_cnf (me_inflate env) (ch_cnf_b64 syn) (ch_cnf_sha256 syn) (ch_n_vars syn) (ch_n_clauses syn) MAX_DIMACS_BYTES = Inr c"
    and "cnf_wf c" "0 \<le> cnf_n_vars c" "cnf_n_vars c \<le> 100000"
    and "solver_solves (me_solver env) (mc_solver_command (ms_config sv)) c rows"
  obtains payload name ls where "solve_job sv env syn remaining = Inr (payload, name)"
    and "decode_assignment payload (cnf_n_vars c) = Inr ls" and "is_model c ls"
proof -
  let ?ls = "filter (\<lambda>l. l \<noteq> 0) (concat rows)"
  have model: "is_model c ?ls" using assms(5) by (auto simp: solver_solves_def)
  then have comp: "complete_lits (cnf_n_vars c) ?ls" by (simp add: is_model_def)
  obtain name where run: "run_external_solver (me_solver env) (mc_solver_command (ms_config sv)) (to_dimacs c)
      (f_min (mc_solver_timeout (ms_config sv)) remaining) (cnf_n_vars c) = Inr (?ls, name)"
    using solver_solves_run [OF assms(5,3,4)] by blast
  let ?ms = "lits_of (\<lambda>k. int k + 1 \<in> set ?ls) (nat (cnf_n_vars c))"
  obtain p where p: "encode_assignment (map LInt ?ls) (cnf_n_vars c) = Inr p" "decode_assignment p (cnf_n_vars c) = Inr ?ms"
    using encode_decode_assignment [OF comp assms(3)] .
  have "complete_lits (cnf_n_vars c) ?ms" using complete_lits_of [of "nat (cnf_n_vars c)"] assms(3) by simp
  moreover have "set ?ms = set ?ls"
    by (rule set_lits_of_complete) (simp only: int_nat_eq assms(3) if_True comp)
  ultimately have "is_model c ?ms" using is_model_set_cong model by blast
  then show thesis using that [of p name ?ms] p assms(1) run by (simp add: solve_job_def)
qed

lemma built_admitted:
  assumes built: "build_challenge mac zc secret netuid vh (mc_hotkey (ms_config sv)) rid issued ttl nv nc slot = returnO (ch, c)"
    and bounds: "nv \<le> mc_max_vars (ms_config sv)" "nc \<le> mc_max_clauses (ms_config sv)"
    and clock: "issued - 30000 \<le> me_now1 env" "me_now1 env \<le> issued + ttl"
      "0 < issued + ttl - me_now2 env" "issued + ttl - me_now2 env \<le> 2 ^ 52"
  obtains remaining where "admit sv env (from_challenge ch) vh = Inr remaining" "ch_round_id ch = rid"
proof -
  from built have ch: "ch_n_vars ch = nv" "ch_n_clauses ch = nc" "ch_expires_at_ms ch = issued + ttl" "ch_round_id ch = rid"
    unfolding build_challenge_def Let_def by (auto split: if_split_asm elim!: bindO_returnE)
  obtain remaining where "bindE (f_of_int (issued + ttl - me_now2 env)) (\<lambda>ms. f_div ms (Fin 1000)) = Inr remaining"
    "\<not> f_le remaining (Fin 0)" using remaining_positive [OF clock(3,4)] by blast
  then have "admit sv env (from_challenge ch) vh = Inr remaining"
    using built_challenge_valid [OF built clock(1,2)] bounds
    by (auto simp: admit_def validate_dump ch elim!: bindE_InrE)
  then show thesis using that ch by blast
qed

text \<open>C28. From the validator's generator to the validator's grade: a challenge built for a miner, sent to
  it in time for a round it has not served, is answered without an error, and the answer is graded
  as verified, with a score of at least the correctness share's rounding, whatever the time it
  took - provided the solver prints a model of the formula and zlib inflates what it deflated.\<close>

theorem honest_miner_is_verified:
  assumes built: "build_challenge mac zc secret netuid vh (mc_hotkey (ms_config sv)) rid issued ttl nv nc slot = returnO (ch, c)"
    and zlib: "zlib_law zc (me_inflate env)"
    and solver: "solver_solves (me_solver env) (mc_solver_command (ms_config sv)) c rows"
    and bounds: "nv \<le> mc_max_vars (ms_config sv)" "nc \<le> mc_max_clauses (ms_config sv)"
    and clock: "issued - 30000 \<le> me_now1 env" "me_now1 env \<le> issued + ttl"
      "0 < issued + ttl - me_now2 env" "issued + ttl - me_now2 env \<le> 2 ^ 52"
    and fresh: "map_of cache (vh, rid) = None"
    and grade: "received \<le> issued + ttl" "positive_float ref" "elapsed_float observed" "unit_float share"
  shows "\<exists>cache' s score. solve sv env cache (from_challenge ch) vh = (cache', Inr s) \<and> sy_error s = [] \<and>
    grade_response ch c (ch_challenge_id s) (ch_miner_hotkey s) (sy_assignment s) observed received ref share
      = Inr (score, ''verified'') \<and> fval (f_round share 9) \<le> fval score"
  using built
proof (rule build_challenge_parts)
  let ?syn = "from_challenge ch"
  fix seed planted
  assume gen: "generate_ajm_cnf mac seed nv nc = returnO (c, planted)"
    and ch: "ch_n_vars ch = nv" "ch_n_clauses ch = nc" "ch_expires_at_ms ch = issued + ttl"
  have c: "cnf_wf c" "cnf_n_vars c = nv" using generate_ajm_correct [OF gen] by auto
  have nv: "0 \<le> cnf_n_vars c" "cnf_n_vars c \<le> 100000" using generate_ajm_bounds [OF gen] c(2) by auto
  have dec: "decode_cnf (me_inflate env) (ch_cnf_b64 ?syn) (ch_cnf_sha256 ?syn) (ch_n_vars ?syn) (ch_n_clauses ?syn)
      MAX_DIMACS_BYTES = Inr c" using built_challenge_decodes [OF built zlib] by simp
  obtain remaining where "admit sv env ?syn vh = Inr remaining" and round: "ch_round_id ch = rid"
    using built_admitted [OF built bounds clock] .
  then have begun: "solve_begin sv env cache ?syn vh = (evict (ms_cache_size sv) (dict_set (vh, rid) None cache), Running remaining)"
    using fresh by (simp add: solve_begin_def reserve_round_def Let_def round)
  obtain payload name ls where job: "solve_job sv env ?syn remaining = Inr (payload, name)"
    and ls: "decode_assignment payload (cnf_n_vars c) = Inr ls" "is_model c ls"
    using honest_job [OF dec c(1) nv solver] .
  obtain w where w: "f_div ref (f_add ref observed) = Inr w" "unit_float w" using speed_unit [OF grade(2,3)] by blast
  have "grade_response ch c (ch_challenge_id ch) (ch_miner_hotkey ch) payload observed received ref share
      = Inr (final_score share w, ''verified'')"
    using grade_complete [OF refl refl _ grade(2-4) ls c(1) nv(1) w(1)] grade(1) ch(3) by simp
  then show ?thesis using final_score_ge_share [OF grade(4) w(2)] begun job
    by (simp add: solve_def solve_finish_def job_answer_def timed_def)
qed

definition demo_service :: miner_service where
  "demo_service = \<lparr>ms_config = \<lparr>mc_hotkey = ''m'', mc_solver_command = ''/bin/sat {cnf}'', mc_solver_timeout = Fin 45,
     mc_max_vars = 4096, mc_max_clauses = 20000\<rparr>, ms_concurrency = 1, ms_cache_size = 2\<rparr>"

definition demo_solver :: solver_env where
  "demo_solver = \<lparr>sv_which = (\<lambda>name. False), sv_path = Inr ''/tmp/challenge.cnf'',
     sv_run = (\<lambda>argv input timeout. Exited 10 (model_text [[1, -2], [-3, 0]]))\<rparr>"

definition demo_miner_env :: miner_env where
  "demo_miner_env = \<lparr>me_now1 = 2000, me_now2 = 3000, me_started = Fin 0, me_ended = Fin 1,
     me_inflate = stored_inflate, me_solver = demo_solver, me_str = (\<lambda>e. ''error'')\<rparr>"

lemma demo_solves: "solver_solves demo_solver ''/bin/sat {cnf}'' \<lparr>cnf_n_vars = 3, cnf_clauses = [(1, -2, -3)]\<rparr> [[1, -2], [-3, 0]]"
proof -
  let ?c = "\<lparr>cnf_n_vars = 3, cnf_clauses = [(1, -2, -3)]\<rparr>"
  have "shlex_split ''/bin/sat {cnf}'' = Inr [''/bin/sat'', ''{cnf}'']" by code_simp
  moreover have "starts_with ''/bin/sat'' ''/''" by (simp add: starts_with_def)
  moreover have "is_ascii (to_dimacs ?c)" by code_simp
  moreover have "is_model ?c [1, -2, -3]" by (auto simp: is_model_def complete_lits_def clause_lits_def)
  ultimately show ?thesis unfolding solver_solves_def
    by (intro exI [of _ "''/bin/sat''"] exI [of _ "[''{cnf}'']"] exI [of _ "''/tmp/challenge.cnf''"]
        exI [of _ "map byte_of (to_dimacs ?c)"]) (simp add: demo_solver_def ascii_encode_def)
qed

theorem honest_miner_is_verified_witness:
  "\<exists>ch c cache' s score. solve demo_service demo_miner_env [((''v'', 6), None)] (from_challenge ch) ''v'' = (cache', Inr s) \<and>
    sy_error s = [] \<and> grade_response ch c (ch_challenge_id s) (ch_miner_hotkey s) (sy_assignment s) (Fin 0) 4000 (Fin 1) (Fin 1)
      = Inr (score, ''verified'') \<and> fval (f_round (Fin 1) 9) \<le> fval score"
proof -
  let ?c = "\<lparr>cnf_n_vars = 3, cnf_clauses = [(1, -2, -3)]\<rparr>"
  obtain ch where b: "build_challenge demo_mac id (replicate 32 0) 39 ''v'' ''m'' 7 1000 60000 3 1 0 = returnO (ch, ?c)"
    using demo_build by blast
  then have b': "build_challenge demo_mac id (replicate 32 0) 39 ''v'' (mc_hotkey (ms_config demo_service)) 7 1000 60000 3 1 0
      = returnO (ch, ?c)" by (simp add: demo_service_def)
  have "\<exists>cache' s score. solve demo_service demo_miner_env [((''v'', 6), None)] (from_challenge ch) ''v'' = (cache', Inr s) \<and>
    sy_error s = [] \<and> grade_response ch ?c (ch_challenge_id s) (ch_miner_hotkey s) (sy_assignment s) (Fin 0) 4000 (Fin 1) (Fin 1)
      = Inr (score, ''verified'') \<and> fval (f_round (Fin 1) 9) \<le> fval score"
    by (intro honest_miner_is_verified [OF b', where rows = "[[1, -2], [-3, 0]]"])
      (simp_all add: demo_miner_env_def demo_service_def stored_law demo_solves positive_float_def elapsed_float_def
        unit_float_def float_ok_def)
  then show ?thesis by blast
qed

end
