(* ===== verification/Miner_Rounds.thy ===== *)
theory Miner_Rounds
  imports Miner_Service
begin

text \<open>
  \<open>cathedral_thin/miner.py\<close>, the service under concurrent requests: the event loop runs other
  requests while a job runs, so a run of the service is any interleaving of begun and finished
  requests over one cache. The lemmas show that, as long as the cache has room for the rounds in
  use, a (validator, round) pair gets one solver run and one answer, whatever is sent.
\<close>

section \<open>Runs of the service\<close>

text \<open>The cache, the requests whose job runs, the rounds for which a job was started and the answers
  given, each with its round, the digest of its formula and its assignment.\<close>

record miner_state =
  mi_cache :: round_cache
  mi_open :: "(sat_challenge \<times> string) list"
  mi_jobs :: "round_key list"
  mi_answers :: "(round_key \<times> string \<times> string) list"

definition idle_miner :: miner_state where
  "idle_miner = \<lparr>mi_cache = [], mi_open = [], mi_jobs = [], mi_answers = []\<rparr>"

definition key_of :: "sat_challenge \<times> string \<Rightarrow> round_key" where
  "key_of q = (snd q, ch_round_id (fst q))"

definition answer_of :: "sat_challenge \<times> string \<Rightarrow> sat_challenge \<Rightarrow> round_key \<times> string \<times> string" where
  "answer_of q s = (key_of q, ch_cnf_sha256 (fst q), sy_assignment s)"

inductive miner_step :: "miner_service \<Rightarrow> miner_state \<Rightarrow> miner_state \<Rightarrow> bool" for sv where
  started: "solve_begin sv env (mi_cache m) syn caller = (cache', Running remaining) \<Longrightarrow>
    miner_step sv m (m\<lparr>mi_cache := cache', mi_open := (syn, caller) # mi_open m, mi_jobs := key_of (syn, caller) # mi_jobs m\<rparr>)"
| answered: "solve_begin sv env (mi_cache m) syn caller = (cache', Answered s) \<Longrightarrow>
    miner_step sv m (m\<lparr>mi_cache := cache', mi_answers := answer_of (syn, caller) s # mi_answers m\<rparr>)"
| escaped: "solve_begin sv env (mi_cache m) syn caller = (cache', Escaped e) \<Longrightarrow>
    miner_step sv m (m\<lparr>mi_cache := cache'\<rparr>)"
| finished: "(syn, caller) \<in> set (mi_open m) \<Longrightarrow> solve_finish sv env (mi_cache m) syn caller r = (cache', Inr s) \<Longrightarrow>
    miner_step sv m (m\<lparr>mi_cache := cache', mi_open := remove1 (syn, caller) (mi_open m),
      mi_answers := answer_of (syn, caller) s # mi_answers m\<rparr>)"
| crashed: "(syn, caller) \<in> set (mi_open m) \<Longrightarrow> solve_finish sv env (mi_cache m) syn caller r = (cache', Inl e) \<Longrightarrow>
    miner_step sv m (m\<lparr>mi_cache := cache', mi_open := remove1 (syn, caller) (mi_open m)\<rparr>)"

inductive_cases miner_stepE: "miner_step sv m m'"

section \<open>The cache operations\<close>

lemma evict_room: "int (length xs) \<le> n \<Longrightarrow> evict n xs = xs"
  by (subst evict.simps) (auto split: list.split)

lemma evict_suffix: "\<exists>ys. xs = ys @ evict n xs"
proof (induction n xs rule: evict.induct)
  case (1 n xs)
  show ?case
  proof (cases "\<exists>x rest. xs = x # rest \<and> int (length xs) > n")
    case True
    then obtain x rest where x: "xs = x # rest" "int (length xs) > n" by blast
    from 1 [OF x] obtain ys where "rest = ys @ evict n rest" by blast
    moreover have "evict n xs = evict n rest" using x by (subst evict.simps) simp
    ultimately show ?thesis using x by (intro exI [of _ "x # ys"]) simp
  next
    case False
    then have "evict n xs = xs" by (subst evict.simps) (auto split: list.split)
    then show ?thesis by simp
  qed
qed

lemma evict_bound: "0 \<le> n \<Longrightarrow> int (length (evict n xs)) \<le> n"
proof (induction n xs rule: evict.induct)
  case (1 n xs)
  then show ?case by (subst evict.simps) (auto split: list.split)
qed

lemma evict_distinct: "distinct (map fst xs) \<Longrightarrow> distinct (map fst (evict n xs))"
  using evict_suffix [of xs n] by (metis distinct_append map_append)

lemma move_to_end_lookup [simp]: "map_of (move_to_end k xs) = map_of xs"
proof -
  have "map_of (filter (\<lambda>(k', _). k' = k) xs) = (if map_of xs k = None then Map.empty else [k \<mapsto> the (map_of xs k)])"
    by (induction xs) (auto simp: fun_eq_iff split: if_splits)
  then show ?thesis by (auto simp: move_to_end_def map_add_def fun_eq_iff split: option.split)
qed

lemma filter_key_one: "distinct (map fst xs) \<Longrightarrow> filter (\<lambda>(k', _). k' = k) xs = (case map_of xs k of None \<Rightarrow> [] | Some v \<Rightarrow> [(k, v)])"
proof (induction xs)
  case (Cons x xs)
  have "filter (\<lambda>(k', _). k' = k) xs = []" if "k \<notin> fst ` set xs" using that by (force simp: filter_empty_conv)
  then show ?case using Cons by (cases x) auto
qed simp

lemma move_to_end_keys [simp]: "fst ` set (move_to_end k xs) = fst ` set xs"
  by (auto simp: move_to_end_def dict_del_def image_iff split: prod.splits)

lemma move_to_end_distinct: "distinct (map fst xs) \<Longrightarrow> distinct (map fst (move_to_end k xs))"
  using distinct_dict_del [of xs k] by (auto simp: move_to_end_def filter_key_one split: option.split)

lemma length_keys: "distinct (map fst xs) \<Longrightarrow> length xs = card (fst ` set xs)"
  by (metis distinct_card length_map list.set_map)

section \<open>One job and one answer per round\<close>

text \<open>What holds while the cache has room: it holds exactly the rounds a job was started for, each
  once; the open requests are among the reserved rounds; and an answer that carries an assignment
  is the one in the cache.\<close>

definition one_answer :: "miner_state \<Rightarrow> bool" where
  "one_answer m = (fst ` set (mi_cache m) = set (mi_jobs m) \<and> distinct (mi_jobs m) \<and>
     distinct (map key_of (mi_open m)) \<and>
     (\<forall>q \<in> set (mi_open m). map_of (mi_cache m) (key_of q) = Some None) \<and>
     (\<forall>k sha a. (k, sha, a) \<in> set (mi_answers m) \<longrightarrow> a \<noteq> [] \<longrightarrow>
        (\<exists>c. map_of (mi_cache m) k = Some (Some c) \<and> ca_cnf_sha256 c = sha \<and> ca_assignment c = a)))"

lemma one_answerD:
  assumes "one_answer m"
  shows "fst ` set (mi_cache m) = set (mi_jobs m)" "distinct (mi_jobs m)" "distinct (map key_of (mi_open m))"
    "p \<in> set (mi_open m) \<Longrightarrow> map_of (mi_cache m) (key_of p) = Some None"
    "(k, sha, a) \<in> set (mi_answers m) \<Longrightarrow> a \<noteq> [] \<Longrightarrow>
        \<exists>c. map_of (mi_cache m) k = Some (Some c) \<and> ca_cnf_sha256 c = sha \<and> ca_assignment c = a"
  using assms unfolding one_answer_def by blast+

definition miner_inv :: "miner_service \<Rightarrow> miner_state \<Rightarrow> bool" where
  "miner_inv sv m = (distinct (map fst (mi_cache m)) \<and> (int (card (set (mi_jobs m))) \<le> ms_cache_size sv \<longrightarrow> one_answer m))"

text \<open>The three ways a request begins.\<close>

lemma solve_begin_cases:
  assumes "solve_begin sv env cache syn caller = (cache', b)"
  obtains (stopped) e where "cache' = cache \<or> cache' = move_to_end (key_of (syn, caller)) cache" "b = stop_begin env syn e"
  | (served) c where "cache' = move_to_end (key_of (syn, caller)) cache" "b = Answered (timed env (apply_cached syn c))"
      "map_of cache (key_of (syn, caller)) = Some (Some c)" "ca_cnf_sha256 c = ch_cnf_sha256 syn"
  | (opened) remaining where "cache' = evict (ms_cache_size sv) (dict_set (key_of (syn, caller)) None cache)"
      "b = Running remaining" "map_of cache (key_of (syn, caller)) = None"
  using assms unfolding solve_begin_def reserve_round_def key_of_def
  by (auto simp: Let_def guardE_def split: sum.splits option.splits prod.splits if_splits)

lemma stop_begin_not_running [simp]: "stop_begin env syn e \<noteq> Running x"
  by (simp add: stop_begin_def)

lemma begin_frame:
  assumes "solve_begin sv env cache syn caller = (cache', b)" "\<And>x. b \<noteq> Running x"
  shows "map_of cache' = map_of cache \<and> fst ` set cache' = fst ` set cache \<and>
    (distinct (map fst cache) \<longrightarrow> distinct (map fst cache'))"
  using assms(1) by (cases rule: solve_begin_cases) (metis move_to_end_lookup move_to_end_keys move_to_end_distinct, use assms(2) in \<open>simp_all add: move_to_end_distinct\<close>)

lemma stop_begin_answer: "stop_begin env syn e = Answered s \<Longrightarrow> sy_assignment s = []"
  by (auto simp: stop_begin_def timed_def failed_def split: if_splits)

lemma one_answer_started:
  assumes "one_answer m" "distinct (map fst (mi_cache m))" "map_of (mi_cache m) (key_of q) = None"
    and "int (card (insert (key_of q) (set (mi_jobs m)))) \<le> n"
  shows "one_answer (m\<lparr>mi_cache := evict n (dict_set (key_of q) None (mi_cache m)), mi_open := q # mi_open m,
    mi_jobs := key_of q # mi_jobs m\<rparr>)"
proof -
  let ?d = "dict_set (key_of q) None (mi_cache m)"
  have keys: "fst ` set (mi_cache m) = set (mi_jobs m)" using assms(1) by (simp add: one_answer_def)
  have "length ?d = card (insert (key_of q) (set (mi_jobs m)))" using length_keys [of ?d] assms(2) keys by simp
  then have e: "evict n ?d = ?d" using assms(4) by (intro evict_room) simp
  have "key_of q \<notin> set (mi_jobs m)" using assms(3) keys by (auto simp: map_of_eq_None_iff)
  moreover have "key_of p \<noteq> key_of q" if "p \<in> set (mi_open m)" for p using assms(1,3) that by (auto simp: one_answer_def)
  moreover have "map_of ?d k = map_of (mi_cache m) k" if "map_of (mi_cache m) k = Some v" for k v
    using that assms(3) by auto
  ultimately show ?thesis using one_answerD [OF assms(1)] unfolding one_answer_def
    by (simp add: e keys_dict_set) (metis image_iff option.distinct(1) assms(3))
qed

lemma one_answer_finished:
  assumes "one_answer m" "distinct (map fst (mi_cache m))" "q \<in> set (mi_open m)"
    and "int (card (set (mi_jobs m))) \<le> n"
    and "ca_cnf_sha256 c = ch_cnf_sha256 (fst q)" "ca_assignment c = sy_assignment s"
  shows "one_answer (m\<lparr>mi_cache := evict n (move_to_end (key_of q) (dict_set (key_of q) (Some c) (mi_cache m))),
    mi_open := remove1 q (mi_open m), mi_answers := answer_of q s # mi_answers m\<rparr>)"
proof -
  let ?d = "move_to_end (key_of q) (dict_set (key_of q) (Some c) (mi_cache m))"
  have keys: "fst ` set (mi_cache m) = set (mi_jobs m)" and o: "distinct (map key_of (mi_open m))"
    "\<forall>q \<in> set (mi_open m). map_of (mi_cache m) (key_of q) = Some None" using assms(1) by (simp_all add: one_answer_def)
  have q: "key_of q \<in> set (mi_jobs m)" using o(2) assms(3) keys by (metis domI dom_map_of_conv_image_fst)
  then have kd: "fst ` set ?d = set (mi_jobs m)" using keys by auto
  then have "length ?d = card (set (mi_jobs m))" using length_keys [of ?d] assms(2) by (simp add: move_to_end_distinct)
  then have e: "evict n ?d = ?d" using assms(4) by (intro evict_room) simp
  have inj: "inj_on key_of (set (mi_open m))" "distinct (mi_open m)" using o(1) by (simp_all add: distinct_map)
  then have other: "key_of p \<noteq> key_of q" if "p \<in> set (remove1 q (mi_open m))" for p
    using that assms(3) by (auto dest: inj_onD)
  have "distinct (map key_of (remove1 q (mi_open m)))"
    using inj by (auto simp: distinct_map intro: inj_on_subset dest: notin_set_remove1)
  moreover have "\<forall>p \<in> set (remove1 q (mi_open m)). map_of ?d (key_of p) = Some None"
    using o(2) other notin_set_remove1 by fastforce
  moreover have "\<exists>c. map_of ?d k = Some (Some c) \<and> ca_cnf_sha256 c = sha \<and> ca_assignment c = a"
    if ans: "(k, sha, a) \<in> set (answer_of q s # mi_answers m)" and ne: "a \<noteq> []" for k sha a
  proof (cases "(k, sha, a) = answer_of q s")
    case True
    then show ?thesis using assms(5,6) by (simp add: answer_of_def)
  next
    case False
    then obtain c' where "map_of (mi_cache m) k = Some (Some c')" "ca_cnf_sha256 c' = sha" "ca_assignment c' = a"
      using ans ne one_answerD(5) [OF assms(1), of k sha a] by auto
    moreover from this have "k \<noteq> key_of q" using o(2) assms(3) by auto
    ultimately show ?thesis by simp
  qed
  ultimately show ?thesis using assms(1) kd unfolding one_answer_def by (auto simp: e)
qed

lemma one_answer_answered:
  assumes "one_answer m" "map_of cache' = map_of (mi_cache m)" "fst ` set cache' = fst ` set (mi_cache m)"
    and "sy_assignment s \<noteq> [] \<Longrightarrow>
      \<exists>c. map_of (mi_cache m) (key_of q) = Some (Some c) \<and> ca_cnf_sha256 c = ch_cnf_sha256 (fst q) \<and> ca_assignment c = sy_assignment s"
  shows "one_answer (m\<lparr>mi_cache := cache', mi_answers := answer_of q s # mi_answers m\<rparr>)"
  using assms unfolding one_answer_def by (auto simp: answer_of_def)

lemma one_answer_same:
  "one_answer m \<Longrightarrow> map_of cache' = map_of (mi_cache m) \<Longrightarrow> fst ` set cache' = fst ` set (mi_cache m) \<Longrightarrow>
     one_answer (m\<lparr>mi_cache := cache'\<rparr>)"
  unfolding one_answer_def by simp

lemma one_answer_crashed: "one_answer m \<Longrightarrow> one_answer (m\<lparr>mi_cache := mi_cache m, mi_open := remove1 q (mi_open m)\<rparr>)"
  unfolding one_answer_def by (auto simp: distinct_map intro: inj_on_subset dest: notin_set_remove1)

lemma solve_finish_cases:
  assumes "solve_finish sv env cache syn caller r = (cache', out)"
  obtains (crash) e where "cache' = cache" "out = Inl e"
  | (completed) c s where "out = Inr s" "ca_cnf_sha256 c = ch_cnf_sha256 syn" "ca_assignment c = sy_assignment s"
      "cache' = evict (ms_cache_size sv) (move_to_end (key_of (syn, caller)) (dict_set (key_of (syn, caller)) (Some c) cache))"
proof (cases "\<exists>e. r = Inl e \<and> \<not> handled e")
  case True
  then show thesis using assms crash by (auto simp: solve_finish_def)
next
  case False
  let ?s = "job_answer env syn r"
  have "cache' = complete_round_cache (ms_cache_size sv) cache syn caller (cached_of ?s)" "out = Inr (timed env ?s)"
    using assms False by (auto simp: solve_finish_def split: sum.splits if_splits)
  moreover have "ch_cnf_sha256 ?s = ch_cnf_sha256 syn"
    by (auto simp: job_answer_def failed_def split: sum.split)
  ultimately show thesis using completed [of "timed env ?s" "cached_of ?s"]
    by (simp add: complete_round_cache_def cached_of_def timed_def key_of_def Let_def)
qed

lemma miner_step_inv: "miner_step sv m m' \<Longrightarrow> miner_inv sv m \<Longrightarrow> miner_inv sv m'"
proof (elim miner_stepE)
  fix env syn caller cache' remaining
  assume m: "miner_inv sv m" "m' = m\<lparr>mi_cache := cache', mi_open := (syn, caller) # mi_open m, mi_jobs := key_of (syn, caller) # mi_jobs m\<rparr>"
    and b: "solve_begin sv env (mi_cache m) syn caller = (cache', Running remaining)"
  from b obtain e: "cache' = evict (ms_cache_size sv) (dict_set (key_of (syn, caller)) None (mi_cache m))"
    "map_of (mi_cache m) (key_of (syn, caller)) = None"
    by (elim solve_begin_cases) (auto dest!: sym [of "Running _"])
  have "int (card (set (mi_jobs m))) \<le> ms_cache_size sv" if "int (card (set (mi_jobs m'))) \<le> ms_cache_size sv"
    using that card_mono [of "set (mi_jobs m')" "set (mi_jobs m)"] m(2) by force
  then show "miner_inv sv m'" using m(1) one_answer_started [of m "(syn, caller)"] e unfolding miner_inv_def m(2)
    by (auto simp: evict_distinct)
next
  fix env syn caller cache' s
  assume m: "miner_inv sv m" "m' = m\<lparr>mi_cache := cache', mi_answers := answer_of (syn, caller) s # mi_answers m\<rparr>"
    and b: "solve_begin sv env (mi_cache m) syn caller = (cache', Answered s)"
  have same: "map_of cache' = map_of (mi_cache m) \<and> fst ` set cache' = fst ` set (mi_cache m) \<and>
      (distinct (map fst (mi_cache m)) \<longrightarrow> distinct (map fst cache'))" by (rule begin_frame [OF b]) simp
  have a: "\<exists>c. map_of (mi_cache m) (key_of (syn, caller)) = Some (Some c) \<and> ca_cnf_sha256 c = ch_cnf_sha256 syn \<and> ca_assignment c = sy_assignment s"
    if "sy_assignment s \<noteq> []"
    using b
  proof (cases rule: solve_begin_cases)
    case (stopped e)
    then show ?thesis using that stop_begin_answer by metis
  next
    case (served c)
    then show ?thesis by (simp add: timed_def apply_cached_def)
  qed simp
  then show "miner_inv sv m'" using m(1) same one_answer_answered [of m cache' s "(syn, caller)"] unfolding miner_inv_def m(2)
    by simp
next
  fix env syn caller cache' e
  assume m: "miner_inv sv m" "m' = m\<lparr>mi_cache := cache'\<rparr>"
    and b: "solve_begin sv env (mi_cache m) syn caller = (cache', Escaped e)"
  have "map_of cache' = map_of (mi_cache m) \<and> fst ` set cache' = fst ` set (mi_cache m) \<and>
      (distinct (map fst (mi_cache m)) \<longrightarrow> distinct (map fst cache'))" by (rule begin_frame [OF b]) simp
  then show "miner_inv sv m'" using m one_answer_same [of m cache'] unfolding miner_inv_def by simp
next
  fix env syn caller cache' s r
  assume m: "miner_inv sv m" "m' = m\<lparr>mi_cache := cache', mi_open := remove1 (syn, caller) (mi_open m),
      mi_answers := answer_of (syn, caller) s # mi_answers m\<rparr>"
    and q: "(syn, caller) \<in> set (mi_open m)" "solve_finish sv env (mi_cache m) syn caller r = (cache', Inr s)"
  from q(2) obtain c where c: "ca_cnf_sha256 c = ch_cnf_sha256 syn" "ca_assignment c = sy_assignment s"
    "cache' = evict (ms_cache_size sv) (move_to_end (key_of (syn, caller)) (dict_set (key_of (syn, caller)) (Some c) (mi_cache m)))"
    by (cases rule: solve_finish_cases) auto
  then show "miner_inv sv m'" using m(1) one_answer_finished [of m "(syn, caller)" "ms_cache_size sv" c s] q(1)
    unfolding miner_inv_def m(2) by (simp add: evict_distinct move_to_end_distinct)
next
  fix env syn caller cache' e r
  assume m: "miner_inv sv m" "m' = m\<lparr>mi_cache := cache', mi_open := remove1 (syn, caller) (mi_open m)\<rparr>"
    and q: "solve_finish sv env (mi_cache m) syn caller r = (cache', Inl e)"
  from q have "cache' = mi_cache m" by (cases rule: solve_finish_cases) auto
  then show "miner_inv sv m'" using m one_answer_crashed [of m "(syn, caller)"] unfolding miner_inv_def by simp
qed

lemma miner_run_inv: "rtranclp (miner_step sv) idle_miner m \<Longrightarrow> miner_inv sv m"
proof (induction rule: rtranclp_induct)
  case base
  show ?case by (simp add: miner_inv_def one_answer_def idle_miner_def)
qed (rule miner_step_inv)

section \<open>Properties of the service\<close>

text \<open>C29. One formula per validator and round: in every interleaving of requests in which the cache has
  room for the rounds used, no round's solver is started twice, and all answers to one validator
  and round that carry an assignment are for the same formula and carry the same assignment.\<close>

theorem one_answer_per_round:
  assumes "rtranclp (miner_step sv) idle_miner m" "int (card (set (mi_jobs m))) \<le> ms_cache_size sv"
  shows "distinct (mi_jobs m) \<and>
    (\<forall>k sha1 a1 sha2 a2. (k, sha1, a1) \<in> set (mi_answers m) \<and> (k, sha2, a2) \<in> set (mi_answers m) \<and> a1 \<noteq> [] \<and> a2 \<noteq> []
      \<longrightarrow> sha1 = sha2 \<and> a1 = a2)"
proof -
  have "one_answer m" using miner_run_inv [OF assms(1)] assms(2) by (simp add: miner_inv_def)
  note one_answerD(2) [OF this] one_answerD(5) [OF this]
  then show ?thesis by (metis option.inject)
qed

theorem one_answer_per_round_witness:
  "\<exists>m. rtranclp (miner_step demo_service) idle_miner m \<and> mi_jobs m = [(''v'', 7)] \<and> distinct (mi_jobs m) \<and>
     (\<exists>sha. mi_answers m = [((''v'', 7), sha, ''p''), ((''v'', 7), sha, ''p'')])"
proof -
  let ?c = "\<lparr>cnf_n_vars = 3, cnf_clauses = [(1, -2, -3)]\<rparr>" and ?sv = demo_service and ?env = demo_miner_env
  obtain ch where "build_challenge demo_mac id (replicate 32 0) 39 ''v'' ''m'' 7 1000 60000 3 1 0 = returnO (ch, ?c)"
    using demo_build by blast
  then have b: "build_challenge demo_mac id (replicate 32 0) 39 ''v'' (mc_hotkey (ms_config ?sv)) 7 1000 60000 3 1 0
      = returnO (ch, ?c)" by (simp add: demo_service_def)
  obtain remaining where a: "admit ?sv ?env (from_challenge ch) ''v'' = Inr remaining" "ch_round_id ch = 7"
    by (rule built_admitted [OF b, of ?env]) (simp_all add: demo_service_def demo_miner_env_def)
  let ?q = "(from_challenge ch, ''v'')" and ?k = "(''v'', 7 :: int)"
  have size2: "ms_cache_size ?sv = 2" by (simp add: demo_service_def)
  define s where "s = timed ?env (job_answer ?env (from_challenge ch) (Inr (''p'', ''solver'')))"
  define c where "c = cached_of (job_answer ?env (from_challenge ch) (Inr (''p'', ''solver'')))"
  have key: "key_of ?q = ?k" using a(2) by (simp add: key_of_def)
  have s1: "solve_begin ?sv ?env [] (from_challenge ch) ''v'' = ([(?k, None)], Running remaining)"
    using a by (simp add: solve_begin_def reserve_round_def evict_room size2)
  have s2: "solve_finish ?sv ?env [(?k, None)] (from_challenge ch) ''v'' (Inr (''p'', ''solver'')) = ([(?k, Some c)], Inr s)"
    using a(2) by (simp add: solve_finish_def complete_round_cache_def s_def c_def move_to_end_def dict_del_def evict_room size2)
  have s3: "solve_begin ?sv ?env [(?k, Some c)] (from_challenge ch) ''v''
      = ([(?k, Some c)], Answered (timed ?env (apply_cached (from_challenge ch) c)))"
    using a by (simp add: solve_begin_def reserve_round_def move_to_end_def dict_del_def c_def cached_of_def job_answer_def)
  define m1 where "m1 = \<lparr>mi_cache = [(?k, None)], mi_open = [?q], mi_jobs = [?k], mi_answers = []\<rparr>"
  define m2 where "m2 = \<lparr>mi_cache = [(?k, Some c)], mi_open = [], mi_jobs = [?k], mi_answers = [answer_of ?q s]\<rparr>"
  define m3 where "m3 = m2\<lparr>mi_answers := answer_of ?q (timed ?env (apply_cached (from_challenge ch) c)) # mi_answers m2\<rparr>"
  have step1: "miner_step ?sv idle_miner m1"
    using miner_step.started [of ?sv ?env idle_miner "from_challenge ch" "''v''"] s1 by (simp add: idle_miner_def m1_def key)
  have step2: "miner_step ?sv m1 m2"
    using miner_step.finished [of "from_challenge ch" "''v''" m1 ?sv ?env "Inr (''p'', ''solver'')"] s2 by (simp add: m1_def m2_def)
  have step3: "miner_step ?sv m2 m3"
    using miner_step.answered [of ?sv ?env m2 "from_challenge ch" "''v''"] s3 by (simp add: m2_def m3_def)
  have run: "rtranclp (miner_step ?sv) idle_miner m3"
    by (rule converse_rtranclp_into_rtranclp [of "miner_step ?sv", OF step1 converse_rtranclp_into_rtranclp [of "miner_step ?sv", OF step2
        converse_rtranclp_into_rtranclp [of "miner_step ?sv", OF step3 rtranclp.rtrancl_refl]]])
  have j: "mi_jobs m3 = [?k]" "int (card (set (mi_jobs m3))) \<le> ms_cache_size ?sv" by (simp_all add: m3_def m2_def size2)
  have ans: "mi_answers m3 = [(?k, ch_cnf_sha256 ch, ''p''), (?k, ch_cnf_sha256 ch, ''p'')]"
    by (simp add: m3_def m2_def key answer_of_def s_def c_def timed_def job_answer_def apply_cached_def cached_of_def)
  show ?thesis
    by (intro exI [of _ m3] exI [of _ "ch_cnf_sha256 ch"] conjI run j(1) ans conjunct1 [OF one_answer_per_round [OF run j(2)]])
qed

end
