(* ===== verification/Miner_Access.thy ===== *)
theory Miner_Access
  imports Miner_Service
begin

text \<open>
  \<open>cathedral_thin/miner.py\<close>, admission: the snapshot of validator permits and the per-caller rate
  limit (\<open>PermitAccess\<close>), and the start of the process (\<open>main\<close>). The lemmas show that only
  permitted validators reach the solver and that none is admitted more than its limit within any
  window, whatever the refreshes in between.
\<close>

section \<open>Permits and rate limits\<close>

record permit_access =
  pa_netuid :: int
  pa_miner_hotkey :: string
  pa_limit :: int
  pa_window :: pyfloat
  pa_allowed :: "string list"
  pa_requests :: "(string \<times> pyfloat list) list"

definition make_access :: "int \<Rightarrow> string \<Rightarrow> int \<Rightarrow> pyfloat \<Rightarrow> permit_access res" where
  "make_access netuid hotkey requests_per_minute window =
     (if requests_per_minute \<le> 0 \<or> f_le window (Fin 0) then Inl PyValueError
      else Inr \<lparr>pa_netuid = netuid, pa_miner_hotkey = hotkey, pa_limit = requests_per_minute, pa_window = window,
        pa_allowed = [], pa_requests = []\<rparr>)"

text \<open>The metagraph's hotkeys and validator permits, or the exception of fetching them.\<close>

type_synonym permits = "(string list \<times> bool list) res"

definition refresh :: "permit_access \<Rightarrow> permits \<Rightarrow> permit_access res" where
  "refresh acc fetched =
     bindE fetched (\<lambda>(hotkeys, permits).
       if length hotkeys \<noteq> length permits then Inl PyRuntimeError
       else
         (let allowed = map fst (filter snd (zip hotkeys permits)) in
          Inr (acc\<lparr>pa_allowed := allowed,
            pa_requests := filter (\<lambda>(hotkey, attempts). hotkey \<in> set allowed) (pa_requests acc)\<rparr>)))"

definition refresh_preserving_snapshot :: "permit_access \<Rightarrow> permits \<Rightarrow> permit_access \<times> bool" where
  "refresh_preserving_snapshot acc fetched =
     (case refresh acc fetched of Inl e \<Rightarrow> (acc, False) | Inr acc' \<Rightarrow> (acc', True))"

definition attempts_of :: "permit_access \<Rightarrow> string \<Rightarrow> pyfloat list" where
  "attempts_of acc caller = (case map_of (pa_requests acc) caller of None \<Rightarrow> [] | Some ts \<Rightarrow> ts)"

definition rate_limited :: "permit_access \<Rightarrow> pyfloat \<Rightarrow> string \<Rightarrow> permit_access \<times> bool" where
  "rate_limited acc timestamp caller =
     (let cutoff = f_sub timestamp (pa_window acc);
          attempts = dropWhile (\<lambda>a. f_le a cutoff) (attempts_of acc caller) in
      if int (length attempts) \<ge> pa_limit acc
      then (acc\<lparr>pa_requests := dict_set caller attempts (pa_requests acc)\<rparr>, True)
      else (acc\<lparr>pa_requests := dict_set caller (attempts @ [timestamp]) (pa_requests acc)\<rparr>, False))"

definition blacklist :: "permit_access \<Rightarrow> pyfloat \<Rightarrow> sat_challenge \<Rightarrow> string option \<Rightarrow> permit_access \<times> bool \<times> string" where
  "blacklist acc timestamp syn dendrite =
     (let caller = (case dendrite of None \<Rightarrow> [] | Some hotkey \<Rightarrow> hotkey) in
      if ch_miner_hotkey syn \<noteq> pa_miner_hotkey acc then (acc, True, ''wrong_miner_target'')
      else if caller = [] \<or> caller \<notin> set (pa_allowed acc) then (acc, True, ''validator_permit_required'')
      else if ch_validator_hotkey syn \<noteq> caller then (acc, True, ''validator_identity_mismatch'')
      else
        (case rate_limited acc timestamp caller of
           (acc', True) \<Rightarrow> (acc', True, ''validator_rate_limited'')
         | (acc', False) \<Rightarrow> (acc', False, ''allowed'')))"

section \<open>The process\<close>

record miner_args =
  ma_netuid :: int
  ma_port :: int
  ma_solver_command :: string
  ma_solver_timeout :: pyfloat
  ma_max_vars :: int
  ma_max_clauses :: int
  ma_concurrency :: int
  ma_cache_size :: int
  ma_rpm :: int
  ma_refresh_secs :: pyfloat

definition check_miner_args :: "miner_args \<Rightarrow> string option" where
  "check_miner_args a =
     (if ma_netuid a < 0 \<or> ma_port a \<le> 0 \<or> ma_concurrency a \<le> 0 \<or> ma_cache_size a \<le> 0 \<or> ma_rpm a \<le> 0
      then Some ''invalid netuid, port, concurrency, cache, or rate limit'' else None)"

text \<open>The service and the permits of a checked command line; \<open>hotkey\<close> is the wallet's. The first
  snapshot of permits must succeed.\<close>

definition start_miner :: "miner_args \<Rightarrow> string \<Rightarrow> permits \<Rightarrow> (miner_service \<times> permit_access) res" where
  "start_miner a hotkey fetched =
     bindE (make_service \<lparr>mc_hotkey = hotkey, mc_solver_command = ma_solver_command a, mc_solver_timeout = ma_solver_timeout a,
         mc_max_vars = ma_max_vars a, mc_max_clauses = ma_max_clauses a\<rparr> (ma_concurrency a) (ma_cache_size a)) (\<lambda>service.
     bindE (make_access (ma_netuid a) hotkey (ma_rpm a) (Fin 60)) (\<lambda>access.
     bindE (refresh access fetched) (\<lambda>access'. Inr (service, access'))))"

text \<open>What the axon runs: the requests it hands to \<open>blacklist\<close> and the loop's refreshes. The log has
  the admitted callers and times, oldest first.\<close>

datatype access_event = Asked pyfloat sat_challenge "string option" | Refreshed permits

fun access_run :: "permit_access \<Rightarrow> access_event list \<Rightarrow> permit_access \<times> (string \<times> pyfloat) list" where
  "access_run acc [] = (acc, [])"
| "access_run acc (Asked t syn dendrite # es) =
     (case blacklist acc t syn dendrite of
        (acc', True, reason) \<Rightarrow> access_run acc' es
      | (acc', False, reason) \<Rightarrow>
          (case access_run acc' es of (acc'', seen) \<Rightarrow> (acc'', (ch_validator_hotkey syn, t) # seen)))"
| "access_run acc (Refreshed fetched # es) = access_run (fst (refresh_preserving_snapshot acc fetched)) es"

section \<open>The rate limit\<close>

lemma cutoff_mono:
  assumes "isfinite s" "isfinite t" "isfinite w" "f_le s t"
  shows "f_le (f_sub s w) (f_sub t w)"
proof -
  have "isfinite (f_neg w)" using assms(3) by (cases w) (auto simp: f_neg_def isfinite_def)
  then show ?thesis using assms by (simp add: f_sub_def f_add_fin mk_float_le f_le_fin)
qed

text \<open>\<open>paced w xs n\<close>: of the times \<open>xs\<close>, no window of length \<open>w\<close> that ends at one of them holds
  more than \<open>n\<close>.\<close>

definition recent :: "pyfloat \<Rightarrow> pyfloat \<Rightarrow> pyfloat list \<Rightarrow> pyfloat list" where
  "recent w t ts = filter (\<lambda>a. \<not> f_le a (f_sub t w)) ts"

definition paced :: "pyfloat \<Rightarrow> int \<Rightarrow> pyfloat list \<Rightarrow> bool" where
  "paced w n ts = (\<forall>i < length ts. int (length (recent w (ts ! i) (take (Suc i) ts))) \<le> n)"

lemma paced_snoc: "paced w n (ts @ [t]) \<longleftrightarrow> paced w n ts \<and> int (length (recent w t (ts @ [t]))) \<le> n"
  by (auto simp: paced_def nth_append less_Suc_eq)

text \<open>The deque of a caller is what is left of its history after dropping times that are already
  outside every later window.\<close>

definition tracks :: "permit_access \<Rightarrow> string \<Rightarrow> pyfloat \<Rightarrow> pyfloat list \<Rightarrow> bool" where
  "tracks acc k latest hist =
     (\<exists>dropped. hist = dropped @ attempts_of acc k \<and> (\<forall>a \<in> set dropped. f_le a (f_sub latest (pa_window acc))))"

lemma attempts_of_set: "attempts_of (acc\<lparr>pa_requests := dict_set c ts (pa_requests acc)\<rparr>) k = (if k = c then ts else attempts_of acc k)"
  by (simp add: attempts_of_def)

lemma tracks_later:
  assumes "tracks acc k latest hist" "isfinite latest" "isfinite t" "isfinite (pa_window acc)" "f_le latest t"
  shows "tracks acc k t hist"
  using assms(1) f_le_trans cutoff_mono [OF assms(2-5)] unfolding tracks_def by blast

lemma rate_limited_tracks:
  assumes "rate_limited acc t c = (acc', blocked)" "tracks acc k t hist"
  shows "tracks acc' k t (if c = k \<and> \<not> blocked then hist @ [t] else hist) \<and>
    (c = k \<and> \<not> blocked \<longrightarrow> int (length (recent (pa_window acc) t (hist @ [t]))) \<le> pa_limit acc) \<and>
    pa_window acc' = pa_window acc \<and> pa_limit acc' = pa_limit acc \<and> pa_allowed acc' = pa_allowed acc"
proof -
  let ?cut = "f_sub t (pa_window acc)"
  let ?kept = "dropWhile (\<lambda>a. f_le a ?cut) (attempts_of acc c)" and ?gone = "takeWhile (\<lambda>a. f_le a ?cut) (attempts_of acc c)"
  have frame: "pa_window acc' = pa_window acc \<and> pa_limit acc' = pa_limit acc \<and> pa_allowed acc' = pa_allowed acc"
    using assms(1) by (auto simp: rate_limited_def Let_def split: if_splits)
  obtain dropped where d: "hist = dropped @ attempts_of acc k" "\<forall>a \<in> set dropped. f_le a ?cut"
    using assms(2) unfolding tracks_def by blast
  show ?thesis
  proof (cases "c = k")
    case False
    then have "attempts_of acc' k = attempts_of acc k"
      using assms(1) by (auto simp: rate_limited_def Let_def attempts_of_set split: if_splits)
    then show ?thesis using False assms(2) frame by (simp add: tracks_def)
  next
    case True
    have h: "hist = (dropped @ ?gone) @ ?kept" using d(1) True by simp
    have old: "\<forall>a \<in> set (dropped @ ?gone). f_le a ?cut" using d(2) by (auto dest: set_takeWhileD)
    have "attempts_of acc' k = (if blocked then ?kept else ?kept @ [t])"
      using assms(1) True by (auto simp: rate_limited_def Let_def attempts_of_set split: if_splits)
    then have "tracks acc' k t (if blocked then hist else hist @ [t])"
      using h old frame unfolding tracks_def by (intro exI [of _ "dropped @ ?gone"]) simp
    moreover have "int (length (recent (pa_window acc) t (hist @ [t]))) \<le> pa_limit acc" if "\<not> blocked"
    proof -
      have "filter (\<lambda>a. \<not> f_le a ?cut) (dropped @ ?gone) = []" using old by (simp only: filter_empty_conv) blast
      then have "recent (pa_window acc) t (hist @ [t]) = recent (pa_window acc) t (?kept @ [t])"
        unfolding recent_def h filter_append by simp
      then have "length (recent (pa_window acc) t (hist @ [t])) \<le> Suc (length ?kept)"
        unfolding recent_def by (metis length_append_singleton length_filter_le)
      moreover have "int (length ?kept) < pa_limit acc"
        using assms(1) that by (auto simp: rate_limited_def Let_def split: if_splits)
      ultimately show ?thesis by simp
    qed
    ultimately show ?thesis using True frame by (cases blocked) simp_all
  qed
qed

lemma blacklist_cases:
  assumes "blacklist acc t syn d = (acc', blocked, reason)"
  obtains (refused) "acc' = acc" "blocked"
  | (counted) "d = Some (ch_validator_hotkey syn)" "ch_validator_hotkey syn \<in> set (pa_allowed acc)"
      "ch_miner_hotkey syn = pa_miner_hotkey acc" "rate_limited acc t (ch_validator_hotkey syn) = (acc', blocked)"
  using assms unfolding blacklist_def
  by (auto simp: Let_def split: if_splits prod.splits bool.splits option.splits)

lemma refresh_keeps:
  assumes "refresh acc fetched = Inr acc'" "k \<in> set (pa_allowed acc')"
  shows "attempts_of acc' k = attempts_of acc k"
proof -
  have "acc' = acc\<lparr>pa_allowed := pa_allowed acc', pa_requests := filter (\<lambda>(h, ts). h \<in> set (pa_allowed acc')) (pa_requests acc)\<rparr>"
    using assms(1) by (auto simp: refresh_def Let_def elim!: bindE_InrE split: if_splits)
  moreover have "map_of (filter (\<lambda>(h, ts). h \<in> A) xs) k = map_of xs k" if "k \<in> A" for A and xs :: "(string \<times> pyfloat list) list"
    using that by (induction xs) auto
  ultimately have "map_of (pa_requests acc') k = map_of (pa_requests acc) k"
    using assms(2) by (metis permit_access.select_convs(6) permit_access.surjective permit_access.update_convs(6))
  then show ?thesis by (simp add: attempts_of_def)
qed

lemma refresh_frame:
  "refresh acc fetched = Inr acc' \<Longrightarrow> pa_window acc' = pa_window acc \<and> pa_limit acc' = pa_limit acc"
  by (auto simp: refresh_def Let_def elim!: bindE_InrE split: if_splits)

text \<open>Runs in which the clock does not go back and \<open>k\<close> keeps its permit.\<close>

fun clocked :: "pyfloat \<Rightarrow> access_event list \<Rightarrow> bool" where
  "clocked latest [] = True"
| "clocked latest (Asked t syn d # es) = (isfinite t \<and> f_le latest t \<and> clocked t es)"
| "clocked latest (Refreshed fetched # es) = clocked latest es"

definition still_permitted :: "string \<Rightarrow> permits \<Rightarrow> bool" where
  "still_permitted k fetched =
     (case fetched of Inl e \<Rightarrow> True | Inr (hotkeys, permits) \<Rightarrow> length hotkeys = length permits \<longrightarrow> (k, True) \<in> set (zip hotkeys permits))"

definition keeps_permit :: "string \<Rightarrow> access_event list \<Rightarrow> bool" where
  "keeps_permit k es = (\<forall>fetched. Refreshed fetched \<in> set es \<longrightarrow> still_permitted k fetched)"

lemma still_permitted_refresh: "still_permitted k fetched \<Longrightarrow> refresh acc fetched = Inr acc' \<Longrightarrow> k \<in> set (pa_allowed acc')"
  by (force simp: still_permitted_def refresh_def Let_def elim!: bindE_InrE split: if_splits)

definition times_of :: "string \<Rightarrow> (string \<times> pyfloat) list \<Rightarrow> pyfloat list" where
  "times_of k seen = map snd (filter (\<lambda>(c, t). c = k) seen)"

lemma access_run_within:
  assumes "access_run acc es = (acc', seen)" "tracks acc k latest hist" "isfinite latest" "isfinite (pa_window acc)"
    and "clocked latest es" "keeps_permit k es" "paced (pa_window acc) (pa_limit acc) hist"
  shows "paced (pa_window acc) (pa_limit acc) (hist @ times_of k seen)"
  using assms
proof (induction acc es arbitrary: seen hist latest rule: access_run.induct)
  case (1 acc)
  then show ?case by (simp add: times_of_def)
next
  case (2 acc t syn d es)
  have t: "isfinite t" "f_le latest t" "clocked t es" using 2(7) by simp_all
  have now: "tracks acc k t hist" using tracks_later 2(4-6) t(1,2) by blast
  obtain acc1 blocked reason where b: "blacklist acc t syn d = (acc1, blocked, reason)" by (metis prod_cases3)
  obtain rest where r: "access_run acc1 es = (acc', rest)"
    using 2(3) b by (cases "access_run acc1 es"; cases blocked) auto
  have seen: "seen = (if blocked then rest else (ch_validator_hotkey syn, t) # rest)"
    using 2(3) b r by (cases blocked) auto
  have kp: "keeps_permit k es" using 2(8) by (simp add: keeps_permit_def)
  let ?hist = "if ch_validator_hotkey syn = k \<and> \<not> blocked then hist @ [t] else hist"
  have step: "tracks acc1 k t ?hist \<and> paced (pa_window acc) (pa_limit acc) ?hist \<and> pa_window acc1 = pa_window acc \<and> pa_limit acc1 = pa_limit acc"
    using b
  proof (cases rule: blacklist_cases)
    case refused
    then show ?thesis using now 2(9) by simp
  next
    case counted
    from rate_limited_tracks [OF counted(4) now] 2(9) show ?thesis by (simp add: paced_snoc)
  qed
  have "paced (pa_window acc1) (pa_limit acc1) (?hist @ times_of k rest)"
  proof (cases blocked)
    case True
    then show ?thesis using 2(1) [OF b [symmetric] refl _ r, where latest = t and hist = ?hist] step t kp 2(6)
      by simp
  next
    case False
    then show ?thesis using 2(2) [OF b [symmetric] refl _ r, where latest = t and hist = ?hist] step t kp 2(6)
      by simp
  qed
  moreover have "?hist @ times_of k rest = hist @ times_of k seen" by (simp add: seen times_of_def)
  ultimately show ?case using step by simp
next
  case (3 acc fetched es)
  show ?case
  proof (cases "refresh acc fetched")
    case (Inl e)
    then show ?thesis using 3 by (simp add: refresh_preserving_snapshot_def keeps_permit_def)
  next
    case (Inr acc1)
    have "still_permitted k fetched" using 3(7) by (auto simp: keeps_permit_def)
    then have "k \<in> set (pa_allowed acc1)" using Inr still_permitted_refresh by blast
    then have "tracks acc1 k latest hist"
      using 3(3) refresh_keeps [OF Inr] refresh_frame [OF Inr] by (simp add: tracks_def)
    then show ?thesis using 3 Inr refresh_frame [OF Inr] by (simp add: refresh_preserving_snapshot_def keeps_permit_def)
  qed
qed

section \<open>Properties of admission\<close>

text \<open>C30. From a fresh start, whatever is asked by whom and however often the permits are refreshed, a
  caller that keeps its permit is never admitted more often than its limit within one window, on a
  clock that does not go back: of its admitted times, at most the limit lie after the cutoff of any
  one of them. And a request is only admitted when its caller is the validator the challenge names,
  holds a permit in the current snapshot and addresses this miner.\<close>

theorem admission_is_limited:
  assumes "make_access netuid hotkey limit_per_window window = Inr acc0" "refresh acc0 first = Inr acc"
    and "access_run acc es = (acc', seen)" "clocked start es" "isfinite start" "isfinite window" "keeps_permit k es"
  shows "paced window limit_per_window (times_of k seen) \<and>
    (\<forall>acc1 t syn d acc2 reason. blacklist acc1 t syn d = (acc2, False, reason) \<longrightarrow>
       d = Some (ch_validator_hotkey syn) \<and> ch_validator_hotkey syn \<in> set (pa_allowed acc1) \<and>
       ch_miner_hotkey syn = pa_miner_hotkey acc1)"
proof
  have acc: "pa_window acc = window" "pa_limit acc = limit_per_window" "pa_requests acc = []"
    using assms(1,2) by (auto simp: make_access_def refresh_def Let_def elim!: bindE_InrE split: if_splits)
  have "tracks acc k start []" by (simp add: tracks_def attempts_of_def acc)
  moreover have "paced w n []" for w n by (simp add: paced_def)
  ultimately show "paced window limit_per_window (times_of k seen)"
    using access_run_within [OF assms(3) _ assms(5) _ assms(4,7), where hist = "[]"] assms(6) by (simp add: acc)
next
  show "\<forall>acc1 t syn d acc2 reason. blacklist acc1 t syn d = (acc2, False, reason) \<longrightarrow>
       d = Some (ch_validator_hotkey syn) \<and> ch_validator_hotkey syn \<in> set (pa_allowed acc1) \<and>
       ch_miner_hotkey syn = pa_miner_hotkey acc1"
    by (auto elim!: blacklist_cases)
qed

definition demo_ask :: "pyfloat \<Rightarrow> access_event" where
  "demo_ask t = Asked t (from_challenge demo_challenge) (Some ''v'')"

theorem admission_is_limited_witness:
  "\<exists>acc0 acc acc'. make_access 39 ''m'' 1 (Fin 60) = Inr acc0 \<and> refresh acc0 (Inr ([''v''], [True])) = Inr acc \<and>
     access_run acc [demo_ask (Fin 1), Refreshed (Inl PyOSError), demo_ask (Fin 2)] = (acc', [(''v'', Fin 1)]) \<and>
     paced (Fin 60) 1 (times_of ''v'' [(''v'', Fin 1)])"
proof -
  define acc0 where "acc0 = \<lparr>pa_netuid = 39, pa_miner_hotkey = ''m'', pa_limit = 1, pa_window = Fin 60, pa_allowed = [], pa_requests = []\<rparr>"
  define acc where "acc = acc0\<lparr>pa_allowed := [''v'']\<rparr>"
  have a0: "make_access 39 ''m'' 1 (Fin 60) = Inr acc0" by (simp add: make_access_def acc0_def f_le_fin)
  have a1: "refresh acc0 (Inr ([''v''], [True])) = Inr acc" by (simp add: refresh_def acc_def acc0_def)
  have sub: "f_sub (Fin 2) (Fin 60) = Fin (- 58)"
  proof -
    have "fl_rat (of_int (- 58)) = of_int (- 58)" by (rule fl_rat_int) simp
    then show ?thesis by (simp add: f_sub_def f_neg_def f_add_fin mk_float_def)
  qed
  obtain acc' where run: "access_run acc [demo_ask (Fin 1), Refreshed (Inl PyOSError), demo_ask (Fin 2)] = (acc', [(''v'', Fin 1)])"
    by (simp add: demo_ask_def blacklist_def acc_def acc0_def from_challenge_def challenge.defs demo_challenge_def rate_limited_def
        attempts_of_def refresh_preserving_snapshot_def refresh_def sub f_le_fin Let_def)
  have "clocked (Fin 0) [demo_ask (Fin 1), Refreshed (Inl PyOSError), demo_ask (Fin 2)]" by (simp add: demo_ask_def f_le_fin)
  from admission_is_limited [OF a0 a1 run this, of "''v''"] have "paced (Fin 60) 1 (times_of ''v'' [(''v'', Fin 1)])"
    by (simp add: keeps_permit_def demo_ask_def still_permitted_def)
  then show ?thesis using a0 a1 run by blast
qed

end
