(* ===== verification/Ml_Receipt.thy ===== *)
theory Ml_Receipt
  imports Score_Report
begin

text \<open>
  \<open>cathedral_thin/ml_receipts.py\<close>, the receipts: the commitments and bindings, the request
  authorization a validator signs before an inference, and the receipt a miner signs after it. sr25519 and the attestation verifier are parameters; the
  strict JSON, the digests and the block window are those of the score artifacts. The bounded
  text fields are also defined on code points (\<open>bounded_points\<close>), where a lone surrogate raises.
\<close>

section \<open>Values\<close>

definition MAX_RECEIPT_BYTES :: int where "MAX_RECEIPT_BYTES = 262144"
definition MAX_ATTESTATION_BYTES :: int where "MAX_ATTESTATION_BYTES = 1048576"

definition sha_digest_text :: "string \<Rightarrow> bool" where
  "sha_digest_text s = (starts_with s ''sha256:'' \<and> hex64 (removeprefix s ''sha256:''))"

definition sha_digest :: "json \<Rightarrow> string \<Rightarrow> string res" where
  "sha_digest v label = (case v of JStr s \<Rightarrow> if sha_digest_text s then Inr s else raise (''invalid '' @ label)
     | _ \<Rightarrow> raise (''invalid '' @ label))"

definition sha256_digest :: "bytes \<Rightarrow> string" where
  "sha256_digest m = ''sha256:'' @ sha256_hex m"

definition receipt_decimal :: "json \<Rightarrow> string \<Rightarrow> dec res" where
  "receipt_decimal v label =
     (case v of
        JStr s \<Rightarrow> (case decimal_text s of None \<Rightarrow> raise (label @ '' must be a canonical non-negative decimal'')
           | Some d \<Rightarrow> guardE (dec_val d < 0) (''invalid '' @ label) (Inr d))
      | _ \<Rightarrow> raise (label @ '' must be a canonical non-negative decimal''))"

text \<open>\<open>format(value, "f")\<close> and \<open>canonical_decimal\<close>, on a finite \<open>Decimal\<close> or an int.\<close>

definition fixed_text :: "dec \<Rightarrow> string" where
  "fixed_text d =
     (let ds = nat_str (nat (fst d)); p = replicate (Suc (snd d) - length ds) CHR ''0'' @ ds in
      if snd d = 0 then ds else take (length p - snd d) p @ ''.'' @ drop (length p - snd d) p)"

definition rstrip_char :: "char \<Rightarrow> string \<Rightarrow> string" where
  "rstrip_char c s = rev (dropWhile (\<lambda>x. x = c) (rev s))"

definition canonical_decimal :: "dec \<Rightarrow> string res" where
  "canonical_decimal d =
     guardE (fst d < 0) ''value is not a finite non-negative decimal''
     (let rendered = fixed_text d;
          stripped = (if CHR ''.'' \<in> set rendered then rstrip_char CHR ''.'' (rstrip_char CHR ''0'' rendered) else rendered) in
      guardE (decimal_text stripped = None) ''decimal exceeds canonical precision or range'' (Inr stripped))"

text \<open>\<open>_bounded_string\<close> on any Python text, given by its code points: the length is that of the UTF-8
  bytes, and a lone surrogate (which a JSON escape can spell) leaves it as a UnicodeEncodeError.\<close>

definition bounded_points :: "nat list \<Rightarrow> string \<Rightarrow> nat \<Rightarrow> nat list res" where
  "bounded_points points label maximum =
     bindE (encode_points points) (\<lambda>raw.
     guardE (\<not> (1 \<le> length raw \<and> length raw \<le> maximum)) (''invalid '' @ label) (Inr points))"

text \<open>The same on a parsed value. The model's text has the code points up to 255, where encoding does
  not fail; so here and in \<open>receipt_uri\<close> it is a length (\<open>bounded_string_points\<close> below).\<close>

definition bounded_string :: "json \<Rightarrow> string \<Rightarrow> nat \<Rightarrow> string res" where
  "bounded_string v label maximum =
     (case v of JStr s \<Rightarrow> if 1 \<le> utf8_length s \<and> utf8_length s \<le> maximum then Inr s else raise (''invalid '' @ label)
      | _ \<Rightarrow> raise (''invalid '' @ label))"

lemma encode_points_latin: "encode_points (map code s) = Inr (utf8_encode s)"
proof (induction s)
  case (Cons c s)
  have "code c < 256" by simp
  then have "\<not> 55296 \<le> code c" "code c < 2048" by linarith+
  then show ?case using Cons by (simp add: utf8_encode_def byte_of_def code_def)
qed (simp add: utf8_encode_def)

lemma length_utf8_encode: "length (utf8_encode s) = utf8_length s"
  by (induction s) (simp_all add: utf8_encode_def utf8_length_def)

lemma bounded_string_points:
  "bounded_string (JStr s) label maximum = bindE (bounded_points (map code s) label maximum) (\<lambda>_. Inr s)"
  by (simp add: bounded_string_def bounded_points_def encode_points_latin length_utf8_encode guardE_def)

text \<open>A receipt whose bundle holds the escape of a lone surrogate does not fail with a refusal.\<close>

lemma lone_surrogate_escapes: "55296 \<le> n \<Longrightarrow> n \<le> 57343 \<Longrightarrow> bounded_points (n # ns) label maximum = Inl PyUnicodeError"
  by (simp add: bounded_points_def)

definition nonnegative_int :: "json \<Rightarrow> string \<Rightarrow> int res" where
  "nonnegative_int v label = (if nat_field v then Inr (int_field v) else raise (''invalid '' @ label))"

definition nonce_value :: "json \<Rightarrow> bytes res" where
  "nonce_value v =
     (case v of
        JStr s \<Rightarrow>
          bindE (b64decode_or ''nonce must be canonical base64'' s) (\<lambda>raw.
            guardE (length raw \<noteq> 32 \<or> b64encode raw \<noteq> s) ''nonce must contain exactly 32 bytes'' (Inr raw))
      | _ \<Rightarrow> raise ''nonce must be canonical base64'')"

definition receipt_uri :: "(string \<Rightarrow> bool) \<Rightarrow> json \<Rightarrow> string option res" where
  "receipt_uri ip v =
     (case v of
        JNull \<Rightarrow> Inr None
      | JStr s \<Rightarrow>
          guardE (\<not> text_between v 1 2048) ''invalid attestation evidence URI''
          (bindE (urlsplit ip s) (\<lambda>u.
           guardE (url_scheme u \<notin> {''https'', ''ipfs''} \<or> url_netloc u = [] \<or> url_username u \<noteq> []
               \<or> url_password u \<noteq> [] \<or> url_query u \<noteq> [] \<or> url_fragment u \<noteq> [])
             ''attestation evidence URI must be credential-free HTTPS or IPFS'' (Inr (Some s))))
      | _ \<Rightarrow> raise ''invalid attestation evidence URI'')"

text \<open>\<open>{key: document[key] for key in keys}\<close> and \<open>str(document.get(key, ""))\<close>.\<close>

definition pick :: "string list \<Rightarrow> jdict \<Rightarrow> jdict res" where
  "pick ks d = mapE (\<lambda>k. bindE (jitem d k) (\<lambda>v. Inr (k, v))) ks"

definition str_field :: "jdict \<Rightarrow> string \<Rightarrow> string" where
  "str_field d k = (case map_of d k of None \<Rightarrow> [] | Some v \<Rightarrow> py_str v)"

text \<open>\<open>raw[:-1] if raw.endswith(b"\n") else raw\<close>.\<close>

definition chomp :: "bytes \<Rightarrow> bytes" where
  "chomp raw = (if raw \<noteq> [] \<and> last raw = 10 then butlast raw else raw)"

text \<open>Python's \<open>==\<close> on JSON scalars: a bool equals the int it counts as.\<close>

definition same_value :: "json \<Rightarrow> json \<Rightarrow> bool" where
  "same_value a b =
     (case (a, b) of
        (JBool x, JInt n) \<Rightarrow> n = of_bool x
      | (JInt n, JBool x) \<Rightarrow> n = of_bool x
      | _ \<Rightarrow> a = b)"

section \<open>Commitments and bindings\<close>

definition commit_payload :: "string \<Rightarrow> bytes \<Rightarrow> string res" where
  "commit_payload kind payload =
     (let framed = be_bytes 8 (int (length payload)) @ payload in
      if kind \<notin> {''input'', ''parameters'', ''output''}
      then raise ''commitment kind must be input, parameters, or output''
      else if int (length payload) \<ge> 2 ^ 64 then Inl PyOverflowError
      else Inr (sha256_digest (map byte_of (''cathedral-ml-'' @ kind @ ''-v1'') @ [0] @ framed)))"

definition request_id_for :: "string \<Rightarrow> int \<Rightarrow> int \<Rightarrow> string \<Rightarrow> string \<Rightarrow> bytes \<Rightarrow> string \<Rightarrow> string \<Rightarrow> string" where
  "request_id_for network netuid source_epoch validator_hotkey miner_hotkey nonce input_commitment parameters_commitment =
     prefixed_digest ''cathedral-ml-request-v1'' (canonical_json
       [(''network'', JStr network), (''netuid'', JInt netuid), (''source_epoch'', JInt source_epoch),
        (''validator_hotkey'', JStr validator_hotkey), (''miner_hotkey'', JStr miner_hotkey),
        (''nonce_base64'', JStr (b64encode nonce)), (''input_commitment'', JStr input_commitment),
        (''parameters_commitment'', JStr parameters_commitment)])"

definition unsigned_receipt :: "jdict \<Rightarrow> jdict" where
  "unsigned_receipt d = without [''receipt_id'', ''signature''] d"

definition signed_receipt :: "jdict \<Rightarrow> jdict" where
  "signed_receipt d = without [''signature''] d"

definition receipt_id_for :: "jdict \<Rightarrow> string" where
  "receipt_id_for d = prefixed_digest ''cathedral-ml-inference-receipt-id-v1'' (canonical_json (unsigned_receipt d))"

definition receipt_message :: "jdict \<Rightarrow> bytes" where
  "receipt_message d = map byte_of ''cathedral-ml-inference-receipt-v1'' @ [0] @ canonical_json (signed_receipt d)"

definition authorization_keys :: "string list" where
  "authorization_keys = [''network'', ''netuid'', ''source_epoch'', ''request_id'', ''validator_hotkey'', ''miner_hotkey'',
     ''nonce_base64'', ''issued_at'', ''valid_from_block'', ''valid_until_block'', ''model'', ''runtime'', ''request'']"

definition request_authorization_body :: "jdict \<Rightarrow> jdict res" where
  "request_authorization_body d = pick authorization_keys d"

definition authorization_message :: "jdict \<Rightarrow> bytes res" where
  "authorization_message d =
     bindE (request_authorization_body d) (\<lambda>body.
       Inr (map byte_of ''cathedral-ml-request-authorization-v1'' @ [0] @ canonical_json body))"

definition identity_keys :: "string list" where
  "identity_keys = [''network'', ''netuid'', ''source_epoch'', ''request_id'', ''validator_hotkey'', ''miner_hotkey'',
     ''nonce_base64'', ''issued_at'', ''completed_at'', ''valid_from_block'', ''valid_until_block'']"

definition execution_keys :: "string list" where
  "execution_keys = [''request_id'', ''model'', ''runtime'', ''request'', ''result'']"

definition expected_report_data :: "jdict \<Rightarrow> bytes res" where
  "expected_report_data d =
     bindE (pick identity_keys d) (\<lambda>identity.
     bindE (pick execution_keys d) (\<lambda>execution.
       Inr (sha256 (map byte_of ''cathedral-ml-identity-binding-v1'' @ [0] @ canonical_json identity) @
            sha256 (map byte_of ''cathedral-ml-execution-binding-v1'' @ [0] @ canonical_json execution))))"

section \<open>Making and signing\<close>

text \<open>A wallet key: its address and its signatures, None when signing raises.\<close>

record keypair =
  kp_address :: string
  kp_sign :: "bytes \<Rightarrow> bytes option"

record receipt_facts =
  rf_network :: string
  rf_netuid :: int
  rf_epoch :: int
  rf_validator :: string
  rf_miner :: string
  rf_nonce :: bytes
  rf_issued :: string
  rf_completed :: string
  rf_first :: int
  rf_last :: int
  rf_model :: string
  rf_weights :: string
  rf_tokenizer :: "string option"
  rf_image :: string
  rf_runner :: string
  rf_input :: string
  rf_parameters :: string
  rf_output :: string
  rf_input_tokens :: int
  rf_output_tokens :: int
  rf_latency :: dec
  rf_work :: dec
  rf_kind :: string
  rf_evidence :: "string option"
  rf_uri :: "string option"
  rf_policy :: "string option"

definition opt_text :: "string option \<Rightarrow> json" where
  "opt_text v = (case v of None \<Rightarrow> JNull | Some s \<Rightarrow> JStr s)"

definition attestation_object :: "receipt_facts \<Rightarrow> json \<Rightarrow> json" where
  "attestation_object f report_data =
     JObj [(''kind'', JStr (rf_kind f)), (''evidence_digest'', opt_text (rf_evidence f)), (''evidence_uri'', opt_text (rf_uri f)),
       (''policy_digest'', opt_text (rf_policy f)), (''report_data_hex'', report_data)]"

definition make_unsigned_receipt :: "receipt_facts \<Rightarrow> jdict res" where
  "make_unsigned_receipt f =
     bindE (canonical_decimal (rf_latency f)) (\<lambda>latency.
     bindE (canonical_decimal (rf_work f)) (\<lambda>work.
     let d = [(''schema'', JStr ''cathedral_ml_inference_receipt_v1''), (''network'', JStr (rf_network f)), (''netuid'', JInt (rf_netuid f)),
         (''source_epoch'', JInt (rf_epoch f)),
         (''request_id'', JStr (request_id_for (rf_network f) (rf_netuid f) (rf_epoch f) (rf_validator f) (rf_miner f) (rf_nonce f)
            (rf_input f) (rf_parameters f))),
         (''validator_hotkey'', JStr (rf_validator f)), (''miner_hotkey'', JStr (rf_miner f)),
         (''nonce_base64'', JStr (b64encode (rf_nonce f))), (''issued_at'', JStr (rf_issued f)), (''completed_at'', JStr (rf_completed f)),
         (''valid_from_block'', JInt (rf_first f)), (''valid_until_block'', JInt (rf_last f)),
         (''model'', JObj [(''model_id'', JStr (rf_model f)), (''weights_digest'', JStr (rf_weights f)),
            (''tokenizer_digest'', opt_text (rf_tokenizer f))]),
         (''runtime'', JObj [(''image_digest'', JStr (rf_image f)), (''runner_digest'', JStr (rf_runner f))]),
         (''request'', JObj [(''input_commitment'', JStr (rf_input f)), (''parameters_commitment'', JStr (rf_parameters f))]),
         (''request_authorization'', JNull),
         (''result'', JObj [(''output_commitment'', JStr (rf_output f)), (''input_tokens'', JInt (rf_input_tokens f)),
            (''output_tokens'', JInt (rf_output_tokens f)), (''latency_ms'', JStr latency), (''work_units'', JStr work)]),
         (''attestation'', attestation_object f JNull)]
     in if rf_kind f = ''tdx''
        then bindE (expected_report_data d) (\<lambda>b. Inr (dict_set ''attestation'' (attestation_object f (JStr (hex_of b))) d))
        else Inr d))"

definition sign_request_authorization :: "jdict \<Rightarrow> keypair \<Rightarrow> bytes res" where
  "sign_request_authorization d key =
     (let validator_hotkey = str_field d ''validator_hotkey'' in
      guardE (validator_hotkey = [] \<or> kp_address key \<noteq> validator_hotkey)
        ''request authorization signer does not match validator_hotkey''
      (case bindE (authorization_message d) (\<lambda>m. case kp_sign key m of None \<Rightarrow> Inl PyValueError | Some sig \<Rightarrow> Inr sig) of
         Inl e \<Rightarrow> raise ''could not sign ML request authorization''
       | Inr sig \<Rightarrow>
           guardE (length sig \<noteq> 64) ''request authorization signature must be 64 bytes''
             (Inr (canonical_json
                [(''schema'', JStr ''cathedral_ml_request_authorization_v1''), (''request_id'', jget d ''request_id''),
                 (''validator_hotkey'', JStr validator_hotkey), (''miner_hotkey'', jget d ''miner_hotkey''),
                 (''signature'', signature_object ''sr25519'' sig)]))))"

definition sign_receipt :: "jdict \<Rightarrow> keypair \<Rightarrow> bytes res" where
  "sign_receipt d key =
     guardE (''receipt_id'' \<in> fst ` set d \<or> ''signature'' \<in> fst ` set d) ''unsigned receipt must omit receipt_id and signature''
     (let miner_hotkey = str_field d ''miner_hotkey''; signed = dict_set ''receipt_id'' (JStr (receipt_id_for d)) d in
      guardE (miner_hotkey = [] \<or> kp_address key \<noteq> miner_hotkey) ''receipt signer does not match miner_hotkey''
      (case kp_sign key (receipt_message signed) of
         None \<Rightarrow> raise ''could not sign ML inference receipt''
       | Some sig \<Rightarrow>
           guardE (length sig \<noteq> 64) ''receipt signature must be 64 bytes''
             (Inr (canonical_json (dict_set ''signature'' (signature_object ''sr25519'' sig) signed)))))"

section \<open>The request authorization\<close>

definition authorization_signature :: "json \<Rightarrow> bytes res" where
  "authorization_signature v =
     (case v of
        JStr s \<Rightarrow>
          bindE (b64decode_or ''request authorization signature is not canonical base64'' s) (\<lambda>sig.
            guardE (length sig \<noteq> 64 \<or> b64encode sig \<noteq> s) ''request authorization signature must be 64 bytes'' (Inr sig))
      | _ \<Rightarrow> raise ''request authorization signature is not canonical base64'')"

definition verify_request_authorization :: "world \<Rightarrow> jdict \<Rightarrow> bool res" where
  "verify_request_authorization env d =
     (case jget d ''request_authorization'' of
        JNull \<Rightarrow> Inr False
      | JObj a \<Rightarrow>
          require_exact_keys a signature_keys ''receipt request authorization''
          (guardE (jget a ''algorithm'' \<noteq> JStr ''sr25519'') ''unsupported request authorization algorithm''
          (bindE (authorization_signature (jget a ''value_base64'')) (\<lambda>sig.
           case bindE (authorization_message d) (\<lambda>m. case or_sr env (str_field d ''validator_hotkey'') m sig of
               None \<Rightarrow> Inl PyValueError | Some ok \<Rightarrow> Inr ok) of
             Inl e \<Rightarrow> raise ''receipt validator hotkey is invalid''
           | Inr ok \<Rightarrow> guardE (\<not> ok) ''request authorization signature verification failed'' (Inr True))))
      | _ \<Rightarrow> raise ''receipt request authorization must be an object'')"

definition authorization_file_keys :: "string list" where
  "authorization_file_keys = [''schema'', ''request_id'', ''validator_hotkey'', ''miner_hotkey'', ''signature'']"

definition matches_document :: "jdict \<Rightarrow> jdict \<Rightarrow> string \<Rightarrow> 'a res \<Rightarrow> 'a res" where
  "matches_document a d k next =
     guardE (\<not> same_value (jget a k) (jget d k)) (''request authorization '' @ k @ '' mismatch'') next"

definition apply_request_authorization :: "world \<Rightarrow> jdict \<Rightarrow> bytes \<Rightarrow> jdict res" where
  "apply_request_authorization env d raw =
     bindE (parse_strict_json (chomp raw) 16384) (\<lambda>a.
     guardE (chomp raw \<noteq> canonical_json a) ''ML request authorization JSON must be canonical''
     (require_exact_keys a authorization_file_keys ''ML request authorization''
     (guardE (jget a ''schema'' \<noteq> JStr ''cathedral_ml_request_authorization_v1'') ''unsupported ML request authorization schema''
     (matches_document a d ''request_id'' (matches_document a d ''validator_hotkey'' (matches_document a d ''miner_hotkey''
     (guardE (jget d ''request_authorization'' \<noteq> JNull) ''receipt already has a request authorization''
     (let signed = dict_set ''request_authorization'' (jget a ''signature'') d in
      bindE (verify_request_authorization env signed) (\<lambda>_. Inr signed)))))))))"

end
