(* ===== verification/Ml_Verify.thy ===== *)
theory Ml_Verify
  imports Ml_Receipt
begin

text \<open>
  \<open>cathedral_thin/ml_receipts.py\<close>, the verification of one receipt (\<open>_validate_policy\<close>,
  \<open>verify_receipt\<close>), in the order of its guards: the header, the windows, the sections, the
  bindings, the pinned digests, the identity and signature, the attestation.
\<close>

section \<open>Policy and results\<close>

record receipt_policy =
  rp_network :: string
  rp_netuid :: int
  rp_block :: int
  rp_max_age :: int
  rp_max_future :: int
  rp_max_span :: int
  rp_require_attestation :: bool
  rp_expected_validator :: "string option"
  rp_models :: "string list"
  rp_images :: "string list"
  rp_runners :: "string list"
  rp_policies :: "string list"
  rp_verifiers :: "string list"

record attestation_verification =
  av_ok :: bool
  av_verifier :: string
  av_measurement :: "string option"
  av_reason :: string

record verified_receipt =
  ve_receipt_id :: string
  ve_request_id :: string
  ve_epoch :: int
  ve_miner :: string
  ve_validator :: string
  ve_weights :: string
  ve_image :: string
  ve_runner :: string
  ve_completed :: int
  ve_work :: dec
  ve_input_tokens :: int
  ve_output_tokens :: int
  ve_attested :: bool
  ve_verifier :: "string option"
  ve_measurement :: "string option"
  ve_document :: jdict

text \<open>The validator's quote verifier: evidence, expected report data and policy digest.\<close>

type_synonym attestation_verifier = "bytes \<Rightarrow> bytes \<Rightarrow> string \<Rightarrow> attestation_verification res"

text \<open>What the caller reveals and supplies besides the receipt.\<close>

record disclosures =
  di_input :: "bytes option"
  di_parameters :: "bytes option"
  di_output :: "bytes option"
  di_evidence :: "bytes option"
  di_verifier :: "attestation_verifier option"

definition all_digests :: "string list \<Rightarrow> string \<Rightarrow> unit res" where
  "all_digests vs label = guardE (list_ex (\<lambda>s. \<not> sha_digest_text s) vs) (''invalid '' @ label) (Inr ())"

definition unpinned :: "receipt_policy \<Rightarrow> bool" where
  "unpinned p = (rp_models p = [] \<or> rp_images p = [] \<or> rp_runners p = [] \<or> rp_policies p = [] \<or> rp_verifiers p = [])"

definition positive_bound :: "string \<Rightarrow> int \<Rightarrow> unit res" where
  "positive_bound name v = guardE (v \<le> 0) (''receipt policy '' @ name @ '' must be positive'') (Inr ())"

definition validate_policy :: "receipt_policy \<Rightarrow> unit res" where
  "validate_policy p =
     guardE (rp_netuid p < 0 \<or> rp_block p < 0) ''receipt policy network, netuid, or block is invalid''
     (bindE (positive_bound ''max_age_seconds'' (rp_max_age p)) (\<lambda>_.
      bindE (positive_bound ''max_future_seconds'' (rp_max_future p)) (\<lambda>_.
      bindE (positive_bound ''max_block_span'' (rp_max_span p)) (\<lambda>_.
      bindE (all_digests (rp_models p) ''allowed model digest'') (\<lambda>_.
      bindE (all_digests (rp_images p) ''allowed image digest'') (\<lambda>_.
      bindE (all_digests (rp_runners p) ''allowed runner digest'') (\<lambda>_.
      bindE (all_digests (rp_policies p) ''allowed attestation policy digest'') (\<lambda>_.
      bindE (all_digests (rp_verifiers p) ''allowed verifier digest'') (\<lambda>_.
      guardE (rp_require_attestation p \<and> unpinned p)
        ''attested receipt policy must separately pin model, image, runner, attestation policy, and verifier digests''
      (guardE (rp_require_attestation p \<and> rp_expected_validator p = None)
        ''attested receipt policy must pin the request-authorizing validator hotkey'' (Inr ())))))))))))"

section \<open>The guards of a receipt\<close>

definition receipt_keys :: "string list" where
  "receipt_keys = [''schema'', ''network'', ''netuid'', ''source_epoch'', ''request_id'', ''validator_hotkey'', ''miner_hotkey'',
     ''nonce_base64'', ''issued_at'', ''completed_at'', ''valid_from_block'', ''valid_until_block'', ''model'', ''runtime'',
     ''request'', ''request_authorization'', ''result'', ''attestation'', ''receipt_id'', ''signature'']"

record receipt_head =
  rh_network :: string
  rh_netuid :: int
  rh_epoch :: int
  rh_request_id :: string
  rh_validator :: string
  rh_miner :: string
  rh_nonce :: bytes

definition receipt_header :: "receipt_policy \<Rightarrow> jdict \<Rightarrow> receipt_head res" where
  "receipt_header p d =
     guardE (jget d ''schema'' \<noteq> JStr ''cathedral_ml_inference_receipt_v1'') ''unsupported ML inference receipt schema''
     (bindE (bounded_string (jget d ''network'') ''receipt network'' 128) (\<lambda>network.
      bindE (nonnegative_int (jget d ''netuid'') ''receipt netuid'') (\<lambda>netuid.
      bindE (nonnegative_int (jget d ''source_epoch'') ''receipt source_epoch'') (\<lambda>epoch.
      guardE (network \<noteq> rp_network p \<or> netuid \<noteq> rp_netuid p) ''receipt network or netuid mismatch''
      (bindE (sha_digest (jget d ''request_id'') ''request id'') (\<lambda>request_id.
       bindE (bounded_string (jget d ''validator_hotkey'') ''validator hotkey'' 128) (\<lambda>validator.
       bindE (bounded_string (jget d ''miner_hotkey'') ''miner hotkey'' 128) (\<lambda>miner.
       bindE (nonce_value (jget d ''nonce_base64'')) (\<lambda>nonce.
       guardE (other_than (rp_expected_validator p) validator) ''receipt validator hotkey mismatch''
         (Inr \<lparr>rh_network = network, rh_netuid = netuid, rh_epoch = epoch, rh_request_id = request_id, rh_validator = validator,
            rh_miner = miner, rh_nonce = nonce\<rparr>))))))))))"

definition receipt_times :: "receipt_policy \<Rightarrow> jdict \<Rightarrow> int option \<Rightarrow> int res" where
  "receipt_times p d now =
     bindE (block_window (\<lambda>n. ''invalid '' @ n) ''receipt is outside its authorized block window''
        ''receipt block window is invalid or too wide'' d (rp_block p) (rp_max_span p)) (\<lambda>_.
     bindE (parse_time (jget d ''issued_at'') ''receipt issued_at'') (\<lambda>issued.
     bindE (parse_time (jget d ''completed_at'') ''receipt completed_at'') (\<lambda>completed.
     case now of
       None \<Rightarrow> raise ''receipt verification time must be UTC''
     | Some t \<Rightarrow>
         (let age = elapsed_seconds t completed in
          guardE (age < of_int (- rp_max_future p) \<or> age > of_int (rp_max_age p)) ''receipt is stale or future-dated''
          (guardE (completed < issued) ''receipt completed_at precedes issued_at'' (Inr completed))))))"

definition receipt_section :: "jdict \<Rightarrow> string \<Rightarrow> string list \<Rightarrow> jdict res" where
  "receipt_section d name keys =
     (case jget d name of
        JObj s \<Rightarrow> require_exact_keys s keys (''receipt '' @ name) (Inr s)
      | _ \<Rightarrow> raise (''receipt '' @ name @ '' must be an object''))"

definition model_keys :: "string list" where "model_keys = [''model_id'', ''weights_digest'', ''tokenizer_digest'']"
definition runtime_keys :: "string list" where "runtime_keys = [''image_digest'', ''runner_digest'']"
definition request_keys :: "string list" where "request_keys = [''input_commitment'', ''parameters_commitment'']"
definition result_keys :: "string list" where
  "result_keys = [''output_commitment'', ''input_tokens'', ''output_tokens'', ''latency_ms'', ''work_units'']"
definition attestation_keys :: "string list" where
  "attestation_keys = [''kind'', ''evidence_digest'', ''evidence_uri'', ''policy_digest'', ''report_data_hex'']"

record receipt_sections =
  rs_model :: jdict
  rs_runtime :: jdict
  rs_request :: jdict
  rs_result :: jdict
  rs_attestation :: jdict

definition receipt_objects :: "jdict \<Rightarrow> receipt_sections res" where
  "receipt_objects d =
     bindE (receipt_section d ''model'' model_keys) (\<lambda>model.
     bindE (receipt_section d ''runtime'' runtime_keys) (\<lambda>runtime.
     bindE (receipt_section d ''request'' request_keys) (\<lambda>request.
     bindE (receipt_section d ''result'' result_keys) (\<lambda>result.
     bindE (receipt_section d ''attestation'' attestation_keys) (\<lambda>attestation.
       Inr \<lparr>rs_model = model, rs_runtime = runtime, rs_request = request, rs_result = result, rs_attestation = attestation\<rparr>)))))"

record receipt_claims =
  rl_weights :: string
  rl_image :: string
  rl_runner :: string
  rl_input :: string
  rl_parameters :: string
  rl_output :: string
  rl_input_tokens :: int
  rl_output_tokens :: int
  rl_work :: dec

definition receipt_body :: "receipt_sections \<Rightarrow> receipt_claims res" where
  "receipt_body s =
     bindE (bounded_string (jget (rs_model s) ''model_id'') ''model id'' 256) (\<lambda>_.
     bindE (sha_digest (jget (rs_model s) ''weights_digest'') ''model weights digest'') (\<lambda>weights.
     bindE (if jget (rs_model s) ''tokenizer_digest'' = JNull then Inr []
            else sha_digest (jget (rs_model s) ''tokenizer_digest'') ''tokenizer digest'') (\<lambda>_.
     bindE (sha_digest (jget (rs_runtime s) ''image_digest'') ''runtime image digest'') (\<lambda>image.
     bindE (sha_digest (jget (rs_runtime s) ''runner_digest'') ''runner digest'') (\<lambda>runner.
     bindE (sha_digest (jget (rs_request s) ''input_commitment'') ''input commitment'') (\<lambda>input.
     bindE (sha_digest (jget (rs_request s) ''parameters_commitment'') ''parameters commitment'') (\<lambda>parameters.
     bindE (sha_digest (jget (rs_result s) ''output_commitment'') ''output commitment'') (\<lambda>output.
     bindE (nonnegative_int (jget (rs_result s) ''input_tokens'') ''input_tokens'') (\<lambda>input_tokens.
     bindE (nonnegative_int (jget (rs_result s) ''output_tokens'') ''output_tokens'') (\<lambda>output_tokens.
     bindE (receipt_decimal (jget (rs_result s) ''latency_ms'') ''latency_ms'') (\<lambda>_.
     bindE (receipt_decimal (jget (rs_result s) ''work_units'') ''work_units'') (\<lambda>work.
     guardE (dec_val work > 1000000000000) ''receipt work_units exceeds protocol limit''
       (Inr \<lparr>rl_weights = weights, rl_image = image, rl_runner = runner, rl_input = input, rl_parameters = parameters,
          rl_output = output, rl_input_tokens = input_tokens, rl_output_tokens = output_tokens, rl_work = work\<rparr>)))))))))))))"

definition check_reveal :: "string \<Rightarrow> bytes option \<Rightarrow> string \<Rightarrow> unit res" where
  "check_reveal kind reveal commitment =
     (case reveal of
        None \<Rightarrow> Inr ()
      | Some payload \<Rightarrow>
          bindE (commit_payload kind payload) (\<lambda>c.
          bindE (compare_digest commitment c) (\<lambda>same.
            guardE (\<not> same) (kind @ '' reveal does not match receipt commitment'') (Inr ()))))"

text \<open>The request id, the validator's authorization and the reveals; the result says whether the request
  was authorized.\<close>

definition receipt_bindings :: "world \<Rightarrow> jdict \<Rightarrow> receipt_head \<Rightarrow> receipt_claims \<Rightarrow> disclosures \<Rightarrow> bool res" where
  "receipt_bindings env d h c di =
     bindE (compare_digest (rh_request_id h) (request_id_for (rh_network h) (rh_netuid h) (rh_epoch h) (rh_validator h) (rh_miner h)
        (rh_nonce h) (rl_input c) (rl_parameters c))) (\<lambda>same.
     guardE (\<not> same) ''receipt request id does not match its bound request''
     (bindE (verify_request_authorization env d) (\<lambda>authorized.
      bindE (check_reveal ''input'' (di_input di) (rl_input c)) (\<lambda>_.
      bindE (check_reveal ''parameters'' (di_parameters di) (rl_parameters c)) (\<lambda>_.
      bindE (check_reveal ''output'' (di_output di) (rl_output c)) (\<lambda>_. Inr authorized))))))"

definition allowed_in :: "string list \<Rightarrow> string \<Rightarrow> string \<Rightarrow> 'a res \<Rightarrow> 'a res" where
  "allowed_in allowed v what k =
     guardE (allowed \<noteq> [] \<and> v \<notin> set allowed) (what @ '' digest is not allowed by validator policy'') k"

definition receipt_allowed :: "receipt_policy \<Rightarrow> receipt_claims \<Rightarrow> unit res" where
  "receipt_allowed p c =
     allowed_in (rp_models p) (rl_weights c) ''model weights''
     (allowed_in (rp_images p) (rl_image c) ''runtime image''
     (allowed_in (rp_runners p) (rl_runner c) ''runner'' (Inr ())))"

definition receipt_proof :: "world \<Rightarrow> jdict \<Rightarrow> string \<Rightarrow> string res" where
  "receipt_proof env d miner =
     bindE (sha_digest (jget d ''receipt_id'') ''receipt id'') (\<lambda>receipt_id.
     guardE (receipt_id \<noteq> receipt_id_for d) ''receipt id does not match its canonical body''
     (bindE (signature_bytes ''sr25519'' ''receipt'' (jget d ''signature'')) (\<lambda>sig.
      case or_sr env miner (receipt_message d) sig of
        None \<Rightarrow> raise ''receipt miner hotkey is invalid''
      | Some ok \<Rightarrow> guardE (\<not> ok) ''receipt signature verification failed'' (Inr receipt_id))))"

section \<open>The attestation\<close>

definition report_data_text :: "string \<Rightarrow> bool" where
  "report_data_text s = (length s = 128 \<and> list_all (\<lambda>x. is_digit x \<or> (97 \<le> code x \<and> code x \<le> 102)) s)"

definition check_evidence :: "bytes option \<Rightarrow> string \<Rightarrow> unit res" where
  "check_evidence evidence digest =
     (case evidence of
        None \<Rightarrow> Inr ()
      | Some b \<Rightarrow>
          guardE (b = []) ''attestation evidence must not be empty''
          (guardE (int (length b) > MAX_ATTESTATION_BYTES) ''attestation evidence exceeds size limit''
          (bindE (compare_digest (sha256_digest b) digest) (\<lambda>same.
            guardE (\<not> same) ''attestation evidence digest mismatch'' (Inr ())))))"

definition run_verifier ::
    "receipt_policy \<Rightarrow> attestation_verifier \<Rightarrow> bytes option \<Rightarrow> bytes \<Rightarrow> string \<Rightarrow> (string \<times> string option) res" where
  "run_verifier p verifier evidence expected policy_digest =
     (case evidence of
        None \<Rightarrow> raise ''attestation verifier requires evidence bytes''
      | Some b \<Rightarrow>
          bindE (case verifier b expected policy_digest of
              Inl (ThinSubnetError m) \<Rightarrow> raise m
            | Inl e \<Rightarrow> raise ''attestation verifier raised an unexpected error''
            | Inr v \<Rightarrow> Inr v) (\<lambda>v.
          guardE (\<not> sha_digest_text (av_verifier v)) ''invalid attestation verifier digest''
          (guardE (\<not> av_ok v) (''attestation verification failed: '' @ take 160 (av_reason v))
          (guardE (rp_verifiers p \<noteq> [] \<and> av_verifier v \<notin> set (rp_verifiers p))
            ''attestation verifier digest is not allowed by validator policy''
          (guardE (case av_measurement v of None \<Rightarrow> False | Some m \<Rightarrow> \<not> sha_digest_text m) ''invalid attestation measurement digest''
            (Inr (av_verifier v, av_measurement v)))))))"

text \<open>The result: the verifier and measurement digests of a verified attestation, None for none.\<close>

definition tdx_attestation ::
    "world \<Rightarrow> receipt_policy \<Rightarrow> jdict \<Rightarrow> jdict \<Rightarrow> disclosures \<Rightarrow> (string \<times> string option) option res" where
  "tdx_attestation env p d a di =
     guardE (unpinned p) ''attestation verification requires every validator trust root to be pinned''
     (bindE (sha_digest (jget a ''evidence_digest'') ''attestation evidence digest'') (\<lambda>evidence_digest.
      bindE (receipt_uri (or_ip env) (jget a ''evidence_uri'')) (\<lambda>_.
      bindE (sha_digest (jget a ''policy_digest'') ''attestation policy digest'') (\<lambda>policy_digest.
      case jget a ''report_data_hex'' of
        JStr hex \<Rightarrow>
          guardE (\<not> report_data_text hex) ''attestation report data must be 64-byte lowercase hex''
          (bindE (expected_report_data d) (\<lambda>expected.
           bindE (compare_digest hex (hex_of expected)) (\<lambda>same.
           guardE (\<not> same) ''attestation report data binding mismatch''
           (guardE (rp_policies p \<noteq> [] \<and> policy_digest \<notin> set (rp_policies p))
             ''attestation policy digest is not allowed by validator policy''
           (bindE (check_evidence (di_evidence di) evidence_digest) (\<lambda>_.
            case di_verifier di of
              None \<Rightarrow> Inr None
            | Some verifier \<Rightarrow>
                bindE (run_verifier p verifier (di_evidence di) expected policy_digest) (\<lambda>v. Inr (Some v))))))))
      | _ \<Rightarrow> raise ''attestation report data must be 64-byte lowercase hex''))))"

definition no_attestation :: "jdict \<Rightarrow> disclosures \<Rightarrow> (string \<times> string option) option res" where
  "no_attestation a di =
     guardE (list_ex (\<lambda>k. jget a k \<noteq> JNull) [''evidence_digest'', ''evidence_uri'', ''policy_digest'', ''report_data_hex''])
       ''unattested receipt must omit attestation fields''
     (guardE (di_evidence di \<noteq> None \<or> di_verifier di \<noteq> None) ''unattested receipt cannot carry verifier evidence'' (Inr None))"

definition receipt_attestation ::
    "world \<Rightarrow> receipt_policy \<Rightarrow> jdict \<Rightarrow> jdict \<Rightarrow> bool \<Rightarrow> disclosures \<Rightarrow> (string \<times> string option) option res" where
  "receipt_attestation env p d a authorized di =
     bindE (if jget a ''kind'' = JStr ''none'' then no_attestation a di
       else if jget a ''kind'' = JStr ''tdx'' then
         guardE (\<not> authorized) ''attested receipt requires a validator-signed request authorization'' (tdx_attestation env p d a di)
       else raise ''attestation kind must be none or tdx'') (\<lambda>v.
     guardE (rp_require_attestation p \<and> v = None) ''validator policy requires verified attestation'' (Inr v))"

section \<open>Verification\<close>

definition verify_receipt :: "world \<Rightarrow> bytes \<Rightarrow> receipt_policy \<Rightarrow> int option \<Rightarrow> disclosures \<Rightarrow> verified_receipt res" where
  "verify_receipt env raw p now di =
     bindE (validate_policy p) (\<lambda>_.
     bindE (parse_strict_json (chomp raw) MAX_RECEIPT_BYTES) (\<lambda>d.
     guardE (chomp raw \<noteq> canonical_json d) ''ML inference receipt JSON must be canonical''
     (require_exact_keys d receipt_keys ''ML inference receipt''
     (bindE (receipt_header p d) (\<lambda>h.
      bindE (receipt_times p d now) (\<lambda>completed.
      bindE (receipt_objects d) (\<lambda>s.
      bindE (receipt_body s) (\<lambda>c.
      bindE (receipt_bindings env d h c di) (\<lambda>authorized.
      bindE (receipt_allowed p c) (\<lambda>_.
      bindE (receipt_proof env d (rh_miner h)) (\<lambda>receipt_id.
      bindE (receipt_attestation env p d (rs_attestation s) authorized di) (\<lambda>v.
        Inr \<lparr>ve_receipt_id = receipt_id, ve_request_id = rh_request_id h, ve_epoch = rh_epoch h, ve_miner = rh_miner h,
          ve_validator = rh_validator h, ve_weights = rl_weights c, ve_image = rl_image c, ve_runner = rl_runner c,
          ve_completed = completed, ve_work = rl_work c, ve_input_tokens = rl_input_tokens c,
          ve_output_tokens = rl_output_tokens c, ve_attested = (v \<noteq> None), ve_verifier = map_option fst v,
          ve_measurement = (case v of None \<Rightarrow> None | Some (_, m) \<Rightarrow> m), ve_document = d\<rparr>))))))))))))"

section \<open>What an accepted receipt guarantees\<close>

lemma sha_digest_Inr: "sha_digest v l = Inr s \<longleftrightarrow> v = JStr s \<and> sha_digest_text s"
  by (auto simp: sha_digest_def split: json.splits if_splits)

lemma bounded_string_Inr: "bounded_string v l n = Inr s \<longleftrightarrow> v = JStr s \<and> 1 \<le> utf8_length s \<and> utf8_length s \<le> n"
  by (auto simp: bounded_string_def split: json.splits if_splits)

lemma nonnegative_int_Inr: "nonnegative_int v l = Inr n \<longleftrightarrow> v = JInt n \<and> 0 \<le> n"
  by (auto simp: nonnegative_int_def nat_field_def int_field_def split: json.splits if_splits)

lemma nonce_value_Inr: "nonce_value v = Inr b \<Longrightarrow> v = JStr (b64encode b) \<and> length b = 32"
  by (auto simp: nonce_value_def split: json.splits elim!: bindE_InrE guardE_InrE)

lemmas receipt_values = sha_digest_Inr bounded_string_Inr nonnegative_int_Inr

lemma receipt_header_InrD:
  "receipt_header p d = Inr h \<Longrightarrow> jget d ''network'' = JStr (rh_network h) \<and> rh_network h = rp_network p \<and>
     jget d ''netuid'' = JInt (rh_netuid h) \<and> rh_netuid h = rp_netuid p \<and> jget d ''source_epoch'' = JInt (rh_epoch h) \<and>
     jget d ''request_id'' = JStr (rh_request_id h) \<and> jget d ''validator_hotkey'' = JStr (rh_validator h) \<and>
     jget d ''miner_hotkey'' = JStr (rh_miner h) \<and> jget d ''nonce_base64'' = JStr (b64encode (rh_nonce h)) \<and>
     length (rh_nonce h) = 32 \<and> (rp_expected_validator p = None \<or> rp_expected_validator p = Some (rh_validator h))"
  unfolding receipt_header_def
  by (elim bindE_InrE guardE_InrE) (auto simp: receipt_values other_than_def dest!: nonce_value_Inr split: option.splits)

lemma authorization_InrD:
  assumes "verify_request_authorization env d = Inr True"
  shows "\<exists>m sig. authorization_message d = Inr m \<and> or_sr env (str_field d ''validator_hotkey'') m sig = Some True"
  using assms unfolding verify_request_authorization_def require_exact_keys_def
  by (auto split: json.splits sum.splits option.splits elim!: bindE_InrE guardE_InrE simp: bindE_eq_Inr)

lemma compare_digest_same: "compare_digest a b = Inr same \<Longrightarrow> same = (a = b)"
  by (auto simp: compare_digest_def split: if_splits)

lemma receipt_bindings_InrD:
  assumes "receipt_bindings env d h c di = Inr authorized"
  shows "rh_request_id h = request_id_for (rh_network h) (rh_netuid h) (rh_epoch h) (rh_validator h) (rh_miner h) (rh_nonce h)
      (rl_input c) (rl_parameters c) \<and> verify_request_authorization env d = Inr authorized \<and>
    (\<forall>b. di_input di = Some b \<longrightarrow> commit_payload ''input'' b = Inr (rl_input c)) \<and>
    (\<forall>b. di_parameters di = Some b \<longrightarrow> commit_payload ''parameters'' b = Inr (rl_parameters c)) \<and>
    (\<forall>b. di_output di = Some b \<longrightarrow> commit_payload ''output'' b = Inr (rl_output c))"
proof -
  have reveal: "commit_payload kind b = Inr commitment" if "check_reveal kind (Some b) commitment = Inr ()" for kind b commitment
    using that by (auto simp: check_reveal_def dest!: compare_digest_same elim!: bindE_InrE guardE_InrE)
  from assms show ?thesis unfolding receipt_bindings_def
    by (elim bindE_InrE guardE_InrE) (auto dest!: compare_digest_same intro: reveal)
qed

lemma receipt_proof_InrD:
  assumes "receipt_proof env d miner = Inr rid"
  shows "rid = receipt_id_for d \<and> (\<exists>sig. length sig = 64 \<and> or_sr env miner (receipt_message d) sig = Some True)"
proof -
  have "length sig = 64" if "signature_bytes a l v = Inr sig" for a l v sig
    using that unfolding signature_bytes_def require_exact_keys_def
    by (auto split: json.splits elim!: bindE_InrE guardE_InrE)
  with assms show ?thesis unfolding receipt_proof_def
    by (auto split: option.splits elim!: bindE_InrE guardE_InrE)
qed

lemma run_verifier_InrD:
  assumes "run_verifier p verifier evidence expected pd = Inr (vd, m)"
  shows "\<exists>b v. evidence = Some b \<and> verifier b expected pd = Inr v \<and> av_ok v \<and> av_verifier v = vd \<and> av_measurement v = m \<and>
    (rp_verifiers p = [] \<or> vd \<in> set (rp_verifiers p))"
  using assms unfolding run_verifier_def
  by (auto split: option.splits sum.splits py_error.splits elim!: bindE_InrE guardE_InrE)

lemma check_evidence_InrD: "check_evidence (Some b) dig = Inr () \<Longrightarrow> b \<noteq> [] \<and> sha256_digest b = dig"
  by (auto simp: check_evidence_def dest!: compare_digest_same elim!: bindE_InrE guardE_InrE)

text \<open>The bindings of a verified attestation.\<close>

definition attestation_bound :: "receipt_policy \<Rightarrow> jdict \<Rightarrow> jdict \<Rightarrow> disclosures \<Rightarrow> string \<times> string option \<Rightarrow> bool" where
  "attestation_bound p d a di w =
     (\<exists>b verifier v expected pd.
        di_evidence di = Some b \<and> di_verifier di = Some verifier \<and> b \<noteq> [] \<and>
        jget a ''evidence_digest'' = JStr (sha256_digest b) \<and> jget a ''policy_digest'' = JStr pd \<and> pd \<in> set (rp_policies p) \<and>
        expected_report_data d = Inr expected \<and> jget a ''report_data_hex'' = JStr (hex_of expected) \<and>
        verifier b expected pd = Inr v \<and> av_ok v \<and> av_verifier v \<in> set (rp_verifiers p) \<and> w = (av_verifier v, av_measurement v))"

lemma tdx_attestation_InrD:
  assumes "tdx_attestation env p d a di = Inr (Some w)"
  shows "attestation_bound p d a di w \<and> \<not> unpinned p"
proof -
  have "\<not> unpinned p \<and> (\<exists>ev pd expected verifier. jget a ''evidence_digest'' = JStr ev \<and>
      jget a ''policy_digest'' = JStr pd \<and> (rp_policies p = [] \<or> pd \<in> set (rp_policies p)) \<and>
      jget a ''report_data_hex'' = JStr (hex_of expected) \<and> expected_report_data d = Inr expected \<and>
      check_evidence (di_evidence di) ev = Inr () \<and> di_verifier di = Some verifier \<and>
      run_verifier p verifier (di_evidence di) expected pd = Inr w)"
    using assms unfolding tdx_attestation_def
    by (elim bindE_InrE guardE_InrE)
      (auto simp: sha_digest_Inr split: json.splits option.splits elim!: bindE_InrE guardE_InrE dest!: compare_digest_same)
  then obtain ev pd expected verifier where u: "\<not> unpinned p"
    and ev: "jget a ''evidence_digest'' = JStr ev" and pd: "jget a ''policy_digest'' = JStr pd" "rp_policies p = [] \<or> pd \<in> set (rp_policies p)"
    and hex: "jget a ''report_data_hex'' = JStr (hex_of expected)" "expected_report_data d = Inr expected"
    and ce: "check_evidence (di_evidence di) ev = Inr ()" and v: "di_verifier di = Some verifier"
    and run: "run_verifier p verifier (di_evidence di) expected pd = Inr w" by blast
  obtain b v where b: "di_evidence di = Some b" "verifier b expected pd = Inr v" "av_ok v" "w = (av_verifier v, av_measurement v)"
    "rp_verifiers p = [] \<or> av_verifier v \<in> set (rp_verifiers p)"
    using run_verifier_InrD [of p verifier "di_evidence di" expected pd "fst w" "snd w"] run by auto
  have "b \<noteq> []" "sha256_digest b = ev" using ce check_evidence_InrD unfolding b(1) by blast+
  moreover have "rp_verifiers p \<noteq> []" "rp_policies p \<noteq> []" using u by (auto simp: unpinned_def)
  ultimately show ?thesis using u ev pd hex v b unfolding attestation_bound_def by blast
qed

lemma receipt_attestation_InrD:
  assumes "receipt_attestation env p d a authorized di = Inr v"
  shows "(v \<noteq> None \<longrightarrow> authorized \<and> \<not> unpinned p \<and> attestation_bound p d a di (the v)) \<and> (rp_require_attestation p \<longrightarrow> v \<noteq> None)"
  using assms unfolding receipt_attestation_def no_attestation_def
  by (auto split: if_splits elim!: bindE_InrE guardE_InrE dest!: tdx_attestation_InrD)

end
