(* ===== verification/Ml_Contract.thy ===== *)
theory Ml_Contract
  imports Ml_Verify
begin

text \<open>
  What \<open>verify_receipt\<close> of \<open>cathedral_thin/ml_receipts.py\<close> guarantees of the receipts it accepts:
  every field of the result is bound to the signed document, the request id, the commitments, the
  validator's pins and the attestation.
\<close>

section \<open>The parts of an accepted receipt\<close>

definition verified_from ::
    "jdict \<Rightarrow> receipt_head \<Rightarrow> int \<Rightarrow> receipt_claims \<Rightarrow> string \<Rightarrow> (string \<times> string option) option \<Rightarrow> verified_receipt" where
  "verified_from d h completed c receipt_id v =
     \<lparr>ve_receipt_id = receipt_id, ve_request_id = rh_request_id h, ve_epoch = rh_epoch h, ve_miner = rh_miner h,
      ve_validator = rh_validator h, ve_weights = rl_weights c, ve_image = rl_image c, ve_runner = rl_runner c,
      ve_completed = completed, ve_work = rl_work c, ve_input_tokens = rl_input_tokens c,
      ve_output_tokens = rl_output_tokens c, ve_attested = (v \<noteq> None), ve_verifier = map_option fst v,
      ve_measurement = (case v of None \<Rightarrow> None | Some (_, m) \<Rightarrow> m), ve_document = d\<rparr>"

lemma verify_receipt_parts:
  assumes "verify_receipt env raw p now di = Inr r"
  shows "\<exists>d h completed s c authorized rid v. validate_policy p = Inr () \<and>
    parse_strict_json (chomp raw) MAX_RECEIPT_BYTES = Inr d \<and> chomp raw = canonical_json d \<and> keys_are d receipt_keys \<and>
    receipt_header p d = Inr h \<and> receipt_times p d now = Inr completed \<and> receipt_objects d = Inr s \<and> receipt_body s = Inr c \<and>
    receipt_bindings env d h c di = Inr authorized \<and> receipt_allowed p c = Inr () \<and>
    receipt_proof env d (rh_miner h) = Inr rid \<and> receipt_attestation env p d (rs_attestation s) authorized di = Inr v \<and>
    r = verified_from d h completed c rid v"
  using assms unfolding verify_receipt_def require_exact_keys_def
  by (elim bindE_InrE guardE_InrE) (auto simp: verified_from_def)

section \<open>Sections and times\<close>

lemma receipt_section_InrD: "receipt_section d name ks = Inr s \<Longrightarrow> jget d name = JObj s \<and> keys_are s ks"
  by (auto simp: receipt_section_def require_exact_keys_def split: json.splits elim!: guardE_InrE)

lemma receipt_objects_InrD:
  "receipt_objects d = Inr s \<Longrightarrow> jget d ''model'' = JObj (rs_model s) \<and> jget d ''runtime'' = JObj (rs_runtime s) \<and>
     jget d ''request'' = JObj (rs_request s) \<and> jget d ''result'' = JObj (rs_result s) \<and>
     jget d ''attestation'' = JObj (rs_attestation s)"
  unfolding receipt_objects_def by (elim bindE_InrE) (auto dest!: receipt_section_InrD)

text \<open>\<open>document[section][key]\<close>.\<close>

definition jsub :: "jdict \<Rightarrow> string \<Rightarrow> string \<Rightarrow> json" where
  "jsub d name k = (case jget d name of JObj s \<Rightarrow> jget s k | _ \<Rightarrow> JNull)"

lemma receipt_decimal_InrD: "receipt_decimal v l = Inr w \<Longrightarrow> (\<exists>s. v = JStr s \<and> decimal_text s = Some w) \<and> 0 \<le> dec_val w"
  by (auto simp: receipt_decimal_def split: json.splits option.splits elim!: guardE_InrE)

lemma receipt_body_InrD:
  assumes "receipt_body s = Inr c"
  shows "jget (rs_model s) ''weights_digest'' = JStr (rl_weights c) \<and> jget (rs_runtime s) ''image_digest'' = JStr (rl_image c) \<and>
    jget (rs_runtime s) ''runner_digest'' = JStr (rl_runner c) \<and> jget (rs_request s) ''input_commitment'' = JStr (rl_input c) \<and>
    jget (rs_request s) ''parameters_commitment'' = JStr (rl_parameters c) \<and>
    jget (rs_result s) ''output_commitment'' = JStr (rl_output c) \<and>
    jget (rs_result s) ''input_tokens'' = JInt (rl_input_tokens c) \<and> 0 \<le> rl_input_tokens c \<and>
    jget (rs_result s) ''output_tokens'' = JInt (rl_output_tokens c) \<and> 0 \<le> rl_output_tokens c \<and>
    (\<exists>t. jget (rs_result s) ''work_units'' = JStr t \<and> decimal_text t = Some (rl_work c)) \<and>
    0 \<le> dec_val (rl_work c) \<and> dec_val (rl_work c) \<le> 1000000000000"
  using assms unfolding receipt_body_def
  by (elim bindE_InrE guardE_InrE) (auto simp: receipt_values dest!: receipt_decimal_InrD)

lemma receipt_times_InrD:
  assumes "receipt_times p d now = Inr completed"
  shows "\<exists>t issued. now = Some t \<and> parse_time (jget d ''completed_at'') ''receipt completed_at'' = Inr completed \<and>
    parse_time (jget d ''issued_at'') ''receipt issued_at'' = Inr issued \<and> issued \<le> completed \<and>
    of_int (- rp_max_future p) \<le> elapsed_seconds t completed \<and> elapsed_seconds t completed \<le> of_int (rp_max_age p) \<and>
    int_field (jget d ''valid_from_block'') \<le> rp_block p \<and> rp_block p < int_field (jget d ''valid_until_block'') \<and>
    int_field (jget d ''valid_until_block'') - int_field (jget d ''valid_from_block'') \<le> rp_max_span p"
  using assms unfolding receipt_times_def
  by (elim bindE_InrE) (auto simp: Let_def split: option.splits elim!: bindE_InrE guardE_InrE dest!: block_window_InrD)

lemma receipt_allowed_InrD:
  "receipt_allowed p c = Inr u \<Longrightarrow> (rp_models p = [] \<or> rl_weights c \<in> set (rp_models p)) \<and>
     (rp_images p = [] \<or> rl_image c \<in> set (rp_images p)) \<and> (rp_runners p = [] \<or> rl_runner c \<in> set (rp_runners p))"
  unfolding receipt_allowed_def allowed_in_def by (elim guardE_InrE) auto

section \<open>The contract\<close>

text \<open>The request the receipt answers: its id binds the parties, the nonce and the commitments, and each
  revealed payload opens its commitment.\<close>

definition request_bound :: "receipt_policy \<Rightarrow> disclosures \<Rightarrow> verified_receipt \<Rightarrow> bool" where
  "request_bound p di r =
     (\<exists>nonce input params output. length nonce = 32 \<and> jget (ve_document r) ''nonce_base64'' = JStr (b64encode nonce) \<and>
        jsub (ve_document r) ''request'' ''input_commitment'' = JStr input \<and>
        jsub (ve_document r) ''request'' ''parameters_commitment'' = JStr params \<and>
        jsub (ve_document r) ''result'' ''output_commitment'' = JStr output \<and>
        ve_request_id r = request_id_for (rp_network p) (rp_netuid p) (ve_epoch r) (ve_validator r) (ve_miner r) nonce input params \<and>
        (\<forall>b. di_input di = Some b \<longrightarrow> commit_payload ''input'' b = Inr input) \<and>
        (\<forall>b. di_parameters di = Some b \<longrightarrow> commit_payload ''parameters'' b = Inr params) \<and>
        (\<forall>b. di_output di = Some b \<longrightarrow> commit_payload ''output'' b = Inr output))"

definition within_policy :: "receipt_policy \<Rightarrow> int option \<Rightarrow> verified_receipt \<Rightarrow> bool" where
  "within_policy p now r =
     (jsub (ve_document r) ''model'' ''weights_digest'' = JStr (ve_weights r) \<and>
      jsub (ve_document r) ''runtime'' ''image_digest'' = JStr (ve_image r) \<and>
      jsub (ve_document r) ''runtime'' ''runner_digest'' = JStr (ve_runner r) \<and>
      (rp_models p = [] \<or> ve_weights r \<in> set (rp_models p)) \<and> (rp_images p = [] \<or> ve_image r \<in> set (rp_images p)) \<and>
      (rp_runners p = [] \<or> ve_runner r \<in> set (rp_runners p)) \<and>
      (rp_expected_validator p = None \<or> rp_expected_validator p = Some (ve_validator r)) \<and>
      parse_time (jget (ve_document r) ''completed_at'') ''receipt completed_at'' = Inr (ve_completed r) \<and>
      (\<exists>issued. parse_time (jget (ve_document r) ''issued_at'') ''receipt issued_at'' = Inr issued \<and> issued \<le> ve_completed r) \<and>
      (\<exists>t. now = Some t \<and> of_int (- rp_max_future p) \<le> elapsed_seconds t (ve_completed r) \<and>
         elapsed_seconds t (ve_completed r) \<le> of_int (rp_max_age p)) \<and>
      int_field (jget (ve_document r) ''valid_from_block'') \<le> rp_block p \<and>
      rp_block p < int_field (jget (ve_document r) ''valid_until_block'') \<and>
      int_field (jget (ve_document r) ''valid_until_block'') - int_field (jget (ve_document r) ''valid_from_block'') \<le> rp_max_span p)"

definition receipt_ok :: "world \<Rightarrow> bytes \<Rightarrow> receipt_policy \<Rightarrow> int option \<Rightarrow> disclosures \<Rightarrow> verified_receipt \<Rightarrow> bool" where
  "receipt_ok env raw p now di r =
     (let d = ve_document r in
      chomp raw = canonical_json d \<and> strict_ok (JObj d) \<and> keys_are d receipt_keys \<and>
      jget d ''network'' = JStr (rp_network p) \<and> jget d ''netuid'' = JInt (rp_netuid p) \<and>
      jget d ''source_epoch'' = JInt (ve_epoch r) \<and> jget d ''request_id'' = JStr (ve_request_id r) \<and>
      jget d ''validator_hotkey'' = JStr (ve_validator r) \<and> jget d ''miner_hotkey'' = JStr (ve_miner r) \<and>
      request_bound p di r \<and> within_policy p now r \<and>
      ve_receipt_id r = receipt_id_for d \<and>
      (\<exists>sig. length sig = 64 \<and> or_sr env (ve_miner r) (receipt_message d) sig = Some True) \<and>
      jsub d ''result'' ''input_tokens'' = JInt (ve_input_tokens r) \<and> 0 \<le> ve_input_tokens r \<and>
      jsub d ''result'' ''output_tokens'' = JInt (ve_output_tokens r) \<and> 0 \<le> ve_output_tokens r \<and>
      (\<exists>t. jsub d ''result'' ''work_units'' = JStr t \<and> decimal_text t = Some (ve_work r)) \<and>
      0 \<le> dec_val (ve_work r) \<and> dec_val (ve_work r) \<le> 1000000000000 \<and>
      (rp_require_attestation p \<longrightarrow> ve_attested r) \<and>
      (ve_attested r \<longrightarrow>
         \<not> unpinned p \<and>
         (\<exists>m sig. authorization_message d = Inr m \<and> or_sr env (ve_validator r) m sig = Some True) \<and>
         (\<exists>a w. jget d ''attestation'' = JObj a \<and> attestation_bound p d a di (w, ve_measurement r) \<and> ve_verifier r = Some w)))"

lemma verify_receipt_ok:
  assumes "verify_receipt env raw p now di = Inr r"
  shows "receipt_ok env raw p now di r"
proof -
  obtain d h completed s c authorized rid v where
    d: "parse_strict_json (chomp raw) MAX_RECEIPT_BYTES = Inr d" "chomp raw = canonical_json d" "keys_are d receipt_keys"
    and h: "receipt_header p d = Inr h" and t: "receipt_times p d now = Inr completed" and s: "receipt_objects d = Inr s"
    and c: "receipt_body s = Inr c" and b: "receipt_bindings env d h c di = Inr authorized"
    and a: "receipt_allowed p c = Inr ()" and pr: "receipt_proof env d (rh_miner h) = Inr rid"
    and at: "receipt_attestation env p d (rs_attestation s) authorized di = Inr v" and r: "r = verified_from d h completed c rid v"
    using verify_receipt_parts [OF assms] by blast
  note hd = receipt_header_InrD [OF h] and td = receipt_times_InrD [OF t] and sd = receipt_objects_InrD [OF s]
    and cd = receipt_body_InrD [OF c] and bd = receipt_bindings_InrD [OF b] and ad = receipt_allowed_InrD [OF a]
    and pd = receipt_proof_InrD [OF pr] and atd = receipt_attestation_InrD [OF at]
  have sub: "jsub d ''model'' k = jget (rs_model s) k" "jsub d ''runtime'' k = jget (rs_runtime s) k"
    "jsub d ''request'' k = jget (rs_request s) k" "jsub d ''result'' k = jget (rs_result s) k" for k
    using sd by (simp_all add: jsub_def)
  have "request_bound p di r"
    unfolding request_bound_def
    by (intro exI [of _ "rh_nonce h"] exI [of _ "rl_input c"] exI [of _ "rl_parameters c"] exI [of _ "rl_output c"])
      (use hd cd bd in \<open>simp add: r verified_from_def sub\<close>)
  moreover have "within_policy p now r"
    unfolding within_policy_def using hd cd ad td by (auto simp: r verified_from_def sub)
  moreover have "\<exists>a w. jget d ''attestation'' = JObj a \<and> attestation_bound p d a di (w, ve_measurement r) \<and> ve_verifier r = Some w"
    if "ve_attested r" using that atd sd by (auto simp: r verified_from_def split: option.splits)
  moreover have "\<exists>m sig. authorization_message d = Inr m \<and> or_sr env (ve_validator r) m sig = Some True" if "ve_attested r"
  proof -
    have "authorized" using that atd by (auto simp: r verified_from_def)
    then have "verify_request_authorization env d = Inr True" using bd by simp
    from authorization_InrD [OF this] show ?thesis
      using hd by (simp add: r verified_from_def str_field_def jget_def py_str_def split: option.splits)
  qed
  moreover have "strict_ok (JObj d)" by (rule parse_strict_sound [OF d(1)])
  ultimately show ?thesis
    unfolding receipt_ok_def Let_def using d hd cd pd atd by (simp add: r verified_from_def sub)
qed

end
