(* ===== verification/Ml_Decimal.thy ===== *)
theory Ml_Decimal
  imports Ml_Receipt
begin

text \<open>
  \<open>canonical_decimal\<close> of \<open>cathedral_thin/ml_receipts.py\<close> prints a decimal that reads back as the same
  number: dropping the trailing zeros of the fraction changes neither its value nor its grammar.
\<close>

lemma digits_value_zeros: "digits_value (s @ replicate j CHR ''0'') = digits_value s * 10 ^ j"
proof (induction j)
  case (Suc j)
  have "s @ replicate (Suc j) CHR ''0'' = (s @ replicate j CHR ''0'') @ [CHR ''0'']"
    by (simp only: replicate_Suc append_assoc flip: replicate_append_same)
  then show ?case using Suc by (simp only: digits_value_snoc) (simp add: code_def)
qed simp

lemma digits_value_padded: "digits_value (replicate j CHR ''0'' @ s) = digits_value s"
proof (induction s rule: rev_induct)
  case Nil
  show ?case using digits_value_zeros [of "[]" j] by (simp add: digits_value_def)
next
  case (snoc c s)
  then show ?case by (simp flip: append_assoc)
qed

lemma rstrip_char_split: "\<exists>j. s = rstrip_char c s @ replicate j c \<and> (rstrip_char c s = [] \<or> last (rstrip_char c s) \<noteq> c)"
proof -
  let ?t = "takeWhile (\<lambda>x. x = c) (rev s)"
  have all: "\<forall>x \<in> set ?t. x = c" by (auto dest: set_takeWhileD)
  have rep: "?t = replicate (length ?t) c" by (rule replicate_length_same [OF all, symmetric])
  have "s = rev (dropWhile (\<lambda>x. x = c) (rev s)) @ rev ?t"
    by (metis rev_append rev_rev_ident takeWhile_dropWhile_id)
  then have "s = rstrip_char c s @ replicate (length ?t) c" using rep by (metis rev_replicate rstrip_char_def)
  moreover have "rstrip_char c s = [] \<or> last (rstrip_char c s) \<noteq> c"
    using hd_dropWhile [of "\<lambda>x. x = c" "rev s"] by (auto simp: rstrip_char_def last_rev)
  ultimately show ?thesis by blast
qed

lemma rstrip_char_unique:
  assumes "s = t @ replicate j c" "t = [] \<or> last t \<noteq> c"
  shows "rstrip_char c s = t"
proof -
  have "dropWhile (\<lambda>x. x = c) (replicate j c @ rev t) = rev t"
    using assms(2) by (cases t rule: rev_cases) (induction j; simp)+
  then show ?thesis using assms(1) by (simp add: rstrip_char_def)
qed

definition all_digits :: "string \<Rightarrow> bool" where
  "all_digits s = (\<forall>c \<in> set s. is_digit c)"

lemma point_no_digit [simp]: "\<not> is_digit (CHR ''.'')" by (simp add: is_digit_def code_def)

lemma decimal_text_integer: "all_digits ip \<Longrightarrow> decimal_text ip = Some d \<Longrightarrow> dec_val d = of_nat (digits_value ip)"
  by (auto simp: decimal_text_def all_digits_def Let_def takeWhile_eq_all_conv [THEN iffD2] dropWhile_eq_Nil_conv [THEN iffD2] dec_val_def
    split: if_splits)

lemma decimal_text_fraction:
  assumes "all_digits ip" "decimal_text (ip @ CHR ''.'' # fp) = Some d"
  shows "dec_val d = of_nat (digits_value (ip @ fp)) / 10 ^ length fp"
proof -
  have "takeWhile is_digit (ip @ CHR ''.'' # fp) = ip" "dropWhile is_digit (ip @ CHR ''.'' # fp) = CHR ''.'' # fp"
    using assms(1) by (simp_all add: all_digits_def)
  then show ?thesis using assms(2) by (auto simp: decimal_text_def Let_def dec_val_def split: if_splits)
qed

text \<open>The fixed rendering splits at its point.\<close>

lemma fixed_text_split:
  assumes "0 < k"
  shows "\<exists>ip fp. fixed_text (n, k) = ip @ CHR ''.'' # fp \<and> all_digits ip \<and> all_digits fp \<and> ip \<noteq> [] \<and> length fp = k \<and>
    digits_value (ip @ fp) = nat n"
proof -
  define p where "p = replicate (Suc k - length (nat_str (nat n))) CHR ''0'' @ nat_str (nat n)"
  have len: "Suc k \<le> length p" by (simp add: p_def)
  have dig: "is_digit c" if "c \<in> set p" for c
    using that nat_str_digits by (auto simp: p_def is_digit_def code_def split: if_splits)
  let ?m = "length p - k"
  have "fixed_text (n, k) = take ?m p @ CHR ''.'' # drop ?m p"
    using assms by (simp add: fixed_text_def Let_def p_def)
  moreover have "all_digits (take ?m p)" "all_digits (drop ?m p)"
    unfolding all_digits_def by (auto intro: dig dest: in_set_takeD in_set_dropD)
  moreover have "take ?m p \<noteq> []" using len by auto
  moreover have "length (drop ?m p) = k" using len by simp
  moreover have "digits_value (take ?m p @ drop ?m p) = nat n"
    by (simp only: append_take_drop_id) (simp add: p_def digits_value_padded)
  ultimately show ?thesis by blast
qed

text \<open>Stripping the zeros and the point of a fixed rendering.\<close>

lemma strip_fraction:
  assumes "all_digits ip" "all_digits fp" "ip \<noteq> []"
  shows "\<exists>q j. fp = q @ replicate j CHR ''0'' \<and>
    rstrip_char CHR ''.'' (rstrip_char CHR ''0'' (ip @ CHR ''.'' # fp)) = (if q = [] then ip else ip @ CHR ''.'' # q)"
proof -
  define q where "q = rstrip_char CHR ''0'' fp"
  obtain j where fq: "fp = q @ replicate j CHR ''0''" and fq': "q = [] \<or> last q \<noteq> CHR ''0''"
    using rstrip_char_split [of fp "CHR ''0''"] unfolding q_def by blast
  have strip0: "rstrip_char CHR ''0'' (ip @ CHR ''.'' # fp) = ip @ CHR ''.'' # q"
    by (rule rstrip_char_unique [where j = j]) (use fq' in \<open>auto simp: fq\<close>)
  have "last ip \<noteq> CHR ''.''" using assms(1,3) point_no_digit by (metis all_digits_def last_in_set)
  then have "rstrip_char CHR ''.'' (ip @ [CHR ''.'']) = ip"
    by (intro rstrip_char_unique [where j = 1]) auto
  moreover have "rstrip_char CHR ''.'' (ip @ CHR ''.'' # q) = ip @ CHR ''.'' # q" if "q \<noteq> []"
  proof -
    have "last q \<noteq> CHR ''.''" using assms(2) that point_no_digit unfolding fq by (metis UnCI all_digits_def last_in_set set_append)
    then show ?thesis using that by (intro rstrip_char_unique [where j = 0]) auto
  qed
  ultimately show ?thesis using fq strip0 by (intro exI [of _ q] exI [of _ j]) auto
qed

lemma canonical_decimal_value:
  assumes "canonical_decimal d = Inr s"
  shows "\<exists>e. decimal_text s = Some e \<and> dec_val e = dec_val d"
proof -
  obtain n k where d: "d = (n, k)" by (cases d)
  have n: "0 \<le> n" using assms by (auto simp: canonical_decimal_def d elim!: guardE_InrE)
  let ?r = "fixed_text d"
  have s: "s = (if CHR ''.'' \<in> set ?r then rstrip_char CHR ''.'' (rstrip_char CHR ''0'' ?r) else ?r)" and "decimal_text s \<noteq> None"
    using assms by (auto simp: canonical_decimal_def Let_def elim!: guardE_InrE)
  then obtain e where e: "decimal_text s = Some e" by auto
  have "dec_val e = dec_val d"
  proof (cases "k = 0")
    case True
    have r: "?r = nat_str (nat n)" by (simp add: d fixed_text_def Let_def True)
    have dig: "all_digits (nat_str (nat n))" by (auto simp: all_digits_def nat_str_digits)
    then have "CHR ''.'' \<notin> set (nat_str (nat n))" unfolding all_digits_def using point_no_digit by blast
    then have "s = nat_str (nat n)" using s by (simp add: r)
    then show ?thesis using decimal_text_integer [OF dig, of e] e n by (simp add: d True dec_val_def)
  next
    case False
    then obtain ip fp where r: "?r = ip @ CHR ''.'' # fp" and dig: "all_digits ip" "all_digits fp" and ne: "ip \<noteq> []"
      and len: "length fp = k" and val: "digits_value (ip @ fp) = nat n" using fixed_text_split [of k n] d by auto
    obtain q j where fq: "fp = q @ replicate j CHR ''0''"
      and st: "rstrip_char CHR ''.'' (rstrip_char CHR ''0'' (ip @ CHR ''.'' # fp)) = (if q = [] then ip else ip @ CHR ''.'' # q)"
      using strip_fraction [OF dig ne] by blast
    have total: "digits_value (ip @ q) * 10 ^ j = nat n"
      using val digits_value_zeros [of "ip @ q" j] by (simp add: fq)
    have k: "k = length q + j" using len by (simp add: fq)
    have goal: "rat_of_nat (digits_value (ip @ q)) / 10 ^ length q = dec_val d"
    proof -
      have "rat_of_nat (digits_value (ip @ q)) * 10 ^ j = of_nat (nat n)" by (simp flip: total)
      then show ?thesis using n by (simp add: dec_val_def d k power_add divide_simps)
    qed
    have "s = (if q = [] then ip else ip @ CHR ''.'' # q)" using s st by (simp add: r)
    then show ?thesis
      using decimal_text_integer [OF dig(1), of e] decimal_text_fraction [OF dig(1), of q e] e goal by (cases "q = []") simp_all
  qed
  with e show ?thesis by blast
qed

section \<open>Which numbers print\<close>

lemma nat_str_leading: "10 \<le> n \<Longrightarrow> hd (nat_str n) \<noteq> CHR ''0''"
proof (induction n rule: nat_str.induct)
  case (1 n)
  then have n: "nat_str n = nat_str (n div 10) @ [digit_char (n mod 10)]" by (simp add: nat_str.simps [of n])
  show ?case
  proof (cases "10 \<le> n div 10")
    case True
    then show ?thesis using 1 by (simp add: n)
  next
    case False
    then have d: "nat_str (n div 10) = [digit_char (n div 10)]" by (simp add: nat_str.simps [of "n div 10"])
    have "code (digit_char (n div 10)) = 48 + n div 10" using False by simp
    moreover have "1 \<le> n div 10" using 1(2) by linarith
    moreover have "code (CHR ''0'') = 48" by (simp add: code_def)
    ultimately have "code (digit_char (n div 10)) \<noteq> code (CHR ''0'')" by linarith
    then have "digit_char (n div 10) \<noteq> CHR ''0''" by (rule contrapos_nn) (rule arg_cong [where f = code])
    then show ?thesis by (simp add: n d)
  qed
qed

lemma nat_str_long: "2 \<le> length (nat_str n) \<Longrightarrow> 10 \<le> n"
  by (rule ccontr) (simp add: nat_str.simps [of n])

text \<open>The integer part of a fixed rendering has no leading zero.\<close>

lemma fixed_text_integer_part:
  assumes "0 < k" "n < 10 ^ (30 + k)"
  shows "\<exists>ip fp. fixed_text (int n, k) = ip @ CHR ''.'' # fp \<and> all_digits ip \<and> all_digits fp \<and> ip \<noteq> [] \<and> length fp = k \<and>
    length ip \<le> 30 \<and> (length ip > 1 \<longrightarrow> hd ip \<noteq> CHR ''0'')"
proof -
  let ?ds = "nat_str n"
  define p where "p = replicate (Suc k - length ?ds) CHR ''0'' @ ?ds"
  let ?m = "length p - k"
  have dig: "is_digit c" if "c \<in> set p" for c
    using that nat_str_digits by (auto simp: p_def is_digit_def code_def split: if_splits)
  have "n < 10 ^ Suc (29 + k)" using assms(2) by simp
  from length_nat_str [OF this] have len: "length ?ds \<le> 30 + k" by simp
  have "hd (take ?m p) \<noteq> CHR ''0''" if "1 < ?m"
  proof -
    have "k + 1 < length ?ds" using that by (simp add: p_def)
    then have p: "p = ?ds" and "10 \<le> n" using nat_str_long [of n] by (simp_all add: p_def)
    then show ?thesis using nat_str_leading that by (metis hd_take less_imp_Suc_add zero_less_Suc)
  qed
  moreover have "fixed_text (int n, k) = take ?m p @ CHR ''.'' # drop ?m p" using assms(1) by (simp add: fixed_text_def Let_def p_def)
  moreover have "all_digits (take ?m p)" "all_digits (drop ?m p)"
    unfolding all_digits_def by (auto intro: dig dest: in_set_takeD in_set_dropD)
  moreover have "length p > k" by (simp add: p_def)
  moreover have "?m \<le> 30" using len by (simp add: p_def)
  ultimately show ?thesis by (intro exI [of _ "take ?m p"] exI [of _ "drop ?m p"]) auto
qed

lemma canonical_decimal_total:
  assumes "0 \<le> n" "k \<le> 12" "dec_val (n, k) < 10 ^ 30"
  shows "\<exists>s. canonical_decimal (n, k) = Inr s"
proof -
  obtain m where m: "n = int m" using assms(1) nonneg_int_cases by blast
  have "rat_of_nat m < 10 ^ 30 * 10 ^ k" using assms(3) by (simp add: dec_val_def m divide_simps)
  then have "rat_of_nat m < rat_of_nat (10 ^ (30 + k))" by (simp add: power_add)
  then have b: "m < 10 ^ (30 + k)" by (simp only: of_nat_less_iff)
  let ?r = "fixed_text (n, k)"
  let ?s = "if CHR ''.'' \<in> set ?r then rstrip_char CHR ''.'' (rstrip_char CHR ''0'' ?r) else ?r"
  have plain: "decimal_text ip \<noteq> None" if "all_digits ip" "ip \<noteq> []" "length ip \<le> 30" "length ip > 1 \<longrightarrow> hd ip \<noteq> CHR ''0''" for ip
    using that by (auto simp: decimal_text_def all_digits_def Let_def takeWhile_eq_all_conv [THEN iffD2] dropWhile_eq_Nil_conv [THEN iffD2])
  have "decimal_text ?s \<noteq> None"
  proof (cases "k = 0")
    case True
    have r: "?r = nat_str m" by (simp add: fixed_text_def Let_def True m)
    have dig: "all_digits (nat_str m)" by (auto simp: all_digits_def nat_str_digits)
    then have "?s = nat_str m" unfolding r all_digits_def using point_no_digit by auto
    moreover have "length (nat_str m) \<le> Suc 29" using b by (intro length_nat_str) (simp add: True)
    moreover have "length (nat_str m) > 1 \<longrightarrow> hd (nat_str m) \<noteq> CHR ''0''" using nat_str_leading nat_str_long by simp
    ultimately show ?thesis using plain [OF dig] by simp
  next
    case False
    then obtain ip fp where r: "?r = ip @ CHR ''.'' # fp" and ip: "all_digits ip" "all_digits fp" "ip \<noteq> []" "length fp = k"
      "length ip \<le> 30" "length ip > 1 \<longrightarrow> hd ip \<noteq> CHR ''0''" using fixed_text_integer_part [of k m] b m by auto
    obtain q j where fq: "fp = q @ replicate j CHR ''0''"
      and st: "rstrip_char CHR ''.'' (rstrip_char CHR ''0'' (ip @ CHR ''.'' # fp)) = (if q = [] then ip else ip @ CHR ''.'' # q)"
      using strip_fraction [OF ip(1-3)] by blast
    have s: "?s = (if q = [] then ip else ip @ CHR ''.'' # q)" using st by (simp add: r)
    have "decimal_text (ip @ CHR ''.'' # q) \<noteq> None" if "q \<noteq> []"
    proof -
      have "takeWhile is_digit (ip @ CHR ''.'' # q) = ip" "dropWhile is_digit (ip @ CHR ''.'' # q) = CHR ''.'' # q"
        using ip(1) by (simp_all add: all_digits_def)
      moreover have "list_all is_digit q" using ip(2) by (auto simp: fq all_digits_def list_all_iff)
      moreover have "length q \<le> 12" "1 \<le> length q" using ip(4) assms(2) that by (simp_all add: fq Suc_le_eq)
      ultimately show ?thesis using ip by (simp add: decimal_text_def Let_def)
    qed
    then show ?thesis using plain [OF ip(1,3,5,6)] s by simp
  qed
  then show ?thesis using assms(1) by (auto simp: canonical_decimal_def Let_def guardE_def)
qed

end
