(* ===== verification/Ml_Protocol.thy ===== *)
theory Ml_Protocol
  imports Ml_Contract Ml_Decimal
begin

text \<open>
  The round trip of \<open>cathedral_thin/ml_receipts.py\<close>: a receipt made from honest facts, authorized by
  the validator's key and signed by the miner's, verifies under that validator's policy.
\<close>

section \<open>Canonical form of the picked bodies\<close>

definition sorted_values :: "jdict \<Rightarrow> jdict" where
  "sorted_values d = map (\<lambda>(k, v). (k, jsort v)) d"

lemma jsort_idem: "jsort (jsort v) = jsort v"
proof (induction v rule: jsort.induct)
  case (2 kvs)
  have s: "sort_items (map (\<lambda>(k, v). (k, jsort v)) (sort_items kvs)) = map (\<lambda>(k, v). (k, jsort v)) (sort_items kvs)"
    by (subst sort_items_map) auto
  show ?case using 2 by (simp only: jsort.simps s) auto
qed simp_all

lemma canonical_json_values: "canonical_json (sorted_values d) = canonical_json d"
proof -
  have "sort_items (sorted_values d) = sorted_values (sort_items d)"
    unfolding sorted_values_def by (rule sort_items_map) auto
  then have "canonical_dict (sorted_values d) = canonical_dict d"
    by (simp add: canonical_dict_def sorted_values_def comp_def case_prod_unfold jsort_idem)
  then show ?thesis by (metis canonical_json_dict)
qed

lemma map_of_canonical:
  assumes "distinct (map fst d)"
  shows "map_of (canonical_dict d) k = map_option jsort (map_of d k)"
proof -
  have "map_of (sort_items d) = map_of d" using assms by (intro map_of_inject_set [THEN iffD2]) simp_all
  then show ?thesis by (simp add: canonical_dict_def map_of_map)
qed

lemma pick_canonical: "distinct (map fst d) \<Longrightarrow> pick ks d = Inr b \<Longrightarrow> pick ks (canonical_dict d) = Inr (sorted_values b)"
proof (induction ks arbitrary: b)
  case (Cons k ks)
  then obtain v rest where v: "jitem d k = Inr v" and rest: "pick ks d = Inr rest" "b = (k, v) # rest"
    unfolding pick_def by (auto elim!: bindE_InrE)
  have "jitem (canonical_dict d) k = Inr (jsort v)"
    using v Cons.prems(1) by (cases "map_of d k") (simp_all add: jitem_def map_of_canonical)
  then show ?case using Cons.IH [OF Cons.prems(1) rest(1)] rest(2) by (simp add: pick_def sorted_values_def)
qed (simp add: pick_def sorted_values_def)

lemma pick_dict_set: "k \<notin> set ks \<Longrightarrow> pick ks (dict_set k v d) = pick ks d"
  unfolding pick_def by (induction ks) (auto simp: jitem_def)

lemma pick_total: "set ks \<subseteq> fst ` set d \<Longrightarrow> \<exists>b. pick ks d = Inr b"
  unfolding pick_def
proof (induction ks)
  case (Cons k ks)
  then obtain v where "map_of d k = Some v" by (metis Cons.prems insert_subset list.simps(15) map_of_eq_None_iff not_None_eq)
  then show ?case using Cons by (auto simp: jitem_def)
qed simp

lemma authorization_canonical:
  assumes "distinct (map fst d)" "authorization_message d = Inr m"
  shows "authorization_message (canonical_dict d) = Inr m"
  using assms pick_canonical [of d authorization_keys] unfolding authorization_message_def request_authorization_body_def
  by (auto simp: canonical_json_values elim!: bindE_InrE)

lemma report_data_canonical:
  assumes "distinct (map fst d)" "expected_report_data d = Inr m"
  shows "expected_report_data (canonical_dict d) = Inr m"
  using assms pick_canonical [of d identity_keys] pick_canonical [of d execution_keys] unfolding expected_report_data_def
  by (auto simp: canonical_json_values elim!: bindE_InrE)

lemma authorization_dict_set: "k \<notin> set authorization_keys \<Longrightarrow> authorization_message (dict_set k v d) = authorization_message d"
  by (simp add: authorization_message_def request_authorization_body_def pick_dict_set)

lemma report_data_dict_set:
  "k \<notin> set identity_keys \<Longrightarrow> k \<notin> set execution_keys \<Longrightarrow> expected_report_data (dict_set k v d) = expected_report_data d"
  by (simp add: expected_report_data_def pick_dict_set)

lemma receipt_bodies_canonical:
  "receipt_id_for (canonical_dict d) = receipt_id_for d" "receipt_message (canonical_dict d) = receipt_message d"
  by (simp_all add: receipt_id_for_def receipt_message_def unsigned_receipt_def signed_receipt_def
    canonical_json_dict flip: canonical_without)

lemma receipt_bodies_signed:
  "receipt_id_for (dict_set ''signature'' v d) = receipt_id_for d"
  "receipt_id_for (dict_set ''receipt_id'' v d) = receipt_id_for d"
  "receipt_message (dict_set ''signature'' v d) = receipt_message d"
  by (simp_all add: receipt_id_for_def receipt_message_def unsigned_receipt_def signed_receipt_def without_dict_set)

lemma sha_digest_text_sha: "sha_digest_text (sha256_digest m)" "sha_digest_text (prefixed_digest l m)"
  using digest_text_sha [of m] digest_text_sha [of "map byte_of l @ [0] @ m"]
    starts_with_append [of "''sha256:''"]
  by (auto simp: sha_digest_text_def sha256_digest_def prefixed_digest_def digest_text_def starts_with_def)


section \<open>The document of honest facts\<close>

definition receipt_document :: "receipt_facts \<Rightarrow> string \<Rightarrow> string \<Rightarrow> json \<Rightarrow> jdict" where
  "receipt_document f latency work report_data =
     [(''schema'', JStr ''cathedral_ml_inference_receipt_v1''), (''network'', JStr (rf_network f)), (''netuid'', JInt (rf_netuid f)),
      (''source_epoch'', JInt (rf_epoch f)),
      (''request_id'', JStr (request_id_for (rf_network f) (rf_netuid f) (rf_epoch f) (rf_validator f) (rf_miner f) (rf_nonce f)
         (rf_input f) (rf_parameters f))),
      (''validator_hotkey'', JStr (rf_validator f)), (''miner_hotkey'', JStr (rf_miner f)),
      (''nonce_base64'', JStr (b64encode (rf_nonce f))), (''issued_at'', JStr (rf_issued f)), (''completed_at'', JStr (rf_completed f)),
      (''valid_from_block'', JInt (rf_first f)), (''valid_until_block'', JInt (rf_last f)),
      (''model'', JObj [(''model_id'', JStr (rf_model f)), (''weights_digest'', JStr (rf_weights f)),
         (''tokenizer_digest'', opt_text (rf_tokenizer f))]),
      (''runtime'', JObj [(''image_digest'', JStr (rf_image f)), (''runner_digest'', JStr (rf_runner f))]),
      (''request'', JObj [(''input_commitment'', JStr (rf_input f)), (''parameters_commitment'', JStr (rf_parameters f))]),
      (''request_authorization'', JNull),
      (''result'', JObj [(''output_commitment'', JStr (rf_output f)), (''input_tokens'', JInt (rf_input_tokens f)),
         (''output_tokens'', JInt (rf_output_tokens f)), (''latency_ms'', JStr latency), (''work_units'', JStr work)]),
      (''attestation'', attestation_object f report_data)]"

lemma document_attested:
  "dict_set ''attestation'' (attestation_object f rd) (receipt_document f l w rd') = receipt_document f l w rd"
  by (simp add: receipt_document_def)

lemma document_report_data: "expected_report_data (receipt_document f l w rd) = expected_report_data (receipt_document f l w rd')"
  using report_data_dict_set [of "''attestation''" "attestation_object f rd" "receipt_document f l w rd'"]
  by (simp add: document_attested identity_keys_def execution_keys_def)

lemma make_unsigned_receipt_eq:
  "make_unsigned_receipt f =
     bindE (canonical_decimal (rf_latency f)) (\<lambda>l. bindE (canonical_decimal (rf_work f)) (\<lambda>w.
       if rf_kind f = ''tdx''
       then bindE (expected_report_data (receipt_document f l w JNull)) (\<lambda>b. Inr (receipt_document f l w (JStr (hex_of b))))
       else Inr (receipt_document f l w JNull)))"
  by (simp only: make_unsigned_receipt_def Let_def document_attested flip: receipt_document_def)

lemma made_document:
  assumes "make_unsigned_receipt f = Inr d"
  shows "\<exists>latency work rd. d = receipt_document f latency work rd \<and> canonical_decimal (rf_latency f) = Inr latency \<and>
    canonical_decimal (rf_work f) = Inr work \<and>
    (if rf_kind f = ''tdx'' then \<exists>e. expected_report_data d = Inr e \<and> rd = JStr (hex_of e) else rd = JNull)"
  using assms unfolding make_unsigned_receipt_eq
  by (auto split: if_splits elim!: bindE_InrE simp: document_report_data [of f _ _ "JStr _" JNull])

lemma get_document:
  "jget (receipt_document f l w rd) ''schema'' = JStr ''cathedral_ml_inference_receipt_v1''"
  "jget (receipt_document f l w rd) ''network'' = JStr (rf_network f)"
  "jget (receipt_document f l w rd) ''netuid'' = JInt (rf_netuid f)"
  "jget (receipt_document f l w rd) ''source_epoch'' = JInt (rf_epoch f)"
  "jget (receipt_document f l w rd) ''request_id'' = JStr (request_id_for (rf_network f) (rf_netuid f) (rf_epoch f)
     (rf_validator f) (rf_miner f) (rf_nonce f) (rf_input f) (rf_parameters f))"
  "jget (receipt_document f l w rd) ''validator_hotkey'' = JStr (rf_validator f)"
  "jget (receipt_document f l w rd) ''miner_hotkey'' = JStr (rf_miner f)"
  "jget (receipt_document f l w rd) ''nonce_base64'' = JStr (b64encode (rf_nonce f))"
  "jget (receipt_document f l w rd) ''issued_at'' = JStr (rf_issued f)"
  "jget (receipt_document f l w rd) ''completed_at'' = JStr (rf_completed f)"
  "jget (receipt_document f l w rd) ''valid_from_block'' = JInt (rf_first f)"
  "jget (receipt_document f l w rd) ''valid_until_block'' = JInt (rf_last f)"
  "jget (receipt_document f l w rd) ''request_authorization'' = JNull"
  by (simp_all add: receipt_document_def jget_def)

text \<open>What the documents that follow from it hold.\<close>

definition extends_document :: "jdict \<Rightarrow> jdict \<Rightarrow> bool" where
  "extends_document d c =
     (\<forall>k. k \<notin> {''request_authorization'', ''receipt_id'', ''signature''} \<longrightarrow> jget c k = jsort (jget d k))"

lemma extends_get: "extends_document d c \<Longrightarrow> k \<notin> {''request_authorization'', ''receipt_id'', ''signature''} \<Longrightarrow> jget c k = jsort (jget d k)"
  by (simp add: extends_document_def)

definition name_ok :: "string \<Rightarrow> nat \<Rightarrow> bool" where
  "name_ok s n = (1 \<le> utf8_length s \<and> utf8_length s \<le> n)"

definition natural64 :: "int \<Rightarrow> bool" where
  "natural64 n = (0 \<le> n \<and> n < 2 ^ 63)"

text \<open>The facts a validator's policy accepts.\<close>

definition facts_ok :: "receipt_policy \<Rightarrow> int option \<Rightarrow> disclosures \<Rightarrow> receipt_facts \<Rightarrow> bool" where
  "facts_ok p now di f =
     (validate_policy p = Inr () \<and>
      rf_network f = rp_network p \<and> rf_netuid f = rp_netuid p \<and> name_ok (rf_network f) 128 \<and> name_ok (rf_validator f) 128 \<and>
      name_ok (rf_miner f) 128 \<and> name_ok (rf_model f) 256 \<and>
      natural64 (rf_netuid f) \<and> natural64 (rf_epoch f) \<and> natural64 (rf_first f) \<and> natural64 (rf_last f) \<and>
      natural64 (rf_input_tokens f) \<and> natural64 (rf_output_tokens f) \<and> length (rf_nonce f) = 32 \<and>
      (rp_expected_validator p = None \<or> rp_expected_validator p = Some (rf_validator f)) \<and>
      rf_first f \<le> rp_block p \<and> rp_block p < rf_last f \<and> rf_last f - rf_first f \<le> rp_max_span p \<and>
      (\<exists>t issued completed. now = Some t \<and> (\<forall>l. parse_time (JStr (rf_issued f)) l = Inr issued) \<and>
         (\<forall>l. parse_time (JStr (rf_completed f)) l = Inr completed) \<and> issued \<le> completed \<and>
         of_int (- rp_max_future p) \<le> elapsed_seconds t completed \<and> elapsed_seconds t completed \<le> of_int (rp_max_age p)) \<and>
      list_all sha_digest_text [rf_weights f, rf_image f, rf_runner f, rf_input f, rf_parameters f, rf_output f] \<and>
      (\<forall>s. rf_tokenizer f = Some s \<longrightarrow> sha_digest_text s) \<and> dec_val (rf_work f) \<le> 1000000000000 \<and>
      (rp_models p = [] \<or> rf_weights f \<in> set (rp_models p)) \<and> (rp_images p = [] \<or> rf_image f \<in> set (rp_images p)) \<and>
      (rp_runners p = [] \<or> rf_runner f \<in> set (rp_runners p)) \<and>
      check_reveal ''input'' (di_input di) (rf_input f) = Inr () \<and>
      check_reveal ''parameters'' (di_parameters di) (rf_parameters f) = Inr () \<and>
      check_reveal ''output'' (di_output di) (rf_output f) = Inr ())"

lemma document_header:
  assumes ok: "facts_ok p now di f" and c: "extends_document (receipt_document f latency work rd) c"
  shows "receipt_header p c = Inr \<lparr>rh_network = rf_network f, rh_netuid = rf_netuid f, rh_epoch = rf_epoch f,
    rh_request_id = request_id_for (rf_network f) (rf_netuid f) (rf_epoch f) (rf_validator f) (rf_miner f) (rf_nonce f)
       (rf_input f) (rf_parameters f),
    rh_validator = rf_validator f, rh_miner = rf_miner f, rh_nonce = rf_nonce f\<rparr>"
proof -
  have "sha_digest_text (request_id_for n u e v m nonce i q)" for n u e v m nonce i q
    unfolding request_id_for_def by (rule sha_digest_text_sha)
  then show ?thesis
    using ok unfolding receipt_header_def
    by (auto simp: extends_get [OF c] get_document facts_ok_def name_ok_def natural64_def bounded_string_def
      nonnegative_int_def nat_field_def int_field_def sha_digest_def nonce_value_def b64decode_or_def b64decode_encode other_than_def)
qed

lemma document_times:
  assumes ok: "facts_ok p now di f" and c: "extends_document (receipt_document f latency work rd) c"
  shows "\<exists>completed. parse_time (JStr (rf_completed f)) [] = Inr completed \<and> receipt_times p c now = Inr completed"
proof -
  have bw: "block_window a b w c (rp_block p) (rp_max_span p) = Inr (rf_first f, rf_last f)" for a b w
    using ok by (simp add: block_window_def extends_get [OF c] get_document facts_ok_def natural64_def
      nat_field_def int_field_def Let_def)
  have t: "jget c ''issued_at'' = JStr (rf_issued f)" "jget c ''completed_at'' = JStr (rf_completed f)"
    by (simp_all add: extends_get [OF c] get_document)
  from ok obtain t issued completed where now: "now = Some t" and times: "\<forall>l. parse_time (JStr (rf_issued f)) l = Inr issued"
      "\<forall>l. parse_time (JStr (rf_completed f)) l = Inr completed"
    and age: "issued \<le> completed" "of_int (- rp_max_future p) \<le> elapsed_seconds t completed"
      "elapsed_seconds t completed \<le> of_int (rp_max_age p)" unfolding facts_ok_def by blast
  show ?thesis using times age unfolding receipt_times_def bw t now by (auto simp: Let_def guardE_def)
qed


section \<open>The sections of an honest receipt\<close>

text \<open>A section of the document as the reader sees it.\<close>

lemma section_read:
  assumes "jget c name = jsort (JObj s)" "distinct (map fst s)" "set (map fst s) = set ks"
  shows "receipt_section c name ks = Inr (canonical_dict s)"
  using assms by (simp add: receipt_section_def require_exact_keys_def keys_are_def jsort_dict del: jsort.simps)

definition model_of :: "receipt_facts \<Rightarrow> jdict" where
  "model_of f = [(''model_id'', JStr (rf_model f)), (''weights_digest'', JStr (rf_weights f)),
     (''tokenizer_digest'', opt_text (rf_tokenizer f))]"

definition runtime_of :: "receipt_facts \<Rightarrow> jdict" where
  "runtime_of f = [(''image_digest'', JStr (rf_image f)), (''runner_digest'', JStr (rf_runner f))]"

definition request_of :: "receipt_facts \<Rightarrow> jdict" where
  "request_of f = [(''input_commitment'', JStr (rf_input f)), (''parameters_commitment'', JStr (rf_parameters f))]"

definition result_of :: "receipt_facts \<Rightarrow> string \<Rightarrow> string \<Rightarrow> jdict" where
  "result_of f latency work =
     [(''output_commitment'', JStr (rf_output f)), (''input_tokens'', JInt (rf_input_tokens f)),
      (''output_tokens'', JInt (rf_output_tokens f)), (''latency_ms'', JStr latency), (''work_units'', JStr work)]"

definition attestation_of :: "receipt_facts \<Rightarrow> json \<Rightarrow> jdict" where
  "attestation_of f rd =
     [(''kind'', JStr (rf_kind f)), (''evidence_digest'', opt_text (rf_evidence f)), (''evidence_uri'', opt_text (rf_uri f)),
      (''policy_digest'', opt_text (rf_policy f)), (''report_data_hex'', rd)]"

lemmas section_defs = model_of_def runtime_of_def request_of_def result_of_def attestation_of_def
lemmas section_keys = model_keys_def runtime_keys_def request_keys_def result_keys_def attestation_keys_def

lemma get_sections:
  "jget (receipt_document f l w rd) ''model'' = JObj (model_of f)"
  "jget (receipt_document f l w rd) ''runtime'' = JObj (runtime_of f)"
  "jget (receipt_document f l w rd) ''request'' = JObj (request_of f)"
  "jget (receipt_document f l w rd) ''result'' = JObj (result_of f l w)"
  "jget (receipt_document f l w rd) ''attestation'' = JObj (attestation_of f rd)"
  by (simp_all add: receipt_document_def jget_def section_defs attestation_object_def)

lemma document_objects:
  assumes c: "extends_document (receipt_document f latency work rd) c"
  shows "receipt_objects c = Inr \<lparr>rs_model = canonical_dict (model_of f), rs_runtime = canonical_dict (runtime_of f),
    rs_request = canonical_dict (request_of f), rs_result = canonical_dict (result_of f latency work),
    rs_attestation = canonical_dict (attestation_of f rd)\<rparr>"
proof -
  have get: "jget c ''model'' = jsort (JObj (model_of f))" "jget c ''runtime'' = jsort (JObj (runtime_of f))"
    "jget c ''request'' = jsort (JObj (request_of f))" "jget c ''result'' = jsort (JObj (result_of f latency work))"
    "jget c ''attestation'' = jsort (JObj (attestation_of f rd))"
    by (simp_all add: extends_get [OF c] get_sections del: jsort.simps)
  have "receipt_section c ''model'' model_keys = Inr (canonical_dict (model_of f))"
    "receipt_section c ''runtime'' runtime_keys = Inr (canonical_dict (runtime_of f))"
    "receipt_section c ''request'' request_keys = Inr (canonical_dict (request_of f))"
    "receipt_section c ''result'' result_keys = Inr (canonical_dict (result_of f latency work))"
    "receipt_section c ''attestation'' attestation_keys = Inr (canonical_dict (attestation_of f rd))"
    by ((rule section_read, rule get, (simp add: section_defs section_keys)+)[1])+
  then show ?thesis by (simp add: receipt_objects_def)
qed

definition claims_of :: "receipt_facts \<Rightarrow> dec \<Rightarrow> receipt_claims" where
  "claims_of f w = \<lparr>rl_weights = rf_weights f, rl_image = rf_image f, rl_runner = rf_runner f, rl_input = rf_input f,
     rl_parameters = rf_parameters f, rl_output = rf_output f, rl_input_tokens = rf_input_tokens f,
     rl_output_tokens = rf_output_tokens f, rl_work = w\<rparr>"

lemma read_decimal:
  assumes "canonical_decimal d = Inr s"
  shows "\<exists>e. receipt_decimal (JStr s) l = Inr e \<and> dec_val e = dec_val d"
proof -
  obtain e where e: "decimal_text s = Some e" "dec_val e = dec_val d" using canonical_decimal_value [OF assms] by blast
  have "0 \<le> fst d" using assms by (auto simp: canonical_decimal_def elim!: guardE_InrE)
  then have "0 \<le> dec_val d" by (simp add: dec_val_def)
  then show ?thesis using e by (simp add: receipt_decimal_def guardE_def)
qed

lemma document_body:
  assumes ok: "facts_ok p now di f" and c: "extends_document (receipt_document f latency work rd) c"
    and dec: "canonical_decimal (rf_latency f) = Inr latency" "canonical_decimal (rf_work f) = Inr work"
    and s: "receipt_objects c = Inr s"
  shows "\<exists>w. dec_val w = dec_val (rf_work f) \<and> receipt_body s = Inr (claims_of f w)"
proof -
  obtain w where w: "receipt_decimal (JStr work) ''work_units'' = Inr w" "dec_val w = dec_val (rf_work f)"
    using read_decimal [OF dec(2)] by blast
  obtain e where e: "receipt_decimal (JStr latency) ''latency_ms'' = Inr e" using read_decimal [OF dec(1)] by blast
  have dist: "distinct (map fst (model_of f))" "distinct (map fst (runtime_of f))" "distinct (map fst (request_of f))"
    "distinct (map fst (result_of f latency work))" by (simp_all add: section_defs)
  have gets: "jget (canonical_dict (model_of f)) ''model_id'' = JStr (rf_model f)"
    "jget (canonical_dict (model_of f)) ''weights_digest'' = JStr (rf_weights f)"
    "jget (canonical_dict (model_of f)) ''tokenizer_digest'' = opt_text (rf_tokenizer f)"
    "jget (canonical_dict (runtime_of f)) ''image_digest'' = JStr (rf_image f)"
    "jget (canonical_dict (runtime_of f)) ''runner_digest'' = JStr (rf_runner f)"
    "jget (canonical_dict (request_of f)) ''input_commitment'' = JStr (rf_input f)"
    "jget (canonical_dict (request_of f)) ''parameters_commitment'' = JStr (rf_parameters f)"
    "jget (canonical_dict (result_of f latency work)) ''output_commitment'' = JStr (rf_output f)"
    "jget (canonical_dict (result_of f latency work)) ''input_tokens'' = JInt (rf_input_tokens f)"
    "jget (canonical_dict (result_of f latency work)) ''output_tokens'' = JInt (rf_output_tokens f)"
    "jget (canonical_dict (result_of f latency work)) ''latency_ms'' = JStr latency"
    "jget (canonical_dict (result_of f latency work)) ''work_units'' = JStr work"
    by (simp_all add: jget_canonical dist) (simp_all add: section_defs jget_def opt_text_def split: option.splits)
  have digests: "sha_digest_text (rf_weights f)" "sha_digest_text (rf_image f)" "sha_digest_text (rf_runner f)"
    "sha_digest_text (rf_input f)" "sha_digest_text (rf_parameters f)" "sha_digest_text (rf_output f)"
    "\<forall>s. rf_tokenizer f = Some s \<longrightarrow> sha_digest_text s" using ok by (simp_all add: facts_ok_def)
  have tok: "\<exists>t. (if opt_text (rf_tokenizer f) = JNull then Inr [] else sha_digest (opt_text (rf_tokenizer f)) l) = Inr t" for l
    using digests(7) by (cases "rf_tokenizer f") (simp_all add: opt_text_def sha_digest_def)
  obtain t where t: "(if opt_text (rf_tokenizer f) = JNull then Inr [] else sha_digest (opt_text (rf_tokenizer f)) ''tokenizer digest'') = Inr t"
    using tok by blast
  have nums: "bounded_string (JStr (rf_model f)) l 256 = Inr (rf_model f)" "nonnegative_int (JInt (rf_input_tokens f)) l = Inr (rf_input_tokens f)"
    "nonnegative_int (JInt (rf_output_tokens f)) l = Inr (rf_output_tokens f)" "\<not> 1000000000000 < dec_val w" for l
    using ok w(2) by (auto simp: facts_ok_def name_ok_def natural64_def receipt_values)
  have shas: "sha_digest (JStr x) l = Inr x" if "sha_digest_text x" for x l using that by (simp add: sha_digest_def)
  have "receipt_body s = Inr (claims_of f w)"
    using s unfolding document_objects [OF c] sum.inject receipt_body_def
    by (clarsimp simp only: receipt_sections.simps gets shas [OF digests(1)] shas [OF digests(2)] shas [OF digests(3)]
      shas [OF digests(4)] shas [OF digests(5)] shas [OF digests(6)] nums t w(1) e claims_of_def guardE_def bindE_Inr if_False)
  then show ?thesis using w(2) by blast
qed


section \<open>The attestation of an honest receipt\<close>

text \<open>What the parties agree on: no attestation at all, or a quote over the bindings whose evidence,
  policy and verifier the validator pins.\<close>

definition quote_ok :: "(string \<Rightarrow> bool) \<Rightarrow> receipt_policy \<Rightarrow> receipt_facts \<Rightarrow> disclosures \<Rightarrow> bytes \<Rightarrow> bool" where
  "quote_ok ip p f di report_data =
     (\<exists>b pd verifier v. \<not> unpinned p \<and> length report_data = 64 \<and>
        di_evidence di = Some b \<and> b \<noteq> [] \<and> int (length b) \<le> MAX_ATTESTATION_BYTES \<and> rf_evidence f = Some (sha256_digest b) \<and>
        (\<exists>u. receipt_uri ip (opt_text (rf_uri f)) = Inr u) \<and> rf_policy f = Some pd \<and> sha_digest_text pd \<and> pd \<in> set (rp_policies p) \<and>
        di_verifier di = Some verifier \<and> verifier b report_data pd = Inr v \<and> av_ok v \<and> sha_digest_text (av_verifier v) \<and>
        av_verifier v \<in> set (rp_verifiers p) \<and> (\<forall>m. av_measurement v = Some m \<longrightarrow> sha_digest_text m))"

definition attestable :: "(string \<Rightarrow> bool) \<Rightarrow> receipt_policy \<Rightarrow> receipt_facts \<Rightarrow> disclosures \<Rightarrow> bytes \<Rightarrow> bool" where
  "attestable ip p f di report_data =
     (if rf_kind f = ''none'' then
        rf_evidence f = None \<and> rf_uri f = None \<and> rf_policy f = None \<and> di_evidence di = None \<and> di_verifier di = None \<and>
        \<not> rp_require_attestation p
      else rf_kind f = ''tdx'' \<and> quote_ok ip p f di report_data)"

lemma get_attestation:
  "jget (canonical_dict (attestation_of f rd)) ''kind'' = JStr (rf_kind f)"
  "jget (canonical_dict (attestation_of f rd)) ''evidence_digest'' = opt_text (rf_evidence f)"
  "jget (canonical_dict (attestation_of f rd)) ''evidence_uri'' = opt_text (rf_uri f)"
  "jget (canonical_dict (attestation_of f rd)) ''policy_digest'' = opt_text (rf_policy f)"
  "jget (canonical_dict (attestation_of f rd)) ''report_data_hex'' = jsort rd"
proof -
  have dist: "distinct (map fst (attestation_of f rd))" by (simp add: section_defs)
  show "jget (canonical_dict (attestation_of f rd)) ''kind'' = JStr (rf_kind f)"
    "jget (canonical_dict (attestation_of f rd)) ''evidence_digest'' = opt_text (rf_evidence f)"
    "jget (canonical_dict (attestation_of f rd)) ''evidence_uri'' = opt_text (rf_uri f)"
    "jget (canonical_dict (attestation_of f rd)) ''policy_digest'' = opt_text (rf_policy f)"
    "jget (canonical_dict (attestation_of f rd)) ''report_data_hex'' = jsort rd"
    by (simp_all add: jget_canonical dist) (simp_all add: section_defs jget_def opt_text_def split: option.splits)
qed

lemma report_data_text_hex:
  assumes "length e = 64"
  shows "report_data_text (hex_of e)"
proof -
  have "list_all (\<lambda>x. is_digit x \<or> (97 \<le> code x \<and> code x \<le> 102)) ''0123456789abcdef''" by code_simp
  then have "list_all (\<lambda>x. is_digit x \<or> (97 \<le> code x \<and> code x \<le> 102)) (hex_of e)"
    unfolding list_all_iff using hex_of_chars by blast
  then show ?thesis using assms by (simp add: report_data_text_def)
qed

lemma run_verifier_Inr:
  assumes "verifier b e pd = Inr v" "av_ok v" "sha_digest_text (av_verifier v)" "av_verifier v \<in> set (rp_verifiers p)"
    "\<forall>m. av_measurement v = Some m \<longrightarrow> sha_digest_text m"
  shows "run_verifier p verifier (Some b) e pd = Inr (av_verifier v, av_measurement v)"
  using assms by (auto simp: run_verifier_def guardE_def split: option.splits)

lemma sha_digest_ascii: "is_ascii (sha256_digest m)"
  using hex_of_ascii [of "sha256 m"] unfolding is_ascii_def
  by (auto simp: sha256_digest_def sha256_hex_def code_def)

lemma document_attestation:
  assumes at: "attestable (or_ip env) p f di e" and e: "expected_report_data c = Inr e"
    and rd: "if rf_kind f = ''tdx'' then rd = JStr (hex_of e) else rd = JNull" and auth: "authorized"
  shows "\<exists>v. receipt_attestation env p c (canonical_dict (attestation_of f rd)) authorized di = Inr v \<and>
    (v \<noteq> None \<longleftrightarrow> rf_kind f = ''tdx'')"
proof (cases "rf_kind f = ''none''")
  case True
  then show ?thesis using at rd
    by (simp add: receipt_attestation_def no_attestation_def get_attestation attestable_def opt_text_def guardE_def)
next
  case False
  then have k: "rf_kind f = ''tdx''" and rd: "rd = JStr (hex_of e)" and "quote_ok (or_ip env) p f di e"
    using at rd by (auto simp: attestable_def split: if_splits)
  then obtain b pd verifier v u where u: "\<not> unpinned p" "length e = 64" and b: "di_evidence di = Some b" "b \<noteq> []"
    "\<not> int (length b) > MAX_ATTESTATION_BYTES" "rf_evidence f = Some (sha256_digest b)"
    and uri: "receipt_uri (or_ip env) (opt_text (rf_uri f)) = Inr u" and pd: "rf_policy f = Some pd" "sha_digest_text pd" "pd \<in> set (rp_policies p)"
    and v: "di_verifier di = Some verifier" "verifier b e pd = Inr v" "av_ok v" "sha_digest_text (av_verifier v)"
    "av_verifier v \<in> set (rp_verifiers p)" "\<forall>m. av_measurement v = Some m \<longrightarrow> sha_digest_text m"
    unfolding quote_ok_def not_less by blast
  have hexed: "compare_digest (hex_of e) (hex_of e) = Inr True" by (simp add: compare_digest_def)
  have ev: "check_evidence (Some b) (sha256_digest b) = Inr ()"
    using b by (simp add: check_evidence_def guardE_def compare_digest_def sha_digest_ascii)
  have ed: "sha_digest (opt_text (rf_evidence f)) l = Inr (sha256_digest b)" "sha_digest (opt_text (rf_policy f)) l = Inr pd" for l
    using b(4) pd sha_digest_text_sha(1) [of b] by (simp_all add: opt_text_def sha_digest_def)
  note run = run_verifier_Inr [where verifier = verifier and b = b and e = e and pd = pd and v = v, OF v(2-6)]
  have "tdx_attestation env p c (canonical_dict (attestation_of f rd)) di = Inr (Some (av_verifier v, av_measurement v))"
    using u pd(3) report_data_text_hex [OF u(2)] unfolding tdx_attestation_def get_attestation rd
    by (simp add: ed uri e hexed ev b(1) v(1) run guardE_def)
  then show ?thesis using k auth by (simp add: receipt_attestation_def get_attestation guardE_def)
qed


section \<open>Signing\<close>

lemma chomp_canonical: "chomp (canonical_json d) = canonical_json d"
proof -
  have "last (dumps (JObj d)) = CHR ''}''" by (simp only: dumps_obj) simp
  moreover have "dumps (JObj d) \<noteq> []" by (simp only: dumps_obj) simp
  ultimately have "last (canonical_json d) = byte_of CHR ''}''" by (simp add: canonical_json_def canonical_bytes_def last_map)
  then show ?thesis by (simp add: chomp_def byte_of_def code_def)
qed

lemma verify_authorization_Inr:
  assumes "jget c ''request_authorization'' = jsort (signature_object ''sr25519'' sig)" "length sig = 64"
    and "authorization_message c = Inr m" "or_sr env (str_field c ''validator_hotkey'') m sig = Some True"
  shows "verify_request_authorization env c = Inr True"
proof -
  have s: "jsort (signature_object ''sr25519'' sig) = signature_object ''sr25519'' sig"
    by (simp add: signature_object_def sort_items_def)
  have k: "keys_are [(''algorithm'', JStr ''sr25519''), (''value_base64'', JStr (b64encode sig))] signature_keys"
    by (auto simp: keys_are_def signature_keys_def)
  have j: "jget [(''algorithm'', JStr ''sr25519''), (''value_base64'', JStr (b64encode sig))] ''algorithm'' = JStr ''sr25519''"
    "jget [(''algorithm'', JStr ''sr25519''), (''value_base64'', JStr (b64encode sig))] ''value_base64'' = JStr (b64encode sig)"
    by (simp_all add: jget_def)
  have ra: "jget c ''request_authorization'' = JObj [(''algorithm'', JStr ''sr25519''), (''value_base64'', JStr (b64encode sig))]"
    using assms(1) unfolding s by (simp add: signature_object_def)
  show ?thesis unfolding verify_request_authorization_def ra json.case require_exact_keys_def
    using k assms(2-4) by (simp add: j authorization_signature_def b64decode_or_def b64decode_encode)
qed

lemma str_field_get: "jget d k = JStr s \<Longrightarrow> str_field d k = s"
  by (simp add: str_field_def jget_def py_str_def split: option.splits)

text \<open>The validator's authorization of a made receipt.\<close>

lemma authorization_applies:
  assumes made: "d = receipt_document f latency work rd" and nums: "strict_ok (JObj d)"
    and auth: "sign_request_authorization d key = Inr auth" "int (length auth) \<le> 16384"
    and law: "\<And>m sig. kp_sign key m = Some sig \<Longrightarrow> or_sr env (kp_address key) m sig = Some True"
  shows "\<exists>sig m. length sig = 64 \<and> authorization_message d = Inr m \<and> or_sr env (rf_validator f) m sig = Some True \<and>
    apply_request_authorization env d auth =
      Inr (dict_set ''request_authorization'' (jsort (signature_object ''sr25519'' sig)) d)"
proof -
  note get = get_document [of f latency work rd, folded made]
  have name: "str_field d ''validator_hotkey'' = rf_validator f" by (rule str_field_get [OF get(6)])
  let ?file = "\<lambda>sig. [(''schema'', JStr ''cathedral_ml_request_authorization_v1''), (''request_id'', jget d ''request_id''),
        (''validator_hotkey'', JStr (rf_validator f)), (''miner_hotkey'', jget d ''miner_hotkey''),
        (''signature'', signature_object ''sr25519'' sig)]"
  have "\<exists>m sig. authorization_message d = Inr m \<and> kp_sign key m = Some sig \<and> length sig = 64 \<and>
      kp_address key = rf_validator f \<and> auth = canonical_json (?file sig)"
    using auth(1) unfolding sign_request_authorization_def Let_def name
    by (elim guardE_InrE) (auto split: sum.splits option.splits elim!: guardE_InrE bindE_InrE)
  then obtain m sig where m: "authorization_message d = Inr m" "kp_sign key m = Some sig" "length sig = 64"
    and addr: "kp_address key = rf_validator f" and raw: "auth = canonical_json (?file sig)" by blast
  let ?a = "[(''schema'', JStr ''cathedral_ml_request_authorization_v1''), (''request_id'', jget d ''request_id''),
        (''validator_hotkey'', JStr (rf_validator f)), (''miner_hotkey'', jget d ''miner_hotkey''),
        (''signature'', signature_object ''sr25519'' sig)]"
  let ?d = "dict_set ''request_authorization'' (jsort (signature_object ''sr25519'' sig)) d"
  have "strict_ok (JObj ?a)" by (simp add: get signature_object_def)
  from parse_canonical_dict [OF this auth(2) [unfolded raw]]
  have parse: "parse_strict_json (chomp auth) 16384 = Inr (canonical_dict ?a)" by (simp add: raw chomp_canonical)
  have dist: "distinct (map fst ?a)" by simp
  have geta: "jget (canonical_dict ?a) ''schema'' = JStr ''cathedral_ml_request_authorization_v1''"
    "jget (canonical_dict ?a) ''request_id'' = jget d ''request_id''" "jget (canonical_dict ?a) ''validator_hotkey'' = jget d ''validator_hotkey''"
    "jget (canonical_dict ?a) ''miner_hotkey'' = jget d ''miner_hotkey''"
    "jget (canonical_dict ?a) ''signature'' = jsort (signature_object ''sr25519'' sig)"
    by (simp_all add: jget_canonical [OF dist]) (simp_all add: get jget_def [of ?a] jget_def [of "_ # _"])
  have keys: "keys_are (canonical_dict ?a) authorization_file_keys"
    by (auto simp: keys_are_def authorization_file_keys_def)
  have canon: "chomp auth = canonical_json (canonical_dict ?a)" by (simp add: raw chomp_canonical canonical_json_dict)
  have "authorization_message ?d = Inr m"
    using m(1) by (subst authorization_dict_set) (simp_all add: authorization_keys_def)
  moreover have "or_sr env (rf_validator f) m sig = Some True" using law [OF m(2)] addr by simp
  moreover have "str_field ?d ''validator_hotkey'' = rf_validator f"
    by (rule str_field_get) (simp add: jget_dict_set get)
  ultimately have v: "verify_request_authorization env ?d = Inr True"
    using m(3) by (intro verify_authorization_Inr [where sig = sig and m = m]) (simp_all add: jget_dict_set)
  have same: "same_value x x" for x by (cases x) (simp_all add: same_value_def)
  have passed: "(chomp auth \<noteq> canonical_json (canonical_dict ?a)) = False" "(\<not> keys_are (canonical_dict ?a) authorization_file_keys) = False"
    using canon keys by simp_all
  have "apply_request_authorization env d auth = Inr ?d"
    unfolding apply_request_authorization_def parse bindE_Inr require_exact_keys_def matches_document_def passed guardE_simps geta
    by (simp add: same get(13) v guardE_def)
  then show ?thesis using m addr law [OF m(2)] by auto
qed


lemma receipt_proof_Inr:
  assumes "jget c ''receipt_id'' = JStr (receipt_id_for c)" "jget c ''signature'' = jsort (signature_object ''sr25519'' sig)"
    and "length sig = 64" "or_sr env miner (receipt_message c) sig = Some True"
  shows "receipt_proof env c miner = Inr (receipt_id_for c)"
proof -
  have "sha_digest_text (receipt_id_for c)" unfolding receipt_id_for_def by (rule sha_digest_text_sha)
  then show ?thesis by (simp add: receipt_proof_def assms sha_digest_def signature_bytes_object)
qed

lemma facts_strict:
  assumes "facts_ok p now di f" "rd = JNull \<or> (\<exists>s. rd = JStr s)"
  shows "strict_ok (JObj (receipt_document f latency work rd))"
proof -
  have "int64 n" if "natural64 n" for n using that by (auto simp: int64_def natural64_def)
  moreover have "natural64 (rf_netuid f)" "natural64 (rf_epoch f)" "natural64 (rf_first f)" "natural64 (rf_last f)"
    "natural64 (rf_input_tokens f)" "natural64 (rf_output_tokens f)" using assms(1) unfolding facts_ok_def by blast+
  moreover have "strict_ok (opt_text v)" for v by (cases v) (simp_all add: opt_text_def)
  ultimately show ?thesis using assms(2) by (auto simp: receipt_document_def attestation_object_def)
qed

lemma document_bindings:
  assumes ok: "facts_ok p now di f" and h: "receipt_header p c = Inr h" and c: "extends_document (receipt_document f l w rd) c"
    and auth: "verify_request_authorization env c = Inr True"
  shows "receipt_bindings env c h (claims_of f work) di = Inr True"
proof -
  have ascii: "is_ascii (request_id_for n u e v m nonce i q)" for n u e v m nonce i q
    using sha_digest_ascii by (simp add: request_id_for_def prefixed_digest_def sha256_digest_def)
  show ?thesis using ok h auth unfolding document_header [OF ok c]
    by (auto simp: receipt_bindings_def claims_of_def compare_digest_def ascii facts_ok_def guardE_def)
qed

text \<open>A receipt of honest facts, authorized and signed, verifies.\<close>

lemma signed_receipt_verifies:
  assumes ok: "facts_ok p now di f" and made: "make_unsigned_receipt f = Inr d"
    and auth: "sign_request_authorization d vkey = Inr auth" "int (length auth) \<le> 16384"
    and vlaw: "\<And>m sig. kp_sign vkey m = Some sig \<Longrightarrow> or_sr env (kp_address vkey) m sig = Some True"
    and mlaw: "\<And>m sig. kp_sign mkey m = Some sig \<Longrightarrow> or_sr env (kp_address mkey) m sig = Some True"
    and signed: "apply_request_authorization env d auth = Inr d'" "sign_receipt d' mkey = Inr raw" "int (length raw) \<le> MAX_RECEIPT_BYTES"
    and e: "expected_report_data d = Inr e" and at: "attestable (or_ip env) p f di e"
  shows "\<exists>r. verify_receipt env raw p now di = Inr r \<and> ve_receipt_id r = receipt_id_for d' \<and> ve_miner r = rf_miner f \<and>
    ve_epoch r = rf_epoch f \<and> parse_time (JStr (rf_completed f)) [] = Inr (ve_completed r) \<and> dec_val (ve_work r) = dec_val (rf_work f) \<and> ve_input_tokens r = rf_input_tokens f \<and>
    ve_output_tokens r = rf_output_tokens f \<and> ve_attested r = (rf_kind f = ''tdx'')"
proof -
  obtain latency work rd where d: "d = receipt_document f latency work rd"
    and dec: "canonical_decimal (rf_latency f) = Inr latency" "canonical_decimal (rf_work f) = Inr work"
    and rd: "if rf_kind f = ''tdx'' then rd = JStr (hex_of e) else rd = JNull"
    using made_document [OF made] e by (auto split: if_splits)
  note get = get_document [of f latency work rd, folded d]
  have strict: "strict_ok (JObj d)" unfolding d by (rule facts_strict [OF ok]) (use rd in \<open>auto split: if_splits\<close>)
  obtain asig m where a: "length asig = 64" "authorization_message d = Inr m" "or_sr env (rf_validator f) m asig = Some True"
    and d': "d' = dict_set ''request_authorization'' (jsort (signature_object ''sr25519'' asig)) d"
    using authorization_applies [OF d strict auth vlaw] signed(1) by auto
  define d1 where "d1 = dict_set ''receipt_id'' (JStr (receipt_id_for d')) d'"
  have miner: "str_field d' ''miner_hotkey'' = rf_miner f"
    by (rule str_field_get) (simp add: d' jget_dict_set get)
  obtain sig where sig: "kp_sign mkey (receipt_message d1) = Some sig" "length sig = 64" "kp_address mkey = rf_miner f"
    and raw: "raw = canonical_json (dict_set ''signature'' (signature_object ''sr25519'' sig) d1)"
    using signed(2) unfolding sign_receipt_def Let_def miner d1_def [symmetric]
    by (auto elim!: guardE_InrE split: option.splits)
  define d2 where "d2 = dict_set ''signature'' (signature_object ''sr25519'' sig) d1"
  define c where "c = canonical_dict d2"
  note raw' = raw [folded d2_def]
  have sobj: "jsort (signature_object ''sr25519'' asig) = signature_object ''sr25519'' asig"
    by (simp add: signature_object_def sort_items_def)
  have strict2: "strict_ok (JObj d2)" unfolding d2_def d1_def d' sobj
    by (intro strict_dict_set strict) (simp_all add: signature_object_def)
  have parse: "parse_strict_json (chomp raw) MAX_RECEIPT_BYTES = Inr c"
    unfolding c_def raw' chomp_canonical by (rule parse_canonical_dict [OF strict2 signed(3) [unfolded raw']])
  have canon: "(chomp raw \<noteq> canonical_json c) = False" by (simp add: raw' c_def canonical_json_dict chomp_canonical)
  have keys: "(\<not> keys_are c receipt_keys) = False"
    by (auto simp: keys_are_def c_def d2_def d1_def d' d receipt_document_def receipt_keys_def)
  have dist: "distinct (map fst d2)" using strict2 by simp
  have getc: "jget c k = jsort (jget d2 k)" for k unfolding c_def by (rule jget_canonical [OF dist])
  have ext: "extends_document (receipt_document f latency work rd) c"
    unfolding extends_document_def d [symmetric] by (simp add: getc d2_def d1_def d' jget_dict_set)
  have msg: "receipt_message c = receipt_message d1" "receipt_id_for c = receipt_id_for d'"
    by (simp_all add: c_def d2_def d1_def receipt_bodies_canonical receipt_bodies_signed)
  have getid: "jget d1 ''receipt_id'' = JStr (receipt_id_for d')" by (simp add: d1_def jget_dict_set)
  have proved: "receipt_proof env c (rf_miner f) = Inr (receipt_id_for d')"
    unfolding msg(2) [symmetric]
    by (rule receipt_proof_Inr [where sig = sig])
      (use mlaw [OF sig(1)] sig(2,3) getid in \<open>simp_all add: getc d2_def jget_dict_set msg\<close>)
  have dm: "authorization_message c = Inr m" unfolding c_def
    by (rule authorization_canonical [OF dist])
      (simp add: d2_def d1_def d' authorization_dict_set authorization_keys_def a(2))
  have de: "expected_report_data c = Inr e" unfolding c_def
    by (rule report_data_canonical [OF dist])
      (simp add: d2_def d1_def d' report_data_dict_set identity_keys_def execution_keys_def e)
  have va: "verify_request_authorization env c = Inr True"
    by (rule verify_authorization_Inr [where sig = asig and m = m])
      (use a in \<open>simp_all add: dm getc d2_def d1_def d' jget_dict_set sobj str_field_get [where s = "rf_validator f"] get\<close>)
  note h = document_header [OF ok ext]
  obtain completed where t: "receipt_times p c now = Inr completed" and finished: "parse_time (JStr (rf_completed f)) [] = Inr completed"
    using document_times [OF ok ext] by blast
  note s = document_objects [OF ext]
  obtain w where w: "dec_val w = dec_val (rf_work f)" and b: "receipt_body \<lparr>rs_model = canonical_dict (model_of f),
      rs_runtime = canonical_dict (runtime_of f), rs_request = canonical_dict (request_of f),
      rs_result = canonical_dict (result_of f latency work), rs_attestation = canonical_dict (attestation_of f rd)\<rparr> = Inr (claims_of f w)"
    using document_body [OF ok ext dec s] by blast
  note bind = document_bindings [OF ok h ext va, of w]
  have allowed: "receipt_allowed p (claims_of f w) = Inr ()"
    using ok by (auto simp: facts_ok_def receipt_allowed_def allowed_in_def claims_of_def guardE_def)
  obtain v where v: "receipt_attestation env p c (canonical_dict (attestation_of f rd)) True di = Inr v" "v \<noteq> None \<longleftrightarrow> rf_kind f = ''tdx''"
    using document_attestation [OF at de rd, of True] by blast
  have vp: "validate_policy p = Inr ()" using ok by (simp add: facts_ok_def)
  show ?thesis
    unfolding verify_receipt_def vp parse bindE_Inr canon keys guardE_simps require_exact_keys_def h t s b bind allowed
    using v(2) finished by (simp add: proved v(1) w claims_of_def)
qed

end
