(* ===== verification/Ml_Receipts.thy ===== *)
theory Ml_Receipts
  imports Ml_Protocol Score_Delegation
begin

text \<open>
  The properties of one receipt of \<open>cathedral_thin/ml_receipts.py\<close>: what an accepted receipt
  guarantees, and that an honest exchange yields an accepted receipt.
\<close>

section \<open>A concrete exchange\<close>

fun json_bound :: "json \<Rightarrow> nat" where
  "json_bound (JStr s) = 6 * length s + 2"
| "json_bound (JInt n) = length (int_str n)"
| "json_bound (JArr vs) = 2 + (\<Sum>v \<leftarrow> vs. Suc (json_bound v))"
| "json_bound (JObj kvs) = 2 + (\<Sum>(k, v) \<leftarrow> kvs. 6 * length k + json_bound v + 4)"
| "json_bound v = length (dumps v)"

lemma dumps_length: "length (dumps v) \<le> json_bound v"
proof (induction v rule: json_bound.induct)
  case (1 s)
  then show ?case using quote_length [of s] by simp
next
  case (3 vs)
  have "length (join_with '','' (map dumps vs)) \<le> (\<Sum>v \<leftarrow> vs. Suc (json_bound v))"
    by (rule order_trans [OF join_length]) (use 3 in \<open>auto intro!: sum_list_mono simp: comp_def\<close>)
  then show ?case by simp
next
  case (4 kvs)
  have "Suc (length (dump_item kv)) \<le> 6 * length (fst kv) + json_bound (snd kv) + 4" if "kv \<in> set kvs" for kv
    using 4 [of kv "fst kv" "snd kv"] that quote_length [of "fst kv"] by (auto simp: dump_item_def case_prod_unfold)
  then have "(\<Sum>kv \<leftarrow> kvs. Suc (length (dump_item kv))) \<le> (\<Sum>(k, v) \<leftarrow> kvs. 6 * length k + json_bound v + 4)"
    by (auto intro!: sum_list_mono simp: case_prod_unfold)
  moreover have "length (join_with '','' (map dump_item (sort_items kvs))) \<le> (\<Sum>kv \<leftarrow> kvs. Suc (length (dump_item kv)))"
    using join_length [of "map dump_item (sort_items kvs)"] sum_sort_items [of "\<lambda>kv. Suc (length (dump_item kv))" kvs]
    by (simp add: comp_def)
  ultimately show ?case by (simp add: dumps_obj del: dumps.simps)
qed simp_all

lemma canonical_json_bound: "length (canonical_json d) \<le> json_bound (JObj d)"
  using dumps_length [of "JObj d"] by (simp add: canonical_json_def canonical_bytes_def del: dumps.simps json_bound.simps)

text \<open>Two slots: the request of epoch 3, and a later one of epoch 4.\<close>

definition demo_epoch :: "bool \<Rightarrow> int" where "demo_epoch later = (if later then 4 else 3)"
definition demo_time :: "bool \<Rightarrow> string" where
  "demo_time later = (if later then ''2026-01-01T00:00:05.000000Z'' else ''2026-01-01T00:00:00.000000Z'')"
definition demo_moment :: "bool \<Rightarrow> int" where "demo_moment later = (if later then demo_now + 5000000 else demo_now)"

definition demo_facts :: "bool \<Rightarrow> receipt_facts" where
  "demo_facts later = \<lparr>rf_network = ''n'', rf_netuid = 39, rf_epoch = demo_epoch later, rf_validator = ''v'', rf_miner = ''m'',
     rf_nonce = replicate 32 0, rf_issued = demo_time later, rf_completed = demo_time later, rf_first = 0, rf_last = 50,
     rf_model = ''g'', rf_weights = demo_zeros, rf_tokenizer = None, rf_image = demo_zeros, rf_runner = demo_zeros,
     rf_input = demo_zeros, rf_parameters = demo_zeros, rf_output = demo_zeros, rf_input_tokens = 5, rf_output_tokens = 8,
     rf_latency = (150, 1), rf_work = (2500, 3), rf_kind = ''tdx'', rf_evidence = Some (sha256_digest [1]), rf_uri = None,
     rf_policy = Some demo_zeros\<rparr>"

definition demo_receipt_policy :: receipt_policy where
  "demo_receipt_policy = \<lparr>rp_network = ''n'', rp_netuid = 39, rp_block = 7, rp_max_age = 100, rp_max_future = 10, rp_max_span = 100,
     rp_require_attestation = True, rp_expected_validator = Some ''v'', rp_models = [demo_zeros], rp_images = [demo_zeros],
     rp_runners = [demo_zeros], rp_policies = [demo_zeros], rp_verifiers = [demo_zeros]\<rparr>"

definition demo_verifier :: attestation_verifier where
  "demo_verifier b e pd = Inr \<lparr>av_ok = (length e = 64), av_verifier = demo_zeros, av_measurement = None, av_reason = []\<rparr>"

definition demo_disclosures :: disclosures where
  "demo_disclosures = \<lparr>di_input = None, di_parameters = None, di_output = None, di_evidence = Some [1], di_verifier = Some demo_verifier\<rparr>"

definition demo_ml_world :: world where
  "demo_ml_world = demo_world\<lparr>or_sr := \<lambda>addr m sig. Some (sig = demo_sign m)\<rparr>"

definition demo_key :: "string \<Rightarrow> keypair" where
  "demo_key address = \<lparr>kp_address = address, kp_sign = \<lambda>m. Some (demo_sign m)\<rparr>"

lemma demo_zeros_ok: "sha_digest_text demo_zeros" by code_simp

lemma demo_slot:
  "parse_time (JStr (demo_time later)) l = Inr (demo_moment later)" "natural64 (demo_epoch later)"
  "length (int_str (demo_epoch later)) = 1" "length (demo_time later) = 27"
  "- 10 \<le> elapsed_seconds demo_now (demo_moment later)" "elapsed_seconds demo_now (demo_moment later) \<le> 100"
proof -
  have "time_shape ''2026-01-01T00:00:05.000000Z''" "time_value ''2026-01-01T00:00:05.000000Z'' = Some (demo_now + 5000000)"
    by code_simp+
  then have "parse_time (JStr ''2026-01-01T00:00:05.000000Z'') l = Inr (demo_now + 5000000)" by (simp add: parse_time_def)
  then show "parse_time (JStr (demo_time later)) l = Inr (demo_moment later)"
    using demo_times(1) by (simp add: demo_time_def demo_moment_def)
  show "natural64 (demo_epoch later)" by (simp add: demo_epoch_def natural64_def)
  have "length (int_str 3) = 1" "length (int_str 4) = 1" by code_simp+
  then show "length (int_str (demo_epoch later)) = 1" by (simp add: demo_epoch_def)
  show "length (demo_time later) = 27" by (simp add: demo_time_def)
  have "fl_rat (- 5) = - 5" using fl_rat_int [of "- 5"] by simp
  then show "- 10 \<le> elapsed_seconds demo_now (demo_moment later)" "elapsed_seconds demo_now (demo_moment later) \<le> 100"
    by (simp_all add: elapsed_seconds_def demo_moment_def)
qed

lemma demo_facts_ok: "facts_ok demo_receipt_policy (Some demo_now) demo_disclosures (demo_facts later)"
proof -
  have "validate_policy demo_receipt_policy = Inr ()"
    using demo_zeros_ok by (simp add: validate_policy_def demo_receipt_policy_def positive_bound_def all_digests_def unpinned_def guardE_def)
  moreover have "name_ok ''n'' 128" "name_ok ''v'' 128" "name_ok ''m'' 128" "name_ok ''g'' 256" by code_simp+
  moreover have "\<exists>t issued completed. Some demo_now = Some t \<and> (\<forall>l. parse_time (JStr (rf_issued (demo_facts later))) l = Inr issued) \<and>
      (\<forall>l. parse_time (JStr (rf_completed (demo_facts later))) l = Inr completed) \<and> issued \<le> completed \<and>
      of_int (- rp_max_future demo_receipt_policy) \<le> elapsed_seconds t completed \<and>
      elapsed_seconds t completed \<le> of_int (rp_max_age demo_receipt_policy)"
    using demo_slot(1,5,6)
    by (intro exI [of _ demo_now] exI [of _ "demo_moment later"]) (simp add: demo_facts_def demo_receipt_policy_def)
  ultimately show ?thesis
    using demo_zeros_ok demo_slot(2) unfolding facts_ok_def
    by (simp add: demo_facts_def demo_receipt_policy_def natural64_def demo_disclosures_def check_reveal_def dec_val_def)
qed

lemma demo_made:
  "\<exists>d e. make_unsigned_receipt (demo_facts later) = Inr d \<and> expected_report_data d = Inr e \<and> length e = 64 \<and>
     d = receipt_document (demo_facts later) ''15'' ''2.5'' (JStr (hex_of e))"
proof -
  have "canonical_decimal (150, 1) = Inr ''15''" "canonical_decimal (2500, 3) = Inr ''2.5''" by code_simp+
  moreover have "rf_latency (demo_facts later) = (150, 1)" "rf_work (demo_facts later) = (2500, 3)" by (simp_all add: demo_facts_def)
  ultimately have dec: "canonical_decimal (rf_latency (demo_facts later)) = Inr ''15''" "canonical_decimal (rf_work (demo_facts later)) = Inr ''2.5''"
    by (simp_all only:)
  have kind: "(rf_kind (demo_facts later) = ''tdx'') = True" by (simp add: demo_facts_def)
  let ?d = "receipt_document (demo_facts later) ''15'' ''2.5'' JNull"
  have "set identity_keys \<subseteq> fst ` set ?d" "set execution_keys \<subseteq> fst ` set ?d"
    by (simp_all add: identity_keys_def execution_keys_def receipt_document_def)
  then obtain i x where "pick identity_keys ?d = Inr i" "pick execution_keys ?d = Inr x" by (meson pick_total)
  then obtain e where e: "expected_report_data ?d = Inr e" "length e = 64" by (auto simp: expected_report_data_def)
  have "make_unsigned_receipt (demo_facts later) = Inr (receipt_document (demo_facts later) ''15'' ''2.5'' (JStr (hex_of e)))"
    unfolding make_unsigned_receipt_eq dec bindE_Inr kind if_True e(1) by (rule refl)
  moreover have "expected_report_data (receipt_document (demo_facts later) ''15'' ''2.5'' (JStr (hex_of e))) = Inr e"
    using e(1) document_report_data by metis
  ultimately show ?thesis using e(2) by blast
qed


lemma demo_attestable:
  "length e = 64 \<Longrightarrow> attestable (or_ip demo_ml_world) demo_receipt_policy (demo_facts later) demo_disclosures e"
  using demo_zeros_ok
  by (simp add: attestable_def quote_ok_def demo_facts_def demo_receipt_policy_def demo_disclosures_def demo_verifier_def unpinned_def
    MAX_ATTESTATION_BYTES_def receipt_uri_def opt_text_def)

lemma demo_document_bound:
  assumes "length e = 64"
  shows "json_bound (JObj (receipt_document (demo_facts later) ''15'' ''2.5'' (JStr (hex_of e)))) \<le> 20000"
proof -
  have "length (request_id_for n u x v m k i q) = 71" for n u x v m k i q by (simp add: request_id_for_def prefixed_digest_def)
  moreover have "length (sha256_digest b) = 71" for b by (simp add: sha256_digest_def)
  moreover have "length demo_zeros = 71" by (simp add: demo_zeros_def)
  moreover have "length (b64encode (replicate 32 0)) = 44" by code_simp
  moreover have "length (int_str 39) = 2" "length (int_str 0) = 1" "length (int_str 50) = 2"
    "length (int_str 5) = 1" "length (int_str 8) = 1" by code_simp+
  moreover have "length (int_str (demo_epoch later)) = 1" "length (demo_time later) = 27" by (rule demo_slot)+
  moreover have "length (hex_of e) = 128" using assms by simp
  ultimately show ?thesis
    by (simp add: receipt_document_def demo_facts_def attestation_object_def opt_text_def)
qed


lemma demo_signature_bound: "json_bound (signature_object ''sr25519'' (demo_sign m)) \<le> 1000"
proof -
  have "length (b64encode (demo_sign m)) = 88" by (simp add: length_b64encode)
  then show ?thesis by (simp add: signature_object_def)
qed

lemma json_bound_set: "json_bound (JObj (dict_set k v d)) \<le> json_bound (JObj d) + (6 * length k + json_bound v + 4)"
  by (induction k v d rule: dict_set.induct) auto

text \<open>The exchange: the miner's facts, the validator's authorization, the miner's signature.\<close>

definition demo_exchange :: "bool \<Rightarrow> jdict \<Rightarrow> bytes \<Rightarrow> jdict \<Rightarrow> bytes \<Rightarrow> bytes \<Rightarrow> bool" where
  "demo_exchange later d auth d' raw e =
     (make_unsigned_receipt (demo_facts later) = Inr d \<and> sign_request_authorization d (demo_key ''v'') = Inr auth \<and>
      int (length auth) \<le> 16384 \<and> apply_request_authorization demo_ml_world d auth = Inr d' \<and>
      sign_receipt d' (demo_key ''m'') = Inr raw \<and> int (length raw) \<le> MAX_RECEIPT_BYTES \<and>
      expected_report_data d = Inr e \<and> length e = 64)"

lemma demo_key_law: "kp_sign (demo_key a) m = Some sig \<Longrightarrow> or_sr demo_ml_world (kp_address (demo_key a)) m sig = Some True"
  by (simp add: demo_key_def demo_ml_world_def)

lemma demo_receipt_exchange: "\<exists>d auth d' raw e. demo_exchange later d auth d' raw e"
proof -
  obtain d e where d: "make_unsigned_receipt (demo_facts later) = Inr d" "expected_report_data d = Inr e" "length e = 64"
    "d = receipt_document (demo_facts later) ''15'' ''2.5'' (JStr (hex_of e))" using demo_made by blast
  note get = get_document [of "demo_facts later" "''15''" "''2.5''" "JStr (hex_of e)", folded d(4)]
  have "set authorization_keys \<subseteq> fst ` set d" by (simp add: authorization_keys_def d(4) receipt_document_def)
  then obtain b where "pick authorization_keys d = Inr b" by (meson pick_total)
  then obtain m where m: "authorization_message d = Inr m" by (simp add: authorization_message_def request_authorization_body_def)
  have names: "rf_validator (demo_facts later) = ''v''" "rf_miner (demo_facts later) = ''m''" by (simp_all add: demo_facts_def)
  let ?a = "[(''schema'', JStr ''cathedral_ml_request_authorization_v1''), (''request_id'', jget d ''request_id''),
        (''validator_hotkey'', JStr ''v''), (''miner_hotkey'', jget d ''miner_hotkey''),
        (''signature'', signature_object ''sr25519'' (demo_sign m))]"
  have auth: "sign_request_authorization d (demo_key ''v'') = Inr (canonical_json ?a)"
    using str_field_get [OF get(6)] by (simp add: sign_request_authorization_def names m demo_key_def)
  have "length (request_id_for n u x v w k i q) = 71" for n u x v w k i q by (simp add: request_id_for_def prefixed_digest_def)
  then have "json_bound (JObj ?a) \<le> 16384" using demo_signature_bound [of m] by (simp add: get names)
  then have len: "int (length (canonical_json ?a)) \<le> 16384" using canonical_json_bound [of ?a] by linarith
  have strict: "strict_ok (JObj d)" unfolding d(4) by (rule facts_strict [OF demo_facts_ok]) simp
  obtain sig where sig: "length sig = 64" "apply_request_authorization demo_ml_world d (canonical_json ?a) =
      Inr (dict_set ''request_authorization'' (jsort (signature_object ''sr25519'' sig)) d)"
    using authorization_applies [OF d(4) strict auth len demo_key_law] by blast
  let ?d = "dict_set ''request_authorization'' (jsort (signature_object ''sr25519'' sig)) d"
  have miner: "str_field ?d ''miner_hotkey'' = ''m''"
    by (rule str_field_get) (simp add: jget_dict_set get names)
  have fresh: "''receipt_id'' \<notin> fst ` set ?d" "''signature'' \<notin> fst ` set ?d"
    by (auto simp: d(4) receipt_document_def)
  let ?d1 = "dict_set ''receipt_id'' (JStr (receipt_id_for ?d)) ?d"
  let ?d2 = "dict_set ''signature'' (signature_object ''sr25519'' (demo_sign (receipt_message ?d1))) ?d1"
  have signed: "sign_receipt ?d (demo_key ''m'') = Inr (canonical_json ?d2)"
    using fresh by (simp add: sign_receipt_def miner demo_key_def Let_def)
  have sobj: "jsort (signature_object ''sr25519'' sig) = signature_object ''sr25519'' sig"
    by (simp add: signature_object_def sort_items_def)
  have "length (b64encode sig) = 88" using length_b64encode [of sig] sig(1) by simp
  then have sb: "json_bound (signature_object ''sr25519'' sig) \<le> 1000" by (simp add: signature_object_def)
  have rb: "json_bound (JStr (receipt_id_for ?d)) \<le> 1000" by (simp add: receipt_id_for_def prefixed_digest_def)
  have "json_bound (JObj ?d2) \<le> json_bound (JObj d) + 3500"
    using json_bound_set [of "''signature''" "signature_object ''sr25519'' (demo_sign (receipt_message ?d1))" ?d1]
      json_bound_set [of "''receipt_id''" "JStr (receipt_id_for ?d)" ?d]
      json_bound_set [of "''request_authorization''" "jsort (signature_object ''sr25519'' sig)" d]
      demo_signature_bound [of "receipt_message ?d1"] rb sb unfolding sobj by (simp del: json_bound.simps)
  then have "int (length (canonical_json ?d2)) \<le> MAX_RECEIPT_BYTES"
    using demo_document_bound [OF d(3), of later] canonical_json_bound [of ?d2] unfolding d(4) [symmetric] MAX_RECEIPT_BYTES_def by linarith
  then have "demo_exchange later d (canonical_json ?a) ?d (canonical_json ?d2) e"
    using d auth len sig(2) signed by (simp add: demo_exchange_def del: dict_set.simps)
  then show ?thesis by blast
qed

section \<open>Properties\<close>

text \<open>C31. An honest exchange ends in an accepted receipt: a receipt made from facts the validator's policy
  admits, carrying the authorization signed by that validator's key and signed by the miner's key, verifies, with or without
  an attestation, and credits the miner with exactly the facts that went in.\<close>

theorem honest_receipt_verifies:
  "facts_ok p now di f \<Longrightarrow> make_unsigned_receipt f = Inr d \<Longrightarrow>
   sign_request_authorization d vkey = Inr auth \<Longrightarrow> int (length auth) \<le> 16384 \<Longrightarrow>
   (\<And>m sig. kp_sign vkey m = Some sig \<Longrightarrow> or_sr env (kp_address vkey) m sig = Some True) \<Longrightarrow>
   (\<And>m sig. kp_sign mkey m = Some sig \<Longrightarrow> or_sr env (kp_address mkey) m sig = Some True) \<Longrightarrow>
   apply_request_authorization env d auth = Inr d' \<Longrightarrow> sign_receipt d' mkey = Inr raw \<Longrightarrow>
   int (length raw) \<le> MAX_RECEIPT_BYTES \<Longrightarrow> expected_report_data d = Inr e \<Longrightarrow> attestable (or_ip env) p f di e \<Longrightarrow>
   \<exists>r. verify_receipt env raw p now di = Inr r \<and> ve_receipt_id r = receipt_id_for d' \<and> ve_miner r = rf_miner f \<and>
     ve_epoch r = rf_epoch f \<and> parse_time (JStr (rf_completed f)) [] = Inr (ve_completed r) \<and> dec_val (ve_work r) = dec_val (rf_work f) \<and> ve_input_tokens r = rf_input_tokens f \<and>
     ve_output_tokens r = rf_output_tokens f \<and> ve_attested r = (rf_kind f = ''tdx'')"
  by (rule signed_receipt_verifies)

theorem honest_receipt_verifies_witness:
  "\<exists>raw r. verify_receipt demo_ml_world raw demo_receipt_policy (Some demo_now) demo_disclosures = Inr r \<and> ve_miner r = ''m'' \<and>
     dec_val (ve_work r) = 5 / 2 \<and> ve_attested r"
proof -
  obtain d auth d' raw e where x: "demo_exchange False d auth d' raw e" using demo_receipt_exchange by blast
  then have "\<exists>r. verify_receipt demo_ml_world raw demo_receipt_policy (Some demo_now) demo_disclosures = Inr r \<and>
      ve_receipt_id r = receipt_id_for d' \<and> ve_miner r = rf_miner (demo_facts False) \<and> ve_epoch r = rf_epoch (demo_facts False) \<and>
      parse_time (JStr (rf_completed (demo_facts False))) [] = Inr (ve_completed r) \<and> dec_val (ve_work r) = dec_val (rf_work (demo_facts False)) \<and> ve_input_tokens r = rf_input_tokens (demo_facts False) \<and>
      ve_output_tokens r = rf_output_tokens (demo_facts False) \<and> ve_attested r = (rf_kind (demo_facts False) = ''tdx'')"
    unfolding demo_exchange_def
    by (intro honest_receipt_verifies [OF demo_facts_ok, of False d "demo_key ''v''" auth demo_ml_world "demo_key ''m''" d' raw e])
      (auto intro: demo_key_law demo_attestable)
  then show ?thesis by (auto simp: demo_facts_def dec_val_def)
qed

lemma demo_receipt_accepted:
  "\<exists>raw r. verify_receipt demo_ml_world raw demo_receipt_policy (Some demo_now) demo_disclosures = Inr r \<and> ve_miner r = ''m'' \<and>
     ve_epoch r = demo_epoch later \<and> ve_completed r = demo_moment later \<and> ve_attested r \<and> ve_input_tokens r = 5 \<and> ve_output_tokens r = 8 \<and>
     dec_val (ve_work r) = 5 / 2 \<and> int (length raw) \<le> MAX_RECEIPT_BYTES"
proof -
  obtain d auth d' raw e where x: "demo_exchange later d auth d' raw e" using demo_receipt_exchange by blast
  then obtain r where r: "verify_receipt demo_ml_world raw demo_receipt_policy (Some demo_now) demo_disclosures = Inr r \<and>
      ve_receipt_id r = receipt_id_for d' \<and> ve_miner r = rf_miner (demo_facts later) \<and> ve_epoch r = rf_epoch (demo_facts later) \<and>
      parse_time (JStr (rf_completed (demo_facts later))) [] = Inr (ve_completed r) \<and>
      dec_val (ve_work r) = dec_val (rf_work (demo_facts later)) \<and> ve_input_tokens r = rf_input_tokens (demo_facts later) \<and>
      ve_output_tokens r = rf_output_tokens (demo_facts later) \<and> ve_attested r = (rf_kind (demo_facts later) = ''tdx'')"
    unfolding demo_exchange_def
    using signed_receipt_verifies [OF demo_facts_ok, of later d "demo_key ''v''" auth demo_ml_world "demo_key ''m''" d' raw e]
    by (auto intro: demo_key_law demo_attestable)
  have "parse_time (JStr (rf_completed (demo_facts later))) [] = Inr (demo_moment later)"
    using demo_slot(1) by (simp add: demo_facts_def)
  then have "ve_completed r = demo_moment later" using r by simp
  moreover have "ve_miner r = ''m''" "ve_epoch r = demo_epoch later" "ve_attested r" "ve_input_tokens r = 5" "ve_output_tokens r = 8"
    "dec_val (ve_work r) = 5 / 2"
    using r by (simp_all add: demo_facts_def dec_val_def)
  moreover have "int (length raw) \<le> MAX_RECEIPT_BYTES" using x by (simp add: demo_exchange_def)
  ultimately show ?thesis using r by blast
qed

text \<open>C32. What an accepted receipt guarantees: it is canonical, its receipt id is the digest of its body, the
  miner it credits signed it, its request id binds the validator, the miner, the nonce and the commitments, every revealed
  payload opens its commitment, its digests are pinned ones and its stated completion, not before its issue, is fresh; and when it counts as attested, the validator
  authorized the request and a pinned verifier accepted the disclosed evidence for exactly these bindings.\<close>

theorem accepted_receipt_contract:
  "verify_receipt env raw p now di = Inr r \<Longrightarrow> receipt_ok env raw p now di r"
  by (rule verify_receipt_ok)

theorem accepted_receipt_contract_witness:
  "\<exists>raw r. receipt_ok demo_ml_world raw demo_receipt_policy (Some demo_now) demo_disclosures r \<and> ve_attested r"
proof -
  obtain raw r where "verify_receipt demo_ml_world raw demo_receipt_policy (Some demo_now) demo_disclosures = Inr r"
    using demo_receipt_accepted by blast
  from accepted_receipt_contract [OF this] show ?thesis
    unfolding receipt_ok_def Let_def by (auto simp: demo_receipt_policy_def)
qed

end
