(* ===== verification/Ml_Bundle.thy ===== *)
theory Ml_Bundle
  imports Ml_Contract
begin

text \<open>
  \<open>cathedral_thin/ml_receipts.py\<close>, the bundles: building one, the checkpoint of the accepted chain and
  verifying one against it (\<open>verify_bundle\<close>), receipt by receipt.
\<close>

section \<open>Checkpoints and bundles\<close>

definition MAX_BUNDLE_BYTES :: int where "MAX_BUNDLE_BYTES = 16777216"
definition MAX_BUNDLE_RECEIPTS :: nat where "MAX_BUNDLE_RECEIPTS = 4096"

record bundle_checkpoint =
  bc_network :: string
  bc_netuid :: int
  bc_epoch :: int
  bc_bundle_id :: string
  bc_generated :: int

record verified_bundle =
  vb_epoch :: int
  vb_bundle_id :: string
  vb_previous :: "string option"
  vb_receipts :: "verified_receipt list"
  vb_rejections :: "(string \<times> string) list"
  vb_document :: jdict

definition bundle_checkpoint_keys :: "string list" where
  "bundle_checkpoint_keys = [''schema'', ''network'', ''netuid'', ''source_epoch'', ''bundle_id'', ''generated_at'']"

definition parse_bundle_checkpoint :: "bytes \<Rightarrow> bundle_checkpoint res" where
  "parse_bundle_checkpoint raw =
     bindE (parse_strict_json (chomp raw) 16384) (\<lambda>d.
     guardE (chomp raw \<noteq> canonical_json d) ''ML bundle checkpoint JSON must be canonical''
     (require_exact_keys d bundle_checkpoint_keys ''ML bundle checkpoint''
     (guardE (jget d ''schema'' \<noteq> JStr ''cathedral_ml_bundle_checkpoint_v1'') ''unsupported ML bundle checkpoint schema''
     (bindE (bounded_string (jget d ''network'') ''bundle checkpoint network'' 128) (\<lambda>network.
      bindE (nonnegative_int (jget d ''netuid'') ''bundle checkpoint netuid'') (\<lambda>netuid.
      bindE (nonnegative_int (jget d ''source_epoch'') ''bundle checkpoint source_epoch'') (\<lambda>epoch.
      bindE (sha_digest (jget d ''bundle_id'') ''bundle checkpoint id'') (\<lambda>bundle_id.
      bindE (parse_time (jget d ''generated_at'') ''bundle checkpoint generated_at'') (\<lambda>generated.
        Inr \<lparr>bc_network = network, bc_netuid = netuid, bc_epoch = epoch, bc_bundle_id = bundle_id,
           bc_generated = generated\<rparr>)))))))))"

definition bundle_id_for :: "jdict \<Rightarrow> string" where
  "bundle_id_for d = prefixed_digest ''cathedral-ml-inference-bundle-id-v1'' (canonical_json (without [''bundle_id''] d))"

text \<open>A receipt handed to \<open>build_bundle\<close>: its bytes or a document.\<close>

definition bundle_receipt :: "bytes + jdict \<Rightarrow> jdict res" where
  "bundle_receipt r =
     (case r of
        Inl raw \<Rightarrow>
          bindE (parse_strict_json (chomp raw) MAX_RECEIPT_BYTES) (\<lambda>d.
            guardE (chomp raw \<noteq> canonical_json d) ''bundle receipt must be canonical JSON'' (Inr d))
      | Inr d \<Rightarrow> Inr d)"

definition build_bundle ::
    "(bytes + jdict) list \<Rightarrow> string \<Rightarrow> int \<Rightarrow> int \<Rightarrow> string \<Rightarrow> string \<Rightarrow> int \<Rightarrow> int \<Rightarrow> string option \<Rightarrow> bytes res" where
  "build_bundle receipts network netuid source_epoch generated_at valid_until valid_from_block valid_until_block previous =
     bindE (mapE bundle_receipt receipts) (\<lambda>documents.
     let body = [(''schema'', JStr ''cathedral_ml_inference_bundle_v1''), (''network'', JStr network), (''netuid'', JInt netuid),
           (''source_epoch'', JInt source_epoch), (''generated_at'', JStr generated_at), (''valid_until'', JStr valid_until),
           (''valid_from_block'', JInt valid_from_block), (''valid_until_block'', JInt valid_until_block),
           (''previous_bundle_id'', opt_text previous),
           (''receipts'', JArr (map JObj (sort_key (\<lambda>d. str_field d ''receipt_id'') documents)))];
         encoded = canonical_json (dict_set ''bundle_id'' (JStr (bundle_id_for body)) body) in
     guardE (int (length encoded) > MAX_BUNDLE_BYTES) ''ML inference bundle exceeds size limit'' (Inr encoded))"

section \<open>The guards of a bundle\<close>

definition bundle_keys :: "string list" where
  "bundle_keys = [''schema'', ''network'', ''netuid'', ''source_epoch'', ''generated_at'', ''valid_until'', ''valid_from_block'',
     ''valid_until_block'', ''previous_bundle_id'', ''receipts'', ''bundle_id'']"

text \<open>The header: the epoch and the generation time.\<close>

definition bundle_header :: "receipt_policy \<Rightarrow> jdict \<Rightarrow> int option \<Rightarrow> (int \<times> int) res" where
  "bundle_header p d now =
     guardE (jget d ''schema'' \<noteq> JStr ''cathedral_ml_inference_bundle_v1'') ''unsupported ML inference bundle schema''
     (guardE (\<not> same_value (jget d ''network'') (JStr (rp_network p)) \<or> \<not> same_value (jget d ''netuid'') (JInt (rp_netuid p)))
       ''ML inference bundle network or netuid mismatch''
     (bindE (nonnegative_int (jget d ''source_epoch'') ''bundle source_epoch'') (\<lambda>epoch.
      bindE (block_window (\<lambda>n. ''invalid bundle '' @ n) ''ML inference bundle is outside its block window''
         ''ML inference bundle block window is invalid or too wide'' d (rp_block p) (rp_max_span p)) (\<lambda>_.
      bindE (time_window (jget d ''generated_at'') ''bundle generated_at'' (jget d ''valid_until'') ''bundle valid_until''
         now (rp_max_age p) (rp_max_future p) ''bundle verification time must be UTC''
         ''ML inference bundle is stale or future-dated'' ''ML inference bundle has expired'') (\<lambda>(generated, until).
        Inr (epoch, generated))))))"

definition bundle_identity :: "jdict \<Rightarrow> (string option \<times> string) res" where
  "bundle_identity d =
     bindE (if jget d ''previous_bundle_id'' = JNull then Inr None
            else bindE (sha_digest (jget d ''previous_bundle_id'') ''previous bundle id'') (\<lambda>s. Inr (Some s))) (\<lambda>previous.
     bindE (sha_digest (jget d ''bundle_id'') ''bundle id'') (\<lambda>bundle_id.
     guardE (bundle_id \<noteq> bundle_id_for d) ''bundle id does not match its canonical body'' (Inr (previous, bundle_id))))"

record bundle_claim =
  bk_epoch :: int
  bk_id :: string
  bk_previous :: "string option"
  bk_generated :: int

text \<open>The checkpoint rule: the checkpoint to store, and whether the bundle opens a newer epoch.\<close>

definition bundle_checkpoint_step ::
    "receipt_policy \<Rightarrow> bundle_claim \<Rightarrow> bundle_checkpoint option \<Rightarrow> (bundle_checkpoint \<times> bool) res" where
  "bundle_checkpoint_step p b cp =
     (let accepted = \<lparr>bc_network = rp_network p, bc_netuid = rp_netuid p, bc_epoch = bk_epoch b, bc_bundle_id = bk_id b,
          bc_generated = bk_generated b\<rparr> in
      case cp of
        None \<Rightarrow> Inr (accepted, True)
      | Some c \<Rightarrow>
          guardE (bc_network c \<noteq> rp_network p \<or> bc_netuid c \<noteq> rp_netuid p) ''ML inference bundle checkpoint network mismatch''
          (guardE (bk_epoch b < bc_epoch c) ''ML inference bundle epoch rolled back''
          (if bk_epoch b = bc_epoch c
           then guardE (bk_id b \<noteq> bc_bundle_id c) ''ML inference bundle equivocated at accepted epoch'' (Inr (c, False))
           else guardE (bk_epoch b > bc_epoch c + 1) ''ML inference bundle skipped an accepted epoch''
             (guardE (bk_previous b \<noteq> Some (bc_bundle_id c)) ''ML inference bundle does not extend accepted chain''
             (guardE (bk_generated b \<le> bc_generated c) ''ML inference bundle time did not advance beyond its checkpoint''
               (Inr (accepted, True)))))))"

definition bundle_receipts :: "jdict \<Rightarrow> jdict list res" where
  "bundle_receipts d =
     (case jget d ''receipts'' of
        JArr vs \<Rightarrow>
          guardE (\<not> (1 \<le> length vs \<and> length vs \<le> MAX_BUNDLE_RECEIPTS)) ''bundle receipts must contain 1..4096 entries''
          (let ds = concat (map (\<lambda>v. case v of JObj r \<Rightarrow> [r] | _ \<Rightarrow> []) vs); ids = map (\<lambda>r. str_field r ''receipt_id'') ds in
           guardE (length ids \<noteq> length vs \<or> ids \<noteq> sorted_list_of_set (set ids))
             ''bundle receipts must have sorted unique receipt ids'' (Inr ds))
      | _ \<Rightarrow> raise ''bundle receipts must contain 1..4096 entries'')"

section \<open>The receipts of a bundle\<close>

text \<open>The evidence the caller holds, by digest.\<close>

definition receipt_evidence :: "(string \<times> bytes) list \<Rightarrow> jdict \<Rightarrow> bytes option" where
  "receipt_evidence evidence_map r =
     (case jget r ''attestation'' of
        JObj a \<Rightarrow> if truthy (jget a ''evidence_digest'') then map_of evidence_map (py_str (jget a ''evidence_digest'')) else None
      | _ \<Rightarrow> None)"

definition receipt_label :: "nat \<Rightarrow> jdict \<Rightarrow> string" where
  "receipt_label index r =
     (case jget r ''receipt_id'' of
        JStr s \<Rightarrow> if length s \<le> 80 then s else ''entry:'' @ nat_str index
      | _ \<Rightarrow> ''entry:'' @ nat_str index)"

record bundle_context =
  bx_world :: world
  bx_policy :: receipt_policy
  bx_now :: "int option"
  bx_epoch :: int
  bx_generated :: int
  bx_after :: "int option"
  bx_evidence :: "(string \<times> bytes) list"
  bx_verifier :: "attestation_verifier option"

definition admit_receipt :: "bundle_context \<Rightarrow> string list \<Rightarrow> jdict \<Rightarrow> verified_receipt res" where
  "admit_receipt x seen r =
     bindE (verify_receipt (bx_world x) (canonical_json r) (bx_policy x) (bx_now x)
        \<lparr>di_input = None, di_parameters = None, di_output = None, di_evidence = receipt_evidence (bx_evidence x) r,
         di_verifier = bx_verifier x\<rparr>) (\<lambda>item.
     guardE (ve_epoch item \<noteq> bx_epoch x) ''receipt authorization is bound to a different source epoch''
     (guardE (ve_completed item > bx_generated x) ''receipt completed after the containing bundle was generated''
     (guardE (case bx_after x of None \<Rightarrow> False | Some t \<Rightarrow> ve_completed item \<le> t)
       ''receipt was already eligible for a prior accepted epoch''
     (guardE (ve_request_id item \<in> set seen) ''bundle reuses an inference request id'' (Inr item)))))"

text \<open>The loop: only a ThinSubnetError rejects a receipt, any other exception leaves \<open>verify_bundle\<close>.\<close>

fun admit_receipts ::
    "bundle_context \<Rightarrow> nat \<Rightarrow> verified_receipt list \<Rightarrow> (string \<times> string) list \<Rightarrow> jdict list
       \<Rightarrow> (verified_receipt list \<times> (string \<times> string) list) res" where
  "admit_receipts x i verified rejected [] = Inr (verified, rejected)"
| "admit_receipts x i verified rejected (r # rs) =
     (case admit_receipt x (map ve_request_id verified) r of
        Inr item \<Rightarrow> admit_receipts x (Suc i) (verified @ [item]) rejected rs
      | Inl (ThinSubnetError m) \<Rightarrow> admit_receipts x (Suc i) verified (rejected @ [(receipt_label i r, take 240 m)]) rs
      | Inl e \<Rightarrow> Inl e)"

definition verify_bundle ::
    "world \<Rightarrow> bytes \<Rightarrow> receipt_policy \<Rightarrow> int option \<Rightarrow> bundle_checkpoint option \<Rightarrow> (string \<times> bytes) list
       \<Rightarrow> attestation_verifier option \<Rightarrow> (verified_bundle \<times> bundle_checkpoint) res" where
  "verify_bundle env raw p now cp evidence verifier =
     bindE (parse_strict_json (chomp raw) MAX_BUNDLE_BYTES) (\<lambda>d.
     guardE (chomp raw \<noteq> canonical_json d) ''ML inference bundle JSON must be canonical''
     (require_exact_keys d bundle_keys ''ML inference bundle''
     (bindE (bundle_header p d now) (\<lambda>(epoch, generated).
      bindE (bundle_identity d) (\<lambda>(previous, bundle_id).
      bindE (bundle_checkpoint_step p \<lparr>bk_epoch = epoch, bk_id = bundle_id, bk_previous = previous, bk_generated = generated\<rparr> cp)
        (\<lambda>(accepted, newer).
      bindE (bundle_receipts d) (\<lambda>rs.
      bindE (admit_receipts \<lparr>bx_world = env, bx_policy = p, bx_now = now, bx_epoch = epoch, bx_generated = generated,
         bx_after = (case cp of None \<Rightarrow> None | Some c \<Rightarrow> if newer then Some (bc_generated c) else None),
         bx_evidence = evidence, bx_verifier = verifier\<rparr> 0 [] [] rs) (\<lambda>(verified, rejected).
      guardE (verified = [])
        (''bundle has no admitted receipts: '' @ (if rejected = [] then ''no receipts supplied'' else snd (hd rejected)))
        (Inr (\<lparr>vb_epoch = epoch, vb_bundle_id = bundle_id, vb_previous = previous, vb_receipts = verified,
           vb_rejections = rejected, vb_document = d\<rparr>, accepted))))))))))"

end
