(* ===== verification/Ml_Chain.thy ===== *)
theory Ml_Chain
  imports Ml_Bundle Ml_Protocol Score_Mirror
begin

text \<open>
  The chain of accepted bundles of \<open>cathedral_thin/ml_receipts.py\<close>: a ledger that verifies bundle after
  bundle and carries the checkpoint from one to the next. The checkpoint rule is an instance of the
  contract \<open>accepted_chain\<close>; on top of it the completion windows of the epochs are disjoint, so that no
  receipt is credited in two epochs.
\<close>

section \<open>The checkpoint rule\<close>

definition enforce_bundle :: "receipt_policy \<times> bundle_claim \<Rightarrow> bundle_checkpoint option \<Rightarrow> bundle_checkpoint res" where
  "enforce_bundle x cp = (case x of (p, b) \<Rightarrow> bindE (bundle_checkpoint_step p b cp) (\<lambda>(c, newer). Inr c))"

definition claim_author :: "receipt_policy \<times> bundle_claim \<Rightarrow> string \<times> int" where
  "claim_author x = (rp_network (fst x), rp_netuid (fst x))"

definition checkpoint_author :: "bundle_checkpoint \<Rightarrow> string \<times> int" where
  "checkpoint_author c = (bc_network c, bc_netuid c)"

lemma checkpoint_step_InrD:
  assumes "bundle_checkpoint_step p b cp = Inr (c, newer)"
  shows "checkpoint_author c = (rp_network p, rp_netuid p) \<and> bc_epoch c = bk_epoch b \<and> bc_bundle_id c = bk_id b \<and>
    (if newer then bc_generated c = bk_generated b else cp = Some c) \<and>
    (\<forall>c0. cp = Some c0 \<longrightarrow> checkpoint_author c0 = (rp_network p, rp_netuid p) \<and>
       (if newer then bk_epoch b = bc_epoch c0 + 1 \<and> bk_previous b = Some (bc_bundle_id c0) \<and> bc_generated c0 < bk_generated b
        else bk_epoch b = bc_epoch c0 \<and> bk_id b = bc_bundle_id c0))"
  using assms unfolding bundle_checkpoint_step_def Let_def
  by (auto simp: checkpoint_author_def split: option.splits if_splits elim!: guardE_InrE)

text \<open>Bundles may not skip an epoch either, so the contract of accepted chains is extended.\<close>

locale gapless_chain = accepted_chain +
  assumes no_gap: "cp_author c = author x \<Longrightarrow> enforce x (Some c) = Inr c' \<Longrightarrow> seq_no x \<le> cp_seq c + 1"
begin

lemma run_gapless:
  assumes "accepted_run enforce cp xs" "\<forall>x \<in> set xs. author x = k" "Suc i < length xs"
  shows "seq_no (xs ! Suc i) \<le> seq_no (xs ! i) + 1"
  using assms
proof (induction xs arbitrary: cp i)
  case (Cons y ys)
  then obtain c' where c': "enforce y cp = Inr c'" "accepted_run enforce (Some c') ys" by (auto split: sum.splits)
  show ?case
  proof (cases i)
    case 0
    obtain z zs where ys: "ys = z # zs" using Cons.prems(3) by (cases ys) auto
    obtain c'' where "enforce z (Some c') = Inr c''" using c'(2) by (auto simp: ys split: sum.splits)
    then show ?thesis using no_gap [of c' z c''] stores [OF c'(1)] Cons.prems by (simp add: 0 ys)
  next
    case (Suc i')
    then show ?thesis using Cons.IH [OF c'(2), of i'] Cons.prems by simp
  qed
qed simp

end

interpretation bundle_chain: gapless_chain claim_author "\<lambda>x. bk_epoch (snd x)" "\<lambda>x. bk_id (snd x)" "\<lambda>x. bk_previous (snd x)"
    checkpoint_author bc_epoch bc_bundle_id enforce_bundle
  by unfold_locales
    (auto simp: enforce_bundle_def claim_author_def split: if_splits elim!: bindE_InrE dest!: checkpoint_step_InrD)

section \<open>What an accepted bundle guarantees\<close>

text \<open>The time a bundle was generated.\<close>

definition generated_at :: "jdict \<Rightarrow> int" where
  "generated_at d = (case parse_time (jget d ''generated_at'') [] of Inr t \<Rightarrow> t | Inl e \<Rightarrow> 0)"

lemma parse_time_label: "parse_time v l = Inr t \<Longrightarrow> parse_time v l' = Inr t"
  by (auto simp: parse_time_def split: json.splits if_splits option.splits)

lemma time_window_start: "time_window v1 l1 v2 l2 now a f x y z = Inr (g, u) \<Longrightarrow> parse_time v1 l1 = Inr g"
  unfolding time_window_def Let_def by (elim bindE_InrE) (auto split: option.splits elim!: guardE_InrE)

lemma generated_at_eq: "parse_time (jget d ''generated_at'') l = Inr t \<Longrightarrow> generated_at d = t"
  using parse_time_label [of "jget d ''generated_at''" l t "[]"] by (simp add: generated_at_def)

lemma bundle_header_InrD:
  assumes "bundle_header p d now = Inr (epoch, generated)"
  shows "jget d ''source_epoch'' = JInt epoch \<and> 0 \<le> epoch \<and> jget d ''network'' = JStr (rp_network p) \<and>
    same_value (jget d ''netuid'') (JInt (rp_netuid p)) \<and> generated = generated_at d"
proof -
  have n: "v = JStr s" if "same_value v (JStr s)" for v s using that by (cases v) (auto simp: same_value_def)
  show ?thesis using assms unfolding bundle_header_def
    by (elim guardE_InrE bindE_InrE)
      (auto simp: nonnegative_int_Inr split: prod.splits dest!: n time_window_start generated_at_eq)
qed

lemma bundle_identity_InrD:
  "bundle_identity d = Inr (previous, i) \<Longrightarrow> i = bundle_id_for d \<and> jget d ''bundle_id'' = JStr i \<and>
     jget d ''previous_bundle_id'' = opt_text previous"
  unfolding bundle_identity_def
  by (elim bindE_InrE guardE_InrE) (auto simp: sha_digest_Inr opt_text_def split: if_splits elim!: bindE_InrE guardE_InrE)

text \<open>A receipt the loop admits.\<close>

definition admitted :: "bundle_context \<Rightarrow> jdict \<Rightarrow> verified_receipt \<Rightarrow> bool" where
  "admitted x r item =
     ((\<exists>di. verify_receipt (bx_world x) (canonical_json r) (bx_policy x) (bx_now x) di = Inr item) \<and>
      ve_epoch item = bx_epoch x \<and> ve_completed item \<le> bx_generated x \<and>
      (\<forall>t. bx_after x = Some t \<longrightarrow> t < ve_completed item))"

lemma admit_receipt_InrD:
  "admit_receipt x seen r = Inr item \<Longrightarrow> admitted x r item \<and> ve_request_id item \<notin> set seen"
  unfolding admit_receipt_def admitted_def
  by (elim bindE_InrE guardE_InrE) (auto split: option.splits)

text \<open>The documents of the admitted receipts, in order.\<close>

definition picked :: "jdict list \<Rightarrow> jdict list \<Rightarrow> bool" where
  "picked ds rs = (set ds \<subseteq> set rs \<and> (\<forall>f :: jdict \<Rightarrow> string. distinct (map f rs) \<longrightarrow> distinct (map f ds)))"

lemma picked_simps: "picked [] []" "picked ds rs \<Longrightarrow> picked ds (r # rs)" "picked ds rs \<Longrightarrow> picked (r # ds) (r # rs)"
  by (auto simp: picked_def)

lemma admit_receipts_InrD:
  assumes "admit_receipts x i verified rejected rs = Inr (vs, rej)" "distinct (map ve_request_id verified)"
  shows "\<exists>new ds. vs = verified @ new \<and> distinct (map ve_request_id vs) \<and> length new \<le> length rs \<and>
    picked ds rs \<and> list_all2 (admitted x) ds new"
  using assms
proof (induction x i verified rejected rs rule: admit_receipts.induct)
  case (1 x i verified rejected)
  then show ?case by (intro exI [of _ "[]"]) (simp add: picked_simps)
next
  case (2 x i verified rejected r rs)
  show ?case
  proof (cases "admit_receipt x (map ve_request_id verified) r")
    case (Inl e)
    then obtain m where e: "e = ThinSubnetError m" using "2.prems" by (cases e) auto
    have "admit_receipts x (Suc i) verified (rejected @ [(receipt_label i r, take 240 m)]) rs = Inr (vs, rej)"
      using "2.prems" by (simp add: Inl e)
    from "2.IH"(1) [OF Inl e this "2.prems"(2)] obtain new ds where "vs = verified @ new" "distinct (map ve_request_id vs)"
      "length new \<le> length rs" "picked ds rs" "list_all2 (admitted x) ds new" by blast
    then show ?thesis by (intro exI [of _ new] exI [of _ ds]) (simp add: picked_simps)
  next
    case (Inr item)
    note a = admit_receipt_InrD [OF Inr]
    have "admit_receipts x (Suc i) (verified @ [item]) rejected rs = Inr (vs, rej)" using "2.prems" by (simp add: Inr)
    moreover have "distinct (map ve_request_id (verified @ [item]))" using a "2.prems"(2) by auto
    ultimately have "\<exists>new ds. vs = (verified @ [item]) @ new \<and> distinct (map ve_request_id vs) \<and> length new \<le> length rs \<and>
        picked ds rs \<and> list_all2 (admitted x) ds new" by (rule "2.IH"(2) [OF Inr])
    then obtain new ds where "vs = (verified @ [item]) @ new" "distinct (map ve_request_id vs)" "length new \<le> length rs"
      "picked ds rs" "list_all2 (admitted x) ds new" by blast
    then show ?thesis by (intro exI [of _ "item # new"] exI [of _ "r # ds"]) (use a in \<open>simp add: picked_simps\<close>)
  qed
qed

section \<open>The documents of a bundle\<close>

lemma parse_canonical_inv:
  assumes "strict_ok (JObj r)" "parse_strict_json (canonical_json r) mx = Inr d"
  shows "d = canonical_dict r"
proof -
  have "int (length (canonical_json r)) \<le> mx"
    using assms(2) by (auto simp: parse_strict_json_def elim!: guardE_InrE)
  from parse_canonical_dict [OF assms(1) this] assms(2) show ?thesis by simp
qed

lemma bundle_receipts_InrD:
  assumes "bundle_receipts d = Inr rs"
  shows "jget d ''receipts'' = JArr (map JObj rs) \<and> length rs \<le> MAX_BUNDLE_RECEIPTS \<and>
    distinct (map (\<lambda>r. str_field r ''receipt_id'') rs)"
proof -
  obtain vs where v: "jget d ''receipts'' = JArr vs" using assms by (auto simp: bundle_receipts_def split: json.splits)
  let ?f = "\<lambda>v. case v of JObj r \<Rightarrow> [r] | _ \<Rightarrow> []"
  let ?ids = "map (\<lambda>r. str_field r ''receipt_id'') (concat (map ?f vs))"
  have l: "length vs \<le> MAX_BUNDLE_RECEIPTS" and n: "length ?ids = length vs" "?ids = sorted_list_of_set (set ?ids)"
    and rs: "rs = concat (map ?f vs)"
    using assms unfolding bundle_receipts_def v json.case Let_def by (auto elim!: guardE_InrE)
  have le: "length (concat (map ?f ws)) \<le> length ws" for ws :: "json list"
  proof (induction ws)
    case (Cons w ws)
    then show ?case by (cases w) auto
  qed simp
  have "length (concat (map ?f ws)) = length ws \<Longrightarrow> ws = map JObj (concat (map ?f ws))" for ws
  proof (induction ws)
    case (Cons w ws)
    then show ?case using le [of ws] by (cases w) auto
  qed simp
  then have "vs = map JObj rs" using n(1) rs by simp
  moreover have "distinct ?ids" by (subst n(2)) simp
  ultimately show ?thesis using l n(1) v rs by simp
qed

text \<open>A receipt inside a canonical strict bundle is canonical and strict itself.\<close>

lemma bundle_receipt_canonical:
  assumes d: "strict_ok (JObj d)" "canonical_dict d = d" and rs: "jget d ''receipts'' = JArr (map JObj rs)" and r: "r \<in> set rs"
  shows "strict_ok (JObj r) \<and> canonical_dict r = r"
proof -
  have m: "map_of d ''receipts'' = Some (JArr (map JObj rs))" using rs by (auto simp: jget_def split: option.splits)
  then have "(''receipts'', JArr (map JObj rs)) \<in> set d" by (rule map_of_SomeD)
  then have "strict_ok (JArr (map JObj rs))" using d(1) by fastforce
  then have s: "strict_ok (JObj r)" using r by (simp only: strict_ok.simps(3) set_map ball_simps)
  have "jsort (JArr (map JObj rs)) = JArr (map JObj rs)"
    using jget_canonical [of d "''receipts''"] d rs by (simp del: jsort.simps)
  then have "map (\<lambda>r. jsort (JObj r)) rs = map JObj rs" by (simp only: jsort.simps(1) map_map comp_def json.inject)
  then have "jsort (JObj r) = JObj r" using r by (simp only: map_eq_conv)
  then show ?thesis using s by (simp only: jsort_dict json.inject)
qed

lemma strict_get: "strict_ok (JObj d) \<Longrightarrow> strict_ok (jget d k)"
proof -
  assume s: "strict_ok (JObj d)"
  show ?thesis
  proof (cases "map_of d k")
    case (Some v)
    then have "(k, v) \<in> set d" by (rule map_of_SomeD)
    then show ?thesis using s Some by (fastforce simp: jget_def)
  qed (simp add: jget_def)
qed

lemma strict_sub: "strict_ok (JObj d) \<Longrightarrow> strict_ok (jsub d name k)"
  using strict_get [of d name] strict_get unfolding jsub_def by (cases "jget d name") (auto simp del: strict_ok.simps(4))

lemma verified_document:
  assumes "verify_receipt env (canonical_json r) p now di = Inr item" "strict_ok (JObj r)" "canonical_dict r = r"
  shows "ve_document item = r \<and> ve_receipt_id item = str_field r ''receipt_id'' \<and>
    parse_time (jget r ''completed_at'') [] = Inr (ve_completed item)"
proof -
  obtain d h completed s c authorized rid v where d: "parse_strict_json (chomp (canonical_json r)) MAX_RECEIPT_BYTES = Inr d"
    and t: "receipt_times p d now = Inr completed" and pr: "receipt_proof env d (rh_miner h) = Inr rid"
    and item: "item = verified_from d h completed c rid v"
    using verify_receipt_parts [OF assms(1)] by blast
  have "chomp (canonical_json r) = canonical_json r" by (rule chomp_canonical)
  then have "d = r" using parse_canonical_inv [OF assms(2)] d assms(3) by simp
  moreover have "jget d ''receipt_id'' = JStr rid" using pr unfolding receipt_proof_def by (elim bindE_InrE guardE_InrE)
      (auto simp: sha_digest_Inr split: option.splits elim!: guardE_InrE)
  moreover have "parse_time (jget d ''completed_at'') [] = Inr completed"
    using receipt_times_InrD [OF t] parse_time_label by blast
  ultimately show ?thesis using str_field_get by (simp add: item verified_from_def)
qed

section \<open>The contract of a bundle\<close>

definition credited :: "world \<Rightarrow> receipt_policy \<Rightarrow> int option \<Rightarrow> verified_bundle \<Rightarrow> verified_receipt \<Rightarrow> bool" where
  "credited env p now b r =
     ((\<exists>raw di. verify_receipt env raw p now di = Inr r) \<and> ve_epoch r = vb_epoch b \<and>
      (\<exists>vs. jget (vb_document b) ''receipts'' = JArr vs \<and> JObj (ve_document r) \<in> set vs) \<and>
      parse_time (jget (ve_document r) ''completed_at'') [] = Inr (ve_completed r) \<and> ve_completed r \<le> generated_at (vb_document b))"

definition bundle_ok :: "world \<Rightarrow> bytes \<Rightarrow> receipt_policy \<Rightarrow> int option \<Rightarrow> verified_bundle \<Rightarrow> bool" where
  "bundle_ok env raw p now b =
     (let d = vb_document b in
      chomp raw = canonical_json d \<and> strict_ok (JObj d) \<and> canonical_dict d = d \<and>
      jget d ''network'' = JStr (rp_network p) \<and> jget d ''source_epoch'' = JInt (vb_epoch b) \<and> 0 \<le> vb_epoch b \<and>
      vb_bundle_id b = bundle_id_for d \<and> jget d ''previous_bundle_id'' = opt_text (vb_previous b) \<and>
      1 \<le> length (vb_receipts b) \<and> length (vb_receipts b) \<le> MAX_BUNDLE_RECEIPTS \<and>
      distinct (map ve_request_id (vb_receipts b)) \<and> distinct (map ve_receipt_id (vb_receipts b)) \<and>
      (\<forall>r \<in> set (vb_receipts b). credited env p now b r))"

lemma verify_bundle_parts:
  assumes "verify_bundle env raw p now cp evidence verifier = Inr (b, c)"
  shows "\<exists>d epoch generated previous i newer rs verified rejected.
    parse_strict_json (chomp raw) MAX_BUNDLE_BYTES = Inr d \<and> chomp raw = canonical_json d \<and>
    bundle_header p d now = Inr (epoch, generated) \<and> bundle_identity d = Inr (previous, i) \<and>
    bundle_checkpoint_step p \<lparr>bk_epoch = epoch, bk_id = i, bk_previous = previous, bk_generated = generated\<rparr> cp = Inr (c, newer) \<and>
    bundle_receipts d = Inr rs \<and> verified \<noteq> [] \<and>
    admit_receipts \<lparr>bx_world = env, bx_policy = p, bx_now = now, bx_epoch = epoch, bx_generated = generated,
         bx_after = (case cp of None \<Rightarrow> None | Some c \<Rightarrow> if newer then Some (bc_generated c) else None),
         bx_evidence = evidence, bx_verifier = verifier\<rparr> 0 [] [] rs = Inr (verified, rejected) \<and>
    b = \<lparr>vb_epoch = epoch, vb_bundle_id = i, vb_previous = previous, vb_receipts = verified, vb_rejections = rejected, vb_document = d\<rparr>"
  using assms unfolding verify_bundle_def require_exact_keys_def
  by (elim bindE_InrE guardE_InrE) (auto split: prod.splits elim!: bindE_InrE guardE_InrE)

definition claim_of :: "verified_bundle \<Rightarrow> bundle_claim" where
  "claim_of b = \<lparr>bk_epoch = vb_epoch b, bk_id = vb_bundle_id b, bk_previous = vb_previous b, bk_generated = generated_at (vb_document b)\<rparr>"

text \<open>An accepted bundle meets its contract, its claim passed the checkpoint rule, and the receipts of a newer
  epoch were completed after the checkpoint.\<close>

lemma verify_bundle_ok:
  assumes "verify_bundle env raw p now cp evidence verifier = Inr (b, c)"
  shows "bundle_ok env raw p now b \<and>
    (\<exists>newer. bundle_checkpoint_step p (claim_of b) cp = Inr (c, newer) \<and>
       (\<forall>c0. cp = Some c0 \<longrightarrow> newer \<longrightarrow> (\<forall>r \<in> set (vb_receipts b). bc_generated c0 < ve_completed r)))"
proof -
  obtain d epoch generated previous i newer rs verified rejected where
    d: "parse_strict_json (chomp raw) MAX_BUNDLE_BYTES = Inr d" "chomp raw = canonical_json d"
    and h: "bundle_header p d now = Inr (epoch, generated)" and i: "bundle_identity d = Inr (previous, i)"
    and c: "bundle_checkpoint_step p \<lparr>bk_epoch = epoch, bk_id = i, bk_previous = previous, bk_generated = generated\<rparr> cp = Inr (c, newer)"
    and rs: "bundle_receipts d = Inr rs" and ne: "verified \<noteq> []"
    and a: "admit_receipts \<lparr>bx_world = env, bx_policy = p, bx_now = now, bx_epoch = epoch, bx_generated = generated,
         bx_after = (case cp of None \<Rightarrow> None | Some c \<Rightarrow> if newer then Some (bc_generated c) else None),
         bx_evidence = evidence, bx_verifier = verifier\<rparr> 0 [] [] rs = Inr (verified, rejected)" (is "admit_receipts ?x _ _ _ _ = _")
    and b: "b = \<lparr>vb_epoch = epoch, vb_bundle_id = i, vb_previous = previous, vb_receipts = verified, vb_rejections = rejected,
         vb_document = d\<rparr>"
    using verify_bundle_parts [OF assms] by blast
  note strict = parse_strict_sound [OF d(1)] and canon = canonical_fixed [OF d]
  note hd = bundle_header_InrD [OF h] and id = bundle_identity_InrD [OF i] and rsd = bundle_receipts_InrD [OF rs]
  obtain ds where ds: "distinct (map ve_request_id verified)" "length verified \<le> length rs" "picked ds rs"
    "list_all2 (admitted ?x) ds verified" using admit_receipts_InrD [OF a] by auto
  have doc: "ve_document item = r \<and> ve_receipt_id item = str_field r ''receipt_id'' \<and>
      parse_time (jget r ''completed_at'') [] = Inr (ve_completed item) \<and> r \<in> set rs" if "r \<in> set ds" "admitted ?x r item" for r item
  proof -
    have r: "r \<in> set rs" using ds(3) \<open>r \<in> set ds\<close> by (auto simp: picked_def)
    then show ?thesis using \<open>admitted ?x r item\<close> verified_document bundle_receipt_canonical [OF strict canon _ r] rsd
      unfolding admitted_def by blast
  qed
  have each: "\<exists>r \<in> set ds. admitted ?x r item" if "item \<in> set verified" for item
    using ds(4) that by (metis in_set_conv_nth list_all2_conv_all_nth)
  have "list_all2 (\<lambda>r item. ve_receipt_id item = str_field r ''receipt_id'') ds verified"
    using ds(4) by (rule list.rel_mono_strong) (use doc in blast)
  then have "map ve_receipt_id verified = map (\<lambda>r. str_field r ''receipt_id'') ds"
    by (induction rule: list_all2_induct) simp_all
  then have ids: "distinct (map ve_receipt_id verified)" using ds(3) rsd by (simp add: picked_def)
  have cr: "credited env p now b item" if item: "item \<in> set verified" for item
  proof -
    obtain r where r: "r \<in> set ds" "admitted ?x r item" using each [OF item] by blast
    show ?thesis using r(2) doc [OF r] rsd hd unfolding credited_def admitted_def b by auto
  qed
  have "bundle_ok env raw p now b"
    using d strict canon hd id ne ds(1,2) ids cr rsd unfolding bundle_ok_def Let_def b
    by (auto simp: Suc_le_eq intro: order_trans)
  moreover have "claim_of b = \<lparr>bk_epoch = epoch, bk_id = i, bk_previous = previous, bk_generated = generated\<rparr>"
    using hd by (simp add: claim_of_def b)
  moreover have "bc_generated c0 < ve_completed r" if "cp = Some c0" "newer" "r \<in> set verified" for c0 r
    using each [OF \<open>r \<in> set verified\<close>] that(1,2) by (auto simp: admitted_def)
  ultimately show ?thesis using c by (auto simp: b)
qed

end
