(* ===== verification/Ml_Ledger.thy ===== *)
theory Ml_Ledger
  imports Ml_Chain
begin

text \<open>
  A validator's ledger of accepted inference bundles: the state machine that verifies bundle after
  bundle and stores the checkpoint \<open>verify_bundle\<close> returns (\<open>cathedral_thin/ml_receipts.py\<close>). Whatever is
  published in between, epochs advance one by one along the linked chain and no receipt is credited in
  two epochs.
\<close>

section \<open>The machine\<close>

record ledger =
  lg_checkpoint :: "bundle_checkpoint option"
  lg_bundles :: "verified_bundle list"

definition empty_ledger :: ledger where
  "empty_ledger = \<lparr>lg_checkpoint = None, lg_bundles = []\<rparr>"

text \<open>One step verifies whatever bytes were published, under the policy, the clock and the evidence of
  that moment; a bundle that fails leaves the ledger as it is.\<close>

inductive ledger_step :: "world \<Rightarrow> ledger \<Rightarrow> ledger \<Rightarrow> bool" for env where
  accept: "verify_bundle env raw p now (lg_checkpoint s) evidence verifier = Inr (b, c) \<Longrightarrow>
     ledger_step env s \<lparr>lg_checkpoint = Some c, lg_bundles = lg_bundles s @ [b]\<rparr>"
| reject: "verify_bundle env raw p now (lg_checkpoint s) evidence verifier = Inl e \<Longrightarrow> ledger_step env s s"

inductive_cases ledger_stepE: "ledger_step env s s'"

definition claims_run :: "ledger \<Rightarrow> (receipt_policy \<times> bundle_claim) list \<Rightarrow> bool" where
  "claims_run s xs =
     (map snd xs = map claim_of (lg_bundles s) \<and>
      foldE (\<lambda>cp x. bindE (enforce_bundle x cp) (\<lambda>c. Inr (Some c))) None xs = Inr (lg_checkpoint s) \<and>
      (\<forall>x \<in> set xs. \<exists>c. lg_checkpoint s = Some c \<and> claim_author x = checkpoint_author c))"

lemma accepted_run_fold:
  "accepted_run enforce cp xs = (\<exists>cp'. foldE (\<lambda>cp x. bindE (enforce x cp) (\<lambda>c. Inr (Some c))) cp xs = Inr cp')"
  by (induction enforce cp xs rule: accepted_run.induct) (auto split: sum.splits)

lemma ledger_claims:
  assumes "rtranclp (ledger_step env) empty_ledger s"
  shows "\<exists>xs. claims_run s xs"
  using assms
proof (induction rule: rtranclp_induct)
  case base
  show ?case by (intro exI [of _ "[]"]) (simp add: claims_run_def empty_ledger_def)
next
  case (step s s')
  then obtain xs where xs: "claims_run s xs" by blast
  from step(2) show ?case
  proof (rule ledger_stepE)
    fix raw p now evidence verifier b c
    assume s': "s' = \<lparr>lg_checkpoint = Some c, lg_bundles = lg_bundles s @ [b]\<rparr>"
      and v: "verify_bundle env raw p now (lg_checkpoint s) evidence verifier = Inr (b, c)"
    obtain newer where c: "bundle_checkpoint_step p (claim_of b) (lg_checkpoint s) = Inr (c, newer)"
      using verify_bundle_ok [OF v] by blast
    then have e: "enforce_bundle (p, claim_of b) (lg_checkpoint s) = Inr c" by (simp add: enforce_bundle_def)
    note d = checkpoint_step_InrD [OF c]
    have "claims_run s' (xs @ [(p, claim_of b)])"
      using xs d e unfolding claims_run_def s' by (auto simp: foldE_append claim_author_def)
    then show ?thesis by blast
  qed (use xs in blast)
qed

section \<open>Epochs\<close>

text \<open>What the contract of the checkpoint rule gives for a ledger.\<close>

lemma ledger_epochs:
  assumes "rtranclp (ledger_step env) empty_ledger s" "i < j" "j < length (lg_bundles s)"
  shows "vb_epoch (lg_bundles s ! i) \<le> vb_epoch (lg_bundles s ! j) \<and>
    (vb_epoch (lg_bundles s ! i) = vb_epoch (lg_bundles s ! j) \<longrightarrow> vb_bundle_id (lg_bundles s ! i) = vb_bundle_id (lg_bundles s ! j)) \<and>
    (j = Suc i \<longrightarrow> vb_epoch (lg_bundles s ! j) = vb_epoch (lg_bundles s ! i) + 1 \<longrightarrow>
       vb_previous (lg_bundles s ! j) = Some (vb_bundle_id (lg_bundles s ! i))) \<and>
    (j = Suc i \<longrightarrow> vb_epoch (lg_bundles s ! j) \<le> vb_epoch (lg_bundles s ! i) + 1)"
proof -
  obtain xs where xs: "claims_run s xs" using ledger_claims [OF assms(1)] by blast
  then have len: "length xs = length (lg_bundles s)" unfolding claims_run_def by (metis length_map)
  have at: "snd (xs ! k) = claim_of (lg_bundles s ! k)" if "k < length xs" for k
    using xs that len unfolding claims_run_def by (metis nth_map)
  have run: "accepted_run enforce_bundle None xs" using xs unfolding claims_run_def accepted_run_fold by blast
  obtain k where same: "\<forall>x \<in> set xs. claim_author x = k" using xs unfolding claims_run_def by (metis option.inject)
  have "j < length xs" "i < length xs" using assms(2,3) len by simp_all
  then show ?thesis
    using bundle_chain.run_consistent [OF run same assms(2)] bundle_chain.run_linked [OF run same, of i]
      bundle_chain.run_gapless [OF run same, of i] at
    by (simp add: claim_of_def)
qed

section \<open>Windows\<close>

text \<open>The bytes a bundle id hashes, and two bundles of a ledger that collide on them.\<close>

definition bundle_message :: "jdict \<Rightarrow> bytes" where
  "bundle_message d = map byte_of ''cathedral-ml-inference-bundle-id-v1'' @ [0] @ canonical_json (without [''bundle_id''] d)"

definition forged :: "verified_bundle list \<Rightarrow> bool" where
  "forged bs = (\<exists>b \<in> set bs. \<exists>b' \<in> set bs. sha_collision (bundle_message (vb_document b)) (bundle_message (vb_document b')))"

lemma bundle_ids_bind:
  assumes "strict_ok (JObj d)" "canonical_dict d = d" "strict_ok (JObj d')" "canonical_dict d' = d'" "bundle_id_for d = bundle_id_for d'"
  shows "without [''bundle_id''] d = without [''bundle_id''] d' \<or> sha_collision (bundle_message d) (bundle_message d')"
proof -
  let ?u = "without [''bundle_id''] d" and ?u' = "without [''bundle_id''] d'"
  have plain: "json_plain plain_hooks (JObj ?u)" "json_plain plain_hooks (JObj ?u')"
    using assms(1,3) by (blast intro: strict_ok_plain strict_without)+
  have canon: "canonical_dict ?u = ?u" "canonical_dict ?u' = ?u'" using assms(2,4) by (simp_all add: canonical_without)
  from prefixed_digest_inj [OF assms(5) [unfolded bundle_id_for_def]] show ?thesis
    using canonical_bytes_inj [OF plain] unfolding canonical_json_def jsort_dict canon bundle_message_def by auto
qed

lemma without_get: "k \<notin> set ks \<Longrightarrow> jget (without ks d) k = jget d k"
  unfolding jget_def without_def by (induction d) (auto split: option.splits)

text \<open>The invariant: the checkpoint is that of an accepted bundle, no accepted bundle was generated after it,
  and a bundle that opens an epoch credits only work completed after all work credited before.\<close>

definition opens_epoch :: "verified_bundle list \<Rightarrow> nat \<Rightarrow> bool" where
  "opens_epoch bs j = (\<forall>i < j. vb_epoch (bs ! i) \<noteq> vb_epoch (bs ! j))"

definition windows_apart :: "verified_bundle list \<Rightarrow> bool" where
  "windows_apart bs = (\<forall>j < length bs. opens_epoch bs j \<longrightarrow> (\<forall>i < j. \<forall>r \<in> set (vb_receipts (bs ! i)).
     \<forall>r' \<in> set (vb_receipts (bs ! j)). ve_completed r < ve_completed r'))"

definition genuine :: "world \<Rightarrow> verified_bundle \<Rightarrow> bool" where
  "genuine env b = (\<exists>raw p now. bundle_ok env raw p now b)"

definition ledger_ok :: "world \<Rightarrow> ledger \<Rightarrow> bool" where
  "ledger_ok env s =
     ((\<forall>b \<in> set (lg_bundles s). genuine env b) \<and>
      (case lg_checkpoint s of
         None \<Rightarrow> lg_bundles s = []
       | Some c \<Rightarrow>
           (\<exists>b \<in> set (lg_bundles s). vb_epoch b = bc_epoch c \<and> vb_bundle_id b = bc_bundle_id c \<and>
              generated_at (vb_document b) = bc_generated c) \<and>
           (forged (lg_bundles s) \<or>
             (\<forall>b \<in> set (lg_bundles s). generated_at (vb_document b) \<le> bc_generated c) \<and> windows_apart (lg_bundles s))))"

lemma forged_mono: "forged bs \<Longrightarrow> forged (bs @ [b])" by (auto simp: forged_def)

lemma windows_snoc:
  assumes "windows_apart bs"
    and "\<And>b' r r'. \<forall>b' \<in> set bs. vb_epoch b' \<noteq> vb_epoch b \<Longrightarrow> b' \<in> set bs \<Longrightarrow> r \<in> set (vb_receipts b') \<Longrightarrow>
           r' \<in> set (vb_receipts b) \<Longrightarrow> ve_completed r < ve_completed r'"
  shows "windows_apart (bs @ [b])"
proof -
  have "opens_epoch (bs @ [b]) j = opens_epoch bs j" if "j < length bs" for j
    using that by (simp add: opens_epoch_def nth_append)
  moreover have "\<forall>b' \<in> set bs. vb_epoch b' \<noteq> vb_epoch b" if "opens_epoch (bs @ [b]) (length bs)"
    using that by (auto simp: opens_epoch_def nth_append in_set_conv_nth)
  ultimately show ?thesis using assms unfolding windows_apart_def
    by (auto simp: nth_append less_Suc_eq dest!: nth_mem)
qed

lemma genuine_completed:
  "genuine env b \<Longrightarrow> r \<in> set (vb_receipts b) \<Longrightarrow> ve_completed r \<le> generated_at (vb_document b)"
  by (auto simp: genuine_def bundle_ok_def credited_def Let_def)

lemma accept_keeps_ok:
  assumes ok: "ledger_ok env s" and v: "verify_bundle env raw p now (lg_checkpoint s) evidence verifier = Inr (b, c)"
  shows "ledger_ok env \<lparr>lg_checkpoint = Some c, lg_bundles = lg_bundles s @ [b]\<rparr>"
proof -
  obtain newer where c: "bundle_checkpoint_step p (claim_of b) (lg_checkpoint s) = Inr (c, newer)" and bok: "bundle_ok env raw p now b"
    and after: "\<forall>c0. lg_checkpoint s = Some c0 \<longrightarrow> newer \<longrightarrow> (\<forall>r \<in> set (vb_receipts b). bc_generated c0 < ve_completed r)"
    using verify_bundle_ok [OF v] by blast
  note d = checkpoint_step_InrD [OF c]
  have g: "genuine env b" using bok unfolding genuine_def by blast
  show ?thesis
  proof (cases "lg_checkpoint s")
    case None
    have "lg_bundles s = []" using ok by (simp add: ledger_ok_def None)
    moreover have newer using d None by (cases newer) auto
    ultimately show ?thesis using g d by (simp add: ledger_ok_def windows_apart_def claim_of_def)
  next
    case (Some c0)
    obtain b0 where b0: "b0 \<in> set (lg_bundles s)" "vb_epoch b0 = bc_epoch c0" "vb_bundle_id b0 = bc_bundle_id c0"
      "generated_at (vb_document b0) = bc_generated c0" using ok by (auto simp: ledger_ok_def Some)
    have all: "\<forall>b \<in> set (lg_bundles s). genuine env b" using ok by (simp add: ledger_ok_def)
    show ?thesis
    proof (cases newer)
      case True
      then have gen: "bc_generated c = generated_at (vb_document b)" "bc_generated c0 < bc_generated c" "bc_epoch c = vb_epoch b"
        "bc_bundle_id c = vb_bundle_id b" using d by (simp_all add: claim_of_def Some)
      have later: "bc_generated c0 < ve_completed r'" if "r' \<in> set (vb_receipts b)" for r' using that after True Some by blast
      have apart: "windows_apart (lg_bundles s @ [b])" if w: "windows_apart (lg_bundles s)"
        and le: "\<forall>b' \<in> set (lg_bundles s). generated_at (vb_document b') \<le> bc_generated c0"
      proof (rule windows_snoc [OF w])
        fix b' r r' assume b': "b' \<in> set (lg_bundles s)" and r: "r \<in> set (vb_receipts b')" and r': "r' \<in> set (vb_receipts b)"
        have "ve_completed r \<le> generated_at (vb_document b')" using genuine_completed all b' r by blast
        also have "\<dots> \<le> bc_generated c0" using le b' by blast
        also have "\<dots> < ve_completed r'" by (rule later [OF r'])
        finally show "ve_completed r < ve_completed r'" .
      qed
      have "forged (lg_bundles s @ [b]) \<or> (\<forall>b' \<in> set (lg_bundles s @ [b]). generated_at (vb_document b') \<le> bc_generated c) \<and>
          windows_apart (lg_bundles s @ [b])"
      proof (cases "forged (lg_bundles s)")
        case True
        then show ?thesis using forged_mono by blast
      next
        case False
        then have "\<forall>b' \<in> set (lg_bundles s). generated_at (vb_document b') \<le> bc_generated c0" "windows_apart (lg_bundles s)"
          using ok unfolding ledger_ok_def Some option.case by blast+
        then show ?thesis using apart gen by fastforce
      qed
      then show ?thesis using all g gen unfolding ledger_ok_def by simp
    next
      case False
      then have "lg_checkpoint s = Some c" using d by simp
      then have same: "c = c0" using Some by simp
      have same: "c = c0" "vb_epoch b = bc_epoch c0" "vb_bundle_id b = bc_bundle_id c0" using d same by (simp_all add: claim_of_def)
      have g0: "genuine env b0" using all b0(1) by blast
      have ids: "vb_bundle_id x = bundle_id_for (vb_document x)" if "genuine env x" for x
        using that by (auto simp: bundle_ok_def Let_def genuine_def)
      have "bundle_id_for (vb_document b) = bundle_id_for (vb_document b0)" "genuine env b0"
        using ids [OF g] ids [OF g0] g0 b0(3) same(3) by simp_all
      then have "without [''bundle_id''] (vb_document b) = without [''bundle_id''] (vb_document b0) \<or>
          sha_collision (bundle_message (vb_document b)) (bundle_message (vb_document b0))"
        using bok unfolding genuine_def bundle_ok_def Let_def by (intro bundle_ids_bind) auto
      then have "generated_at (vb_document b) = generated_at (vb_document b0) \<or> forged (lg_bundles s @ [b])"
      proof
        assume "without [''bundle_id''] (vb_document b) = without [''bundle_id''] (vb_document b0)"
        then have "jget (vb_document b) ''generated_at'' = jget (vb_document b0) ''generated_at''"
          using without_get [of "''generated_at''" "[''bundle_id'']" "vb_document b"]
            without_get [of "''generated_at''" "[''bundle_id'']" "vb_document b0"] by simp
        then show ?thesis by (simp add: generated_at_def)
      qed (use b0(1) in \<open>auto simp: forged_def\<close>)
      moreover have "windows_apart (lg_bundles s) \<Longrightarrow> windows_apart (lg_bundles s @ [b])"
        by (rule windows_snoc) (use b0 same in auto)
      ultimately have "forged (lg_bundles s @ [b]) \<or> (\<forall>b' \<in> set (lg_bundles s @ [b]). generated_at (vb_document b') \<le> bc_generated c) \<and>
          windows_apart (lg_bundles s @ [b])"
        using ok b0 forged_mono unfolding ledger_ok_def Some option.case same(1) by fastforce
      then show ?thesis using all g b0 unfolding ledger_ok_def same(1) by auto
    qed
  qed
qed

lemma ledger_invariant: "rtranclp (ledger_step env) empty_ledger s \<Longrightarrow> ledger_ok env s"
proof (induction rule: rtranclp_induct)
  case base
  show ?case by (simp add: ledger_ok_def empty_ledger_def)
next
  case (step s s')
  from step(2) show ?case by (rule ledger_stepE) (use step(3) accept_keeps_ok in auto)
qed

end
