(* ===== verification/Ml_Credit.thy ===== *)
theory Ml_Credit
  imports Ml_Ledger
begin

text \<open>
  Requests are credited once (\<open>cathedral_thin/ml_receipts.py\<close>): a request id binds the epoch of the
  request, so that on the ledger of accepted bundles two bundles of different epochs can only credit the
  same request through a collision of SHA-256. And two results that a guard is missing for.
\<close>

section \<open>The request of a receipt\<close>

text \<open>The object whose digest is the request id, read from the receipt's document.\<close>

definition request_fields :: "jdict \<Rightarrow> jdict" where
  "request_fields d =
     [(''network'', jget d ''network''), (''netuid'', jget d ''netuid''), (''source_epoch'', jget d ''source_epoch''),
      (''validator_hotkey'', jget d ''validator_hotkey''), (''miner_hotkey'', jget d ''miner_hotkey''),
      (''nonce_base64'', jget d ''nonce_base64''), (''input_commitment'', jsub d ''request'' ''input_commitment''),
      (''parameters_commitment'', jsub d ''request'' ''parameters_commitment'')]"

definition request_message :: "jdict \<Rightarrow> bytes" where
  "request_message d = map byte_of ''cathedral-ml-request-v1'' @ [0] @ canonical_json (request_fields d)"

lemma request_fields_strict: "strict_ok (JObj d) \<Longrightarrow> strict_ok (JObj (request_fields d))"
  unfolding request_fields_def strict_ok.simps(4) [of "_ # _"] by (simp add: strict_get strict_sub del: strict_ok.simps(4))

lemma request_of_receipt:
  assumes "receipt_ok env raw p now di r"
  shows "ve_request_id r = prefixed_digest ''cathedral-ml-request-v1'' (canonical_json (request_fields (ve_document r)))"
proof -
  have "request_bound p di r" "jget (ve_document r) ''network'' = JStr (rp_network p)" "jget (ve_document r) ''netuid'' = JInt (rp_netuid p)"
    "jget (ve_document r) ''source_epoch'' = JInt (ve_epoch r)" "jget (ve_document r) ''validator_hotkey'' = JStr (ve_validator r)"
    "jget (ve_document r) ''miner_hotkey'' = JStr (ve_miner r)"
    using assms unfolding receipt_ok_def Let_def by blast+
  then show ?thesis unfolding request_bound_def by (auto simp: request_id_for_def request_fields_def)
qed

lemma requests_bind_epoch:
  assumes "receipt_ok env raw p now di r" "receipt_ok env' raw' p' now' di' r'" "ve_request_id r = ve_request_id r'"
  shows "ve_epoch r = ve_epoch r' \<or> sha_collision (request_message (ve_document r)) (request_message (ve_document r'))"
proof -
  let ?d = "ve_document r" and ?d' = "ve_document r'"
  have strict: "strict_ok (JObj ?d)" "strict_ok (JObj ?d')" and epoch: "jget ?d ''source_epoch'' = JInt (ve_epoch r)"
    "jget ?d' ''source_epoch'' = JInt (ve_epoch r')"
    using assms(1,2) unfolding receipt_ok_def Let_def by blast+
  have "prefixed_digest ''cathedral-ml-request-v1'' (canonical_json (request_fields ?d)) =
      prefixed_digest ''cathedral-ml-request-v1'' (canonical_json (request_fields ?d'))"
    using request_of_receipt [OF assms(1)] request_of_receipt [OF assms(2)] assms(3) by simp
  from prefixed_digest_inj [OF this] show ?thesis
  proof
    assume same: "canonical_json (request_fields ?d) = canonical_json (request_fields ?d')"
    have "json_plain plain_hooks (JObj (request_fields ?d))" "json_plain plain_hooks (JObj (request_fields ?d'))"
      using strict by (blast intro: strict_ok_plain request_fields_strict)+
    then have "jsort (JObj (request_fields ?d)) = jsort (JObj (request_fields ?d'))"
      using same unfolding canonical_json_def by (rule canonical_bytes_inj)
    then have "canonical_dict (request_fields ?d) = canonical_dict (request_fields ?d')" unfolding jsort_dict by simp
    then have "jget (canonical_dict (request_fields ?d)) ''source_epoch'' = jget (canonical_dict (request_fields ?d')) ''source_epoch''"
      by simp
    moreover have "distinct (map fst (request_fields x))" for x by (simp add: request_fields_def)
    ultimately have "jsort (jget (request_fields ?d) ''source_epoch'') = jsort (jget (request_fields ?d') ''source_epoch'')"
      by (simp only: jget_canonical)
    moreover have "jget (request_fields x) ''source_epoch'' = jget x ''source_epoch''" for x
      by (simp add: request_fields_def jget_def)
    ultimately show ?thesis using epoch by simp
  qed (simp add: request_message_def)
qed

lemma ledger_same_epoch:
  assumes "rtranclp (ledger_step env) empty_ledger s" "b \<in> set (lg_bundles s)" "b' \<in> set (lg_bundles s)" "vb_epoch b = vb_epoch b'"
  shows "vb_bundle_id b = vb_bundle_id b'"
proof -
  obtain i j where ij: "i < length (lg_bundles s)" "b = lg_bundles s ! i" "j < length (lg_bundles s)" "b' = lg_bundles s ! j"
    using assms(2,3) unfolding in_set_conv_nth by blast
  consider "i < j" | "j < i" | "i = j" by linarith
  then show ?thesis
  proof cases
    case 1
    from ledger_epochs [OF assms(1) this ij(3)] show ?thesis using assms(4) unfolding ij(2,4) by blast
  next
    case 2
    from ledger_epochs [OF assms(1) this ij(1)] show ?thesis using assms(4) unfolding ij(2,4) by (metis (no_types))
  qed (simp add: ij)
qed

lemma ledger_credits:
  assumes "rtranclp (ledger_step env) empty_ledger s" "b \<in> set (lg_bundles s)" "r \<in> set (vb_receipts b)"
  shows "\<exists>raw p now di. receipt_ok env raw p now di r \<and> ve_epoch r = vb_epoch b"
proof -
  have "genuine env b" using ledger_invariant [OF assms(1)] assms(2) by (simp add: ledger_ok_def)
  then show ?thesis using assms(3) verify_receipt_ok unfolding genuine_def bundle_ok_def credited_def Let_def by blast
qed

lemma ledger_requests_distinct:
  "rtranclp (ledger_step env) empty_ledger s \<Longrightarrow> b \<in> set (lg_bundles s) \<Longrightarrow> distinct (map ve_request_id (vb_receipts b))"
  using ledger_invariant by (fastforce simp: ledger_ok_def genuine_def bundle_ok_def Let_def)

section \<open>Two unguarded results\<close>

text \<open>An authorization file whose signature is null passes: the Boolean of the check is not read.\<close>

lemma null_authorization_applies:
  assumes "parse_strict_json (chomp raw) 16384 = Inr a" "chomp raw = canonical_json a" "keys_are a authorization_file_keys"
    and "jget a ''schema'' = JStr ''cathedral_ml_request_authorization_v1''" "jget a ''request_id'' = jget d ''request_id''"
    and "jget a ''validator_hotkey'' = jget d ''validator_hotkey''" "jget a ''miner_hotkey'' = jget d ''miner_hotkey''"
    and "jget d ''request_authorization'' = JNull" "jget a ''signature'' = JNull"
  shows "apply_request_authorization env d raw = Inr (dict_set ''request_authorization'' JNull d)"
proof -
  have same: "same_value v v" for v by (cases v) (simp_all add: same_value_def)
  show ?thesis unfolding apply_request_authorization_def assms(1) bindE_Inr
    by (simp add: assms(2-) require_exact_keys_def matches_document_def same guardE_def Let_def verify_request_authorization_def jget_dict_set
      flip: assms(2))
qed

text \<open>A replay is verified without the window of the epoch: what the window rejected, the replay admits.\<close>

lemma replay_has_no_window:
  assumes "ve_completed item \<le> t" "ve_epoch item = bx_epoch x" "ve_completed item \<le> bx_generated x" "ve_request_id item \<notin> set seen"
    and "verify_receipt (bx_world x) (canonical_json r) (bx_policy x) (bx_now x)
        \<lparr>di_input = None, di_parameters = None, di_output = None, di_evidence = receipt_evidence (bx_evidence x) r,
         di_verifier = bx_verifier x\<rparr> = Inr item"
  shows "admit_receipt (x\<lparr>bx_after := Some t\<rparr>) seen r = raise ''receipt was already eligible for a prior accepted epoch''"
    "admit_receipt (x\<lparr>bx_after := None\<rparr>) seen r = Inr item"
  using assms by (simp_all add: admit_receipt_def guardE_def)

end
