(* ===== verification/Ml_Assembly.thy ===== *)
theory Ml_Assembly
  imports Ml_Chain
begin

text \<open>
  The round trip of bundles (\<open>build_bundle\<close>, \<open>verify_bundle\<close> of \<open>cathedral_thin/ml_receipts.py\<close>): a bundle
  built from receipts that verify on their own is accepted with all of them and no rejection.
\<close>

section \<open>The loop over good receipts\<close>

definition given :: "(string \<times> bytes) list \<Rightarrow> attestation_verifier option \<Rightarrow> jdict \<Rightarrow> disclosures" where
  "given evidence verifier r =
     \<lparr>di_input = None, di_parameters = None, di_output = None, di_evidence = receipt_evidence evidence r, di_verifier = verifier\<rparr>"

definition admissible :: "bundle_context \<Rightarrow> jdict \<Rightarrow> verified_receipt \<Rightarrow> bool" where
  "admissible x r item =
     (verify_receipt (bx_world x) (canonical_json r) (bx_policy x) (bx_now x) (given (bx_evidence x) (bx_verifier x) r) = Inr item \<and>
      ve_epoch item = bx_epoch x \<and> ve_completed item \<le> bx_generated x \<and> (\<forall>t. bx_after x = Some t \<longrightarrow> t < ve_completed item))"

lemma admit_admissible: "admissible x r item \<Longrightarrow> ve_request_id item \<notin> set seen \<Longrightarrow> admit_receipt x seen r = Inr item"
  by (auto simp: admissible_def admit_receipt_def given_def guardE_def split: option.splits)

lemma admit_all:
  assumes "list_all2 (admissible x) rs items" "distinct (map ve_request_id (verified @ items))"
  shows "admit_receipts x i verified rejected rs = Inr (verified @ items, rejected)"
  using assms
proof (induction rs items arbitrary: i verified rule: list_all2_induct)
  case (Cons r rs item items)
  have "admit_receipt x (map ve_request_id verified) r = Inr item"
    using Cons by (intro admit_admissible) auto
  then show ?case using Cons by simp
qed simp

section \<open>The documents\<close>

lemma verify_receipt_chomp: "chomp raw = chomp raw' \<Longrightarrow> verify_receipt env raw p now di = verify_receipt env raw' p now di"
  by (simp add: verify_receipt_def)

lemma bundle_receipt_bytes:
  assumes "bundle_receipt (Inl raw) = Inr r"
  shows "chomp raw = canonical_json r \<and> strict_ok (JObj r) \<and> canonical_dict r = r"
proof -
  have r: "parse_strict_json (chomp raw) MAX_RECEIPT_BYTES = Inr r" "chomp raw = canonical_json r"
    using assms by (auto simp: bundle_receipt_def elim!: bindE_InrE guardE_InrE)
  then show ?thesis using parse_strict_sound [OF r(1)] canonical_fixed [OF r] by simp
qed

definition bundle_document ::
    "string \<Rightarrow> int \<Rightarrow> int \<Rightarrow> string \<Rightarrow> string \<Rightarrow> int \<Rightarrow> int \<Rightarrow> string option \<Rightarrow> jdict list \<Rightarrow> jdict" where
  "bundle_document network netuid source_epoch made until_text first final previous rs =
     [(''schema'', JStr ''cathedral_ml_inference_bundle_v1''), (''network'', JStr network), (''netuid'', JInt netuid),
      (''source_epoch'', JInt source_epoch), (''generated_at'', JStr made), (''valid_until'', JStr until_text),
      (''valid_from_block'', JInt first), (''valid_until_block'', JInt final),
      (''previous_bundle_id'', opt_text previous), (''receipts'', JArr (map JObj rs))]"

lemma get_bundle_document:
  "jget (bundle_document n u e g v a z q rs) ''schema'' = JStr ''cathedral_ml_inference_bundle_v1''"
  "jget (bundle_document n u e g v a z q rs) ''network'' = JStr n"
  "jget (bundle_document n u e g v a z q rs) ''netuid'' = JInt u"
  "jget (bundle_document n u e g v a z q rs) ''source_epoch'' = JInt e"
  "jget (bundle_document n u e g v a z q rs) ''generated_at'' = JStr g"
  "jget (bundle_document n u e g v a z q rs) ''valid_until'' = JStr v"
  "jget (bundle_document n u e g v a z q rs) ''valid_from_block'' = JInt a"
  "jget (bundle_document n u e g v a z q rs) ''valid_until_block'' = JInt z"
  "jget (bundle_document n u e g v a z q rs) ''previous_bundle_id'' = opt_text q"
  "jget (bundle_document n u e g v a z q rs) ''receipts'' = JArr (map JObj rs)"
  by (simp_all add: bundle_document_def jget_def)

text \<open>What the bundler chooses and the validator's policy admits.\<close>

definition bundle_terms_ok ::
    "receipt_policy \<Rightarrow> int \<Rightarrow> string \<Rightarrow> int \<Rightarrow> int \<Rightarrow> string \<Rightarrow> string \<Rightarrow> int \<Rightarrow> int \<Rightarrow> string option \<Rightarrow> int \<Rightarrow> bool" where
  "bundle_terms_ok p t network netuid epoch made until_text first final previous generated =
     (network = rp_network p \<and> netuid = rp_netuid p \<and> natural64 netuid \<and> natural64 epoch \<and> natural64 first \<and> natural64 final \<and>
      first \<le> rp_block p \<and> rp_block p < final \<and> final - first \<le> rp_max_span p \<and>
      (\<exists>until. parse_time (JStr made) ''bundle generated_at'' = Inr generated \<and>
         parse_time (JStr until_text) ''bundle valid_until'' = Inr until \<and>
         fresh_at (Some t) generated until (rp_max_age p) (rp_max_future p)) \<and>
      (\<forall>s. previous = Some s \<longrightarrow> sha_digest_text s))"

lemma bundle_id_canonical:
  "bundle_id_for (canonical_dict (dict_set ''bundle_id'' v d)) = bundle_id_for d"
  by (simp add: bundle_id_for_def canonical_json_dict without_dict_set flip: canonical_without)

lemma read_bundle_receipts:
  assumes "jget d ''receipts'' = JArr (map JObj rs)" "1 \<le> length rs" "length rs \<le> MAX_BUNDLE_RECEIPTS"
    and "sorted (map (\<lambda>r. str_field r ''receipt_id'') rs)" "distinct (map (\<lambda>r. str_field r ''receipt_id'') rs)"
  shows "bundle_receipts d = Inr rs"
proof -
  have "concat (map (\<lambda>v. case v of JObj r \<Rightarrow> [r] | _ \<Rightarrow> []) (map JObj rs)) = rs" by (induction rs) auto
  moreover have "map (\<lambda>r. str_field r ''receipt_id'') rs = sorted_list_of_set (set (map (\<lambda>r. str_field r ''receipt_id'') rs))"
    using assms(4,5) by (simp only: sorted_list_of_set.idem_if_sorted_distinct)
  ultimately show ?thesis using assms(1-3) by (simp add: bundle_receipts_def Let_def guardE_def)
qed


section \<open>The round trip\<close>

lemma built_bundle_verifies:
  assumes built: "build_bundle (map Inl raws) network netuid epoch made until_text first final previous = Inr raw"
    and terms: "bundle_terms_ok p t network netuid epoch made until_text first final previous generated"
    and cp: "bundle_checkpoint_step p \<lparr>bk_epoch = epoch, bk_id = i, bk_previous = previous, bk_generated = generated\<rparr> cp = Inr (c, newer)"
      "i = bundle_id_for (bundle_document network netuid epoch made until_text first final previous rs)"
    and rs: "mapE bundle_receipt (map Inl raws) = Inr ds" "rs = sort_key (\<lambda>d. str_field d ''receipt_id'') ds"
      "1 \<le> length rs" "length rs \<le> MAX_BUNDLE_RECEIPTS" "distinct (map (\<lambda>r. str_field r ''receipt_id'') rs)"
    and good: "list_all2 (admissible \<lparr>bx_world = env, bx_policy = p, bx_now = Some t, bx_epoch = epoch, bx_generated = generated,
         bx_after = (case cp of None \<Rightarrow> None | Some c \<Rightarrow> if newer then Some (bc_generated c) else None),
         bx_evidence = evidence, bx_verifier = verifier\<rparr>) rs items" "distinct (map ve_request_id items)"
  shows "\<exists>b. verify_bundle env raw p (Some t) cp evidence verifier = Inr (b, c) \<and> vb_receipts b = items \<and> vb_rejections b = [] \<and>
    vb_epoch b = epoch \<and> vb_bundle_id b = i \<and> vb_previous b = previous \<and>
    vb_document b = canonical_dict (dict_set ''bundle_id'' (JStr i)
      (bundle_document network netuid epoch made until_text first final previous rs))"
proof -
  let ?body = "bundle_document network netuid epoch made until_text first final previous rs"
  define d where "d = dict_set ''bundle_id'' (JStr i) ?body"
  define k where "k = canonical_dict d"
  have raw: "raw = canonical_json d" "int (length raw) \<le> MAX_BUNDLE_BYTES"
    using built unfolding build_bundle_def rs(1) bindE_Inr Let_def d_def cp(2) rs(2) bundle_document_def
    by (auto elim!: guardE_InrE)
  have each: "strict_ok (JObj r) \<and> canonical_dict r = r" if "r \<in> set rs" for r
  proof -
    have "r \<in> set ds" using that rs(2) by simp
    then obtain x where "x \<in> set raws" "bundle_receipt (Inl x) = Inr r" using mapE_all [OF rs(1)] by auto
    then show ?thesis using bundle_receipt_bytes by blast
  qed
  have i64: "int64 n" if "natural64 n" for n using that by (auto simp: int64_def natural64_def)
  have nums: "natural64 netuid" "natural64 epoch" "natural64 first" "natural64 final" using terms unfolding bundle_terms_ok_def by blast+
  have "strict_ok (opt_text previous)" by (cases previous) (simp_all add: opt_text_def)
  moreover have "\<forall>v \<in> set (map JObj rs). strict_ok v" using each by (auto simp del: strict_ok.simps(4))
  ultimately have sb: "strict_ok (JObj ?body)" using nums i64 unfolding bundle_document_def by (simp del: strict_ok.simps(4) add: strict_ok.simps(4) [of "_ # _"])
  have strict: "strict_ok (JObj d)" unfolding d_def by (rule strict_dict_set [OF sb]) simp
  have parse: "parse_strict_json (chomp raw) MAX_BUNDLE_BYTES = Inr k"
    unfolding k_def raw(1) chomp_canonical by (rule parse_canonical_dict [OF strict raw(2) [unfolded raw(1)]])
  have canon: "(chomp raw \<noteq> canonical_json k) = False" by (simp add: raw(1) k_def canonical_json_dict chomp_canonical)
  have keys: "(\<not> keys_are k bundle_keys) = False"
    by (auto simp: keys_are_def k_def d_def bundle_document_def bundle_keys_def)
  have dist: "distinct (map fst d)" using strict by simp
  have get: "jget k x = jsort (jget ?body x)" if "x \<noteq> ''bundle_id''" for x
    unfolding k_def jget_canonical [OF dist] using that by (simp add: d_def jget_dict_set)
  have idk: "jget k ''bundle_id'' = JStr i" unfolding k_def jget_canonical [OF dist] by (simp add: d_def jget_dict_set)
  have "sha_digest_text i" unfolding cp(2) bundle_id_for_def by (rule sha_digest_text_sha)
  moreover have "bundle_id_for k = i" unfolding k_def d_def bundle_id_canonical cp(2) ..
  ultimately have identity: "bundle_identity k = Inr (previous, i)"
    using terms by (cases previous) (simp_all add: bundle_identity_def idk get get_bundle_document opt_text_def sha_digest_def
      bundle_terms_ok_def guardE_def)
  have header: "bundle_header p k (Some t) = Inr (epoch, generated)"
  proof -
    obtain until where times: "parse_time (JStr made) ''bundle generated_at'' = Inr generated"
      "parse_time (JStr until_text) ''bundle valid_until'' = Inr until"
      "fresh_at (Some t) generated until (rp_max_age p) (rp_max_future p)" using terms by (auto simp: bundle_terms_ok_def)
    have tw: "time_window (jget k ''generated_at'') ''bundle generated_at'' (jget k ''valid_until'') ''bundle valid_until''
         (Some t) (rp_max_age p) (rp_max_future p) a b e = Inr (generated, until)" for a b e
      by (rule time_window_Inr [OF _ _ times(3)]) (simp_all add: get get_bundle_document times)
    have bw: "\<exists>w. block_window a b e k (rp_block p) (rp_max_span p) = Inr w" for a b e
      by (rule exI, rule block_window_Inr)
        (use terms in \<open>simp_all add: get get_bundle_document bundle_terms_ok_def natural64_def nat_field_def int_field_def\<close>)
    obtain w where w: "block_window (\<lambda>n. ''invalid bundle '' @ n) ''ML inference bundle is outside its block window''
         ''ML inference bundle block window is invalid or too wide'' k (rp_block p) (rp_max_span p) = Inr w" using bw by blast
    show ?thesis using terms unfolding bundle_header_def w tw
      by (simp add: get get_bundle_document same_value_def nonnegative_int_def bundle_terms_ok_def natural64_def nat_field_def
        int_field_def guardE_def)
  qed
  have "map (\<lambda>r. JObj (canonical_dict r)) rs = map JObj rs" using each by simp
  then have "jget k ''receipts'' = JArr (map JObj rs)"
    by (simp add: get get_bundle_document comp_def jsort_dict del: jsort.simps(2))
  moreover have "sorted (map (\<lambda>r. str_field r ''receipt_id'') rs)" unfolding rs(2) by simp
  ultimately have receipts: "bundle_receipts k = Inr rs" using read_bundle_receipts rs(3-5) by blast
  have ne: "items \<noteq> []" using good(1) rs(3) by (auto dest: list_all2_lengthD)
  note all = admit_all [OF good(1), of "[]", simplified, OF good(2)]
  show ?thesis
    unfolding verify_bundle_def parse bindE_Inr canon guardE_simps require_exact_keys_def keys header identity prod.case cp(1) receipts all
    using ne by (simp add: k_def d_def)
qed

end
