(* ===== verification/Ml_Aggregate.thy ===== *)
theory Ml_Aggregate
  imports Ml_Chain
begin

text \<open>
  \<open>cathedral_thin/ml_receipts.py\<close>, from the admitted receipts to a score report: the aggregation per miner
  (\<open>aggregate_receipts\<close>) and the report body a source signs (\<open>score_report_body_from_bundle\<close>).
\<close>

section \<open>Sums of decimals\<close>

text \<open>Addition in a context of 64 digits, rounded half-even.\<close>

definition dec_round64 :: "dec \<Rightarrow> dec" where
  "dec_round64 d =
     (let n = length (nat_str (nat \<bar>fst d\<bar>)) in
      if n \<le> 64 then d
      else let e = n - 64; q = round_half_even (of_int (fst d) / 10 ^ e) in
           if e \<le> snd d then (q, snd d - e) else (q * 10 ^ (e - snd d), 0))"

definition dec_add64 :: "dec \<Rightarrow> dec \<Rightarrow> dec" where
  "dec_add64 a b =
     (let m = max (snd a) (snd b) in dec_round64 (fst a * 10 ^ (m - snd a) + fst b * 10 ^ (m - snd b), m))"

section \<open>Aggregation\<close>

record aggregate_row =
  ar_work :: dec
  ar_requests :: int
  ar_input :: int
  ar_output :: int
  ar_receipts :: "string list"
  ar_models :: "string list"
  ar_images :: "string list"
  ar_runners :: "string list"

definition empty_row :: aggregate_row where
  "empty_row = \<lparr>ar_work = (0, 0), ar_requests = 0, ar_input = 0, ar_output = 0, ar_receipts = [], ar_models = [], ar_images = [],
     ar_runners = []\<rparr>"

definition row_add :: "verified_receipt \<Rightarrow> aggregate_row \<Rightarrow> aggregate_row" where
  "row_add r w =
     \<lparr>ar_work = dec_add64 (ar_work w) (ve_work r), ar_requests = ar_requests w + 1, ar_input = ar_input w + ve_input_tokens r,
      ar_output = ar_output w + ve_output_tokens r, ar_receipts = ar_receipts w @ [ve_receipt_id r],
      ar_models = List.insert (ve_weights r) (ar_models w), ar_images = List.insert (ve_image r) (ar_images w),
      ar_runners = List.insert (ve_runner r) (ar_runners w)\<rparr>"

record aggregation =
  ag_receipts :: "string list"
  ag_requests :: "string list"
  ag_rows :: "(string \<times> aggregate_row) list"

definition row_of :: "(string \<times> aggregate_row) list \<Rightarrow> string \<Rightarrow> aggregate_row" where
  "row_of rows h = (case map_of rows h of None \<Rightarrow> empty_row | Some w \<Rightarrow> w)"

definition aggregate_step :: "aggregation \<Rightarrow> verified_receipt \<Rightarrow> aggregation res" where
  "aggregate_step a r =
     guardE (ve_receipt_id r \<in> set (ag_receipts a) \<or> ve_request_id r \<in> set (ag_requests a))
       ''duplicate receipt or request cannot be aggregated''
     (Inr \<lparr>ag_receipts = ve_receipt_id r # ag_receipts a, ag_requests = ve_request_id r # ag_requests a,
        ag_rows = (if ve_attested r then dict_set (ve_miner r) (row_add r (row_of (ag_rows a) (ve_miner r))) (ag_rows a)
                   else ag_rows a)\<rparr>)"

text \<open>A finished row carries its work as canonical text and its lists sorted.\<close>

type_synonym final_row = "string \<times> aggregate_row"

definition finish_row :: "aggregate_row \<Rightarrow> final_row res" where
  "finish_row w =
     bindE (canonical_decimal (ar_work w)) (\<lambda>work.
       Inr (work, w\<lparr>ar_receipts := sort (ar_receipts w), ar_models := sort (ar_models w), ar_images := sort (ar_images w),
          ar_runners := sort (ar_runners w)\<rparr>))"

definition aggregate_receipts :: "verified_receipt list \<Rightarrow> (string \<times> final_row) list res" where
  "aggregate_receipts rs =
     bindE (foldE aggregate_step \<lparr>ag_receipts = [], ag_requests = [], ag_rows = []\<rparr> rs) (\<lambda>a.
     bindE (mapE (\<lambda>(h, w). bindE (finish_row w) (\<lambda>f. Inr (h, f))) (ag_rows a)) (\<lambda>rows. Inr (sort_items rows)))"

section \<open>The score report of a bundle\<close>

definition bundle_reasons :: "string list" where
  "bundle_reasons = sort [''model_identity_bound'', ''output_commitment_bound'', ''receipt_signature_verified'',
     ''request_binding_verified'', ''validator_request_authorized'', ''attestation_verified'']"

definition bundle_entry :: "string \<Rightarrow> string option \<Rightarrow> string \<times> final_row \<Rightarrow> json" where
  "bundle_entry bundle_id uri e =
     (case e of (h, work, w) \<Rightarrow>
        JObj [(''miner_hotkey'', JStr h),
          (''metrics'', JObj [(''input_tokens'', JStr (int_str (ar_input w))), (''output_tokens'', JStr (int_str (ar_output w))),
             (''verified_requests'', JStr (int_str (ar_requests w))), (''verified_work_units'', JStr work)]),
          (''asserted_score'', JNull), (''reason_codes'', JArr (map JStr bundle_reasons)),
          (''evidence'', JArr [JObj [(''kind'', JStr ''cathedral_ml_inference_bundle_v1''), (''id'', JStr bundle_id),
             (''digest'', JStr bundle_id), (''uri'', opt_text uri)]])])"

record report_terms =
  rt_class :: string
  rt_source :: string
  rt_key :: string
  rt_policy_digest :: string
  rt_verifier_digest :: string
  rt_previous :: "string option"
  rt_uri :: "string option"

definition score_report_body_from_bundle :: "verified_bundle \<Rightarrow> report_terms \<Rightarrow> jdict res" where
  "score_report_body_from_bundle b m =
     bindE (aggregate_receipts (vb_receipts b)) (\<lambda>rows.
     guardE (rows = []) ''bundle has no creditable inference receipts''
     (bindE (sha_digest (JStr (rt_verifier_digest m)) ''score verifier digest'') (\<lambda>claimed.
      guardE (set (map ve_verifier (filter ve_attested (vb_receipts b))) \<noteq> {Some claimed})
        ''score verifier digest does not match every admitted receipt''
      (bindE (sha_digest (JStr (rt_policy_digest m)) ''score policy digest'') (\<lambda>policy_digest.
       bindE (sha_digest (JStr (rt_verifier_digest m)) ''score verifier digest'') (\<lambda>verifier_digest.
       let d = vb_document b in
       Inr [(''schema'', JStr ''cathedral_score_class_report_v1''), (''network'', jget d ''network''), (''netuid'', jget d ''netuid''),
         (''class_id'', JStr (rt_class m)), (''source_id'', JStr (rt_source m)), (''source_epoch'', JInt (vb_epoch b)),
         (''generated_at'', jget d ''generated_at''), (''valid_until'', jget d ''valid_until''),
         (''valid_from_block'', jget d ''valid_from_block''), (''valid_until_block'', jget d ''valid_until_block''),
         (''complete'', JBool True), (''policy_digest'', JStr policy_digest), (''verifier_digest'', JStr verifier_digest),
         (''previous_report_id'', opt_text (rt_previous m)),
         (''entries'', JArr (map (bundle_entry (vb_bundle_id b) (rt_uri m)) rows)), (''signing_key_id'', JStr (rt_key m))]))))))"

section \<open>No work is lost or invented\<close>

text \<open>A work amount as receipts carry it: at most 12 fractional digits and at most \<open>10 ^ 12\<close>.\<close>

definition work_ok :: "dec \<Rightarrow> bool" where
  "work_ok d = (0 \<le> fst d \<and> snd d \<le> 12 \<and> dec_val d \<le> 10 ^ 12)"

definition mine :: "verified_receipt list \<Rightarrow> string \<Rightarrow> verified_receipt list" where
  "mine rs h = filter (\<lambda>r. ve_attested r \<and> ve_miner r = h) rs"

lemma dec_add64_exact:
  assumes a: "0 \<le> fst a" "snd a \<le> 12" "dec_val a \<le> of_nat n * 10 ^ 12" and b: "work_ok b" and n: "n < 10 ^ 30"
  shows "0 \<le> fst (dec_add64 a b) \<and> snd (dec_add64 a b) \<le> 12 \<and> dec_val (dec_add64 a b) = dec_val a + dec_val b"
proof -
  let ?m = "max (snd a) (snd b)"
  let ?c = "fst a * 10 ^ (?m - snd a) + fst b * 10 ^ (?m - snd b)"
  have m: "?m \<le> 12" "snd a \<le> ?m" "snd b \<le> ?m" using a b by (auto simp: work_ok_def)
  have c0: "0 \<le> ?c" using a b by (simp add: work_ok_def)
  have scale: "rat_of_int (x * 10 ^ (?m - k)) / 10 ^ ?m = of_int x / 10 ^ k" if "k \<le> ?m" for x k
  proof -
    have "(10 :: rat) ^ ?m = 10 ^ k * 10 ^ (?m - k)" using that by (simp flip: power_add)
    then show ?thesis by simp
  qed
  have val: "rat_of_int ?c / 10 ^ ?m = dec_val a + dec_val b"
    using scale [OF m(2), of "fst a"] scale [OF m(3), of "fst b"] by (simp add: dec_val_def add_divide_distrib)
  have "rat_of_int ?c / 10 ^ ?m \<le> (of_nat n + 1) * 10 ^ 12" using val a(3) b by (simp add: work_ok_def algebra_simps)
  then have "rat_of_int ?c \<le> (of_nat n + 1) * 10 ^ 12 * 10 ^ ?m" by (simp add: divide_simps)
  also have "\<dots> \<le> (10 ^ 30) * 10 ^ 12 * 10 ^ 12"
  proof (intro mult_mono)
    have "Suc n \<le> 10 ^ 30" using n by simp
    then have "rat_of_nat (Suc n) \<le> rat_of_nat (10 ^ 30)" by (simp only: of_nat_le_iff)
    then show "of_nat n + 1 \<le> (10 :: rat) ^ 30" by simp
    show "(10 :: rat) ^ ?m \<le> 10 ^ 12" using m(1) by (intro power_increasing) simp_all
  qed simp_all
  finally have "rat_of_int ?c \<le> rat_of_int (10 ^ 54)" by simp
  then have "?c \<le> 10 ^ 54" by (simp only: of_int_le_iff)
  then have "?c < 10 ^ 64" by (rule le_less_trans) simp
  then have "nat \<bar>?c\<bar> < 10 ^ Suc 63" using c0 by (simp add: nat_less_iff)
  from length_nat_str [OF this] have "length (nat_str (nat \<bar>?c\<bar>)) \<le> 64" by simp
  then have "dec_add64 a b = (?c, ?m)" by (simp add: dec_add64_def dec_round64_def Let_def)
  then show ?thesis using c0 m(1) val by (simp add: dec_val_def)
qed


text \<open>What a row holds of the receipts seen so far.\<close>

definition row_sums :: "verified_receipt list \<Rightarrow> aggregate_row \<Rightarrow> bool" where
  "row_sums rs w =
     (0 \<le> fst (ar_work w) \<and> snd (ar_work w) \<le> 12 \<and> dec_val (ar_work w) = (\<Sum>r \<leftarrow> rs. dec_val (ve_work r)) \<and>
      ar_requests w = int (length rs) \<and> ar_input w = (\<Sum>r \<leftarrow> rs. ve_input_tokens r) \<and> ar_output w = (\<Sum>r \<leftarrow> rs. ve_output_tokens r) \<and>
      ar_receipts w = map ve_receipt_id rs \<and> set (ar_models w) = ve_weights ` set rs \<and> set (ar_images w) = ve_image ` set rs \<and>
      set (ar_runners w) = ve_runner ` set rs)"

lemma row_sums_empty: "row_sums [] empty_row"
  by (simp add: row_sums_def empty_row_def dec_val_def)

lemma row_add_sums:
  assumes "row_sums rs w" "list_all (\<lambda>r. work_ok (ve_work r)) rs" "work_ok (ve_work r)" "length rs < 10 ^ 30"
  shows "row_sums (rs @ [r]) (row_add r w)"
proof -
  have "(\<Sum>r \<leftarrow> rs. dec_val (ve_work r)) \<le> (\<Sum>r \<leftarrow> rs. 10 ^ 12)"
    by (rule sum_list_mono) (use assms(2) in \<open>simp add: list_all_iff work_ok_def\<close>)
  also have "\<dots> = of_nat (length rs) * 10 ^ 12" by (induction rs) (simp_all add: algebra_simps)
  finally have "dec_val (ar_work w) \<le> of_nat (length rs) * 10 ^ 12" using assms(1) by (simp add: row_sums_def)
  from dec_add64_exact [OF _ _ this assms(3,4)] assms(1) show ?thesis
    by (auto simp: row_sums_def row_add_def)
qed

definition rows_ok :: "verified_receipt list \<Rightarrow> (string \<times> aggregate_row) list \<Rightarrow> bool" where
  "rows_ok rs rows = (distinct (map fst rows) \<and> fst ` set rows = ve_miner ` {r \<in> set rs. ve_attested r} \<and>
     (\<forall>h. row_sums (mine rs h) (row_of rows h)))"

lemma row_of_set: "row_of (dict_set k w rows) h = (if h = k then w else row_of rows h)"
  by (simp add: row_of_def)

lemma mine_snoc: "mine (rs @ [r]) h = (if ve_attested r \<and> ve_miner r = h then mine rs h @ [r] else mine rs h)"
  by (simp add: mine_def)

lemma aggregate_step_rows:
  assumes ok: "rows_ok rs (ag_rows a)" and step: "aggregate_step a r = Inr a'"
    and bounds: "list_all (\<lambda>r. work_ok (ve_work r)) rs" "work_ok (ve_work r)" "length rs < 10 ^ 30"
  shows "rows_ok (rs @ [r]) (ag_rows a')"
proof (cases "ve_attested r")
  case False
  then have "ag_rows a' = ag_rows a" using step by (auto simp: aggregate_step_def elim!: guardE_InrE)
  moreover have "{x \<in> set (rs @ [r]). ve_attested x} = {x \<in> set rs. ve_attested x}" using False by auto
  ultimately show ?thesis using ok False by (simp add: rows_ok_def mine_snoc)
next
  case True
  then have rows: "ag_rows a' = dict_set (ve_miner r) (row_add r (row_of (ag_rows a) (ve_miner r))) (ag_rows a)"
    using step by (auto simp: aggregate_step_def elim!: guardE_InrE)
  have "length (mine rs h) < 10 ^ 30" for h
    using bounds(3) length_filter_le [of "\<lambda>r. ve_attested r \<and> ve_miner r = h" rs] unfolding mine_def by linarith
  moreover have "list_all (\<lambda>r. work_ok (ve_work r)) (mine rs h)" for h using bounds(1) by (auto simp: mine_def list_all_iff)
  ultimately have "row_sums (mine rs (ve_miner r) @ [r]) (row_add r (row_of (ag_rows a) (ve_miner r)))"
    using ok bounds(2) by (intro row_add_sums) (auto simp: rows_ok_def)
  then have "\<forall>h. row_sums (mine (rs @ [r]) h) (row_of (ag_rows a') h)"
    using ok True unfolding rows by (auto simp: rows_ok_def mine_snoc row_of_set)
  moreover have "fst ` set (ag_rows a') = ve_miner ` {x \<in> set (rs @ [r]). ve_attested x}"
    using ok True unfolding rows rows_ok_def by auto
  moreover have "distinct (map fst (ag_rows a'))" using ok unfolding rows rows_ok_def by (intro distinct_dict_set) simp
  ultimately show ?thesis unfolding rows_ok_def by (intro conjI)
qed

lemma aggregate_rows:
  assumes "foldE aggregate_step a rs = Inr a'" "rows_ok seen (ag_rows a)" "list_all (\<lambda>r. work_ok (ve_work r)) (seen @ rs)"
    "length (seen @ rs) < 10 ^ 30"
  shows "rows_ok (seen @ rs) (ag_rows a')"
  using assms
proof (induction rs arbitrary: a seen)
  case (Cons r rs)
  then obtain a1 where a1: "aggregate_step a r = Inr a1" "foldE aggregate_step a1 rs = Inr a'" by (auto elim!: bindE_InrE)
  have "rows_ok (seen @ [r]) (ag_rows a1)" using Cons.prems by (intro aggregate_step_rows [OF _ a1(1)]) auto
  from Cons.IH [OF a1(2) this] Cons.prems show ?case by simp
qed simp

text \<open>Distinct receipts and requests always aggregate.\<close>

lemma aggregate_fold_total:
  assumes "distinct (map ve_receipt_id rs)" "distinct (map ve_request_id rs)"
    "set (ag_receipts a) \<inter> ve_receipt_id ` set rs = {}" "set (ag_requests a) \<inter> ve_request_id ` set rs = {}"
  shows "\<exists>a'. foldE aggregate_step a rs = Inr a'"
  using assms
proof (induction rs arbitrary: a)
  case (Cons r rs)
  then obtain a1 where a1: "aggregate_step a r = Inr a1" "ag_receipts a1 = ve_receipt_id r # ag_receipts a"
    "ag_requests a1 = ve_request_id r # ag_requests a" by (auto simp: aggregate_step_def guardE_def)
  have "\<exists>a'. foldE aggregate_step a1 rs = Inr a'" using Cons.prems by (intro Cons.IH) (auto simp: a1)
  then show ?case by (simp add: a1)
qed simp



section \<open>The result of the aggregation\<close>

text \<open>A finished row: the exact sums of the miner's attested receipts.\<close>

definition row_exact :: "verified_receipt list \<Rightarrow> final_row \<Rightarrow> bool" where
  "row_exact rs f =
     ((\<exists>e. decimal_text (fst f) = Some e \<and> dec_val e = (\<Sum>r \<leftarrow> rs. dec_val (ve_work r))) \<and>
      ar_requests (snd f) = int (length rs) \<and> ar_input (snd f) = (\<Sum>r \<leftarrow> rs. ve_input_tokens r) \<and>
      ar_output (snd f) = (\<Sum>r \<leftarrow> rs. ve_output_tokens r) \<and> ar_receipts (snd f) = sort (map ve_receipt_id rs))"

definition aggregated :: "verified_receipt list \<Rightarrow> (string \<times> final_row) list \<Rightarrow> bool" where
  "aggregated rs rows =
     (sorted (map fst rows) \<and> distinct (map fst rows) \<and> set (map fst rows) = ve_miner ` {r \<in> set rs. ve_attested r} \<and>
      (\<forall>(h, f) \<in> set rows. row_exact (mine rs h) f))"

lemma finish_row_exact:
  assumes "row_sums rs w" "list_all (\<lambda>r. work_ok (ve_work r)) rs" "length rs < 10 ^ 17"
  shows "\<exists>f. finish_row w = Inr f \<and> row_exact rs f"
proof -
  have "(\<Sum>r \<leftarrow> rs. dec_val (ve_work r)) \<le> (\<Sum>r \<leftarrow> rs. 10 ^ 12)"
    by (rule sum_list_mono) (use assms(2) in \<open>simp add: list_all_iff work_ok_def\<close>)
  also have "\<dots> = of_nat (length rs) * 10 ^ 12" by (induction rs) (simp_all add: algebra_simps)
  also have "\<dots> < 10 ^ 17 * 10 ^ 12"
  proof (rule mult_strict_right_mono)
    have "rat_of_nat (length rs) < rat_of_nat (10 ^ 17)" using assms(3) by (simp only: of_nat_less_iff)
    then show "rat_of_nat (length rs) < 10 ^ 17" by simp
  qed simp
  also have "\<dots> < (10 :: rat) ^ 30" by simp
  finally have small: "dec_val (fst (ar_work w), snd (ar_work w)) < 10 ^ 30" using assms(1) by (simp add: row_sums_def)
  obtain work where work: "canonical_decimal (ar_work w) = Inr work"
    using canonical_decimal_total [OF _ _ small] assms(1) by (auto simp: row_sums_def)
  obtain e where "decimal_text work = Some e" "dec_val e = dec_val (ar_work w)" using canonical_decimal_value [OF work] by blast
  then have "\<exists>e. decimal_text work = Some e \<and> dec_val e = (\<Sum>r \<leftarrow> rs. dec_val (ve_work r))"
    using assms(1) unfolding row_sums_def by metis
  then show ?thesis using assms(1) work by (simp add: finish_row_def row_exact_def row_sums_def del: split_paired_Ex)
qed

lemma mapE_pairs:
  assumes "\<And>k v. (k, v) \<in> set xs \<Longrightarrow> \<exists>y. f v = Inr y \<and> P k y"
  shows "\<exists>ys. mapE (\<lambda>(k, v). bindE (f v) (\<lambda>y. Inr (k, y))) xs = Inr ys \<and> map fst ys = map fst xs \<and> (\<forall>(k, y) \<in> set ys. P k y)"
  using assms
proof (induction xs)
  case (Cons x xs)
  obtain k v where x: "x = (k, v)" by (cases x)
  obtain y where y: "f v = Inr y" "P k y" using Cons.prems x by auto
  obtain ys where "mapE (\<lambda>(k, v). bindE (f v) (\<lambda>y. Inr (k, y))) xs = Inr ys" "map fst ys = map fst xs" "\<forall>(k, y) \<in> set ys. P k y"
    using Cons by auto
  then show ?case using y by (auto simp: x)
qed simp

lemma aggregate_exact:
  assumes d: "distinct (map ve_receipt_id rs)" "distinct (map ve_request_id rs)" and w: "list_all (\<lambda>r. work_ok (ve_work r)) rs"
    and n: "length rs < 10 ^ 17"
  shows "\<exists>rows. aggregate_receipts rs = Inr rows \<and> aggregated rs rows"
proof -
  obtain a where a: "foldE aggregate_step \<lparr>ag_receipts = [], ag_requests = [], ag_rows = []\<rparr> rs = Inr a"
    using aggregate_fold_total [OF d, of "\<lparr>ag_receipts = [], ag_requests = [], ag_rows = []\<rparr>"] by auto
  have "rows_ok [] (ag_rows \<lparr>ag_receipts = [], ag_requests = [], ag_rows = []\<rparr>)"
    by (simp add: rows_ok_def mine_def row_of_def row_sums_empty)
  from aggregate_rows [OF a this] w n have ok: "rows_ok rs (ag_rows a)" by simp
  have "\<exists>f. finish_row v = Inr f \<and> row_exact (mine rs h) f" if "(h, v) \<in> set (ag_rows a)" for h v
  proof (rule finish_row_exact)
    have "row_of (ag_rows a) h = v" using ok that by (simp add: rows_ok_def row_of_def)
    then show "row_sums (mine rs h) v" using ok by (auto simp: rows_ok_def)
    show "list_all (\<lambda>r. work_ok (ve_work r)) (mine rs h)" using w by (auto simp: mine_def list_all_iff)
    show "length (mine rs h) < 10 ^ 17"
      using n length_filter_le [of "\<lambda>r. ve_attested r \<and> ve_miner r = h" rs] unfolding mine_def by linarith
  qed
  from mapE_pairs [where xs = "ag_rows a" and f = finish_row and P = "\<lambda>h. row_exact (mine rs h)", OF this] obtain rows where rows: "mapE (\<lambda>(h, w). bindE (finish_row w) (\<lambda>f. Inr (h, f))) (ag_rows a) = Inr rows"
    "map fst rows = map fst (ag_rows a)" "\<forall>(h, f) \<in> set rows. row_exact (mine rs h) f" by blast
  have "aggregated rs (sort_items rows)"
  proof -
    have "sorted (map fst (sort_items rows))" by (simp add: sort_items_def)
    moreover have "distinct (map fst (sort_items rows))" using ok rows(2) by (simp add: rows_ok_def)
    moreover have "set (map fst (sort_items rows)) = ve_miner ` {r \<in> set rs. ve_attested r}"
    proof -
      have "set (map fst (sort_items rows)) = set (map fst rows)" by simp
      also have "\<dots> = fst ` set (ag_rows a)" by (simp only: rows(2) set_map)
      finally show ?thesis using ok by (simp add: rows_ok_def)
    qed
    ultimately show ?thesis using rows(3) by (simp add: aggregated_def)
  qed
  then show ?thesis using a rows(1) by (simp add: aggregate_receipts_def)
qed

text \<open>Nothing is lost between the rows: together they hold the work of all attested receipts.\<close>

lemma sum_partition:
  assumes "distinct hs" "set hs = ve_miner ` {r \<in> set rs. ve_attested r}"
  shows "(\<Sum>h \<leftarrow> hs. \<Sum>r \<leftarrow> mine rs h. f r) = (\<Sum>r \<leftarrow> filter ve_attested rs. (f r :: rat))"
  using assms
proof (induction rs arbitrary: hs rule: rev_induct)
  case Nil
  then show ?case by simp
next
  case (snoc r rs)
  let ?S = "ve_miner ` {x \<in> set rs. ve_attested x}"
  have split: "(\<Sum>h \<leftarrow> hs. \<Sum>x \<leftarrow> mine (rs @ [r]) h. f x) =
      (\<Sum>h \<leftarrow> hs. \<Sum>x \<leftarrow> mine rs h. f x) + (if ve_attested r then f r else 0)"
  proof -
    have "(\<Sum>h \<leftarrow> hs. \<Sum>x \<leftarrow> mine (rs @ [r]) h. f x)
        = (\<Sum>h \<leftarrow> hs. (\<Sum>x \<leftarrow> mine rs h. f x) + (if ve_attested r \<and> ve_miner r = h then f r else 0))"
      by (rule arg_cong [where f = sum_list], rule map_cong) (simp_all add: mine_snoc)
    also have "\<dots> = (\<Sum>h \<leftarrow> hs. \<Sum>x \<leftarrow> mine rs h. f x) + (\<Sum>h \<leftarrow> hs. if ve_attested r \<and> ve_miner r = h then f r else 0)"
      by (rule sum_list_addf)
    also have "(\<Sum>h \<leftarrow> hs. if ve_attested r \<and> ve_miner r = h then f r else 0) = (if ve_attested r then f r else 0)"
    proof (cases "ve_attested r")
      case True
      then have "ve_miner r \<in> set hs" using snoc.prems(2) by auto
      then show ?thesis using True snoc.prems(1) by (simp add: sum_list_distinct_conv_sum_set sum.delta)
    qed simp
    finally show ?thesis .
  qed
  have "(\<Sum>h \<leftarrow> hs. \<Sum>x \<leftarrow> mine rs h. f x) = (\<Sum>x \<leftarrow> filter ve_attested rs. f x)"
  proof -
    let ?hs = "filter (\<lambda>h. h \<in> ?S) hs"
    have empty: "(\<Sum>x \<leftarrow> mine rs h. f x) = 0" if "h \<notin> ?S" for h
    proof -
      have "mine rs h = []" using that by (auto simp: mine_def filter_empty_conv)
      then show ?thesis by simp
    qed
    have "(\<Sum>h \<leftarrow> hs. \<Sum>x \<leftarrow> mine rs h. f x) = (\<Sum>h \<leftarrow> ?hs. \<Sum>x \<leftarrow> mine rs h. f x)"
      by (induction hs) (simp_all add: empty)
    also have "\<dots> = (\<Sum>x \<leftarrow> filter ve_attested rs. f x)"
    proof (rule snoc.IH)
      show "distinct ?hs" using snoc.prems(1) by simp
      show "set ?hs = ?S" using snoc.prems(2) by auto
    qed
    finally show ?thesis .
  qed
  then show ?case by (simp add: split)
qed

end
