(* ===== verification/Ml_Report.thy ===== *)
theory Ml_Report
  imports Ml_Aggregate
begin

text \<open>
  From inference receipts to scores (\<open>cathedral_thin/ml_receipts.py\<close> with \<open>score_classes.py\<close>): the report
  body made from an accepted bundle is one that \<open>verify_report\<close> accepts once it is signed, and its
  entries carry the exact sums of the receipts.
\<close>

section \<open>What an accepted receipt brings\<close>

lemma decimal_text_bounds: "decimal_text t = Some e \<Longrightarrow> 0 \<le> fst e \<and> snd e \<le> 12"
  by (auto simp: decimal_text_def Let_def split: if_splits list.splits)

lemma receipt_miner_name:
  assumes "verify_receipt env raw p now di = Inr r"
  shows "1 \<le> utf8_length (ve_miner r) \<and> utf8_length (ve_miner r) \<le> 128"
proof -
  obtain d h completed c rid v where h: "receipt_header p d = Inr h" and r: "r = verified_from d h completed c rid v"
    using verify_receipt_parts [OF assms] by blast
  from h have "1 \<le> utf8_length (rh_miner h) \<and> utf8_length (rh_miner h) \<le> 128" unfolding receipt_header_def
    by (elim bindE_InrE guardE_InrE) (auto simp: bounded_string_Inr)
  then show ?thesis by (simp add: r verified_from_def)
qed

lemma receipt_amounts:
  assumes "verify_receipt env raw p now di = Inr r"
  shows "work_ok (ve_work r) \<and> natural64 (ve_input_tokens r) \<and> natural64 (ve_output_tokens r)"
proof -
  let ?d = "ve_document r"
  have ok: "receipt_ok env raw p now di r" by (rule verify_receipt_ok [OF assms])
  then obtain t where t: "decimal_text t = Some (ve_work r)" "dec_val (ve_work r) \<le> 1000000000000"
    and s: "strict_ok (JObj ?d)" and tok: "jsub ?d ''result'' ''input_tokens'' = JInt (ve_input_tokens r)" "0 \<le> ve_input_tokens r"
      "jsub ?d ''result'' ''output_tokens'' = JInt (ve_output_tokens r)" "0 \<le> ve_output_tokens r"
    unfolding receipt_ok_def Let_def by blast
  from strict_sub [OF s, of "''result''" "''input_tokens''"] strict_sub [OF s, of "''result''" "''output_tokens''"] tok have "natural64 (ve_input_tokens r)" "natural64 (ve_output_tokens r)"
    by (simp_all add: int64_def natural64_def)
  then show ?thesis using decimal_text_bounds [OF t(1)] t(2) by (simp add: work_ok_def)
qed

section \<open>The entries\<close>

lemma decimal_text_natural:
  assumes "0 \<le> n" "n < 10 ^ 30"
  shows "decimal_text (int_str n) = Some (n, 0)"
proof -
  obtain m where m: "n = int m" using assms(1) nonneg_int_cases by blast
  have dig: "all_digits (nat_str m)" by (auto simp: all_digits_def nat_str_digits)
  have tw: "takeWhile is_digit (nat_str m) = nat_str m" "dropWhile is_digit (nat_str m) = []"
    using dig by (simp_all add: all_digits_def)
  have "m < 10 ^ Suc 29" using assms(2) by (simp add: m)
  from length_nat_str [OF this] have "length (nat_str m) \<le> 30" by simp
  moreover have "int_str n = nat_str m" by (simp add: m int_str_def)
  ultimately show ?thesis using nat_str_leading [of m] nat_str_long [of m]
    by (auto simp: m decimal_text_def Let_def tw)
qed

definition bundle_score :: "string \<Rightarrow> string option \<Rightarrow> string \<times> final_row \<Rightarrow> score_entry" where
  "bundle_score bundle_id uri e =
     (case e of (h, work, w) \<Rightarrow>
        \<lparr>se_hotkey = h,
         se_metrics = [(''input_tokens'', (ar_input w, 0)), (''output_tokens'', (ar_output w, 0)),
            (''verified_requests'', (ar_requests w, 0)), (''verified_work_units'', the (decimal_text work))],
         se_asserted = None, se_reasons = bundle_reasons,
         se_evidence = [\<lparr>ev_kind = ''cathedral_ml_inference_bundle_v1'', ev_id = bundle_id, ev_digest = bundle_id, ev_uri = uri\<rparr>]\<rparr>)"

text \<open>A row a report can carry.\<close>

definition row_fits :: "string \<times> final_row \<Rightarrow> bool" where
  "row_fits e = (case e of (h, work, w) \<Rightarrow>
     1 \<le> utf8_length h \<and> utf8_length h \<le> 512 \<and> decimal_text work \<noteq> None \<and> 0 \<le> ar_requests w \<and> ar_requests w < 10 ^ 30 \<and>
     0 \<le> ar_input w \<and> ar_input w < 10 ^ 30 \<and> 0 \<le> ar_output w \<and> ar_output w < 10 ^ 30)"

lemma parse_bundle_evidence:
  assumes "digest_text i" "evidence_uri ip (opt_text uri) = Inr uri"
  shows "foldE (parse_evidence ip) [] [jsort (JObj [(''kind'', JStr ''cathedral_ml_inference_bundle_v1''), (''id'', JStr i),
       (''digest'', JStr i), (''uri'', opt_text uri)])]
    = Inr [\<lparr>ev_kind = ''cathedral_ml_inference_bundle_v1'', ev_id = i, ev_digest = i, ev_uri = uri\<rparr>]"
proof -
  let ?e = "[(''kind'', JStr ''cathedral_ml_inference_bundle_v1''), (''id'', JStr i), (''digest'', JStr i), (''uri'', opt_text uri)]"
  have dist: "distinct (map fst ?e)" by simp
  have keys: "(\<not> keys_are (canonical_dict ?e) evidence_keys) = False" by (auto simp: keys_are_def evidence_keys_def)
  have j: "jsort (opt_text uri) = opt_text uri" by (cases uri) (simp_all add: opt_text_def)
  have gets: "jget (canonical_dict ?e) ''kind'' = JStr ''cathedral_ml_inference_bundle_v1''" "jget (canonical_dict ?e) ''id'' = JStr i"
    "jget (canonical_dict ?e) ''digest'' = JStr i" "jget (canonical_dict ?e) ''uri'' = opt_text uri"
    unfolding jget_canonical [OF dist] by (simp_all add: jget_def j)
  have kind: "identifier_value (JStr ''cathedral_ml_inference_bundle_v1'') l = Inr ''cathedral_ml_inference_bundle_v1''" for l
  proof -
    have "identifier_text ''cathedral_ml_inference_bundle_v1''" by code_simp
    then show ?thesis by (simp add: identifier_value_def)
  qed
  have "parse_evidence ip [] (JObj (canonical_dict ?e)) =
      Inr [\<lparr>ev_kind = ''cathedral_ml_inference_bundle_v1'', ev_id = i, ev_digest = i, ev_uri = uri\<rparr>]"
    unfolding parse_evidence_def json.case require_exact_keys_def keys guardE_simps gets kind bindE_Inr
    using assms by (simp add: digest_value_def guardE_def)
  then show ?thesis unfolding jsort_dict by simp
qed

lemma parse_bundle_entry:
  assumes fits: "row_fits e" and i: "digest_text i" "evidence_uri ip (opt_text uri) = Inr uri"
  shows "parse_entry ip (jsort (bundle_entry i uri e)) = Inr (bundle_score i uri e)"
proof -
  obtain h work w where e: "e = (h, work, w)" by (cases e)
  let ?ms = "[(''input_tokens'', JStr (int_str (ar_input w))), (''output_tokens'', JStr (int_str (ar_output w))),
             (''verified_requests'', JStr (int_str (ar_requests w))), (''verified_work_units'', JStr work)]"
  let ?ev = "[JObj [(''kind'', JStr ''cathedral_ml_inference_bundle_v1''), (''id'', JStr i), (''digest'', JStr i), (''uri'', opt_text uri)]]"
  let ?d = "[(''miner_hotkey'', JStr h), (''metrics'', JObj ?ms), (''asserted_score'', JNull),
      (''reason_codes'', JArr (map JStr bundle_reasons)), (''evidence'', JArr ?ev)]"
  have dist: "distinct (map fst ?d)" by simp
  have keys: "(\<not> keys_are (canonical_dict ?d) entry_keys) = False" by (auto simp: keys_are_def entry_keys_def)
  have ms: "jsort (JObj ?ms) = JObj ?ms" by (simp add: sort_items_def)
  have rs: "jsort (JArr (map JStr bundle_reasons)) = JArr (map JStr bundle_reasons)" by simp
  have gets: "jget (canonical_dict ?d) ''miner_hotkey'' = JStr h" "jget (canonical_dict ?d) ''metrics'' = JObj ?ms"
    "jget (canonical_dict ?d) ''asserted_score'' = JNull" "jget (canonical_dict ?d) ''reason_codes'' = JArr (map JStr bundle_reasons)"
    "jget (canonical_dict ?d) ''evidence'' = JArr (map jsort ?ev)"
    unfolding jget_canonical [OF dist] by (simp_all add: jget_def ms del: jsort.simps(2))
  have reasons: "sorted_unique_texts identifier_text 1 32 (JArr (map JStr bundle_reasons)) = Some bundle_reasons" by code_simp
  obtain x where work: "decimal_text work = Some x" using fits by (auto simp: row_fits_def e)
  have names: "identifier_text ''input_tokens''" "identifier_text ''output_tokens''" "identifier_text ''verified_requests''"
    "identifier_text ''verified_work_units''" by code_simp+
  have dec: "decimal_value (JStr s) l True = Inr v" if "decimal_text s = Some v" for s l v
    using that decimal_text_bounds [OF that] by (simp add: decimal_value_def dec_val_def guardE_def not_less)
  have nums: "decimal_text (int_str (ar_input w)) = Some (ar_input w, 0)" "decimal_text (int_str (ar_output w)) = Some (ar_output w, 0)"
    "decimal_text (int_str (ar_requests w)) = Some (ar_requests w, 0)"
    using fits unfolding row_fits_def e prod.case by (blast intro: decimal_text_natural)+
  have metrics: "parse_metrics (JObj ?ms) = Inr [(''input_tokens'', (ar_input w, 0)), (''output_tokens'', (ar_output w, 0)),
      (''verified_requests'', (ar_requests w, 0)), (''verified_work_units'', x)]"
    by (simp add: parse_metrics_def MAX_METRICS_PER_ENTRY_def identifier_value_def names dec [OF nums(1)] dec [OF nums(2)]
      dec [OF nums(3)] dec [OF work] guardE_def)
  have evs: "foldE (parse_evidence ip) [] (map jsort ?ev)
      = Inr [\<lparr>ev_kind = ''cathedral_ml_inference_bundle_v1'', ev_id = i, ev_digest = i, ev_uri = uri\<rparr>]"
    using parse_bundle_evidence [OF i] by (simp only: list.map)
  have name: "(\<not> text_between (JStr h) 1 512) = False" using fits by (simp add: row_fits_def e text_between_def)
  have few: "(length (map jsort ?ev) > MAX_EVIDENCE_PER_ENTRY) = False" by (simp add: MAX_EVIDENCE_PER_ENTRY_def)
  have entry: "bundle_entry i uri e = JObj ?d" by (simp add: bundle_entry_def e)
  show ?thesis
    unfolding entry jsort_dict parse_entry_def json.case require_exact_keys_def keys guardE_simps gets name metrics bindE_Inr reasons
      option.case few evs
    by (simp add: bundle_score_def e work py_str_def)
qed


section \<open>The rows of an accepted bundle\<close>

lemma bundle_receipt_facts:
  assumes "bundle_ok env raw p now b" "r \<in> set (vb_receipts b)"
  shows "work_ok (ve_work r) \<and> natural64 (ve_input_tokens r) \<and> natural64 (ve_output_tokens r) \<and>
    1 \<le> utf8_length (ve_miner r) \<and> utf8_length (ve_miner r) \<le> 128"
proof -
  obtain raw' di where "verify_receipt env raw' p now di = Inr r" using assms unfolding bundle_ok_def credited_def Let_def by blast
  from receipt_amounts [OF this] receipt_miner_name [OF this] show ?thesis by blast
qed

lemma mine_subset: "set (mine rs h) \<subseteq> set rs" by (auto simp: mine_def)

lemma sum_bound: "(\<And>r. r \<in> set rs \<Longrightarrow> natural64 (f r)) \<Longrightarrow> 0 \<le> (\<Sum>r \<leftarrow> rs. f r) \<and> (\<Sum>r \<leftarrow> rs. f r) \<le> int (length rs) * 2 ^ 63"
proof (induction rs)
  case (Cons r rs)
  then have "natural64 (f r)" "0 \<le> (\<Sum>r \<leftarrow> rs. f r) \<and> (\<Sum>r \<leftarrow> rs. f r) \<le> int (length rs) * 2 ^ 63" by simp_all
  then show ?case by (simp add: natural64_def algebra_simps)
qed simp

lemma bundle_rows:
  assumes b: "bundle_ok env raw p now b"
  shows "\<exists>rows. aggregate_receipts (vb_receipts b) = Inr rows \<and> aggregated (vb_receipts b) rows \<and> length rows \<le> MAX_REPORT_ENTRIES \<and>
    (\<forall>e \<in> set rows. row_fits e)"
proof -
  let ?rs = "vb_receipts b"
  have d: "distinct (map ve_receipt_id ?rs)" "distinct (map ve_request_id ?rs)" "length ?rs \<le> MAX_BUNDLE_RECEIPTS"
    using b unfolding bundle_ok_def Let_def by blast+
  note facts = bundle_receipt_facts [OF b]
  have "list_all (\<lambda>r. work_ok (ve_work r)) ?rs" using facts by (simp add: list_all_iff)
  moreover have "length ?rs < 10 ^ 17" using d(3) by (simp add: MAX_BUNDLE_RECEIPTS_def)
  ultimately obtain rows where rows: "aggregate_receipts ?rs = Inr rows" "aggregated ?rs rows"
    using aggregate_exact [OF d(1,2)] by blast
  have keys: "distinct (map fst rows)" "set (map fst rows) = ve_miner ` {r \<in> set ?rs. ve_attested r}"
    using rows(2) unfolding aggregated_def by blast+
  have "length rows = card (set (map fst rows))" using distinct_card [OF keys(1)] by simp
  also have "\<dots> \<le> card (ve_miner ` set ?rs)" unfolding keys(2) by (intro card_mono) auto
  also have "\<dots> \<le> length ?rs" by (metis card_length length_map set_map)
  finally have len: "length rows \<le> MAX_REPORT_ENTRIES" using d(3) by (simp add: MAX_REPORT_ENTRIES_def MAX_BUNDLE_RECEIPTS_def)
  have "row_fits e" if e: "e \<in> set rows" for e
  proof -
    obtain h f where hf: "e = (h, f)" by (cases e)
    have exact: "row_exact (mine ?rs h) f" using rows(2) e hf unfolding aggregated_def by blast
    have "h \<in> set (map fst rows)" using e hf by force
    then obtain r where "r \<in> set ?rs" "h = ve_miner r" unfolding keys(2) by blast
    then have name: "1 \<le> utf8_length h" "utf8_length h \<le> 512" using facts by force+
    have mine: "natural64 (ve_input_tokens r)" "natural64 (ve_output_tokens r)" if "r \<in> set (mine ?rs h)" for r
      using facts mine_subset that by blast+
    have few: "length (mine ?rs h) \<le> 4096" using d(3) length_filter_le [of "\<lambda>r. ve_attested r \<and> ve_miner r = h" ?rs]
      unfolding mine_def MAX_BUNDLE_RECEIPTS_def by linarith
    have small: "int (length (mine ?rs h)) * 2 ^ 63 < 10 ^ 30"
    proof -
      have "int (length (mine ?rs h)) * 2 ^ 63 \<le> 4096 * 2 ^ 63" using few by (intro mult_right_mono) simp_all
      also have "\<dots> < (10 :: int) ^ 30" by simp
      finally show ?thesis .
    qed
    have i: "0 \<le> ar_input (snd f)" "ar_input (snd f) < 10 ^ 30"
      using sum_bound [of "mine ?rs h" ve_input_tokens] mine(1) exact small unfolding row_exact_def by auto
    have o: "0 \<le> ar_output (snd f)" "ar_output (snd f) < 10 ^ 30"
      using sum_bound [of "mine ?rs h" ve_output_tokens] mine(2) exact small unfolding row_exact_def by auto
    have q: "0 \<le> ar_requests (snd f)" "ar_requests (snd f) < 10 ^ 30" using exact few unfolding row_exact_def by auto
    have "decimal_text (fst f) \<noteq> None" using exact unfolding row_exact_def by force
    then show ?thesis using name i o q unfolding row_fits_def hf by (cases f) auto
  qed
  then show ?thesis using rows len by blast
qed

lemma rows_work:
  "\<forall>(h, f) \<in> set rows. row_exact (mine rs h) f \<Longrightarrow>
     (\<Sum>(h, f) \<leftarrow> rows. dec_val (the (decimal_text (fst f)))) = (\<Sum>h \<leftarrow> map fst rows. \<Sum>r \<leftarrow> mine rs h. dec_val (ve_work r))"
  by (induction rows) (auto simp: row_exact_def)

lemma bundle_rows_total:
  assumes "bundle_ok env raw p now b"
  shows "\<exists>rows. aggregate_receipts (vb_receipts b) = Inr rows \<and> sorted (map fst rows) \<and> distinct (map fst rows) \<and>
     set (map fst rows) = ve_miner ` {r \<in> set (vb_receipts b). ve_attested r} \<and>
     (\<forall>(h, f) \<in> set rows. row_exact (mine (vb_receipts b) h) f) \<and>
     (\<Sum>(h, f) \<leftarrow> rows. dec_val (the (decimal_text (fst f)))) = (\<Sum>r \<leftarrow> filter ve_attested (vb_receipts b). dec_val (ve_work r))"
proof -
  obtain rows where rows: "aggregate_receipts (vb_receipts b) = Inr rows" "aggregated (vb_receipts b) rows"
    using bundle_rows [OF assms] by blast
  note a = rows(2) [unfolded aggregated_def]
  have "(\<Sum>(h, f) \<leftarrow> rows. dec_val (the (decimal_text (fst f)))) = (\<Sum>h \<leftarrow> map fst rows. \<Sum>r \<leftarrow> mine (vb_receipts b) h. dec_val (ve_work r))"
    using a by (intro rows_work) blast
  also have "\<dots> = (\<Sum>r \<leftarrow> filter ve_attested (vb_receipts b). dec_val (ve_work r))" using a by (intro sum_partition) blast+
  finally show ?thesis using rows(1) a by blast
qed

section \<open>The report\<close>

definition report_terms_ok :: "world \<Rightarrow> external_policy \<Rightarrow> receipt_policy \<Rightarrow> int \<Rightarrow> int option \<Rightarrow> verified_bundle \<Rightarrow> report_terms \<Rightarrow> bool" where
  "report_terms_ok env ep p block now b m =
     (rt_class m = ep_class_id ep \<and> rt_source m = ep_source_id ep \<and> key_id_text (rt_key m) \<and> map_of (ep_keys ep) (rt_key m) \<noteq> None \<and>
      (\<forall>s. rt_previous m = Some s \<longrightarrow> digest_text s) \<and> evidence_uri (or_ip env) (opt_text (rt_uri m)) = Inr (rt_uri m) \<and>
      jget (vb_document b) ''netuid'' = JInt (rp_netuid p) \<and> 0 \<le> rp_netuid p \<and> 0 \<le> block \<and> text_between (JStr (rp_network p)) 1 128 \<and>
      nat_field (jget (vb_document b) ''valid_from_block'') \<and> nat_field (jget (vb_document b) ''valid_until_block'') \<and>
      int_field (jget (vb_document b) ''valid_from_block'') \<le> block \<and> block < int_field (jget (vb_document b) ''valid_until_block'') \<and>
      int_field (jget (vb_document b) ''valid_until_block'') - int_field (jget (vb_document b) ''valid_from_block'') \<le> ep_max_span ep \<and>
      (\<exists>g u. parse_time (jget (vb_document b) ''generated_at'') ''generated_at'' = Inr g \<and>
         parse_time (jget (vb_document b) ''valid_until'') ''valid_until'' = Inr u \<and> fresh_at now g u (ep_max_age ep) (ep_max_future ep)))"

lemma sha_digest_is_digest: "sha_digest_text s \<Longrightarrow> digest_text s"
  by (simp add: sha_digest_text_def digest_text_def)

lemma strict_opt_text [simp]: "strict_ok (opt_text v)" by (cases v) (simp_all add: opt_text_def)

lemma bundle_entries_parse:
  assumes rows: "\<forall>e \<in> set rows. row_fits e" "sorted (map fst rows)" "distinct (map fst rows)" "length rows \<le> MAX_REPORT_ENTRIES"
    and i: "digest_text i" "evidence_uri ip (opt_text uri) = Inr uri"
  shows "report_entries ip (jsort (JArr (map (bundle_entry i uri) rows))) = Inr (map (bundle_score i uri) rows)"
proof -
  have parse: "mapE (parse_entry ip) (map jsort (map (bundle_entry i uri) rows)) = Inr (map (bundle_score i uri) rows)"
    using rows(1) by (induction rows) (simp_all add: parse_bundle_entry [OF _ i])
  have "map se_hotkey (map (bundle_score i uri) rows) = map fst rows" by (simp add: bundle_score_def case_prod_unfold)
  moreover have "map fst rows = sorted_list_of_set (set (map fst rows))"
    using rows(2,3) by (simp only: sorted_list_of_set.idem_if_sorted_distinct)
  ultimately have keys: "(map se_hotkey (map (bundle_score i uri) rows) \<noteq> sorted_list_of_set (set (map se_hotkey (map (bundle_score i uri) rows)))) = False"
    by (simp only: simp_thms)
  have few: "(length (map jsort (map (bundle_entry i uri) rows)) > MAX_REPORT_ENTRIES) = False" using rows(4) by simp
  show ?thesis unfolding jsort.simps(1) report_entries_def json.case few guardE_simps parse bindE_Inr Let_def keys by (rule refl)
qed

lemma bundle_body_signable:
  assumes b: "bundle_ok env' raw p now' b" and body: "score_report_body_from_bundle b m = Inr body"
    and terms: "report_terms_ok env ep p block now b m"
  shows "\<exists>rows. aggregated (vb_receipts b) rows \<and>
    signable env ep (rp_network p) (rp_netuid p) block now body (map (bundle_score (vb_bundle_id b) (rt_uri m)) rows) \<and>
    jget body ''source_epoch'' = JInt (vb_epoch b) \<and> jget body ''signing_key_id'' = JStr (rt_key m)"
proof -
  let ?d = "vb_document b"
  obtain rows where rows: "aggregate_receipts (vb_receipts b) = Inr rows" "aggregated (vb_receipts b) rows"
    "length rows \<le> MAX_REPORT_ENTRIES" "\<forall>e \<in> set rows. row_fits e" using bundle_rows [OF b] by blast
  have body': "body = [(''schema'', JStr ''cathedral_score_class_report_v1''), (''network'', jget ?d ''network''), (''netuid'', jget ?d ''netuid''),
         (''class_id'', JStr (rt_class m)), (''source_id'', JStr (rt_source m)), (''source_epoch'', JInt (vb_epoch b)),
         (''generated_at'', jget ?d ''generated_at''), (''valid_until'', jget ?d ''valid_until''),
         (''valid_from_block'', jget ?d ''valid_from_block''), (''valid_until_block'', jget ?d ''valid_until_block''),
         (''complete'', JBool True), (''policy_digest'', JStr (rt_policy_digest m)), (''verifier_digest'', JStr (rt_verifier_digest m)),
         (''previous_report_id'', opt_text (rt_previous m)),
         (''entries'', JArr (map (bundle_entry (vb_bundle_id b) (rt_uri m)) rows)), (''signing_key_id'', JStr (rt_key m))]"
    and digests: "sha_digest_text (rt_policy_digest m)" "sha_digest_text (rt_verifier_digest m)"
    using body unfolding score_report_body_from_bundle_def rows(1) bindE_Inr Let_def
    by (auto simp: sha_digest_Inr elim!: guardE_InrE bindE_InrE)
  have strict: "strict_ok (JObj ?d)" and net: "jget ?d ''network'' = JStr (rp_network p)" and ep: "jget ?d ''source_epoch'' = JInt (vb_epoch b)"
    and id: "vb_bundle_id b = bundle_id_for ?d" using b unfolding bundle_ok_def Let_def by blast+
  have epoch: "int64 (vb_epoch b)" using strict_get [OF strict, of "''source_epoch''"] ep by simp
  have epoch0: "0 \<le> vb_epoch b" using b unfolding bundle_ok_def Let_def by blast
  have entry_strict: "strict_ok (bundle_entry i u e)" for i u e
    by (simp add: bundle_entry_def split: prod.splits)
  have sbody: "strict_ok (JObj body)" unfolding body'
    using strict_get [OF strict] epoch entry_strict by simp
  have keys: "fst ` set body = set report_keys - {''report_id'', ''signature''}" unfolding body' by (auto simp: report_keys_def)
  have "digest_text (vb_bundle_id b)" unfolding id bundle_id_for_def prefixed_digest_def by (rule digest_text_sha)
  then have entries: "report_entries (or_ip env) (jsort (jget body ''entries'')) = Inr (map (bundle_score (vb_bundle_id b) (rt_uri m)) rows)"
  proof -
    have "jget body ''entries'' = JArr (map (bundle_entry (vb_bundle_id b) (rt_uri m)) rows)" by (simp add: body' jget_def)
    then show ?thesis using bundle_entries_parse [of rows "vb_bundle_id b" "or_ip env" "rt_uri m"] rows \<open>digest_text (vb_bundle_id b)\<close> terms
      by (simp add: aggregated_def report_terms_ok_def del: jsort.simps)
  qed
  have gets: "jget body ''schema'' = JStr ''cathedral_score_class_report_v1''" "jget body ''network'' = jget ?d ''network''"
    "jget body ''netuid'' = jget ?d ''netuid''" "jget body ''class_id'' = JStr (rt_class m)" "jget body ''source_id'' = JStr (rt_source m)"
    "jget body ''source_epoch'' = JInt (vb_epoch b)" "jget body ''generated_at'' = jget ?d ''generated_at''"
    "jget body ''valid_until'' = jget ?d ''valid_until''" "jget body ''valid_from_block'' = jget ?d ''valid_from_block''"
    "jget body ''valid_until_block'' = jget ?d ''valid_until_block''" "jget body ''complete'' = JBool True"
    "jget body ''policy_digest'' = JStr (rt_policy_digest m)" "jget body ''verifier_digest'' = JStr (rt_verifier_digest m)"
    "jget body ''previous_report_id'' = opt_text (rt_previous m)" "jget body ''signing_key_id'' = JStr (rt_key m)"
    unfolding body' jget_def by simp_all
  have "signable env ep (rp_network p) (rp_netuid p) block now body (map (bundle_score (vb_bundle_id b) (rt_uri m)) rows)"
    unfolding signable_def gets entries net
    using terms sbody keys digests epoch0 sha_digest_is_digest
    by (cases "rt_previous m") (simp_all add: report_terms_ok_def nat_field_def opt_text_def)
  then show ?thesis using rows(2) gets(6,15) by blast
qed

lemma bundle_report_accepted:
  assumes b: "bundle_ok env' raw p now' b" and body: "score_report_body_from_bundle b m = Inr body"
    and terms: "report_terms_ok env ep p block now b m"
    and signed: "sign_report sign body = Inr sent" "int (length sent) \<le> MAX_REPORT_BYTES"
    and pinned: "map_of (ep_keys ep) (rt_key m) = Some key"
    and law: "\<And>x. or_ed env key (sign x) x" "\<And>x. length (sign x) = 64"
  shows "\<exists>r rows. verify_report env sent ep (rp_network p) (rp_netuid p) block now = Inr r \<and> vr_epoch r = vb_epoch b \<and>
     vr_entries r = map (bundle_score (vb_bundle_id b) (rt_uri m)) rows \<and> aggregated (vb_receipts b) rows"
proof -
  obtain rows where rows: "aggregated (vb_receipts b) rows"
    "signable env ep (rp_network p) (rp_netuid p) block now body (map (bundle_score (vb_bundle_id b) (rt_uri m)) rows)"
    "jget body ''source_epoch'' = JInt (vb_epoch b)" "jget body ''signing_key_id'' = JStr (rt_key m)"
    using bundle_body_signable [OF b body terms] by blast
  have "\<exists>r. verify_report env sent ep (rp_network p) (rp_netuid p) block now = Inr r \<and>
      vr_entries r = map (bundle_score (vb_bundle_id b) (rt_uri m)) rows \<and> vr_report_id r = report_id_for body \<and>
      JInt (vr_epoch r) = jget body ''source_epoch''"
    by (rule sign_report_verifies [OF rows(2) signed rows(4) pinned law])
  then show ?thesis using rows(1,3) by auto
qed

end
