(* ===== verification/Ml_Sample.thy ===== *)
theory Ml_Sample
  imports Ml_Receipts Ml_Credit Ml_Assembly Ml_Report
begin

text \<open>
  A concrete bundle for the properties of \<open>cathedral_thin/ml_receipts.py\<close>: one attested receipt of the
  concrete exchange, bundled, verified and turned into a score report.
\<close>

section \<open>The receipt inside a bundle\<close>

definition demo_evidence :: "(string \<times> bytes) list" where
  "demo_evidence = [(sha256_digest [1], [1])]"

definition demo_context :: "bool \<Rightarrow> int option \<Rightarrow> bundle_context" where
  "demo_context later after = \<lparr>bx_world = demo_ml_world, bx_policy = demo_receipt_policy, bx_now = Some demo_now,
     bx_epoch = demo_epoch later, bx_generated = demo_moment later, bx_after = after, bx_evidence = demo_evidence, bx_verifier = Some demo_verifier\<rparr>"

text \<open>What is known of the receipt.\<close>

definition demo_credit :: "bool \<Rightarrow> verified_receipt \<Rightarrow> bool" where
  "demo_credit later r = (ve_miner r = ''m'' \<and> ve_epoch r = demo_epoch later \<and> ve_completed r = demo_moment later \<and> ve_attested r \<and> ve_input_tokens r = 5 \<and>
     ve_output_tokens r = 8 \<and> dec_val (ve_work r) = 5 / 2 \<and> ve_verifier r = Some demo_zeros)"

lemma demo_given:
  assumes "jget r ''attestation'' = JObj a" "jget a ''evidence_digest'' = JStr (sha256_digest [1])"
  shows "given demo_evidence (Some demo_verifier) r = demo_disclosures"
proof -
  have "truthy (JStr (sha256_digest [1]))" by (simp add: sha256_digest_def truthy_def)
  then have "receipt_evidence demo_evidence r = Some [1]"
    unfolding receipt_evidence_def assms json.case demo_evidence_def by (simp add: py_str_def)
  then show ?thesis by (simp add: given_def demo_disclosures_def)
qed

lemma demo_receipt_bundled:
  "(\<And>t. after = Some t \<Longrightarrow> t < demo_moment later) \<Longrightarrow>
   \<exists>raw r. demo_credit later r \<and> bundle_receipt (Inl raw) = Inr (ve_document r) \<and> admissible (demo_context later after) (ve_document r) r \<and>
     length (canonical_json (ve_document r)) \<le> 262144"
proof -
  assume after: "\<And>t. after = Some t \<Longrightarrow> t < demo_moment later"
  obtain raw r where v: "verify_receipt demo_ml_world raw demo_receipt_policy (Some demo_now) demo_disclosures = Inr r"
    and r: "ve_miner r = ''m''" "ve_epoch r = demo_epoch later" "ve_completed r = demo_moment later" "ve_attested r" "ve_input_tokens r = 5"
      "ve_output_tokens r = 8" "dec_val (ve_work r) = 5 / 2" and len: "int (length raw) \<le> MAX_RECEIPT_BYTES"
    using demo_receipt_accepted [of later] by blast
  let ?d = "ve_document r"
  have ok: "receipt_ok demo_ml_world raw demo_receipt_policy (Some demo_now) demo_disclosures r" by (rule verify_receipt_ok [OF v])
  obtain d h completed c rid w where "parse_strict_json (chomp raw) MAX_RECEIPT_BYTES = Inr d" "r = verified_from d h completed c rid w"
    using verify_receipt_parts [OF v] by blast
  then have parse: "parse_strict_json (chomp raw) MAX_RECEIPT_BYTES = Inr ?d" by (simp add: verified_from_def)
  have canon: "chomp raw = canonical_json ?d" using ok unfolding receipt_ok_def Let_def by blast
  obtain a w where a: "jget ?d ''attestation'' = JObj a" "ve_verifier r = Some w"
    "attestation_bound demo_receipt_policy ?d a demo_disclosures (w, ve_measurement r)"
    using ok r(4) unfolding receipt_ok_def Let_def by blast
  then have "w = demo_zeros" "jget a ''evidence_digest'' = JStr (sha256_digest [1])"
    unfolding attestation_bound_def by (auto simp: demo_receipt_policy_def demo_disclosures_def)
  then have "given demo_evidence (Some demo_verifier) ?d = demo_disclosures" "demo_credit later r"
    using demo_given [OF a(1)] a(2) r by (simp_all add: demo_credit_def)
  moreover have "verify_receipt demo_ml_world (canonical_json ?d) demo_receipt_policy (Some demo_now) demo_disclosures = Inr r"
    using v by (subst verify_receipt_chomp [of _ raw]) (simp_all add: canon chomp_canonical)
  ultimately have "admissible (demo_context later after) ?d r" using r after by (auto simp: admissible_def demo_context_def)
  moreover have "bundle_receipt (Inl raw) = Inr ?d" using parse canon by (simp add: bundle_receipt_def guardE_def)
  moreover have "length (canonical_json ?d) \<le> 262144"
  proof -
    have "length (chomp raw) \<le> length raw" by (simp add: chomp_def)
    then show ?thesis using len by (simp add: canon MAX_RECEIPT_BYTES_def)
  qed
  ultimately show ?thesis using \<open>demo_credit later r\<close> by blast
qed

section \<open>The bundle\<close>

definition demo_bundle_document :: "bool \<Rightarrow> string option \<Rightarrow> jdict \<Rightarrow> jdict" where
  "demo_bundle_document later previous d =
     bundle_document ''n'' 39 (demo_epoch later) (demo_time later) ''2026-01-02T00:00:00.000000Z'' 0 50 previous [d]"

definition demo_build :: "bool \<Rightarrow> string option \<Rightarrow> bytes \<Rightarrow> bytes res" where
  "demo_build later previous raw =
     build_bundle (map Inl [raw]) ''n'' 39 (demo_epoch later) (demo_time later) ''2026-01-02T00:00:00.000000Z'' 0 50 previous"

lemma item_size_bound: "item_size (k, v) \<le> 6 * length k + json_bound v + 4"
  using quote_length [of k] dumps_length [of v] by (simp add: item_size_def dump_item_def)

lemma id_text_lengths [simp]: "length (bundle_id_for d) = 71" "length (report_id_for d) = 71"
  by (simp_all add: bundle_id_for_def report_id_for_def prefixed_digest_def)

lemma demo_bundle_size:
  assumes "length (canonical_json d) \<le> 262144" "length s = 71" "\<And>q. previous = Some q \<Longrightarrow> length q = 71"
  shows "int (length (canonical_json (dict_set ''bundle_id'' (JStr s) (demo_bundle_document later previous d)))) \<le> MAX_BUNDLE_BYTES"
proof -
  have "item_size (''receipts'', JArr [JObj d]) \<le> 300000"
    using quote_length [of "''receipts''"] assms(1)
    by (simp add: item_size_def dump_item_def canonical_json_def canonical_bytes_def dumps_obj del: dumps.simps(5))
  moreover have "length (int_str 39) = 2" "length (int_str 0) = 1" "length (int_str 50) = 2" by code_simp+
  moreover have "json_bound (opt_text previous) \<le> 500" using assms(3) by (cases previous) (simp_all add: opt_text_def)
  moreover have "item_size (k, v) \<le> 6 * length k + json_bound v + 4" for k v by (rule item_size_bound)
  note b = this [of "''schema''" "JStr ''cathedral_ml_inference_bundle_v1''"] this [of "''network''" "JStr ''n''"]
    this [of "''netuid''" "JInt 39"] this [of "''source_epoch''" "JInt (demo_epoch later)"]
    this [of "''generated_at''" "JStr (demo_time later)"] this [of "''valid_until''" "JStr ''2026-01-02T00:00:00.000000Z''"]
    this [of "''valid_from_block''" "JInt 0"] this [of "''valid_until_block''" "JInt 50"] this [of "''previous_bundle_id''" "opt_text previous"]
    this [of "''bundle_id''" "JStr s"]
  ultimately show ?thesis
    using canonical_json_length [of "dict_set ''bundle_id'' (JStr s) (demo_bundle_document later previous d)"] b assms(2)
      demo_slot(3) [of later] demo_slot(4) [of later]
    by (simp add: demo_bundle_document_def bundle_document_def MAX_BUNDLE_BYTES_def)
qed

lemma demo_built:
  assumes "bundle_receipt (Inl raw) = Inr d" "length (canonical_json d) \<le> 262144" "\<And>q. previous = Some q \<Longrightarrow> length q = 71"
  shows "\<exists>braw. demo_build later previous raw = Inr braw"
proof -
  have "int (length (canonical_json (dict_set ''bundle_id'' (JStr (bundle_id_for (demo_bundle_document later previous d)))
      (demo_bundle_document later previous d)))) \<le> MAX_BUNDLE_BYTES"
    by (rule demo_bundle_size) (simp_all add: assms(2,3))
  then show ?thesis using assms(1)
    by (simp add: demo_build_def build_bundle_def demo_bundle_document_def bundle_document_def Let_def guardE_def)
qed

lemma demo_terms:
  assumes "\<And>q. previous = Some q \<Longrightarrow> sha_digest_text q"
  shows "bundle_terms_ok demo_receipt_policy demo_now ''n'' 39 (demo_epoch later) (demo_time later) ''2026-01-02T00:00:00.000000Z''
     0 50 previous (demo_moment later)"
proof -
  have "fresh_at (Some demo_now) (demo_moment later) (demo_now + 86400000000) 100 10"
    using demo_slot(5,6) [of later] by (simp add: fresh_at_def demo_moment_def)
  then show ?thesis using demo_times demo_slot(1,2) assms by (auto simp: bundle_terms_ok_def demo_receipt_policy_def natural64_def)
qed

text \<open>The hypotheses of the round trip, met by one receipt.\<close>

lemma demo_bundle_verifies:
  assumes r: "bundle_receipt (Inl raw) = Inr (ve_document r)" "admissible (demo_context later after) (ve_document r) r"
    and built: "demo_build later previous raw = Inr braw" and q: "\<And>q. previous = Some q \<Longrightarrow> sha_digest_text q"
    and i: "i = bundle_id_for (demo_bundle_document later previous (ve_document r))"
    and cp: "bundle_checkpoint_step demo_receipt_policy
        \<lparr>bk_epoch = demo_epoch later, bk_id = i, bk_previous = previous, bk_generated = demo_moment later\<rparr> cp = Inr (c, newer)"
      "after = (case cp of None \<Rightarrow> None | Some c \<Rightarrow> if newer then Some (bc_generated c) else None)"
  shows "\<exists>b. verify_bundle demo_ml_world braw demo_receipt_policy (Some demo_now) cp demo_evidence (Some demo_verifier) = Inr (b, c) \<and>
    vb_receipts b = [r] \<and> vb_rejections b = [] \<and> vb_epoch b = demo_epoch later \<and> vb_bundle_id b = i \<and> vb_previous b = previous \<and>
    vb_document b = canonical_dict (dict_set ''bundle_id'' (JStr i) (demo_bundle_document later previous (ve_document r)))"
  unfolding demo_bundle_document_def
  by (rule built_bundle_verifies [OF built [unfolded demo_build_def] demo_terms [OF q] cp(1) i [unfolded demo_bundle_document_def],
        where ds = "[ve_document r]" and env = demo_ml_world and evidence = demo_evidence and verifier = "Some demo_verifier"])
    (use r(1) r(2) [unfolded demo_context_def cp(2)] in \<open>simp_all add: MAX_BUNDLE_RECEIPTS_def\<close>)

section \<open>The report\<close>

definition demo_report_terms :: report_terms where
  "demo_report_terms = \<lparr>rt_class = ''c'', rt_source = ''s'', rt_key = ''k'', rt_policy_digest = demo_zeros, rt_verifier_digest = demo_zeros,
     rt_previous = None, rt_uri = None\<rparr>"

lemma decimal_text_length: "decimal_text s = Some e \<Longrightarrow> length s \<le> 43"
proof -
  assume d: "decimal_text s = Some e"
  have "length (takeWhile is_digit s) \<le> 30 \<and> length (dropWhile is_digit s) \<le> 13"
    using d by (auto simp: decimal_text_def Let_def simp del: dropWhile_eq_Nil_conv split: if_splits list.splits)
  moreover have "length s = length (takeWhile is_digit s) + length (dropWhile is_digit s)" by (metis length_append takeWhile_dropWhile_id)
  ultimately show ?thesis by linarith
qed

lemma demo_document_fields:
  assumes "d = canonical_dict (dict_set ''bundle_id'' (JStr i) (demo_bundle_document later previous r))"
  shows "jget d ''netuid'' = JInt 39" "jget d ''network'' = JStr ''n''" "jget d ''generated_at'' = JStr (demo_time later)"
    "jget d ''valid_until'' = JStr ''2026-01-02T00:00:00.000000Z''" "jget d ''valid_from_block'' = JInt 0" "jget d ''valid_until_block'' = JInt 50"
proof -
  have "distinct (map fst (dict_set ''bundle_id'' (JStr i) (demo_bundle_document later previous r)))"
    by (simp add: demo_bundle_document_def bundle_document_def)
  then have "jget d x = jsort (jget (demo_bundle_document later previous r) x)" if "x \<noteq> ''bundle_id''" for x
    unfolding assms using that by (simp add: jget_canonical jget_dict_set)
  then show "jget d ''netuid'' = JInt 39" "jget d ''network'' = JStr ''n''" "jget d ''generated_at'' = JStr (demo_time later)"
    "jget d ''valid_until'' = JStr ''2026-01-02T00:00:00.000000Z''" "jget d ''valid_from_block'' = JInt 0" "jget d ''valid_until_block'' = JInt 50"
    by (simp_all add: demo_bundle_document_def get_bundle_document)
qed

lemma demo_report_terms_ok:
  assumes "vb_document b = canonical_dict (dict_set ''bundle_id'' (JStr i) (demo_bundle_document False previous r))"
  shows "report_terms_ok demo_ml_world (demo_class demo_keys None) demo_receipt_policy 7 (Some demo_now) b demo_report_terms"
proof -
  have "key_id_text ''k''" "text_between (JStr ''n'') 1 128" by code_simp+
  then show ?thesis
    using demo_document_fields [OF assms] demo_times demo_fresh
    by (simp add: report_terms_ok_def demo_report_terms_def demo_class_def demo_keys_def demo_receipt_policy_def nat_field_def int_field_def
      opt_text_def evidence_uri_def demo_time_def)
qed

lemma demo_entry_bound:
  assumes "row_exact [r] f" "demo_credit later r" "length i = 71"
  shows "json_bound (bundle_entry i None (''m'', f)) \<le> 4000"
proof -
  obtain work w where f: "f = (work, w)" by (cases f)
  have w: "ar_requests w = 1" "ar_input w = 5" "ar_output w = 8" "length work \<le> 43"
    using assms(1,2) decimal_text_length by (auto simp: row_exact_def demo_credit_def f)
  have "length (int_str 1) = 1" "length (int_str 5) = 1" "length (int_str 8) = 1" by code_simp+
  moreover have "map length bundle_reasons = [20, 20, 23, 26, 24, 28]" by code_simp
  then have "(\<Sum>x \<leftarrow> map length bundle_reasons. Suc (Suc (Suc (6 * x)))) \<le> 1000" by simp
  then have "(\<Sum>x \<leftarrow> bundle_reasons. Suc (Suc (Suc (6 * length x)))) \<le> 1000" by (simp add: comp_def)
  ultimately show ?thesis using w assms(3) by (simp add: bundle_entry_def f opt_text_def comp_def)
qed

end
