(* ===== verification/Ml_Properties.thy ===== *)
theory Ml_Properties
  imports Ml_Sample
begin

text \<open>
  The properties of inference bundles (\<open>cathedral_thin/ml_receipts.py\<close>): the round trip, the ledger of
  accepted bundles, requests credited once, exact aggregation, and the score report made
  from a bundle; each with a run on the concrete bundles.
\<close>

section \<open>Two concrete bundles\<close>

definition demo_accepted :: "bool \<Rightarrow> string \<Rightarrow> bundle_checkpoint" where
  "demo_accepted later i = \<lparr>bc_network = ''n'', bc_netuid = 39, bc_epoch = demo_epoch later, bc_bundle_id = i, bc_generated = demo_moment later\<rparr>"

definition demo_bundle :: "bool \<Rightarrow> bundle_checkpoint option \<Rightarrow> string option \<Rightarrow> verified_bundle \<Rightarrow> verified_receipt \<Rightarrow> bool" where
  "demo_bundle later cp previous b r =
     ((\<exists>braw. verify_bundle demo_ml_world braw demo_receipt_policy (Some demo_now) cp demo_evidence (Some demo_verifier)
         = Inr (b, demo_accepted later (vb_bundle_id b))) \<and>
      vb_receipts b = [r] \<and> demo_credit later r \<and> vb_epoch b = demo_epoch later \<and> vb_previous b = previous \<and>
      vb_document b = canonical_dict (dict_set ''bundle_id'' (JStr (vb_bundle_id b)) (demo_bundle_document later previous (ve_document r))))"

lemma demo_policy_fields: "rp_network demo_receipt_policy = ''n''" "rp_netuid demo_receipt_policy = 39"
  by (simp_all add: demo_receipt_policy_def)

lemma demo_bundle_intro:
  assumes r: "demo_credit later r" "bundle_receipt (Inl raw) = Inr (ve_document r)" "admissible (demo_context later after) (ve_document r) r"
      "length (canonical_json (ve_document r)) \<le> 262144"
    and q: "\<And>q. previous = Some q \<Longrightarrow> sha_digest_text q"
    and cp: "\<And>i. bundle_checkpoint_step demo_receipt_policy
        \<lparr>bk_epoch = demo_epoch later, bk_id = i, bk_previous = previous, bk_generated = demo_moment later\<rparr> cp
          = Inr (demo_accepted later i, True)"
      "after = map_option bc_generated cp"
  shows "\<exists>b. demo_bundle later cp previous b r"
proof -
  have len: "length q = 71" if "previous = Some q" for q
    using assms(5) [OF that] by (auto simp: sha_digest_text_def starts_with_def removeprefix_def hex64_def)
  obtain braw where built: "demo_build later previous raw = Inr braw" using demo_built [OF r(2,4) len] by blast
  have after: "after = (case cp of None \<Rightarrow> None | Some c \<Rightarrow> if True then Some (bc_generated c) else None)"
    by (cases cp) (simp_all add: cp(2))
  obtain b where b: "verify_bundle demo_ml_world braw demo_receipt_policy (Some demo_now) cp demo_evidence (Some demo_verifier)
      = Inr (b, demo_accepted later (bundle_id_for (demo_bundle_document later previous (ve_document r))))"
    "vb_receipts b = [r]" "vb_epoch b = demo_epoch later"
    "vb_bundle_id b = bundle_id_for (demo_bundle_document later previous (ve_document r))" "vb_previous b = previous"
    "vb_document b = canonical_dict (dict_set ''bundle_id''
       (JStr (bundle_id_for (demo_bundle_document later previous (ve_document r)))) (demo_bundle_document later previous (ve_document r)))"
    using demo_bundle_verifies [OF r(2,3) built q refl cp(1) after] by blast
  have "demo_bundle later cp previous b r"
    unfolding demo_bundle_def b(4) by (intro conjI exI [of _ braw] b(1,2,3,5,6) r(1))
  then show ?thesis by blast
qed

lemma demo_first_bundle: "\<exists>b r. demo_bundle False None None b r"
proof -
  obtain raw r where r: "demo_credit False r" "bundle_receipt (Inl raw) = Inr (ve_document r)"
    "admissible (demo_context False None) (ve_document r) r" "length (canonical_json (ve_document r)) \<le> 262144"
    using demo_receipt_bundled [of None False] by auto
  have "\<exists>b. demo_bundle False None None b r"
    by (rule demo_bundle_intro [OF r]) (simp_all add: bundle_checkpoint_step_def demo_accepted_def demo_policy_fields)
  then show ?thesis by blast
qed

lemma demo_second_bundle:
  assumes "sha_digest_text i"
  shows "\<exists>b r. demo_bundle True (Some (demo_accepted False i)) (Some i) b r"
proof -
  have "demo_now < demo_moment True" by (simp add: demo_moment_def)
  then obtain raw r where r: "demo_credit True r" "bundle_receipt (Inl raw) = Inr (ve_document r)"
    "admissible (demo_context True (Some demo_now)) (ve_document r) r" "length (canonical_json (ve_document r)) \<le> 262144"
    using demo_receipt_bundled [of "Some demo_now" True] by auto
  have "\<exists>b. demo_bundle True (Some (demo_accepted False i)) (Some i) b r"
    by (rule demo_bundle_intro [OF r])
      (simp_all add: assms bundle_checkpoint_step_def demo_accepted_def demo_policy_fields demo_epoch_def demo_moment_def)
  then show ?thesis by blast
qed

text \<open>A ledger that accepts both.\<close>

lemma demo_ledger:
  "\<exists>s b b' r r'. rtranclp (ledger_step demo_ml_world) empty_ledger s \<and> lg_bundles s = [b, b'] \<and> vb_receipts b = [r] \<and>
     vb_receipts b' = [r'] \<and> demo_credit False r \<and> demo_credit True r' \<and> vb_epoch b = 3 \<and> vb_epoch b' = 4"
proof -
  obtain b r where b: "demo_bundle False None None b r" using demo_first_bundle by blast
  then obtain braw where v: "verify_bundle demo_ml_world braw demo_receipt_policy (Some demo_now) None demo_evidence (Some demo_verifier)
      = Inr (b, demo_accepted False (vb_bundle_id b))" by (auto simp: demo_bundle_def)
  then have "bundle_ok demo_ml_world braw demo_receipt_policy (Some demo_now) b" using verify_bundle_ok by blast
  then have "vb_bundle_id b = bundle_id_for (vb_document b)" by (simp add: bundle_ok_def Let_def)
  then have "sha_digest_text (vb_bundle_id b)" by (simp add: bundle_id_for_def sha_digest_text_sha)
  then obtain b' r' where b': "demo_bundle True (Some (demo_accepted False (vb_bundle_id b))) (Some (vb_bundle_id b)) b' r'"
    using demo_second_bundle by blast
  then obtain braw' where v': "verify_bundle demo_ml_world braw' demo_receipt_policy (Some demo_now)
      (Some (demo_accepted False (vb_bundle_id b))) demo_evidence (Some demo_verifier)
      = Inr (b', demo_accepted True (vb_bundle_id b'))" by (auto simp: demo_bundle_def)
  let ?s = "\<lparr>lg_checkpoint = Some (demo_accepted False (vb_bundle_id b)), lg_bundles = [b]\<rparr>"
  let ?s' = "\<lparr>lg_checkpoint = Some (demo_accepted True (vb_bundle_id b')), lg_bundles = [b, b']\<rparr>"
  have "ledger_step demo_ml_world empty_ledger ?s"
    using ledger_step.accept [of demo_ml_world braw demo_receipt_policy "Some demo_now" empty_ledger] v by (simp add: empty_ledger_def)
  moreover have "ledger_step demo_ml_world ?s ?s'"
    using ledger_step.accept [of demo_ml_world braw' demo_receipt_policy "Some demo_now" ?s] v' by simp
  ultimately have "rtranclp (ledger_step demo_ml_world) empty_ledger ?s'" by (meson rtranclp.intros)
  then show ?thesis using b b' unfolding demo_bundle_def
    by (intro exI [of _ ?s'] exI [of _ b] exI [of _ b'] exI [of _ r] exI [of _ r']) (simp add: demo_epoch_def)
qed

lemma distinct_single_set: "distinct xs \<Longrightarrow> set xs = {x} \<Longrightarrow> xs = [x]"
proof -
  assume "distinct xs" "set xs = {x}"
  moreover from this have "length xs = 1" using distinct_card [of xs] by simp
  ultimately show "xs = [x]" by (cases xs) auto
qed

lemma aggregated_one: "aggregated [r] rows \<Longrightarrow> ve_attested r \<Longrightarrow> map fst rows = [ve_miner r]"
proof (rule distinct_single_set)
  assume a: "aggregated [r] rows" "ve_attested r"
  then show "distinct (map fst rows)" by (simp add: aggregated_def)
  have "{x \<in> set [r]. ve_attested x} = {r}" using a(2) by auto
  then show "set (map fst rows) = {ve_miner r}" using a(1) by (simp add: aggregated_def)
qed

text \<open>The report body of the first bundle.\<close>

lemma items_size_bound: "(\<Sum>kv \<leftarrow> d. item_size kv) \<le> (\<Sum>kv \<leftarrow> d. 6 * length (fst kv) + json_bound (snd kv) + 4)"
  by (rule sum_list_mono) (use item_size_bound in \<open>auto simp: case_prod_unfold\<close>)

lemma demo_body:
  assumes b: "demo_bundle False None None b r"
  shows "\<exists>body. score_report_body_from_bundle b demo_report_terms = Inr body \<and> (\<Sum>kv \<leftarrow> body. item_size kv) \<le> 10000 \<and>
    ''report_id'' \<notin> fst ` set body \<and> ''signature'' \<notin> fst ` set body"
proof -
  obtain braw where v: "verify_bundle demo_ml_world braw demo_receipt_policy (Some demo_now) None demo_evidence (Some demo_verifier)
      = Inr (b, demo_accepted False (vb_bundle_id b))" and r: "vb_receipts b = [r]" "demo_credit False r" "vb_epoch b = 3"
    and doc: "vb_document b = canonical_dict (dict_set ''bundle_id'' (JStr (vb_bundle_id b)) (demo_bundle_document False None (ve_document r)))"
    using b by (auto simp: demo_bundle_def demo_epoch_def)
  have ok: "bundle_ok demo_ml_world braw demo_receipt_policy (Some demo_now) b" using verify_bundle_ok [OF v] by blast
  then have "vb_bundle_id b = bundle_id_for (vb_document b)" by (simp add: bundle_ok_def Let_def)
  then have i: "length (vb_bundle_id b) = 71" by simp
  obtain rows where rows: "aggregate_receipts [r] = Inr rows" "aggregated [r] rows" using bundle_rows [OF ok] unfolding r(1) by blast
  have m: "ve_miner r = ''m''" "ve_attested r" using r(2) by (simp_all add: demo_credit_def)
  then have "map fst rows = [''m'']" using aggregated_one [OF rows(2)] by simp
  then obtain f where f: "rows = [(''m'', f)]" by auto
  have "mine [r] ''m'' = [r]" using m by (simp add: mine_def)
  then have "row_exact [r] f" using rows(2) unfolding aggregated_def f by auto
  from demo_entry_bound [OF this r(2) i] have entry: "json_bound (bundle_entry (vb_bundle_id b) None (''m'', f)) \<le> 4000" .
  let ?body = "[(''schema'', JStr ''cathedral_score_class_report_v1''), (''network'', JStr ''n''), (''netuid'', JInt 39),
         (''class_id'', JStr ''c''), (''source_id'', JStr ''s''), (''source_epoch'', JInt 3),
         (''generated_at'', JStr (demo_time False)), (''valid_until'', JStr ''2026-01-02T00:00:00.000000Z''),
         (''valid_from_block'', JInt 0), (''valid_until_block'', JInt 50),
         (''complete'', JBool True), (''policy_digest'', JStr demo_zeros), (''verifier_digest'', JStr demo_zeros),
         (''previous_report_id'', JNull),
         (''entries'', JArr [bundle_entry (vb_bundle_id b) None (''m'', f)]), (''signing_key_id'', JStr ''k'')]"
  have "set (map ve_verifier (filter ve_attested [r])) = {Some demo_zeros}" using m r(2) by (simp add: demo_credit_def)
  then have body: "score_report_body_from_bundle b demo_report_terms = Inr ?body"
    unfolding score_report_body_from_bundle_def r(1) rows(1) bindE_Inr demo_document_fields [OF doc] Let_def
    by (simp add: demo_report_terms_def sha_digest_def demo_zeros_ok opt_text_def guardE_def r(3) f)
  have "length demo_zeros = 71" by (simp add: demo_zeros_def)
  moreover have "length (int_str 39) = 2" "length (int_str 3) = 1" "length (int_str 0) = 1" "length (int_str 50) = 2" by code_simp+
  moreover note items_size_bound [of ?body]
  ultimately have "(\<Sum>kv \<leftarrow> ?body. item_size kv) \<le> 10000" using entry demo_slot(4) [of False] by simp
  then show ?thesis using body by (intro exI [of _ ?body]) simp
qed

section \<open>Properties\<close>

text \<open>C33. The round trip of a bundle: receipts that verify on their own at the bundle's epoch, are no later than the
  bundle and later than the accepted checkpoint, and answer distinct requests, are all admitted again from the bytes
  \<open>build_bundle\<close> makes of them, none is rejected, and the bundle keeps its epoch, its link and the id of its body.\<close>

theorem bundle_round_trip:
  "build_bundle (map Inl raws) network netuid epoch made until_text first final previous = Inr raw \<Longrightarrow>
   bundle_terms_ok p t network netuid epoch made until_text first final previous generated \<Longrightarrow>
   bundle_checkpoint_step p \<lparr>bk_epoch = epoch, bk_id = i, bk_previous = previous, bk_generated = generated\<rparr> cp = Inr (c, newer) \<Longrightarrow>
   i = bundle_id_for (bundle_document network netuid epoch made until_text first final previous rs) \<Longrightarrow>
   mapE bundle_receipt (map Inl raws) = Inr ds \<Longrightarrow> rs = sort_key (\<lambda>d. str_field d ''receipt_id'') ds \<Longrightarrow>
   1 \<le> length rs \<Longrightarrow> length rs \<le> MAX_BUNDLE_RECEIPTS \<Longrightarrow> distinct (map (\<lambda>r. str_field r ''receipt_id'') rs) \<Longrightarrow>
   list_all2 (admissible \<lparr>bx_world = env, bx_policy = p, bx_now = Some t, bx_epoch = epoch, bx_generated = generated,
     bx_after = (case cp of None \<Rightarrow> None | Some c \<Rightarrow> if newer then Some (bc_generated c) else None),
     bx_evidence = evidence, bx_verifier = verifier\<rparr>) rs items \<Longrightarrow> distinct (map ve_request_id items) \<Longrightarrow>
   \<exists>b. verify_bundle env raw p (Some t) cp evidence verifier = Inr (b, c) \<and> vb_receipts b = items \<and> vb_rejections b = [] \<and>
     vb_epoch b = epoch \<and> vb_bundle_id b = i \<and> vb_previous b = previous \<and>
     vb_document b = canonical_dict (dict_set ''bundle_id'' (JStr i)
       (bundle_document network netuid epoch made until_text first final previous rs))"
  by (rule built_bundle_verifies)

theorem bundle_round_trip_witness:
  "\<exists>braw b r. verify_bundle demo_ml_world braw demo_receipt_policy (Some demo_now) None demo_evidence (Some demo_verifier)
       = Inr (b, demo_accepted False (vb_bundle_id b)) \<and> vb_receipts b = [r] \<and> vb_rejections b = [] \<and> ve_attested r"
proof -
  obtain raw r where r: "demo_credit False r" "bundle_receipt (Inl raw) = Inr (ve_document r)"
    "admissible (demo_context False None) (ve_document r) r" "length (canonical_json (ve_document r)) \<le> 262144"
    using demo_receipt_bundled [of None False] by auto
  obtain braw where built: "demo_build False None raw = Inr braw" using demo_built [OF r(2,4)] by blast
  let ?i = "bundle_id_for (bundle_document ''n'' 39 (demo_epoch False) (demo_time False) ''2026-01-02T00:00:00.000000Z'' 0 50 None
      [ve_document r])"
  have terms: "bundle_terms_ok demo_receipt_policy demo_now ''n'' 39 (demo_epoch False) (demo_time False) ''2026-01-02T00:00:00.000000Z''
     0 50 None (demo_moment False)" by (rule demo_terms) simp
  have step: "bundle_checkpoint_step demo_receipt_policy
      \<lparr>bk_epoch = demo_epoch False, bk_id = ?i, bk_previous = None, bk_generated = demo_moment False\<rparr> None
    = Inr (demo_accepted False ?i, True)"
    by (simp add: bundle_checkpoint_step_def demo_accepted_def demo_policy_fields)
  obtain b where "verify_bundle demo_ml_world braw demo_receipt_policy (Some demo_now) None demo_evidence (Some demo_verifier)
       = Inr (b, demo_accepted False ?i)" "vb_receipts b = [r]" "vb_rejections b = []" "vb_bundle_id b = ?i"
    using bundle_round_trip [OF built [unfolded demo_build_def] terms step refl, of "[ve_document r]" demo_ml_world demo_evidence
        "Some demo_verifier" "[r]"] r(2,3)
    by (auto simp: MAX_BUNDLE_RECEIPTS_def demo_context_def)
  then show ?thesis using r(1) unfolding demo_credit_def by metis
qed

text \<open>C34. The ledger of accepted bundles is a chain, whatever was published in between: epochs never fall and
  never skip, an epoch has one bundle id, and a bundle that opens an epoch names the bundle before it.\<close>

theorem ledger_chain:
  "rtranclp (ledger_step env) empty_ledger s \<Longrightarrow> i < j \<Longrightarrow> j < length (lg_bundles s) \<Longrightarrow>
   vb_epoch (lg_bundles s ! i) \<le> vb_epoch (lg_bundles s ! j) \<and>
   (vb_epoch (lg_bundles s ! i) = vb_epoch (lg_bundles s ! j) \<longrightarrow> vb_bundle_id (lg_bundles s ! i) = vb_bundle_id (lg_bundles s ! j)) \<and>
   (j = Suc i \<longrightarrow> vb_epoch (lg_bundles s ! j) \<le> vb_epoch (lg_bundles s ! i) + 1 \<and>
      (vb_epoch (lg_bundles s ! j) = vb_epoch (lg_bundles s ! i) + 1 \<longrightarrow>
         vb_previous (lg_bundles s ! j) = Some (vb_bundle_id (lg_bundles s ! i))))"
  using ledger_epochs [of env s i j] by blast

theorem ledger_chain_witness:
  "\<exists>s :: ledger. length (lg_bundles s) = 2 \<and> vb_epoch (lg_bundles s ! 0) = 3 \<and> vb_epoch (lg_bundles s ! 1) = 4 \<and>
     vb_previous (lg_bundles s ! 1) = Some (vb_bundle_id (lg_bundles s ! 0))"
proof -
  obtain s b b' where s: "rtranclp (ledger_step demo_ml_world) empty_ledger s" "lg_bundles s = [b, b']" "vb_epoch b = 3" "vb_epoch b' = 4"
    using demo_ledger by blast
  have "vb_previous (lg_bundles s ! 1) = Some (vb_bundle_id (lg_bundles s ! 0))" using ledger_chain [OF s(1), of 0 1] s by simp
  then show ?thesis using s(2-4) by (auto intro!: exI [of _ s])
qed

text \<open>C35. Epochs credit disjoint windows of work: of the work credited by the bundle that opens an epoch, all was
  completed after all work credited before it, or two bundles of the ledger collide on the bytes their ids hash.\<close>

theorem ledger_windows:
  "rtranclp (ledger_step env) empty_ledger s \<Longrightarrow> j < length (lg_bundles s) \<Longrightarrow> opens_epoch (lg_bundles s) j \<Longrightarrow> i < j \<Longrightarrow>
   r \<in> set (vb_receipts (lg_bundles s ! i)) \<Longrightarrow> r' \<in> set (vb_receipts (lg_bundles s ! j)) \<Longrightarrow>
   ve_completed r < ve_completed r' \<or> forged (lg_bundles s)"
  using ledger_invariant [of env s] unfolding ledger_ok_def windows_apart_def by (cases "lg_checkpoint s") auto

theorem ledger_windows_witness:
  "\<exists>(s :: ledger) r r'. r \<in> set (vb_receipts (lg_bundles s ! 0)) \<and> r' \<in> set (vb_receipts (lg_bundles s ! 1)) \<and> ve_attested r \<and> ve_attested r' \<and>
     (ve_completed r < ve_completed r' \<or> forged (lg_bundles s))"
proof -
  obtain s b b' r r' where s: "rtranclp (ledger_step demo_ml_world) empty_ledger s" "lg_bundles s = [b, b']" "vb_receipts b = [r]"
    "vb_receipts b' = [r']" "demo_credit False r" "demo_credit True r'" "vb_epoch b = 3" "vb_epoch b' = 4" using demo_ledger by blast
  then have "opens_epoch (lg_bundles s) 1" by (simp add: opens_epoch_def)
  from ledger_windows [OF s(1) _ this, of 0 r r'] have "ve_completed r < ve_completed r' \<or> forged (lg_bundles s)"
    using s by simp
  moreover have "r \<in> set (vb_receipts (lg_bundles s ! 0))" "r' \<in> set (vb_receipts (lg_bundles s ! 1))" "ve_attested r" "ve_attested r'"
    using s by (simp_all add: demo_credit_def)
  ultimately show ?thesis by blast
qed

text \<open>C36. A request is credited once: a bundle credits no request twice, and two bundles of the ledger that
  credit the same request are the same bundle replayed, or the two requests collide on the bytes their ids hash.\<close>

theorem request_credited_once:
  "rtranclp (ledger_step env) empty_ledger s \<Longrightarrow> b \<in> set (lg_bundles s) \<Longrightarrow> b' \<in> set (lg_bundles s) \<Longrightarrow>
   r \<in> set (vb_receipts b) \<Longrightarrow> r' \<in> set (vb_receipts b') \<Longrightarrow> ve_request_id r = ve_request_id r' \<Longrightarrow>
   distinct (map ve_request_id (vb_receipts b)) \<and>
   (vb_bundle_id b = vb_bundle_id b' \<or> sha_collision (request_message (ve_document r)) (request_message (ve_document r')))"
  using ledger_requests_distinct ledger_credits requests_bind_epoch ledger_same_epoch by metis

theorem request_credited_once_witness:
  "\<exists>(s :: ledger) b r. b \<in> set (lg_bundles s) \<and> r \<in> set (vb_receipts b) \<and> ve_attested r \<and> distinct (map ve_request_id (vb_receipts b))"
proof -
  obtain s b b' r where s: "rtranclp (ledger_step demo_ml_world) empty_ledger s" "lg_bundles s = [b, b']" "vb_receipts b = [r]"
    "demo_credit False r" using demo_ledger by blast
  then have br: "b \<in> set (lg_bundles s)" "r \<in> set (vb_receipts b)" "ve_attested r" by (simp_all add: demo_credit_def)
  from request_credited_once [OF s(1) br(1,1,2,2)] br show ?thesis by blast
qed

text \<open>C37. Aggregation loses and invents nothing: an accepted bundle always aggregates, to one row per miner with
  attested receipts, in order; a row holds the exact sums of that miner's attested receipts, and the rows together the work
  of all attested receipts, although the sums are rounded to 64 digits on the way.\<close>

theorem bundle_aggregates_exactly:
  "verify_bundle env raw p now cp evidence verifier = Inr (b, c) \<Longrightarrow>
   \<exists>rows. aggregate_receipts (vb_receipts b) = Inr rows \<and> sorted (map fst rows) \<and> distinct (map fst rows) \<and>
     set (map fst rows) = ve_miner ` {r \<in> set (vb_receipts b). ve_attested r} \<and>
     (\<forall>(h, f) \<in> set rows. row_exact (mine (vb_receipts b) h) f) \<and>
     (\<Sum>(h, f) \<leftarrow> rows. dec_val (the (decimal_text (fst f)))) = (\<Sum>r \<leftarrow> filter ve_attested (vb_receipts b). dec_val (ve_work r))"
  using bundle_rows_total verify_bundle_ok by blast

theorem bundle_aggregates_exactly_witness:
  "\<exists>r rows. ve_attested r \<and> aggregate_receipts [r] = Inr rows \<and> map fst rows = [''m''] \<and>
     (\<Sum>(h, f) \<leftarrow> rows. dec_val (the (decimal_text (fst f)))) = 5 / 2"
proof -
  obtain b r where "demo_bundle False None None b r" using demo_first_bundle by blast
  then obtain braw c where b: "verify_bundle demo_ml_world braw demo_receipt_policy (Some demo_now) None demo_evidence (Some demo_verifier)
      = Inr (b, c)" "vb_receipts b = [r]" "demo_credit False r" unfolding demo_bundle_def by blast
  then have r: "ve_miner r = ''m''" "ve_attested r" "dec_val (ve_work r) = 5 / 2" by (simp_all add: demo_credit_def)
  then have mine: "ve_miner ` {x \<in> set [r]. ve_attested x} = {''m''}" "(\<Sum>x \<leftarrow> filter ve_attested [r]. dec_val (ve_work x)) = 5 / 2" by auto
  obtain rows where rows: "aggregate_receipts [r] = Inr rows" "distinct (map fst rows)"
    "set (map fst rows) = {''m''}" "(\<Sum>(h, f) \<leftarrow> rows. dec_val (the (decimal_text (fst f)))) = 5 / 2"
    using bundle_aggregates_exactly [OF b(1)] unfolding b(2) mine by blast
  show ?thesis by (intro exI conjI, rule r(2), rule rows(1), rule distinct_single_set [OF rows(2,3)], rule rows(4))
qed

text \<open>C38. What a source reports from a bundle, validators accept: the report body made from an accepted bundle, signed
  within the class's terms under the pinned key it names (whatever other keys the policy pins), verifies, names the bundle's epoch, and its entries carry, per miner, the
  exact sums of the bundle's attested receipts.\<close>

theorem bundle_report_verifies:
  "verify_bundle env' raw p now' cp evidence verifier = Inr (b, c) \<Longrightarrow> score_report_body_from_bundle b m = Inr body \<Longrightarrow>
   report_terms_ok env ep p block now b m \<Longrightarrow> sign_report sign body = Inr sent \<Longrightarrow> int (length sent) \<le> MAX_REPORT_BYTES \<Longrightarrow>
   map_of (ep_keys ep) (rt_key m) = Some key \<Longrightarrow> (\<And>x. or_ed env key (sign x) x) \<Longrightarrow> (\<And>x. length (sign x) = 64) \<Longrightarrow>
   \<exists>r rows. verify_report env sent ep (rp_network p) (rp_netuid p) block now = Inr r \<and> vr_epoch r = vb_epoch b \<and>
     vr_entries r = map (bundle_score (vb_bundle_id b) (rt_uri m)) rows \<and> aggregated (vb_receipts b) rows"
  by (drule verify_bundle_ok) (elim conjE, rule bundle_report_accepted)

theorem bundle_report_verifies_witness:
  "\<exists>sent r. verify_report demo_ml_world sent (demo_class demo_keys None) ''n'' 39 7 (Some demo_now) = Inr r \<and> vr_epoch r = 3 \<and>
     map se_hotkey (vr_entries r) = [''m'']"
proof -
  obtain b r where b: "demo_bundle False None None b r" using demo_first_bundle by blast
  then obtain braw where v: "verify_bundle demo_ml_world braw demo_receipt_policy (Some demo_now) None demo_evidence (Some demo_verifier)
      = Inr (b, demo_accepted False (vb_bundle_id b))" and r: "vb_receipts b = [r]" "demo_credit False r" "vb_epoch b = 3"
    and doc: "vb_document b = canonical_dict (dict_set ''bundle_id'' (JStr (vb_bundle_id b)) (demo_bundle_document False None (ve_document r)))"
    by (auto simp: demo_bundle_def demo_epoch_def)
  obtain body where body: "score_report_body_from_bundle b demo_report_terms = Inr body" "(\<Sum>kv \<leftarrow> body. item_size kv) \<le> 10000"
    "''report_id'' \<notin> fst ` set body" "''signature'' \<notin> fst ` set body" using demo_body [OF b] by blast
  let ?sent = "canonical_json (dict_set ''signature'' (signature_object ''ed25519'' (demo_sign (report_message
      (dict_set ''report_id'' (JStr (report_id_for body)) body)))) (dict_set ''report_id'' (JStr (report_id_for body)) body))"
  have sent: "sign_report demo_sign body = Inr ?sent" using body by (simp add: sign_report_def Let_def)
  have size: "int (length ?sent) \<le> MAX_REPORT_BYTES" by (rule signed_size) (use body in simp_all)
  have law: "or_ed demo_ml_world (replicate 32 0) (demo_sign x) x" for x using demo_law by (simp add: demo_ml_world_def)
  have pinned: "map_of (ep_keys (demo_class demo_keys None)) (rt_key demo_report_terms) = Some (replicate 32 0)"
    by (simp add: demo_report_terms_def demo_class_def demo_keys_def)
  have "\<exists>q rows. verify_report demo_ml_world ?sent (demo_class demo_keys None) (rp_network demo_receipt_policy) (rp_netuid demo_receipt_policy)
      7 (Some demo_now) = Inr q \<and> vr_epoch q = vb_epoch b \<and>
      vr_entries q = map (bundle_score (vb_bundle_id b) (rt_uri demo_report_terms)) rows \<and> aggregated (vb_receipts b) rows"
    by (rule bundle_report_verifies [OF v body(1) demo_report_terms_ok [OF doc] sent size pinned law]) simp
  then obtain q rows where q: "verify_report demo_ml_world ?sent (demo_class demo_keys None) ''n'' 39 7 (Some demo_now) = Inr q"
    "vr_epoch q = 3" "vr_entries q = map (bundle_score (vb_bundle_id b) (rt_uri demo_report_terms)) rows" "aggregated [r] rows"
    unfolding demo_policy_fields r(1,3) by blast
  have "map fst rows = [''m'']" using aggregated_one [OF q(4)] r(2) by (simp add: demo_credit_def)
  then have keys: "map se_hotkey (vr_entries q) = [''m'']" unfolding q(3) by (auto simp: bundle_score_def)
  show ?thesis by (intro exI conjI, rule q(1), rule q(2), rule keys)
qed

end
