(* ===== verification/Score_Time.thy ===== *)
theory Score_Time
  imports Score_Json
begin

text \<open>
  \<open>format_time\<close> of \<open>cathedral_thin/score_classes.py\<close>: the canonical text of a UTC time. A time is its
  number of microseconds since 0001-01-01, so printing finds the calendar date of a day number. The
  lemmas show that \<open>parse_time\<close> reads it back, and that the text of a time is unique. The years below
  1000 are outside: there \<open>strftime("%Y")\<close> does not pad on the platforms the code runs on.
\<close>

section \<open>The calendar\<close>

text \<open>The year, month and day of a day number: the last year and the last month that begin by then.\<close>

definition year_of :: "int \<Rightarrow> nat" where
  "year_of n = last (filter (\<lambda>y. days_before y 1 1 \<le> n) [1..<10000])"

definition month_of :: "nat \<Rightarrow> int \<Rightarrow> nat" where
  "month_of y n = last (filter (\<lambda>m. days_before y m 1 \<le> n) [1..<13])"

definition padded :: "nat \<Rightarrow> nat \<Rightarrow> string" where
  "padded w n = replicate (w - length (nat_str n)) CHR ''0'' @ nat_str n"

definition format_time :: "int \<Rightarrow> string" where
  "format_time t =
     (let us = nat (t mod 1000000); s = t div 1000000; n = s div 86400; r = nat (s mod 86400);
          y = year_of n; m = month_of y n; d = nat (n - days_before y m 1) + 1 in
      nat_str y @ ''-'' @ padded 2 m @ ''-'' @ padded 2 d @ ''T'' @ padded 2 (r div 3600) @ '':'' @
      padded 2 (r div 60 mod 60) @ '':'' @ padded 2 (r mod 60) @ ''.'' @ padded 6 us @ ''Z'')"

lemma days_before_Suc: "days_before (Suc q) 1 1 = 365 * int q + int (q div 4) - int (q div 100) + int (q div 400)"
  by (simp add: days_before_def Let_def zdiv_int)

lemma days_before_year: "1 \<le> y \<Longrightarrow> days_before (Suc y) 1 1 = days_before y 1 1 + (if leap_year y then 366 else 365)"
proof -
  assume "1 \<le> y"
  then obtain q where y: "y = Suc q" by (cases y) auto
  have "Suc q mod 400 = 0 \<Longrightarrow> Suc q mod 100 = 0" "Suc q mod 100 = 0 \<Longrightarrow> Suc q mod 4 = 0"
    using dvd_trans [of 100 400 "Suc q"] dvd_trans [of 4 100 "Suc q"] by (simp_all add: dvd_eq_mod_eq_0)
  then show ?thesis unfolding y days_before_Suc leap_year_def div_Suc by (auto split: if_splits)
qed

lemma days_before_month: "1 \<le> m \<Longrightarrow> days_before y (Suc m) 1 = days_before y m 1 + int (month_days y m)"
  by (simp add: days_before_def Let_def)

lemma days_before_day: "days_before y m d = days_before y m 1 + (int d - 1)"
  by (simp add: days_before_def Let_def)

lemma days_before_december: "1 \<le> y \<Longrightarrow> days_before y 13 1 = days_before (Suc y) 1 1"
proof -
  have "[1..<13] = [1, 2, 3, 4, 5, 6, 7, 8, 9, 10, 11, 12 :: nat]" by (simp add: upt_rec)
  then have "(\<Sum>k \<leftarrow> [1..<13]. int (month_days y k)) = (if leap_year y then 366 else 365)" by (simp add: month_days_def)
  then have "days_before y 13 1 = days_before y 1 1 + (if leap_year y then 366 else 365)" by (simp add: days_before_def Let_def)
  then show "1 \<le> y \<Longrightarrow> days_before y 13 1 = days_before (Suc y) 1 1" by (simp only: days_before_year)
qed

lemma year_mono: "1 \<le> y \<Longrightarrow> y \<le> z \<Longrightarrow> days_before y 1 1 \<le> days_before z 1 1"
proof (induction z)
  case (Suc z)
  then show ?case using days_before_year [of z] by (cases "y = Suc z") auto
qed simp

lemma month_mono: "1 \<le> m \<Longrightarrow> m \<le> k \<Longrightarrow> days_before y m 1 \<le> days_before y k 1"
proof (induction k)
  case (Suc k)
  then show ?case using days_before_month [of k y] by (cases "m = Suc k") auto
qed simp

lemma last_filter_upt:
  assumes "lo \<le> y" "y < hi" "P y" "\<And>z. y < z \<Longrightarrow> z < hi \<Longrightarrow> \<not> P z"
  shows "last (filter P [lo..<hi]) = y"
proof -
  have "[lo..<hi] = [lo..<y] @ y # [Suc y..<hi]" using assms(1,2) by (metis le_Suc_ex less_imp_le_nat upt_add_eq_append upt_rec)
  moreover have "filter P [Suc y..<hi] = []" using assms(4) by (auto simp: filter_empty_conv)
  ultimately show ?thesis using assms(3) by simp
qed

text \<open>A date of the calendar the strings can name.\<close>

definition valid_date :: "nat \<Rightarrow> nat \<Rightarrow> nat \<Rightarrow> bool" where
  "valid_date y m d = (1 \<le> y \<and> y < 10000 \<and> 1 \<le> m \<and> m \<le> 12 \<and> 1 \<le> d \<and> d \<le> month_days y m)"

lemma date_of_day:
  assumes "valid_date y m d"
  shows "year_of (days_before y m d) = y" "month_of y (days_before y m d) = m"
    "nat (days_before y m d - days_before y m 1) + 1 = d"
proof -
  let ?n = "days_before y m d"
  have v: "1 \<le> y" "y < 10000" "1 \<le> m" "m \<le> 12" "1 \<le> d" "d \<le> month_days y m" using assms by (auto simp: valid_date_def)
  have next_month: "?n < days_before y (Suc m) 1" using v days_before_day [of y m d] days_before_month [of m y] by simp
  have "days_before y (Suc m) 1 \<le> days_before (Suc y) 1 1"
    using month_mono [of "Suc m" 13 y] days_before_december v by simp
  then have next_year: "?n < days_before (Suc y) 1 1" using next_month by simp
  have first: "days_before y m 1 \<le> ?n" using v days_before_day [of y m d] by simp
  have "days_before y 1 1 \<le> ?n" using month_mono [of 1 m y] v first by simp
  moreover have "\<not> days_before z 1 1 \<le> ?n" if "y < z" for z using year_mono [of "Suc y" z] next_year that by simp
  ultimately show "year_of ?n = y" unfolding year_of_def using v by (intro last_filter_upt) auto
  have "\<not> days_before y k 1 \<le> ?n" if "m < k" for k using month_mono [of "Suc m" k y] next_month that by simp
  then show "month_of y ?n = m" unfolding month_of_def using v first by (intro last_filter_upt) auto
  show "nat (?n - days_before y m 1) + 1 = d" using v days_before_day [of y m d] by simp
qed

lemma step_search:
  assumes "f lo \<le> n" "n < f hi" "lo < hi"
  shows "\<exists>k \<ge> lo. k < hi \<and> f k \<le> n \<and> n < (f (Suc k) :: int)"
  using assms
proof (induction "hi - lo" arbitrary: lo)
  case (Suc j)
  then show ?case
  proof (cases "n < f (Suc lo)")
    case False
    then have "Suc lo < hi" using Suc.prems by (cases "Suc lo = hi") auto
    moreover have "j = hi - Suc lo" "f (Suc lo) \<le> n" using Suc.hyps(2) False by simp_all
    ultimately obtain k where "Suc lo \<le> k" "k < hi" "f k \<le> n" "n < f (Suc k)" using Suc.hyps(1) Suc.prems(2) by blast
    then show ?thesis by (intro exI [of _ k]) simp
  qed (use Suc.prems in auto)
qed simp

lemma day_has_date:
  assumes "0 \<le> n" "n < days_before 10000 1 1"
  shows "\<exists>y m d. valid_date y m d \<and> days_before y m d = n"
proof -
  have "days_before 1 1 1 = 0" by (simp add: days_before_def)
  then obtain y where y: "1 \<le> y" "y < 10000" "days_before y 1 1 \<le> n" "n < days_before (Suc y) 1 1"
    using step_search [of "\<lambda>y. days_before y 1 1" 1 n 10000] assms by auto
  then obtain m where m: "1 \<le> m" "m < 13" "days_before y m 1 \<le> n" "n < days_before y (Suc m) 1"
    using step_search [of "\<lambda>m. days_before y m 1" 1 n 13] days_before_december by auto
  let ?d = "nat (n - days_before y m 1) + 1"
  have "valid_date y m ?d" using y m days_before_month [of m y] by (auto simp: valid_date_def)
  moreover have "days_before y m ?d = n" using m(3) days_before_day [of y m ?d] by simp
  ultimately show ?thesis by blast
qed

section \<open>The text\<close>

definition time_text :: "string \<Rightarrow> string \<Rightarrow> string \<Rightarrow> string \<Rightarrow> string \<Rightarrow> string \<Rightarrow> string \<Rightarrow> string" where
  "time_text y mo d h mi s us = y @ ''-'' @ mo @ ''-'' @ d @ ''T'' @ h @ '':'' @ mi @ '':'' @ s @ ''.'' @ us @ ''Z''"

lemma time_text_parts:
  assumes "length y = 4" "length mo = 2" "length d = 2" "length h = 2" "length mi = 2" "length s = 2" "length us = 6"
  shows "num_at (time_text y mo d h mi s us) 0 4 = digits_value y" "num_at (time_text y mo d h mi s us) 5 2 = digits_value mo"
    "num_at (time_text y mo d h mi s us) 8 2 = digits_value d" "num_at (time_text y mo d h mi s us) 11 2 = digits_value h"
    "num_at (time_text y mo d h mi s us) 14 2 = digits_value mi" "num_at (time_text y mo d h mi s us) 17 2 = digits_value s"
    "num_at (time_text y mo d h mi s us) 20 6 = digits_value us"
    "time_shape (time_text y mo d h mi s us) \<longleftrightarrow> list_all is_digit (y @ mo @ d @ h @ mi @ s @ us)"
  using assms by (auto simp: num_at_def time_shape_def digits_at_def time_text_def nth_append)

lemma drop_split: "n + k < length x \<Longrightarrow> drop n x = take k (drop n x) @ x ! (n + k) # drop (Suc (n + k)) x"
  by (metis add.commute append_take_drop_id Cons_nth_drop_Suc drop_drop)

lemma time_shape_text:
  assumes "time_shape x"
  shows "\<exists>y mo d h mi s us. x = time_text y mo d h mi s us \<and> length y = 4 \<and> length mo = 2 \<and> length d = 2 \<and> length h = 2 \<and>
    length mi = 2 \<and> length s = 2 \<and> length us = 6"
proof -
  have len: "length x = 27" and marks: "x ! 4 = CHR ''-''" "x ! 7 = CHR ''-''" "x ! 10 = CHR ''T''" "x ! 13 = CHR '':''"
    "x ! 16 = CHR '':''" "x ! 19 = CHR ''.''" "x ! 26 = CHR ''Z''" using assms by (simp_all add: time_shape_def)
  note cut = drop_split [of 0 4 x] drop_split [of 5 2 x] drop_split [of 8 2 x] drop_split [of 11 2 x] drop_split [of 14 2 x]
    drop_split [of 17 2 x] drop_split [of 20 6 x]
  have "x = take 4 x @ CHR ''-'' # drop 5 x" "drop 5 x = take 2 (drop 5 x) @ CHR ''-'' # drop 8 x"
    "drop 8 x = take 2 (drop 8 x) @ CHR ''T'' # drop 11 x" "drop 11 x = take 2 (drop 11 x) @ CHR '':'' # drop 14 x"
    "drop 14 x = take 2 (drop 14 x) @ CHR '':'' # drop 17 x" "drop 17 x = take 2 (drop 17 x) @ CHR ''.'' # drop 20 x"
    "drop 20 x = take 6 (drop 20 x) @ CHR ''Z'' # []" using cut by (simp_all add: len marks)
  then have "x = time_text (take 4 x) (take 2 (drop 5 x)) (take 2 (drop 8 x)) (take 2 (drop 11 x)) (take 2 (drop 14 x))
      (take 2 (drop 17 x)) (take 6 (drop 20 x))" unfolding time_text_def by (metis append_Cons append_Nil)
  moreover have "length (take 4 x) = 4" "length (take 2 (drop 5 x)) = 2" "length (take 2 (drop 8 x)) = 2" "length (take 2 (drop 11 x)) = 2"
    "length (take 2 (drop 14 x)) = 2" "length (take 2 (drop 17 x)) = 2" "length (take 6 (drop 20 x)) = 6" by (simp_all add: len)
  ultimately show ?thesis by blast
qed

lemma digits_value_bound: "list_all is_digit ds \<Longrightarrow> digits_value ds < 10 ^ length ds"
proof (induction ds rule: rev_induct)
  case (snoc c ds)
  then have "code c - 48 \<le> 9" by (simp add: is_digit_def) linarith
  then show ?case using snoc by simp
qed (simp add: digits_value_def)

lemma padded_Suc: "0 < w \<Longrightarrow> k < 10 \<Longrightarrow> padded (Suc w) (10 * v + k) = padded w v @ [digit_char k]"
proof (cases "v = 0")
  case True
  assume w: "0 < w" "k < 10"
  then have k: "nat_str k = [digit_char k]" by (simp add: nat_str.simps [of k])
  obtain j where "w = Suc j" using w(1) by (cases w) auto
  then show ?thesis using True by (simp add: padded_def k nat_str_0 flip: replicate_append_same)
next
  case False
  assume "0 < w" "k < 10"
  then have "nat_str (10 * v + k) = nat_str v @ [digit_char k]" using False by (subst nat_str.simps) simp
  then show ?thesis by (simp add: padded_def)
qed

lemma padded_one: "n < 10 \<Longrightarrow> padded 1 n = [digit_char n]"
  by (simp add: padded_def nat_str.simps [of n])

lemma digit_char_code: "is_digit c \<Longrightarrow> digit_char (code c - 48) = c"
  by (simp add: digit_char_def is_digit_def code_def)

lemma digit_char_digit: "k < 10 \<Longrightarrow> is_digit (digit_char k) \<and> code (digit_char k) - 48 = k"
  by (simp add: is_digit_def)

lemma padded_value: "list_all is_digit ds \<Longrightarrow> ds \<noteq> [] \<Longrightarrow> padded (length ds) (digits_value ds) = ds"
proof (induction ds rule: rev_induct)
  case (snoc c ds)
  then have "code c - 48 \<le> 9" by (simp add: is_digit_def) linarith
  then have k: "code c - 48 < 10" by simp
  have d: "digit_char (code c - 48) = c" using snoc.prems by (intro digit_char_code) simp
  show ?case
  proof (cases "ds = []")
    case True
    then show ?thesis using padded_one [OF k] d by (simp add: digits_value_def)
  next
    case False
    then show ?thesis using snoc padded_Suc [of "length ds" _ "digits_value ds", OF _ k] d by simp
  qed
qed simp

lemma padded_text: "n < 10 ^ Suc w \<Longrightarrow>
    length (padded (Suc w) n) = Suc w \<and> list_all is_digit (padded (Suc w) n) \<and> digits_value (padded (Suc w) n) = n"
proof (induction w arbitrary: n)
  case 0
  then show ?case using padded_one [of n] digit_char_digit [of n] by (simp add: digits_value_def)
next
  case (Suc w)
  have "n div 10 < 10 ^ Suc w" using Suc.prems by (simp add: less_mult_imp_div_less mult.commute)
  moreover have "padded (Suc (Suc w)) (10 * (n div 10) + n mod 10) = padded (Suc w) (n div 10) @ [digit_char (n mod 10)]"
    by (rule padded_Suc) simp_all
  ultimately show ?case using Suc.IH [of "n div 10"] digit_char_digit [of "n mod 10"] by simp
qed

lemma padded_ok:
  assumes "n < 10 ^ w" "0 < w"
  shows "length (padded w n) = w" "list_all is_digit (padded w n)" "digits_value (padded w n) = n"
  using padded_text [of n "w - 1"] assms by simp_all

lemma padded_back: "list_all is_digit ds \<Longrightarrow> length ds = w \<Longrightarrow> 0 < w \<Longrightarrow> padded w (digits_value ds) = ds"
  using padded_value [of ds] by auto

section \<open>Printing and reading\<close>

text \<open>The times the format covers: the years 1000 to 9999.\<close>

definition printable_time :: "int \<Rightarrow> bool" where
  "printable_time t = (days_before 1000 1 1 * 86400000000 \<le> t \<and> t < days_before 10000 1 1 * 86400000000)"

text \<open>A time is a date and a time of day.\<close>

definition moment :: "nat \<Rightarrow> nat \<Rightarrow> nat \<Rightarrow> nat \<Rightarrow> nat \<Rightarrow> nat \<Rightarrow> nat \<Rightarrow> int" where
  "moment y mo d h mi s us =
     ((days_before y mo d * 24 + int h) * 60 + int mi) * 60000000 + int s * 1000000 + int us"

lemma format_moment:
  assumes v: "valid_date y mo d" "1000 \<le> y" and t: "h \<le> 23" "mi \<le> 59" "s \<le> 59" "us < 1000000"
  shows "format_time (moment y mo d h mi s us) = time_text (padded 4 y) (padded 2 mo) (padded 2 d) (padded 2 h) (padded 2 mi) (padded 2 s) (padded 6 us)"
proof -
  let ?t = "moment y mo d h mi s us" and ?n = "days_before y mo d" and ?r = "h * 3600 + mi * 60 + s"
  have eq: "?t = (?n * 86400 + int ?r) * 1000000 + int us" by (simp add: moment_def algebra_simps)
  have us: "?t mod 1000000 = int us" "?t div 1000000 = ?n * 86400 + int ?r" 
  proof -
    have "(K * 1000000 + int us) mod 1000000 = int us \<and> (K * 1000000 + int us) div 1000000 = K" for K using t(4) by simp
    then show "?t mod 1000000 = int us" "?t div 1000000 = ?n * 86400 + int ?r" unfolding eq by blast+
  qed
  have r: "?r < 86400" using t by linarith
  then have n: "(?n * 86400 + int ?r) div 86400 = ?n" "(?n * 86400 + int ?r) mod 86400 = int ?r" by simp_all
  have parts: "?r div 3600 = h" "?r div 60 mod 60 = mi" "?r mod 60 = s"
  proof -
    have r: "?r = (h * 60 + mi) * 60 + s" by simp
    have "(k * 60 + s) div 60 = k \<and> (k * 60 + s) mod 60 = s" for k using t by simp
    then have m: "?r div 60 = h * 60 + mi" "?r mod 60 = s" unfolding r by blast+
    then show "?r div 60 mod 60 = mi" "?r mod 60 = s" using t by simp_all
    have "?r div 3600 = ?r div 60 div 60" by (simp flip: div_mult2_eq)
    then show "?r div 3600 = h" using m t by simp
  qed
  have "length (nat_str y) = 4"
  proof -
    have "length (nat_str y) \<le> Suc 3" by (rule length_nat_str) (use v in \<open>simp add: valid_date_def\<close>)
    moreover have "10 ^ 3 \<le> y" using v(2) by simp
    moreover have "y < 10 ^ length (nat_str y)"
      using digits_value_bound [of "nat_str y"] nat_str_digits by (simp add: list_all_iff)
    then have "10 ^ 3 < (10 :: nat) ^ length (nat_str y)" using calculation(2) by (rule le_less_trans [rotated])
    then have "3 < length (nat_str y)" by (rule power_less_imp_less_exp [rotated]) simp
    ultimately show ?thesis by simp
  qed
  then have y: "padded 4 y = nat_str y" by (simp add: padded_def)
  show ?thesis
    unfolding format_time_def Let_def us nat_int n date_of_day [OF v(1)] parts time_text_def y by (rule refl)
qed


lemma time_value_text:
  assumes "length y = 4" "length mo = 2" "length d = 2" "length h = 2" "length mi = 2" "length s = 2" "length us = 6"
  shows "time_value (time_text y mo d h mi s us) =
    (if 1 \<le> digits_value y \<and> 1 \<le> digits_value mo \<and> digits_value mo \<le> 12 \<and> 1 \<le> digits_value d \<and>
        digits_value d \<le> month_days (digits_value y) (digits_value mo) \<and> digits_value h \<le> 23 \<and> digits_value mi \<le> 59 \<and> digits_value s \<le> 59
     then Some (moment (digits_value y) (digits_value mo) (digits_value d) (digits_value h) (digits_value mi) (digits_value s) (digits_value us))
     else None)"
  unfolding time_value_def time_text_parts [OF assms] Let_def moment_def by (rule refl)

lemma moment_mono_year:
  assumes "valid_date y mo d"
  shows "days_before y 1 1 * 86400000000 \<le> moment y mo d h mi s us"
    and "h \<le> 23 \<Longrightarrow> mi \<le> 59 \<Longrightarrow> s \<le> 59 \<Longrightarrow> us < 1000000 \<Longrightarrow> moment y mo d h mi s us < days_before (Suc y) 1 1 * 86400000000"
proof -
  have v: "1 \<le> y" "1 \<le> mo" "mo \<le> 12" "1 \<le> d" "d \<le> month_days y mo" using assms by (auto simp: valid_date_def)
  have "days_before y 1 1 \<le> days_before y mo d" using month_mono [of 1 mo y] v days_before_day [of y mo d] by simp
  then show "days_before y 1 1 * 86400000000 \<le> moment y mo d h mi s us" by (simp add: moment_def)
  have "days_before y mo d < days_before y (Suc mo) 1" using v days_before_day [of y mo d] days_before_month [of mo y] by simp
  also have "\<dots> \<le> days_before (Suc y) 1 1" using month_mono [of "Suc mo" 13 y] days_before_december v by simp
  finally have "days_before y mo d + 1 \<le> days_before (Suc y) 1 1" by simp
  then show "h \<le> 23 \<Longrightarrow> mi \<le> 59 \<Longrightarrow> s \<le> 59 \<Longrightarrow> us < 1000000 \<Longrightarrow> moment y mo d h mi s us < days_before (Suc y) 1 1 * 86400000000"
    by (simp add: moment_def)
qed

text \<open>Every printable time is a moment.\<close>

lemma time_is_moment:
  assumes "printable_time t"
  shows "\<exists>y mo d h mi s us. valid_date y mo d \<and> 1000 \<le> y \<and> h \<le> 23 \<and> mi \<le> 59 \<and> s \<le> 59 \<and> us < 1000000 \<and> t = moment y mo d h mi s us"
proof -
  define n r where "n = t div 86400000000" and "r = nat (t mod 86400000000)"
  have t: "t = n * 86400000000 + int r" "r < 86400000000" by (simp_all add: n_def r_def nat_less_iff)
  have n: "days_before 1000 1 1 \<le> n" "n < days_before 10000 1 1" using assms t by (auto simp: printable_time_def)
  have "0 \<le> days_before 1000 1 1" by (simp add: days_before_def)
  then have "0 \<le> n" using n(1) by linarith
  then obtain y mo d where v: "valid_date y mo d" "days_before y mo d = n" using day_has_date n(2) by blast
  have "1000 \<le> y"
  proof (rule ccontr)
    assume "\<not> 1000 \<le> y"
    then have "days_before (Suc y) 1 1 \<le> days_before 1000 1 1" by (intro year_mono) simp_all
    moreover have "moment y mo d 0 0 0 0 < days_before (Suc y) 1 1 * 86400000000" by (rule moment_mono_year [OF v(1)]) simp_all
    ultimately show False using n by (simp add: moment_def v(2))
  qed
  moreover define h mi s us where "h = r div 3600000000" and "mi = r div 60000000 mod 60" and "s = r div 1000000 mod 60" and "us = r mod 1000000"
  moreover have "h \<le> 23" "mi \<le> 59" "s \<le> 59" "us < 1000000"
    using t(2) by (simp_all add: h_def mi_def s_def us_def div_le_mono less_mult_imp_div_less flip: less_Suc_eq_le)
  moreover have "r = ((h * 60 + mi) * 60 + s) * 1000000 + us"
  proof -
    define q where "q = r div 1000000"
    have "r div 60000000 = q div 60" "r div 3600000000 = q div 60 div 60" unfolding q_def by (simp_all flip: div_mult2_eq)
    then have "h = q div 60 div 60" "mi = q div 60 mod 60" "s = q mod 60" by (simp_all add: h_def mi_def s_def q_def)
    then have "(h * 60 + mi) * 60 + s = q" by simp
    then show ?thesis by (simp add: us_def q_def)
  qed
  then have "t = moment y mo d h mi s us" unfolding t(1) moment_def v(2) by (simp add: algebra_simps)
  ultimately show ?thesis using v(1) by blast
qed

lemma format_time_shape:
  assumes "printable_time t"
  shows "time_shape (format_time t)" "time_value (format_time t) = Some t"
proof -
  obtain y mo d h mi s us where v: "valid_date y mo d" "1000 \<le> y" and b: "h \<le> 23" "mi \<le> 59" "s \<le> 59" "us < 1000000"
    and t: "t = moment y mo d h mi s us" using time_is_moment [OF assms] by blast
  have d: "1 \<le> y" "y < 10000" "1 \<le> mo" "mo \<le> 12" "1 \<le> d" "d \<le> month_days y mo" using v by (auto simp: valid_date_def)
  have "month_days y mo \<le> 31" by (simp add: month_days_def)
  then have small: "mo < 100" "d < 100" "h < 100" "mi < 100" "s < 100" using d b by linarith+
  have w: "y < 10 ^ 4" "mo < 10 ^ 2" "d < 10 ^ 2" "h < 10 ^ 2" "mi < 10 ^ 2" "s < 10 ^ 2" "us < 10 ^ 6" using d small b by simp_all
  have len: "length (padded 4 y) = 4" "length (padded 2 mo) = 2" "length (padded 2 d) = 2" "length (padded 2 h) = 2"
    "length (padded 2 mi) = 2" "length (padded 2 s) = 2" "length (padded 6 us) = 6" using w by (simp_all only: padded_ok zero_less_numeral)
  have dig: "list_all is_digit (padded 4 y)" "list_all is_digit (padded 2 mo)" "list_all is_digit (padded 2 d)" "list_all is_digit (padded 2 h)"
    "list_all is_digit (padded 2 mi)" "list_all is_digit (padded 2 s)" "list_all is_digit (padded 6 us)"
    using w by (simp_all only: padded_ok zero_less_numeral)
  have val: "digits_value (padded 4 y) = y" "digits_value (padded 2 mo) = mo" "digits_value (padded 2 d) = d" "digits_value (padded 2 h) = h"
    "digits_value (padded 2 mi) = mi" "digits_value (padded 2 s) = s" "digits_value (padded 6 us) = us"
    using w by (simp_all only: padded_ok zero_less_numeral)
  show "time_shape (format_time t)" unfolding t format_moment [OF v b] time_text_parts(8) [OF len] using dig by simp
  show "time_value (format_time t) = Some t" unfolding t format_moment [OF v b] time_value_text [OF len] val using d b by simp
qed

text \<open>Reading a printed time gives the time; the text of a time is unique.\<close>

lemma parse_format_time: "printable_time t \<Longrightarrow> parse_time (JStr (format_time t)) l = Inr t"
  using format_time_shape by (simp add: parse_time_def)

lemma format_parse_time:
  assumes "parse_time (JStr x) l = Inr t" "printable_time t"
  shows "format_time t = x"
proof -
  have shape: "time_shape x" and val: "time_value x = Some t" using assms(1) by (auto simp: parse_time_def split: if_splits option.splits)
  obtain y mo d h mi s us where x: "x = time_text y mo d h mi s us" and len: "length y = 4" "length mo = 2" "length d = 2"
    "length h = 2" "length mi = 2" "length s = 2" "length us = 6" using time_shape_text [OF shape] by blast
  have dig: "list_all is_digit y" "list_all is_digit mo" "list_all is_digit d" "list_all is_digit h" "list_all is_digit mi"
    "list_all is_digit s" "list_all is_digit us" using shape unfolding x time_text_parts(8) [OF len] by simp_all
  let ?y = "digits_value y" and ?mo = "digits_value mo" and ?d = "digits_value d"
  have b: "?y < 10000" "digits_value us < 1000000" using digits_value_bound [OF dig(1)] digits_value_bound [OF dig(7)] len by simp_all
  have c: "1 \<le> ?y \<and> 1 \<le> ?mo \<and> ?mo \<le> 12 \<and> 1 \<le> ?d \<and> ?d \<le> month_days ?y ?mo \<and> digits_value h \<le> 23 \<and> digits_value mi \<le> 59 \<and> digits_value s \<le> 59"
    and t: "t = moment ?y ?mo ?d (digits_value h) (digits_value mi) (digits_value s) (digits_value us)"
    using val unfolding x time_value_text [OF len] by (auto split: if_splits)
  have v: "valid_date ?y ?mo ?d" using b c by (simp add: valid_date_def)
  have "1000 \<le> ?y"
  proof (rule ccontr)
    assume "\<not> 1000 \<le> ?y"
    then have "days_before (Suc ?y) 1 1 \<le> days_before 1000 1 1" by (intro year_mono) simp_all
    moreover have "t < days_before (Suc ?y) 1 1 * 86400000000" unfolding t by (rule moment_mono_year [OF v]) (use b c in simp_all)
    ultimately show False using assms(2) by (simp add: printable_time_def)
  qed
  moreover have "padded 4 ?y = y" "padded 2 ?mo = mo" "padded 2 ?d = d" "padded 2 (digits_value h) = h" "padded 2 (digits_value mi) = mi"
    "padded 2 (digits_value s) = s" "padded 6 (digits_value us) = us"
    using dig len by (simp_all only: padded_back zero_less_numeral)
  ultimately show ?thesis unfolding t x using format_moment [OF v] b c by simp
qed

end
