(* ===== verification/Ml_Verifier.thy ===== *)
theory Ml_Verifier
  imports Ml_Bundle Ml_Protocol Miner_Solver Score_Time
begin

text \<open>
  \<open>cathedral_thin/ml_receipts.py\<close>, what a validator runs and stores: the adapter around its local quote
  verifier (\<open>subprocess_attestation_verifier\<close>), pinned by the digest of the executable, and the bytes of
  the bundle checkpoint. Processes, files and \<open>PATH\<close> are parameters.
\<close>

section \<open>The command\<close>

function replace_text :: "string \<Rightarrow> string \<Rightarrow> string \<Rightarrow> string" where
  "replace_text old new s =
     (if s = [] \<or> old = [] then s
      else if starts_with s old then new @ replace_text old new (drop (length old) s)
      else hd s # replace_text old new (tl s))"
  by auto
termination by (relation "measure (\<lambda>(old, new, s). length s)") auto

declare replace_text.simps [simp del]

definition quote_placeholders :: "string list" where
  "quote_placeholders = [''{evidence_path}'', ''{report_data_hex}'', ''{policy_digest}'', ''{result_path}'']"

text \<open>The operating system as the adapter sees it: \<open>shutil.which\<close>, \<open>os.path.realpath\<close>, the bytes of a file
  when the adapter is built and when it is called (None for an OSError), the fresh directory, the write of
  the evidence, the process (its arguments, the evidence file and the time limit) and the result file it
  leaves.\<close>

record verifier_env =
  qv_which :: "string \<Rightarrow> string option"
  qv_realpath :: "string \<Rightarrow> string"
  qv_built :: "string \<Rightarrow> bytes option"
  qv_called :: "string \<Rightarrow> bytes option"
  qv_dir :: "string res"
  qv_write :: "string \<Rightarrow> bytes \<Rightarrow> unit res"
  qv_run :: "string list \<Rightarrow> bytes \<Rightarrow> pyfloat \<Rightarrow> process_outcome"
  qv_result :: "string list \<Rightarrow> bytes \<Rightarrow> bytes option"

definition digest_file :: "(string \<Rightarrow> bytes option) \<Rightarrow> string \<Rightarrow> string res" where
  "digest_file files path =
     (case files path of None \<Rightarrow> raise (''could not hash file: '' @ path) | Some b \<Rightarrow> Inr (sha256_digest b))"

definition resolve_executable :: "verifier_env \<Rightarrow> string list \<Rightarrow> string res" where
  "resolve_executable env command =
     (case command of
        [] \<Rightarrow> raise ''attestation verifier command is empty''
      | executable # _ \<Rightarrow>
          (case (if starts_with executable ''/'' then Some executable else qv_which env executable) of
             None \<Rightarrow> raise (''attestation verifier not found: '' @ executable)
           | Some path \<Rightarrow> guardE (path = []) (''attestation verifier not found: '' @ executable) (Inr (qv_realpath env path))))"

text \<open>The replacements, one placeholder after the other.\<close>

definition quote_token :: "(string \<times> string) list \<Rightarrow> string \<Rightarrow> string" where
  "quote_token subst token = foldl (\<lambda>s (placeholder, replacement). replace_text placeholder replacement s) token subst"

definition quote_argv :: "string list \<Rightarrow> string \<Rightarrow> bytes \<Rightarrow> string \<Rightarrow> string list" where
  "quote_argv tokens dir expected policy_digest =
     map (quote_token [(''{evidence_path}'', dir @ ''/evidence.bin''), (''{report_data_hex}'', hex_of expected),
        (''{policy_digest}'', policy_digest), (''{result_path}'', dir @ ''/result.json'')]) tokens"

section \<open>The result of a run\<close>

definition quote_result_keys :: "string list" where
  "quote_result_keys = [''ok'', ''report_data_match'', ''policy_digest'', ''measurement_digest'', ''reason'']"

definition quote_result :: "string \<Rightarrow> string \<Rightarrow> bytes \<Rightarrow> attestation_verification res" where
  "quote_result actual_digest policy_digest raw =
     bindE (parse_strict_json raw 16384) (\<lambda>result.
     require_exact_keys result quote_result_keys ''attestation verifier result''
     (guardE (jget result ''policy_digest'' \<noteq> JStr policy_digest) ''attestation verifier policy digest mismatch''
     (bindE (if jget result ''measurement_digest'' = JNull then Inr None
             else bindE (sha_digest (jget result ''measurement_digest'') ''measurement digest'') (\<lambda>s. Inr (Some s))) (\<lambda>measurement.
      bindE (bounded_string (jget result ''reason'') ''verifier reason'' 512) (\<lambda>reason.
        Inr \<lparr>av_ok = (jget result ''ok'' = JBool True \<and> jget result ''report_data_match'' = JBool True),
          av_verifier = actual_digest, av_measurement = measurement, av_reason = reason\<rparr>)))))"

text \<open>One call of the adapter.\<close>

definition run_quote_verifier :: "verifier_env \<Rightarrow> string list \<Rightarrow> string \<Rightarrow> pyfloat \<Rightarrow> attestation_verifier" where
  "run_quote_verifier env tokens actual_digest timeout evidence expected policy_digest =
     guardE (int (length evidence) > MAX_ATTESTATION_BYTES) ''attestation evidence exceeds size limit''
     (bindE (digest_file (qv_called env) (hd tokens)) (\<lambda>digest.
      guardE (digest \<noteq> actual_digest) ''attestation verifier executable changed after pinning''
      (bindE (qv_dir env) (\<lambda>dir.
       bindE (qv_write env (dir @ ''/evidence.bin'') evidence) (\<lambda>_.
       let argv = quote_argv tokens dir expected policy_digest in
       case qv_run env argv evidence timeout of
         ProcessTimeout \<Rightarrow> raise ''attestation verifier execution failed''
       | ProcessError PyOSError \<Rightarrow> raise ''attestation verifier execution failed''
       | ProcessError e \<Rightarrow> Inl e
       | Exited status output \<Rightarrow>
           guardE (status \<noteq> 0) (''attestation verifier exited '' @ int_str status)
           (case qv_result env argv evidence of
              None \<Rightarrow> raise ''attestation verifier did not write a result''
            | Some raw \<Rightarrow> quote_result actual_digest policy_digest raw))))))"

text \<open>The command is one string or a list of tokens.\<close>

definition subprocess_attestation_verifier ::
    "verifier_env \<Rightarrow> string + string list \<Rightarrow> string \<Rightarrow> pyfloat \<Rightarrow> attestation_verifier res" where
  "subprocess_attestation_verifier env command expected_digest timeout =
     bindE (case command of Inl s \<Rightarrow> shlex_split s | Inr ts \<Rightarrow> Inr ts) (\<lambda>tokens.
     guardE (\<not> list_all (\<lambda>p. list_ex (\<lambda>t. contains t p) tokens) quote_placeholders)
       ''attestation verifier command is missing placeholders''
     (bindE (resolve_executable env tokens) (\<lambda>executable.
      bindE (digest_file (qv_built env) executable) (\<lambda>actual_digest.
      bindE (sha_digest (JStr expected_digest) ''expected verifier digest'') (\<lambda>wanted.
      guardE (actual_digest \<noteq> wanted) ''attestation verifier executable digest mismatch''
      (guardE (f_le timeout (Fin 0)) ''attestation verifier timeout must be positive''
        (Inr (run_quote_verifier env (executable # tl tokens) actual_digest timeout))))))))"

section \<open>What a positive verdict means\<close>

text \<open>The run behind a verdict: the pinned executable, and the result it wrote.\<close>

definition quote_accepted :: "verifier_env \<Rightarrow> string \<Rightarrow> bytes \<Rightarrow> bytes \<Rightarrow> string \<Rightarrow> attestation_verification \<Rightarrow> bool" where
  "quote_accepted env expected_digest evidence expected policy_digest v =
     (\<exists>tokens dir result b b' limit out raw.
        sha256_digest b = expected_digest \<and> qv_built env (hd tokens) = Some b \<and>
        sha256_digest b' = expected_digest \<and> qv_called env (hd tokens) = Some b' \<and>
        qv_dir env = Inr dir \<and> qv_run env (quote_argv tokens dir expected policy_digest) evidence limit = Exited 0 out \<and>
        qv_result env (quote_argv tokens dir expected policy_digest) evidence = Some raw \<and>
        parse_strict_json raw 16384 = Inr result \<and> keys_are result quote_result_keys \<and>
        jget result ''ok'' = JBool True \<and> jget result ''report_data_match'' = JBool True \<and>
        jget result ''policy_digest'' = JStr policy_digest \<and>
        jget result ''measurement_digest'' = (case av_measurement v of None \<Rightarrow> JNull | Some m \<Rightarrow> JStr m))"

lemma digest_file_InrD: "digest_file files path = Inr d \<Longrightarrow> \<exists>b. files path = Some b \<and> d = sha256_digest b"
  by (auto simp: digest_file_def split: option.splits)

lemma quote_result_InrD:
  assumes "quote_result digest pd raw = Inr v" "av_ok v"
  shows "av_verifier v = digest \<and> (\<exists>result. parse_strict_json raw 16384 = Inr result \<and> keys_are result quote_result_keys \<and>
    jget result ''ok'' = JBool True \<and> jget result ''report_data_match'' = JBool True \<and> jget result ''policy_digest'' = JStr pd \<and>
    jget result ''measurement_digest'' = (case av_measurement v of None \<Rightarrow> JNull | Some m \<Rightarrow> JStr m))"
  using assms unfolding quote_result_def require_exact_keys_def
  by (elim bindE_InrE guardE_InrE) (auto simp: sha_digest_Inr split: if_splits elim!: bindE_InrE)

lemma run_quote_InrD:
  assumes "run_quote_verifier env tokens digest limit evidence expected pd = Inr v" "av_ok v"
    and built: "qv_built env (hd tokens) = Some b" "sha256_digest b = digest"
  shows "av_verifier v = digest \<and> quote_accepted env digest evidence expected pd v"
proof -
  obtain dir b' out raw where called: "qv_called env (hd tokens) = Some b'" "sha256_digest b' = digest" and dir: "qv_dir env = Inr dir"
    and run: "qv_run env (quote_argv tokens dir expected pd) evidence limit = Exited 0 out"
      "qv_result env (quote_argv tokens dir expected pd) evidence = Some raw" and res: "quote_result digest pd raw = Inr v"
    using assms(1) unfolding run_quote_verifier_def Let_def
    by (elim bindE_InrE guardE_InrE)
      (auto dest!: digest_file_InrD split: process_outcome.splits py_error.splits option.splits elim!: guardE_InrE)
  from quote_result_InrD [OF res assms(2)] called dir run built show ?thesis unfolding quote_accepted_def by blast
qed

lemma subprocess_verifier_InrD:
  assumes "subprocess_attestation_verifier env command expected_digest limit = Inr verifier"
    and "verifier evidence expected pd = Inr v" "av_ok v"
  shows "av_verifier v = expected_digest \<and> quote_accepted env expected_digest evidence expected pd v"
proof -
  obtain tokens where f: "verifier = run_quote_verifier env tokens expected_digest limit"
    and b: "\<exists>b. qv_built env (hd tokens) = Some b \<and> sha256_digest b = expected_digest"
    using assms(1) unfolding subprocess_attestation_verifier_def
    by (elim bindE_InrE guardE_InrE) (auto simp: sha_digest_Inr dest!: digest_file_InrD)
  then obtain b where "qv_built env (hd tokens) = Some b" "sha256_digest b = expected_digest" by blast
  from run_quote_InrD [OF assms(2) [unfolded f] assms(3) this] show ?thesis .
qed

text \<open>A receipt verified with such an adapter is attested by the pinned executable and no other.\<close>

lemma attested_by_pinned:
  assumes "verify_receipt env raw p now di = Inr r" "ve_attested r"
    and "di_verifier di = Some verifier" "subprocess_attestation_verifier os command expected_digest limit = Inr verifier"
  shows "ve_verifier r = Some expected_digest \<and> expected_digest \<in> set (rp_verifiers p) \<and>
    (\<exists>evidence expected pd v. di_evidence di = Some evidence \<and> expected_report_data (ve_document r) = Inr expected \<and>
       pd \<in> set (rp_policies p) \<and> av_measurement v = ve_measurement r \<and> quote_accepted os expected_digest evidence expected pd v)"
proof -
  have ok: "receipt_ok env raw p now di r" by (rule verify_receipt_ok [OF assms(1)])
  then obtain a w where a: "attestation_bound p (ve_document r) a di (w, ve_measurement r)" "ve_verifier r = Some w"
    using assms(2) unfolding receipt_ok_def Let_def by blast
  obtain b v expected pd where b: "di_evidence di = Some b" "expected_report_data (ve_document r) = Inr expected" "pd \<in> set (rp_policies p)"
    "verifier b expected pd = Inr v" "av_ok v" "av_verifier v \<in> set (rp_verifiers p)" "w = av_verifier v" "ve_measurement r = av_measurement v"
    using a(1) assms(3) unfolding attestation_bound_def by auto
  from subprocess_verifier_InrD [OF assms(4) b(4,5)] a(2) b show ?thesis by metis
qed

section \<open>The stored checkpoint\<close>

text \<open>The time of a checkpoint is a UTC time; \<open>format_time\<close> prints it.\<close>

definition bundle_checkpoint_bytes :: "bundle_checkpoint \<Rightarrow> bytes" where
  "bundle_checkpoint_bytes c =
     canonical_json [(''schema'', JStr ''cathedral_ml_bundle_checkpoint_v1''), (''network'', JStr (bc_network c)),
       (''netuid'', JInt (bc_netuid c)), (''source_epoch'', JInt (bc_epoch c)), (''bundle_id'', JStr (bc_bundle_id c)),
       (''generated_at'', JStr (format_time (bc_generated c)))]"

definition storable_checkpoint :: "bundle_checkpoint \<Rightarrow> bool" where
  "storable_checkpoint c = (name_ok (bc_network c) 128 \<and> natural64 (bc_netuid c) \<and> natural64 (bc_epoch c) \<and>
     sha_digest_text (bc_bundle_id c) \<and> printable_time (bc_generated c))"

lemma checkpoint_bytes_parse:
  assumes ok: "storable_checkpoint c" and len: "int (length (bundle_checkpoint_bytes c)) \<le> 16384"
  shows "parse_bundle_checkpoint (bundle_checkpoint_bytes c) = Inr c"
proof -
  let ?d = "[(''schema'', JStr ''cathedral_ml_bundle_checkpoint_v1''), (''network'', JStr (bc_network c)),
       (''netuid'', JInt (bc_netuid c)), (''source_epoch'', JInt (bc_epoch c)), (''bundle_id'', JStr (bc_bundle_id c)),
       (''generated_at'', JStr (format_time (bc_generated c)))]"
  have raw: "bundle_checkpoint_bytes c = canonical_json ?d" by (simp add: bundle_checkpoint_bytes_def)
  have strict: "strict_ok (JObj ?d)" using ok by (simp add: storable_checkpoint_def natural64_def int64_def)
  have parse: "parse_strict_json (canonical_json ?d) 16384 = Inr (canonical_dict ?d)"
    by (rule parse_canonical_dict [OF strict]) (use len in \<open>simp add: raw\<close>)
  have keys: "(\<not> keys_are (canonical_dict ?d) bundle_checkpoint_keys) = False" by (auto simp: keys_are_def bundle_checkpoint_keys_def)
  have dist: "distinct (map fst ?d)" by simp
  have gets: "jget (canonical_dict ?d) ''schema'' = JStr ''cathedral_ml_bundle_checkpoint_v1''"
    "jget (canonical_dict ?d) ''network'' = JStr (bc_network c)" "jget (canonical_dict ?d) ''netuid'' = JInt (bc_netuid c)"
    "jget (canonical_dict ?d) ''source_epoch'' = JInt (bc_epoch c)" "jget (canonical_dict ?d) ''bundle_id'' = JStr (bc_bundle_id c)"
    "jget (canonical_dict ?d) ''generated_at'' = JStr (format_time (bc_generated c))"
    unfolding jget_canonical [OF dist] by (simp_all add: jget_def)
  have canon: "(canonical_json ?d \<noteq> canonical_json (canonical_dict ?d)) = False" by (simp add: canonical_json_dict)
  have time: "parse_time (JStr (format_time (bc_generated c))) l = Inr (bc_generated c)" for l
    by (rule parse_format_time) (use ok in \<open>simp add: storable_checkpoint_def\<close>)
  have atoms: "bounded_string (JStr (bc_network c)) l 128 = Inr (bc_network c)" "nonnegative_int (JInt (bc_netuid c)) l = Inr (bc_netuid c)"
    "nonnegative_int (JInt (bc_epoch c)) l = Inr (bc_epoch c)" "sha_digest (JStr (bc_bundle_id c)) l = Inr (bc_bundle_id c)" for l
    using ok by (simp_all add: storable_checkpoint_def receipt_values name_ok_def natural64_def)
  show ?thesis
    unfolding parse_bundle_checkpoint_def raw chomp_canonical parse bindE_Inr canon guardE_simps require_exact_keys_def keys gets atoms time
    by simp
qed

end
