(* ===== verification/Policy_Base.thy ===== *)
theory Policy_Base
  imports Ml_Protocol Py_Decimal
begin

text \<open>
  \<open>cathedral_thin/verified_policy.py\<close>, the ground of the verified policy drill: its validators, the
  score arithmetic, and the sealing its three signed documents share (an id over the canonical body,
  an sr25519 signature over the body and the id). Ids and digests have the pattern of the receipts.
\<close>

section \<open>Limits and validators\<close>

definition MAX_TASK_BYTES :: int where "MAX_TASK_BYTES = 4194304"
definition MAX_ARTIFACT_BYTES :: int where "MAX_ARTIFACT_BYTES = 1048576"
definition MAX_EVALUATION_BYTES :: int where "MAX_EVALUATION_BYTES = 1048576"
definition MAX_EXAMPLES :: nat where "MAX_EXAMPLES = 4096"
definition MAX_FEATURES :: nat where "MAX_FEATURES = 64"
definition MAX_LABELS :: nat where "MAX_LABELS = 64"
definition MAX_RULES :: nat where "MAX_RULES = 1024"
definition MAX_CONDITIONS :: nat where "MAX_CONDITIONS = 64"

text \<open>\<open>[a-z0-9][a-z0-9._:-]{0,127}\<close>.\<close>

definition policy_id :: "string \<Rightarrow> bool" where
  "policy_id s = (case s of [] \<Rightarrow> False
     | c # cs \<Rightarrow> (is_lower c \<or> is_digit c) \<and> length cs \<le> 127 \<and>
         list_all (\<lambda>x. is_lower x \<or> is_digit x \<or> code x \<in> {46, 95, 58, 45}) cs)"

definition policy_identifier :: "json \<Rightarrow> string \<Rightarrow> string res" where
  "policy_identifier v label =
     (case v of JStr s \<Rightarrow> if policy_id s then Inr s else raise (''invalid '' @ label)
      | _ \<Rightarrow> raise (''invalid '' @ label))"

definition positive_int :: "json \<Rightarrow> string \<Rightarrow> int res" where
  "positive_int v label =
     guardE (\<not> nat_field v \<or> int_field v = 0) (label @ '' must be a positive integer'') (Inr (int_field v))"

definition natural_int :: "json \<Rightarrow> string \<Rightarrow> int res" where
  "natural_int v label = guardE (\<not> nat_field v) (label @ '' must be a non-negative integer'') (Inr (int_field v))"

definition scalar :: "json \<Rightarrow> string \<Rightarrow> json res" where
  "scalar v label =
     (case v of
        JBool b \<Rightarrow> Inr v
      | JInt n \<Rightarrow> guardE (\<bar>n\<bar> > 1000000000000) (label @ '' integer is out of bounds'') (Inr v)
      | JStr s \<Rightarrow> guardE (\<not> text_between v 1 256) (label @ '' must be a bounded string, boolean, or integer'') (Inr v)
      | _ \<Rightarrow> raise (label @ '' must be a bounded string, boolean, or integer''))"

definition canonical_b64 :: "json \<Rightarrow> string \<Rightarrow> nat option \<Rightarrow> bytes res" where
  "canonical_b64 v label wanted =
     (case v of
        JStr s \<Rightarrow>
          bindE (b64decode_or (label @ '' must be canonical base64'') s) (\<lambda>raw.
          guardE (b64encode raw \<noteq> s \<or> (case wanted of None \<Rightarrow> False | Some n \<Rightarrow> length raw \<noteq> n))
            (label @ '' must be canonical base64'' @
             (case wanted of None \<Rightarrow> [] | Some n \<Rightarrow> '' containing '' @ nat_str n @ '' bytes''))
            (Inr raw))
      | _ \<Rightarrow> raise (label @ '' must be canonical base64''))"

section \<open>Scores\<close>

text \<open>\<open>quantize(Decimal("0.000000000001"))\<close> rounds half-even to twelve places; the scores are at most 1.\<close>

definition score_decimal :: "rat \<Rightarrow> string res" where
  "score_decimal v = canonical_decimal (round_half_even (v * 10 ^ 12), 12)"

definition ratio :: "int \<Rightarrow> int \<Rightarrow> string res" where
  "ratio numerator denominator =
     guardE (denominator \<le> 0 \<or> numerator < 0 \<or> numerator > denominator) ''invalid score ratio''
       (score_decimal (d_div (of_int numerator) (of_int denominator)))"

text \<open>A string that is its own canonical decimal has the pattern of \<open>decimal_text\<close>; one that is not is
  refused by one of three checks, whose messages the model does not tell apart.\<close>

definition parse_floor :: "json \<Rightarrow> string \<Rightarrow> dec res" where
  "parse_floor v label =
     (let bad = raise (label @ '' must be a canonical decimal from 0 to 1'') in
      case v of
        JStr s \<Rightarrow>
          (case decimal_text s of
             None \<Rightarrow> bad
           | Some d \<Rightarrow> if canonical_decimal d = Inr s \<and> 0 \<le> dec_val d \<and> dec_val d \<le> 1 then Inr d else bad)
      | _ \<Rightarrow> bad)"

section \<open>Signatures\<close>

definition policy_signature :: "json \<Rightarrow> string \<Rightarrow> bytes res" where
  "policy_signature v label =
     (case v of
        JObj sg \<Rightarrow>
          require_exact_keys sg signature_keys (label @ '' signature'')
          (guardE (jget sg ''algorithm'' \<noteq> JStr ''sr25519'') (''unsupported '' @ label @ '' signature algorithm'')
          (canonical_b64 (jget sg ''value_base64'') (label @ '' signature'') (Some 64)))
      | _ \<Rightarrow> raise (label @ '' signature must be an object''))"

definition verify_sr25519 :: "world \<Rightarrow> string \<Rightarrow> bytes \<Rightarrow> bytes \<Rightarrow> string \<Rightarrow> unit res" where
  "verify_sr25519 env hotkey message sig label =
     (case or_sr env hotkey message sig of
        None \<Rightarrow> raise (label @ '' hotkey is invalid'')
      | Some valid \<Rightarrow> guardE (\<not> valid) (label @ '' signature verification failed'') (Inr ()))"

definition sign_sr25519 :: "keypair \<Rightarrow> bytes \<Rightarrow> string \<Rightarrow> json res" where
  "sign_sr25519 key message label =
     (case kp_sign key message of
        None \<Rightarrow> raise (''could not sign '' @ label)
      | Some sig \<Rightarrow> guardE (length sig \<noteq> 64) (label @ '' signature must be 64 bytes'') (Inr (signature_object ''sr25519'' sig)))"

section \<open>Sealed documents\<close>

text \<open>A kind of document: the name of its id field, the domains of its id and of its signature, and
  the two names its messages use.\<close>

record seal =
  sl_field :: string
  sl_id_domain :: string
  sl_domain :: string
  sl_noun :: string
  sl_label :: string

definition unsigned_part :: "string \<Rightarrow> jdict \<Rightarrow> jdict" where
  "unsigned_part id_field d = without [id_field, ''signature''] d"

definition signed_part :: "jdict \<Rightarrow> jdict" where
  "signed_part d = without [''signature''] d"

definition sealed_id :: "seal \<Rightarrow> jdict \<Rightarrow> string" where
  "sealed_id k d = prefixed_digest (sl_id_domain k) (canonical_json (unsigned_part (sl_field k) d))"

definition sealed_message :: "seal \<Rightarrow> jdict \<Rightarrow> bytes" where
  "sealed_message k d = map byte_of (sl_domain k) @ [0] @ canonical_json (signed_part d)"

definition seal_document :: "seal \<Rightarrow> keypair \<Rightarrow> jdict \<Rightarrow> bytes res" where
  "seal_document k key d =
     (let signed = dict_set (sl_field k) (JStr (sealed_id k d)) d in
      bindE (sign_sr25519 key (sealed_message k signed) (sl_noun k)) (\<lambda>sig.
        Inr (canonical_json (dict_set ''signature'' sig signed))))"

definition open_document :: "bytes \<Rightarrow> int \<Rightarrow> string \<Rightarrow> string list \<Rightarrow> jdict res" where
  "open_document raw maximum_bytes noun keys =
     bindE (parse_strict_json (chomp raw) maximum_bytes) (\<lambda>d.
     guardE (chomp raw \<noteq> canonical_json d) (noun @ '' JSON must be canonical'')
     (require_exact_keys d keys noun (Inr d)))"

definition check_seal :: "world \<Rightarrow> seal \<Rightarrow> string \<Rightarrow> jdict \<Rightarrow> string res" where
  "check_seal env k hotkey d =
     bindE (sha_digest (jget d (sl_field k)) (sl_label k @ '' id'')) (\<lambda>i.
     guardE (i \<noteq> sealed_id k d) (sl_label k @ '' id does not match its canonical body'')
     (bindE (policy_signature (jget d ''signature'') (sl_label k)) (\<lambda>sig.
      bindE (verify_sr25519 env hotkey (sealed_message k d) sig (sl_label k)) (\<lambda>_. Inr i))))"

end
