(* ===== verification/Policy_Task.thy ===== *)
theory Policy_Task
  imports Policy_Base
begin

text \<open>
  \<open>cathedral_thin/verified_policy.py\<close>, the task: labelled examples, the hidden suite and its commitment,
  and the document a validator signs (\<open>make_task\<close>, \<open>sign_task\<close>) and a miner checks (\<open>verify_task\<close>).
\<close>

section \<open>Examples\<close>

record example =
  ex_id :: string
  ex_features :: jdict
  ex_label :: string

definition example_keys :: "string list" where "example_keys = [''example_id'', ''features'', ''label'']"

definition example_row :: "string list \<Rightarrow> string list \<Rightarrow> string \<Rightarrow> json \<Rightarrow> example res" where
  "example_row feature_names labels label v =
     (case v of
        JObj row \<Rightarrow>
          require_exact_keys row example_keys (label @ '' row'')
          (bindE (policy_identifier (jget row ''example_id'') (label @ '' example id'')) (\<lambda>example_id.
           case jget row ''features'' of
             JObj features \<Rightarrow>
               guardE (sort (map fst features) \<noteq> feature_names) (label @ '' features do not match the task schema'')
               (bindE (mapE (\<lambda>k. bindE (scalar (jget features k) (label @ '' feature '' @ k)) (\<lambda>x. Inr (k, x))) feature_names)
                 (\<lambda>normalized.
                bindE (policy_identifier (jget row ''label'') (label @ '' decision label'')) (\<lambda>decision.
                guardE (decision \<notin> set labels) (label @ '' decision label is not allowed'')
                  (Inr \<lparr>ex_id = example_id, ex_features = normalized, ex_label = decision\<rparr>))))
           | _ \<Rightarrow> raise (label @ '' features do not match the task schema'')))
      | _ \<Rightarrow> raise (label @ '' row must be an object''))"

text \<open>\<open>xs == sorted(set(xs))\<close>.\<close>

definition sorted_unique :: "string list \<Rightarrow> bool" where
  "sorted_unique xs = (xs = sorted_list_of_set (set xs))"

definition validate_examples :: "json \<Rightarrow> string list \<Rightarrow> string list \<Rightarrow> string \<Rightarrow> nat \<Rightarrow> example list res" where
  "validate_examples raw feature_names labels label minimum =
     (let bad = label @ '' must contain '' @ nat_str minimum @ ''..'' @ nat_str MAX_EXAMPLES @ '' cases'' in
      case raw of
        JArr rows \<Rightarrow>
          guardE (\<not> (minimum \<le> length rows \<and> length rows \<le> MAX_EXAMPLES)) bad
          (bindE (mapE (example_row feature_names labels label) rows) (\<lambda>parsed.
           guardE (\<not> sorted_unique (map ex_id parsed)) (label @ '' example ids must be sorted and unique'') (Inr parsed)))
      | _ \<Rightarrow> raise bad)"

section \<open>The hidden suite\<close>

definition hidden_suite_keys :: "string list" where
  "hidden_suite_keys = [''schema'', ''task_nonce_digest'', ''salt_base64'', ''cases'']"

definition nonce_digest :: "bytes \<Rightarrow> string" where
  "nonce_digest nonce = prefixed_digest ''cathedral-verified-policy-hidden-nonce-v1'' nonce"

definition by_example_id :: "jdict list \<Rightarrow> jdict list" where
  "by_example_id rows = sort_key (\<lambda>row. str_field row ''example_id'') rows"

definition hidden_suite_bytes :: "jdict list \<Rightarrow> bytes \<Rightarrow> bytes \<Rightarrow> bytes res" where
  "hidden_suite_bytes cases salt task_nonce =
     guardE (length salt \<noteq> 32) ''hidden suite salt must be exactly 32 bytes''
     (guardE (length task_nonce \<noteq> 32) ''task nonce must be exactly 32 bytes''
     (Inr (canonical_json
        [(''schema'', JStr ''cathedral_verified_policy_hidden_suite_v1''), (''task_nonce_digest'', JStr (nonce_digest task_nonce)),
         (''salt_base64'', JStr (b64encode salt)), (''cases'', JArr (map JObj (by_example_id cases)))])))"

definition hidden_binding_keys :: "string list" where
  "hidden_binding_keys = [''network'', ''netuid'', ''source_epoch'', ''task_class'', ''validator_hotkey'', ''miner_hotkey'',
     ''nonce_base64'', ''issued_at'', ''valid_from_block'', ''valid_until_block'']"

definition hidden_suite_binding :: "jdict \<Rightarrow> jdict res" where
  "hidden_suite_binding d = pick hidden_binding_keys d"

definition hidden_suite_commitment :: "bytes \<Rightarrow> jdict \<Rightarrow> string res" where
  "hidden_suite_commitment raw task_binding =
     bindE (hidden_suite_binding task_binding) (\<lambda>binding.
       if int (length raw) \<ge> 2 ^ 64 then Inl PyOverflowError
       else Inr (prefixed_digest ''cathedral-verified-policy-hidden-suite-v1''
         (canonical_json binding @ be_bytes 8 (int (length raw)) @ raw)))"

section \<open>The task body\<close>

definition metric_policy_keys :: "string list" where
  "metric_policy_keys = [''compactness_max_terms'', ''quality_floor'', ''rare_floor'']"

text \<open>\<open>rare_raw != sorted(set(rare_raw)) or not set(rare_raw).issubset(labels_raw)\<close>, for a list of any
  JSON values: a list or an object in it is unhashable, and values of different types do not sort.\<close>

definition unhashable :: "json \<Rightarrow> bool" where
  "unhashable v = (case v of JArr _ \<Rightarrow> True | JObj _ \<Rightarrow> True | _ \<Rightarrow> False)"

definition sort_kind :: "json \<Rightarrow> nat" where
  "sort_kind v = (case v of JStr _ \<Rightarrow> 0 | JNull \<Rightarrow> 1 | _ \<Rightarrow> 2)"

definition rare_names :: "json \<Rightarrow> string list \<Rightarrow> string list res" where
  "rare_names v labels =
     (let bad = ''rare labels must be a non-empty sorted label subset'' in
      case v of
        JArr vs \<Rightarrow>
          guardE (vs = []) bad
          (if list_ex unhashable vs then Inl PyTypeError
           else if list_ex (\<lambda>x. sort_kind x \<noteq> sort_kind (hd vs)) vs then Inl PyTypeError
           else guardE (length (strs_of vs) \<noteq> length vs \<or> \<not> sorted_unique (strs_of vs) \<or> \<not> set (strs_of vs) \<subseteq> set labels) bad
             (Inr (strs_of vs)))
      | _ \<Rightarrow> raise bad)"

definition names_list :: "json \<Rightarrow> nat \<Rightarrow> nat \<Rightarrow> string \<Rightarrow> string list res" where
  "names_list v lo hi bad =
     (case sorted_unique_texts policy_id lo hi v of None \<Rightarrow> raise bad | Some xs \<Rightarrow> Inr xs)"

definition party_key :: "jdict \<Rightarrow> string \<Rightarrow> 'a res \<Rightarrow> 'a res" where
  "party_key d name k = guardE (\<not> nonempty_str (jget d name)) (''task '' @ name @ '' is invalid'') k"

text \<open>The identity, the parties, the nonce, the time and the blocks.\<close>

definition task_header :: "jdict \<Rightarrow> unit res" where
  "task_header d =
     guardE (jget d ''schema'' \<noteq> JStr ''cathedral_verified_policy_task_v1'') ''unsupported verified policy task schema''
     (guardE (\<not> text_between (jget d ''network'') 1 128) ''task network is invalid''
     (bindE (natural_int (jget d ''netuid'') ''task netuid'') (\<lambda>_.
      bindE (natural_int (jget d ''source_epoch'') ''task source epoch'') (\<lambda>_.
      bindE (policy_identifier (jget d ''task_class'') ''task class'') (\<lambda>_.
      party_key d ''validator_hotkey'' (party_key d ''miner_hotkey''
      (bindE (canonical_b64 (jget d ''nonce_base64'') ''task nonce'' (Some 32)) (\<lambda>_.
       bindE (parse_time (jget d ''issued_at'') ''task issued_at'') (\<lambda>_.
       bindE (natural_int (jget d ''valid_from_block'') ''valid_from_block'') (\<lambda>first.
       bindE (natural_int (jget d ''valid_until_block'') ''valid_until_block'') (\<lambda>final.
       guardE (final \<le> first) ''task block window is empty'' (Inr ()))))))))))))"

definition metric_policy :: "json \<Rightarrow> unit res" where
  "metric_policy v =
     (case v of
        JObj m \<Rightarrow>
          require_exact_keys m metric_policy_keys ''metric policy''
          (bindE (positive_int (jget m ''compactness_max_terms'') ''compactness_max_terms'') (\<lambda>_.
           bindE (parse_floor (jget m ''quality_floor'') ''quality_floor'') (\<lambda>_.
           bindE (parse_floor (jget m ''rare_floor'') ''rare_floor'') (\<lambda>_. Inr ()))))
      | _ \<Rightarrow> raise ''metric policy must be an object'')"

definition task_names :: "jdict \<Rightarrow> (string list \<times> string list \<times> string list) res" where
  "task_names d =
     bindE (names_list (jget d ''feature_names'') 1 MAX_FEATURES ''feature names must be sorted, unique identifiers'') (\<lambda>features.
     bindE (names_list (jget d ''labels'') 2 MAX_LABELS ''labels must be sorted, unique identifiers'') (\<lambda>labels.
     bindE (rare_names (jget d ''rare_labels'') labels) (\<lambda>rare. Inr (features, labels, rare))))"

definition validate_task_body :: "jdict \<Rightarrow> unit res" where
  "validate_task_body d =
     bindE (task_header d) (\<lambda>_.
     bindE (task_names d) (\<lambda>(features, labels, rare).
     bindE (validate_examples (jget d ''public_examples'') features labels ''public examples'' 2) (\<lambda>_.
     bindE (sha_digest (jget d ''hidden_suite_commitment'') ''hidden suite commitment'') (\<lambda>_.
       metric_policy (jget d ''metric_policy'')))))"

section \<open>Making and signing a task\<close>

record task_terms =
  tt_network :: string
  tt_netuid :: int
  tt_epoch :: int
  tt_class :: string
  tt_validator :: string
  tt_miner :: string
  tt_nonce :: bytes
  tt_issued :: string
  tt_first :: int
  tt_last :: int
  tt_features :: "string list"
  tt_labels :: "string list"
  tt_rare :: "string list"
  tt_examples :: "jdict list"
  tt_hidden :: bytes
  tt_max_terms :: int
  tt_quality :: string
  tt_rare_floor :: string

definition strings :: "string list \<Rightarrow> json" where
  "strings xs = JArr (map JStr xs)"

definition task_document :: "task_terms \<Rightarrow> jdict" where
  "task_document m =
     [(''schema'', JStr ''cathedral_verified_policy_task_v1''), (''network'', JStr (tt_network m)), (''netuid'', JInt (tt_netuid m)),
      (''source_epoch'', JInt (tt_epoch m)), (''task_class'', JStr (tt_class m)), (''validator_hotkey'', JStr (tt_validator m)),
      (''miner_hotkey'', JStr (tt_miner m)), (''nonce_base64'', JStr (b64encode (tt_nonce m))), (''issued_at'', JStr (tt_issued m)),
      (''valid_from_block'', JInt (tt_first m)), (''valid_until_block'', JInt (tt_last m)),
      (''feature_names'', strings (sort (tt_features m))), (''labels'', strings (sort (tt_labels m))),
      (''rare_labels'', strings (sort (tt_rare m))),
      (''public_examples'', JArr (map JObj (by_example_id (tt_examples m)))),
      (''metric_policy'', JObj [(''compactness_max_terms'', JInt (tt_max_terms m)), (''quality_floor'', JStr (tt_quality m)),
         (''rare_floor'', JStr (tt_rare_floor m))])]"

text \<open>The suite the task commits to: canonical, of the hidden schema, bound to the task's nonce.\<close>

definition check_hidden_suite :: "bytes \<Rightarrow> bytes \<Rightarrow> unit res" where
  "check_hidden_suite hidden_suite nonce =
     bindE (parse_strict_json hidden_suite MAX_TASK_BYTES) (\<lambda>h.
     guardE (hidden_suite \<noteq> canonical_json h) ''hidden suite JSON must be canonical''
     (require_exact_keys h hidden_suite_keys ''hidden suite''
     (guardE (jget h ''schema'' \<noteq> JStr ''cathedral_verified_policy_hidden_suite_v1'') ''unsupported hidden suite schema''
     (guardE (jget h ''task_nonce_digest'' \<noteq> JStr (nonce_digest nonce)) ''hidden suite is bound to a different task nonce''
       (Inr ())))))"

definition make_task :: "task_terms \<Rightarrow> jdict res" where
  "make_task m =
     guardE (length (tt_nonce m) \<noteq> 32) ''task nonce must be exactly 32 bytes''
     (bindE (check_hidden_suite (tt_hidden m) (tt_nonce m)) (\<lambda>_.
      bindE (hidden_suite_commitment (tt_hidden m) (task_document m)) (\<lambda>c.
      let d = dict_set ''hidden_suite_commitment'' (JStr c) (task_document m) in
      bindE (validate_task_body d) (\<lambda>_. Inr d))))"

definition task_seal :: seal where
  "task_seal = \<lparr>sl_field = ''task_id'', sl_id_domain = ''cathedral-verified-policy-task-id-v1'',
     sl_domain = ''cathedral-verified-policy-task-v1'', sl_noun = ''verified policy task'', sl_label = ''task''\<rparr>"

definition sign_task :: "jdict \<Rightarrow> keypair \<Rightarrow> bytes res" where
  "sign_task d key =
     guardE (''task_id'' \<in> fst ` set d \<or> ''signature'' \<in> fst ` set d) ''unsigned task must omit task_id and signature''
     (bindE (validate_task_body d) (\<lambda>_.
      guardE (JStr (kp_address key) \<noteq> jget d ''validator_hotkey'') ''task signer does not match validator_hotkey''
        (seal_document task_seal key d)))"

section \<open>Verifying a task\<close>

record policy_task =
  pt_id :: string
  pt_network :: string
  pt_netuid :: int
  pt_epoch :: int
  pt_validator :: string
  pt_miner :: string
  pt_issued :: int
  pt_first :: int
  pt_last :: int
  pt_features :: "string list"
  pt_labels :: "string list"
  pt_rare :: "string list"
  pt_examples :: "example list"
  pt_commitment :: string
  pt_quality :: dec
  pt_rare_floor :: dec
  pt_max_terms :: int
  pt_document :: jdict

text \<open>What the verifier expects: None and the empty string expect nothing.\<close>

record task_context =
  tc_network :: string
  tc_netuid :: int
  tc_block :: int
  tc_validator :: "string option"
  tc_miner :: "string option"
  tc_max_age :: int
  tc_max_future :: int
  tc_max_span :: int

definition task_keys :: "string list" where
  "task_keys = [''schema'', ''network'', ''netuid'', ''source_epoch'', ''task_class'', ''validator_hotkey'', ''miner_hotkey'',
     ''nonce_base64'', ''issued_at'', ''valid_from_block'', ''valid_until_block'', ''feature_names'', ''labels'', ''rare_labels'',
     ''public_examples'', ''hidden_suite_commitment'', ''metric_policy'', ''task_id'', ''signature'']"

definition unexpected :: "string option \<Rightarrow> json \<Rightarrow> bool" where
  "unexpected e v = (case e of None \<Rightarrow> False | Some s \<Rightarrow> s \<noteq> [] \<and> v \<noteq> JStr s)"

definition task_admitted :: "task_context \<Rightarrow> jdict \<Rightarrow> int option \<Rightarrow> int res" where
  "task_admitted c d now =
     guardE (jget d ''network'' \<noteq> JStr (tc_network c) \<or> jget d ''netuid'' \<noteq> JInt (tc_netuid c))
       ''verified policy task network or netuid mismatch''
     (guardE (unexpected (tc_validator c) (jget d ''validator_hotkey'')) ''verified policy task validator mismatch''
     (guardE (unexpected (tc_miner c) (jget d ''miner_hotkey'')) ''verified policy task miner mismatch''
     (bindE (natural_int (JInt (tc_block c)) ''current block'') (\<lambda>block.
      let first = int_field (jget d ''valid_from_block''); final = int_field (jget d ''valid_until_block'') in
      guardE (first > block \<or> block \<ge> final) ''verified policy task is outside its block window''
      (guardE (final - first > tc_max_span c) ''verified policy task block window is too wide''
      (case now of
         None \<Rightarrow> raise ''task verification time must be UTC''
       | Some t \<Rightarrow>
           bindE (parse_time (jget d ''issued_at'') ''task issued_at'') (\<lambda>issued.
           guardE (elapsed_seconds t issued < of_int (- tc_max_future c) \<or> elapsed_seconds t issued > of_int (tc_max_age c))
             ''verified policy task is stale or future-dated'' (Inr issued))))))))"

definition str_value :: "json \<Rightarrow> string" where
  "str_value v = (case v of JStr s \<Rightarrow> s | _ \<Rightarrow> [])"

definition sub_object :: "jdict \<Rightarrow> string \<Rightarrow> jdict" where
  "sub_object d k = (case jget d k of JObj m \<Rightarrow> m | _ \<Rightarrow> [])"

definition task_value :: "jdict \<Rightarrow> string \<Rightarrow> int \<Rightarrow> policy_task res" where
  "task_value d task_id issued =
     bindE (task_names d) (\<lambda>(features, labels, rare).
     bindE (validate_examples (jget d ''public_examples'') features labels ''public examples'' 2) (\<lambda>examples.
     let m = sub_object d ''metric_policy'' in
     bindE (parse_floor (jget m ''quality_floor'') ''quality_floor'') (\<lambda>quality.
     bindE (parse_floor (jget m ''rare_floor'') ''rare_floor'') (\<lambda>floor.
       Inr \<lparr>pt_id = task_id, pt_network = str_value (jget d ''network''), pt_netuid = int_field (jget d ''netuid''),
         pt_epoch = int_field (jget d ''source_epoch''), pt_validator = str_value (jget d ''validator_hotkey''),
         pt_miner = str_value (jget d ''miner_hotkey''), pt_issued = issued, pt_first = int_field (jget d ''valid_from_block''),
         pt_last = int_field (jget d ''valid_until_block''), pt_features = features, pt_labels = labels, pt_rare = rare,
         pt_examples = examples, pt_commitment = str_value (jget d ''hidden_suite_commitment''), pt_quality = quality,
         pt_rare_floor = floor, pt_max_terms = int_field (jget m ''compactness_max_terms''), pt_document = d\<rparr>))))"

definition verify_task :: "world \<Rightarrow> bytes \<Rightarrow> task_context \<Rightarrow> int option \<Rightarrow> policy_task res" where
  "verify_task env raw c now =
     bindE (open_document raw MAX_TASK_BYTES ''verified policy task'' task_keys) (\<lambda>d.
     bindE (validate_task_body d) (\<lambda>_.
     bindE (task_admitted c d now) (\<lambda>issued.
     bindE (check_seal env task_seal (str_value (jget d ''validator_hotkey'')) d) (\<lambda>task_id.
       task_value d task_id issued))))"

end
