(* ===== verification/Policy_Artifact.thy ===== *)
theory Policy_Artifact
  imports Policy_Task Score_Time
begin

text \<open>
  \<open>cathedral_thin/verified_policy.py\<close>, the artifact: the decision list a miner signs for a task, its
  checks (\<open>verify_artifact\<close>), its predictions (\<open>predict\<close>) and the reference miner (\<open>induce_policy\<close>).
\<close>

section \<open>Rules\<close>

record rule =
  ru_id :: string
  ru_when :: "(string \<times> json) list"
  ru_then :: string
  ru_support :: "string list"

text \<open>Scalars of one type compare by value, scalars of different types never match.\<close>

definition condition_matches :: "string \<times> json \<Rightarrow> jdict \<Rightarrow> bool" where
  "condition_matches c features = (jget features (fst c) = snd c)"

definition conditions_match :: "(string \<times> json) list \<Rightarrow> jdict \<Rightarrow> bool" where
  "conditions_match cs features = list_all (\<lambda>c. condition_matches c features) cs"

definition rule_matches :: "rule \<Rightarrow> jdict \<Rightarrow> bool" where
  "rule_matches r features = conditions_match (ru_when r) features"

definition rule_keys :: "string list" where "rule_keys = [''rule_id'', ''when'', ''then'', ''support_example_ids'']"
definition condition_keys :: "string list" where "condition_keys = [''feature'', ''equals'']"

definition rule_condition :: "policy_task \<Rightarrow> json \<Rightarrow> (string \<times> json) res" where
  "rule_condition t v =
     (case v of
        JObj c \<Rightarrow>
          require_exact_keys c condition_keys ''policy condition''
          (bindE (policy_identifier (jget c ''feature'') ''condition feature'') (\<lambda>feature.
           guardE (feature \<notin> set (pt_features t)) ''policy condition uses an unknown feature''
           (bindE (scalar (jget c ''equals'') ''condition value'') (\<lambda>x. Inr (feature, x)))))
      | _ \<Rightarrow> raise ''policy condition must be an object'')"

definition rule_conditions :: "policy_task \<Rightarrow> json \<Rightarrow> (string \<times> json) list res" where
  "rule_conditions t v =
     (case v of
        JArr cs \<Rightarrow>
          guardE (\<not> (1 \<le> length cs \<and> length cs \<le> MAX_CONDITIONS)) ''policy rule must contain bounded conditions''
          (bindE (mapE (rule_condition t) cs) (\<lambda>conditions.
           guardE (\<not> sorted_unique (map fst conditions)) ''policy conditions must be sorted and unique'' (Inr conditions)))
      | _ \<Rightarrow> raise ''policy rule must contain bounded conditions'')"

definition rule_row :: "policy_task \<Rightarrow> rule list \<Rightarrow> json \<Rightarrow> rule list res" where
  "rule_row t seen v =
     (case v of
        JObj row \<Rightarrow>
          require_exact_keys row rule_keys ''policy rule''
          (bindE (policy_identifier (jget row ''rule_id'') ''rule id'') (\<lambda>rule_id.
           guardE (rule_id \<in> ru_id ` set seen) ''policy rule ids must be unique''
           (bindE (rule_conditions t (jget row ''when'')) (\<lambda>conditions.
            bindE (policy_identifier (jget row ''then'') ''policy decision'') (\<lambda>decision.
            guardE (decision \<notin> set (pt_labels t)) ''policy rule decision is not allowed''
            (case sorted_unique_texts policy_id 0 MAX_EXAMPLES (jget row ''support_example_ids'') of
               None \<Rightarrow> raise ''rule support ids must be sorted and unique''
             | Some support \<Rightarrow>
                 Inr (seen @ [\<lparr>ru_id = rule_id, ru_when = conditions, ru_then = decision, ru_support = support\<rparr>])))))))
      | _ \<Rightarrow> raise ''policy rule must be an object'')"

definition normalize_rules :: "json \<Rightarrow> policy_task \<Rightarrow> rule list res" where
  "normalize_rules raw t =
     (case raw of
        JArr rows \<Rightarrow> guardE (length rows > MAX_RULES) ''policy rules must be a bounded list'' (foldE (rule_row t) [] rows)
      | _ \<Rightarrow> raise ''policy rules must be a bounded list'')"

section \<open>The artifact\<close>

definition validate_artifact_body :: "jdict \<Rightarrow> policy_task \<Rightarrow> unit res" where
  "validate_artifact_body d t =
     guardE (jget d ''schema'' \<noteq> JStr ''cathedral_verified_policy_artifact_v1'') ''unsupported verified policy artifact schema''
     (guardE (jget d ''task_id'' \<noteq> JStr (pt_id t)) ''policy artifact task mismatch''
     (guardE (jget d ''miner_hotkey'' \<noteq> JStr (pt_miner t)) ''policy artifact miner mismatch''
     (bindE (parse_time (jget d ''created_at'') ''artifact created_at'') (\<lambda>created.
      guardE (created < pt_issued t) ''policy artifact predates its task''
      (bindE (policy_identifier (jget d ''default_label'') ''default label'') (\<lambda>fallback.
       guardE (fallback \<notin> set (pt_labels t)) ''policy artifact default label is not allowed''
       (bindE (normalize_rules (jget d ''rules'') t) (\<lambda>_. Inr ()))))))))"

definition artifact_document :: "policy_task \<Rightarrow> jdict list \<Rightarrow> string \<Rightarrow> string \<Rightarrow> jdict" where
  "artifact_document t rules default_label created_at =
     [(''schema'', JStr ''cathedral_verified_policy_artifact_v1''), (''task_id'', JStr (pt_id t)),
      (''miner_hotkey'', JStr (pt_miner t)), (''created_at'', JStr created_at), (''rules'', JArr (map JObj rules)),
      (''default_label'', JStr default_label)]"

definition make_artifact :: "policy_task \<Rightarrow> jdict list \<Rightarrow> string \<Rightarrow> string \<Rightarrow> jdict res" where
  "make_artifact t rules default_label created_at =
     (let d = artifact_document t rules default_label created_at in
      bindE (validate_artifact_body d t) (\<lambda>_. Inr d))"

definition artifact_seal :: seal where
  "artifact_seal = \<lparr>sl_field = ''artifact_id'', sl_id_domain = ''cathedral-verified-policy-artifact-id-v1'',
     sl_domain = ''cathedral-verified-policy-artifact-v1'', sl_noun = ''verified policy artifact'', sl_label = ''artifact''\<rparr>"

definition sign_artifact :: "jdict \<Rightarrow> keypair \<Rightarrow> policy_task \<Rightarrow> bytes res" where
  "sign_artifact d key t =
     guardE (''artifact_id'' \<in> fst ` set d \<or> ''signature'' \<in> fst ` set d) ''unsigned artifact must omit artifact_id and signature''
     (bindE (validate_artifact_body d t) (\<lambda>_.
      guardE (kp_address key \<noteq> pt_miner t) ''artifact signer does not match miner_hotkey''
        (seal_document artifact_seal key d)))"

record policy_artifact =
  pa_id :: string
  pa_task :: string
  pa_miner :: string
  pa_created :: int
  pa_rules :: "rule list"
  pa_default :: string
  pa_document :: jdict

definition artifact_keys :: "string list" where
  "artifact_keys = [''schema'', ''task_id'', ''miner_hotkey'', ''created_at'', ''rules'', ''default_label'', ''artifact_id'',
     ''signature'']"

definition verify_artifact :: "world \<Rightarrow> bytes \<Rightarrow> policy_task \<Rightarrow> policy_artifact res" where
  "verify_artifact env raw t =
     bindE (open_document raw MAX_ARTIFACT_BYTES ''verified policy artifact'' artifact_keys) (\<lambda>d.
     bindE (validate_artifact_body d t) (\<lambda>_.
     bindE (check_seal env artifact_seal (pt_miner t) d) (\<lambda>artifact_id.
     bindE (parse_time (jget d ''created_at'') ''artifact created_at'') (\<lambda>created.
     bindE (normalize_rules (jget d ''rules'') t) (\<lambda>rules.
       Inr \<lparr>pa_id = artifact_id, pa_task = pt_id t, pa_miner = pt_miner t, pa_created = created, pa_rules = rules,
         pa_default = str_value (jget d ''default_label''), pa_document = d\<rparr>)))))"

section \<open>Prediction\<close>

fun first_match :: "rule list \<Rightarrow> string \<Rightarrow> jdict \<Rightarrow> string" where
  "first_match [] fallback features = fallback"
| "first_match (r # rs) fallback features = (if rule_matches r features then ru_then r else first_match rs fallback features)"

definition predict :: "policy_artifact \<Rightarrow> jdict \<Rightarrow> string" where
  "predict a features = first_match (pa_rules a) (pa_default a) features"

section \<open>The reference miner\<close>

text \<open>A candidate rule: its conditions, its label and the examples that support it.\<close>

record candidate =
  ca_when :: "(string \<times> json) list"
  ca_then :: string
  ca_support :: "string list"

definition matched_examples :: "example list \<Rightarrow> (string \<times> json) list \<Rightarrow> example list" where
  "matched_examples examples cs = filter (\<lambda>e. conditions_match cs (ex_features e)) examples"

text \<open>One step of the greedy generalisation: drop the feature when the rest is still pure.\<close>

definition drop_feature :: "example list \<Rightarrow> string \<Rightarrow> (string \<times> json) list \<Rightarrow> string \<Rightarrow> (string \<times> json) list" where
  "drop_feature examples label conditions feature =
     (let trial = filter (\<lambda>c. fst c \<noteq> feature) conditions; matched = matched_examples examples trial in
      if trial \<noteq> [] \<and> matched \<noteq> [] \<and> ex_label ` set matched = {label} then trial else conditions)"

definition generalize :: "policy_task \<Rightarrow> example \<Rightarrow> (string \<times> json) list" where
  "generalize t e =
     foldl (drop_feature (pt_examples t) (ex_label e))
       (map (\<lambda>f. (f, jget (ex_features e) f)) (pt_features t)) (pt_features t)"

definition candidate_of :: "policy_task \<Rightarrow> example \<Rightarrow> candidate" where
  "candidate_of t e =
     (let conditions = generalize t e in
      \<lparr>ca_when = conditions, ca_then = ex_label e,
       ca_support = sort (map ex_id (filter (\<lambda>x. ex_label x = ex_label e) (matched_examples (pt_examples t) conditions)))\<rparr>)"

definition when_json :: "(string \<times> json) list \<Rightarrow> json" where
  "when_json cs = JArr (map (\<lambda>(f, v). JObj [(''feature'', JStr f), (''equals'', v)]) cs)"

definition candidate_key :: "candidate \<Rightarrow> bytes" where
  "candidate_key c = canonical_json [(''when'', when_json (ca_when c)), (''then'', JStr (ca_then c))]"

definition candidate_row :: "candidate \<Rightarrow> jdict" where
  "candidate_row c = [(''when'', when_json (ca_when c)), (''then'', JStr (ca_then c)), (''support_example_ids'', strings (ca_support c))]"

definition candidates :: "policy_task \<Rightarrow> (bytes \<times> candidate) list" where
  "candidates t = foldl (\<lambda>d e. let c = candidate_of t e in dict_set (candidate_key c) c d) [] (pt_examples t)"

text \<open>The order of the rules: rare labels first, then the shorter ones, then by their bytes.\<close>

definition candidate_rank :: "policy_task \<Rightarrow> candidate \<Rightarrow> nat \<times> nat \<times> bytes" where
  "candidate_rank t c =
     (if ca_then c \<in> set (pt_rare t) then 0 else 1, length (ca_when c), canonical_json (candidate_row c))"

definition rule_name :: "nat \<Rightarrow> string" where
  "rule_name n = ''rule-'' @ padded 4 n"

definition induced_rules :: "policy_task \<Rightarrow> jdict list" where
  "induced_rules t =
     map (\<lambda>(n, c). (''rule_id'', JStr (rule_name n)) # candidate_row c)
       (enumerate 1 (sort_key (candidate_rank t) (map snd (candidates t))))"

text \<open>\<open>min(labels, key=lambda item: (-counts[item], item))\<close>.\<close>

definition label_count :: "example list \<Rightarrow> string \<Rightarrow> int" where
  "label_count examples l = int (length (filter (\<lambda>e. ex_label e = l) examples))"

definition majority_label :: "policy_task \<Rightarrow> string" where
  "majority_label t = hd (sort_key (\<lambda>l. (- label_count (pt_examples t) l, l)) (pt_labels t))"

definition induce_policy :: "policy_task \<Rightarrow> string \<Rightarrow> jdict res" where
  "induce_policy t created_at = make_artifact t (induced_rules t) (majority_label t) created_at"

end
