(* ===== verification/Policy_Seal.thy ===== *)
theory Policy_Seal
  imports Policy_Base Ml_Chain
begin

text \<open>
  The sealing of the policy drill (\<open>cathedral_thin/verified_policy.py\<close>): a sealed document opens again
  with its id, an accepted one is signed, and an id binds the body it was made from. The checks read a
  document the same way whatever the order of its keys.
\<close>

section \<open>Values in canonical order\<close>

lemma jsort_checks [simp]:
  "policy_identifier (jsort v) l = policy_identifier v l" "positive_int (jsort v) l = positive_int v l"
  "natural_int (jsort v) l = natural_int v l" "canonical_b64 (jsort v) l w = canonical_b64 v l w"
  "parse_floor (jsort v) l = parse_floor v l" "sha_digest (jsort v) l = sha_digest v l" "nonempty_str (jsort v) = nonempty_str v"
  by (cases v; simp add: policy_identifier_def positive_int_def natural_int_def canonical_b64_def parse_floor_def
    sha_digest_def nonempty_str_def Let_def nat_field_def int_field_def)+

lemma scalar_jsort [simp]: "scalar (jsort v) = scalar v"
  by (rule ext, cases v) (simp_all add: scalar_def)

lemma strs_of_jsort [simp]: "strs_of (map jsort vs) = strs_of vs"
proof (induction vs)
  case (Cons v vs)
  then show ?case by (cases v) (simp_all add: strs_of_def)
qed (simp add: strs_of_def)

lemma sorted_unique_texts_jsort [simp]: "sorted_unique_texts p lo hi (jsort v) = sorted_unique_texts p lo hi v"
  by (cases v) (simp_all add: sorted_unique_texts_def Let_def)

lemma keys_are_canonical [simp]: "keys_are (canonical_dict d) ks = keys_are d ks"
  by (simp add: keys_are_def)

lemma require_canonical: "require_exact_keys (canonical_dict d) ks l k = require_exact_keys d ks l k"
  by (simp add: require_exact_keys_def)

lemma strict_distinct: "strict_ok (JObj d) \<Longrightarrow> distinct (map fst d)"
  by simp

lemma jget_strict: "strict_ok (JObj d) \<Longrightarrow> jget (canonical_dict d) k = jsort (jget d k)"
  by (simp add: jget_canonical)

lemma policy_identifier_Inr: "policy_identifier v l = Inr s \<longleftrightarrow> v = JStr s \<and> policy_id s"
  by (auto simp: policy_identifier_def split: json.splits if_splits)

lemma natural_int_Inr: "natural_int v l = Inr n \<longleftrightarrow> v = JInt n \<and> 0 \<le> n"
  by (cases v) (auto simp: natural_int_def nat_field_def int_field_def res_iff)

lemma positive_int_Inr: "positive_int v l = Inr n \<longleftrightarrow> v = JInt n \<and> 0 < n"
  by (cases v) (auto simp: positive_int_def nat_field_def int_field_def res_iff)

definition scalar_value :: "json \<Rightarrow> bool" where
  "scalar_value v = (case v of JBool b \<Rightarrow> True | JInt n \<Rightarrow> \<bar>n\<bar> \<le> 1000000000000 | JStr s \<Rightarrow> text_between v 1 256 | _ \<Rightarrow> False)"

lemma scalar_Inr: "scalar v l = Inr x \<longleftrightarrow> x = v \<and> scalar_value v"
  by (cases v) (auto simp: scalar_def scalar_value_def res_iff)

lemma scalar_value_plain: "scalar_value v \<Longrightarrow> jsort v = v \<and> strict_ok v"
  by (cases v) (auto simp: scalar_value_def int64_def)

lemma canonical_b64_Inr: "canonical_b64 v l (Some n) = Inr b \<longleftrightarrow> v = JStr (b64encode b) \<and> length b = n"
proof
  assume "canonical_b64 v l (Some n) = Inr b"
  then show "v = JStr (b64encode b) \<and> length b = n"
    by (cases v) (auto simp: canonical_b64_def elim!: bindE_InrE guardE_InrE)
next
  assume "v = JStr (b64encode b) \<and> length b = n"
  then show "canonical_b64 v l (Some n) = Inr b" by (simp add: canonical_b64_def b64decode_or_def b64decode_encode)
qed

lemma parse_floor_Inr: "parse_floor v l = Inr d \<Longrightarrow>
    \<exists>s. v = JStr s \<and> decimal_text s = Some d \<and> canonical_decimal d = Inr s \<and> 0 \<le> dec_val d \<and> dec_val d \<le> 1"
  by (cases v) (auto simp: parse_floor_def Let_def split: option.splits if_splits)

lemmas policy_values = policy_identifier_Inr natural_int_Inr positive_int_Inr canonical_b64_Inr sha_digest_Inr

section \<open>Opening a sealed document\<close>

definition plain_field :: "seal \<Rightarrow> string \<Rightarrow> bool" where
  "plain_field k f = (f \<noteq> sl_field k \<and> f \<noteq> ''signature'')"

lemma policy_signature_object: "length sig = 64 \<Longrightarrow> policy_signature (jsort (signature_object ''sr25519'' sig)) l = Inr sig"
proof -
  assume len: "length sig = 64"
  have s: "jsort (signature_object ''sr25519'' sig) = signature_object ''sr25519'' sig"
    by (simp add: signature_object_def sort_items_def)
  have k: "keys_are [(''algorithm'', JStr ''sr25519''), (''value_base64'', JStr (b64encode sig))] signature_keys"
    by (auto simp: keys_are_def signature_keys_def)
  have "canonical_b64 (JStr (b64encode sig)) m (Some 64) = Inr sig" for m using len by (simp add: canonical_b64_Inr)
  then show ?thesis unfolding s by (simp add: policy_signature_def signature_object_def require_exact_keys_def k jget_def)
qed

lemma policy_signature_InrD: "policy_signature v l = Inr sig \<Longrightarrow> length sig = 64"
  by (cases v) (auto simp: policy_signature_def require_exact_keys_def canonical_b64_Inr elim!: guardE_InrE)

lemma sealed_canonical:
  "sealed_id k (canonical_dict d) = sealed_id k d" "sealed_message k (canonical_dict d) = sealed_message k d"
  by (simp_all add: sealed_id_def sealed_message_def unsigned_part_def signed_part_def canonical_json_dict flip: canonical_without)

lemma sealed_set:
  "sealed_id k (dict_set ''signature'' v d) = sealed_id k d" "sealed_id k (dict_set (sl_field k) v d) = sealed_id k d"
  "sealed_message k (dict_set ''signature'' v d) = sealed_message k d"
  by (simp_all add: sealed_id_def sealed_message_def unsigned_part_def signed_part_def without_dict_set)

text \<open>What the reader of a sealed document has: the body in canonical order, with its id.\<close>

definition opened :: "world \<Rightarrow> seal \<Rightarrow> string \<Rightarrow> jdict \<Rightarrow> jdict \<Rightarrow> bool" where
  "opened env k hotkey d c =
     (strict_ok (JObj c) \<and> check_seal env k hotkey c = Inr (sealed_id k d) \<and>
      (\<forall>f. plain_field k f \<longrightarrow> jget c f = jsort (jget d f)) \<and> unsigned_part (sl_field k) c = canonical_dict d)"

lemma seal_opens:
  assumes strict: "strict_ok (JObj d)" and raw: "seal_document k key d = Inr raw" "int (length raw) \<le> mx"
    and field: "sl_field k \<noteq> ''signature''" and new: "sl_field k \<notin> fst ` set d" "''signature'' \<notin> fst ` set d"
    and keys: "set ks = {sl_field k, ''signature''} \<union> fst ` set d"
    and law: "\<And>m sig. kp_sign key m = Some sig \<Longrightarrow> or_sr env hotkey m sig = Some True"
  shows "\<exists>c. open_document raw mx noun ks = Inr c \<and> opened env k hotkey d c"
proof -
  let ?s = "dict_set (sl_field k) (JStr (sealed_id k d)) d"
  obtain sig where sig: "kp_sign key (sealed_message k ?s) = Some sig" "length sig = 64"
    and raw': "raw = canonical_json (dict_set ''signature'' (signature_object ''sr25519'' sig) ?s)"
    using raw(1) unfolding seal_document_def Let_def sign_sr25519_def
    by (auto split: option.splits elim!: bindE_InrE guardE_InrE)
  let ?d = "dict_set ''signature'' (signature_object ''sr25519'' sig) ?s"
  let ?c = "canonical_dict ?d"
  have strict': "strict_ok (JObj ?d)"
    by (intro strict_dict_set strict) (simp_all add: signature_object_def)
  have dist: "distinct (map fst ?d)" using strict_distinct [OF strict'] .
  have parse: "parse_strict_json (chomp raw) mx = Inr ?c"
    unfolding raw' chomp_canonical by (rule parse_canonical_dict [OF strict' raw(2) [unfolded raw']])
  have canon: "(chomp raw \<noteq> canonical_json ?c) = False" by (simp add: raw' chomp_canonical canonical_json_dict)
  have ka: "(\<not> keys_are ?c ks) = False" using keys by (auto simp: keys_are_def)
  have open_c: "open_document raw mx noun ks = Inr ?c"
    unfolding open_document_def parse bindE_Inr canon guardE_simps require_exact_keys_def ka by (rule refl)
  have getc: "jget ?c f = jsort (jget ?d f)" for f by (rule jget_canonical [OF dist])
  have id: "sealed_id k ?c = sealed_id k d" and msg: "sealed_message k ?c = sealed_message k ?s"
    by (simp_all only: sealed_canonical sealed_set)
  have "jget ?c (sl_field k) = JStr (sealed_id k d)" "jget ?c ''signature'' = jsort (signature_object ''sr25519'' sig)"
    using field by (simp_all add: getc jget_dict_set)
  moreover have "sha_digest_text (sealed_id k d)" unfolding sealed_id_def by (rule sha_digest_text_sha)
  ultimately have "check_seal env k hotkey ?c = Inr (sealed_id k d)"
    using law [OF sig(1)] sig(2)
    by (simp add: check_seal_def sha_digest_def id msg policy_signature_object verify_sr25519_def)
  moreover have "jget ?c f = jsort (jget d f)" if "plain_field k f" for f
    using that by (simp add: getc jget_dict_set plain_field_def)
  moreover have "unsigned_part (sl_field k) ?c = canonical_dict d"
  proof -
    have "without [sl_field k, ''signature''] ?d = d"
      using new by (simp add: without_dict_set) (rule without_other, auto)
    then show ?thesis by (simp add: unsigned_part_def flip: canonical_without)
  qed
  moreover have "strict_ok (JObj ?c)" using parse_strict_sound [OF parse] .
  ultimately show ?thesis using open_c unfolding opened_def by blast
qed

section \<open>What a seal guarantees\<close>

definition sealed :: "world \<Rightarrow> seal \<Rightarrow> string \<Rightarrow> jdict \<Rightarrow> bool" where
  "sealed env k hotkey d =
     (strict_ok (JObj d) \<and> canonical_dict d = d \<and> jget d (sl_field k) = JStr (sealed_id k d) \<and>
      (\<exists>sig. length sig = 64 \<and> or_sr env hotkey (sealed_message k d) sig = Some True))"

lemma open_document_InrD:
  "open_document raw mx noun ks = Inr d \<Longrightarrow> strict_ok (JObj d) \<and> canonical_dict d = d \<and> chomp raw = canonical_json d \<and> keys_are d ks"
  unfolding open_document_def require_exact_keys_def
  by (elim bindE_InrE guardE_InrE) (auto dest: parse_strict_sound canonical_fixed simp del: strict_ok.simps)

lemma check_seal_InrD:
  assumes "check_seal env k hotkey d = Inr i"
  shows "i = sealed_id k d \<and> jget d (sl_field k) = JStr i \<and>
    (\<exists>sig. length sig = 64 \<and> or_sr env hotkey (sealed_message k d) sig = Some True)"
  using assms unfolding check_seal_def verify_sr25519_def
  by (auto simp: sha_digest_Inr split: option.splits elim!: bindE_InrE guardE_InrE dest: policy_signature_InrD)

lemma opened_sealed:
  assumes "open_document raw mx noun ks = Inr d" "check_seal env k hotkey d = Inr i"
  shows "sealed env k hotkey d \<and> i = sealed_id k d"
  using open_document_InrD [OF assms(1)] check_seal_InrD [OF assms(2)] unfolding sealed_def by blast

text \<open>Two documents with one id have one body, up to a hash collision.\<close>

lemma sealed_id_binds:
  assumes "sealed_id k d = sealed_id k e" "strict_ok (JObj d)" "strict_ok (JObj e)" "canonical_dict d = d" "canonical_dict e = e"
  shows "unsigned_part (sl_field k) d = unsigned_part (sl_field k) e \<or>
    sha_collision (map byte_of (sl_id_domain k) @ [0] @ canonical_json (unsigned_part (sl_field k) d))
      (map byte_of (sl_id_domain k) @ [0] @ canonical_json (unsigned_part (sl_field k) e))"
proof -
  let ?d = "unsigned_part (sl_field k) d" and ?e = "unsigned_part (sl_field k) e"
  have s: "strict_ok (JObj ?d)" "strict_ok (JObj ?e)" using strict_without assms(2,3) unfolding unsigned_part_def by blast+
  have c: "canonical_dict ?d = ?d" "canonical_dict ?e = ?e" using assms(4,5) by (simp_all add: unsigned_part_def canonical_without)
  have "?d = ?e" if "canonical_json ?d = canonical_json ?e"
  proof -
    have "parse_strict_json (canonical_json ?d) (int (length (canonical_json ?d))) = Inr (canonical_dict ?d)"
      "parse_strict_json (canonical_json ?e) (int (length (canonical_json ?e))) = Inr (canonical_dict ?e)"
      by (rule parse_canonical_dict [OF s(1) order_refl], rule parse_canonical_dict [OF s(2) order_refl])
    then have "canonical_dict ?d = canonical_dict ?e" unfolding that by (metis Inr_inject)
    then show ?thesis unfolding c .
  qed
  then show ?thesis using prefixed_digest_inj [OF assms(1) [unfolded sealed_id_def]] by blast
qed

end
