(* ===== verification/Policy_Tasks.thy ===== *)
theory Policy_Tasks
  imports Policy_Task Policy_Seal
begin

text \<open>
  The task of the policy drill (\<open>cathedral_thin/verified_policy.py\<close>): its checks do not depend on the order
  of keys, so a signed task verifies; what an accepted task is; and what the commitment to the hidden suite
  binds.
\<close>

section \<open>The checks on a document in canonical order\<close>

lemma sort_canonical: "sort (map fst (canonical_dict d)) = sort (map fst d)"
proof -
  have "mset (map fst (canonical_dict d)) = mset (map fst d)"
    by (simp add: canonical_dict_def sort_items_def comp_def case_prod_unfold)
  then show ?thesis by (metis properties_for_sort mset_sort sorted_sort)
qed

lemma example_row_jsort: "strict_ok v \<Longrightarrow> example_row fn ls l (jsort v) = example_row fn ls l v"
proof (cases v)
  case (JObj row)
  assume strict: "strict_ok v"
  note get = jget_canonical [OF strict_distinct [OF strict [unfolded JObj]]]
  have "strict_ok (jget row ''features'')" by (rule strict_get [OF strict [unfolded JObj]])
  then show ?thesis
    by (cases "jget row ''features''")
      (simp_all add: JObj jsort_dict example_row_def get require_canonical sort_canonical jget_canonical del: jsort.simps(2))
qed (simp_all add: example_row_def)

lemma mapE_cong_list: "(\<And>x. x \<in> set xs \<Longrightarrow> f x = g x) \<Longrightarrow> mapE f xs = mapE g xs"
  by (induction xs) auto

lemma mapE_map: "mapE f (map g xs) = mapE (\<lambda>x. f (g x)) xs"
  by (induction xs) auto

lemma validate_examples_jsort: "strict_ok v \<Longrightarrow> validate_examples (jsort v) fn ls l n = validate_examples v fn ls l n"
proof (cases v)
  case (JArr rows)
  assume "strict_ok v"
  then have "mapE (\<lambda>x. example_row fn ls l (jsort x)) rows = mapE (example_row fn ls l) rows"
    using JArr by (intro mapE_cong_list example_row_jsort) simp
  then show ?thesis by (simp add: JArr validate_examples_def mapE_map Let_def)
qed (simp_all add: validate_examples_def)

lemma kinds_jsort [simp]: "unhashable (jsort v) = unhashable v" "sort_kind (jsort v) = sort_kind v"
  by (cases v; simp add: unhashable_def sort_kind_def)+

lemma rare_names_jsort [simp]: "rare_names (jsort v) ls = rare_names v ls"
proof (cases v)
  case (JArr vs)
  have "list_ex (\<lambda>x. sort_kind x \<noteq> sort_kind (hd (map jsort vs))) (map jsort vs) = list_ex (\<lambda>x. sort_kind x \<noteq> sort_kind (hd vs)) vs"
    by (cases vs) (simp_all add: list_ex_iff)
  moreover have "list_ex unhashable (map jsort vs) = list_ex unhashable vs" by (simp add: list_ex_iff)
  ultimately show ?thesis by (simp add: JArr rare_names_def Let_def)
qed (simp_all add: rare_names_def)

lemma metric_policy_jsort: "strict_ok v \<Longrightarrow> metric_policy (jsort v) = metric_policy v"
  by (cases v) (simp_all add: metric_policy_def jsort_dict require_canonical jget_canonical del: jsort.simps(2))

text \<open>The fields of the body the seal does not touch.\<close>

definition same_body :: "seal \<Rightarrow> jdict \<Rightarrow> jdict \<Rightarrow> bool" where
  "same_body k d c = (\<forall>f. plain_field k f \<longrightarrow> jget c f = jsort (jget d f))"

lemma opened_body: "opened env k h d c \<Longrightarrow> same_body k d c"
  by (simp add: opened_def same_body_def)

lemma same_get: "same_body k d c \<Longrightarrow> plain_field k f \<Longrightarrow> jget c f = jsort (jget d f)"
  by (simp add: same_body_def)

lemma plain_task [simp]: "plain_field task_seal f \<longleftrightarrow> f \<noteq> ''task_id'' \<and> f \<noteq> ''signature''"
  by (simp add: plain_field_def task_seal_def)

lemma task_header_body: "same_body task_seal d c \<Longrightarrow> task_header c = task_header d"
  by (simp add: task_header_def party_key_def same_get)

lemma task_names_body: "same_body task_seal d c \<Longrightarrow> task_names c = task_names d"
  by (simp add: task_names_def names_list_def same_get)

lemma task_body: "strict_ok (JObj d) \<Longrightarrow> same_body task_seal d c \<Longrightarrow> validate_task_body c = validate_task_body d"
  by (simp add: validate_task_body_def task_header_body task_names_body same_get validate_examples_jsort metric_policy_jsort
    strict_get del: strict_ok.simps)

lemma unexpected_jsort [simp]: "unexpected e (jsort v) = unexpected e v"
  by (cases e) (simp_all add: unexpected_def)

lemma task_admitted_body: "same_body task_seal d c \<Longrightarrow> task_admitted x c now = task_admitted x d now"
  by (cases now) (simp_all add: task_admitted_def same_get)

lemma str_value_jsort [simp]: "str_value (jsort v) = str_value v"
  by (cases v) (simp_all add: str_value_def)

lemma task_value_body:
  assumes "strict_ok (JObj d)" "same_body task_seal d c" "task_value d i n = Inr t"
  shows "task_value c i n = Inr (t\<lparr>pt_document := c\<rparr>)"
proof -
  have "strict_ok (jget d ''metric_policy'')" by (rule strict_get [OF assms(1)])
  then have m: "parse_floor (jget (sub_object c ''metric_policy'') f) l = parse_floor (jget (sub_object d ''metric_policy'') f) l"
    "int_field (jget (sub_object c ''metric_policy'') f) = int_field (jget (sub_object d ''metric_policy'') f)" for f l
    by (cases "jget d ''metric_policy''"; simp add: sub_object_def same_get [OF assms(2)] jsort_dict jget_canonical del: jsort.simps(2))+
  show ?thesis
    using assms(3) unfolding task_value_def task_names_body [OF assms(2)] Let_def m
    by (auto simp: same_get [OF assms(2)] validate_examples_jsort strict_get [OF assms(1)] elim!: bindE_InrE)
qed

section \<open>A signed task verifies\<close>

lemma task_body_value:
  assumes "validate_task_body d = Inr ()"
  shows "\<exists>t. task_value d i n = Inr t \<and> pt_document t = d \<and> pt_id t = i \<and> pt_issued t = n"
proof -
  obtain features labels rare examples m where names: "task_names d = Inr (features, labels, rare)"
    and ex: "validate_examples (jget d ''public_examples'') features labels ''public examples'' 2 = Inr examples"
    and m: "jget d ''metric_policy'' = JObj m" "metric_policy (JObj m) = Inr ()"
    using assms unfolding validate_task_body_def
    by (elim bindE_InrE) (auto simp: metric_policy_def split: json.splits elim!: bindE_InrE)
  obtain q r where "parse_floor (jget m ''quality_floor'') ''quality_floor'' = Inr q" "parse_floor (jget m ''rare_floor'') ''rare_floor'' = Inr r"
    using m(2) by (auto simp: metric_policy_def require_exact_keys_def elim!: bindE_InrE guardE_InrE)
  then show ?thesis by (simp add: task_value_def names ex Let_def sub_object_def m(1))
qed

lemma signed_task_verifies:
  assumes strict: "strict_ok (JObj d)" and fields: "set (map fst d) = set task_keys - {''task_id'', ''signature''}"
    and signed: "sign_task d key = Inr raw" "int (length raw) \<le> MAX_TASK_BYTES"
    and law: "\<And>m sig. kp_sign key m = Some sig \<Longrightarrow> or_sr env (kp_address key) m sig = Some True"
    and admitted: "task_admitted x d now = Inr issued"
  shows "\<exists>t t' c. verify_task env raw x now = Inr t \<and> task_value d (sealed_id task_seal d) issued = Inr t' \<and> t = t'\<lparr>pt_document := c\<rparr> \<and>
    opened env task_seal (kp_address key) d c"
proof -
  have body: "validate_task_body d = Inr ()" and signer: "jget d ''validator_hotkey'' = JStr (kp_address key)"
    and seal: "seal_document task_seal key d = Inr raw"
    using signed(1) unfolding sign_task_def by (elim guardE_InrE bindE_InrE; simp)+
  have keys: "set task_keys = {sl_field task_seal, ''signature''} \<union> fst ` set d"
    using fields by (auto simp: task_seal_def task_keys_def)
  have new: "sl_field task_seal \<notin> fst ` set d" "''signature'' \<notin> fst ` set d" "sl_field task_seal \<noteq> ''signature''"
    using fields by (auto simp: task_seal_def)
  obtain c where c: "open_document raw MAX_TASK_BYTES ''verified policy task'' task_keys = Inr c"
    and o: "opened env task_seal (kp_address key) d c"
    using seal_opens [OF strict seal signed(2) new(3,1,2) keys law] by blast
  have same: "same_body task_seal d c" by (rule opened_body [OF o])
  obtain t' where t': "task_value d (sealed_id task_seal d) issued = Inr t'" using task_body_value [OF body] by blast
  have "check_seal env task_seal (kp_address key) c = Inr (sealed_id task_seal d)" using o by (simp add: opened_def)
  then have "verify_task env raw x now = Inr (t'\<lparr>pt_document := c\<rparr>)"
    using task_value_body [OF strict same t'] admitted
    by (simp add: verify_task_def c task_body [OF strict same] body task_admitted_body [OF same] same_get [OF same] signer str_value_def)
  then show ?thesis using t' o by blast
qed

section \<open>What an accepted task is\<close>

lemma example_row_InrD:
  assumes "example_row fn ls l v = Inr e"
  shows "ex_label e \<in> set ls \<and> map fst (ex_features e) = fn \<and> policy_id (ex_id e) \<and> (\<forall>(k, v) \<in> set (ex_features e). scalar_value v)"
proof -
  have names: "map fst xs = fn \<and> (\<forall>(k, v) \<in> set xs. scalar_value v)"
    if "mapE (\<lambda>k. bindE (scalar (jget fs k) (m k)) (\<lambda>x. Inr (k, x))) fn = Inr xs" for fs m xs
    using that by (induction fn arbitrary: xs) (fastforce simp: scalar_Inr elim!: bindE_InrE)+
  from assms show ?thesis unfolding example_row_def require_exact_keys_def
    by (auto simp: policy_identifier_Inr split: json.splits elim!: bindE_InrE guardE_InrE dest!: names) force
qed

definition examples_ok :: "string list \<Rightarrow> string list \<Rightarrow> example list \<Rightarrow> bool" where
  "examples_ok fn ls es =
     (sorted (map ex_id es) \<and> distinct (map ex_id es) \<and> length es \<le> MAX_EXAMPLES \<and>
      (\<forall>e \<in> set es. ex_label e \<in> set ls \<and> map fst (ex_features e) = fn \<and> policy_id (ex_id e) \<and>
         (\<forall>(k, v) \<in> set (ex_features e). scalar_value v)))"

lemma sorted_uniqueD: "sorted_unique xs \<Longrightarrow> sorted xs \<and> distinct xs"
  unfolding sorted_unique_def by (metis sorted_list_of_set(2) distinct_sorted_list_of_set)

lemma validate_examples_InrD:
  assumes "validate_examples v fn ls l n = Inr es"
  shows "examples_ok fn ls es \<and> n \<le> length es"
proof -
  obtain rows where rows: "v = JArr rows" "n \<le> length rows" "length rows \<le> MAX_EXAMPLES" "mapE (example_row fn ls l) rows = Inr es"
    "sorted_unique (map ex_id es)"
    using assms unfolding validate_examples_def Let_def by (auto split: json.splits elim!: bindE_InrE guardE_InrE)
  have "\<forall>e \<in> set es. ex_label e \<in> set ls \<and> map fst (ex_features e) = fn \<and> policy_id (ex_id e) \<and>
      (\<forall>(k, v) \<in> set (ex_features e). scalar_value v)"
    using mapE_all [OF rows(4)] example_row_InrD by blast
  then show ?thesis using rows mapE_length [OF rows(4)] sorted_uniqueD [OF rows(5)] by (simp add: examples_ok_def)
qed

text \<open>The invariant of a verified task.\<close>

definition task_ok :: "policy_task \<Rightarrow> bool" where
  "task_ok t =
     (sorted_unique (pt_features t) \<and> pt_features t \<noteq> [] \<and> list_all policy_id (pt_features t) \<and> length (pt_features t) \<le> MAX_FEATURES \<and>
      sorted_unique (pt_labels t) \<and> 2 \<le> length (pt_labels t) \<and> length (pt_labels t) \<le> MAX_LABELS \<and> list_all policy_id (pt_labels t) \<and>
      sorted_unique (pt_rare t) \<and> pt_rare t \<noteq> [] \<and> set (pt_rare t) \<subseteq> set (pt_labels t) \<and>
      examples_ok (pt_features t) (pt_labels t) (pt_examples t) \<and> 2 \<le> length (pt_examples t) \<and>
      0 \<le> dec_val (pt_quality t) \<and> dec_val (pt_quality t) \<le> 1 \<and> 0 \<le> dec_val (pt_rare_floor t) \<and> dec_val (pt_rare_floor t) \<le> 1 \<and>
      0 < pt_max_terms t \<and> 0 \<le> pt_first t \<and> pt_first t < pt_last t)"

lemma names_list_InrD:
  "names_list v lo hi bad = Inr xs \<Longrightarrow> sorted_unique xs \<and> list_all policy_id xs \<and> lo \<le> length xs \<and> length xs \<le> hi"
  unfolding names_list_def sorted_unique_def by (auto split: option.splits dest!: sorted_unique_SomeD)

lemma rare_names_InrD: "rare_names v ls = Inr xs \<Longrightarrow> sorted_unique xs \<and> xs \<noteq> [] \<and> set xs \<subseteq> set ls"
  unfolding rare_names_def Let_def by (auto split: json.splits if_splits elim!: guardE_InrE)

lemma task_value_ok:
  assumes body: "validate_task_body d = Inr ()" and t: "task_value d i n = Inr t"
  shows "task_ok t"
proof -
  obtain features labels rare examples q r where names: "task_names d = Inr (features, labels, rare)"
    and ex: "validate_examples (jget d ''public_examples'') features labels ''public examples'' 2 = Inr examples"
    and q: "parse_floor (jget (sub_object d ''metric_policy'') ''quality_floor'') ''quality_floor'' = Inr q"
    and r: "parse_floor (jget (sub_object d ''metric_policy'') ''rare_floor'') ''rare_floor'' = Inr r"
    and fields: "pt_features t = features" "pt_labels t = labels" "pt_rare t = rare" "pt_examples t = examples" "pt_quality t = q"
      "pt_rare_floor t = r" "pt_max_terms t = int_field (jget (sub_object d ''metric_policy'') ''compactness_max_terms'')"
      "pt_first t = int_field (jget d ''valid_from_block'')" "pt_last t = int_field (jget d ''valid_until_block'')"
    using t unfolding task_value_def Let_def by (auto elim!: bindE_InrE)
  have n: "sorted_unique features \<and> list_all policy_id features \<and> 1 \<le> length features \<and> length features \<le> MAX_FEATURES"
    "sorted_unique labels \<and> list_all policy_id labels \<and> 2 \<le> length labels \<and> length labels \<le> MAX_LABELS"
    "sorted_unique rare \<and> rare \<noteq> [] \<and> set rare \<subseteq> set labels"
    using names unfolding task_names_def by (auto elim!: bindE_InrE dest: names_list_InrD rare_names_InrD)
  have "0 < int_field (jget (sub_object d ''metric_policy'') ''compactness_max_terms'')"
    using body unfolding validate_task_body_def metric_policy_def require_exact_keys_def sub_object_def
    by (auto simp: positive_int_Inr int_field_def split: json.splits elim!: bindE_InrE guardE_InrE)
  moreover have "0 \<le> int_field (jget d ''valid_from_block'') \<and> int_field (jget d ''valid_from_block'') < int_field (jget d ''valid_until_block'')"
    using body unfolding validate_task_body_def task_header_def
    by (elim bindE_InrE guardE_InrE) (auto simp: party_key_def policy_values int_field_def elim!: bindE_InrE guardE_InrE)
  ultimately show ?thesis
    using n validate_examples_InrD [OF ex] parse_floor_Inr [OF q] parse_floor_Inr [OF r] unfolding task_ok_def fields by auto
qed

lemma verify_task_parts:
  assumes "verify_task env raw x now = Inr t"
  shows "\<exists>d issued. open_document raw MAX_TASK_BYTES ''verified policy task'' task_keys = Inr d \<and> validate_task_body d = Inr () \<and>
    task_admitted x d now = Inr issued \<and> check_seal env task_seal (str_value (jget d ''validator_hotkey'')) d = Inr (pt_id t) \<and>
    task_value d (pt_id t) issued = Inr t \<and> pt_document t = d"
  using assms unfolding verify_task_def
  by (elim bindE_InrE) (auto simp: task_value_def Let_def elim!: bindE_InrE)

end
