(* ===== verification/Policy_Artifacts.thy ===== *)
theory Policy_Artifacts
  imports Policy_Artifact Policy_Tasks
begin

text \<open>
  The artifact of the policy drill (\<open>cathedral_thin/verified_policy.py\<close>): a signed artifact verifies with
  the rules it was signed with, and what an accepted artifact is.
\<close>

section \<open>The checks on a document in canonical order\<close>

lemma rule_condition_jsort: "strict_ok v \<Longrightarrow> rule_condition t (jsort v) = rule_condition t v"
  by (cases v) (simp_all add: rule_condition_def jsort_dict require_canonical jget_canonical del: jsort.simps(2))

lemma rule_conditions_jsort: "strict_ok v \<Longrightarrow> rule_conditions t (jsort v) = rule_conditions t v"
proof (cases v)
  case (JArr cs)
  assume "strict_ok v"
  then have "mapE (\<lambda>x. rule_condition t (jsort x)) cs = mapE (rule_condition t) cs"
    using JArr by (intro mapE_cong_list rule_condition_jsort) simp
  then show ?thesis by (simp add: JArr rule_conditions_def mapE_map)
qed (simp_all add: rule_conditions_def)

lemma rule_row_jsort: "strict_ok v \<Longrightarrow> rule_row t seen (jsort v) = rule_row t seen v"
  by (cases v) (simp_all add: rule_row_def jsort_dict require_canonical jget_strict rule_conditions_jsort strict_get
    del: jsort.simps(2) strict_ok.simps(4))

lemma foldE_map: "foldE f s (map g xs) = foldE (\<lambda>s x. f s (g x)) s xs"
  by (induction xs arbitrary: s) simp_all

lemma foldE_cong_list: "(\<And>s x. x \<in> set xs \<Longrightarrow> f s x = g s x) \<Longrightarrow> foldE f s xs = foldE g s xs"
  by (induction xs arbitrary: s) (auto intro: bindE_cong)

lemma normalize_rules_jsort: "strict_ok v \<Longrightarrow> normalize_rules (jsort v) t = normalize_rules v t"
proof (cases v)
  case (JArr rows)
  assume "strict_ok v"
  then have "foldE (\<lambda>s x. rule_row t s (jsort x)) [] rows = foldE (rule_row t) [] rows"
    using JArr by (intro foldE_cong_list rule_row_jsort) simp
  then show ?thesis by (simp add: JArr normalize_rules_def foldE_map)
qed (simp_all add: normalize_rules_def)

lemma plain_artifact [simp]: "plain_field artifact_seal f \<longleftrightarrow> f \<noteq> ''artifact_id'' \<and> f \<noteq> ''signature''"
  by (simp add: plain_field_def artifact_seal_def)

lemma artifact_body: "strict_ok (JObj d) \<Longrightarrow> same_body artifact_seal d c \<Longrightarrow> validate_artifact_body c t = validate_artifact_body d t"
  by (simp add: validate_artifact_body_def same_get normalize_rules_jsort strict_get del: strict_ok.simps)

section \<open>A signed artifact verifies\<close>

lemma artifact_body_InrD:
  assumes "validate_artifact_body d t = Inr ()"
  shows "\<exists>created rules fallback. parse_time (jget d ''created_at'') ''artifact created_at'' = Inr created \<and> pt_issued t \<le> created \<and>
    jget d ''default_label'' = JStr fallback \<and> fallback \<in> set (pt_labels t) \<and> normalize_rules (jget d ''rules'') t = Inr rules \<and>
    jget d ''task_id'' = JStr (pt_id t) \<and> jget d ''miner_hotkey'' = JStr (pt_miner t)"
  using assms unfolding validate_artifact_body_def
  by (elim guardE_InrE bindE_InrE) (auto simp: policy_identifier_Inr)

lemma signed_artifact_verifies:
  assumes strict: "strict_ok (JObj d)" and fields: "set (map fst d) = set artifact_keys - {''artifact_id'', ''signature''}"
    and signed: "sign_artifact d key t = Inr raw" "int (length raw) \<le> MAX_ARTIFACT_BYTES"
    and law: "\<And>m sig. kp_sign key m = Some sig \<Longrightarrow> or_sr env (kp_address key) m sig = Some True"
  shows "\<exists>a. verify_artifact env raw t = Inr a \<and> opened env artifact_seal (pt_miner t) d (pa_document a) \<and>
    pa_id a = sealed_id artifact_seal d \<and> pa_task a = pt_id t \<and> pa_miner a = pt_miner t \<and>
    normalize_rules (jget d ''rules'') t = Inr (pa_rules a) \<and> jget d ''default_label'' = JStr (pa_default a)"
proof -
  have body: "validate_artifact_body d t = Inr ()" and signer: "kp_address key = pt_miner t"
    and seal: "seal_document artifact_seal key d = Inr raw"
    using signed(1) unfolding sign_artifact_def by (elim guardE_InrE bindE_InrE; simp)+
  have keys: "set artifact_keys = {sl_field artifact_seal, ''signature''} \<union> fst ` set d"
    using fields by (auto simp: artifact_seal_def artifact_keys_def)
  have new: "sl_field artifact_seal \<notin> fst ` set d" "''signature'' \<notin> fst ` set d" "sl_field artifact_seal \<noteq> ''signature''"
    using fields by (auto simp: artifact_seal_def)
  obtain c where c: "open_document raw MAX_ARTIFACT_BYTES ''verified policy artifact'' artifact_keys = Inr c"
    and o: "opened env artifact_seal (pt_miner t) d c"
    using seal_opens [OF strict seal signed(2) new(3,1,2) keys] law unfolding signer by blast
  have same: "same_body artifact_seal d c" by (rule opened_body [OF o])
  obtain created rules fallback where b: "parse_time (jget d ''created_at'') ''artifact created_at'' = Inr created"
    "jget d ''default_label'' = JStr fallback" "normalize_rules (jget d ''rules'') t = Inr rules"
    using artifact_body_InrD [OF body] by blast
  have "check_seal env artifact_seal (pt_miner t) c = Inr (sealed_id artifact_seal d)" using o by (simp add: opened_def)
  then have "verify_artifact env raw t = Inr \<lparr>pa_id = sealed_id artifact_seal d, pa_task = pt_id t, pa_miner = pt_miner t,
      pa_created = created, pa_rules = rules, pa_default = fallback, pa_document = c\<rparr>"
    using b by (simp add: verify_artifact_def c artifact_body [OF strict same] body same_get [OF same] normalize_rules_jsort
      strict_get [OF strict] str_value_def)
  then show ?thesis using b(2,3) o by simp
qed

section \<open>What an accepted artifact is\<close>

definition rule_ok :: "policy_task \<Rightarrow> rule \<Rightarrow> bool" where
  "rule_ok t r =
     (policy_id (ru_id r) \<and> sorted_unique (map fst (ru_when r)) \<and> 1 \<le> length (ru_when r) \<and> length (ru_when r) \<le> MAX_CONDITIONS \<and>
      fst ` set (ru_when r) \<subseteq> set (pt_features t) \<and> (\<forall>(f, v) \<in> set (ru_when r). scalar_value v) \<and> ru_then r \<in> set (pt_labels t) \<and>
      sorted_unique (ru_support r))"

lemma rule_condition_InrD: "rule_condition t v = Inr (f, x) \<Longrightarrow> f \<in> set (pt_features t) \<and> scalar_value x"
  unfolding rule_condition_def require_exact_keys_def
  by (auto simp: scalar_Inr split: json.splits elim!: bindE_InrE guardE_InrE)

lemma rule_conditions_InrD:
  assumes "rule_conditions t v = Inr cs"
  shows "sorted_unique (map fst cs) \<and> 1 \<le> length cs \<and> length cs \<le> MAX_CONDITIONS \<and> fst ` set cs \<subseteq> set (pt_features t) \<and>
    (\<forall>(f, x) \<in> set cs. scalar_value x)"
proof -
  obtain vs where vs: "1 \<le> length vs" "length vs \<le> MAX_CONDITIONS" "mapE (rule_condition t) vs = Inr cs" "sorted_unique (map fst cs)"
    using assms unfolding rule_conditions_def by (auto split: json.splits elim!: bindE_InrE guardE_InrE)
  have "f \<in> set (pt_features t) \<and> scalar_value x" if "(f, x) \<in> set cs" for f x
    using mapE_all [OF vs(3) that] rule_condition_InrD by blast
  then show ?thesis using vs mapE_length [OF vs(3)] by auto
qed

lemma rule_row_InrD:
  assumes "rule_row t seen v = Inr out"
  shows "\<exists>r row. out = seen @ [r] \<and> rule_ok t r \<and> ru_id r \<notin> ru_id ` set seen \<and> v = JObj row \<and>
    jget row ''rule_id'' = JStr (ru_id r) \<and> rule_conditions t (jget row ''when'') = Inr (ru_when r) \<and>
    jget row ''then'' = JStr (ru_then r) \<and> sorted_unique_texts policy_id 0 MAX_EXAMPLES (jget row ''support_example_ids'') = Some (ru_support r)"
proof -
  obtain row i cs l sup where row: "v = JObj row" "jget row ''rule_id'' = JStr i" "policy_id i" "i \<notin> ru_id ` set seen"
    "rule_conditions t (jget row ''when'') = Inr cs" "jget row ''then'' = JStr l" "l \<in> set (pt_labels t)"
    "sorted_unique_texts policy_id 0 MAX_EXAMPLES (jget row ''support_example_ids'') = Some sup"
    "out = seen @ [\<lparr>ru_id = i, ru_when = cs, ru_then = l, ru_support = sup\<rparr>]"
    using assms unfolding rule_row_def require_exact_keys_def
    by (auto simp: policy_identifier_Inr split: json.splits option.splits elim!: bindE_InrE guardE_InrE) blast
  have "sorted_unique sup" using sorted_unique_SomeD [OF row(8)] by (simp add: sorted_unique_def)
  then show ?thesis
    using row rule_conditions_InrD [OF row(5)]
    by (intro exI [of _ "\<lparr>ru_id = i, ru_when = cs, ru_then = l, ru_support = sup\<rparr>"] exI [of _ row]) (simp add: rule_ok_def)
qed

lemma rule_rows_InrD:
  "foldE (rule_row t) seen rows = Inr out \<Longrightarrow> \<exists>new. out = seen @ new \<and> list_all (rule_ok t) new \<and>
     list_all2 (\<lambda>v r. \<exists>row. v = JObj row \<and> jget row ''rule_id'' = JStr (ru_id r) \<and>
       rule_conditions t (jget row ''when'') = Inr (ru_when r) \<and> jget row ''then'' = JStr (ru_then r) \<and>
       sorted_unique_texts policy_id 0 MAX_EXAMPLES (jget row ''support_example_ids'') = Some (ru_support r)) rows new"
proof (induction rows arbitrary: seen)
  case (Cons v rows)
  then obtain mid where mid: "rule_row t seen v = Inr mid" "foldE (rule_row t) mid rows = Inr out" by (auto elim!: bindE_InrE)
  from rule_row_InrD [OF mid(1)] obtain r row where r: "mid = seen @ [r]" "rule_ok t r" "v = JObj row"
    "jget row ''rule_id'' = JStr (ru_id r)" "rule_conditions t (jget row ''when'') = Inr (ru_when r)"
    "jget row ''then'' = JStr (ru_then r)" "sorted_unique_texts policy_id 0 MAX_EXAMPLES (jget row ''support_example_ids'') = Some (ru_support r)"
    by blast
  from Cons.IH [OF mid(2)] obtain new where "out = mid @ new" "list_all (rule_ok t) new"
    "list_all2 (\<lambda>v r. \<exists>row. v = JObj row \<and> jget row ''rule_id'' = JStr (ru_id r) \<and>
       rule_conditions t (jget row ''when'') = Inr (ru_when r) \<and> jget row ''then'' = JStr (ru_then r) \<and>
       sorted_unique_texts policy_id 0 MAX_EXAMPLES (jget row ''support_example_ids'') = Some (ru_support r)) rows new" by blast
  then show ?case using r by (intro exI [of _ "r # new"]) simp
qed simp

lemma normalize_rules_InrD:
  assumes "normalize_rules v t = Inr rs"
  shows "length rs \<le> MAX_RULES \<and> list_all (rule_ok t) rs"
proof -
  obtain rows where "v = JArr rows" "length rows \<le> MAX_RULES" "foldE (rule_row t) [] rows = Inr rs"
    using assms unfolding normalize_rules_def by (auto split: json.splits elim!: guardE_InrE)
  then show ?thesis using rule_rows_InrD [of t "[]" rows rs] by (auto dest: list_all2_lengthD)
qed

definition artifact_ok :: "policy_task \<Rightarrow> policy_artifact \<Rightarrow> bool" where
  "artifact_ok t a =
     (pa_task a = pt_id t \<and> pa_miner a = pt_miner t \<and> pt_issued t \<le> pa_created a \<and> pa_default a \<in> set (pt_labels t) \<and>
      length (pa_rules a) \<le> MAX_RULES \<and> list_all (rule_ok t) (pa_rules a))"

lemma verify_artifact_ok:
  assumes "verify_artifact env raw t = Inr a"
  shows "artifact_ok t a \<and> sealed env artifact_seal (pt_miner t) (pa_document a) \<and> pa_id a = sealed_id artifact_seal (pa_document a) \<and>
    normalize_rules (jget (pa_document a) ''rules'') t = Inr (pa_rules a)"
proof -
  obtain d where d: "open_document raw MAX_ARTIFACT_BYTES ''verified policy artifact'' artifact_keys = Inr d"
    "validate_artifact_body d t = Inr ()" "check_seal env artifact_seal (pt_miner t) d = Inr (pa_id a)"
    "parse_time (jget d ''created_at'') ''artifact created_at'' = Inr (pa_created a)" "normalize_rules (jget d ''rules'') t = Inr (pa_rules a)"
    "pa_task a = pt_id t" "pa_miner a = pt_miner t" "pa_default a = str_value (jget d ''default_label'')" "pa_document a = d"
    using assms unfolding verify_artifact_def by (auto elim!: bindE_InrE)
  from artifact_body_InrD [OF d(2)] d(4,8) have "pt_issued t \<le> pa_created a \<and> pa_default a \<in> set (pt_labels t)"
    by (auto simp: str_value_def)
  then show ?thesis using opened_sealed [OF d(1,3)] normalize_rules_InrD [OF d(5)] d by (simp add: artifact_ok_def)
qed

text \<open>A prediction is a label of the task.\<close>

lemma first_match_label: "list_all (rule_ok t) rs \<Longrightarrow> l \<in> set (pt_labels t) \<Longrightarrow> first_match rs l fs \<in> set (pt_labels t)"
  by (induction rs) (auto simp: rule_ok_def)

lemma predict_label: "artifact_ok t a \<Longrightarrow> predict a fs \<in> set (pt_labels t)"
  by (simp add: predict_def artifact_ok_def first_match_label)

end
