(* ===== verification/Policy_Evaluate.thy ===== *)
theory Policy_Evaluate
  imports Policy_Artifact
begin

text \<open>
  \<open>cathedral_thin/verified_policy.py\<close>, the evaluation: the hidden cases behind the commitment, the
  metrics of an artifact on them (\<open>evaluate_policy\<close>), the document the validator signs, its verification
  by deterministic replay (\<open>verify_evaluation\<close>) and the score report body made from evaluations.
\<close>

section \<open>The hidden cases\<close>

definition hidden_cases :: "bytes \<Rightarrow> policy_task \<Rightarrow> example list res" where
  "hidden_cases raw t =
     bindE (hidden_suite_commitment (chomp raw) (pt_document t)) (\<lambda>commitment.
     guardE (commitment \<noteq> pt_commitment t) ''hidden suite commitment mismatch''
     (bindE (open_document raw MAX_TASK_BYTES ''hidden suite'' hidden_suite_keys) (\<lambda>d.
      guardE (jget d ''schema'' \<noteq> JStr ''cathedral_verified_policy_hidden_suite_v1'') ''unsupported hidden suite schema''
      (bindE (canonical_b64 (jget (pt_document t) ''nonce_base64'') ''task nonce'' (Some 32)) (\<lambda>nonce.
       guardE (jget d ''task_nonce_digest'' \<noteq> JStr (nonce_digest nonce)) ''hidden suite is bound to a different task nonce''
       (bindE (canonical_b64 (jget d ''salt_base64'') ''hidden suite salt'' (Some 32)) (\<lambda>_.
        bindE (validate_examples (jget d ''cases'') (pt_features t) (pt_labels t) ''hidden suite'' (length (pt_labels t))) (\<lambda>cases.
        guardE (list_ex (\<lambda>l. label_count cases l = 0) (pt_labels t)) ''hidden suite must cover every task label''
          (Inr cases)))))))))"

section \<open>The metrics\<close>

definition correct_cases :: "policy_artifact \<Rightarrow> example list \<Rightarrow> example list" where
  "correct_cases a cases = filter (\<lambda>e. predict a (ex_features e) = ex_label e) cases"

text \<open>\<open>Decimal(correct_by_label[label]) / Decimal(total_by_label[label])\<close>, and its mean over labels.\<close>

definition recall :: "policy_artifact \<Rightarrow> example list \<Rightarrow> string \<Rightarrow> rat" where
  "recall a cases l = d_div (of_int (label_count (correct_cases a cases) l)) (of_int (label_count cases l))"

definition mean_recall :: "policy_artifact \<Rightarrow> example list \<Rightarrow> string list \<Rightarrow> rat" where
  "mean_recall a cases ls = d_div (d_sum (map (recall a cases) ls)) (of_nat (length ls))"

text \<open>A rule is supported when every example it cites exists, has its decision and matches it.\<close>

definition cited_example :: "policy_task \<Rightarrow> string \<Rightarrow> example option" where
  "cited_example t i = map_of (rev (map (\<lambda>e. (ex_id e, e)) (pt_examples t))) i"

definition rule_supported :: "policy_task \<Rightarrow> rule \<Rightarrow> bool" where
  "rule_supported t r =
     (ru_support r \<noteq> [] \<and> list_all (\<lambda>i. case cited_example t i of None \<Rightarrow> False
        | Some e \<Rightarrow> ex_label e = ru_then r \<and> rule_matches r (ex_features e)) (ru_support r))"

definition evidence_faithfulness :: "policy_task \<Rightarrow> policy_artifact \<Rightarrow> string res" where
  "evidence_faithfulness t a =
     (if pa_rules a = [] then Inr ''0''
      else ratio (int (length (filter (rule_supported t) (pa_rules a)))) (int (length (pa_rules a))))"

definition term_count :: "policy_artifact \<Rightarrow> int" where
  "term_count a = int (length (pa_rules a)) + (\<Sum>r \<leftarrow> pa_rules a. int (length (ru_when r)))"

text \<open>The binding to an execution receipt that the caller verified.\<close>

definition execution_document :: "string option \<Rightarrow> string option \<Rightarrow> bool \<Rightarrow> bool \<Rightarrow> string option \<Rightarrow> jdict" where
  "execution_document receipt_id request_id bound attested verifier =
     [(''receipt_id'', opt_text receipt_id), (''request_id'', opt_text request_id), (''output_commitment_bound'', JBool bound),
      (''attestation_verified'', JBool attested), (''verifier_digest'', opt_text verifier)]"

definition output_commitment_of :: "jdict \<Rightarrow> json res" where
  "output_commitment_of d =
     bindE (jitem d ''result'') (\<lambda>result.
       case result of JObj r \<Rightarrow> jitem r ''output_commitment'' | _ \<Rightarrow> Inl PyTypeError)"

definition execution_binding :: "policy_task \<Rightarrow> policy_artifact \<Rightarrow> verified_receipt option \<Rightarrow> jdict res" where
  "execution_binding t a receipt =
     (case receipt of
        None \<Rightarrow> Inr (execution_document None None False False None)
      | Some r \<Rightarrow>
          guardE (jget (ve_document r) ''network'' \<noteq> JStr (pt_network t)
              \<or> \<not> same_value (jget (ve_document r) ''netuid'') (JInt (pt_netuid t))) ''execution receipt network or netuid mismatch''
          (guardE (ve_miner r \<noteq> pa_miner a) ''execution receipt miner mismatch''
          (bindE (output_commitment_of (ve_document r)) (\<lambda>claimed.
           bindE (commit_payload ''output'' (canonical_json (pa_document a))) (\<lambda>actual.
           guardE (claimed \<noteq> JStr actual) ''execution receipt does not bind the policy artifact''
             (Inr (execution_document (Some (ve_receipt_id r)) (Some (ve_request_id r)) True (ve_attested r) (ve_verifier r))))))))"

text \<open>Below a floor an artifact keeps its balanced accuracy only.\<close>

definition below_floor :: "policy_task \<Rightarrow> policy_artifact \<Rightarrow> example list \<Rightarrow> bool" where
  "below_floor t a cases =
     (mean_recall a cases (pt_labels t) < dec_val (pt_quality t) \<or> mean_recall a cases (pt_rare t) < dec_val (pt_rare_floor t))"

record policy_metrics =
  pm_rare :: string
  pm_faithfulness :: string
  pm_compactness :: string

definition policy_metrics_of :: "policy_task \<Rightarrow> policy_artifact \<Rightarrow> example list \<Rightarrow> policy_metrics res" where
  "policy_metrics_of t a cases =
     bindE (ratio (max 0 (pt_max_terms t - term_count a)) (pt_max_terms t)) (\<lambda>compactness.
     bindE (evidence_faithfulness t a) (\<lambda>faithfulness.
     bindE (score_decimal (mean_recall a cases (pt_rare t))) (\<lambda>rare.
       Inr (if below_floor t a cases then \<lparr>pm_rare = ''0'', pm_faithfulness = ''0'', pm_compactness = ''0''\<rparr>
         else \<lparr>pm_rare = rare, pm_faithfulness = faithfulness, pm_compactness = compactness\<rparr>))))"

definition metrics_document :: "string \<Rightarrow> policy_metrics \<Rightarrow> bool \<Rightarrow> jdict" where
  "metrics_document accuracy m attested =
     [(''policy_balanced_accuracy'', JStr accuracy), (''policy_rare_recall'', JStr (pm_rare m)),
      (''policy_evidence_faithfulness'', JStr (pm_faithfulness m)), (''policy_compactness'', JStr (pm_compactness m)),
      (''policy_artifact_signature'', JStr ''1''), (''policy_attested_execution'', JStr (if attested then ''1'' else ''0''))]"

definition case_results :: "policy_artifact \<Rightarrow> example list \<Rightarrow> json" where
  "case_results a cases =
     JArr (map (\<lambda>e. JObj [(''example_id'', JStr (ex_id e)), (''predicted'', JStr (predict a (ex_features e))),
       (''correct'', JBool (predict a (ex_features e) = ex_label e))]) cases)"

definition evaluation_document ::
    "policy_task \<Rightarrow> policy_artifact \<Rightarrow> example list \<Rightarrow> string \<Rightarrow> jdict \<Rightarrow> jdict \<Rightarrow> jdict" where
  "evaluation_document t a cases evaluated_at metrics execution =
     [(''schema'', JStr ''cathedral_verified_policy_evaluation_v1''), (''network'', JStr (pt_network t)),
      (''netuid'', JInt (pt_netuid t)), (''source_epoch'', JInt (pt_epoch t)), (''task_id'', JStr (pt_id t)),
      (''artifact_id'', JStr (pa_id a)), (''validator_hotkey'', JStr (pt_validator t)), (''miner_hotkey'', JStr (pa_miner a)),
      (''evaluated_at'', JStr evaluated_at), (''task_valid_from_block'', JInt (pt_first t)),
      (''task_valid_until_block'', JInt (pt_last t)), (''hidden_suite_commitment'', JStr (pt_commitment t)),
      (''case_count'', JInt (int (length cases))),
      (''rare_case_count'', JInt (\<Sum>l \<leftarrow> pt_rare t. label_count cases l)),
      (''case_results_digest'', JStr (prefixed_digest ''cathedral-verified-policy-case-results-v1''
         (canonical_json [(''results'', case_results a cases)]))),
      (''metrics'', JObj metrics), (''execution'', JObj execution)]"

definition evaluate_policy ::
    "policy_task \<Rightarrow> policy_artifact \<Rightarrow> bytes \<Rightarrow> string \<Rightarrow> verified_receipt option \<Rightarrow> jdict res" where
  "evaluate_policy t a hidden_suite evaluated_at receipt =
     bindE (hidden_cases hidden_suite t) (\<lambda>cases.
     bindE (policy_metrics_of t a cases) (\<lambda>m.
     bindE (execution_binding t a receipt) (\<lambda>execution.
     bindE (score_decimal (mean_recall a cases (pt_labels t))) (\<lambda>accuracy.
       Inr (evaluation_document t a cases evaluated_at
         (metrics_document accuracy m (truthy (jget execution ''attestation_verified''))) execution)))))"

section \<open>The evaluation document\<close>

definition evaluation_metric_keys :: "string list" where
  "evaluation_metric_keys = [''policy_balanced_accuracy'', ''policy_rare_recall'', ''policy_evidence_faithfulness'', ''policy_compactness'',
     ''policy_artifact_signature'', ''policy_attested_execution'']"

definition execution_binding_keys :: "string list" where
  "execution_binding_keys = [''receipt_id'', ''request_id'', ''output_commitment_bound'', ''attestation_verified'', ''verifier_digest'']"

text \<open>The fields that repeat the task and the artifact, compared with \<open>!=\<close>.\<close>

definition evaluation_bindings :: "policy_task \<Rightarrow> policy_artifact \<Rightarrow> jdict" where
  "evaluation_bindings t a =
     [(''network'', JStr (pt_network t)), (''netuid'', JInt (pt_netuid t)), (''source_epoch'', JInt (pt_epoch t)),
      (''task_id'', JStr (pt_id t)), (''artifact_id'', JStr (pa_id a)), (''validator_hotkey'', JStr (pt_validator t)),
      (''miner_hotkey'', JStr (pa_miner a)), (''hidden_suite_commitment'', JStr (pt_commitment t)),
      (''task_valid_from_block'', JInt (pt_first t)), (''task_valid_until_block'', JInt (pt_last t))]"

definition binding_step :: "jdict \<Rightarrow> unit \<Rightarrow> string \<times> json \<Rightarrow> unit res" where
  "binding_step d u kv =
     guardE (\<not> same_value (jget d (fst kv)) (snd kv)) (''policy evaluation '' @ fst kv @ '' mismatch'') (Inr ())"

definition check_execution :: "json \<Rightarrow> unit res" where
  "check_execution v =
     (case v of
        JObj x \<Rightarrow>
          require_exact_keys x execution_binding_keys ''evaluation execution''
          (case (jget x ''output_commitment_bound'', jget x ''attestation_verified'') of
             (JBool bound, JBool attested) \<Rightarrow>
               guardE (attested \<and> \<not> bound) ''attested execution must bind the artifact output''
               (foldE (\<lambda>u name. if jget x name = JNull then Inr ()
                  else bindE (sha_digest (jget x name) (''execution '' @ name)) (\<lambda>_. Inr ())) ()
                  [''receipt_id'', ''request_id'', ''verifier_digest''])
           | _ \<Rightarrow> raise ''evaluation execution flags must be boolean'')
      | _ \<Rightarrow> raise ''evaluation execution must be an object'')"

definition check_metrics :: "json \<Rightarrow> unit res" where
  "check_metrics v =
     (case v of
        JObj m \<Rightarrow>
          require_exact_keys m evaluation_metric_keys ''evaluation metrics''
          (foldE (\<lambda>u (name, x). bindE (parse_floor x name) (\<lambda>_. Inr ())) () m)
      | _ \<Rightarrow> raise ''evaluation metrics must be an object'')"

definition validate_evaluation_body :: "jdict \<Rightarrow> policy_task \<Rightarrow> policy_artifact \<Rightarrow> unit res" where
  "validate_evaluation_body d t a =
     guardE (jget d ''schema'' \<noteq> JStr ''cathedral_verified_policy_evaluation_v1'') ''unsupported policy evaluation schema''
     (bindE (foldE (binding_step d) () (evaluation_bindings t a)) (\<lambda>_.
      bindE (parse_time (jget d ''evaluated_at'') ''evaluation evaluated_at'') (\<lambda>_.
      bindE (positive_int (jget d ''case_count'') ''evaluation case_count'') (\<lambda>_.
      bindE (positive_int (jget d ''rare_case_count'') ''evaluation rare_case_count'') (\<lambda>_.
      bindE (sha_digest (jget d ''case_results_digest'') ''case results digest'') (\<lambda>_.
      bindE (check_metrics (jget d ''metrics'')) (\<lambda>_.
        check_execution (jget d ''execution''))))))))"

definition evaluation_seal :: seal where
  "evaluation_seal = \<lparr>sl_field = ''evaluation_id'', sl_id_domain = ''cathedral-verified-policy-evaluation-id-v1'',
     sl_domain = ''cathedral-verified-policy-evaluation-v1'', sl_noun = ''verified policy evaluation'', sl_label = ''evaluation''\<rparr>"

definition sign_evaluation :: "jdict \<Rightarrow> keypair \<Rightarrow> policy_task \<Rightarrow> policy_artifact \<Rightarrow> bytes res" where
  "sign_evaluation d key t a =
     guardE (''evaluation_id'' \<in> fst ` set d \<or> ''signature'' \<in> fst ` set d)
       ''unsigned evaluation must omit evaluation_id and signature''
     (bindE (validate_evaluation_body d t a) (\<lambda>_.
      guardE (kp_address key \<noteq> pt_validator t) ''evaluation signer does not match validator_hotkey''
        (seal_document evaluation_seal key d)))"

section \<open>Verification by replay\<close>

text \<open>Python's \<open>==\<close> on JSON values: a dict ignores the order of its keys, and True equals 1. No float
  occurs in these documents.\<close>

lemma zip_size [termination_simp]: "(a, b) \<in> set (zip xs ys) \<Longrightarrow> size a < Suc (size_list size xs)"
  by (auto dest!: set_zip_leftD simp: less_Suc_eq_le intro: size_list_estimation')

fun py_eq :: "json \<Rightarrow> json \<Rightarrow> bool" where
  "py_eq (JArr xs) w = (case w of
     JArr ys \<Rightarrow> length xs = length ys \<and> list_all (\<lambda>(x, y). py_eq x y) (zip xs ys) | _ \<Rightarrow> False)"
| "py_eq (JObj a) w = (case w of
     JObj b \<Rightarrow> fst ` set a = fst ` set b \<and> list_all (\<lambda>(k, v). py_eq v (jget b k)) a | _ \<Rightarrow> False)"
| "py_eq v w = same_value v w"

record policy_evaluation =
  pe_id :: string
  pe_network :: string
  pe_netuid :: int
  pe_epoch :: int
  pe_task :: string
  pe_artifact :: string
  pe_miner :: string
  pe_evaluated :: int
  pe_first :: int
  pe_last :: int
  pe_metrics :: jdict
  pe_execution :: jdict
  pe_document :: jdict

definition evaluation_keys :: "string list" where
  "evaluation_keys = [''schema'', ''network'', ''netuid'', ''source_epoch'', ''task_id'', ''artifact_id'', ''validator_hotkey'',
     ''miner_hotkey'', ''evaluated_at'', ''task_valid_from_block'', ''task_valid_until_block'', ''hidden_suite_commitment'',
     ''case_count'', ''rare_case_count'', ''case_results_digest'', ''metrics'', ''execution'', ''evaluation_id'', ''signature'']"

definition verify_evaluation ::
    "world \<Rightarrow> bytes \<Rightarrow> policy_task \<Rightarrow> policy_artifact \<Rightarrow> bytes \<Rightarrow> verified_receipt option \<Rightarrow> policy_evaluation res" where
  "verify_evaluation env raw t a hidden_suite receipt =
     bindE (open_document raw MAX_EVALUATION_BYTES ''policy evaluation'' evaluation_keys) (\<lambda>d.
     bindE (validate_evaluation_body d t a) (\<lambda>_.
     bindE (check_seal env evaluation_seal (pt_validator t) d) (\<lambda>evaluation_id.
     bindE (evaluate_policy t a hidden_suite (str_value (jget d ''evaluated_at'')) receipt) (\<lambda>recomputed.
     guardE (\<not> py_eq (JObj recomputed) (JObj (unsigned_part ''evaluation_id'' d)))
       ''policy evaluation does not match deterministic replay''
     (bindE (parse_time (jget d ''evaluated_at'') ''evaluation evaluated_at'') (\<lambda>evaluated.
       Inr \<lparr>pe_id = evaluation_id, pe_network = pt_network t, pe_netuid = pt_netuid t, pe_epoch = pt_epoch t,
         pe_task = pt_id t, pe_artifact = pa_id a, pe_miner = pa_miner a, pe_evaluated = evaluated,
         pe_first = pt_first t, pe_last = pt_last t, pe_metrics = sub_object d ''metrics'',
         pe_execution = sub_object d ''execution'', pe_document = d\<rparr>))))))"

text \<open>The digest of the verifier's own source, None when it cannot be read.\<close>

definition verifier_digest :: "bytes option \<Rightarrow> string res" where
  "verifier_digest source =
     (case source of
        None \<Rightarrow> raise ''could not hash verified policy implementation''
      | Some b \<Rightarrow> Inr (prefixed_digest ''cathedral-verified-policy-verifier-v1'' (sha256 b)))"

section \<open>The score report\<close>

record policy_report_terms =
  pr_network :: string
  pr_netuid :: int
  pr_class :: string
  pr_source :: string
  pr_epoch :: int
  pr_generated :: string
  pr_until :: string
  pr_first :: int
  pr_last :: int
  pr_key :: string
  pr_policy_digest :: string
  pr_verifier_digest :: string
  pr_previous :: "string option"
  pr_uri :: "string option"

definition evaluation_reasons :: "policy_evaluation \<Rightarrow> string list" where
  "evaluation_reasons e =
     sort ([''artifact_signature_verified'', ''hidden_suite_commitment_verified'', ''policy_replayed'', ''rare_cases_scored'',
        ''validator_evaluation_signed''] @
       (if truthy (jget (pe_execution e) ''output_commitment_bound'') then [''execution_output_bound''] else []) @
       (if truthy (jget (pe_execution e) ''attestation_verified'') then [''attestation_verified''] else []))"

definition evaluation_entry :: "string option \<Rightarrow> policy_evaluation \<Rightarrow> json" where
  "evaluation_entry uri e =
     JObj [(''miner_hotkey'', JStr (pe_miner e)), (''metrics'', JObj (pe_metrics e)), (''asserted_score'', JNull),
       (''reason_codes'', strings (evaluation_reasons e)),
       (''evidence'', JArr [JObj [(''kind'', JStr ''cathedral_verified_policy_evaluation_v1''), (''id'', JStr (pe_id e)),
          (''digest'', JStr (pe_id e)), (''uri'', opt_text uri)]])]"

definition reportable :: "policy_report_terms \<Rightarrow> int \<Rightarrow> int \<Rightarrow> int \<Rightarrow> policy_evaluation \<Rightarrow> json res" where
  "reportable m generated first final e =
     guardE (pe_network e \<noteq> pr_network m \<or> pe_netuid e \<noteq> pr_netuid m) ''policy evaluation network or netuid mismatch''
     (guardE (pe_epoch e \<noteq> pr_epoch m) ''policy evaluation source epoch mismatch''
     (guardE (\<not> (pe_first e \<le> first \<and> first < final \<and> final \<le> pe_last e)) ''score report exceeds an evaluation task window''
     (guardE (pe_evaluated e > generated) ''score report predates a policy evaluation''
       (Inr (evaluation_entry (pr_uri m) e)))))"

definition score_report_body_from_evaluations :: "policy_evaluation list \<Rightarrow> policy_report_terms \<Rightarrow> jdict res" where
  "score_report_body_from_evaluations evaluations m =
     (let rows = sort_key pe_miner evaluations in
      guardE (rows = [] \<or> card (pe_miner ` set rows) \<noteq> length rows) ''policy evaluations must contain unique miners''
      (bindE (parse_time (JStr (pr_generated m)) ''generated_at'') (\<lambda>generated.
       bindE (parse_time (JStr (pr_until m)) ''valid_until'') (\<lambda>until.
       bindE (natural_int (JInt (pr_first m)) ''valid_from_block'') (\<lambda>first.
       bindE (natural_int (JInt (pr_last m)) ''valid_until_block'') (\<lambda>final.
       guardE (final \<le> first) ''score report block window is empty''
       (bindE (mapE (reportable m generated first final) rows) (\<lambda>entries.
        bindE (policy_identifier (JStr (pr_class m)) ''class id'') (\<lambda>class_id.
        bindE (policy_identifier (JStr (pr_source m)) ''source id'') (\<lambda>source_id.
        bindE (natural_int (JInt (pr_epoch m)) ''source epoch'') (\<lambda>epoch.
        bindE (sha_digest (JStr (pr_policy_digest m)) ''score policy digest'') (\<lambda>policy_digest.
        bindE (sha_digest (JStr (pr_verifier_digest m)) ''score verifier digest'') (\<lambda>verifier.
        bindE (policy_identifier (JStr (pr_key m)) ''signing key id'') (\<lambda>key_id.
          Inr [(''schema'', JStr ''cathedral_score_class_report_v1''), (''network'', JStr (pr_network m)),
            (''netuid'', JInt (pr_netuid m)), (''class_id'', JStr class_id), (''source_id'', JStr source_id),
            (''source_epoch'', JInt epoch), (''generated_at'', JStr (format_time generated)),
            (''valid_until'', JStr (format_time until)), (''valid_from_block'', JInt first), (''valid_until_block'', JInt final),
            (''complete'', JBool True), (''policy_digest'', JStr policy_digest), (''verifier_digest'', JStr verifier),
            (''previous_report_id'', opt_text (pr_previous m)), (''entries'', JArr entries),
            (''signing_key_id'', JStr key_id)]))))))))))))))"

end
