(* ===== verification/Policy_Scores.thy ===== *)
theory Policy_Scores
  imports Policy_Artifacts Policy_Evaluate
begin

text \<open>
  The scores of the policy drill (\<open>cathedral_thin/verified_policy.py\<close>): recalls, ratios and their twelve-digit
  texts lie between 0 and 1, so the metrics of an evaluation are always printable and always accepted back.
\<close>

section \<open>Texts of scores\<close>

definition score_text :: "string \<Rightarrow> bool" where
  "score_text s = (\<exists>d. decimal_text s = Some d \<and> canonical_decimal d = Inr s \<and> 0 \<le> dec_val d \<and> dec_val d \<le> 1)"

lemma parse_floor_text: "score_text s \<longleftrightarrow> (\<exists>d. parse_floor (JStr s) l = Inr d)"
  by (auto simp: score_text_def parse_floor_def Let_def split: option.splits if_splits)

text \<open>A canonical text has no superfluous digit, so printing what it reads as gives it back.\<close>

lemma canonical_shape:
  assumes "canonical_decimal d = Inr s"
  shows "\<exists>ip q. s = (if q = [] then ip else ip @ CHR ''.'' # q) \<and> all_digits ip \<and> all_digits q \<and> ip \<noteq> [] \<and>
    (q = [] \<or> last q \<noteq> CHR ''0'')"
proof -
  obtain n k where d: "d = (n, k)" by (cases d)
  let ?r = "fixed_text d"
  have s: "s = (if CHR ''.'' \<in> set ?r then rstrip_char CHR ''.'' (rstrip_char CHR ''0'' ?r) else ?r)"
    using assms by (auto simp: canonical_decimal_def Let_def elim!: guardE_InrE)
  show ?thesis
  proof (cases "k = 0")
    case True
    have r: "?r = nat_str (nat n)" "all_digits (nat_str (nat n))"
      using nat_str_digits by (auto simp: d fixed_text_def Let_def True all_digits_def)
    then have "CHR ''.'' \<notin> set ?r" using point_no_digit unfolding all_digits_def by metis
    then have "s = ?r" by (simp add: s)
    then show ?thesis using r nat_str_nonempty by (intro exI [of _ ?r] exI [of _ "[]"]) (auto simp: all_digits_def)
  next
    case False
    then obtain ip fp where r: "?r = ip @ CHR ''.'' # fp" "all_digits ip" "all_digits fp" "ip \<noteq> []"
      using fixed_text_split [of k n] d by auto
    define q where "q = rstrip_char CHR ''0'' fp"
    obtain j where q: "fp = q @ replicate j CHR ''0''" "q = [] \<or> last q \<noteq> CHR ''0''"
      using rstrip_char_split [of fp "CHR ''0''"] unfolding q_def by blast
    have digits: "all_digits q" using r(3) q(1) by (auto simp: all_digits_def)
    have strip0: "rstrip_char CHR ''0'' ?r = ip @ CHR ''.'' # q"
      unfolding r(1) by (rule rstrip_char_unique [where j = j]) (use q in \<open>auto split: if_splits\<close>)
    have "last ip \<noteq> CHR ''.''" using r(2,4) point_no_digit unfolding all_digits_def by (metis last_in_set)
    then have "rstrip_char CHR ''.'' (ip @ [CHR ''.'']) = ip" by (intro rstrip_char_unique [where j = 1]) auto
    moreover have "rstrip_char CHR ''.'' (ip @ CHR ''.'' # q) = ip @ CHR ''.'' # q" if "q \<noteq> []"
    proof -
      have "last q \<noteq> CHR ''.''" using digits that point_no_digit unfolding all_digits_def by (metis last_in_set)
      then show ?thesis using that by (intro rstrip_char_unique [where j = 0]) auto
    qed
    ultimately have "s = (if q = [] then ip else ip @ CHR ''.'' # q)" using strip0 r(1) by (simp add: s)
    then show ?thesis using r digits q(2) by blast
  qed
qed

lemma nat_str_back: "all_digits ds \<Longrightarrow> ds \<noteq> [] \<Longrightarrow> length ds = 1 \<or> hd ds \<noteq> CHR ''0'' \<Longrightarrow> nat_str (digits_value ds) = ds"
proof -
  assume ds: "all_digits ds" "ds \<noteq> []" "length ds = 1 \<or> hd ds \<noteq> CHR ''0''"
  have p: "padded (length ds) (digits_value ds) = ds"
    using ds(1,2) by (intro padded_back) (auto simp: all_digits_def list_all_iff)
  show "nat_str (digits_value ds) = ds"
  proof (cases "length ds \<le> length (nat_str (digits_value ds))")
    case True
    then show ?thesis using p by (simp add: padded_def)
  next
    case False
    then have "hd ds = CHR ''0''" "1 < length ds"
      using p nat_str_nonempty [of "digits_value ds"] by (metis padded_def hd_append2 hd_replicate diff_is_0_eq linorder_not_le
        replicate_empty less_le_not_le, metis linorder_not_le length_greater_0_conv Suc_leI One_nat_def order_le_less_trans)
    then show ?thesis using ds(3) by simp
  qed
qed

lemma fixed_text_back: "decimal_text s = Some e \<Longrightarrow> fixed_text e = s"
proof -
  assume s: "decimal_text s = Some e"
  let ?ip = "takeWhile is_digit s" and ?r = "dropWhile is_digit s"
  have ip: "all_digits ?ip" "?ip \<noteq> []" "length ?ip = 1 \<or> hd ?ip \<noteq> CHR ''0''"
    using s by (auto simp: all_digits_def decimal_text_def Let_def dest: set_takeWhileD split: if_splits) (metis Suc_lessI length_greater_0_conv)
  show "fixed_text e = s"
  proof (cases ?r)
    case Nil
    then have "?ip = s" by (metis append_Nil2 takeWhile_dropWhile_id)
    moreover have "e = (int (digits_value ?ip), 0)" using s Nil by (auto simp: decimal_text_def Let_def split: if_splits)
    ultimately show ?thesis using nat_str_back [OF ip] by (simp add: fixed_text_def Let_def)
  next
    case (Cons c fp)
    have e: "c = CHR ''.''" "e = (int (digits_value (?ip @ fp)), length fp)" "list_all is_digit fp" "fp \<noteq> []"
      using s Cons by (auto simp: decimal_text_def Let_def split: if_splits)
    have whole: "s = ?ip @ CHR ''.'' # fp" using Cons e(1) by (metis takeWhile_dropWhile_id)
    have "padded (Suc (length fp)) (digits_value (?ip @ fp)) = ?ip @ fp"
    proof (cases "length ?ip = 1")
      case True
      then show ?thesis using ip(1) e(3) by (intro padded_back) (auto simp: all_digits_def list_all_iff)
    next
      case False
      have "nat_str (digits_value (?ip @ fp)) = ?ip @ fp"
        using ip e(3) False by (intro nat_str_back) (auto simp: all_digits_def list_all_iff)
      moreover have "Suc (length fp) \<le> length (?ip @ fp)" using ip(2) by (simp add: Suc_le_eq)
      ultimately show ?thesis by (simp add: padded_def)
    qed
    then have "fixed_text e = take (length (?ip @ fp) - length fp) (?ip @ fp) @ ''.'' @ drop (length (?ip @ fp) - length fp) (?ip @ fp)"
      unfolding e(2) fixed_text_def Let_def padded_def using e(4) by simp
    then show ?thesis using whole by simp
  qed
qed

lemma canonical_decimal_reprint:
  assumes "canonical_decimal d = Inr s" "decimal_text s = Some e"
  shows "canonical_decimal e = Inr s"
proof -
  obtain ip q where s: "s = (if q = [] then ip else ip @ CHR ''.'' # q)" "all_digits ip" "all_digits q" "ip \<noteq> []"
    "q = [] \<or> last q \<noteq> CHR ''0''" using canonical_shape [OF assms(1)] by blast
  have "(if CHR ''.'' \<in> set s then rstrip_char CHR ''.'' (rstrip_char CHR ''0'' s) else s) = s"
  proof (cases "q = []")
    case True
    then have "CHR ''.'' \<notin> set s" using s(1,2) point_no_digit unfolding all_digits_def by metis
    then show ?thesis by simp
  next
    case False
    have "last q \<noteq> CHR ''.''" using s(3) False point_no_digit unfolding all_digits_def by (metis last_in_set)
    moreover have "last s = last q" "last q \<noteq> CHR ''0''" using s(1,5) False by auto
    ultimately have "rstrip_char c s = s" if "c = CHR ''.'' \<or> c = CHR ''0''" for c
      using that by (intro rstrip_char_unique [where j = 0]) auto
    then show ?thesis by simp
  qed
  moreover have "0 \<le> fst e" using assms(2) by (auto simp: decimal_text_def Let_def split: if_splits list.splits)
  ultimately show ?thesis using assms(2) by (simp add: canonical_decimal_def fixed_text_back [OF assms(2)] Let_def guardE_def)
qed

lemma score_scaled:
  assumes "0 \<le> v" "v \<le> (1 :: rat)"
  shows "0 \<le> round_half_even (v * 10 ^ 12) \<and> round_half_even (v * 10 ^ 12) \<le> 10 ^ 12"
proof -
  have "round_half_even (of_int 0) \<le> round_half_even (v * 10 ^ 12)" "round_half_even (v * 10 ^ 12) \<le> round_half_even (of_int (10 ^ 12))"
    using assms by (intro rhe_mono; simp)+
  then show ?thesis unfolding rhe_of_int by simp
qed

lemma score_decimal_text:
  assumes "0 \<le> v" "v \<le> 1"
  shows "\<exists>s. score_decimal v = Inr s \<and> score_text s"
proof -
  let ?m = "round_half_even (v * 10 ^ 12)"
  have m: "0 \<le> ?m" "?m \<le> 10 ^ 12" using score_scaled [OF assms] by blast+
  have "rat_of_int ?m \<le> rat_of_int (10 ^ 12)" using m(2) by (simp only: of_int_le_iff)
  then have val: "0 \<le> dec_val (?m, 12)" "dec_val (?m, 12) \<le> 1" using m(1) by (simp_all add: dec_val_def)
  have "dec_val (?m, 12) < 10 ^ 30" using val(2) by (rule le_less_trans) simp
  then obtain s where s: "canonical_decimal (?m, 12) = Inr s" using canonical_decimal_total [OF m(1), of 12] by auto
  obtain e where e: "decimal_text s = Some e" "dec_val e = dec_val (?m, 12)" using canonical_decimal_value [OF s] by blast
  have "canonical_decimal e = Inr s"
    by (rule canonical_decimal_reprint [OF s e(1)])
  then have "score_text s" unfolding score_text_def using e val by (intro exI [of _ e]) simp
  then show ?thesis using s by (simp add: score_decimal_def)
qed

section \<open>Recalls and ratios\<close>

lemma round28_nat: "n < 10 ^ 28 \<Longrightarrow> round28 (of_nat n) = of_nat n"
proof (cases "n = 0")
  case False
  assume n: "n < 10 ^ 28"
  have pos: "0 < rat_of_nat n" using False by simp
  have "rat_of_nat n < rat_of_nat (10 ^ 28)" using n by (simp only: of_nat_less_iff)
  then have "pow10 (ilog10 (of_nat n)) < pow10 28" using ilog10_bounds [OF pos] by (simp add: pow10_def)
  then have "ilog10 (rat_of_nat n) - 27 \<le> 0" using pow10_mono [of 28 "ilog10 (rat_of_nat n)"] by force
  then obtain m where "pow10 0 = rat_of_int m * quantum28 (of_nat n)"
    using pow10_multiple [of "ilog10 (rat_of_nat n) - 27" 0] by (auto simp: quantum28_def)
  then have one: "rat_of_int m * quantum28 (of_nat n) = 1" by (simp add: pow10_def)
  have "rat_of_int (int n * m) * quantum28 (of_nat n) = rat_of_nat n * (rat_of_int m * quantum28 (of_nat n))"
    by (simp only: of_int_mult of_int_of_nat_eq mult.assoc)
  then have "rat_of_nat n = rat_of_int (int n * m) * quantum28 (of_nat n)" unfolding one by simp
  then show "round28 (of_nat n) = of_nat n" by (rule round28_fixed [OF pos])
qed simp

definition unit_score :: "rat \<Rightarrow> bool" where
  "unit_score v = (0 \<le> v \<and> v \<le> 1)"

lemma d_sum_units:
  assumes "\<forall>v \<in> set vs. unit_score v" "length vs < 10 ^ 28"
  shows "0 \<le> d_sum vs \<and> d_sum vs \<le> of_nat (length vs)"
proof -
  have "0 \<le> foldl d_add a vs \<and> foldl d_add a vs \<le> of_nat (n + length vs)"
    if "0 \<le> a" "a \<le> of_nat n" "n + length vs < 10 ^ 28" for a n
    using assms(1) that
  proof (induction vs arbitrary: a n)
    case (Cons v vs)
    have "a + v \<le> of_nat (Suc n)" "0 \<le> a + v" using Cons.prems by (simp_all add: unit_score_def)
    moreover have "round28 (of_nat (Suc n)) = of_nat (Suc n)" using Cons.prems(4) by (intro round28_nat) simp
    ultimately have "d_add a v \<le> of_nat (Suc n)" "0 \<le> d_add a v"
      using round28_mono [of "a + v" "of_nat (Suc n)"] round28_nonneg [of "a + v"] by (simp_all add: d_add_def)
    then show ?case using Cons.IH [of "d_add a v" "Suc n"] Cons.prems by simp
  qed simp
  from this [of 0 0] show ?thesis using assms(2) by (simp add: d_sum_def)
qed

lemma score_quotient_unit: "0 \<le> a \<Longrightarrow> a \<le> b \<Longrightarrow> 0 < b \<Longrightarrow> unit_score (d_div a b)"
  using round28_mono [of "a / b" 1] round28_nonneg [of "a / b"] by (simp add: unit_score_def d_div_def)

lemma count_correct: "0 \<le> label_count (correct_cases a cases) l \<and> label_count (correct_cases a cases) l \<le> label_count cases l"
proof -
  have "filter (\<lambda>e. ex_label e = l) (correct_cases a cases) = filter (\<lambda>e. predict a (ex_features e) = ex_label e) (filter (\<lambda>e. ex_label e = l) cases)"
    by (simp add: correct_cases_def conj_commute)
  then have "length (filter (\<lambda>e. ex_label e = l) (correct_cases a cases)) \<le> length (filter (\<lambda>e. ex_label e = l) cases)"
    by (simp only: length_filter_le)
  then show ?thesis by (simp add: label_count_def)
qed

lemma recall_unit: "0 < label_count cases l \<Longrightarrow> unit_score (recall a cases l)"
  unfolding recall_def using count_correct [of a cases l] by (intro score_quotient_unit) simp_all

lemma mean_recall_unit:
  assumes "\<forall>l \<in> set ls. 0 < label_count cases l" "ls \<noteq> []" "length ls < 10 ^ 28"
  shows "unit_score (mean_recall a cases ls)"
proof -
  have "0 \<le> d_sum (map (recall a cases) ls) \<and> d_sum (map (recall a cases) ls) \<le> of_nat (length ls)"
    using d_sum_units [of "map (recall a cases) ls"] assms recall_unit by simp
  then show ?thesis unfolding mean_recall_def using assms(2) by (intro score_quotient_unit) simp_all
qed

lemma ratio_text: "0 \<le> n \<Longrightarrow> n \<le> m \<Longrightarrow> 0 < m \<Longrightarrow> \<exists>s. ratio n m = Inr s \<and> score_text s"
  using score_quotient_unit [of "of_int n" "of_int m"] by (simp add: ratio_def unit_score_def score_decimal_text)

lemma score_texts [simp]: "score_text ''0''" "score_text ''1''"
  unfolding score_text_def by (rule exI [of _ "(0, 0)"], code_simp, rule exI [of _ "(1, 0)"], code_simp)

lemma faithfulness_text: "\<exists>s. evidence_faithfulness t a = Inr s \<and> score_text s"
  using ratio_text [of "int (length (filter (rule_supported t) (pa_rules a)))" "int (length (pa_rules a))"]
  by (simp add: evidence_faithfulness_def)

section \<open>The hidden cases\<close>

text \<open>What the replay works on: examples of the task's shape that cover its labels.\<close>

definition cases_ok :: "policy_task \<Rightarrow> example list \<Rightarrow> bool" where
  "cases_ok t cs = (examples_ok (pt_features t) (pt_labels t) cs \<and> (\<forall>l \<in> set (pt_labels t). 0 < label_count cs l))"

lemma hidden_cases_ok: "hidden_cases raw t = Inr cs \<Longrightarrow> cases_ok t cs"
  unfolding hidden_cases_def
  by (elim bindE_InrE guardE_InrE)
    (auto simp: cases_ok_def list_ex_iff label_count_def order_less_le dest: validate_examples_InrD)

lemma metrics_texts:
  assumes t: "task_ok t" and cs: "cases_ok t cs"
  shows "(\<exists>s. score_decimal (mean_recall a cs (pt_labels t)) = Inr s \<and> score_text s) \<and>
    (\<exists>m. policy_metrics_of t a cs = Inr m \<and> score_text (pm_rare m) \<and> score_text (pm_faithfulness m) \<and> score_text (pm_compactness m))"
proof -
  have n: "pt_labels t \<noteq> []" "pt_rare t \<noteq> []" "set (pt_rare t) \<subseteq> set (pt_labels t)" "length (pt_labels t) \<le> 64" "distinct (pt_rare t)" "0 < pt_max_terms t"
    using t sorted_uniqueD by (auto simp: task_ok_def MAX_LABELS_def)
  have "length (pt_rare t) \<le> length (pt_labels t)"
    using n(3,5) by (metis card_length card_mono distinct_card List.finite_set order_trans)
  then have len: "length (pt_labels t) < 10 ^ 28" "length (pt_rare t) < 10 ^ 28" using n(4) by simp_all
  have count: "\<forall>l \<in> set (pt_labels t). 0 < label_count cs l" using cs by (simp add: cases_ok_def)
  have "unit_score (mean_recall a cs (pt_labels t))" by (rule mean_recall_unit [OF count n(1) len(1)])
  then have acc: "\<exists>s. score_decimal (mean_recall a cs (pt_labels t)) = Inr s \<and> score_text s"
    by (simp add: score_decimal_text unit_score_def)
  have "unit_score (mean_recall a cs (pt_rare t))" by (rule mean_recall_unit [OF _ n(2) len(2)]) (use count n(3) in blast)
  then obtain r where r: "score_decimal (mean_recall a cs (pt_rare t)) = Inr r" "score_text r"
    using score_decimal_text unfolding unit_score_def by blast
  obtain f where f: "evidence_faithfulness t a = Inr f" "score_text f" using faithfulness_text by blast
  have "0 \<le> term_count a" unfolding term_count_def by (intro add_nonneg_nonneg sum_list_nonneg) auto
  then obtain c where c: "ratio (max 0 (pt_max_terms t - term_count a)) (pt_max_terms t) = Inr c" "score_text c"
    using ratio_text [of "max 0 (pt_max_terms t - term_count a)" "pt_max_terms t"] n(6) by auto
  show ?thesis using acc r f c by (simp add: policy_metrics_of_def)
qed

end
