(* ===== verification/Policy_Evaluations.thy ===== *)
theory Policy_Evaluations
  imports Policy_Scores Ml_Ledger
begin

text \<open>
  The evaluation of the policy drill (\<open>cathedral_thin/verified_policy.py\<close>): a commitment fixes the hidden
  cases, an accepted evaluation is what the replay computes, and what a validator signs is accepted.
\<close>

section \<open>The hidden suite\<close>

text \<open>What the commitment of a task hashes.\<close>

definition suite_text :: "policy_task \<Rightarrow> bytes \<Rightarrow> bytes" where
  "suite_text t raw =
     map byte_of ''cathedral-verified-policy-hidden-suite-v1'' @ [0] @
       canonical_json (map (\<lambda>k. (k, jget (pt_document t) k)) hidden_binding_keys) @ be_bytes 8 (int (length raw)) @ raw"

lemma pick_values: "pick ks d = Inr b \<Longrightarrow> b = map (\<lambda>k. (k, jget d k)) ks"
  by (induction ks arbitrary: b) (auto simp: pick_def jitem_def jget_def split: option.splits elim!: bindE_InrE)

lemma suite_commitment_text:
  "hidden_suite_commitment raw (pt_document t) = Inr c \<Longrightarrow>
     \<exists>b. c = prefixed_digest ''cathedral-verified-policy-hidden-suite-v1'' b \<and>
       map byte_of ''cathedral-verified-policy-hidden-suite-v1'' @ [0] @ b = suite_text t raw"
  unfolding hidden_suite_commitment_def hidden_suite_binding_def
  by (elim bindE_InrE) (auto simp: suite_text_def dest!: pick_values split: if_splits)

lemma hidden_cases_committed:
  "hidden_cases raw t = Inr cs \<Longrightarrow> hidden_suite_commitment (chomp raw) (pt_document t) = Inr (pt_commitment t)"
  unfolding hidden_cases_def by (elim bindE_InrE guardE_InrE) simp

lemma hidden_cases_bind:
  assumes "hidden_cases x t = Inr cs" "hidden_cases y t = Inr ds"
  shows "cs = ds \<or> sha_collision (suite_text t (chomp x)) (suite_text t (chomp y))"
proof -
  obtain b where b: "pt_commitment t = prefixed_digest ''cathedral-verified-policy-hidden-suite-v1'' b"
    "map byte_of ''cathedral-verified-policy-hidden-suite-v1'' @ [0] @ b = suite_text t (chomp x)"
    using suite_commitment_text [OF hidden_cases_committed [OF assms(1)]] by blast
  obtain c where c: "pt_commitment t = prefixed_digest ''cathedral-verified-policy-hidden-suite-v1'' c"
    "map byte_of ''cathedral-verified-policy-hidden-suite-v1'' @ [0] @ c = suite_text t (chomp y)"
    using suite_commitment_text [OF hidden_cases_committed [OF assms(2)]] by blast
  have "cs = ds" if "b = c"
  proof -
    have "suite_text t (chomp x) = suite_text t (chomp y)" using b(2) c(2) that by metis
    then have "chomp x = chomp y" by (simp add: suite_text_def)
    then have "hidden_cases x t = hidden_cases y t" by (simp add: hidden_cases_def open_document_def)
    then show ?thesis using assms by simp
  qed
  moreover have "b = c \<or> sha_collision (suite_text t (chomp x)) (suite_text t (chomp y))"
    using prefixed_digest_inj [OF b(1) [symmetric, unfolded c(1)]] unfolding b(2) c(2) by (metis sha_collision_def)
  ultimately show ?thesis by blast
qed

section \<open>Python equality of documents\<close>

lemma same_value_refl [simp]: "same_value v v"
  by (cases v) (simp_all add: same_value_def)

lemma same_value_text [simp]: "same_value (JStr s) w \<longleftrightarrow> w = JStr s" "same_value JNull w \<longleftrightarrow> w = JNull"
  by (cases w; auto simp: same_value_def)+

lemma py_eq_jsort: "strict_ok v \<Longrightarrow> py_eq v (jsort v)"
proof (induction v rule: strict_ok.induct)
  case (3 vs)
  then have "\<forall>x \<in> set vs. py_eq x (jsort x)" by simp
  then have "list_all (\<lambda>(x, y). py_eq x y) (zip vs (map jsort vs))" by (auto simp: list_all_iff zip_map2 in_set_zip)
  then show ?case by simp
next
  case (4 d)
  have dist: "distinct (map fst d)" using 4(2) by simp
  have "py_eq v (jget (canonical_dict d) k)" if "(k, v) \<in> set d" for k v
  proof -
    have "jget (canonical_dict d) k = jsort v" using jget_canonical [OF dist] that dist by (simp add: jget_def)
    then show ?thesis using 4(1) [OF that] 4(2) that by auto
  qed
  then show ?case by (auto simp: jsort_dict list_all_iff simp del: jsort.simps(2))
qed simp_all

lemma py_eq_keys: "py_eq (JObj d) (JObj e) \<Longrightarrow> fst ` set d = fst ` set e"
  by simp

lemma py_eq_get: "py_eq (JObj d) (JObj e) \<Longrightarrow> (k, v) \<in> set d \<Longrightarrow> py_eq v (jget e k)"
  by (force simp: list_all_iff)

lemma py_eq_simple:
  assumes "py_eq (JObj d) (JObj e)"
    "\<forall>(k, v) \<in> set d. v = JNull \<or> (\<exists>s. v = JStr s) \<or> (\<exists>b b'. v = JBool b \<and> jget e k = JBool b')"
  shows "jget e k = jget d k"
proof (cases "map_of d k")
  case None
  then have "map_of e k = None" using py_eq_keys [OF assms(1)] by (metis map_of_eq_None_iff)
  then show ?thesis using None by (simp add: jget_def)
next
  case (Some v)
  then have v: "(k, v) \<in> set d" by (rule map_of_SomeD)
  then have "v = JNull \<or> (\<exists>s. v = JStr s) \<or> (\<exists>b b'. v = JBool b \<and> jget e k = JBool b')" using assms(2) by blast
  moreover have "jget d k = v" using Some by (simp add: jget_def)
  ultimately show ?thesis using py_eq_get [OF assms(1) v] by (auto simp: same_value_def)
qed

section \<open>An accepted evaluation\<close>

text \<open>What the validator computes from the task, the artifact, the hidden suite and the receipt.\<close>

definition replayed :: "policy_task \<Rightarrow> policy_artifact \<Rightarrow> example list \<Rightarrow> verified_receipt option \<Rightarrow> jdict \<Rightarrow> jdict \<Rightarrow> bool" where
  "replayed t a cs receipt metrics execution =
     (\<exists>m s x. policy_metrics_of t a cs = Inr m \<and> execution_binding t a receipt = Inr x \<and>
        score_decimal (mean_recall a cs (pt_labels t)) = Inr s \<and>
        (\<forall>k. jget metrics k = jget (metrics_document s m (truthy (jget x ''attestation_verified''))) k) \<and>
        (\<forall>k. jget execution k = jget x k))"

lemma evaluate_policy_InrD:
  assumes "evaluate_policy t a suite evaluated_at receipt = Inr d"
  shows "\<exists>cs m s x. hidden_cases suite t = Inr cs \<and> policy_metrics_of t a cs = Inr m \<and> execution_binding t a receipt = Inr x \<and>
    score_decimal (mean_recall a cs (pt_labels t)) = Inr s \<and>
    d = evaluation_document t a cs evaluated_at (metrics_document s m (truthy (jget x ''attestation_verified''))) x"
  using assms unfolding evaluate_policy_def by (elim bindE_InrE) auto

lemma execution_binding_InrD:
  assumes "execution_binding t a receipt = Inr x"
  shows "(receipt = None \<and> x = execution_document None None False False None) \<or>
    (\<exists>r c. receipt = Some r \<and> ve_miner r = pa_miner a \<and> jget (ve_document r) ''network'' = JStr (pt_network t) \<and>
       output_commitment_of (ve_document r) = Inr (JStr c) \<and> commit_payload ''output'' (canonical_json (pa_document a)) = Inr c \<and>
       x = execution_document (Some (ve_receipt_id r)) (Some (ve_request_id r)) True (ve_attested r) (ve_verifier r))"
proof (cases receipt)
  case None
  then show ?thesis using assms by (simp add: execution_binding_def)
next
  case (Some r)
  from assms [unfolded execution_binding_def Some option.case] show ?thesis
    by (elim guardE_InrE bindE_InrE) (simp add: Some)
qed

lemma execution_binding_shape:
  "execution_binding t a receipt = Inr x \<Longrightarrow> \<exists>i q bound attested v. x = execution_document i q bound attested v"
  using execution_binding_InrD by blast

lemma check_execution_flags:
  "check_execution (JObj x) = Inr () \<Longrightarrow>
     \<exists>b c. jget x ''output_commitment_bound'' = JBool b \<and> jget x ''attestation_verified'' = JBool c"
  unfolding check_execution_def require_exact_keys_def by (auto split: json.splits elim!: guardE_InrE)

lemma checked_objects: "check_metrics v = Inr () \<Longrightarrow> \<exists>m. v = JObj m" "check_execution v = Inr () \<Longrightarrow> \<exists>x. v = JObj x"
  by (cases v; simp add: check_metrics_def check_execution_def)+

lemma evaluation_body_InrD:
  assumes "validate_evaluation_body d t a = Inr ()"
  shows "\<exists>m x n. jget d ''metrics'' = JObj m \<and> jget d ''execution'' = JObj x \<and> check_execution (JObj x) = Inr () \<and>
    parse_time (jget d ''evaluated_at'') ''evaluation evaluated_at'' = Inr n"
proof -
  have "check_metrics (jget d ''metrics'') = Inr () \<and> check_execution (jget d ''execution'') = Inr () \<and>
      (\<exists>n. parse_time (jget d ''evaluated_at'') ''evaluation evaluated_at'' = Inr n)"
    using assms unfolding validate_evaluation_body_def by (elim bindE_InrE guardE_InrE) simp
  then show ?thesis using checked_objects by metis
qed

lemma verify_evaluation_parts:
  assumes "verify_evaluation env raw t a suite receipt = Inr e"
  shows "\<exists>d r. open_document raw MAX_EVALUATION_BYTES ''policy evaluation'' evaluation_keys = Inr d \<and>
    validate_evaluation_body d t a = Inr () \<and> check_seal env evaluation_seal (pt_validator t) d = Inr (pe_id e) \<and>
    evaluate_policy t a suite (str_value (jget d ''evaluated_at'')) receipt = Inr r \<and>
    py_eq (JObj r) (JObj (unsigned_part ''evaluation_id'' d)) \<and>
    parse_time (jget d ''evaluated_at'') ''evaluation evaluated_at'' = Inr (pe_evaluated e) \<and>
    pe_network e = pt_network t \<and> pe_netuid e = pt_netuid t \<and> pe_epoch e = pt_epoch t \<and> pe_task e = pt_id t \<and>
    pe_artifact e = pa_id a \<and> pe_miner e = pa_miner a \<and> pe_first e = pt_first t \<and> pe_last e = pt_last t \<and>
    pe_metrics e = sub_object d ''metrics'' \<and> pe_execution e = sub_object d ''execution'' \<and> pe_document e = d"
  using assms unfolding verify_evaluation_def by (elim bindE_InrE guardE_InrE) auto

lemma verify_evaluation_replayed:
  assumes "verify_evaluation env raw t a suite receipt = Inr e"
  shows "\<exists>cs. hidden_cases suite t = Inr cs \<and> replayed t a cs receipt (pe_metrics e) (pe_execution e)"
proof -
  obtain d r where d: "validate_evaluation_body d t a = Inr ()"
    "evaluate_policy t a suite (str_value (jget d ''evaluated_at'')) receipt = Inr r"
    "py_eq (JObj r) (JObj (unsigned_part ''evaluation_id'' d))" "pe_metrics e = sub_object d ''metrics''" "pe_execution e = sub_object d ''execution''"
    using verify_evaluation_parts [OF assms] by blast
  obtain me xe where sub: "jget d ''metrics'' = JObj me" "jget d ''execution'' = JObj xe" "check_execution (JObj xe) = Inr ()"
    using evaluation_body_InrD [OF d(1)] by blast
  obtain cs m s x where ev: "hidden_cases suite t = Inr cs" "policy_metrics_of t a cs = Inr m" "execution_binding t a receipt = Inr x"
    "score_decimal (mean_recall a cs (pt_labels t)) = Inr s"
    "r = evaluation_document t a cs (str_value (jget d ''evaluated_at'')) (metrics_document s m (truthy (jget x ''attestation_verified''))) x"
    using evaluate_policy_InrD [OF d(2)] by blast
  let ?m = "metrics_document s m (truthy (jget x ''attestation_verified''))"
  have member: "(''metrics'', JObj ?m) \<in> set r" "(''execution'', JObj x) \<in> set r" by (simp_all add: ev(5) evaluation_document_def)
  have get: "jget (unsigned_part ''evaluation_id'' d) k = jget d k" if "k \<noteq> ''evaluation_id''" "k \<noteq> ''signature''" for k
    using that without_get [of k "[''evaluation_id'', ''signature'']" d] by (simp add: unsigned_part_def)
  have eq: "py_eq (JObj ?m) (JObj me)" "py_eq (JObj x) (JObj xe)"
    using py_eq_get [OF d(3) member(1)] py_eq_get [OF d(3) member(2)] sub by (simp_all add: get del: py_eq.simps)
  have "jget me k = jget ?m k" for k by (rule py_eq_simple [OF eq(1)]) (simp add: metrics_document_def)
  moreover have "jget xe k = jget x k" for k
  proof -
    obtain i q bound attested v where x: "x = execution_document i q bound attested v" using execution_binding_shape [OF ev(3)] by blast
    show ?thesis
      by (rule py_eq_simple [OF eq(2)])
        (use check_execution_flags [OF sub(3)] in \<open>auto simp: x execution_document_def opt_text_def split: option.splits\<close>)
  qed
  ultimately have "replayed t a cs receipt (pe_metrics e) (pe_execution e)"
    unfolding replayed_def using ev(2-4) by (auto simp: d(4,5) sub_object_def sub)
  then show ?thesis using ev(1) by blast
qed

lemma replayed_unique: "replayed t a cs receipt m x \<Longrightarrow> replayed t a cs receipt m' x' \<Longrightarrow> (\<forall>k. jget m k = jget m' k) \<and> (\<forall>k. jget x k = jget x' k)"
  unfolding replayed_def by auto

text \<open>Full marks for execution come only from an attested receipt of this miner over this artifact.\<close>

lemma replayed_attested:
  assumes "replayed t a cs receipt m x" "jget m ''policy_attested_execution'' = JStr ''1''"
  shows "\<exists>r. receipt = Some r \<and> ve_attested r \<and> ve_miner r = pa_miner a \<and> jget (ve_document r) ''network'' = JStr (pt_network t) \<and>
    (\<exists>c. output_commitment_of (ve_document r) = Inr (JStr c) \<and> commit_payload ''output'' (canonical_json (pa_document a)) = Inr c)"
proof -
  obtain x' where x': "execution_binding t a receipt = Inr x'" "truthy (jget x' ''attestation_verified'')"
    using assms unfolding replayed_def by (auto simp: metrics_document_def jget_def split: if_splits)
  have "x' \<noteq> execution_document None None False False None" using x'(2) by (auto simp: execution_document_def jget_def truthy_def)
  then obtain r c where r: "receipt = Some r" "ve_miner r = pa_miner a" "jget (ve_document r) ''network'' = JStr (pt_network t)"
    "output_commitment_of (ve_document r) = Inr (JStr c)" "commit_payload ''output'' (canonical_json (pa_document a)) = Inr c"
    "x' = execution_document (Some (ve_receipt_id r)) (Some (ve_request_id r)) True (ve_attested r) (ve_verifier r)"
    using execution_binding_InrD [OF x'(1)] by blast
  then have "ve_attested r" using x'(2) by (simp add: execution_document_def jget_def truthy_def)
  then show ?thesis using r by blast
qed

text \<open>Below a floor only the accuracy and the signature count.\<close>

lemma replayed_below_floor:
  assumes "replayed t a cs receipt m x" "below_floor t a cs"
  shows "jget m ''policy_rare_recall'' = JStr ''0'' \<and> jget m ''policy_evidence_faithfulness'' = JStr ''0'' \<and> jget m ''policy_compactness'' = JStr ''0''"
  using assms unfolding replayed_def policy_metrics_of_def
  by (auto simp: metrics_document_def jget_def elim!: bindE_InrE)

end
