(* ===== verification/Policy_Induce.thy ===== *)
theory Policy_Induce
  imports Policy_Artifacts Policy_Evaluate
begin

text \<open>
  The reference miner of the policy drill (\<open>induce_policy\<close> of \<open>cathedral_thin/verified_policy.py\<close>): on
  consistent public examples its rules are pure, it returns an artifact, and the artifact predicts every
  public example and cites only supporting evidence.
\<close>

section \<open>The generalisation keeps a rule pure\<close>

definition consistent :: "example list \<Rightarrow> bool" where
  "consistent es = (\<forall>x \<in> set es. \<forall>y \<in> set es. ex_features x = ex_features y \<longrightarrow> ex_label x = ex_label y)"

definition full_conditions :: "policy_task \<Rightarrow> example \<Rightarrow> (string \<times> json) list" where
  "full_conditions t e = map (\<lambda>f. (f, jget (ex_features e) f)) (pt_features t)"

definition pure_for :: "example list \<Rightarrow> (string \<times> json) list \<Rightarrow> string \<Rightarrow> bool" where
  "pure_for es cs l = (\<forall>x \<in> set es. conditions_match cs (ex_features x) \<longrightarrow> ex_label x = l)"

text \<open>What every step of the greedy loop keeps.\<close>

definition generalizing :: "policy_task \<Rightarrow> example \<Rightarrow> (string \<times> json) list \<Rightarrow> bool" where
  "generalizing t e cs =
     ((\<exists>P. cs = filter (\<lambda>c. P (fst c)) (full_conditions t e)) \<and> cs \<noteq> [] \<and> pure_for (pt_examples t) cs (ex_label e))"

lemma example_features_eq: "map fst (ex_features e) = fn \<Longrightarrow> distinct fn \<Longrightarrow> ex_features e = map (\<lambda>f. (f, jget (ex_features e) f)) fn"
proof -
  have "xs = map (\<lambda>f. (f, jget xs f)) (map fst xs)" if "distinct (map fst xs)" for xs :: jdict
    using that
  proof (induction xs)
    case (Cons x xs)
    have new: "fst x \<notin> set (map fst xs)" using Cons.prems by simp
    have "jget (x # xs) f = jget xs f" if "f \<in> set (map fst xs)" for f
    proof -
      have "f \<noteq> fst x" using that new by metis
      then show ?thesis by (cases x) (simp add: jget_def)
    qed
    then have tail: "map (\<lambda>f. (f, jget (x # xs) f)) (map fst xs) = map (\<lambda>f. (f, jget xs f)) (map fst xs)"
      by (intro map_cong refl) simp
    have head: "(fst x, jget (x # xs) (fst x)) = x" by (cases x) (simp add: jget_def)
    have "map (\<lambda>f. (f, jget (x # xs) f)) (map fst (x # xs)) = x # map (\<lambda>f. (f, jget xs f)) (map fst xs)"
      unfolding list.map(2) head tail by (rule refl)
    also have "\<dots> = x # xs" using Cons by simp
    finally show ?case by (rule sym)
  qed simp
  then show "map fst (ex_features e) = fn \<Longrightarrow> distinct fn \<Longrightarrow> ex_features e = map (\<lambda>f. (f, jget (ex_features e) f)) fn" by metis
qed

lemma task_features: "task_ok t \<Longrightarrow> e \<in> set (pt_examples t) \<Longrightarrow> ex_features e = full_conditions t e"
  using example_features_eq [of e "pt_features t"] sorted_uniqueD [of "pt_features t"]
  by (simp add: task_ok_def examples_ok_def full_conditions_def)

lemma full_match: "conditions_match (full_conditions t e) fs \<longleftrightarrow> (\<forall>f \<in> set (pt_features t). jget fs f = jget (ex_features e) f)"
  by (simp add: conditions_match_def full_conditions_def condition_matches_def list_all_iff)

lemma full_generalizing:
  assumes t: "task_ok t" and e: "e \<in> set (pt_examples t)" and c: "consistent (pt_examples t)"
  shows "generalizing t e (full_conditions t e)"
proof -
  have "ex_label x = ex_label e" if x: "x \<in> set (pt_examples t)" "conditions_match (full_conditions t e) (ex_features x)" for x
  proof -
    have "full_conditions t x = full_conditions t e" using x(2) by (simp add: full_match) (simp add: full_conditions_def)
    then have "ex_features x = ex_features e" using task_features [OF t x(1)] task_features [OF t e] by simp
    then show ?thesis using c x(1) e unfolding consistent_def by blast
  qed
  moreover have "full_conditions t e \<noteq> []" using t by (simp add: full_conditions_def task_ok_def)
  moreover have "\<exists>P. full_conditions t e = filter (\<lambda>c. P (fst c)) (full_conditions t e)" by (intro exI [of _ "\<lambda>f. True"]) simp
  ultimately show ?thesis unfolding generalizing_def pure_for_def by blast
qed

lemma drop_generalizing:
  assumes "generalizing t e cs"
  shows "generalizing t e (drop_feature (pt_examples t) (ex_label e) cs f)"
proof (cases "drop_feature (pt_examples t) (ex_label e) cs f = cs")
  case False
  let ?trial = "filter (\<lambda>c. fst c \<noteq> f) cs"
  have d: "drop_feature (pt_examples t) (ex_label e) cs f = ?trial" "?trial \<noteq> []"
    "ex_label ` set (matched_examples (pt_examples t) ?trial) = {ex_label e}"
    using False by (auto simp: drop_feature_def Let_def split: if_splits)
  obtain P where "cs = filter (\<lambda>c. P (fst c)) (full_conditions t e)" using assms by (auto simp: generalizing_def)
  then have "\<exists>Q. ?trial = filter (\<lambda>c. Q (fst c)) (full_conditions t e)" by (intro exI [of _ "\<lambda>g. P g \<and> g \<noteq> f"]) simp
  moreover have "pure_for (pt_examples t) ?trial (ex_label e)" using d(3) by (auto simp: pure_for_def matched_examples_def)
  ultimately show ?thesis using d unfolding generalizing_def by metis
qed (use assms in simp)

lemma generalize_generalizing:
  assumes "task_ok t" "e \<in> set (pt_examples t)" "consistent (pt_examples t)"
  shows "generalizing t e (generalize t e)"
proof -
  have "generalizing t e (foldl (drop_feature (pt_examples t) (ex_label e)) cs fs)" if "generalizing t e cs" for cs fs
    using that by (induction fs arbitrary: cs) (simp_all add: drop_generalizing)
  from this [OF full_generalizing [OF assms]] show ?thesis unfolding generalize_def full_conditions_def .
qed

lemma generalize_matches: "generalizing t e cs \<Longrightarrow> conditions_match cs (ex_features e)"
  by (auto simp: generalizing_def conditions_match_def full_conditions_def condition_matches_def list_all_iff)

section \<open>The candidates\<close>

lemma canonical_json_inj:
  assumes "canonical_json d = canonical_json e" "strict_ok (JObj d)" "strict_ok (JObj e)"
  shows "canonical_dict d = canonical_dict e"
  using parse_canonical_dict [OF assms(2) order_refl] parse_canonical_dict [OF assms(3) order_refl] assms(1) by (metis Inr_inject)

definition plain_conditions :: "(string \<times> json) list \<Rightarrow> bool" where
  "plain_conditions cs = (\<forall>(f, v) \<in> set cs. scalar_value v)"

lemma when_json_strict: "plain_conditions cs \<Longrightarrow> strict_ok (when_json cs)"
  by (force simp: plain_conditions_def when_json_def dest: scalar_value_plain)

lemma when_json_sorted: "plain_conditions cs \<Longrightarrow>
    jsort (when_json cs) = JArr (map (\<lambda>(f, v). JObj [(''equals'', v), (''feature'', JStr f)]) cs)"
  by (auto simp: plain_conditions_def when_json_def sort_items_def dest!: bspec scalar_value_plain)

lemma candidate_key_inj:
  assumes "candidate_key c = candidate_key c'" "plain_conditions (ca_when c)" "plain_conditions (ca_when c')"
  shows "ca_when c = ca_when c' \<and> ca_then c = ca_then c'"
proof -
  let ?d = "\<lambda>c. [(''when'', when_json (ca_when c)), (''then'', JStr (ca_then c))]"
  have "strict_ok (JObj (?d c))" "strict_ok (JObj (?d c'))" using when_json_strict assms(2,3) by simp_all
  then have eq: "canonical_dict (?d c) = canonical_dict (?d c')" by (intro canonical_json_inj assms(1) [unfolded candidate_key_def])
  have dist: "distinct (map fst (?d c))" for c by simp
  have "jsort (jget (?d c) k) = jsort (jget (?d c') k)" for k
    using jget_canonical [OF dist, of c k] jget_canonical [OF dist, of c' k] eq by simp
  from this [of "''when''"] this [of "''then''"] have w: "jsort (when_json (ca_when c)) = jsort (when_json (ca_when c'))"
    and "ca_then c = ca_then c'" by (simp_all add: jget_def del: jsort.simps(1,2))
  moreover have "inj (\<lambda>(f, v). JObj [(''equals'', v), (''feature'', JStr f)])" by (auto simp: inj_def)
  then have "ca_when c = ca_when c'"
    using w unfolding when_json_sorted [OF assms(2)] when_json_sorted [OF assms(3)] by (simp add: inj_map_eq_map)
  ultimately show ?thesis by blast
qed

lemma candidates_fold:
  fixes key :: "'c \<Rightarrow> 'k"
  shows "set (map snd (foldl (\<lambda>d e. let c = f e in dict_set (key c) c d) d es)) \<subseteq> set (map snd d) \<union> f ` set es \<and>
    fst ` set (foldl (\<lambda>d e. let c = f e in dict_set (key c) c d) d es) = fst ` set d \<union> (\<lambda>e. key (f e)) ` set es \<and>
    ((\<forall>(k, c) \<in> set d. k = key c) \<longrightarrow> (\<forall>(k, c) \<in> set (foldl (\<lambda>d e. let c = f e in dict_set (key c) c d) d es). k = key c))"
proof (induction es arbitrary: d)
  case (Cons e es)
  let ?d = "dict_set (key (f e)) (f e) d"
  have sub: "set (map snd ?d) \<subseteq> insert (f e) (set (map snd d))" using set_dict_set [of "key (f e)" "f e" d] by auto
  have keys: "fst ` set ?d = insert (key (f e)) (fst ` set d)" by simp
  have own: "\<forall>(k, c) \<in> set ?d. k = key c" if "\<forall>(k, c) \<in> set d. k = key c"
    using that set_dict_set [of "key (f e)" "f e" d] by auto
  note ih = Cons.IH [of ?d]
  show ?case unfolding foldl_Cons Let_def list.set(2) image_insert
  proof (intro conjI impI)
    show "set (map snd (foldl (\<lambda>d e. dict_set (key (f e)) (f e) d) ?d es)) \<subseteq> set (map snd d) \<union> insert (f e) (f ` set es)"
      using subset_trans [OF conjunct1 [OF ih, unfolded Let_def] Un_mono [OF sub subset_refl]] by blast
    show "fst ` set (foldl (\<lambda>d e. dict_set (key (f e)) (f e) d) ?d es) = fst ` set d \<union> insert (key (f e)) ((\<lambda>e. key (f e)) ` set es)"
      unfolding conjunct1 [OF conjunct2 [OF ih, unfolded Let_def]] keys by blast
    show "\<forall>(k, c) \<in> set (foldl (\<lambda>d e. dict_set (key (f e)) (f e) d) ?d es). k = key c" if "\<forall>(k, c) \<in> set d. k = key c"
      using conjunct2 [OF conjunct2 [OF ih, unfolded Let_def]] own [OF that] by blast
  qed
qed simp

lemma candidate_of_plain:
  assumes "task_ok t" "e \<in> set (pt_examples t)" "consistent (pt_examples t)"
  shows "plain_conditions (ca_when (candidate_of t e))"
proof -
  have "\<forall>(f, v) \<in> set (ex_features e). scalar_value v" using assms(1,2) by (simp add: task_ok_def examples_ok_def)
  then have "plain_conditions (full_conditions t e)" unfolding plain_conditions_def using task_features [OF assms(1,2)] by simp
  then show ?thesis using generalize_generalizing [OF assms]
    by (auto simp: candidate_of_def Let_def generalizing_def plain_conditions_def)
qed

lemma candidate_for:
  assumes "task_ok t" "e \<in> set (pt_examples t)" "consistent (pt_examples t)"
  shows "\<exists>c \<in> set (map snd (candidates t)). ca_when c = ca_when (candidate_of t e) \<and> ca_then c = ex_label e"
proof -
  note f = candidates_fold [of "candidate_of t" candidate_key "[]" "pt_examples t", folded candidates_def]
  have "candidate_key (candidate_of t e) \<in> fst ` set (candidates t)" using f assms(2) by simp
  then obtain c where c: "(candidate_key (candidate_of t e), c) \<in> set (candidates t)" by auto
  then have key: "candidate_key c = candidate_key (candidate_of t e)" using f by auto
  have "c \<in> set (map snd (candidates t))" using c by force
  moreover then obtain e' where "e' \<in> set (pt_examples t)" "c = candidate_of t e'" using f by auto
  then have "ca_when c = ca_when (candidate_of t e) \<and> ca_then c = ca_then (candidate_of t e)"
    using candidate_key_inj [OF key] candidate_of_plain assms by blast
  moreover have "ca_then (candidate_of t e) = ex_label e" by (simp add: candidate_of_def Let_def)
  ultimately show ?thesis by auto
qed

lemma candidates_subset: "set (map snd (candidates t)) \<subseteq> candidate_of t ` set (pt_examples t)"
  using candidates_fold [of "candidate_of t" candidate_key "[]" "pt_examples t", folded candidates_def] by simp

section \<open>The induced rules are accepted\<close>

definition candidate_ok :: "policy_task \<Rightarrow> candidate \<Rightarrow> bool" where
  "candidate_ok t c =
     (plain_conditions (ca_when c) \<and> sorted_unique (map fst (ca_when c)) \<and> 1 \<le> length (ca_when c) \<and>
      length (ca_when c) \<le> MAX_CONDITIONS \<and> fst ` set (ca_when c) \<subseteq> set (pt_features t) \<and> ca_then c \<in> set (pt_labels t) \<and>
      sorted_unique (ca_support c) \<and> list_all policy_id (ca_support c) \<and> length (ca_support c) \<le> MAX_EXAMPLES)"

lemma sorted_uniqueI: "sorted xs \<Longrightarrow> distinct xs \<Longrightarrow> sorted_unique xs"
  unfolding sorted_unique_def by (simp add: sorted_list_of_set.idem_if_sorted_distinct)

lemma candidate_of_ok:
  assumes t: "task_ok t" and e: "e \<in> set (pt_examples t)" and c: "consistent (pt_examples t)"
  shows "candidate_ok t (candidate_of t e)"
proof -
  let ?cs = "generalize t e" and ?ms = "filter (\<lambda>x. ex_label x = ex_label e) (matched_examples (pt_examples t) (generalize t e))"
  obtain P where cs: "?cs = filter (\<lambda>c. P (fst c)) (full_conditions t e)" "?cs \<noteq> []"
    using generalize_generalizing [OF assms] by (auto simp: generalizing_def)
  have names: "map fst ?cs = filter P (pt_features t)"
    unfolding cs(1) by (simp add: filter_map comp_def full_conditions_def)
  have f: "sorted (pt_features t) \<and> distinct (pt_features t)" "length (pt_features t) \<le> MAX_FEATURES"
    using t sorted_uniqueD by (auto simp: task_ok_def)
  have "sorted_unique (map fst ?cs)" unfolding names using f(1) by (intro sorted_uniqueI) (simp_all add: sorted_wrt_filter)
  moreover have "length ?cs \<le> MAX_CONDITIONS"
  proof -
    have "length ?cs = length (filter P (pt_features t))" using names by (metis length_map)
    also have "\<dots> \<le> length (pt_features t)" by (rule length_filter_le)
    finally show ?thesis using f(2) by (simp add: MAX_FEATURES_def MAX_CONDITIONS_def)
  qed
  moreover have "fst ` set ?cs \<subseteq> set (pt_features t)" using names by (metis filter_is_subset set_map)
  moreover have ids: "set (map ex_id ?ms) \<subseteq> ex_id ` set (pt_examples t)" "distinct (map ex_id ?ms)" "length ?ms \<le> length (pt_examples t)"
  proof -
    show "set (map ex_id ?ms) \<subseteq> ex_id ` set (pt_examples t)" by (auto simp: matched_examples_def)
    have "distinct (map ex_id (pt_examples t))" using t by (simp add: task_ok_def examples_ok_def)
    then show "distinct (map ex_id ?ms)" by (simp add: matched_examples_def distinct_map_filter)
    show "length ?ms \<le> length (pt_examples t)" unfolding matched_examples_def by (meson length_filter_le order_trans)
  qed
  moreover have "policy_id i" if "i \<in> ex_id ` set (pt_examples t)" for i using t that by (auto simp: task_ok_def examples_ok_def)
  then have "list_all policy_id (map ex_id ?ms)" using ids(1) by (auto simp: list_all_iff)
  moreover have "ex_label e \<in> set (pt_labels t)" "length (pt_examples t) \<le> MAX_EXAMPLES"
    using t e by (auto simp: task_ok_def examples_ok_def)
  ultimately show ?thesis
    using candidate_of_plain [OF assms] cs(2)
    by (simp add: candidate_ok_def candidate_of_def Let_def sorted_uniqueI list_all_iff Suc_le_eq del: set_map)
qed

lemma rule_name_inj: "rule_name m = rule_name n \<Longrightarrow> m = n"
proof -
  have "digits_value (padded 4 k) = k" for k unfolding padded_def by (simp add: digits_value_padded)
  then show "rule_name m = rule_name n \<Longrightarrow> m = n" unfolding rule_name_def by (metis same_append_eq)
qed

lemma rule_name_id: "n < 10000 \<Longrightarrow> policy_id (rule_name n)"
proof -
  assume n: "n < 10000"
  have "length (padded 4 n) = 4" "list_all is_digit (padded 4 n)" using n by (simp_all add: padded_ok)
  moreover have "is_lower CHR ''r''" "is_lower CHR ''u''" "is_lower CHR ''l''" "is_lower CHR ''e''" "code CHR ''-'' = 45"
    by (simp_all add: is_lower_def code_def)
  ultimately show ?thesis by (simp add: policy_id_def rule_name_def list_all_iff)
qed

definition rule_of :: "nat \<times> candidate \<Rightarrow> rule" where
  "rule_of nc = \<lparr>ru_id = rule_name (fst nc), ru_when = ca_when (snd nc), ru_then = ca_then (snd nc), ru_support = ca_support (snd nc)\<rparr>"

lemma when_json_conditions:
  assumes t: "task_ok t" and c: "plain_conditions cs" "sorted_unique (map fst cs)" "1 \<le> length cs" "length cs \<le> MAX_CONDITIONS"
    "fst ` set cs \<subseteq> set (pt_features t)"
  shows "rule_conditions t (when_json cs) = Inr cs"
proof -
  have one: "rule_condition t (JObj [(''feature'', JStr f), (''equals'', v)]) = Inr (f, v)" if "f \<in> set (pt_features t)" "scalar_value v" for f v
  proof -
    have "policy_id f" using t that(1) by (simp add: task_ok_def list_all_iff)
    moreover have "keys_are [(''feature'', JStr f), (''equals'', v)] condition_keys" by (auto simp: keys_are_def condition_keys_def)
    moreover have "scalar v l = Inr v" for l using that(2) by (simp add: scalar_Inr)
    ultimately show ?thesis using that(1) by (simp add: rule_condition_def require_exact_keys_def jget_def policy_identifier_def)
  qed
  have "mapE (rule_condition t) (map (\<lambda>(f, v). JObj [(''feature'', JStr f), (''equals'', v)]) cs) = Inr cs"
    using c(1,5) by (induction cs) (auto simp: one plain_conditions_def)
  then show ?thesis using c by (simp add: rule_conditions_def when_json_def)
qed

lemma strs_of_strings [simp]: "strs_of (map JStr xs) = xs"
  by (induction xs) (simp_all add: strs_of_def)

lemma induced_row:
  assumes t: "task_ok t" and c: "candidate_ok t c" and n: "n < 10000" "rule_name n \<notin> ru_id ` set seen"
  shows "rule_row t seen (JObj ((''rule_id'', JStr (rule_name n)) # candidate_row c)) = Inr (seen @ [rule_of (n, c)])"
proof -
  let ?row = "(''rule_id'', JStr (rule_name n)) # candidate_row c"
  have "keys_are ?row rule_keys" by (auto simp: keys_are_def rule_keys_def candidate_row_def)
  moreover have "jget ?row ''rule_id'' = JStr (rule_name n)" "jget ?row ''when'' = when_json (ca_when c)" "jget ?row ''then'' = JStr (ca_then c)"
    "jget ?row ''support_example_ids'' = strings (ca_support c)" by (simp_all add: jget_def candidate_row_def)
  moreover have "rule_conditions t (when_json (ca_when c)) = Inr (ca_when c)"
    using c by (intro when_json_conditions [OF t]) (simp_all add: candidate_ok_def)
  moreover have "policy_id (ca_then c)" using t c by (auto simp: task_ok_def candidate_ok_def list_all_iff)
  moreover have "sorted_unique_texts policy_id 0 MAX_EXAMPLES (strings (ca_support c)) = Some (ca_support c)"
    using c by (simp add: sorted_unique_texts_def strings_def candidate_ok_def sorted_unique_def Let_def)
  ultimately show ?thesis using rule_name_id [OF n(1)] n(2) c
    by (simp add: rule_row_def require_exact_keys_def policy_identifier_def candidate_ok_def rule_of_def)
qed

lemma induced_rows:
  assumes t: "task_ok t" and c: "\<forall>c \<in> set cs. candidate_ok t c" and n: "n + length cs < 10000" "ru_id ` set seen \<subseteq> rule_name ` {..<n}"
  shows "foldE (rule_row t) seen (map JObj (map (\<lambda>(n, c). (''rule_id'', JStr (rule_name n)) # candidate_row c) (enumerate n cs)))
    = Inr (seen @ map rule_of (enumerate n cs))"
  using c n
proof (induction cs arbitrary: n seen)
  case (Cons c cs)
  have "rule_name n \<notin> rule_name ` {..<n}" using rule_name_inj by auto
  then have "rule_name n \<notin> ru_id ` set seen" using Cons.prems(3) by blast
  then have row: "rule_row t seen (JObj ((''rule_id'', JStr (rule_name n)) # candidate_row c)) = Inr (seen @ [rule_of (n, c)])"
    using Cons.prems by (intro induced_row [OF t]) simp_all
  have "ru_id ` set (seen @ [rule_of (n, c)]) \<subseteq> rule_name ` {..<Suc n}" using Cons.prems(3) by (auto simp: rule_of_def)
  then have "foldE (rule_row t) (seen @ [rule_of (n, c)]) (map JObj (map (\<lambda>(n, c). (''rule_id'', JStr (rule_name n)) # candidate_row c)
      (enumerate (Suc n) cs))) = Inr ((seen @ [rule_of (n, c)]) @ map rule_of (enumerate (Suc n) cs))"
    using Cons.prems by (intro Cons.IH) simp_all
  then show ?case by (simp add: row)
qed simp

text \<open>The rules the reference miner ends with.\<close>

definition induced :: "policy_task \<Rightarrow> rule list" where
  "induced t = map rule_of (enumerate 1 (sort_key (candidate_rank t) (map snd (candidates t))))"

lemma induced_normalize:
  assumes "task_ok t" "consistent (pt_examples t)" "length (candidates t) \<le> MAX_RULES"
  shows "normalize_rules (JArr (map JObj (induced_rules t))) t = Inr (induced t)"
proof -
  have "\<forall>c \<in> set (sort_key (candidate_rank t) (map snd (candidates t))). candidate_ok t c"
    using candidates_subset [of t] candidate_of_ok assms(1,2) by auto
  from induced_rows [OF assms(1) this, of 1 "[]"] assms(3) show ?thesis
    by (simp add: normalize_rules_def induced_rules_def induced_def MAX_RULES_def)
qed

lemma majority_label_in: "task_ok t \<Longrightarrow> majority_label t \<in> set (pt_labels t)"
proof -
  assume "task_ok t"
  then have "sort_key f (pt_labels t) \<noteq> []" for f :: "string \<Rightarrow> int \<times> string" by (auto simp: task_ok_def simp flip: length_greater_0_conv)
  then have "hd (sort_key f (pt_labels t)) \<in> set (sort_key f (pt_labels t))" for f :: "string \<Rightarrow> int \<times> string" by (rule list.set_sel)
  then show ?thesis by (simp add: majority_label_def)
qed

lemma induce_returns:
  assumes t: "task_ok t" and c: "consistent (pt_examples t)" "length (candidates t) \<le> MAX_RULES"
    and time: "\<And>l. parse_time (JStr created_at) l = Inr n" "pt_issued t \<le> n"
  shows "induce_policy t created_at = Inr (artifact_document t (induced_rules t) (majority_label t) created_at)"
proof -
  let ?d = "artifact_document t (induced_rules t) (majority_label t) created_at"
  have get: "jget ?d ''schema'' = JStr ''cathedral_verified_policy_artifact_v1''" "jget ?d ''task_id'' = JStr (pt_id t)"
    "jget ?d ''miner_hotkey'' = JStr (pt_miner t)" "jget ?d ''created_at'' = JStr created_at"
    "jget ?d ''rules'' = JArr (map JObj (induced_rules t))" "jget ?d ''default_label'' = JStr (majority_label t)"
    by (simp_all add: artifact_document_def jget_def)
  have "policy_id (majority_label t)" using majority_label_in [OF t] t by (simp add: task_ok_def list_all_iff)
  then have "validate_artifact_body ?d t = Inr ()"
    using time majority_label_in [OF t]
    by (simp add: validate_artifact_body_def get induced_normalize [OF t c] policy_identifier_def)
  then show ?thesis by (simp add: induce_policy_def make_artifact_def Let_def)
qed

section \<open>The induced policy fits the examples\<close>

lemma first_match_pure:
  "(\<And>r. r \<in> set rs \<Longrightarrow> rule_matches r fs \<Longrightarrow> ru_then r = l) \<Longrightarrow> \<exists>r \<in> set rs. rule_matches r fs \<Longrightarrow> first_match rs dflt fs = l"
  by (induction rs) auto

lemma induced_candidates: "set (induced t) = rule_of ` set (enumerate 1 (sort_key (candidate_rank t) (map snd (candidates t))))"
  by (simp add: induced_def)

lemma induced_rule:
  assumes "task_ok t" "consistent (pt_examples t)" "r \<in> set (induced t)"
  shows "\<exists>e \<in> set (pt_examples t). ru_when r = generalize t e \<and> ru_then r = ex_label e \<and> ru_support r = ca_support (candidate_of t e)"
proof -
  obtain n c where nc: "(n, c) \<in> set (enumerate 1 (sort_key (candidate_rank t) (map snd (candidates t))))" "r = rule_of (n, c)"
    using assms(3) unfolding induced_candidates by auto
  have "c \<in> set (map snd (enumerate 1 (sort_key (candidate_rank t) (map snd (candidates t)))))"
    unfolding set_map by (rule image_eqI [OF _ nc(1)]) simp
  then have "c \<in> set (map snd (candidates t))" by (simp only: map_snd_enumerate set_sort)
  then obtain e where "e \<in> set (pt_examples t)" "c = candidate_of t e" using candidates_subset [of t] by auto
  then show ?thesis using nc(2) by (auto simp: rule_of_def candidate_of_def Let_def)
qed

lemma induced_predicts:
  assumes "task_ok t" "consistent (pt_examples t)" "e \<in> set (pt_examples t)"
  shows "first_match (induced t) fallback (ex_features e) = ex_label e"
proof (rule first_match_pure)
  fix r assume r: "r \<in> set (induced t)" "rule_matches r (ex_features e)"
  then obtain e' where e': "e' \<in> set (pt_examples t)" "ru_when r = generalize t e'" "ru_then r = ex_label e'"
    using induced_rule [OF assms(1,2)] by blast
  then show "ru_then r = ex_label e"
    using generalize_generalizing [OF assms(1) e'(1) assms(2)] assms(3) r(2)
    by (auto simp: generalizing_def pure_for_def rule_matches_def)
next
  obtain c where c: "c \<in> set (map snd (candidates t))" "ca_when c = generalize t e"
    using candidate_for [OF assms(1,3,2)] by (auto simp: candidate_of_def Let_def)
  then have "c \<in> set (sort_key (candidate_rank t) (map snd (candidates t)))" by simp
  then obtain i where "i < length (sort_key (candidate_rank t) (map snd (candidates t)))" "sort_key (candidate_rank t) (map snd (candidates t)) ! i = c"
    by (metis in_set_conv_nth)
  then have "(1 + i, c) \<in> set (enumerate 1 (sort_key (candidate_rank t) (map snd (candidates t))))" by (force simp: in_set_enumerate_eq)
  then have "rule_of (1 + i, c) \<in> set (induced t)" unfolding induced_candidates by blast
  moreover have "rule_matches (rule_of (1 + i, c)) (ex_features e)"
    using generalize_matches [OF generalize_generalizing [OF assms(1,3,2)]] c(2) by (simp add: rule_matches_def rule_of_def)
  ultimately show "\<exists>r \<in> set (induced t). rule_matches r (ex_features e)" by blast
qed

lemma canonical_one: "canonical_decimal (1000000000000, 12) = Inr ''1''"
proof -
  have d: "digit_char 0 = CHR ''0''" "digit_char 1 = CHR ''1''" by code_simp+
  have "nat_str 1000000000000 = ''1000000000000''" by (simp add: nat_str.simps d [simplified])
  then have "fixed_text (1000000000000, 12) = ''1.000000000000''" by (simp add: fixed_text_def Let_def)
  moreover have "rstrip_char CHR ''.'' (rstrip_char CHR ''0'' ''1.000000000000'') = ''1''" "decimal_text ''1'' \<noteq> None" by code_simp+
  ultimately show ?thesis by (simp add: canonical_decimal_def Let_def guardE_def)
qed

lemma score_decimal_one: "score_decimal 1 = Inr ''1''"
proof -
  have "(1 :: rat) * 10 ^ 12 = of_int 1000000000000" by simp
  then have "round_half_even ((1 :: rat) * 10 ^ 12) = 1000000000000" by (simp only: rhe_of_int)
  then show ?thesis unfolding score_decimal_def by (simp only: canonical_one)
qed

lemma ratio_one: "0 < n \<Longrightarrow> ratio n n = Inr ''1''"
  by (simp add: ratio_def d_div_def score_decimal_one)

lemma cited_example_unique:
  assumes "distinct (map ex_id (pt_examples t))" "x \<in> set (pt_examples t)"
  shows "cited_example t (ex_id x) = Some x"
proof -
  have "map_of (rev (map (\<lambda>e. (ex_id e, e)) (pt_examples t))) = map_of (map (\<lambda>e. (ex_id e, e)) (pt_examples t))"
    using assms(1) by (intro map_of_inject_set [THEN iffD2]) (simp_all add: comp_def rev_map [symmetric])
  then show ?thesis using assms by (simp add: cited_example_def comp_def)
qed

lemma induced_supported:
  assumes "task_ok t" "consistent (pt_examples t)" "r \<in> set (induced t)"
  shows "rule_supported t r"
proof -
  obtain e where e: "e \<in> set (pt_examples t)" "ru_when r = generalize t e" "ru_then r = ex_label e"
    "ru_support r = ca_support (candidate_of t e)" using induced_rule [OF assms] by blast
  let ?ms = "filter (\<lambda>x. ex_label x = ex_label e) (matched_examples (pt_examples t) (generalize t e))"
  have support: "ru_support r = sort (map ex_id ?ms)" by (simp add: e(4) candidate_of_def Let_def)
  have members: "x \<in> set ?ms \<longleftrightarrow> x \<in> set (pt_examples t) \<and> conditions_match (generalize t e) (ex_features x) \<and> ex_label x = ex_label e" for x
    unfolding matched_examples_def set_filter by blast
  have "e \<in> set ?ms"
    unfolding members using e(1) generalize_matches [OF generalize_generalizing [OF assms(1) e(1) assms(2)]] by blast
  then have "ex_id e \<in> set (ru_support r)" unfolding support set_sort set_map by (rule imageI)
  then have ne: "ru_support r \<noteq> []" by (metis empty_iff list.set(1))
  have dist: "distinct (map ex_id (pt_examples t))" using assms(1) unfolding task_ok_def examples_ok_def by blast
  have cited: "case cited_example t i of None \<Rightarrow> False | Some x \<Rightarrow> ex_label x = ru_then r \<and> rule_matches r (ex_features x)"
    if i: "i \<in> set (ru_support r)" for i
  proof -
    obtain x where x: "x \<in> set ?ms" "i = ex_id x" using i unfolding support set_sort set_map by blast
    have "cited_example t i = Some x" unfolding x(2) by (rule cited_example_unique [OF dist]) (use x(1) members in blast)
    then show ?thesis using x(1) members e(2,3) by (simp add: rule_matches_def)
  qed
  then show ?thesis using ne unfolding rule_supported_def list_all_iff by blast
qed

lemma induced_faithful:
  assumes "task_ok t" "consistent (pt_examples t)" "pa_rules a = induced t"
  shows "evidence_faithfulness t a = Inr ''1''"
proof -
  obtain e where "e \<in> set (pt_examples t)" using assms(1) by (cases "pt_examples t") (auto simp: task_ok_def)
  from candidate_for [OF assms(1) this assms(2)] have "candidates t \<noteq> []" by auto
  then have "induced t \<noteq> []" by (auto simp: induced_def simp flip: length_greater_0_conv)
  moreover have "filter (rule_supported t) (induced t) = induced t" using induced_supported [OF assms(1,2)] by (simp add: filter_id_conv)
  ultimately show ?thesis by (simp add: evidence_faithfulness_def assms(3) ratio_one)
qed

end
