(* ===== verification/Policy_Exchange.thy ===== *)
theory Policy_Exchange
  imports Policy_Evaluations Policy_Induce
begin

text \<open>
  The exchange of the policy drill (\<open>cathedral_thin/verified_policy.py\<close>): for an accepted task and artifact
  and the suite the task commits to, the evaluation is computed, signed and accepted again by the replay.
\<close>

section \<open>The values of an accepted task\<close>

definition task_stored :: "policy_task \<Rightarrow> bool" where
  "task_stored t = (natural64 (pt_netuid t) \<and> natural64 (pt_epoch t) \<and> natural64 (pt_first t) \<and> natural64 (pt_last t) \<and>
     sha_digest_text (pt_commitment t))"

lemma task_value_fields:
  assumes "task_value d i n = Inr t"
  shows "pt_netuid t = int_field (jget d ''netuid'') \<and> pt_epoch t = int_field (jget d ''source_epoch'') \<and>
    pt_first t = int_field (jget d ''valid_from_block'') \<and> pt_last t = int_field (jget d ''valid_until_block'') \<and>
    pt_commitment t = str_value (jget d ''hidden_suite_commitment'') \<and> pt_validator t = str_value (jget d ''validator_hotkey'') \<and>
    pt_network t = str_value (jget d ''network'') \<and> pt_miner t = str_value (jget d ''miner_hotkey'') \<and> pt_issued t = n \<and> pt_id t = i"
  using assms unfolding task_value_def Let_def by (auto elim!: bindE_InrE)

lemma verify_task_stored:
  assumes "verify_task env raw x now = Inr t"
  shows "task_ok t \<and> task_stored t \<and> sealed env task_seal (pt_validator t) (pt_document t)"
proof -
  obtain d issued where d: "open_document raw MAX_TASK_BYTES ''verified policy task'' task_keys = Inr d" "validate_task_body d = Inr ()"
    "check_seal env task_seal (str_value (jget d ''validator_hotkey'')) d = Inr (pt_id t)" "task_value d (pt_id t) issued = Inr t" "pt_document t = d"
    using verify_task_parts [OF assms] by blast
  note fields = task_value_fields [OF d(4)]
  have strict: "strict_ok (JObj d)" using open_document_InrD [OF d(1)] by blast
  have header: "task_header d = Inr ()" and commitment: "\<exists>c. sha_digest (jget d ''hidden_suite_commitment'') ''hidden suite commitment'' = Inr c"
    using d(2) unfolding validate_task_body_def by (elim bindE_InrE; simp split: prod.splits)+
  have num: "\<exists>n l. natural_int (jget d k) l = Inr n" if "k \<in> {''netuid'', ''source_epoch'', ''valid_from_block'', ''valid_until_block''}" for k
    using header that unfolding task_header_def party_key_def by (elim bindE_InrE guardE_InrE) auto
  have nat: "natural64 (int_field (jget d k))" if "k \<in> {''netuid'', ''source_epoch'', ''valid_from_block'', ''valid_until_block''}" for k
    using num [OF that] strict_get [OF strict, of k] by (auto simp: natural_int_Inr int_field_def natural64_def int64_def)
  have "sha_digest_text (str_value (jget d ''hidden_suite_commitment''))" using commitment by (auto simp: sha_digest_Inr str_value_def)
  moreover have "sealed env task_seal (pt_validator t) d" using opened_sealed [OF d(1,3)] fields by simp
  ultimately show ?thesis using nat task_value_ok [OF d(2,4)] d(5) by (simp add: task_stored_def fields)
qed

text \<open>The ids of an accepted receipt are digests.\<close>

definition receipt_named :: "verified_receipt \<Rightarrow> bool" where
  "receipt_named r = (sha_digest_text (ve_receipt_id r) \<and> sha_digest_text (ve_request_id r) \<and>
     (\<forall>v. ve_verifier r = Some v \<longrightarrow> sha_digest_text v))"

lemma verify_receipt_named:
  assumes "verify_receipt env raw p now di = Inr r"
  shows "receipt_named r"
proof -
  have ok: "receipt_ok env raw p now di r" by (rule verify_receipt_ok [OF assms])
  then have ids: "ve_receipt_id r = receipt_id_for (ve_document r)" "request_bound p di r" unfolding receipt_ok_def Let_def by blast+
  then have "sha_digest_text (ve_receipt_id r)" "sha_digest_text (ve_request_id r)"
    unfolding request_bound_def receipt_id_for_def request_id_for_def by (auto simp: sha_digest_text_sha)
  moreover obtain d h completed c rid w where parts: "validate_policy p = Inr ()" "r = verified_from d h completed c rid w"
    using verify_receipt_parts [OF assms] by blast
  have "sha_digest_text v" if v: "ve_verifier r = Some v" for v
  proof -
    have "ve_attested r" using v by (auto simp: parts(2) verified_from_def)
    then have "\<exists>a v'. attestation_bound p (ve_document r) a di (v', ve_measurement r) \<and> ve_verifier r = Some v'"
      using ok unfolding receipt_ok_def Let_def by blast
    then have "v \<in> set (rp_verifiers p)" using v unfolding attestation_bound_def by force
    moreover have "all_digests (rp_verifiers p) ''allowed verifier digest'' = Inr ()"
      using parts(1) unfolding validate_policy_def by (elim bindE_InrE guardE_InrE) simp
    ultimately show ?thesis by (auto simp: all_digests_def list_ex_iff elim!: guardE_InrE)
  qed
  ultimately show ?thesis by (simp add: receipt_named_def)
qed

lemma execution_checked:
  assumes "execution_binding t a receipt = Inr x" "\<forall>r. receipt = Some r \<longrightarrow> receipt_named r"
  shows "check_execution (JObj x) = Inr ()"
proof -
  have keys: "keys_are (execution_document i q b c v) execution_binding_keys" for i q b c v
    by (auto simp: keys_are_def execution_document_def execution_binding_keys_def)
  have "check_execution (JObj (execution_document i q b c v)) = Inr ()"
    if "(c \<and> \<not> b) = False" "\<forall>s \<in> {i, q, v}. \<forall>y. s = Some y \<longrightarrow> sha_digest_text y" for i q b c v
    unfolding check_execution_def require_exact_keys_def json.case
    using keys [of i q b c v] that
    by (cases i; cases q; cases v; cases c) (simp_all add: execution_document_def jget_def opt_text_def sha_digest_def)
  then show ?thesis using execution_binding_InrD [OF assms(1)] assms(2) unfolding receipt_named_def by auto
qed

section \<open>The evaluation is computed and signed\<close>

lemma get_member: "distinct (map fst d) \<Longrightarrow> (k, v) \<in> set d \<Longrightarrow> jget d k = v"
  by (simp add: jget_def)

lemma get_evaluation:
  "jget (evaluation_document t a cs m me x) ''schema'' = JStr ''cathedral_verified_policy_evaluation_v1''"
  "jget (evaluation_document t a cs m me x) ''evaluated_at'' = JStr m"
  "jget (evaluation_document t a cs m me x) ''case_count'' = JInt (int (length cs))"
  "jget (evaluation_document t a cs m me x) ''rare_case_count'' = JInt (\<Sum>l \<leftarrow> pt_rare t. label_count cs l)"
  "jget (evaluation_document t a cs m me x) ''case_results_digest'' =
     JStr (prefixed_digest ''cathedral-verified-policy-case-results-v1'' (canonical_json [(''results'', case_results a cs)]))"
  "jget (evaluation_document t a cs m me x) ''metrics'' = JObj me"
  "jget (evaluation_document t a cs m me x) ''execution'' = JObj x"
  by (rule get_member; simp add: evaluation_document_def)+

lemma get_binding: "kv \<in> set (evaluation_bindings t a) \<Longrightarrow> jget (evaluation_document t a cs m me x) (fst kv) = snd kv"
proof -
  assume "kv \<in> set (evaluation_bindings t a)"
  then have "(fst kv, snd kv) \<in> set (evaluation_document t a cs m me x)"
    unfolding evaluation_bindings_def evaluation_document_def by (elim set_ConsD [THEN disjE]) auto
  moreover have "distinct (map fst (evaluation_document t a cs m me x))" by (simp add: evaluation_document_def)
  ultimately show ?thesis using get_member by blast
qed

lemma foldE_unit: "\<forall>x \<in> set xs. f () x = Inr () \<Longrightarrow> foldE f () xs = Inr ()"
  by (induction xs) simp_all

lemma case_counts:
  assumes "task_ok t" "cases_ok t cs"
  shows "0 < int (length cs) \<and> int (length cs) \<le> 4096 \<and> 0 < (\<Sum>l \<leftarrow> pt_rare t. label_count cs l) \<and>
    (\<Sum>l \<leftarrow> pt_rare t. label_count cs l) \<le> 262144"
proof -
  have rare: "pt_rare t \<noteq> []" "set (pt_rare t) \<subseteq> set (pt_labels t)" "length (pt_labels t) \<le> 64" "distinct (pt_rare t)"
    using assms(1) sorted_uniqueD by (auto simp: task_ok_def MAX_LABELS_def)
  have pos: "0 < label_count cs l" if "l \<in> set (pt_rare t)" for l using assms(2) rare(2) that by (auto simp: cases_ok_def)
  have count: "label_count cs l \<le> int (length cs)" for l by (simp add: label_count_def)
  obtain l ls where l: "pt_rare t = l # ls" using rare(1) by (cases "pt_rare t") auto
  have some: "0 < label_count cs l" using pos l by simp
  have "0 \<le> (\<Sum>l \<leftarrow> ls. label_count cs l)" by (rule sum_list_nonneg) (auto simp: label_count_def)
  then have "0 < (\<Sum>l \<leftarrow> pt_rare t. label_count cs l)" using some l by simp
  moreover have cs: "length cs \<le> 4096" using assms(2) by (simp add: cases_ok_def examples_ok_def MAX_EXAMPLES_def)
  then have "label_count cs l \<le> 4096" for l using count [of l] by linarith
  then have "(\<Sum>l \<leftarrow> pt_rare t. label_count cs l) \<le> (\<Sum>l \<leftarrow> pt_rare t. 4096)" by (rule sum_list_mono)
  moreover have "length (pt_rare t) \<le> length (pt_labels t)"
    using rare(2,4) by (metis card_length card_mono distinct_card List.finite_set order_trans)
  moreover have "0 < int (length cs)" using some count [of l] by linarith
  ultimately show ?thesis using cs rare(3) by (simp add: sum_list_triv)
qed

lemma check_metricsI:
  assumes "keys_are m evaluation_metric_keys" "\<forall>(k, v) \<in> set m. \<exists>d. parse_floor v k = Inr d"
  shows "check_metrics (JObj m) = Inr ()"
proof -
  have "foldE (\<lambda>u (name, x). bindE (parse_floor x name) (\<lambda>_. Inr ())) () m = Inr ()"
    by (rule foldE_unit) (use assms(2) in force)
  then show ?thesis using assms(1) by (simp add: check_metrics_def require_exact_keys_def)
qed

lemma metrics_checked:
  assumes "score_text s" "score_text (pm_rare m)" "score_text (pm_faithfulness m)" "score_text (pm_compactness m)"
  shows "check_metrics (JObj (metrics_document s m attested)) = Inr () \<and>
    check_metrics (JObj (canonical_dict (metrics_document s m attested))) = Inr ()"
proof -
  let ?m = "metrics_document s m attested"
  have keys: "keys_are ?m evaluation_metric_keys" by (auto simp: keys_are_def metrics_document_def evaluation_metric_keys_def)
  have floor: "\<exists>d. parse_floor v k = Inr d" if "(k, v) \<in> set ?m" for k v
    using that assms parse_floor_text by (auto simp: metrics_document_def split: if_splits)
  have "\<exists>d. parse_floor v k = Inr d" if member: "(k, v) \<in> set (canonical_dict ?m)" for k v
  proof -
    obtain w where "(k, w) \<in> set ?m" "v = jsort w" using member by (auto simp: canonical_dict_def)
    then show ?thesis using floor by simp
  qed
  then show ?thesis using keys floor by (intro conjI check_metricsI) auto
qed

lemma check_execution_cong: "fst ` set x = fst ` set y \<Longrightarrow> \<forall>k. jget x k = jget y k \<Longrightarrow> check_execution (JObj x) = check_execution (JObj y)"
proof -
  assume keys: "fst ` set x = fst ` set y" and gets: "\<forall>k. jget x k = jget y k"
  have eq: "jget x = jget y" using gets by (intro ext) blast
  show "check_execution (JObj x) = check_execution (JObj y)"
    unfolding check_execution_def require_exact_keys_def keys_are_def keys json.case eq by (rule refl)
qed

lemma execution_document_sorted:
  "jget (canonical_dict (execution_document i q b c v)) k = jget (execution_document i q b c v) k"
proof -
  have "distinct (map fst (execution_document i q b c v))" by (simp add: execution_document_def)
  moreover have "jsort (jget (execution_document i q b c v) k) = jget (execution_document i q b c v) k"
    by (simp add: execution_document_def jget_def opt_text_def split: option.splits)
  ultimately show ?thesis using jget_canonical by metis
qed

lemma evaluation_fields_checked:
  assumes "jget d ''schema'' = JStr ''cathedral_verified_policy_evaluation_v1''"
    and bound: "\<And>kv. kv \<in> set (evaluation_bindings t a) \<Longrightarrow> jget d (fst kv) = snd kv"
    and "jget d ''evaluated_at'' = JStr m" "\<And>l. parse_time (JStr m) l = Inr n"
    and "jget d ''case_count'' = JInt i" "0 < i" "jget d ''rare_case_count'' = JInt j" "0 < j"
    and "jget d ''case_results_digest'' = JStr g" "sha_digest_text g"
    and "check_metrics (jget d ''metrics'') = Inr ()" "check_execution (jget d ''execution'') = Inr ()"
  shows "validate_evaluation_body d t a = Inr ()"
proof -
  have "foldE (binding_step d) () (evaluation_bindings t a) = Inr ()"
    by (rule foldE_unit) (simp add: binding_step_def bound)
  moreover have "positive_int (JInt i) l = Inr i" "positive_int (JInt j) l = Inr j" for l
    using assms by (simp_all add: positive_int_Inr)
  ultimately show ?thesis unfolding validate_evaluation_body_def by (simp add: assms sha_digest_def)
qed

lemma evaluation_strict:
  assumes t: "task_ok t" "task_stored t" "cases_ok t cs" and x: "strict_ok (JObj x)" and me: "strict_ok (JObj me)"
  shows "strict_ok (JObj (evaluation_document t a cs m me x))"
proof -
  have "int64 (int (length cs))" "int64 (\<Sum>l \<leftarrow> pt_rare t. label_count cs l)"
    using case_counts [OF t(1,3)] by (simp_all add: int64_def)
  then show ?thesis using t(2) x me by (simp add: evaluation_document_def task_stored_def natural64_def int64_def)
qed

section \<open>The evaluation is accepted\<close>

lemma plain_evaluation [simp]: "plain_field evaluation_seal f \<longleftrightarrow> f \<noteq> ''evaluation_id'' \<and> f \<noteq> ''signature''"
  by (simp add: plain_field_def evaluation_seal_def)

lemma binding_fields: "kv \<in> set (evaluation_bindings t a) \<Longrightarrow> plain_field evaluation_seal (fst kv) \<and> jsort (snd kv) = snd kv"
  unfolding evaluation_bindings_def by (elim set_ConsD [THEN disjE]) auto

definition signs_for :: "world \<Rightarrow> string \<Rightarrow> keypair \<Rightarrow> bool" where
  "signs_for env hotkey key =
     (kp_address key = hotkey \<and> (\<forall>m. \<exists>sig. kp_sign key m = Some sig \<and> length sig = 64 \<and> or_sr env hotkey m sig = Some True))"

lemma evaluation_exchange:
  assumes t: "verify_task env traw tx now = Inr t" and cs: "hidden_cases suite t = Inr cs"
    and x: "execution_binding t a receipt = Inr x" "\<forall>r. receipt = Some r \<longrightarrow> receipt_named r"
    and time: "\<And>l. parse_time (JStr m) l = Inr n" and key: "signs_for env (pt_validator t) key"
  shows "\<exists>d raw. evaluate_policy t a suite m receipt = Inr d \<and> sign_evaluation d key t a = Inr raw \<and>
    (int (length raw) \<le> MAX_EVALUATION_BYTES \<longrightarrow> (\<exists>e. verify_evaluation env raw t a suite receipt = Inr e \<and> pe_evaluated e = n \<and>
       pe_id e = sealed_id evaluation_seal d))"
proof -
  have ok: "task_ok t" "task_stored t" using verify_task_stored [OF t] by blast+
  have cases: "cases_ok t cs" by (rule hidden_cases_ok [OF cs])
  obtain s me where me: "score_decimal (mean_recall a cs (pt_labels t)) = Inr s" "score_text s" "policy_metrics_of t a cs = Inr me"
    "score_text (pm_rare me)" "score_text (pm_faithfulness me)" "score_text (pm_compactness me)"
    using metrics_texts [OF ok(1) cases] by blast
  let ?m = "metrics_document s me (truthy (jget x ''attestation_verified''))"
  let ?d = "evaluation_document t a cs m ?m x"
  have eval: "evaluate_policy t a suite m receipt = Inr ?d" by (simp add: evaluate_policy_def cs me x(1))
  obtain i q b c v where xe: "x = execution_document i q b c v" using execution_binding_shape [OF x(1)] by blast
  note counts = case_counts [OF ok(1) cases]
  have exec: "check_execution (JObj x) = Inr ()" by (rule execution_checked [OF x])
  have exec_sorted: "check_execution (JObj (canonical_dict x)) = Inr ()"
    using exec check_execution_cong [of "canonical_dict x" x] execution_document_sorted by (simp add: xe)
  note metrics = metrics_checked [OF me(2,4-6), of "truthy (jget x ''attestation_verified'')"]
  have body: "validate_evaluation_body ?d t a = Inr ()"
    by (rule evaluation_fields_checked [OF get_evaluation(1) get_binding get_evaluation(2) time get_evaluation(3) _ get_evaluation(4) _
      get_evaluation(5) sha_digest_text_sha(2)]) (use counts metrics exec in \<open>simp_all add: get_evaluation\<close>)
  have strict: "strict_ok (JObj ?d)"
    by (rule evaluation_strict [OF ok cases]) (simp_all add: xe execution_document_def metrics_document_def opt_text_def split: option.splits)
  let ?s = "dict_set ''evaluation_id'' (JStr (sealed_id evaluation_seal ?d)) ?d"
  obtain sig where sig: "kp_sign key (sealed_message evaluation_seal ?s) = Some sig" "length sig = 64" using key unfolding signs_for_def by blast
  have law: "or_sr env (pt_validator t) m' sig' = Some True" if "kp_sign key m' = Some sig'" for m' sig'
    using key that unfolding signs_for_def by (metis option.inject)
  have fields: "fst ` set ?d = set evaluation_keys - {''evaluation_id'', ''signature''}"
    by (auto simp: evaluation_document_def evaluation_keys_def)
  then have new: "''evaluation_id'' \<notin> fst ` set ?d" "''signature'' \<notin> fst ` set ?d" by auto
  obtain raw where raw: "seal_document evaluation_seal key ?d = Inr raw"
    using sig by (simp add: seal_document_def evaluation_seal_def Let_def sign_sr25519_def guardE_def)
  have "kp_address key = pt_validator t" using key by (simp add: signs_for_def)
  then have signed: "sign_evaluation ?d key t a = Inr raw" using new by (simp add: sign_evaluation_def body raw)
  have "\<exists>e. verify_evaluation env raw t a suite receipt = Inr e \<and> pe_evaluated e = n \<and> pe_id e = sealed_id evaluation_seal ?d"
    if len: "int (length raw) \<le> MAX_EVALUATION_BYTES"
  proof -
    have keys: "set evaluation_keys = {sl_field evaluation_seal, ''signature''} \<union> fst ` set ?d"
      unfolding fields by (auto simp: evaluation_seal_def evaluation_keys_def)
    have new': "sl_field evaluation_seal \<notin> fst ` set ?d" "sl_field evaluation_seal \<noteq> ''signature''"
      using new by (simp_all add: evaluation_seal_def)
    obtain c' where c': "open_document raw MAX_EVALUATION_BYTES ''policy evaluation'' evaluation_keys = Inr c'"
      and o: "opened env evaluation_seal (pt_validator t) ?d c'"
      using seal_opens [OF strict raw len new'(2,1) new(2) keys law] by blast
    have get: "jget c' f = jsort (jget ?d f)" if "plain_field evaluation_seal f" for f using o that by (simp add: opened_def)
    have gets: "jget c' ''schema'' = JStr ''cathedral_verified_policy_evaluation_v1''" "jget c' ''evaluated_at'' = JStr m"
      "jget c' ''case_count'' = JInt (int (length cs))" "jget c' ''rare_case_count'' = JInt (\<Sum>l \<leftarrow> pt_rare t. label_count cs l)"
      "jget c' ''case_results_digest'' = jget ?d ''case_results_digest''"
      "jget c' ''metrics'' = JObj (canonical_dict ?m)" "jget c' ''execution'' = JObj (canonical_dict x)"
      by (simp_all add: get get_evaluation jsort_dict del: jsort.simps(2))
    have "validate_evaluation_body c' t a = Inr ()"
    proof (rule evaluation_fields_checked [OF gets(1) _ gets(2) time gets(3) _ gets(4) _ gets(5) [unfolded get_evaluation(5)] sha_digest_text_sha(2)])
      show "jget c' (fst kv) = snd kv" if "kv \<in> set (evaluation_bindings t a)" for kv
        using binding_fields [OF that] get_binding [OF that] by (simp add: get)
    qed (use counts metrics exec_sorted in \<open>simp_all add: gets(6,7)\<close>)
    moreover have "check_seal env evaluation_seal (pt_validator t) c' = Inr (sealed_id evaluation_seal ?d)" "unsigned_part ''evaluation_id'' c' = canonical_dict ?d"
      using o by (simp_all add: opened_def evaluation_seal_def)
    moreover have "py_eq (JObj ?d) (JObj (canonical_dict ?d))" using py_eq_jsort [OF strict] by (simp add: jsort_dict del: jsort.simps(2) py_eq.simps)
    ultimately show ?thesis
      by (simp add: verify_evaluation_def c' gets(2) str_value_def eval time del: py_eq.simps)
  qed
  then show ?thesis using eval signed by blast
qed

section \<open>The reference miner's artifact is accepted\<close>

lemma candidates_bound: "length (candidates t) \<le> length (pt_examples t)"
proof -
  have "length (foldl (\<lambda>d e. let c = candidate_of t e in dict_set (candidate_key c) c d) d es) \<le> length d + length es" for d es
  proof (induction es arbitrary: d)
    case (Cons e es)
    have "length (dict_set (candidate_key (candidate_of t e)) (candidate_of t e) d) \<le> Suc (length d)" by (simp add: length_dict_set)
    then show ?case using Cons.IH [of "dict_set (candidate_key (candidate_of t e)) (candidate_of t e) d"] by (simp add: Let_def)
  qed simp
  from this [of "[]"] show ?thesis by (simp add: candidates_def)
qed

lemma strict_strings [simp]: "strict_ok (strings xs)"
  by (simp add: strings_def)

lemma induced_rules_strict:
  assumes t: "task_ok t" "consistent (pt_examples t)" and r: "r \<in> set (induced_rules t)"
  shows "strict_ok (JObj r)"
proof -
  obtain n c where nc: "(n, c) \<in> set (enumerate 1 (sort_key (candidate_rank t) (map snd (candidates t))))"
    "r = (''rule_id'', JStr (rule_name n)) # candidate_row c"
    using r unfolding induced_rules_def by auto
  have "c \<in> set (map snd (enumerate 1 (sort_key (candidate_rank t) (map snd (candidates t)))))"
    unfolding set_map by (rule image_eqI [OF _ nc(1)]) simp
  then have "c \<in> set (map snd (candidates t))" by (simp only: map_snd_enumerate set_sort)
  then have "plain_conditions (ca_when c)" using candidates_subset [of t] candidate_of_plain [OF t(1) _ t(2)] by auto
  then have "strict_ok (when_json (ca_when c))" by (rule when_json_strict)
  then show ?thesis by (simp add: nc(2) candidate_row_def)
qed

text \<open>What the artifact of the reference miner achieves on the task it was induced from.\<close>

definition fits_examples :: "policy_task \<Rightarrow> policy_artifact \<Rightarrow> bool" where
  "fits_examples t a =
     ((\<forall>e \<in> set (pt_examples t). predict a (ex_features e) = ex_label e) \<and>
      (\<forall>r \<in> set (pa_rules a). rule_supported t r) \<and> evidence_faithfulness t a = Inr ''1'')"

lemma induced_exchange:
  assumes t: "task_ok t" "consistent (pt_examples t)" "length (candidates t) \<le> MAX_RULES"
    and time: "\<And>l. parse_time (JStr m) l = Inr n" "pt_issued t \<le> n" and key: "signs_for env (pt_miner t) key"
  shows "\<exists>d raw. induce_policy t m = Inr d \<and> sign_artifact d key t = Inr raw \<and>
    (int (length raw) \<le> MAX_ARTIFACT_BYTES \<longrightarrow> (\<exists>a. verify_artifact env raw t = Inr a \<and> pa_created a = n \<and>
       pa_id a = sealed_id artifact_seal d \<and> fits_examples t a))"
proof -
  let ?d = "artifact_document t (induced_rules t) (majority_label t) m"
  have made: "induce_policy t m = Inr ?d" by (rule induce_returns [OF t time])
  then have body: "validate_artifact_body ?d t = Inr ()"
    unfolding induce_policy_def make_artifact_def Let_def by (auto elim!: bindE_InrE)
  have strict: "strict_ok (JObj ?d)"
    unfolding artifact_document_def using induced_rules_strict [OF t(1,2)] by (auto simp del: strict_ok.simps(4) simp: strict_ok.simps(4) [of "(''schema'', s) # d" for s d])
  have fields: "set (map fst ?d) = set artifact_keys - {''artifact_id'', ''signature''}"
    by (auto simp: artifact_document_def artifact_keys_def)
  obtain sig where sig: "kp_sign key (sealed_message artifact_seal (dict_set ''artifact_id'' (JStr (sealed_id artifact_seal ?d)) ?d)) = Some sig"
    "length sig = 64" using key unfolding signs_for_def by blast
  obtain raw where raw: "seal_document artifact_seal key ?d = Inr raw"
    using sig by (simp add: seal_document_def artifact_seal_def Let_def sign_sr25519_def guardE_def)
  have address: "kp_address key = pt_miner t" using key by (simp add: signs_for_def)
  have "''artifact_id'' \<notin> fst ` set ?d" "''signature'' \<notin> fst ` set ?d" by (auto simp: artifact_document_def)
  then have signed: "sign_artifact ?d key t = Inr raw" using body raw address by (simp add: sign_artifact_def)
  have law: "or_sr env (kp_address key) m' sig' = Some True" if "kp_sign key m' = Some sig'" for m' sig'
    using key that unfolding signs_for_def by (metis option.inject)
  have "\<exists>a. verify_artifact env raw t = Inr a \<and> pa_created a = n \<and> pa_id a = sealed_id artifact_seal ?d \<and> fits_examples t a"
    if len: "int (length raw) \<le> MAX_ARTIFACT_BYTES"
  proof -
    obtain a where a: "verify_artifact env raw t = Inr a" "pa_id a = sealed_id artifact_seal ?d"
      "normalize_rules (jget ?d ''rules'') t = Inr (pa_rules a)" "opened env artifact_seal (pt_miner t) ?d (pa_document a)"
      using signed_artifact_verifies [OF strict fields signed len law] by blast
    have "jget ?d ''rules'' = JArr (map JObj (induced_rules t))" by (simp add: artifact_document_def jget_def)
    then have rules: "pa_rules a = induced t" using a(3) induced_normalize [OF t] by simp
    have "jget ?d ''created_at'' = JStr m" by (simp add: artifact_document_def jget_def)
    then have "jget (pa_document a) ''created_at'' = JStr m" using a(4) by (simp add: opened_def)
    moreover have "parse_time (jget (pa_document a) ''created_at'') ''artifact created_at'' = Inr (pa_created a)"
      using a(1) unfolding verify_artifact_def by (auto elim!: bindE_InrE)
    ultimately have "pa_created a = n" using time(1) by simp
    moreover have "fits_examples t a"
      using induced_predicts [OF t(1,2)] induced_supported [OF t(1,2)] induced_faithful [OF t(1,2) rules]
      by (simp add: fits_examples_def predict_def rules)
    ultimately show ?thesis using a(1,2) by blast
  qed
  then show ?thesis using made signed by blast
qed

end
