(* ===== verification/Policy_Sample.thy ===== *)
theory Policy_Sample
  imports Policy_Exchange Ml_Sample
begin

text \<open>
  A concrete run of the policy drill (\<open>cathedral_thin/verified_policy.py\<close>): one feature, two labels, a task
  with two public examples and a committed hidden suite of two cases.
\<close>

section \<open>The task\<close>

definition demo_row :: "string \<Rightarrow> string \<Rightarrow> string \<Rightarrow> jdict" where
  "demo_row i x l = [(''example_id'', JStr i), (''features'', JObj [(''f'', JStr x)]), (''label'', JStr l)]"

definition demo_nonce :: bytes where "demo_nonce = replicate 32 0"
definition demo_salt :: bytes where "demo_salt = replicate 32 1"

definition demo_suite_document :: jdict where
  "demo_suite_document =
     [(''schema'', JStr ''cathedral_verified_policy_hidden_suite_v1''), (''task_nonce_digest'', JStr (nonce_digest demo_nonce)),
      (''salt_base64'', JStr (b64encode demo_salt)), (''cases'', JArr [JObj (demo_row ''h1'' ''x'' ''a''), JObj (demo_row ''h2'' ''y'' ''b'')])]"

definition demo_suite :: bytes where "demo_suite = canonical_json demo_suite_document"

definition demo_task_terms :: task_terms where
  "demo_task_terms = \<lparr>tt_network = ''n'', tt_netuid = 39, tt_epoch = 3, tt_class = ''drill'', tt_validator = ''v'', tt_miner = ''m'',
     tt_nonce = demo_nonce, tt_issued = demo_time False, tt_first = 0, tt_last = 50, tt_features = [''f''], tt_labels = [''a'', ''b''],
     tt_rare = [''b''], tt_examples = [demo_row ''e1'' ''x'' ''a'', demo_row ''e2'' ''y'' ''b''], tt_hidden = demo_suite,
     tt_max_terms = 64, tt_quality = ''1'', tt_rare_floor = ''1''\<rparr>"

lemma prefixed_length: "length (prefixed_digest a b) = 71"
  by (simp add: prefixed_digest_def)

lemma demo_suite_bytes:
  "hidden_suite_bytes [demo_row ''h2'' ''y'' ''b'', demo_row ''h1'' ''x'' ''a''] demo_salt demo_nonce = Inr demo_suite"
proof -
  have "by_example_id [demo_row ''h2'' ''y'' ''b'', demo_row ''h1'' ''x'' ''a''] = [demo_row ''h1'' ''x'' ''a'', demo_row ''h2'' ''y'' ''b'']"
    by code_simp
  then show ?thesis by (simp add: hidden_suite_bytes_def demo_suite_def demo_suite_document_def demo_salt_def demo_nonce_def)
qed

lemma demo_suite_strict: "strict_ok (JObj demo_suite_document)"
  by (simp add: demo_suite_document_def demo_row_def)

lemma demo_suite_size: "length demo_suite \<le> 4000"
proof -
  have "length (nonce_digest demo_nonce) = 71" by (simp add: nonce_digest_def prefixed_digest_def)
  moreover have "length (b64encode demo_salt) = 44" by (simp add: length_b64encode demo_salt_def)
  ultimately have "json_bound (JObj demo_suite_document) \<le> 4000" by (simp add: demo_suite_document_def demo_row_def)
  then show ?thesis using canonical_json_bound [of demo_suite_document] unfolding demo_suite_def by linarith
qed

lemma demo_suite_parse: "n \<ge> 4000 \<Longrightarrow> parse_strict_json demo_suite n = Inr (canonical_dict demo_suite_document)"
  unfolding demo_suite_def
  by (rule parse_canonical_dict [OF demo_suite_strict]) (use demo_suite_size in \<open>simp add: demo_suite_def\<close>)

lemma demo_suite_get:
  "jget (canonical_dict demo_suite_document) ''schema'' = JStr ''cathedral_verified_policy_hidden_suite_v1''"
  "jget (canonical_dict demo_suite_document) ''task_nonce_digest'' = JStr (nonce_digest demo_nonce)"
  "jget (canonical_dict demo_suite_document) ''salt_base64'' = JStr (b64encode demo_salt)"
  "jget (canonical_dict demo_suite_document) ''cases'' = jsort (JArr [JObj (demo_row ''h1'' ''x'' ''a''), JObj (demo_row ''h2'' ''y'' ''b'')])"
  unfolding jget_strict [OF demo_suite_strict] by (simp_all add: demo_suite_document_def jget_def)

lemma demo_suite_checked: "check_hidden_suite demo_suite demo_nonce = Inr ()"
proof -
  have keys: "keys_are (canonical_dict demo_suite_document) hidden_suite_keys"
    by (auto simp: keys_are_def demo_suite_document_def hidden_suite_keys_def)
  have canon: "demo_suite = canonical_json (canonical_dict demo_suite_document)" by (simp add: demo_suite_def canonical_json_dict)
  have parse: "parse_strict_json demo_suite MAX_TASK_BYTES = Inr (canonical_dict demo_suite_document)"
    by (rule demo_suite_parse) (simp add: MAX_TASK_BYTES_def)
  show ?thesis
    unfolding check_hidden_suite_def parse bindE_Inr require_exact_keys_def demo_suite_get using keys canon by simp
qed

text \<open>The task's document, with the commitment to the suite.\<close>

definition demo_policy_task :: "string \<Rightarrow> jdict" where
  "demo_policy_task c = dict_set ''hidden_suite_commitment'' (JStr c) (task_document demo_task_terms)"

lemma demo_task_document:
  "task_document demo_task_terms =
     [(''schema'', JStr ''cathedral_verified_policy_task_v1''), (''network'', JStr ''n''), (''netuid'', JInt 39), (''source_epoch'', JInt 3),
      (''task_class'', JStr ''drill''), (''validator_hotkey'', JStr ''v''), (''miner_hotkey'', JStr ''m''),
      (''nonce_base64'', JStr (b64encode demo_nonce)), (''issued_at'', JStr (demo_time False)), (''valid_from_block'', JInt 0),
      (''valid_until_block'', JInt 50), (''feature_names'', JArr [JStr ''f'']), (''labels'', JArr [JStr ''a'', JStr ''b'']),
      (''rare_labels'', JArr [JStr ''b'']),
      (''public_examples'', JArr [JObj (demo_row ''e1'' ''x'' ''a''), JObj (demo_row ''e2'' ''y'' ''b'')]),
      (''metric_policy'', JObj [(''compactness_max_terms'', JInt 64), (''quality_floor'', JStr ''1''), (''rare_floor'', JStr ''1'')])]"
proof -
  have "by_example_id [demo_row ''e1'' ''x'' ''a'', demo_row ''e2'' ''y'' ''b''] = [demo_row ''e1'' ''x'' ''a'', demo_row ''e2'' ''y'' ''b'']"
    "sort [''f''] = [''f'']" "sort [''a'', ''b''] = [''a'', ''b'']" "sort [''b''] = [''b'']" by code_simp+
  then show ?thesis by (simp add: task_document_def demo_task_terms_def strings_def)
qed

lemma demo_task_get:
  "jget (demo_policy_task c) ''schema'' = JStr ''cathedral_verified_policy_task_v1''" "jget (demo_policy_task c) ''network'' = JStr ''n''"
  "jget (demo_policy_task c) ''netuid'' = JInt 39" "jget (demo_policy_task c) ''source_epoch'' = JInt 3"
  "jget (demo_policy_task c) ''task_class'' = JStr ''drill''" "jget (demo_policy_task c) ''validator_hotkey'' = JStr ''v''"
  "jget (demo_policy_task c) ''miner_hotkey'' = JStr ''m''" "jget (demo_policy_task c) ''nonce_base64'' = JStr (b64encode demo_nonce)"
  "jget (demo_policy_task c) ''issued_at'' = JStr (demo_time False)" "jget (demo_policy_task c) ''valid_from_block'' = JInt 0"
  "jget (demo_policy_task c) ''valid_until_block'' = JInt 50" "jget (demo_policy_task c) ''feature_names'' = JArr [JStr ''f'']"
  "jget (demo_policy_task c) ''labels'' = JArr [JStr ''a'', JStr ''b'']" "jget (demo_policy_task c) ''rare_labels'' = JArr [JStr ''b'']"
  "jget (demo_policy_task c) ''public_examples'' = JArr [JObj (demo_row ''e1'' ''x'' ''a''), JObj (demo_row ''e2'' ''y'' ''b'')]"
  "jget (demo_policy_task c) ''hidden_suite_commitment'' = JStr c"
  "jget (demo_policy_task c) ''metric_policy'' =
     JObj [(''compactness_max_terms'', JInt 64), (''quality_floor'', JStr ''1''), (''rare_floor'', JStr ''1'')]"
  by (simp_all add: demo_policy_task_def jget_dict_set demo_task_document) (simp_all add: jget_def)

definition demo_examples :: "string \<Rightarrow> string \<Rightarrow> example list" where
  "demo_examples i j = [\<lparr>ex_id = i, ex_features = [(''f'', JStr ''x'')], ex_label = ''a''\<rparr>,
     \<lparr>ex_id = j, ex_features = [(''f'', JStr ''y'')], ex_label = ''b''\<rparr>]"

lemma jget_member [simp]: "jget ((k, v) # d) k' = (if k = k' then v else jget d k')"
  by (simp add: jget_def)

lemma demo_ids:
  "policy_id ''f''" "policy_id ''a''" "policy_id ''b''" "policy_id ''e1''" "policy_id ''e2''" "policy_id ''h1''" "policy_id ''h2''"
  "text_between (JStr ''x'') 1 256" "text_between (JStr ''y'') 1 256"
  by code_simp+

lemma demo_sorted: "sorted_unique [''f'']" "sorted_unique [''a'', ''b'']" "sorted_unique [''b'']" "sorted_unique [''e1'', ''e2'']"
  "sorted_unique [''h1'', ''h2'']"
  by (rule sorted_uniqueI; code_simp)+

lemma demo_example_row:
  assumes "policy_id i" "policy_id l" "l = ''a'' \<or> l = ''b''" "text_between (JStr x) 1 256"
  shows "example_row [''f''] [''a'', ''b''] label (JObj (demo_row i x l)) = Inr \<lparr>ex_id = i, ex_features = [(''f'', JStr x)], ex_label = l\<rparr>"
proof -
  have "keys_are (demo_row i x l) example_keys" by (auto simp: keys_are_def demo_row_def example_keys_def)
  moreover have "jget (demo_row i x l) ''example_id'' = JStr i" "jget (demo_row i x l) ''features'' = JObj [(''f'', JStr x)]"
    "jget (demo_row i x l) ''label'' = JStr l" by (simp_all add: demo_row_def)
  ultimately show ?thesis using assms
    by (auto simp: example_row_def require_exact_keys_def policy_identifier_def scalar_def)
qed

lemma demo_examples_valid:
  "validate_examples (JArr [JObj (demo_row ''e1'' ''x'' ''a''), JObj (demo_row ''e2'' ''y'' ''b'')]) [''f''] [''a'', ''b''] ''public examples'' 2
     = Inr (demo_examples ''e1'' ''e2'')"
  "validate_examples (JArr [JObj (demo_row ''h1'' ''x'' ''a''), JObj (demo_row ''h2'' ''y'' ''b'')]) [''f''] [''a'', ''b''] ''hidden suite'' 2
     = Inr (demo_examples ''h1'' ''h2'')"
  using demo_ids demo_sorted by (simp_all add: validate_examples_def Let_def demo_example_row demo_examples_def MAX_EXAMPLES_def)

lemma demo_names: "task_names (demo_policy_task c) = Inr ([''f''], [''a'', ''b''], [''b''])"
proof -
  have texts: "sorted_unique_texts policy_id 1 64 (JArr [JStr ''f'']) = Some [''f'']"
    "sorted_unique_texts policy_id 2 64 (JArr [JStr ''a'', JStr ''b'']) = Some [''a'', ''b'']"
    using demo_ids demo_sorted by (simp_all add: sorted_unique_texts_def sorted_unique_def Let_def strs_of_def)
  have "names_list (JArr [JStr ''f'']) 1 MAX_FEATURES x = Inr [''f'']" "names_list (JArr [JStr ''a'', JStr ''b'']) 2 MAX_LABELS x = Inr [''a'', ''b'']"
    "rare_names (JArr [JStr ''b'']) [''a'', ''b''] = Inr [''b'']" for x
    using texts demo_sorted by (simp_all add: names_list_def MAX_FEATURES_def MAX_LABELS_def rare_names_def unhashable_def sort_kind_def strs_of_def Let_def)
  then show ?thesis by (simp add: task_names_def demo_task_get)
qed

lemma floor_one: "parse_floor (JStr ''1'') l = Inr (1, 0)"
proof -
  have "decimal_text ''1'' = Some (1, 0)" "canonical_decimal (1, 0) = Inr ''1''" by code_simp+
  then show ?thesis by (simp add: parse_floor_def dec_val_def)
qed

lemma demo_task_valid:
  assumes "sha_digest_text c"
  shows "validate_task_body (demo_policy_task c) = Inr ()"
proof -
  have "policy_id ''drill''" "keys_are [(''compactness_max_terms'', JInt 64), (''quality_floor'', JStr ''1''), (''rare_floor'', JStr ''1'')]
      metric_policy_keys" "text_between (JStr ''n'') 1 128" by code_simp+
  moreover have "canonical_b64 (JStr (b64encode demo_nonce)) l (Some 32) = Inr demo_nonce" for l
    by (simp add: canonical_b64_Inr demo_nonce_def)
  ultimately have "task_header (demo_policy_task c) = Inr ()"
    "metric_policy (JObj [(''compactness_max_terms'', JInt 64), (''quality_floor'', JStr ''1''), (''rare_floor'', JStr ''1'')]) = Inr ()"
    unfolding task_header_def demo_task_get
    by (simp_all add: natural_int_def nat_field_def int_field_def policy_identifier_def party_key_def demo_task_get
      nonempty_str_def demo_slot(1) metric_policy_def require_exact_keys_def positive_int_def floor_one)
  moreover have "sha_digest (JStr c) l = Inr c" for l using assms by (simp add: sha_digest_Inr)
  ultimately show ?thesis using demo_names [of c] demo_examples_valid(1)
    by (simp add: validate_task_body_def demo_task_get)
qed

lemma demo_task_made: "\<exists>c. make_task demo_task_terms = Inr (demo_policy_task c) \<and> sha_digest_text c \<and> length c = 71 \<and>
    hidden_suite_commitment demo_suite (task_document demo_task_terms) = Inr c"
proof -
  have terms: "tt_nonce demo_task_terms = demo_nonce" "tt_hidden demo_task_terms = demo_suite" "length demo_nonce = 32"
    by (simp_all add: demo_task_terms_def demo_nonce_def)
  have "set hidden_binding_keys \<subseteq> fst ` set (task_document demo_task_terms)" by (simp add: hidden_binding_keys_def task_document_def)
  then obtain b where "pick hidden_binding_keys (task_document demo_task_terms) = Inr b" by (meson pick_total)
  then obtain y where y: "hidden_suite_commitment demo_suite (task_document demo_task_terms) =
      Inr (prefixed_digest ''cathedral-verified-policy-hidden-suite-v1'' y)"
    using demo_suite_size by (simp add: hidden_suite_commitment_def hidden_suite_binding_def)
  define c where "c = prefixed_digest ''cathedral-verified-policy-hidden-suite-v1'' y"
  have c: "hidden_suite_commitment demo_suite (task_document demo_task_terms) = Inr c" "sha_digest_text c" "length c = 71"
    unfolding c_def y by (simp_all only: sha_digest_text_sha prefixed_length)
  have "make_task demo_task_terms = Inr (demo_policy_task c)"
    using demo_task_valid [OF c(2)] by (simp add: make_task_def terms demo_suite_checked c(1) Let_def flip: demo_policy_task_def)
  then show ?thesis using c by blast
qed

section \<open>The accepted task\<close>

definition demo_task_context :: task_context where
  "demo_task_context = \<lparr>tc_network = ''n'', tc_netuid = 39, tc_block = 7, tc_validator = Some ''v'', tc_miner = Some ''m'', tc_max_age = 3600,
     tc_max_future = 30, tc_max_span = 7200\<rparr>"

definition demo_verified :: "policy_task \<Rightarrow> bool" where
  "demo_verified t =
     ((\<exists>traw. verify_task demo_ml_world traw demo_task_context (Some demo_now) = Inr t) \<and> pt_features t = [''f''] \<and>
      pt_labels t = [''a'', ''b''] \<and> pt_rare t = [''b''] \<and> pt_examples t = demo_examples ''e1'' ''e2'' \<and> pt_miner t = ''m'' \<and>
      pt_validator t = ''v'' \<and> pt_network t = ''n'' \<and> pt_netuid t = 39 \<and> pt_epoch t = 3 \<and> pt_first t = 0 \<and> pt_last t = 50 \<and>
      pt_issued t = demo_now \<and> pt_max_terms t = 64 \<and> pt_quality t = (1, 0) \<and> pt_rare_floor t = (1, 0) \<and>
      hidden_cases demo_suite t = Inr (demo_examples ''h1'' ''h2''))"

lemma jitem_member: "k \<in> fst ` set d \<Longrightarrow> jitem d k = Inr (jget d k)"
  by (cases "map_of d k") (auto simp: jitem_def jget_def map_of_eq_None_iff)

lemma pick_cong:
  "(\<And>k. k \<in> set ks \<Longrightarrow> k \<in> fst ` set c \<and> k \<in> fst ` set d \<and> jget c k = jget d k) \<Longrightarrow> pick ks c = pick ks d"
  unfolding pick_def by (rule mapE_cong_list) (simp add: jitem_member)

lemma signs_demo: "signs_for demo_ml_world address (demo_key address)"
  by (simp add: signs_for_def demo_key_def demo_ml_world_def)

lemma demo_task_strict: "strict_ok (JObj (demo_policy_task c))"
proof -
  have "strict_ok (JObj (task_document demo_task_terms))" unfolding demo_task_document demo_row_def by (simp add: int64_def)
  then show ?thesis unfolding demo_policy_task_def by (rule strict_dict_set) simp
qed

lemma demo_task_fields: "set (map fst (demo_policy_task c)) = set task_keys - {''task_id'', ''signature''}"
  by (auto simp: demo_policy_task_def task_document_def task_keys_def)

lemma demo_task_admitted: "task_admitted demo_task_context (demo_policy_task c) (Some demo_now) = Inr demo_now"
  using demo_slot(1) [of False] demo_slot(5,6) [of False]
  by (simp add: task_admitted_def demo_task_context_def demo_task_get unexpected_def natural_int_def nat_field_def int_field_def
    demo_moment_def Let_def)

lemma demo_task_size: "length c = 71 \<Longrightarrow> json_bound (JObj (demo_policy_task c)) \<le> 20000"
proof -
  assume c: "length c = 71"
  have n: "length (b64encode demo_nonce) = 44" by (simp add: length_b64encode demo_nonce_def)
  have ints: "length (int_str 39) = 2" "length (int_str 3) = 1" "length (int_str 0) = 1" "length (int_str 50) = 2" "length (int_str 64) = 2"
    by code_simp+
  have "json_bound (JObj (task_document demo_task_terms)) \<le> 10000"
    unfolding demo_task_document demo_row_def using n ints demo_slot(4) [of False] by simp
  then show ?thesis
    using json_bound_set [of "''hidden_suite_commitment''" "JStr c" "task_document demo_task_terms"] c
    by (simp add: demo_policy_task_def del: json_bound.simps(4))
qed

lemma sealed_bound:
  assumes "length i = 71" "json_bound g \<le> 1000"
  shows "json_bound (JObj (dict_set ''signature'' g (dict_set f (JStr i) d))) \<le> json_bound (JObj d) + 6 * length f + 2000"
  using json_bound_set [of "''signature''" g "dict_set f (JStr i) d"] json_bound_set [of f "JStr i" d] assms
  by (simp del: json_bound.simps(4))

lemma demo_sealed: "\<exists>raw. seal_document k (demo_key a) d = Inr raw \<and> length raw \<le> json_bound (JObj d) + 6 * length (sl_field k) + 2000"
proof -
  define s where "s = dict_set (sl_field k) (JStr (sealed_id k d)) d"
  define g where "g = signature_object ''sr25519'' (demo_sign (sealed_message k s))"
  have raw: "seal_document k (demo_key a) d = Inr (canonical_json (dict_set ''signature'' g s))"
    by (simp add: seal_document_def sign_sr25519_def demo_key_def Let_def s_def g_def)
  have "length (sealed_id k d) = 71" by (simp add: sealed_id_def prefixed_digest_def)
  then have "json_bound (JObj (dict_set ''signature'' g s)) \<le> json_bound (JObj d) + 6 * length (sl_field k) + 2000"
    unfolding s_def g_def by (rule sealed_bound [OF _ demo_signature_bound])
  then have "length (canonical_json (dict_set ''signature'' g s)) \<le> json_bound (JObj d) + 6 * length (sl_field k) + 2000"
    using canonical_json_bound order_trans by blast
  then show ?thesis using raw by blast
qed

text \<open>The suite opens against any accepted form of the task.\<close>

lemma demo_suite_opened:
  "open_document demo_suite MAX_TASK_BYTES ''hidden suite'' hidden_suite_keys = Inr (canonical_dict demo_suite_document)"
proof -
  have keys: "(\<not> keys_are (canonical_dict demo_suite_document) hidden_suite_keys) = False"
    by (auto simp: keys_are_def demo_suite_document_def hidden_suite_keys_def)
  have chomp: "chomp demo_suite = demo_suite" unfolding demo_suite_def by (rule chomp_canonical)
  have parse: "parse_strict_json demo_suite MAX_TASK_BYTES = Inr (canonical_dict demo_suite_document)"
    by (rule demo_suite_parse) (simp add: MAX_TASK_BYTES_def)
  have canon: "(demo_suite \<noteq> canonical_json (canonical_dict demo_suite_document)) = False"
    by (simp add: demo_suite_def canonical_json_dict)
  show ?thesis unfolding open_document_def chomp parse bindE_Inr canon guardE_simps require_exact_keys_def keys by (rule refl)
qed

lemma demo_hidden_cases:
  assumes "hidden_suite_commitment demo_suite (pt_document t) = Inr (pt_commitment t)"
    and "jget (pt_document t) ''nonce_base64'' = JStr (b64encode demo_nonce)" "pt_features t = [''f'']" "pt_labels t = [''a'', ''b'']"
  shows "hidden_cases demo_suite t = Inr (demo_examples ''h1'' ''h2'')"
proof -
  have chomp: "chomp demo_suite = demo_suite" unfolding demo_suite_def by (rule chomp_canonical)
  have b64: "canonical_b64 (JStr (b64encode demo_nonce)) l (Some 32) = Inr demo_nonce" "canonical_b64 (JStr (b64encode demo_salt)) l (Some 32) = Inr demo_salt" for l
    by (simp_all add: canonical_b64_Inr demo_nonce_def demo_salt_def)
  have strict: "strict_ok (JArr [JObj (demo_row ''h1'' ''x'' ''a''), JObj (demo_row ''h2'' ''y'' ''b'')])" by (simp add: demo_row_def)
  have len: "length [''a'', ''b''] = 2" by simp
  have cases: "validate_examples (jsort (JArr [JObj (demo_row ''h1'' ''x'' ''a''), JObj (demo_row ''h2'' ''y'' ''b'')])) [''f''] [''a'', ''b''] ''hidden suite'' 2
      = Inr (demo_examples ''h1'' ''h2'')"
    unfolding validate_examples_jsort [OF strict] by (rule demo_examples_valid(2))
  have covered: "list_ex (\<lambda>l. label_count (demo_examples ''h1'' ''h2'') l = 0) [''a'', ''b''] = False"
    by (simp add: demo_examples_def label_count_def)
  show ?thesis
    unfolding hidden_cases_def chomp assms bindE_Inr demo_suite_opened demo_suite_get b64 len cases covered by simp
qed

lemma demo_task_accepted:
  "\<exists>traw t c. verify_task demo_ml_world traw demo_task_context (Some demo_now) = Inr t \<and>
     task_value (demo_policy_task c) (sealed_id task_seal (demo_policy_task c)) demo_now = Inr (t\<lparr>pt_document := demo_policy_task c\<rparr>) \<and>
     same_body task_seal (demo_policy_task c) (pt_document t) \<and>
     hidden_suite_commitment demo_suite (task_document demo_task_terms) = Inr c"
proof -
  obtain c where c: "make_task demo_task_terms = Inr (demo_policy_task c)" "sha_digest_text c" "length c = 71"
    and commit: "hidden_suite_commitment demo_suite (task_document demo_task_terms) = Inr c" using demo_task_made by blast
  let ?d = "demo_policy_task c"
  obtain traw where traw: "seal_document task_seal (demo_key ''v'') ?d = Inr traw" "length traw \<le> json_bound (JObj ?d) + 6 * length (sl_field task_seal) + 2000"
    using demo_sealed by blast
  have "''task_id'' \<notin> fst ` set ?d" "''signature'' \<notin> fst ` set ?d" using demo_task_fields [of c] by auto
  then have signed: "sign_task ?d (demo_key ''v'') = Inr traw"
    using traw(1) demo_task_valid [OF c(2)] by (simp add: sign_task_def demo_task_get) (simp add: demo_key_def)
  have size: "int (length traw) \<le> MAX_TASK_BYTES"
    using traw(2) demo_task_size [OF c(3)] by (simp add: task_seal_def MAX_TASK_BYTES_def)
  obtain t t' c' where v: "verify_task demo_ml_world traw demo_task_context (Some demo_now) = Inr t"
    "task_value ?d (sealed_id task_seal ?d) demo_now = Inr t'" "t = t'\<lparr>pt_document := c'\<rparr>" "opened demo_ml_world task_seal (kp_address (demo_key ''v'')) ?d c'"
    using signed_task_verifies [OF demo_task_strict demo_task_fields signed size demo_key_law demo_task_admitted] by blast
  have "pt_document t' = ?d" using v(2) unfolding task_value_def Let_def by (auto elim!: bindE_InrE)
  then have "t\<lparr>pt_document := ?d\<rparr> = t'" by (simp add: v(3))
  then show ?thesis using v opened_body [OF v(4)] commit by (intro exI [of _ traw] exI [of _ t] exI [of _ c]) simp
qed

lemma demo_task_value:
  "task_value (demo_policy_task c) i n = Inr \<lparr>pt_id = i, pt_network = ''n'', pt_netuid = 39, pt_epoch = 3, pt_validator = ''v'',
     pt_miner = ''m'', pt_issued = n, pt_first = 0, pt_last = 50, pt_features = [''f''], pt_labels = [''a'', ''b''], pt_rare = [''b''],
     pt_examples = demo_examples ''e1'' ''e2'', pt_commitment = c, pt_quality = (1, 0), pt_rare_floor = (1, 0), pt_max_terms = 64,
     pt_document = demo_policy_task c\<rparr>"
proof -
  have m: "sub_object (demo_policy_task c) ''metric_policy'' = [(''compactness_max_terms'', JInt 64), (''quality_floor'', JStr ''1''), (''rare_floor'', JStr ''1'')]"
    by (simp add: sub_object_def demo_task_get)
  show ?thesis
    unfolding task_value_def demo_names bindE_Inr prod.case demo_task_get demo_examples_valid(1) m Let_def jget_member floor_one
    by (simp add: str_value_def int_field_def floor_one)
qed

lemma demo_task_verified: "\<exists>t. demo_verified t"
proof -
  obtain traw t c where v: "verify_task demo_ml_world traw demo_task_context (Some demo_now) = Inr t"
    "task_value (demo_policy_task c) (sealed_id task_seal (demo_policy_task c)) demo_now = Inr (t\<lparr>pt_document := demo_policy_task c\<rparr>)"
    "same_body task_seal (demo_policy_task c) (pt_document t)" "hidden_suite_commitment demo_suite (task_document demo_task_terms) = Inr c"
    using demo_task_accepted by blast
  define u where "u = t\<lparr>pt_document := demo_policy_task c\<rparr>"
  note u = v(2) [unfolded demo_task_value, folded u_def, THEN Inr_inject, symmetric]
  have same: "pt_features t = pt_features u" "pt_labels t = pt_labels u" "pt_rare t = pt_rare u" "pt_examples t = pt_examples u"
    "pt_miner t = pt_miner u" "pt_validator t = pt_validator u" "pt_network t = pt_network u" "pt_netuid t = pt_netuid u" "pt_epoch t = pt_epoch u"
    "pt_first t = pt_first u" "pt_last t = pt_last u" "pt_issued t = pt_issued u" "pt_max_terms t = pt_max_terms u" "pt_quality t = pt_quality u"
    "pt_rare_floor t = pt_rare_floor u" "pt_commitment t = pt_commitment u" by (simp_all add: u_def)
  have fields: "pt_features t = [''f'']" "pt_labels t = [''a'', ''b'']" "pt_rare t = [''b'']" "pt_examples t = demo_examples ''e1'' ''e2''"
    "pt_miner t = ''m''" "pt_validator t = ''v''" "pt_network t = ''n''" "pt_netuid t = 39" "pt_epoch t = 3" "pt_first t = 0" "pt_last t = 50"
    "pt_issued t = demo_now" "pt_max_terms t = 64" "pt_quality t = (1, 0)" "pt_rare_floor t = (1, 0)" "pt_commitment t = c"
    unfolding same u by simp_all
  obtain d where d: "open_document traw MAX_TASK_BYTES ''verified policy task'' task_keys = Inr d" "pt_document t = d"
    using verify_task_parts [OF v(1)] by blast
  have keys: "fst ` set (pt_document t) = set task_keys" using open_document_InrD [OF d(1)] by (simp add: keys_are_def d(2))
  have "pick hidden_binding_keys (pt_document t) = pick hidden_binding_keys (task_document demo_task_terms)"
  proof (rule pick_cong, intro conjI)
    fix k assume k: "k \<in> set hidden_binding_keys"
    show "k \<in> fst ` set (pt_document t)" "k \<in> fst ` set (task_document demo_task_terms)"
      using k unfolding keys by (auto simp: hidden_binding_keys_def task_keys_def demo_task_document)
    have "jget (demo_policy_task c) k = jget (task_document demo_task_terms) k"
      using k by (auto simp: demo_policy_task_def jget_dict_set hidden_binding_keys_def)
    moreover have "jget (pt_document t) k = jsort (jget (demo_policy_task c) k)"
      by (rule same_get [OF v(3)]) (use k in \<open>auto simp: hidden_binding_keys_def\<close>)
    moreover have "jsort (jget (demo_policy_task c) k) = jget (demo_policy_task c) k"
      using k unfolding hidden_binding_keys_def by (elim set_ConsD [THEN disjE]) (auto simp: demo_task_get)
    ultimately show "jget (pt_document t) k = jget (task_document demo_task_terms) k" by simp
  qed
  then have "hidden_suite_commitment demo_suite (pt_document t) = Inr (pt_commitment t)"
    using v(4) by (simp add: hidden_suite_commitment_def hidden_suite_binding_def fields)
  moreover have "jget (pt_document t) ''nonce_base64'' = JStr (b64encode demo_nonce)" using same_get [OF v(3)] by (simp add: demo_task_get)
  ultimately have "hidden_cases demo_suite t = Inr (demo_examples ''h1'' ''h2'')" using fields(1,2) by (intro demo_hidden_cases)
  then show ?thesis using v(1) fields unfolding demo_verified_def by blast
qed

section \<open>The artifact\<close>

lemma demo_consistent: "consistent (demo_examples i j)"
  by (simp add: consistent_def demo_examples_def)

end
