(* ===== verification/Policy_Properties.thy ===== *)
theory Policy_Properties
  imports Policy_Sample
begin

text \<open>
  The properties of the verified policy drill (\<open>cathedral_thin/verified_policy.py\<close>): what an accepted
  evaluation means, and that the drill of an honest miner and validator completes. Both are applied to the
  two-label sample task.
\<close>

section \<open>The sizes of the sample's documents\<close>

lemma demo_task_ids:
  assumes "demo_verified t"
  shows "length (pt_id t) = 71" "length (pt_commitment t) = 71" "task_ok t"
proof -
  obtain traw where v: "verify_task demo_ml_world traw demo_task_context (Some demo_now) = Inr t"
    using assms unfolding demo_verified_def by blast
  obtain d where "open_document traw MAX_TASK_BYTES ''verified policy task'' task_keys = Inr d"
    "check_seal demo_ml_world task_seal (str_value (jget d ''validator_hotkey'')) d = Inr (pt_id t)"
    using verify_task_parts [OF v] by blast
  then have "pt_id t = sealed_id task_seal d" using opened_sealed by blast
  then show "length (pt_id t) = 71" by (simp add: sealed_id_def prefixed_digest_def)
  have "sha_digest_text (pt_commitment t)" "task_ok t" using verify_task_stored [OF v] by (simp_all add: task_stored_def)
  then show "length (pt_commitment t) = 71" "task_ok t" by (auto simp: sha_digest_text_def hex64_def removeprefix_def)
qed


lemma demo_candidate:
  assumes "demo_verified t" "e \<in> set (pt_examples t)"
  shows "json_bound (JObj (candidate_row (candidate_of t e))) \<le> 1000"
  using assms
  by (auto simp: demo_verified_def demo_examples_def candidate_of_def generalize_def drop_feature_def matched_examples_def
    conditions_match_def condition_matches_def candidate_row_def when_json_def strings_def)

lemma demo_rule_names: "n \<in> {1, 2} \<Longrightarrow> length (rule_name n) \<le> 20"
proof -
  have "length (rule_name 1) \<le> 20" "length (rule_name 2) \<le> 20" by code_simp+
  then show "n \<in> {1, 2} \<Longrightarrow> length (rule_name n) \<le> 20" by auto
qed

lemma demo_rules_bound:
  assumes "demo_verified t"
  shows "length (candidates t) \<le> 2" "\<forall>r \<in> set (induced_rules t). json_bound (JObj r) \<le> 2000"
proof -
  show few: "length (candidates t) \<le> 2"
    using candidates_bound [of t] assms by (simp add: demo_verified_def demo_examples_def)
  show "\<forall>r \<in> set (induced_rules t). json_bound (JObj r) \<le> 2000"
  proof
    fix r assume "r \<in> set (induced_rules t)"
    then obtain n c where nc: "(n, c) \<in> set (enumerate 1 (sort_key (candidate_rank t) (map snd (candidates t))))"
      "r = (''rule_id'', JStr (rule_name n)) # candidate_row c" unfolding induced_rules_def by auto
    have "c \<in> set (map snd (enumerate 1 (sort_key (candidate_rank t) (map snd (candidates t)))))"
      unfolding set_map by (rule image_eqI [OF _ nc(1)]) simp
    then have "c \<in> set (map snd (candidates t))" by (simp only: map_snd_enumerate set_sort)
    then obtain e where e: "e \<in> set (pt_examples t)" "c = candidate_of t e" using candidates_subset [of t] by auto
    have "1 \<le> n" "n < length (sort_key (candidate_rank t) (map snd (candidates t))) + 1"
      using nc(1) unfolding in_set_enumerate_eq by (simp_all only: fst_conv)
    then have "n \<in> {1, 2}" using few by (simp only: length_sort length_map) auto
    then have "length (rule_name n) \<le> 20" by (rule demo_rule_names)
    moreover have step: "json_bound (JObj ((''rule_id'', JStr x) # d)) = 48 + 6 * length x + json_bound (JObj d)" for x d by simp
    ultimately show "json_bound (JObj r) \<le> 2000" using demo_candidate [OF assms e(1)] unfolding nc(2) e(2) step by linarith
  qed
qed

lemma sum_list_bound: "\<forall>x \<in> set xs. f x \<le> (b :: nat) \<Longrightarrow> (\<Sum>x \<leftarrow> xs. f x) \<le> length xs * b"
  by (induction xs) auto

lemma demo_artifact_bound:
  assumes t: "demo_verified t"
  shows "json_bound (JObj (artifact_document t (induced_rules t) (majority_label t) (demo_time False))) \<le> 20000"
proof -
  have "length (induced_rules t) \<le> 2" using demo_rules_bound(1) [OF t] by (simp add: induced_rules_def)
  moreover have "(\<Sum>v \<leftarrow> map JObj (induced_rules t). Suc (json_bound v)) \<le> length (map JObj (induced_rules t)) * 2001"
    by (rule sum_list_bound) (use demo_rules_bound(2) [OF t] in auto)
  ultimately have rules: "json_bound (JArr (map JObj (induced_rules t))) \<le> 5000" by (simp del: json_bound.simps(4))
  have "majority_label t \<in> set (pt_labels t)" by (rule majority_label_in [OF demo_task_ids(3) [OF t]])
  then have "length (majority_label t) = 1" using t by (auto simp: demo_verified_def)
  then show ?thesis using rules demo_task_ids(1) [OF t] demo_slot(4) [of False] t
    by (simp add: artifact_document_def demo_verified_def del: json_bound.simps(3))
qed



section \<open>The drill of the sample task\<close>


lemma demo_artifact_size:
  assumes t: "demo_verified t" and d: "induce_policy t (demo_time False) = Inr d" "sign_artifact d (demo_key ''m'') t = Inr raw"
  shows "int (length raw) \<le> MAX_ARTIFACT_BYTES"
proof -
  have doc: "d = artifact_document t (induced_rules t) (majority_label t) (demo_time False)"
    using d(1) unfolding induce_policy_def make_artifact_def Let_def by (auto elim!: bindE_InrE)
  have "seal_document artifact_seal (demo_key ''m'') d = Inr raw"
    using d(2) unfolding sign_artifact_def by (elim guardE_InrE bindE_InrE)
  then have "length raw \<le> json_bound (JObj d) + 6 * length (sl_field artifact_seal) + 2000"
    using demo_sealed [of artifact_seal "''m''" d] by auto
  then show ?thesis
    using demo_artifact_bound [OF t] unfolding doc by (simp add: artifact_seal_def MAX_ARTIFACT_BYTES_def)
qed


section \<open>Properties of the drill\<close>



text \<open>C40. The drill completes: on an accepted task whose examples do not contradict each other and induce at most 1024 rules,
  the reference miner returns an artifact that decides every public example correctly and whose every rule its cited examples
  support; signed, it is accepted while it fits the size limit; then the validator's evaluation, without a receipt or with
  any verified receipt that binds to the artifact, is computed, signed and accepted again by replay.\<close>

theorem policy_drill_completes:
  assumes "verify_task env traw tx now = Inr t" "consistent (pt_examples t)" "length (candidates t) \<le> MAX_RULES"
    and "hidden_cases suite t = Inr cs" "\<And>l. parse_time (JStr m) l = Inr n" "pt_issued t \<le> n"
    and "signs_for env (pt_miner t) miner_key" "signs_for env (pt_validator t) validator_key"
  shows "\<exists>d raw. induce_policy t m = Inr d \<and> sign_artifact d miner_key t = Inr raw \<and>
    (int (length raw) \<le> MAX_ARTIFACT_BYTES \<longrightarrow>
      (\<exists>a. verify_artifact env raw t = Inr a \<and> pa_id a = sealed_id artifact_seal d \<and> pa_created a = n \<and>
        (\<forall>x \<in> set (pt_examples t). predict a (ex_features x) = ex_label x) \<and>
        (\<forall>r \<in> set (pa_rules a). rule_supported t r) \<and> evidence_faithfulness t a = Inr ''1'' \<and>
        (\<forall>receipt x. execution_binding t a receipt = Inr x \<and>
             (\<forall>r. receipt = Some r \<longrightarrow> (\<exists>renv rraw p rnow di. verify_receipt renv rraw p rnow di = Inr r)) \<longrightarrow>
          (\<exists>ed eraw. evaluate_policy t a suite m receipt = Inr ed \<and> sign_evaluation ed validator_key t a = Inr eraw \<and>
             (int (length eraw) \<le> MAX_EVALUATION_BYTES \<longrightarrow>
               (\<exists>e. verify_evaluation env eraw t a suite receipt = Inr e \<and> pe_evaluated e = n \<and>
                  pe_id e = sealed_id evaluation_seal ed))))))"
proof -
  have ok: "task_ok t" using verify_task_stored [OF assms(1)] by blast
  obtain d raw where d: "induce_policy t m = Inr d" "sign_artifact d miner_key t = Inr raw"
    "int (length raw) \<le> MAX_ARTIFACT_BYTES \<longrightarrow> (\<exists>a. verify_artifact env raw t = Inr a \<and> pa_created a = n \<and>
       pa_id a = sealed_id artifact_seal d \<and> fits_examples t a)"
    using induced_exchange [OF ok assms(2,3,5,6,7)] by blast
  have "\<exists>ed eraw. evaluate_policy t a suite m receipt = Inr ed \<and> sign_evaluation ed validator_key t a = Inr eraw \<and>
      (int (length eraw) \<le> MAX_EVALUATION_BYTES \<longrightarrow> (\<exists>e. verify_evaluation env eraw t a suite receipt = Inr e \<and> pe_evaluated e = n \<and>
         pe_id e = sealed_id evaluation_seal ed))"
    if x: "execution_binding t a receipt = Inr x" and r: "\<forall>r. receipt = Some r \<longrightarrow> (\<exists>renv rraw p rnow di. verify_receipt renv rraw p rnow di = Inr r)"
    for a receipt x
  proof -
    have "\<forall>r. receipt = Some r \<longrightarrow> receipt_named r" using r verify_receipt_named by blast
    from evaluation_exchange [OF assms(1,4) x this assms(5,8)] show ?thesis .
  qed
  then show ?thesis using d unfolding fits_examples_def by blast
qed

theorem policy_drill_completes_witness:
  "\<exists>t d raw a. demo_verified t \<and> induce_policy t (demo_time False) = Inr d \<and> sign_artifact d (demo_key ''m'') t = Inr raw \<and>
     verify_artifact demo_ml_world raw t = Inr a \<and> evidence_faithfulness t a = Inr ''1''"
proof -
  obtain t where t: "demo_verified t" using demo_task_verified by blast
  then obtain traw where v: "verify_task demo_ml_world traw demo_task_context (Some demo_now) = Inr t"
    and cs: "hidden_cases demo_suite t = Inr (demo_examples ''h1'' ''h2'')"
    and f: "pt_examples t = demo_examples ''e1'' ''e2''" "pt_miner t = ''m''" "pt_validator t = ''v''" "pt_issued t = demo_now"
    unfolding demo_verified_def by blast
  have time: "parse_time (JStr (demo_time False)) l = Inr demo_now" for l using demo_times(1) by (simp add: demo_time_def)
  have few: "length (candidates t) \<le> MAX_RULES" using demo_rules_bound(1) [OF t] by (simp add: MAX_RULES_def)
  have same: "consistent (pt_examples t)" unfolding f by (rule demo_consistent)
  have issued: "pt_issued t \<le> demo_now" by (simp add: f)
  have keys: "signs_for demo_ml_world (pt_miner t) (demo_key ''m'')" "signs_for demo_ml_world (pt_validator t) (demo_key ''v'')"
    unfolding f by (rule signs_demo)+
  obtain d raw where d: "induce_policy t (demo_time False) = Inr d" "sign_artifact d (demo_key ''m'') t = Inr raw"
    "int (length raw) \<le> MAX_ARTIFACT_BYTES \<longrightarrow>
       (\<exists>a. verify_artifact demo_ml_world raw t = Inr a \<and> evidence_faithfulness t a = Inr ''1'')"
    using policy_drill_completes [OF v same few cs time issued keys] by blast
  then show ?thesis using demo_artifact_size [OF t d(1,2)] t by blast
qed

end
