(* ===== verification/Py_Reader.thy ===== *)
theory Py_Reader
  imports Py_Json
begin

text \<open>
  The JSON reader of \<open>Py_Json\<close> returns on every text: its scanners consume what they read, so that the fuel
  \<open>json_loads\<close> passes is never what decides a parse. More fuel gives the same document or the same error.
\<close>

section \<open>The scanners consume their text\<close>

lemma skip_ws_le: "length (skip_ws s) \<le> length s"
  by (simp add: skip_ws_def length_dropWhile_le)

lemma skip_ws_le_trans: "length s \<le> n \<Longrightarrow> length (skip_ws s) \<le> n"
  using skip_ws_le [of s] by linarith

lemma scan_string_less: "scan_string s = Some (t, r) \<Longrightarrow> length r < length s"
proof (induction "length s" arbitrary: s t r rule: less_induct)
  case less
  have IH: "length r' < length s'" if "length s' < length s" "map_option (\<lambda>(t, r). (x # t, r)) (scan_string s') = Some (t', r')" for s' t' r' x
    using less(1) [OF that(1)] that(2) by auto
  from less(2) show ?case
  proof (cases s)
    case (Cons c cs)
    show ?thesis
    proof (cases "c = QUOTE")
      case False
      show ?thesis
      proof (cases "c = BACKSLASH")
        case True
        then obtain e es where es: "cs = e # es" using less(2) False unfolding Cons by (cases cs) auto
        show ?thesis
        proof (cases "e = CHR ''u''")
          case True
          then obtain h1 h2 h3 h4 rest where r: "es = h1 # h2 # h3 # h4 # rest"
            using less(2) False \<open>c = BACKSLASH\<close> unfolding Cons es by (auto split: list.splits)
          obtain x where "map_option (\<lambda>(t, r). (x # t, r)) (scan_string rest) = Some (t, r)"
            using less(2) False \<open>c = BACKSLASH\<close> True unfolding Cons es r by (auto split: option.splits)
          from IH [OF _ this] show ?thesis by (simp add: Cons es r)
        next
          case u: False
          obtain x where "map_option (\<lambda>(t, r). (x # t, r)) (scan_string es) = Some (t, r)"
            using less(2) False \<open>c = BACKSLASH\<close> u unfolding Cons es by (auto split: option.splits)
          from IH [OF _ this] show ?thesis by (simp add: Cons es)
        qed
      next
        case b: False
        have "map_option (\<lambda>(t, r). (c # t, r)) (scan_string cs) = Some (t, r)"
          using less(2) False b unfolding Cons by (auto split: if_splits)
        from IH [OF _ this] show ?thesis by (simp add: Cons)
      qed
    qed (use less(2) Cons in simp)
  qed simp
qed

lemma scan_int_le: "scan_int s = Some (t, r) \<Longrightarrow> length r \<le> length s"
  using length_dropWhile_le [of is_digit]
  by (auto simp: scan_int_def Let_def le_SucI split: list.splits if_splits intro: order_trans)

lemma scan_frac_le: "scan_frac s = (t, r) \<Longrightarrow> length r \<le> length s"
  using length_dropWhile_le [of is_digit] by (auto simp: scan_frac_def le_SucI split: list.splits if_splits)

lemma scan_exp_le: "scan_exp s = (t, r) \<Longrightarrow> length r \<le> length s"
  using length_dropWhile_le [of is_digit] by (auto simp: scan_exp_def Let_def le_SucI split: list.splits if_splits)

lemma scan_number_le: "scan_number h s = Inr (v, r) \<Longrightarrow> length r \<le> length s"
  unfolding scan_number_def
  by (auto split: option.splits prod.splits if_splits elim!: bindE_InrE dest!: scan_int_le scan_frac_le scan_exp_le)

lemma scan_word_le: "scan_word h s = Some (Inr (v, r)) \<Longrightarrow> length r \<le> length s"
  unfolding scan_word_def by (auto split: if_splits elim!: bindE_InrE)

lemma parse_le:
  "(parse_value h n s = Inr (v, r) \<longrightarrow> length r \<le> length s) \<and>
   (parse_elems h n s = Inr (vs, r) \<longrightarrow> length r \<le> length s) \<and>
   (parse_members h n s = Inr (kvs, r) \<longrightarrow> length r \<le> length s)"
proof (induction n arbitrary: s v vs kvs r)
  case (Suc n)
  have V: "length r \<le> length s" if "parse_value h n s = Inr (v, r)" for s v r using Suc that by blast
  have E: "length r \<le> length s" if "parse_elems h n s = Inr (v, r)" for s v r using Suc that by blast
  have M: "length r \<le> length s" if "parse_members h n s = Inr (v, r)" for s v r using Suc that by blast
  have "length r \<le> length s" if p: "parse_value h (Suc n) s = Inr (v, r)"
  proof -
    obtain c cs where s: "s = c # cs" using p by (cases s) auto
    have ws: "length r \<le> Suc (length cs)" if "length r \<le> length (skip_ws cs)" for r :: string
      using that skip_ws_le [of cs] by linarith
    have tl: "length (tl (skip_ws cs)) \<le> Suc (length cs)" using skip_ws_le [of cs] by simp
    show ?thesis using p unfolding s
      by (auto simp: Let_def split: if_splits option.splits elim!: bindE_InrE
        dest: scan_string_less E M scan_number_le scan_word_le intro: ws tl less_imp_le)
  qed
  moreover have "length r \<le> length s" if p: "parse_elems h (Suc n) s = Inr (vs, r)"
  proof -
    obtain v r1 where v: "parse_value h n s = Inr (v, r1)" using p by (auto elim!: bindE_InrE)
    obtain c t where t: "skip_ws r1 = c # t" using p v by (cases "skip_ws r1") auto
    have lt: "length t < length s" using V [OF v] skip_ws_le [of r1] t by simp
    have "length r' \<le> length s" if "parse_elems h n (skip_ws t) = Inr (ws, r')" for ws r'
      using E [OF that] skip_ws_le [of t] lt by linarith
    then show ?thesis using p v t lt by (auto split: if_splits elim!: bindE_InrE)
  qed
  moreover have "length r \<le> length s" if p: "parse_members h (Suc n) s = Inr (kvs, r)"
  proof -
    obtain q cs where s: "s = q # cs" "q = QUOTE" using p by (cases s) (auto split: if_splits)
    obtain k r1 where k: "scan_string cs = Some (k, r1)" using p s by (auto split: option.splits)
    obtain r2 where r2: "skip_ws r1 = CHR '':'' # r2" using p s k by (auto split: list.splits if_splits)
    obtain v r3 where v: "parse_value h n (skip_ws r2) = Inr (v, r3)" using p s k r2 by (auto elim!: bindE_InrE)
    obtain c t where t: "skip_ws r3 = c # t" using p s k r2 v by (cases "skip_ws r3") auto
    have lt: "length t < length s"
      using scan_string_less [OF k] skip_ws_le [of r1] skip_ws_le [of r2] V [OF v] skip_ws_le [of r3] r2 t s by simp
    have "length r' \<le> length s" if "parse_members h n (skip_ws t) = Inr (ws, r')" for ws r'
      using M [OF that] skip_ws_le [of t] lt by linarith
    then show ?thesis using p s k r2 v t lt by (auto split: if_splits elim!: bindE_InrE)
  qed
  ultimately show ?case by blast
qed simp

section \<open>The fuel is enough\<close>

lemma fuel_enough:
  "(2 * length s + 1 \<le> n \<longrightarrow> n \<le> m \<longrightarrow> parse_value h m s = parse_value h n s) \<and>
   (2 * length s + 2 \<le> n \<longrightarrow> n \<le> m \<longrightarrow> parse_elems h m s = parse_elems h n s) \<and>
   (2 * length s + 2 \<le> n \<longrightarrow> n \<le> m \<longrightarrow> parse_members h m s = parse_members h n s)"
proof (induction n arbitrary: m s)
  case (Suc n)
  have V: "parse_value h m s = parse_value h n s" if "2 * length s + 1 \<le> n" "n \<le> m" for s m using Suc that by blast
  have E: "parse_elems h m s = parse_elems h n s" if "2 * length s + 2 \<le> n" "n \<le> m" for s m using Suc that by blast
  have M: "parse_members h m s = parse_members h n s" if "2 * length s + 2 \<le> n" "n \<le> m" for s m using Suc that by blast
  have "parse_value h m s = parse_value h (Suc n) s" if b: "2 * length s + 1 \<le> Suc n" "Suc n \<le> m"
  proof -
    obtain k where k: "m = Suc k" "n \<le> k" using b(2) by (cases m) auto
    show ?thesis
    proof (cases s)
      case (Cons c cs)
      have "2 * length (skip_ws cs) + 2 \<le> n" using b(1) skip_ws_le [of cs] Cons by simp
      then show ?thesis using E [OF _ k(2)] M [OF _ k(2)] by (simp add: Cons k(1) Let_def)
    qed (simp add: k)
  qed
  moreover have "parse_elems h m s = parse_elems h (Suc n) s" if b: "2 * length s + 2 \<le> Suc n" "Suc n \<le> m"
  proof -
    obtain k where k: "m = Suc k" "n \<le> k" using b(2) by (cases m) auto
    have v: "parse_value h k s = parse_value h n s" using V [OF _ k(2)] b(1) by simp
    have e: "parse_elems h k (skip_ws t) = parse_elems h n (skip_ws t)"
      if "parse_value h n s = Inr (v, r)" "skip_ws r = c # t" for v r c t
    proof (rule E [OF _ k(2)])
      have "length r \<le> length s" using parse_le that(1) by blast
      then show "2 * length (skip_ws t) + 2 \<le> n" using b(1) that(2) skip_ws_le [of r] skip_ws_le [of t] by simp
    qed
    show ?thesis unfolding k(1) parse_elems.simps(2) v
      by (rule bindE_cong) (auto simp: e split: list.splits)
  qed
  moreover have "parse_members h m s = parse_members h (Suc n) s" if b: "2 * length s + 2 \<le> Suc n" "Suc n \<le> m"
  proof -
    obtain k where k: "m = Suc k" "n \<le> k" using b(2) by (cases m) auto
    have r2: "2 * length (skip_ws r2) + 5 \<le> n" if "s = q # cs" "scan_string cs = Some (x, r1)" "skip_ws r1 = c # r2" for q cs x r1 c r2
      using b(1) that(1,3) scan_string_less [OF that(2)] skip_ws_le [of r1] skip_ws_le [of r2] by simp
    have v: "parse_value h k (skip_ws r2) = parse_value h n (skip_ws r2)"
      if "s = q # cs" "scan_string cs = Some (x, r1)" "skip_ws r1 = c # r2" for q cs x r1 c r2
      using V [OF _ k(2)] r2 [OF that] by simp
    have e: "parse_members h k (skip_ws t) = parse_members h n (skip_ws t)"
      if "s = q # cs" "scan_string cs = Some (x, r1)" "skip_ws r1 = c # r2" "parse_value h n (skip_ws r2) = Inr (w, r)" "skip_ws r = d # t"
      for q cs x r1 c r2 w r d t
    proof (rule M [OF _ k(2)])
      have "length r \<le> length (skip_ws r2)" using parse_le that(4) by blast
      then show "2 * length (skip_ws t) + 2 \<le> n"
        using r2 [OF that(1-3)] that(5) skip_ws_le [of r] skip_ws_le [of t] by simp
    qed
    show ?thesis
    proof (cases s)
      case (Cons q cs)
      show ?thesis
      proof (cases "scan_string cs")
        case (Some xr)
        obtain x r1 where xr: "scan_string cs = Some (x, r1)" using Some by (cases xr) simp
        show ?thesis
        proof (cases "skip_ws r1")
          case c: (Cons c r2)
          show ?thesis unfolding k(1) parse_members.simps(2) Cons list.case xr option.case prod.case c v [OF Cons xr c]
            by (rule if_cong [OF refl refl if_cong [OF refl refl bindE_cong]])
              (auto simp: e [OF Cons xr c] split: list.splits)
        qed (simp add: k(1) Cons xr)
      qed (simp add: k(1) Cons)
    qed (simp add: k(1))
  qed
  ultimately show ?case by blast
qed simp

lemma json_loads_fuel:
  assumes "2 * length s + 2 \<le> n"
  shows "bindE (parse_value h n (skip_ws s)) (\<lambda>(v, r). if skip_ws r = [] then Inr v else Inl PyValueError) = json_loads h s"
  using fuel_enough [of "skip_ws s" "2 * length (skip_ws s) + 2" n h] skip_ws_le [of s] assms
  by (simp add: json_loads_def Let_def)

end
