(* ===== verification/Spec2Isabelle.thy ===== *)
theory Spec2Isabelle
  imports Validator_Main Miner_Rounds Miner_Access Ml_Properties
    Ml_Verifier Policy_Properties Py_Reader
begin

text \<open>
  Verification of the Cathedral thin subnet, the package \<open>cathedral_thin\<close>.

  \<^bold>\<open>The program.\<close> A validator of the subnet runs rounds. In a round it derives a seed from a secret,
  builds for every serving peer of the metagraph a 3-SAT challenge with two planted models, sends it to the
  peer's miner, checks the returned assignment itself and keeps moving averages of the scores. A
  policy file splits the weight between this local class and external classes, whose scores arrive as
  signed reports, from pinned sources or from sources a subnet owner registers. The round ends with one vector
  of weights: it is recorded in a write-once decision store, stored as the pending vector of the
  durable state, and only then handed to the chain, again in later ticks when that failed. Besides the
  validator there are the miner that answers challenges, the receipts that
  attest inference work, with the bundles that publish them, and the drill of verified policies, whose
  evaluations like the bundles become reports of external classes.

  \<^bold>\<open>The theories\<close>, in the order of the code. Definitions keep the names of the code where Isabelle allows it;
  a method with several exits is split at them, and each piece names its part.

  \<^item> \<open>Prelude\<close>: exceptions as values of \<open>exn\<close>, results \<open>'a res = exn + 'a\<close>, \<open>bindE\<close>, \<open>guardE\<close>,
    \<open>foldE\<close>, \<open>mapE\<close>, insertion-ordered dictionaries as association lists, the collections \<open>res_iff\<close>
    and \<open>resE\<close> that take a sequenced computation apart. \<open>Py_Text\<close>, \<open>Py_Value\<close>, \<open>Py_Codec\<close>, \<open>Py_Json\<close>, \<open>Py_Reader\<close>,
    \<open>Py_Float\<close>, \<open>Py_Decimal\<close>: what the code uses of Python and its standard library, with
    \<open>sha256\<close> and HMAC computed on \<open>8 word\<close> bytes, floats as rounded rationals, and decimals at 28
    (in \<open>Ml_Aggregate\<close> at 64) digits.
  \<^item> \<open>cathedral_thin/core.py\<close>. \<open>Core_Cnf\<close>: formulas, DIMACS, the witness check. \<open>Core_Assignment\<close>: the wire
    forms of formulas and assignments. \<open>Core_Rng\<close>: \<open>HashRng\<close> and the generator. \<open>Core_Challenge\<close>: envelopes.
    \<open>Core_Scores\<close>: grades, averages, the gate, the collapse of coldkeys. \<open>Core_State\<close>:
    \<open>ValidatorState\<close> and \<open>PendingVector\<close> are the records \<open>validator_state\<close> and \<open>pending\<close>; \<open>StateStore\<close> is the record
    \<open>store\<close> of the file and its temporary, as a reader sees them and as the disk holds them.
  \<^item> \<open>cathedral_thin/score_classes.py\<close>. \<open>Score_Json\<close>: the strict dialect and the syntactic
    validators. \<open>Score_Time\<close>: times and their text. \<open>Score_Policy\<close>: the policy file. \<open>Score_Report\<close>: reports and
    registrations, signed and verified. \<open>Score_Delegation\<close>: their properties. \<open>Score_Mirror\<close>: mirrors and
    checkpoints. \<open>Score_Decide\<close>: class decisions, their composition, the decision record and its store.
  \<^item> \<open>cathedral_thin/validator.py\<close>. \<open>Validator_Round\<close>: the fingerprint, the metagraph, the peers, the vector of
    UIDs. \<open>Validator_Submit\<close>: owner registrations and the submission; \<open>ValidatorRunner\<close> is the record \<open>runner\<close>
    of what stays fixed and \<open>runner_state\<close> of what a tick changes. \<open>Validator_Tick\<close>: one tick.
    \<open>Validator_Runs\<close> and \<open>Validator_Safety\<close>: what ticks and runs keep. \<open>Validator_Main\<close>: the
    command line, the start under the lease, the loop, and the theorem over all of it.
  \<^item> \<open>cathedral_thin/miner.py\<close> and \<open>protocol.py\<close>. \<open>Miner_Solver\<close>: the external solver and its output.
    \<open>Miner_Service\<close>: the response cache and the answer to a challenge. \<open>Miner_Rounds\<close>: interleaved requests.
    \<open>Miner_Access\<close>: permits, the rate limit, the start.
  \<^item> \<open>cathedral_thin/ml_receipts.py\<close>. \<open>Ml_Receipt\<close>, \<open>Ml_Verify\<close>: making and verifying a receipt. \<open>Ml_Contract\<close>,
    \<open>Ml_Decimal\<close>, \<open>Ml_Protocol\<close>, \<open>Ml_Receipts\<close>: what a verified receipt means and that an honest one verifies.
    \<open>Ml_Bundle\<close>, \<open>Ml_Aggregate\<close>: bundles, the aggregation and the report body. \<open>Ml_Chain\<close>, \<open>Ml_Ledger\<close>,
    \<open>Ml_Credit\<close>: the chain of accepted bundles. \<open>Ml_Assembly\<close>, \<open>Ml_Report\<close>, \<open>Ml_Sample\<close>, \<open>Ml_Properties\<close>: round
    trips, a concrete bundle and the properties. \<open>Ml_Verifier\<close>: the adapter that runs a pinned quote verifier.
  \<^item> \<open>cathedral_thin/verified_policy.py\<close>. \<open>Policy_Base\<close>, \<open>Policy_Seal\<close>: sealed documents. \<open>Policy_Task\<close>,
    \<open>Policy_Tasks\<close>: the task with its committed hidden suite. \<open>Policy_Artifact\<close>, \<open>Policy_Artifacts\<close>,
    \<open>Policy_Induce\<close>: the artifact and the reference miner. \<open>Policy_Evaluate\<close>, \<open>Policy_Scores\<close>,
    \<open>Policy_Evaluations\<close>, \<open>Policy_Exchange\<close>: the evaluation and its verification by replay. \<open>Policy_Sample\<close>,
    \<open>Policy_Properties\<close>: a concrete drill and the properties.

  \<^bold>\<open>What the lemmas show.\<close> Each theory gives the laws of its operations; the numbered statements C1 to C40
  are the properties the development is for.

  \<^item> Parsers and printers are inverse or characterised: DIMACS against a grammar (C1, C2), the strict JSON
    dialect in both directions and at every stack (C11), the policy file (C12, C13).
  \<^item> A positive score is checked work: the witness check (C3), the generator (C4, C5), the
    envelope (C6), the grade (C7), the round (C21), and an honest miner does get one (C28).
  \<^item> The durable state: an atomic save (C8), loading (C9), the pending vector (C10), runs of ticks (C24 to C26)
    and the whole process (C27). A vector is what C22 says and leaves as C23 says.
  \<^item> Signed artifacts: honest ones verify (C14, C31, C33, C38), accepted ones mean what they should (C15, C16, C32),
    checkpoints forbid rollback, forks and gaps (C17, C18, C34, C35), nothing is credited twice (C36),
    decisions need evidence and are written once (C19, C20), and sums are exact (C37).
  \<^item> The miner: one answer per round (C29) and limited admission (C30).
  \<^item> The policy drill: an accepted evaluation is the replay (C39), and an honest drill completes (C40).

  \<^bold>\<open>Interfaces.\<close> Two contracts are locales, each interpreted on the code's own operations:
  \<open>accepted_chain\<close> (\<open>Score_Mirror\<close>), the rule of a checkpoint, on \<open>enforce_checkpoint\<close> and
  \<open>enforce_registration_checkpoint\<close>, and in its extension \<open>gapless_chain\<close> (\<open>Ml_Chain\<close>) on the checkpoint rule of
  bundles; and \<open>artifact_loaders\<close> (\<open>Validator_Runs\<close>), what a tick relies on from the functions that load
  reports and registrations, on \<open>load_best_report\<close> and \<open>load_best_owner_registration\<close>. State machines are
  inductive relations: the life of the pending vector (\<open>pending_step\<close>, \<open>settles\<close>), the miner's interleaved requests
  (\<open>miner_step\<close>), the ledger of bundles (\<open>ledger_step\<close>), and runs of ticks (\<open>ticks\<close>).

  \<^bold>\<open>Parameters.\<close> What is not under src/ is an argument: the zlib functions (with \<open>zlib_law\<close>: inflating
  what was deflated); in the record \<open>world\<close>, the signature checks of Ed25519 and sr25519, the test for IP literals,
  HTTP and the file system; in the environments of the validator, the chain, the SDK with its
  processing of weights, the transport and the clocks; the processes of the external solver and of the quote
  verifier. Signing keys carry a function, and where a theorem needs that a signature verifies, its hypothesis
  says so for the one key that signs. SHA-256 is computed, and where a property rests on its strength it exhibits the
  collision.

  \<^bold>\<open>Bounds and fuel.\<close> All recursion is structural, by a measure, or one of these. The JSON reader
  carries fuel, and \<open>json_loads\<close> passes twice the length of the text plus two: \<open>Py_Reader\<close> shows that
  more fuel never changes the result, on any text. The two loops of \<open>HashRng\<close> and the generator that draws from them may
  not return for every key stream; they are \<open>partial_function\<close>s, a computation that does not return is None, and C5
  says when and with what \<open>randbelow\<close> returns. A tick whose challenge generation does not return is None.

  \<^bold>\<open>The save.\<close> \<open>save_state\<close> is the sequence of system calls of the code: make and fill the temporary, fsync,
  rename, fsync of the directory, and the removal of the temporary when one of them raises. Any of them may
  fail, a write may be cut short. The store tells what a reader sees from what a
  power loss leaves: contents reach the disk with fsync at the latest, and a rename with the fsync of the
  directory at the latest, so after a rename alone the disk may hold either file. C8 is about the store between any two of
  these calls. After a power loss a temporary file may be left behind; the code never reads it.

  \<^bold>\<open>The limits of the model.\<close>

  \<^item> Text is Latin-1: code points above 255 occur only in \<open>encode_points\<close> and \<open>bounded_points\<close>, which show that a lone
    surrogate raises an error verification does not expect. On the modelled texts the encoder is total.
  \<^item> The interpreter's stack is an argument of \<open>parse_strict_json_within\<close> and \<open>canonical_json_within\<close>, whose
    overflow is the error the code reports. \<open>parse_strict_json\<close> and \<open>canonical_json\<close>, which the other
    theories use, are those of a stack that suffices; \<open>parse_within_fits\<close>, \<open>parse_within_deep\<close> and \<open>canonical_within\<close> say that they
    agree on every document that fits and that the others are refused.
  \<^item> The behaviour is that of CPython 3.11: \<open>sum()\<close> of floats adds from the left, base64 and JSON are those
    of its standard library. An operation on floats is the exact result, rounded.
  \<^item> A time is a number of microseconds; the absent \<open>now\<close> stands for a time without the UTC zone, and years below 1000
    are not printed. The messages of \<open>parse_floor\<close> are merged.
  \<^item> Concurrent queries and fetches have results that do not depend on their order; the first exception is
    taken in the order of the list, and the semaphores that bound them are not modelled. A miner's request is
    two steps, up to its reservation and from the end of its job; cancelling one is not modelled, nor are
    errors while a temporary directory is removed.

  \<^bold>\<open>Not modelled.\<close> The command line tools (\<open>policy_cli.py\<close>, \<open>report_cli.py\<close>, \<open>contributor_cli.py\<close>,
  \<open>verifyml_cli.py\<close>, \<open>preflight.py\<close>) are arguments, prompts and files around the modelled functions; \<open>e2e.py\<close> is a rehearsal script and
  \<open>bt_compat.py\<close> a switch between versions of the SDK. Of the processes, argparse, the wallets, the axon and
  the HTTP session are left out, and of the receipts \<open>new_nonce\<close> and \<open>utc_now\<close>. Outside \<open>cathedral_thin\<close>, the publisher
  service and its pipelines, the legacy validator, the lanes and the grading of \<open>scaffold\<close>, the arena game,
  the operator scripts and the deployment files are earlier or separate systems over SQL stores, remote feeds and
  deployed services, which the thin subnet does not call.
\<close>

end
